(* ===== verification/Prelude.thy ===== *)
theory Prelude
  imports Main "HOL-Library.Word" "HOL-Library.Monad_Syntax"
begin

unbundle bit_operations_syntax

section \<open>Prelude: types, standard-library operations and shared lemmas\<close>

text \<open>
  What every component of the development uses: the integer types of the program, the
  operations of the Rust standard library that the code calls (\<open>Vec::resize\<close>,
  \<open>Vec::swap_remove\<close>, \<open>HashMap::entry\<close>, \<open>u64::count_ones\<close>, \<open>u64::trailing_zeros\<close>)
  and generic lemmas on lists, maps and words.

  Conventions: a panic of the code (\<open>unwrap\<close> of \<open>None\<close>, a failed \<open>assert!\<close>, an index out
  of bounds) is the value \<open>None\<close> of an \<open>option\<close>; a \<open>HashMap\<close> is a map
  \<open>'k \<rightharpoonup> 'v\<close>, a \<open>HashSet\<close> is a set, and a \<open>Vec\<close> is a list. \<open>usize\<close> indices whose
  arithmetic is bounded by the size of memory are \<open>nat\<close>; arithmetic that the code
  performs modulo the word size is done on \<open>64 word\<close>.
\<close>

type_synonym u64 = "64 word"
type_synonym usize = "64 word"

text \<open>Facts about the results of operations that report whether they changed a set.\<close>

named_theorems abs_simps \<open>effect of an operation on the abstract value\<close>
named_theorems inv_intros \<open>preservation of a representation invariant\<close>

subsection \<open>\<open>Vec\<close>\<close>

text \<open>\<open>Vec::resize(n, x)\<close> truncates or pads with \<open>x\<close>.\<close>

definition vec_resize :: "'a list \<Rightarrow> nat \<Rightarrow> 'a \<Rightarrow> 'a list" where
  "vec_resize xs n x = take n xs @ replicate (n - length xs) x"

lemma length_vec_resize [simp]: "length (vec_resize xs n x) = n"
  by (simp add: vec_resize_def)

lemma nth_vec_resize:
  "i < n \<Longrightarrow> vec_resize xs n x ! i = (if i < length xs then xs ! i else x)"
  by (auto simp: vec_resize_def nth_append)

text \<open>\<open>Vec::swap_remove(i)\<close> puts the last element at position \<open>i\<close> and drops the end.\<close>

definition vec_swap_remove :: "'a list \<Rightarrow> nat \<Rightarrow> 'a list" where
  "vec_swap_remove xs i = butlast (xs[i := last xs])"

lemma length_vec_swap_remove [simp]:
  "length (vec_swap_remove xs i) = length xs - 1"
  by (simp add: vec_swap_remove_def)

lemma vec_swap_remove_distinct:
  assumes "distinct xs" "i < length xs"
  shows "distinct (vec_swap_remove xs i) \<and> set (vec_swap_remove xs i) = set xs - {xs ! i}"
proof -
  obtain ys y where xs: "xs = ys @ [y]"
    using assms(2) by (cases xs rule: rev_cases) auto
  show ?thesis
  proof (cases "i < length ys")
    case True
    then have "vec_swap_remove xs i = ys[i := y]"
      by (simp add: vec_swap_remove_def xs list_update_append1)
    moreover have "set (ys[i := y]) = insert y (set ys - {ys ! i})"
      using assms(1) True xs by (simp add: set_update_distinct)
    ultimately show ?thesis
      using assms(1) True xs
      by (auto simp: nth_append distinct_list_update)
  next
    case False
    then have "i = length ys" using assms(2) xs by simp
    then show ?thesis using assms(1) xs by (simp add: vec_swap_remove_def)
  qed
qed

text \<open>\<open>slice::position\<close>: the first index whose element satisfies the predicate.\<close>

fun position :: "('a \<Rightarrow> bool) \<Rightarrow> 'a list \<Rightarrow> nat option" where
  "position P [] = None"
| "position P (x # xs) = (if P x then Some 0 else map_option Suc (position P xs))"

lemma position_Some: "position P xs = Some i \<Longrightarrow> i < length xs \<and> P (xs ! i)"
  by (induction xs arbitrary: i) (auto split: if_splits)

lemma position_None: "position P xs = None \<longleftrightarrow> (\<forall>x \<in> set xs. \<not> P x)"
  by (induction xs) auto

subsection \<open>Lists cut into blocks of equal length\<close>

lemma length_concat_blocks:
  "(\<And>a. a < k \<Longrightarrow> length (f a) = c) \<Longrightarrow> length (concat (map f [0..<k])) = k * c"
  by (induction k) auto

lemma nth_concat_blocks:
  assumes "\<And>a. a < k \<Longrightarrow> length (f a) = c" "a \<le> k" "i < length (f a)"
  shows "concat (map f [0..<Suc k]) ! (a * c + i) = f a ! i"
  using assms
proof (induction k)
  case (Suc k)
  have len: "length (concat (map f [0..<Suc k])) = Suc k * c"
    by (rule length_concat_blocks) (rule Suc.prems(1))
  have upt: "concat (map f [0..<Suc (Suc k)]) = concat (map f [0..<Suc k]) @ f (Suc k)" by simp
  show ?case
  proof (cases "a = Suc k")
    case True
    then show ?thesis using len unfolding upt by (simp add: nth_append del: upt_Suc)
  next
    case False
    then have a: "a \<le> k" "length (f a) = c" using Suc.prems by auto
    then have "a * c + i < Suc a * c" using Suc.prems(3) by simp
    also have "\<dots> \<le> Suc k * c" using a by (intro mult_le_mono1) simp
    finally show ?thesis
      using Suc a len unfolding upt by (simp add: nth_append del: upt_Suc)
  qed
qed simp

subsection \<open>\<open>HashMap\<close>\<close>

text \<open>\<open>map.entry(k).or_insert(v)\<close> and \<open>map.entry(k).or_default()\<close> read as values.\<close>

definition entry_or :: "('k \<rightharpoonup> 'v) \<Rightarrow> 'k \<Rightarrow> 'v \<Rightarrow> 'v" where
  "entry_or m k d = (case m k of Some v \<Rightarrow> v | None \<Rightarrow> d)"

lemma entry_or_simps [simp]:
  "m k = Some v \<Longrightarrow> entry_or m k d = v"
  "m k = None \<Longrightarrow> entry_or m k d = d"
  by (simp_all add: entry_or_def)

lemma entry_or_upd: "entry_or (m(k \<mapsto> v)) j d = (if j = k then v else entry_or m j d)"
  by (simp add: entry_or_def)

subsection \<open>Bits of machine words\<close>

text \<open>
  \<open>u64::count_ones\<close> and \<open>u64::trailing_zeros\<close> as documented: the number of one bits, and
  the number of zero bits below the lowest one bit (64 for zero).
\<close>

definition count_ones :: "u64 \<Rightarrow> nat" where
  "count_ones w = length (filter (bit w) [0..<64])"

definition trailing_zeros :: "u64 \<Rightarrow> nat" where
  "trailing_zeros w = length (takeWhile (\<lambda>i. \<not> bit w i) [0..<64])"

lemma bit_u64_less: "bit (w :: u64) i \<Longrightarrow> i < 64"
  using bit_imp_le_length [of w i] by simp

lemma u64_eq_iff: "(v :: u64) = w \<longleftrightarrow> (\<forall>i < 64. bit v i = bit w i)"
  by (metis bit_u64_less bit_eq_iff)

lemma u64_zero_iff: "(w :: u64) = 0 \<longleftrightarrow> (\<forall>i < 64. \<not> bit w i)"
  by (simp add: u64_eq_iff)

lemma takeWhile_upt_least:
  assumes "i < n" "P i" "\<forall>j < i. \<not> P j"
  shows "takeWhile (\<lambda>j. \<not> P j) [0..<n] = [0..<i]"
proof -
  have "[0..<n] = [0..<i] @ i # [Suc i..<n]"
    using assms(1) upt_add_eq_append [of 0 i "n - i"] by (simp add: upt_conv_Cons)
  then show ?thesis using assms by (simp add: takeWhile_append)
qed

lemma trailing_zeros_props:
  assumes "w \<noteq> 0"
  shows "trailing_zeros w < 64" and "bit w (trailing_zeros w)"
    and "\<forall>j < trailing_zeros w. \<not> bit w j"
proof -
  obtain k where k: "bit w k" using assms by (metis bit_eqI bit_0_eq bot_apply bot_bool_def)
  define i where "i = (LEAST k. bit w k)"
  have i: "bit w i" "\<forall>j < i. \<not> bit w j"
    unfolding i_def using k by (auto intro: LeastI dest: not_less_Least)
  then have "i < 64" using bit_u64_less by blast
  then have "trailing_zeros w = i"
    unfolding trailing_zeros_def using i by (simp add: takeWhile_upt_least)
  then show "trailing_zeros w < 64" "bit w (trailing_zeros w)"
    "\<forall>j < trailing_zeros w. \<not> bit w j"
    using i \<open>i < 64\<close> by auto
qed

lemma unat_of_nat_add:
  assumes "i + j < 2 ^ 64"
  shows "unat (of_nat i + of_nat j :: usize) = i + j"
proof -
  have "unat (of_nat (i + j) :: usize) = (i + j) mod 2 ^ 64" by (simp only: unat_of_nat) simp
  then show ?thesis using assms by (simp only: of_nat_add mod_less)
qed

lemma bit_push_one: "bit (push_bit n 1 :: u64) i \<longleftrightarrow> i = n \<and> n < 64"
  by (auto simp: bit_simps)

lemma ex_at:
  assumes "P e \<longleftrightarrow> A" "\<not> Q e" "\<And>x. x \<noteq> e \<Longrightarrow> P x \<longleftrightarrow> Q x"
  shows "(\<exists>x. P x) \<longleftrightarrow> A \<or> (\<exists>x. Q x)"
  using assms by metis

end
