(* ===== verification/Bit_Vec.thy ===== *)
theory Bit_Vec
  imports Prelude
begin

section \<open>The growable bit vector (\<open>src/util/bit_vec.rs\<close>)\<close>

text \<open>
  \<open>BitVec<T>\<close> is a vector of 64-bit words; element \<open>i\<close> is bit \<open>i mod 64\<close> of word
  \<open>i div 64\<close>. \<open>T: Idx\<close> is a wrapper of \<open>usize\<close>, modelled by the index itself. The
  abstraction \<open>bv_set\<close> is the set of its elements; every operation is characterised by
  its effect on that set and by its \<open>bool\<close> result. The iterator \<open>BitIter\<close> is modelled
  with its wrapping \<open>usize\<close> offset and is shown to list the set in increasing order.
\<close>

subsection \<open>State and helpers\<close>

definition WORD_BYTES :: nat where "WORD_BYTES = 8"
definition WORD_BITS :: nat where "WORD_BITS = WORD_BYTES * 8"

lemma WORD_BITS_64 [simp]: "WORD_BITS = 64"
  by (simp add: WORD_BITS_def WORD_BYTES_def)

record bit_vec =
  words :: "u64 list"

definition capacity :: "u64 list \<Rightarrow> nat" where
  "capacity ws = length ws * WORD_BITS"

definition num_words :: "nat \<Rightarrow> nat" where
  "num_words cap = (cap + WORD_BITS - 1) div WORD_BITS"

definition word_index_and_mask :: "nat \<Rightarrow> nat \<times> u64" where
  "word_index_and_mask elem = (elem div WORD_BITS, push_bit (elem mod WORD_BITS) 1)"

text \<open>\<open>bitwise\<close>: the loop over the zipped words, with the accumulated difference.\<close>

fun bitwise_loop :: "(u64 \<Rightarrow> u64 \<Rightarrow> u64) \<Rightarrow> u64 list \<Rightarrow> u64 list \<Rightarrow> u64 \<Rightarrow> u64 list \<times> u64" where
  "bitwise_loop op (out_elem # out_vec) (in_elem # in_vec) changed =
     (let old_val = out_elem;
          new_val = op old_val in_elem;
          (out', changed') = bitwise_loop op out_vec in_vec (changed OR (old_val XOR new_val))
      in (new_val # out', changed'))"
| "bitwise_loop op out_vec [] changed = (out_vec, changed)"
| "bitwise_loop op [] in_vec changed = ([], changed)"

definition bitwise :: "(u64 \<Rightarrow> u64 \<Rightarrow> u64) \<Rightarrow> u64 list \<Rightarrow> u64 list \<Rightarrow> u64 list \<times> bool" where
  "bitwise op out_vec in_vec =
     (let (out', changed) = bitwise_loop op out_vec in_vec 0 in (out', changed \<noteq> 0))"

subsection \<open>Operations\<close>

definition bv_new_empty :: bit_vec where
  "bv_new_empty = \<lparr>words = []\<rparr>"

definition bv_with_capacity :: "nat \<Rightarrow> bit_vec" where
  "bv_with_capacity cap = \<lparr>words = replicate (num_words cap) 0\<rparr>"

definition bv_ensure :: "bit_vec \<Rightarrow> nat \<Rightarrow> bit_vec" where
  "bv_ensure bv cap =
     (let min_num_words = num_words cap
      in if length (words bv) < min_num_words
         then bv\<lparr>words := vec_resize (words bv) min_num_words 0\<rparr>
         else bv)"

definition bv_clear :: "bit_vec \<Rightarrow> bit_vec" where
  "bv_clear bv = bv\<lparr>words := map (\<lambda>_. 0) (words bv)\<rparr>"

definition bv_count :: "bit_vec \<Rightarrow> nat" where
  "bv_count bv = sum_list (map count_ones (words bv))"

definition bv_contains :: "bit_vec \<Rightarrow> nat \<Rightarrow> bool" where
  "bv_contains bv elem =
     (if capacity (words bv) \<le> elem then False
      else let (word_index, mask) = word_index_and_mask elem
           in (words bv ! word_index) AND mask \<noteq> 0)"

definition bv_superset :: "bit_vec \<Rightarrow> bit_vec \<Rightarrow> bool" where
  "bv_superset self other =
     (let tmp_words = vec_resize (words self) (length (words other)) 0
      in \<forall>(a, b) \<in> set (zip tmp_words (words other)). a AND b = b)"

definition bv_is_empty :: "bit_vec \<Rightarrow> bool" where
  "bv_is_empty bv \<longleftrightarrow> (\<forall>a \<in> set (words bv). a = 0)"

definition bv_insert :: "bit_vec \<Rightarrow> nat \<Rightarrow> bit_vec \<times> bool" where
  "bv_insert bv elem =
     (let bv = bv_ensure bv (elem + 1);
          (word_index, mask) = word_index_and_mask elem;
          word = words bv ! word_index;
          new_word = word OR mask
      in (bv\<lparr>words := (words bv)[word_index := new_word]\<rparr>, new_word \<noteq> word))"

definition bv_insert_all :: "bit_vec \<Rightarrow> bit_vec" where
  "bv_insert_all bv = bv\<lparr>words := map (\<lambda>_. NOT 0) (words bv)\<rparr>"

definition bv_remove :: "bit_vec \<Rightarrow> nat \<Rightarrow> bit_vec \<times> bool" where
  "bv_remove bv elem =
     (if capacity (words bv) \<le> elem then (bv, False)
      else let (word_index, mask) = word_index_and_mask elem;
               word = words bv ! word_index;
               new_word = word AND NOT mask
           in (bv\<lparr>words := (words bv)[word_index := new_word]\<rparr>, new_word \<noteq> word))"

text \<open>\<open>from_vec\<close>: insert the elements one after the other.\<close>

definition bv_from_vec :: "nat list \<Rightarrow> bit_vec" where
  "bv_from_vec from_elems = foldl (\<lambda>ret elem. fst (bv_insert ret elem)) bv_new_empty from_elems"

definition bv_union :: "bit_vec \<Rightarrow> bit_vec \<Rightarrow> bit_vec \<times> bool" where
  "bv_union self other =
     (let self = bv_ensure self (capacity (words other));
          (ws, changed) = bitwise (\<lambda>a b. a OR b) (words self) (words other)
      in (self\<lparr>words := ws\<rparr>, changed))"

definition bv_subtract :: "bit_vec \<Rightarrow> bit_vec \<Rightarrow> bit_vec \<times> bool" where
  "bv_subtract self other =
     (let (ws, changed) = bitwise (\<lambda>a b. a AND NOT b) (words self) (words other)
      in (self\<lparr>words := ws\<rparr>, changed))"

definition bv_intersect :: "bit_vec \<Rightarrow> bit_vec \<Rightarrow> bit_vec \<times> bool" where
  "bv_intersect self other =
     (let (ws, changed) = bitwise (\<lambda>a b. a AND b) (words self) (words other)
      in (self\<lparr>words := ws\<rparr>, changed))"

subsection \<open>The abstraction\<close>

text \<open>Bit \<open>i\<close> of a list of words, false beyond its end.\<close>

definition ws_bit :: "u64 list \<Rightarrow> nat \<Rightarrow> bool" where
  "ws_bit ws i \<longleftrightarrow> i div 64 < length ws \<and> bit (ws ! (i div 64)) (i mod 64)"

definition bv_set :: "bit_vec \<Rightarrow> nat set" where
  "bv_set bv = {i. ws_bit (words bv) i}"

lemma mem_bv_set [simp]: "i \<in> bv_set bv \<longleftrightarrow> ws_bit (words bv) i"
  by (simp add: bv_set_def)

lemma capacity_eq: "capacity ws = 64 * length ws"
  by (simp add: capacity_def)

lemma ws_bit_less: "ws_bit ws i \<Longrightarrow> i < 64 * length ws"
  by (auto simp: ws_bit_def)

lemma ws_bit_ge [simp]: "64 * length ws \<le> i \<Longrightarrow> \<not> ws_bit ws i"
  using ws_bit_less [of ws i] by auto

lemma finite_bv_set [simp]: "finite (bv_set bv)"
  by (rule finite_subset [of _ "{..< 64 * length (words bv)}"]) (auto dest: ws_bit_less)

lemma ws_bit_split: "j < 64 \<Longrightarrow> ws_bit ws (64 * k + j) \<longleftrightarrow> k < length ws \<and> bit (ws ! k) j"
  by (simp add: ws_bit_def)

lemma ws_bit_all: "(\<forall>i. P (i div 64) (i mod 64)) \<longleftrightarrow> (\<forall>k. \<forall>j < (64::nat). P k j)"
proof
  assume *: "\<forall>i. P (i div 64) (i mod 64)"
  show "\<forall>k. \<forall>j < 64. P k j"
  proof (intro allI impI)
    fix k j :: nat assume "j < 64"
    then show "P k j" using *[rule_format, of "64 * k + j"] by simp
  qed
qed simp

lemma words_eqI:
  assumes "length xs = length ys" "\<And>i. ws_bit xs i = ws_bit ys i"
  shows "xs = ys"
proof (rule nth_equalityI)
  fix k assume k: "k < length xs"
  show "xs ! k = ys ! k"
  proof (subst u64_eq_iff, intro allI impI)
    fix j :: nat assume "j < 64"
    with assms k show "bit (xs ! k) j = bit (ys ! k) j"
      by (metis ws_bit_split)
  qed
qed (rule assms)

lemma num_words_bound: "elem < cap \<Longrightarrow> elem div 64 < num_words cap"
  by (simp add: num_words_def)

lemma num_words_capacity [simp]: "num_words (capacity ws) = length ws"
  by (simp add: num_words_def capacity_def)

lemma ws_bit_ensure [simp]: "ws_bit (words (bv_ensure bv cap)) i \<longleftrightarrow> ws_bit (words bv) i"
  by (auto simp: bv_ensure_def ws_bit_def nth_vec_resize Let_def split: if_splits)

lemma length_ensure: "length (words (bv_ensure bv cap)) = max (length (words bv)) (num_words cap)"
  by (simp add: bv_ensure_def Let_def)

lemma mask_word: "word_index_and_mask elem = (wi, m) \<Longrightarrow>
    wi = elem div 64 \<and> (\<forall>j. bit m j \<longleftrightarrow> j = elem mod 64)"
  by (auto simp: word_index_and_mask_def bit_simps)

lemma word_ops_mask:
  assumes "\<And>j. bit m j \<longleftrightarrow> j = n" "n < 64"
  shows "((w :: u64) AND m \<noteq> 0) = bit w n"
    and "(w OR m \<noteq> w) = (\<not> bit w n)"
    and "(w AND NOT m \<noteq> w) = bit w n"
  using assms by (auto simp: u64_eq_iff bit_simps)

lemma ws_bit_update:
  assumes "elem div 64 < length ws"
    and "\<And>j. bit w j \<longleftrightarrow> (if j = elem mod 64 then b else bit (ws ! (elem div 64)) j)"
  shows "ws_bit (ws[elem div 64 := w]) i \<longleftrightarrow> (if i = elem then b else ws_bit ws i)"
proof (cases "i div 64 = elem div 64")
  case True
  then have "i mod 64 = elem mod 64 \<longleftrightarrow> i = elem" by (metis div_mult_mod_eq)
  then show ?thesis using True assms by (simp add: ws_bit_def)
next
  case False
  then show ?thesis by (auto simp: ws_bit_def)
qed

subsection \<open>The operations on the abstract set\<close>

lemma bv_set_new_empty [abs_simps]: "bv_set bv_new_empty = {}"
  by (auto simp: bv_new_empty_def ws_bit_def)

lemma bv_set_with_capacity [abs_simps]: "bv_set (bv_with_capacity cap) = {}"
  by (auto simp: bv_with_capacity_def ws_bit_def)

lemma bv_set_ensure [abs_simps]: "bv_set (bv_ensure bv cap) = bv_set bv"
  by auto

lemma bv_set_clear [abs_simps]: "bv_set (bv_clear bv) = {}"
  by (auto simp: bv_clear_def ws_bit_def)

lemma bv_is_empty_iff [abs_simps]: "bv_is_empty bv \<longleftrightarrow> bv_set bv = {}"
proof -
  have "bv_is_empty bv \<longleftrightarrow> (\<forall>k < length (words bv). \<forall>j < 64. \<not> bit (words bv ! k) j)"
    by (auto simp: bv_is_empty_def all_set_conv_all_nth u64_zero_iff)
  also have "\<dots> \<longleftrightarrow> (\<forall>i. \<not> ws_bit (words bv) i)"
    using ws_bit_all [of "\<lambda>k j. \<not> (k < length (words bv) \<and> bit (words bv ! k) j)"]
    by (auto simp: ws_bit_def)
  finally show ?thesis by auto
qed

lemma bv_contains_iff [abs_simps]: "bv_contains bv elem \<longleftrightarrow> elem \<in> bv_set bv"
proof -
  obtain wi m where wm: "word_index_and_mask elem = (wi, m)" by fastforce
  have "(words bv ! wi AND m \<noteq> 0) = bit (words bv ! wi) (elem mod 64)"
    by (rule word_ops_mask) (use mask_word [OF wm] in auto)
  then show ?thesis
    using mask_word [OF wm]
    by (auto simp: bv_contains_def wm capacity_def ws_bit_def not_le)
qed

lemma bv_insert_set [abs_simps]:
  "bv_set (fst (bv_insert bv elem)) = insert elem (bv_set bv)"
  "snd (bv_insert bv elem) \<longleftrightarrow> elem \<notin> bv_set bv"
proof -
  obtain wi m where wm: "word_index_and_mask elem = (wi, m)" by fastforce
  let ?bv = "bv_ensure bv (elem + 1)"
  have len: "wi < length (words ?bv)"
    using mask_word [OF wm] num_words_bound [of elem "elem + 1"] by (simp add: length_ensure)
  have "ws_bit ((words ?bv)[elem div 64 := words ?bv ! wi OR m]) i \<longleftrightarrow>
      (if i = elem then True else ws_bit (words ?bv) i)" for i
    by (rule ws_bit_update) (use len mask_word [OF wm] in \<open>auto simp: bit_or_iff\<close>)
  then have "ws_bit ((words ?bv)[wi := words ?bv ! wi OR m]) i \<longleftrightarrow> i = elem \<or> ws_bit (words bv) i"
    for i
    using mask_word [OF wm] by simp
  then show "bv_set (fst (bv_insert bv elem)) = insert elem (bv_set bv)"
    by (auto simp: bv_insert_def wm Let_def)
  have "(words ?bv ! wi OR m \<noteq> words ?bv ! wi) = (\<not> bit (words ?bv ! wi) (elem mod 64))"
    by (rule word_ops_mask) (use mask_word [OF wm] in auto)
  also have "\<dots> \<longleftrightarrow> \<not> ws_bit (words ?bv) elem"
    using len mask_word [OF wm] by (simp add: ws_bit_def)
  finally show "snd (bv_insert bv elem) \<longleftrightarrow> elem \<notin> bv_set bv"
    by (simp add: bv_insert_def wm Let_def)
qed

lemma bv_remove_set [abs_simps]:
  "bv_set (fst (bv_remove bv elem)) = bv_set bv - {elem}"
  "snd (bv_remove bv elem) \<longleftrightarrow> elem \<in> bv_set bv"
proof -
  obtain wi m where wm: "word_index_and_mask elem = (wi, m)" by fastforce
  have goal: "bv_set (fst (bv_remove bv elem)) = bv_set bv - {elem} \<and>
      (snd (bv_remove bv elem) \<longleftrightarrow> elem \<in> bv_set bv)"
  proof (cases "capacity (words bv) \<le> elem")
    case True
    then show ?thesis
      by (auto simp: bv_remove_def capacity_eq dest: ws_bit_less)
  next
    case False
    then have len: "wi < length (words bv)"
      using mask_word [OF wm] by (simp add: capacity_eq)
    have "ws_bit ((words bv)[elem div 64 := words bv ! wi AND NOT m]) i \<longleftrightarrow>
        (if i = elem then False else ws_bit (words bv) i)" for i
      by (rule ws_bit_update)
        (use len mask_word [OF wm] bit_u64_less in \<open>auto simp: bit_and_iff bit_not_iff\<close>)
    then have "ws_bit ((words bv)[wi := words bv ! wi AND NOT m]) i \<longleftrightarrow> i \<noteq> elem \<and> ws_bit (words bv) i"
      for i
      using mask_word [OF wm] by simp
    moreover have "(words bv ! wi AND NOT m \<noteq> words bv ! wi) = bit (words bv ! wi) (elem mod 64)"
      by (rule word_ops_mask) (use mask_word [OF wm] in auto)
    ultimately show ?thesis
      using False len mask_word [OF wm] ws_bit_def [of "words bv" elem]
      by (auto simp: bv_remove_def wm Let_def)
  qed
  then show "bv_set (fst (bv_remove bv elem)) = bv_set bv - {elem}"
    "snd (bv_remove bv elem) \<longleftrightarrow> elem \<in> bv_set bv" by blast+
qed

lemma bv_from_vec_set [abs_simps]: "bv_set (bv_from_vec xs) = set xs"
proof -
  have "bv_set (foldl (\<lambda>ret elem. fst (bv_insert ret elem)) bv xs) = bv_set bv \<union> set xs" for bv
    by (induction xs arbitrary: bv) (auto simp: abs_simps simp del: mem_bv_set)
  then show ?thesis by (simp add: bv_from_vec_def abs_simps)
qed

subsection \<open>Word-wise operations\<close>

lemma bitwise_loop_spec:
  "bitwise_loop op xs ys ch = (xs', ch') \<Longrightarrow>
     length xs' = length xs \<and>
     (\<forall>k < length xs. xs' ! k = (if k < length ys then op (xs ! k) (ys ! k) else xs ! k)) \<and>
     (ch' = 0 \<longleftrightarrow> ch = 0 \<and> xs' = xs)"
proof (induction op xs ys ch arbitrary: xs' ch' rule: bitwise_loop.induct)
  case (1 op x xs y ys ch)
  let ?c = "ch OR (x XOR op x y)"
  obtain zs c where rec: "bitwise_loop op xs ys ?c = (zs, c)" by fastforce
  have res: "xs' = op x y # zs" "ch' = c" using "1.prems" by (auto simp: rec Let_def)
  have c0: "?c = 0 \<longleftrightarrow> ch = 0 \<and> op x y = x"
    by (auto simp: u64_eq_iff bit_simps)
  show ?case
    using "1.IH" [OF refl refl rec] by (auto simp: res c0 nth_Cons split: nat.splits)
qed auto

lemma bitwise_spec:
  assumes "bitwise op xs ys = (xs', changed)"
  shows "length xs' = length xs"
    and "k < length xs \<Longrightarrow> xs' ! k = (if k < length ys then op (xs ! k) (ys ! k) else xs ! k)"
    and "changed \<longleftrightarrow> xs' \<noteq> xs"
proof -
  obtain ch where "bitwise_loop op xs ys 0 = (xs', ch)" "changed = (ch \<noteq> 0)"
    using assms by (auto simp: bitwise_def split: prod.splits)
  then show "length xs' = length xs"
    "k < length xs \<Longrightarrow> xs' ! k = (if k < length ys then op (xs ! k) (ys ! k) else xs ! k)"
    "changed \<longleftrightarrow> xs' \<noteq> xs"
    using bitwise_loop_spec [of op xs ys 0 xs' ch] by auto
qed

lemma bitwise_ws_bit:
  assumes "bitwise op xs ys = (xs', changed)"
    and "\<And>a b j. bit (op a b) j \<longleftrightarrow> P (bit a j) (bit b j)"
  shows "ws_bit xs' i \<longleftrightarrow>
      (if i < 64 * length ys then i < 64 * length xs \<and> P (ws_bit xs i) (ws_bit ys i) else ws_bit xs i)"
proof -
  have *: "i < 64 * n \<longleftrightarrow> i div 64 < n" for n
    by (simp add: div_less_iff_less_mult mult.commute)
  show ?thesis
  proof (cases "i div 64 < length xs")
    case True
    then show ?thesis
      using bitwise_spec(1,2) [OF assms(1)] assms(2) unfolding * ws_bit_def by simp
  next
    case False
    then show ?thesis
      using bitwise_spec(1) [OF assms(1)] unfolding * ws_bit_def by simp
  qed
qed

lemma bitwise_changed:
  assumes "bitwise op xs ys = (xs', changed)"
  shows "changed \<longleftrightarrow> {i. ws_bit xs' i} \<noteq> {i. ws_bit xs i}"
  using bitwise_spec [OF assms] words_eqI [of xs' xs] by auto

lemma bv_union_set [abs_simps]:
  "bv_set (fst (bv_union self other)) = bv_set self \<union> bv_set other"
  "snd (bv_union self other) \<longleftrightarrow> \<not> bv_set other \<subseteq> bv_set self"
proof -
  let ?s = "bv_ensure self (capacity (words other))"
  obtain ws ch where bw: "bitwise (\<lambda>a b. a OR b) (words ?s) (words other) = (ws, ch)" by fastforce
  have len: "length (words other) \<le> length (words ?s)" by (simp add: length_ensure)
  have bits: "ws_bit ws i \<longleftrightarrow> ws_bit (words self) i \<or> ws_bit (words other) i" for i
    using bitwise_ws_bit [OF bw, of "(\<or>)" i] len
    by (auto simp: bit_simps dest: ws_bit_less)
  show "bv_set (fst (bv_union self other)) = bv_set self \<union> bv_set other"
    by (auto simp: bv_union_def bw bits)
  show "snd (bv_union self other) \<longleftrightarrow> \<not> bv_set other \<subseteq> bv_set self"
    using bitwise_changed [OF bw] by (auto simp: bv_union_def bw bits)
qed

lemma bv_subtract_set [abs_simps]:
  "bv_set (fst (bv_subtract self other)) = bv_set self - bv_set other"
  "snd (bv_subtract self other) \<longleftrightarrow> bv_set self \<inter> bv_set other \<noteq> {}"
proof -
  obtain ws ch where bw: "bitwise (\<lambda>a b. a AND NOT b) (words self) (words other) = (ws, ch)" by fastforce
  have bits: "ws_bit ws i \<longleftrightarrow> ws_bit (words self) i \<and> \<not> ws_bit (words other) i" for i
  proof -
    have "bit (a AND NOT b :: u64) j \<longleftrightarrow> bit a j \<and> \<not> bit b j" for a b j
      using bit_u64_less by (auto simp: bit_and_iff bit_not_iff)
    from bitwise_ws_bit [OF bw this, of i] show ?thesis by (auto dest: ws_bit_less split: if_splits)
  qed
  show "bv_set (fst (bv_subtract self other)) = bv_set self - bv_set other"
    by (auto simp: bv_subtract_def bw bits)
  show "snd (bv_subtract self other) \<longleftrightarrow> bv_set self \<inter> bv_set other \<noteq> {}"
    using bitwise_changed [OF bw] by (auto simp: bv_subtract_def bw bits)
qed

text \<open>
  \<open>intersect\<close> zips the two vectors, so it leaves alone the words of \<open>self\<close> beyond the
  length of \<open>other\<close>: the result is the intersection only up to the capacity of \<open>other\<close>.
\<close>

lemma bv_intersect_set:
  "bv_set (fst (bv_intersect self other)) =
     (bv_set self \<inter> bv_set other) \<union> {i \<in> bv_set self. capacity (words other) \<le> i}"
  "snd (bv_intersect self other) \<longleftrightarrow> bv_set (fst (bv_intersect self other)) \<noteq> bv_set self"
proof -
  obtain ws ch where bw: "bitwise (\<lambda>a b. a AND b) (words self) (words other) = (ws, ch)" by fastforce
  have bits: "ws_bit ws i \<longleftrightarrow> ws_bit (words self) i \<and> (ws_bit (words other) i \<or> capacity (words other) \<le> i)" for i
    using bitwise_ws_bit [OF bw, of "(\<and>)" i]
    by (auto simp: bit_simps capacity_eq dest: ws_bit_less)
  show "bv_set (fst (bv_intersect self other)) =
     (bv_set self \<inter> bv_set other) \<union> {i \<in> bv_set self. capacity (words other) \<le> i}"
    by (auto simp: bv_intersect_def bw bits)
  show "snd (bv_intersect self other) \<longleftrightarrow> bv_set (fst (bv_intersect self other)) \<noteq> bv_set self"
    using bitwise_changed [OF bw] by (simp add: bv_intersect_def bw bv_set_def)
qed

lemma bv_superset_iff [abs_simps]: "bv_superset self other \<longleftrightarrow> bv_set other \<subseteq> bv_set self"
proof -
  let ?t = "vec_resize (words self) (length (words other)) 0"
  have "bv_superset self other \<longleftrightarrow>
      (\<forall>k < length (words other). \<forall>j < 64. bit (words other ! k) j \<longrightarrow> bit (?t ! k) j)"
    by (auto simp: bv_superset_def set_zip u64_eq_iff bit_simps Let_def)
  also have "\<dots> \<longleftrightarrow> (\<forall>i. ws_bit (words other) i \<longrightarrow> ws_bit (words self) i)"
    using ws_bit_all [of "\<lambda>k j. k < length (words other) \<longrightarrow> bit (words other ! k) j \<longrightarrow> bit (?t ! k) j"]
    by (auto simp: ws_bit_def nth_vec_resize split: if_splits)
  finally show ?thesis by auto
qed

subsection \<open>The iterator \<open>BitIter\<close>\<close>

text \<open>
  The iterator starts from the degenerate state of \<open>BitIter::new\<close>: no bits left in the
  current word and an offset that wraps to \<open>0\<close> when the first word is fetched. A call
  of \<open>next\<close> skips exhausted words and clears the lowest set bit of the current one.
\<close>

record bit_iter =
  iter_word :: u64
  iter_offset :: usize
  iter_rest :: "u64 list"

definition bit_iter_new :: "u64 list \<Rightarrow> bit_iter" where
  "bit_iter_new ws =
     \<lparr>iter_word = 0, iter_offset = - 1 - of_nat (WORD_BITS - 1), iter_rest = ws\<rparr>"

fun bit_iter_loop :: "u64 \<Rightarrow> usize \<Rightarrow> u64 list \<Rightarrow> nat option \<times> bit_iter" where
  "bit_iter_loop word offset rest =
     (if word \<noteq> 0 then
        let bit_pos = trailing_zeros word;
            b = push_bit bit_pos 1
        in (Some (unat (of_nat bit_pos + offset)),
            \<lparr>iter_word = word XOR b, iter_offset = offset, iter_rest = rest\<rparr>)
      else case rest of
        [] \<Rightarrow> (None, \<lparr>iter_word = word, iter_offset = offset, iter_rest = []\<rparr>)
      | w # rest' \<Rightarrow> bit_iter_loop w (offset + of_nat WORD_BITS) rest')"

declare bit_iter_loop.simps [simp del]

definition bit_iter_next :: "bit_iter \<Rightarrow> nat option \<times> bit_iter" where
  "bit_iter_next it = bit_iter_loop (iter_word it) (iter_offset it) (iter_rest it)"

definition bv_iter :: "bit_vec \<Rightarrow> bit_iter" where
  "bv_iter bv = bit_iter_new (words bv)"

lemma bits_extract:
  assumes "(w :: u64) \<noteq> 0"
  shows "filter (bit w) [0..<64] =
    trailing_zeros w # filter (bit (w XOR push_bit (trailing_zeros w) 1)) [0..<64]"
proof -
  let ?t = "trailing_zeros w"
  note tz = trailing_zeros_props [OF assms]
  have split: "[0..<64] = [0..<?t] @ ?t # [Suc ?t..<64]"
    using upt_add_eq_append [of 0 ?t "64 - ?t"] tz(1) by (simp add: upt_conv_Cons)
  have x: "bit (w XOR push_bit ?t 1) j \<longleftrightarrow> bit w j \<and> j \<noteq> ?t" for j
    using tz by (auto simp: bit_simps)
  have none: "filter (bit w) [0..<?t] = []"
    using tz(3) by (auto simp: filter_empty_conv)
  have x1: "filter (bit (w XOR push_bit ?t 1)) [0..<?t] = []"
    unfolding x using tz(3) by (auto simp: filter_empty_conv)
  have x2: "filter (bit (w XOR push_bit ?t 1)) [Suc ?t..<64] = filter (bit w) [Suc ?t..<64]"
    using x by (intro filter_cong) (auto simp del: push_bit_of_1)
  show ?thesis
    unfolding split filter_append using none x1 x2 tz(2) x [of ?t] by simp
qed

lemma count_ones_extract:
  "(w :: u64) \<noteq> 0 \<Longrightarrow> count_ones (w XOR push_bit (trailing_zeros w) 1) < count_ones w"
  unfolding count_ones_def by (subst (2) bits_extract) auto

text \<open>All remaining items of an iterator: what a \<open>for\<close> loop or \<open>collect\<close> sees.\<close>

lemma bit_iter_loop_decreases:
  "bit_iter_loop w off rest = (Some i, it) \<Longrightarrow>
     length (iter_rest it) < length rest \<or>
     length (iter_rest it) = length rest \<and> count_ones (iter_word it) < count_ones w"
proof (induction w off rest rule: bit_iter_loop.induct)
  case (1 w off rest)
  show ?case
  proof (cases "w = 0")
    case False
    then show ?thesis
      using "1.prems" count_ones_extract [OF False]
      by (auto simp: bit_iter_loop.simps [of w off rest] Let_def)
  next
    case True
    then obtain v rest' where rest: "rest = v # rest'"
      using "1.prems" by (cases rest) (auto simp: bit_iter_loop.simps [of _ off "[]"])
    with True "1.prems" have "bit_iter_loop v (off + of_nat WORD_BITS) rest' = (Some i, it)"
      by (simp add: bit_iter_loop.simps [of _ off "v # rest'"])
    from "1.IH" [OF _ rest this] True rest show ?thesis by auto
  qed
qed

function bit_iter_collect :: "bit_iter \<Rightarrow> nat list" where
  "bit_iter_collect it =
     (case bit_iter_next it of
        (None, _) \<Rightarrow> []
      | (Some i, it') \<Rightarrow> i # bit_iter_collect it')"
  by pat_completeness auto
termination
  by (relation "measures [\<lambda>it. length (iter_rest it), \<lambda>it. count_ones (iter_word it)]")
    (auto simp: bit_iter_next_def dest!: bit_iter_loop_decreases [OF sym])

declare bit_iter_collect.simps [simp del]

definition bv_iter_list :: "bit_vec \<Rightarrow> nat list" where
  "bv_iter_list bv = bit_iter_collect (bv_iter bv)"

fun words_from :: "nat \<Rightarrow> u64 list \<Rightarrow> nat list" where
  "words_from base [] = []"
| "words_from base (w # ws) = map ((+) base) (filter (bit w) [0..<64]) @ words_from (base + 64) ws"

lemma bit_iter_loop_words:
  assumes "base + 64 * Suc (length ws) \<le> 2 ^ 64"
  shows "case bit_iter_loop w (of_nat base) ws of
      (None, _) \<Rightarrow> words_from base (w # ws) = []
    | (Some i, it) \<Rightarrow> \<exists>base'. iter_offset it = of_nat base' \<and>
        base' + 64 * Suc (length (iter_rest it)) \<le> 2 ^ 64 \<and>
        words_from base (w # ws) = i # words_from base' (iter_word it # iter_rest it)"
  using assms
proof (induction ws arbitrary: base w)
  case Nil
  note step = bit_iter_loop.simps [of _ "of_nat base" "[]"]
  show ?case
  proof (cases "w = 0")
    case False
    have "unat (of_nat (trailing_zeros w) + of_nat base :: usize) = trailing_zeros w + base"
      using trailing_zeros_props(1) [OF False] Nil.prems by (intro unat_of_nat_add) simp
    then show ?thesis
      using False Nil.prems bits_extract [OF False] by (auto simp: step Let_def intro!: exI [of _ base])
  qed (simp add: step)
next
  case (Cons v vs)
  note step = bit_iter_loop.simps [of _ "of_nat base" "v # vs"]
  show ?case
  proof (cases "w = 0")
    case False
    have "unat (of_nat (trailing_zeros w) + of_nat base :: usize) = trailing_zeros w + base"
      using trailing_zeros_props(1) [OF False] Cons.prems by (intro unat_of_nat_add) simp
    then show ?thesis
      using False Cons.prems bits_extract [OF False] by (auto simp: step Let_def intro!: exI [of _ base])
  next
    case True
    have "bit_iter_loop w (of_nat base) (v # vs) = bit_iter_loop v (of_nat (base + 64)) vs"
      using True by (simp add: step add.commute)
    moreover have "words_from base (w # v # vs) = words_from (base + 64) (v # vs)"
      using True by simp
    moreover have "base + 64 + 64 * Suc (length vs) \<le> 2 ^ 64" using Cons.prems by simp
    ultimately show ?thesis
      using Cons.IH [of "base + 64" v] by (simp only:)
  qed
qed

lemma bit_iter_collect_words:
  "iter_offset it = of_nat base \<Longrightarrow> base + 64 * Suc (length (iter_rest it)) \<le> 2 ^ 64 \<Longrightarrow>
   bit_iter_collect it = words_from base (iter_word it # iter_rest it)"
proof (induction it arbitrary: base rule: bit_iter_collect.induct)
  case (1 it)
  note next_it = bit_iter_loop_words [OF "1.prems"(2), of "iter_word it"]
  obtain r it' where r: "bit_iter_next it = (r, it')" by fastforce
  show ?case
  proof (cases r)
    case None
    then show ?thesis
      using next_it r "1.prems"(1) by (simp add: bit_iter_collect.simps [of it] bit_iter_next_def)
  next
    case (Some i)
    then obtain base' where b: "iter_offset it' = of_nat base'"
        "base' + 64 * Suc (length (iter_rest it')) \<le> 2 ^ 64"
        "words_from base (iter_word it # iter_rest it) = i # words_from base' (iter_word it' # iter_rest it')"
      using next_it r "1.prems"(1) by (auto simp: bit_iter_next_def)
    have "bit_iter_collect it' = words_from base' (iter_word it' # iter_rest it')"
      using "1.IH" [OF _ Some b(1,2)] r by simp
    then show ?thesis
      using b(3) r Some by (simp add: bit_iter_collect.simps [of it])
  qed
qed

lemma words_from_filter:
  "words_from base ws = map ((+) base) (filter (ws_bit ws) [0..<64 * length ws])"
proof (induction ws arbitrary: base)
  case (Cons w ws)
  have "map ((+) 64) [0..<64 * length ws] = [64..<64 + 64 * length ws]"
    using map_add_upt [of 64 "64 * length ws"] by (simp add: add.commute [of _ 64])
  then have split: "[0..<64 * length (w # ws)] = [0..<64] @ map ((+) 64) [0..<64 * length ws]"
    using upt_add_eq_append [of 0 64 "64 * length ws"] by simp
  have hi: "ws_bit (w # ws) (64 + i) = ws_bit ws i" for i
    by (simp add: ws_bit_def div_add_self1 mod_add_self1)
  have "filter (ws_bit (w # ws)) [0..<64] = filter (bit w) [0..<64]"
    by (rule filter_cong) (auto simp: ws_bit_def)
  moreover have "filter (ws_bit (w # ws)) (map ((+) 64) [0..<64 * length ws]) =
      map ((+) 64) (filter (ws_bit ws) [0..<64 * length ws])"
    by (simp add: filter_map o_def hi)
  ultimately show ?case
    unfolding split by (simp add: Cons.IH o_def add.assoc)
qed simp

lemma bv_iter_list_filter:
  assumes "64 * length (words bv) \<le> 2 ^ 64"
  shows "bv_iter_list bv = filter (ws_bit (words bv)) [0..<64 * length (words bv)]"
proof (cases "words bv")
  case Nil
  then show ?thesis
    by (simp add: bv_iter_list_def bv_iter_def bit_iter_new_def bit_iter_collect.simps
        bit_iter_next_def bit_iter_loop.simps)
next
  case (Cons w ws)
  let ?it = "\<lparr>iter_word = w, iter_offset = of_nat 0, iter_rest = ws\<rparr>"
  have "bit_iter_next (bit_iter_new (w # ws)) = bit_iter_next ?it"
    by (simp add: bit_iter_next_def bit_iter_new_def bit_iter_loop.simps [of 0])
  then have "bit_iter_collect (bit_iter_new (w # ws)) = bit_iter_collect ?it"
    by (subst (1 2) bit_iter_collect.simps) simp
  also have "\<dots> = words_from 0 (w # ws)"
    using bit_iter_collect_words [of ?it 0] assms Cons by simp
  finally show ?thesis
    by (simp add: bv_iter_list_def bv_iter_def Cons words_from_filter map_idI del: words_from.simps)
qed

lemma set_bv_iter_list:
  "64 * length (words bv) \<le> 2 ^ 64 \<Longrightarrow> set (bv_iter_list bv) = bv_set bv"
  by (auto simp: bv_iter_list_filter dest: ws_bit_less)

lemma sorted_bv_iter_list:
  "64 * length (words bv) \<le> 2 ^ 64 \<Longrightarrow> sorted_wrt (<) (bv_iter_list bv)"
  by (simp add: bv_iter_list_filter sorted_wrt_filter)

lemma bv_count_card [abs_simps]: "bv_count bv = card (bv_set bv)"
proof -
  have "sum_list (map count_ones ws) = length (words_from base ws)" for base ws
    by (induction ws arbitrary: base) (simp_all add: count_ones_def)
  then have "bv_count bv = length (filter (ws_bit (words bv)) [0..<64 * length (words bv)])"
    by (simp add: bv_count_def words_from_filter)
  also have "\<dots> = card (bv_set bv)"
    by (subst distinct_card [symmetric]) (auto intro!: arg_cong [where f = card] dest: ws_bit_less)
  finally show ?thesis .
qed

subsection \<open>Properties\<close>


text \<open>
  \<open>BitVec::intersect\<close> zips the two word vectors, so it is the intersection only below the
  capacity of \<open>other\<close>: elements of \<open>self\<close> beyond it survive. It is the intersection exactly
  when \<open>self\<close> has no element outside \<open>other\<close> at or beyond that capacity, and it fails to be on
  \<open>{64}\<close> and \<open>{0}\<close>.
\<close>

theorem bv_intersect_truncated:
  "bv_set (fst (bv_intersect bv other)) =
     (bv_set bv \<inter> bv_set other) \<union> {i \<in> bv_set bv. capacity (words other) \<le> i} \<and>
   bv_set (fst (bv_intersect (bv_from_vec [64]) (bv_from_vec [0]))) = {64} \<and>
   \<not> snd (bv_intersect (bv_from_vec [64]) (bv_from_vec [0]))"
proof -
  have cap: "capacity (words (bv_from_vec [0])) = 64"
    by (simp add: bv_from_vec_def bv_new_empty_def bv_insert_def bv_ensure_def num_words_def capacity_def
        word_index_and_mask_def Let_def)
  have set: "bv_set (fst (bv_intersect (bv_from_vec [64]) (bv_from_vec [0]))) = {64}"
    unfolding bv_intersect_set cap by (auto simp: abs_simps simp del: mem_bv_set)
  then show ?thesis
    unfolding bv_intersect_set(2) set by (simp add: bv_intersect_set(1) abs_simps del: mem_bv_set)
qed

text \<open>
  C13: iterating over a bit vector that an address space can hold (at most \<open>2 ^ 64\<close> bits)
  terminates and yields each element exactly once, in increasing order, although the
  iterator's offset starts from a wrapped-around value.
\<close>

theorem bv_iter_sorted:
  assumes "64 * length (words bv) \<le> 2 ^ 64"
  shows "set (bv_iter_list bv) = bv_set bv \<and> sorted_wrt (<) (bv_iter_list bv)"
  using set_bv_iter_list [OF assms] sorted_bv_iter_list [OF assms] by simp

theorem bv_iter_sorted_witness:
  "set (bv_iter_list \<lparr>words = [5, 0, 1]\<rparr>) = bv_set \<lparr>words = [5, 0, 1]\<rparr> \<and>
   bv_iter_list \<lparr>words = [5, 0, 1]\<rparr> = [0, 2, 128]"
proof
  let ?bv = "\<lparr>words = [5, 0, 1]\<rparr>"
  show "set (bv_iter_list ?bv) = bv_set ?bv" using bv_iter_sorted [of ?bv] by simp
  show "bv_iter_list ?bv = [0, 2, 128]" by code_simp
qed

end
