(* ===== verification/Points_To.thy ===== *)
theory Points_To
  imports Bit_Vec
begin

section \<open>Points-to sets (\<open>src/pts_set/points_to.rs\<close>)\<close>

text \<open>
  The trait \<open>PointsToSet\<close> is a record of its operations (the dictionary a Rust generic
  receives), and its contract the locale \<open>points_to_set\<close>: what each operation does to the
  set of elements and what its \<open>bool\<close> result says. \<open>HybridSet\<close>, the only implementation,
  is an explicit array of at most 32 elements that turns into a bit vector when it
  overflows. Elements are \<open>usize\<close> indices (\<open>Idx for usize\<close>).

  \<open>intersect\<close> is not part of the contract, because the implementation does not satisfy
  the obvious law; what it does is stated by \<open>hs_intersect_spec\<close>.
\<close>

subsection \<open>Index wrappers\<close>

definition idx_new :: "nat \<Rightarrow> usize" where
  "idx_new idx = of_nat idx"

definition idx_index :: "usize \<Rightarrow> nat" where
  "idx_index i = unat i"

lemma idx_index_new [simp]: "n < 2 ^ 64 \<Longrightarrow> idx_index (idx_new n) = n"
  using unat_of_nat_add [of n 0] by (simp add: idx_index_def idx_new_def)

lemma idx_new_index [simp]: "idx_new (idx_index i) = i"
  by (simp add: idx_index_def idx_new_def)

lemma idx_index_less: "idx_index i < 2 ^ 64"
proof -
  have "unat i < 2 ^ LENGTH(64)" by (rule unsigned_less)
  then show ?thesis by (simp add: idx_index_def)
qed

lemma idx_index_inj [simp]: "idx_index i = idx_index j \<longleftrightarrow> i = j"
  by (simp add: idx_index_def word_unat_eq_iff)

subsection \<open>The trait and its contract\<close>

record ('ds, 'd) pts_ops =
  pts_new :: 'ds
  pts_clear :: "'ds \<Rightarrow> 'ds"
  pts_count :: "'ds \<Rightarrow> nat"
  pts_contains :: "'ds \<Rightarrow> 'd \<Rightarrow> bool"
  pts_is_empty :: "'ds \<Rightarrow> bool"
  pts_superset :: "'ds \<Rightarrow> 'ds \<Rightarrow> bool"
  pts_insert :: "'ds \<Rightarrow> 'd \<Rightarrow> 'ds \<times> bool"
  pts_remove :: "'ds \<Rightarrow> 'd \<Rightarrow> 'ds \<times> bool"
  pts_union :: "'ds \<Rightarrow> 'ds \<Rightarrow> 'ds \<times> bool"
  pts_subtract :: "'ds \<Rightarrow> 'ds \<Rightarrow> 'ds \<times> bool"
  pts_intersect :: "'ds \<Rightarrow> 'ds \<Rightarrow> 'ds \<times> bool"
  pts_iter :: "'ds \<Rightarrow> 'd list"

locale points_to_set =
  fixes ops :: "('ds, 'd) pts_ops"
    and elems :: "'ds \<Rightarrow> 'd set"
    and ok :: "'ds \<Rightarrow> bool"
    and valid :: "'d \<Rightarrow> bool"
  assumes inv_new [simp, intro]: "ok (pts_new ops)"
    and elems_new [simp]: "elems (pts_new ops) = {}"
    and inv_clear [simp, intro]: "ok s \<Longrightarrow> ok (pts_clear ops s)"
    and elems_clear [simp]: "ok s \<Longrightarrow> elems (pts_clear ops s) = {}"
    and count_card: "ok s \<Longrightarrow> pts_count ops s = card (elems s)"
    and contains_iff [simp]: "ok s \<Longrightarrow> valid d \<Longrightarrow> pts_contains ops s d \<longleftrightarrow> d \<in> elems s"
    and is_empty_iff [simp]: "ok s \<Longrightarrow> pts_is_empty ops s \<longleftrightarrow> elems s = {}"
    and superset_iff: "ok s \<Longrightarrow> ok t \<Longrightarrow> pts_superset ops s t \<longleftrightarrow> elems t \<subseteq> elems s"
    and inv_insert [simp, intro]: "ok s \<Longrightarrow> valid d \<Longrightarrow> ok (fst (pts_insert ops s d))"
    and elems_insert [simp]: "ok s \<Longrightarrow> valid d \<Longrightarrow> elems (fst (pts_insert ops s d)) = insert d (elems s)"
    and insert_changed [simp]: "ok s \<Longrightarrow> valid d \<Longrightarrow> snd (pts_insert ops s d) \<longleftrightarrow> d \<notin> elems s"
    and inv_remove [simp, intro]: "ok s \<Longrightarrow> valid d \<Longrightarrow> ok (fst (pts_remove ops s d))"
    and elems_remove [simp]: "ok s \<Longrightarrow> valid d \<Longrightarrow> elems (fst (pts_remove ops s d)) = elems s - {d}"
    and remove_changed [simp]: "ok s \<Longrightarrow> valid d \<Longrightarrow> snd (pts_remove ops s d) \<longleftrightarrow> d \<in> elems s"
    and inv_union [simp, intro]: "ok s \<Longrightarrow> ok t \<Longrightarrow> ok (fst (pts_union ops s t))"
    and elems_union [simp]:
      "ok s \<Longrightarrow> ok t \<Longrightarrow> elems (fst (pts_union ops s t)) = elems s \<union> elems t"
    and union_changed [simp]:
      "ok s \<Longrightarrow> ok t \<Longrightarrow> snd (pts_union ops s t) \<longleftrightarrow> \<not> elems t \<subseteq> elems s"
    and inv_subtract [simp, intro]: "ok s \<Longrightarrow> ok t \<Longrightarrow> ok (fst (pts_subtract ops s t))"
    and elems_subtract [simp]:
      "ok s \<Longrightarrow> ok t \<Longrightarrow> elems (fst (pts_subtract ops s t)) = elems s - elems t"
    and subtract_changed:
      "ok s \<Longrightarrow> ok t \<Longrightarrow> snd (pts_subtract ops s t) \<longleftrightarrow> elems s \<inter> elems t \<noteq> {}"
    and set_iter [simp]: "ok s \<Longrightarrow> set (pts_iter ops s) = elems s"
    and distinct_iter: "ok s \<Longrightarrow> distinct (pts_iter ops s)"
    and elems_valid: "ok s \<Longrightarrow> d \<in> elems s \<Longrightarrow> valid d"
begin

lemma finite_elems: "ok s \<Longrightarrow> finite (elems s)"
  by (metis List.finite_set set_iter)

lemma length_iter: "ok s \<Longrightarrow> length (pts_iter ops s) = pts_count ops s"
  by (metis count_card distinct_card distinct_iter set_iter)

end

subsection \<open>The hybrid set\<close>

definition SMALL_SET_CAPACITY :: nat where "SMALL_SET_CAPACITY = 32"

datatype hybrid_set = SmallSet "usize list" | LargeSet bit_vec

definition hs_new :: hybrid_set where
  "hs_new = SmallSet []"

fun hs_clear :: "hybrid_set \<Rightarrow> hybrid_set" where
  "hs_clear (SmallSet small) = SmallSet []"
| "hs_clear (LargeSet _) = SmallSet []"

fun hs_count :: "hybrid_set \<Rightarrow> nat" where
  "hs_count (SmallSet small) = length small"
| "hs_count (LargeSet large) = bv_count large"

fun hs_contains :: "hybrid_set \<Rightarrow> usize \<Rightarrow> bool" where
  "hs_contains (SmallSet small) elem \<longleftrightarrow> elem \<in> set small"
| "hs_contains (LargeSet large) elem \<longleftrightarrow> bv_contains large (idx_index elem)"

fun hs_iter :: "hybrid_set \<Rightarrow> usize list" where
  "hs_iter (SmallSet small) = small"
| "hs_iter (LargeSet large) = map idx_new (bv_iter_list large)"

fun hs_superset :: "hybrid_set \<Rightarrow> hybrid_set \<Rightarrow> bool" where
  "hs_superset (LargeSet self_large) (LargeSet other_large) = bv_superset self_large other_large"
| "hs_superset self other = (\<forall>elem \<in> set (hs_iter other). hs_contains self elem)"

fun hs_is_empty :: "hybrid_set \<Rightarrow> bool" where
  "hs_is_empty (SmallSet small) \<longleftrightarrow> small = []"
| "hs_is_empty (LargeSet large) \<longleftrightarrow> bv_is_empty large"

text \<open>The loops that insert the elements of an array into a bit vector.\<close>

fun insert_all :: "bit_vec \<Rightarrow> usize list \<Rightarrow> bool \<Rightarrow> bit_vec \<times> bool" where
  "insert_all large [] changed = (large, changed)"
| "insert_all large (elem # rest) changed =
     (let (large', c) = bv_insert large (idx_index elem) in insert_all large' rest (changed \<or> c))"

fun hs_insert :: "hybrid_set \<Rightarrow> usize \<Rightarrow> hybrid_set \<times> bool" where
  "hs_insert (SmallSet small) elem =
     (if elem \<in> set small then (SmallSet small, False)
      else if length small < SMALL_SET_CAPACITY then (SmallSet (small @ [elem]), True)
      else let large = fst (insert_all bv_new_empty small False);
               (large', changed) = bv_insert large (idx_index elem)
           in (LargeSet large', changed))"
| "hs_insert (LargeSet large) elem =
     (let (large', changed) = bv_insert large (idx_index elem) in (LargeSet large', changed))"

fun hs_remove :: "hybrid_set \<Rightarrow> usize \<Rightarrow> hybrid_set \<times> bool" where
  "hs_remove (SmallSet small) elem =
     (case position (\<lambda>x. x = elem) small of
        Some pos \<Rightarrow> (SmallSet (vec_swap_remove small pos), True)
      | None \<Rightarrow> (SmallSet small, False))"
| "hs_remove (LargeSet large) elem =
     (let (large', changed) = bv_remove large (idx_index elem) in (LargeSet large', changed))"

fun hs_insert_loop :: "hybrid_set \<Rightarrow> usize list \<Rightarrow> bool \<Rightarrow> hybrid_set \<times> bool" where
  "hs_insert_loop self [] changed = (self, changed)"
| "hs_insert_loop self (elem # rest) changed =
     (let (self', c) = hs_insert self elem in hs_insert_loop self' rest (changed \<or> c))"

fun remove_all :: "bit_vec \<Rightarrow> usize list \<Rightarrow> bool \<Rightarrow> bit_vec \<times> bool" where
  "remove_all large [] changed = (large, changed)"
| "remove_all large (elem # rest) changed =
     (let (large', c) = bv_remove large (idx_index elem) in remove_all large' rest (changed \<or> c))"

fun hs_union :: "hybrid_set \<Rightarrow> hybrid_set \<Rightarrow> hybrid_set \<times> bool" where
  "hs_union (LargeSet self_large) (LargeSet other_large) =
     (let (l, changed) = bv_union self_large other_large in (LargeSet l, changed))"
| "hs_union (LargeSet self_large) (SmallSet other_small) =
     (let (l, changed) = insert_all self_large other_small False in (LargeSet l, changed))"
| "hs_union (SmallSet self_small) (LargeSet other_large) =
     (let self_large = fst (insert_all bv_new_empty self_small False);
          (l, changed) = bv_union self_large other_large
      in (LargeSet l, changed))"
| "hs_union (SmallSet self_small) (SmallSet other_small) =
     hs_insert_loop (SmallSet self_small) other_small False"

text \<open>
  \<open>Vec::retain\<close> with a closure that records whether it rejected an element: the kept
  elements, and the flag.
\<close>

definition retain_changed :: "('a \<Rightarrow> bool) \<Rightarrow> 'a list \<Rightarrow> 'a list \<times> bool" where
  "retain_changed keep xs = (filter keep xs, \<exists>x \<in> set xs. \<not> keep x)"

fun hs_subtract :: "hybrid_set \<Rightarrow> hybrid_set \<Rightarrow> hybrid_set \<times> bool" where
  "hs_subtract (LargeSet self_large) (LargeSet other_large) =
     (let (l, changed) = bv_subtract self_large other_large in (LargeSet l, changed))"
| "hs_subtract (LargeSet self_large) (SmallSet other_small) =
     (let (l, changed) = remove_all self_large other_small False in (LargeSet l, changed))"
| "hs_subtract (SmallSet self_small) other =
     (let (s, changed) = retain_changed (\<lambda>elem. \<not> hs_contains other elem) self_small
      in (SmallSet s, changed))"

fun hs_intersect :: "hybrid_set \<Rightarrow> hybrid_set \<Rightarrow> hybrid_set \<times> bool" where
  "hs_intersect (LargeSet self_large) (LargeSet other_large) =
     (let (l, changed) = bv_intersect self_large other_large in (LargeSet l, changed))"
| "hs_intersect (LargeSet self_large) (SmallSet other_small) =
     (let (s, changed) =
        retain_changed (\<lambda>elem. bv_contains self_large (idx_index elem)) other_small
      in (SmallSet s, changed))"
| "hs_intersect (SmallSet self_small) other =
     (let (s, changed) = retain_changed (\<lambda>elem. hs_contains other elem) self_small
      in (SmallSet s, changed))"

text \<open>\<open>HybridPointsToSet\<close> wraps a hybrid set and delegates every trait method to it.\<close>

record hybrid_points_to_set =
  points_to :: hybrid_set

definition lift_pts :: "hybrid_set \<times> bool \<Rightarrow> hybrid_points_to_set \<times> bool" where
  "lift_pts r = (\<lparr>points_to = fst r\<rparr>, snd r)"

definition hybrid_ops :: "(hybrid_points_to_set, usize) pts_ops" where
  "hybrid_ops =
     \<lparr>pts_new = \<lparr>points_to = hs_new\<rparr>,
      pts_clear = (\<lambda>s. \<lparr>points_to = hs_clear (points_to s)\<rparr>),
      pts_count = (\<lambda>s. hs_count (points_to s)),
      pts_contains = (\<lambda>s elem. hs_contains (points_to s) elem),
      pts_is_empty = (\<lambda>s. hs_is_empty (points_to s)),
      pts_superset = (\<lambda>s other. hs_superset (points_to s) (points_to other)),
      pts_insert = (\<lambda>s elem. lift_pts (hs_insert (points_to s) elem)),
      pts_remove = (\<lambda>s elem. lift_pts (hs_remove (points_to s) elem)),
      pts_union = (\<lambda>s other. lift_pts (hs_union (points_to s) (points_to other))),
      pts_subtract = (\<lambda>s other. lift_pts (hs_subtract (points_to s) (points_to other))),
      pts_intersect = (\<lambda>s other. lift_pts (hs_intersect (points_to s) (points_to other))),
      pts_iter = (\<lambda>s. hs_iter (points_to s))\<rparr>"

subsection \<open>Invariant and abstraction\<close>

definition bv_ok :: "bit_vec \<Rightarrow> bool" where
  "bv_ok bv \<longleftrightarrow> 64 * length (words bv) \<le> 2 ^ 64"

fun hs_inv :: "hybrid_set \<Rightarrow> bool" where
  "hs_inv (SmallSet small) \<longleftrightarrow> distinct small \<and> length small \<le> SMALL_SET_CAPACITY"
| "hs_inv (LargeSet large) \<longleftrightarrow> bv_ok large"

definition bv_elems :: "bit_vec \<Rightarrow> usize set" where
  "bv_elems bv = {e. idx_index e \<in> bv_set bv}"

fun hs_set :: "hybrid_set \<Rightarrow> usize set" where
  "hs_set (SmallSet small) = set small"
| "hs_set (LargeSet large) = bv_elems large"

lemma bv_ok_ensure: "bv_ok bv \<Longrightarrow> cap \<le> 2 ^ 64 \<Longrightarrow> bv_ok (bv_ensure bv cap)"
  by (auto simp: bv_ok_def length_ensure num_words_def)

lemma bv_ok_insert [inv_intros]: "bv_ok bv \<Longrightarrow> bv_ok (fst (bv_insert bv (idx_index e)))"
  using bv_ok_ensure [of bv "idx_index e + 1"] idx_index_less [of e]
  by (simp add: bv_insert_def bv_ok_def Let_def split: prod.splits)

lemma length_bitwise: "length (fst (bitwise op xs ys)) = length xs"
  using bitwise_spec(1) [of op xs ys] by (metis prod.collapse)

lemma bv_ok_ops [inv_intros]:
  "bv_ok bv_new_empty"
  "bv_ok bv \<Longrightarrow> bv_ok (fst (bv_remove bv i))"
  "bv_ok bv \<Longrightarrow> bv_ok other \<Longrightarrow> bv_ok (fst (bv_union bv other))"
  "bv_ok bv \<Longrightarrow> bv_ok (fst (bv_subtract bv other))"
  "bv_ok bv \<Longrightarrow> bv_ok (fst (bv_intersect bv other))"
  by (auto simp: bv_ok_def bv_new_empty_def bv_remove_def bv_union_def bv_subtract_def
      bv_intersect_def Let_def length_bitwise length_ensure split: prod.splits
      dest: arg_cong [where f = "\<lambda>p. length (fst p)"])

lemma bv_elems_simps [abs_simps]:
  "bv_elems bv_new_empty = {}"
  "bv_elems (fst (bv_insert bv (idx_index e))) = insert e (bv_elems bv)"
  "bv_elems (fst (bv_remove bv (idx_index e))) = bv_elems bv - {e}"
  "bv_elems (fst (bv_union bv other)) = bv_elems bv \<union> bv_elems other"
  "bv_elems (fst (bv_subtract bv other)) = bv_elems bv - bv_elems other"
  unfolding bv_elems_def abs_simps by auto

lemma bv_contains_elems [simp]: "bv_contains bv (idx_index e) \<longleftrightarrow> e \<in> bv_elems bv"
  by (simp add: bv_contains_iff bv_elems_def)

lemma bv_set_image: "bv_ok bv \<Longrightarrow> bv_set bv = idx_index ` bv_elems bv"
proof (intro equalityI subsetI)
  fix i assume ok: "bv_ok bv" and i: "i \<in> bv_set bv"
  then have "i < 2 ^ 64" by (auto simp: bv_ok_def dest: ws_bit_less)
  then have "idx_index (idx_new i) = i" by simp
  with i show "i \<in> idx_index ` bv_elems bv" unfolding bv_elems_def by (metis image_eqI mem_Collect_eq)
qed (auto simp: bv_elems_def)

lemma bv_set_le_iff:
  "bv_ok bv \<Longrightarrow> bv_ok other \<Longrightarrow> bv_set bv \<subseteq> bv_set other \<longleftrightarrow> bv_elems bv \<subseteq> bv_elems other"
  by (auto simp: bv_set_image simp del: mem_bv_set)

lemma bv_set_Int_iff:
  "bv_ok bv \<Longrightarrow> bv_ok other \<Longrightarrow> bv_set bv \<inter> bv_set other = {} \<longleftrightarrow> bv_elems bv \<inter> bv_elems other = {}"
  by (auto simp: bv_set_image simp del: mem_bv_set)

lemma bv_count_elems: "bv_ok bv \<Longrightarrow> bv_count bv = card (bv_elems bv)"
  by (simp add: bv_count_card bv_set_image card_image inj_on_def del: mem_bv_set)

lemma bv_is_empty_elems: "bv_ok bv \<Longrightarrow> bv_is_empty bv \<longleftrightarrow> bv_elems bv = {}"
  by (simp add: bv_is_empty_iff bv_set_image del: mem_bv_set)

lemma bv_iter_elems:
  assumes "bv_ok bv"
  shows "set (map idx_new (bv_iter_list bv)) = bv_elems bv"
    and "distinct (map idx_new (bv_iter_list bv))"
proof -
  have set: "set (bv_iter_list bv) = idx_index ` bv_elems bv"
    using assms bv_set_image set_bv_iter_list [of bv] by (simp add: bv_ok_def)
  then show "set (map idx_new (bv_iter_list bv)) = bv_elems bv"
    by (simp add: image_image)
  have "distinct (bv_iter_list bv)"
    using sorted_bv_iter_list [of bv] assms
    by (simp add: bv_ok_def strict_sorted_iff)
  moreover have "inj_on idx_new (set (bv_iter_list bv))"
    unfolding set by (auto simp: inj_on_def)
  ultimately show "distinct (map idx_new (bv_iter_list bv))" by (simp add: distinct_map)
qed

text \<open>The bit-vector operations, stated on the elements together with their result flag.\<close>

lemma bv_op_specs:
  assumes "bv_ok bv"
  shows bv_insert_elems: "bv_insert bv (idx_index e) = (l, c) \<Longrightarrow>
      bv_ok l \<and> bv_elems l = insert e (bv_elems bv) \<and> (c \<longleftrightarrow> e \<notin> bv_elems bv)"
    and bv_remove_elems: "bv_remove bv (idx_index e) = (l, c) \<Longrightarrow>
      bv_ok l \<and> bv_elems l = bv_elems bv - {e} \<and> (c \<longleftrightarrow> e \<in> bv_elems bv)"
    and bv_union_elems: "bv_ok other \<Longrightarrow> bv_union bv other = (l, c) \<Longrightarrow>
      bv_ok l \<and> bv_elems l = bv_elems bv \<union> bv_elems other \<and> (c \<longleftrightarrow> \<not> bv_elems other \<subseteq> bv_elems bv)"
    and bv_subtract_elems: "bv_ok other \<Longrightarrow> bv_subtract bv other = (l, c) \<Longrightarrow>
      bv_ok l \<and> bv_elems l = bv_elems bv - bv_elems other \<and>
      (c \<longleftrightarrow> bv_elems bv \<inter> bv_elems other \<noteq> {})"
proof -
  show "bv_ok l \<and> bv_elems l = insert e (bv_elems bv) \<and> (c \<longleftrightarrow> e \<notin> bv_elems bv)"
    if "bv_insert bv (idx_index e) = (l, c)"
    using bv_ok_insert [OF assms, of e] bv_elems_simps(2) [of bv e]
      bv_insert_set(2) [of bv "idx_index e"] that by (simp add: bv_elems_def)
  show "bv_ok l \<and> bv_elems l = bv_elems bv - {e} \<and> (c \<longleftrightarrow> e \<in> bv_elems bv)"
    if "bv_remove bv (idx_index e) = (l, c)"
    using bv_ok_ops(2) [OF assms, of "idx_index e"] bv_elems_simps(3) [of bv e]
      bv_remove_set(2) [of bv "idx_index e"] that by (simp add: bv_elems_def)
  show "bv_ok l \<and> bv_elems l = bv_elems bv \<union> bv_elems other \<and> (c \<longleftrightarrow> \<not> bv_elems other \<subseteq> bv_elems bv)"
    if "bv_ok other" "bv_union bv other = (l, c)"
    using bv_ok_ops(3) [OF assms that(1)] bv_elems_simps(4) [of bv other]
      bv_union_set(2) [of bv other] bv_set_le_iff [OF that(1) assms] that(2) by simp
  show "bv_ok l \<and> bv_elems l = bv_elems bv - bv_elems other \<and>
      (c \<longleftrightarrow> bv_elems bv \<inter> bv_elems other \<noteq> {})"
    if "bv_ok other" "bv_subtract bv other = (l, c)"
    using bv_ok_ops(4) [OF assms, of other] bv_elems_simps(5) [of bv other]
      bv_subtract_set(2) [of bv other] bv_set_Int_iff [OF assms that(1)] that(2) by simp
qed

lemma insert_all_spec:
  "bv_ok bv \<Longrightarrow> insert_all bv xs ch = (bv', ch') \<Longrightarrow>
     bv_ok bv' \<and> bv_elems bv' = bv_elems bv \<union> set xs \<and>
     (ch' \<longleftrightarrow> ch \<or> \<not> set xs \<subseteq> bv_elems bv)"
proof (induction xs arbitrary: bv ch)
  case (Cons e xs)
  obtain l c where l: "bv_insert bv (idx_index e) = (l, c)" by fastforce
  note step = bv_insert_elems [OF Cons.prems(1) l]
  have "insert_all l xs (ch \<or> c) = (bv', ch')" using Cons.prems(2) by (simp add: l)
  from Cons.IH [OF _ this] step show ?case by (simp, blast)
qed auto

lemma remove_all_spec:
  "bv_ok bv \<Longrightarrow> remove_all bv xs ch = (bv', ch') \<Longrightarrow>
     bv_ok bv' \<and> bv_elems bv' = bv_elems bv - set xs \<and>
     (ch' \<longleftrightarrow> ch \<or> bv_elems bv \<inter> set xs \<noteq> {})"
proof (induction xs arbitrary: bv ch)
  case (Cons e xs)
  obtain l c where l: "bv_remove bv (idx_index e) = (l, c)" by fastforce
  note step = bv_remove_elems [OF Cons.prems(1) l]
  have "remove_all l xs (ch \<or> c) = (bv', ch')" using Cons.prems(2) by (simp add: l)
  from Cons.IH [OF _ this] step show ?case by (simp, blast)
qed auto

lemma insert_all_new:
  "insert_all bv_new_empty xs False = (large, c) \<Longrightarrow> bv_ok large \<and> bv_elems large = set xs"
  using insert_all_spec [OF bv_ok_ops(1), of xs False large c] by (simp add: bv_elems_simps)

text \<open>Every operation keeps the invariant and has the effect on the set that its name says.\<close>

lemma hs_insert_spec:
  assumes "hs_inv s"
  shows "hs_inv (fst (hs_insert s e)) \<and>
     hs_set (fst (hs_insert s e)) = insert e (hs_set s) \<and> (snd (hs_insert s e) \<longleftrightarrow> e \<notin> hs_set s)"
proof (cases s)
  case (SmallSet small)
  obtain large c where large: "insert_all bv_new_empty small False = (large, c)" by fastforce
  obtain l c' where l: "bv_insert large (idx_index e) = (l, c')" by fastforce
  show ?thesis
    using assms SmallSet insert_all_new [OF large] bv_insert_elems [OF _ l]
    by (auto simp: large l)
next
  case (LargeSet large)
  obtain l c' where l: "bv_insert large (idx_index e) = (l, c')" by fastforce
  show ?thesis using assms LargeSet bv_insert_elems [OF _ l] by (simp add: l)
qed

lemma hs_remove_spec:
  "hs_inv s \<Longrightarrow> hs_inv (fst (hs_remove s e)) \<and>
     hs_set (fst (hs_remove s e)) = hs_set s - {e} \<and> (snd (hs_remove s e) \<longleftrightarrow> e \<in> hs_set s)"
proof (cases s)
  case (SmallSet small)
  assume "hs_inv s"
  then show ?thesis
    using SmallSet position_Some [of "\<lambda>x. x = e" small] position_None [of "\<lambda>x. x = e" small]
      vec_swap_remove_distinct [of small]
    by (fastforce split: option.splits)
next
  case (LargeSet large)
  obtain l c where l: "bv_remove large (idx_index e) = (l, c)" by fastforce
  assume "hs_inv s"
  then show ?thesis using LargeSet bv_remove_elems [OF _ l] by (simp add: l)
qed

lemma hs_insert_loop_spec:
  "hs_inv s \<Longrightarrow> hs_insert_loop s xs ch = (s', ch') \<Longrightarrow>
     hs_inv s' \<and> hs_set s' = hs_set s \<union> set xs \<and> (ch' \<longleftrightarrow> ch \<or> \<not> set xs \<subseteq> hs_set s)"
proof (induction xs arbitrary: s ch)
  case (Cons e xs)
  obtain t c where t: "hs_insert s e = (t, c)" by fastforce
  then show ?case
    using Cons.IH [of t "ch \<or> c"] Cons.prems hs_insert_spec [OF Cons.prems(1), of e] by auto
qed auto

lemma hs_union_spec:
  assumes "hs_inv s" "hs_inv t"
  shows "hs_inv (fst (hs_union s t)) \<and> hs_set (fst (hs_union s t)) = hs_set s \<union> hs_set t \<and>
    (snd (hs_union s t) \<longleftrightarrow> \<not> hs_set t \<subseteq> hs_set s)"
  using assms
proof (induction s t rule: hs_union.induct)
  case (1 l m)
  obtain r c where r: "bv_union l m = (r, c)" by fastforce
  show ?case using 1 bv_union_elems [OF _ _ r] by (simp add: r)
next
  case (2 l small)
  obtain r c where r: "insert_all l small False = (r, c)" by fastforce
  show ?case using 2 insert_all_spec [OF _ r] by (simp add: r)
next
  case (3 small l)
  obtain m c where m: "insert_all bv_new_empty small False = (m, c)" by fastforce
  obtain r c' where r: "bv_union m l = (r, c')" by fastforce
  show ?case using 3 insert_all_new [OF m] bv_union_elems [OF _ _ r] by (simp add: m r)
next
  case (4 small other)
  then show ?case
    using hs_insert_loop_spec [of "SmallSet small" other False "fst (hs_insert_loop (SmallSet small) other False)"
        "snd (hs_insert_loop (SmallSet small) other False)"]
    by simp
qed

lemma hs_contains_set [simp]: "hs_contains s e \<longleftrightarrow> e \<in> hs_set s"
  by (cases s) auto

lemma hs_subtract_spec:
  assumes "hs_inv s" "hs_inv t"
  shows "hs_inv (fst (hs_subtract s t)) \<and> hs_set (fst (hs_subtract s t)) = hs_set s - hs_set t \<and>
    (snd (hs_subtract s t) \<longleftrightarrow> hs_set s \<inter> hs_set t \<noteq> {})"
  using assms
proof (induction s t rule: hs_subtract.induct)
  case (1 l m)
  obtain r c where r: "bv_subtract l m = (r, c)" by fastforce
  show ?case using 1 bv_subtract_elems [OF _ _ r] by (simp add: r)
next
  case (2 l small)
  obtain r c where r: "remove_all l small False = (r, c)" by fastforce
  show ?case using 2 remove_all_spec [OF _ r] by (simp add: r)
next
  case (3 small t)
  then show ?case
    by (auto simp: retain_changed_def intro: order_trans [OF length_filter_le])
qed

lemma hs_iter_set: "hs_inv s \<Longrightarrow> set (hs_iter s) = hs_set s \<and> distinct (hs_iter s)"
  by (cases s) (auto simp: bv_iter_elems simp del: set_map)

lemma hs_superset_iff:
  assumes "hs_inv s" "hs_inv t"
  shows "hs_superset s t \<longleftrightarrow> hs_set t \<subseteq> hs_set s"
proof (cases "\<exists>l m. s = LargeSet l \<and> t = LargeSet m")
  case True
  then show ?thesis using assms by (auto simp add: bv_superset_iff bv_set_le_iff simp del: mem_bv_set)
next
  case False
  then have "hs_superset s t \<longleftrightarrow> (\<forall>e \<in> set (hs_iter t). hs_contains s e)"
    by (cases s; cases t) auto
  then show ?thesis using hs_iter_set [OF assms(2)] by auto
qed

lemma hs_count_card: "hs_inv s \<Longrightarrow> hs_count s = card (hs_set s)"
  by (cases s) (auto simp: bv_count_elems distinct_card)

lemma hs_is_empty_iff: "hs_inv s \<Longrightarrow> hs_is_empty s \<longleftrightarrow> hs_set s = {}"
  by (cases s) (auto simp: bv_is_empty_elems)

lemma hs_clear_spec: "hs_inv (hs_clear s) \<and> hs_set (hs_clear s) = {}"
  by (cases s) auto

text \<open>The sets the solver uses: \<open>T\<close> is \<open>usize\<close>, so every element is a valid index.\<close>

interpretation hybrid: points_to_set hybrid_ops "\<lambda>s. hs_set (points_to s)" "\<lambda>s. hs_inv (points_to s)" "\<lambda>d. True"
  by unfold_locales
    (simp_all add: hybrid_ops_def lift_pts_def hs_new_def hs_clear_spec hs_insert_spec hs_remove_spec
      hs_union_spec hs_subtract_spec hs_iter_set hs_superset_iff hs_count_card hs_is_empty_iff)

text \<open>
  \<open>PAGNodeId\<close>: the solver's elements are node indices, stored as \<open>usize\<close> through the
  conversions \<open>Idx::new\<close> and \<open>Idx::index\<close>. Indices below \<open>2 ^ 64\<close> are represented.
\<close>

definition node_pts_ops :: "(hybrid_points_to_set, nat) pts_ops" where
  "node_pts_ops =
     \<lparr>pts_new = pts_new hybrid_ops,
      pts_clear = pts_clear hybrid_ops,
      pts_count = pts_count hybrid_ops,
      pts_contains = (\<lambda>s elem. pts_contains hybrid_ops s (idx_new elem)),
      pts_is_empty = pts_is_empty hybrid_ops,
      pts_superset = pts_superset hybrid_ops,
      pts_insert = (\<lambda>s elem. pts_insert hybrid_ops s (idx_new elem)),
      pts_remove = (\<lambda>s elem. pts_remove hybrid_ops s (idx_new elem)),
      pts_union = pts_union hybrid_ops,
      pts_subtract = pts_subtract hybrid_ops,
      pts_intersect = pts_intersect hybrid_ops,
      pts_iter = (\<lambda>s. map idx_index (pts_iter hybrid_ops s))\<rparr>"

lemma idx_image_mem: "d < 2 ^ 64 \<Longrightarrow> d \<in> idx_index ` A \<longleftrightarrow> idx_new d \<in> A"
  by (metis idx_index_new idx_new_index image_eqI imageE)

lemma inj_idx_index: "inj_on idx_index A"
  by (simp add: inj_on_def)

interpretation node_pts: points_to_set node_pts_ops "\<lambda>s. idx_index ` hs_set (points_to s)"
    "\<lambda>s. hs_inv (points_to s)" "\<lambda>d. d < 2 ^ 64"
proof
  fix s t :: hybrid_points_to_set and d
  assume s: "hs_inv (points_to s)"
  show "pts_count node_pts_ops s = card (idx_index ` hs_set (points_to s))"
    using hybrid.count_card [OF s] by (simp add: node_pts_ops_def card_image inj_idx_index)
  show "set (pts_iter node_pts_ops s) = idx_index ` hs_set (points_to s)"
    "distinct (pts_iter node_pts_ops s)"
    using hybrid.set_iter [OF s] hybrid.distinct_iter [OF s]
    by (simp_all add: node_pts_ops_def distinct_map inj_idx_index)
  show "d \<in> idx_index ` hs_set (points_to s) \<Longrightarrow> d < 2 ^ 64" using idx_index_less by auto
  assume t: "hs_inv (points_to t)"
  show "pts_superset node_pts_ops s t \<longleftrightarrow> idx_index ` hs_set (points_to t) \<subseteq> idx_index ` hs_set (points_to s)"
    using hybrid.superset_iff [OF s t] by (simp add: node_pts_ops_def inj_image_subset_iff inj_idx_index)
  show "idx_index ` hs_set (points_to (fst (pts_subtract node_pts_ops s t))) =
      idx_index ` hs_set (points_to s) - idx_index ` hs_set (points_to t)"
    using hybrid.elems_subtract [OF s t] by (simp add: node_pts_ops_def image_set_diff inj_idx_index)
  show "snd (pts_subtract node_pts_ops s t) \<longleftrightarrow>
      idx_index ` hs_set (points_to s) \<inter> idx_index ` hs_set (points_to t) \<noteq> {}"
    using hybrid.subtract_changed [OF s t] by (simp add: node_pts_ops_def image_Int [symmetric] inj_idx_index)
  show "snd (pts_union node_pts_ops s t) \<longleftrightarrow> \<not> idx_index ` hs_set (points_to t) \<subseteq> idx_index ` hs_set (points_to s)"
    using hybrid.union_changed [OF s t] by (simp add: node_pts_ops_def inj_image_subset_iff inj_idx_index)
next
  fix s :: hybrid_points_to_set and d :: nat
  assume s: "hs_inv (points_to s)" and d: "d < 2 ^ 64"
  show "idx_index ` hs_set (points_to (fst (pts_remove node_pts_ops s d))) = idx_index ` hs_set (points_to s) - {d}"
    using hybrid.elems_remove [OF s TrueI, of "idx_new d"] d by (simp add: node_pts_ops_def image_set_diff inj_idx_index)
  show "snd (pts_remove node_pts_ops s d) \<longleftrightarrow> d \<in> idx_index ` hs_set (points_to s)"
    using hybrid.remove_changed [OF s TrueI, of "idx_new d"] idx_image_mem [OF d] by (simp add: node_pts_ops_def)
  show "snd (pts_insert node_pts_ops s d) \<longleftrightarrow> d \<notin> idx_index ` hs_set (points_to s)"
    using hybrid.insert_changed [OF s TrueI, of "idx_new d"] idx_image_mem [OF d] by (simp add: node_pts_ops_def)
  show "pts_contains node_pts_ops s d \<longleftrightarrow> d \<in> idx_index ` hs_set (points_to s)"
    using hybrid.contains_iff [OF s TrueI, of "idx_new d"] idx_image_mem [OF d] by (simp add: node_pts_ops_def)
qed (simp_all add: node_pts_ops_def image_Un)

subsection \<open>\<open>intersect\<close>\<close>

text \<open>
  What \<open>intersect\<close> does: on two bit vectors it is truncated at the capacity of \<open>other\<close>, and a
  large set against a small one computes its result flag from \<open>other\<close> instead of \<open>self\<close>.
\<close>

lemma bv_intersect_elems:
  "bv_elems (fst (bv_intersect bv other)) =
     (bv_elems bv \<inter> bv_elems other) \<union> {e \<in> bv_elems bv. capacity (words other) \<le> idx_index e}"
  unfolding bv_elems_def bv_intersect_set(1) by auto

lemma hs_intersect_Large:
  "hs_intersect (LargeSet l) (LargeSet m) = (LargeSet (fst (bv_intersect l m)), snd (bv_intersect l m))"
  by (simp split: prod.splits)

lemma bv_set_eq_iff: "bv_ok bv \<Longrightarrow> bv_ok other \<Longrightarrow> bv_set bv = bv_set other \<longleftrightarrow> bv_elems bv = bv_elems other"
  using bv_set_le_iff [of bv other] bv_set_le_iff [of other bv] by (simp add: set_eq_subset del: mem_bv_set)

lemma hs_intersect_spec:
  assumes "hs_inv s" "hs_inv t"
  shows "hs_inv (fst (hs_intersect s t)) \<and>
    hs_set (fst (hs_intersect s t)) = (hs_set s \<inter> hs_set t) \<union>
      (case (s, t) of (LargeSet _, LargeSet m) \<Rightarrow> {e \<in> hs_set s. capacity (words m) \<le> idx_index e} | _ \<Rightarrow> {}) \<and>
    (snd (hs_intersect s t) \<longleftrightarrow>
      (case (s, t) of (LargeSet _, SmallSet _) \<Rightarrow> \<not> hs_set t \<subseteq> hs_set s
         | _ \<Rightarrow> hs_set (fst (hs_intersect s t)) \<noteq> hs_set s))"
proof (cases "\<exists>l m. s = LargeSet l \<and> t = LargeSet m")
  case True
  then obtain l m where st: "s = LargeSet l" "t = LargeSet m" by blast
  then have ok: "bv_ok l" "bv_ok m" using assms by simp_all
  from bv_set_eq_iff [OF bv_ok_ops(5) [OF ok(1)] ok(1), of m] show ?thesis
    using ok by (simp add: st hs_intersect_Large bv_intersect_elems bv_intersect_set(2) bv_ok_ops(5)
        del: hs_intersect.simps mem_bv_set)
next
  case False
  then show ?thesis
    using assms by (cases s; cases t) (auto simp: retain_changed_def intro: order_trans [OF length_filter_le])
qed

subsection \<open>Properties\<close>



text \<open>
  What \<open>HybridSet::intersect\<close> computes. It is the intersection, except that two bit vectors
  keep the elements of \<open>self\<close> beyond the capacity of \<open>other\<close>. Its result says whether \<open>self\<close>
  changed, except for a bit vector against an array, where it says whether \<open>other\<close> has an
  element outside \<open>self\<close>.
\<close>

theorem hs_intersect_behaviour:
  assumes "hs_inv s" "hs_inv t"
  shows "hs_inv (fst (hs_intersect s t)) \<and>
    hs_set (fst (hs_intersect s t)) = (hs_set s \<inter> hs_set t) \<union>
      (case (s, t) of (LargeSet _, LargeSet m) \<Rightarrow> {e \<in> hs_set s. capacity (words m) \<le> idx_index e} | _ \<Rightarrow> {}) \<and>
    (snd (hs_intersect s t) \<longleftrightarrow>
      (case (s, t) of (LargeSet _, SmallSet _) \<Rightarrow> \<not> hs_set t \<subseteq> hs_set s
         | _ \<Rightarrow> hs_set (fst (hs_intersect s t)) \<noteq> hs_set s))"
  by (rule hs_intersect_spec [OF assms])

text \<open>The witness is the case of the wrong flag: \<open>self\<close> loses an element and the result is \<open>false\<close>.\<close>

theorem hs_intersect_behaviour_witness:
  "let s = LargeSet \<lparr>words = [3]\<rparr>; t = SmallSet [0]
   in \<not> snd (hs_intersect s t) \<and> hs_set (fst (hs_intersect s t)) = {0} \<and> 1 \<in> hs_set s"
proof -
  let ?s = "LargeSet \<lparr>words = [3]\<rparr>" and ?t = "SmallSet [0]"
  have ok: "hs_inv ?s" "hs_inv ?t" by (simp_all add: bv_ok_def SMALL_SET_CAPACITY_def)
  have "0 \<in> hs_set ?s" "1 \<in> hs_set ?s"
    by (simp_all add: bv_elems_def idx_index_def ws_bit_def)
  then show ?thesis using hs_intersect_behaviour [OF ok] by (auto simp: Let_def)
qed

end
