(* ===== verification/Pt_Data.thy ===== *)
theory Pt_Data
  imports Points_To
begin

section \<open>Points-to data (\<open>src/pts_set/pt_data.rs\<close>)\<close>

text \<open>
  \<open>BasePTData\<close> keeps a points-to set per key and the reverse map from elements to keys.
  \<open>DiffPTData\<close>, which the solver uses, splits the points-to set of a key into the part
  that still has to be propagated (\<open>diff\<close>) and the part already propagated (\<open>propa\<close>).
  Both are generic in the set type: the operations take the dictionary \<open>pts_ops\<close> of the
  trait \<open>PointsToSet\<close>, and the lemmas are proved in the locale of its contract.
\<close>

subsection \<open>Base points-to data\<close>

record ('k, 'd, 'ds) base_pt_data =
  pts_map :: "'k \<rightharpoonup> 'ds"
  rev_pts_map :: "'d \<rightharpoonup> 'k set"

definition base_new :: "('k, 'd, 'ds) base_pt_data" where
  "base_new = \<lparr>pts_map = Map.empty, rev_pts_map = Map.empty\<rparr>"

definition base_clear :: "('k, 'd, 'ds) base_pt_data \<Rightarrow> ('k, 'd, 'ds) base_pt_data" where
  "base_clear pd = pd\<lparr>pts_map := Map.empty, rev_pts_map := Map.empty\<rparr>"

definition base_get_pts :: "('k, 'd, 'ds) base_pt_data \<Rightarrow> 'k \<Rightarrow> 'ds option" where
  "base_get_pts pd var = pts_map pd var"

definition base_get_rev_pts :: "('k, 'd, 'ds) base_pt_data \<Rightarrow> 'd \<Rightarrow> 'k set option" where
  "base_get_rev_pts pd elem = rev_pts_map pd elem"

text \<open>\<open>rev_pts_map.entry(elem).or_default().insert(var)\<close>\<close>

definition rev_insert :: "('d \<rightharpoonup> 'k set) \<Rightarrow> 'd \<Rightarrow> 'k \<Rightarrow> ('d \<rightharpoonup> 'k set)" where
  "rev_insert m elem var = m(elem \<mapsto> insert var (entry_or m elem {}))"

definition base_add_pts ::
    "('ds, 'd) pts_ops \<Rightarrow> ('k, 'd, 'ds) base_pt_data \<Rightarrow> 'k \<Rightarrow> 'd \<Rightarrow> ('k, 'd, 'ds) base_pt_data \<times> bool" where
  "base_add_pts ops pd var elem =
     (let (ds, changed) = pts_insert ops (entry_or (pts_map pd) var (pts_new ops)) elem
      in (pd\<lparr>rev_pts_map := rev_insert (rev_pts_map pd) elem var,
             pts_map := (pts_map pd)(var \<mapsto> ds)\<rparr>, changed))"

definition base_add_rev_pts ::
    "('ds, 'd) pts_ops \<Rightarrow> ('k, 'd, 'ds) base_pt_data \<Rightarrow> 'ds \<Rightarrow> 'k \<Rightarrow> ('k, 'd, 'ds) base_pt_data" where
  "base_add_rev_pts ops pd data_set var =
     pd\<lparr>rev_pts_map := foldl (\<lambda>m elem. rev_insert m elem var) (rev_pts_map pd) (pts_iter ops data_set)\<rparr>"

definition base_union_pts ::
    "('ds, 'd) pts_ops \<Rightarrow> ('k, 'd, 'ds) base_pt_data \<Rightarrow> 'k \<Rightarrow> 'k \<Rightarrow> ('k, 'd, 'ds) base_pt_data \<times> bool" where
  "base_union_pts ops pd dst_var src_var =
     (case base_get_pts pd src_var of
        None \<Rightarrow> (pd, False)
      | Some src_ds \<Rightarrow>
          let dst_ds = entry_or (pts_map pd) dst_var (pts_new ops);
              pd = base_add_rev_pts ops pd src_ds dst_var;
              (ds, changed) = pts_union ops dst_ds src_ds
          in (pd\<lparr>pts_map := (pts_map pd)(dst_var \<mapsto> ds)\<rparr>, changed))"

definition base_union_pts_to ::
    "('ds, 'd) pts_ops \<Rightarrow> ('k, 'd, 'ds) base_pt_data \<Rightarrow> 'k \<Rightarrow> 'ds \<Rightarrow> ('k, 'd, 'ds) base_pt_data \<times> bool" where
  "base_union_pts_to ops pd dst_var src_ds =
     (let pd = base_add_rev_pts ops pd src_ds dst_var;
          (ds, changed) = pts_union ops (entry_or (pts_map pd) dst_var (pts_new ops)) src_ds
      in (pd\<lparr>pts_map := (pts_map pd)(dst_var \<mapsto> ds)\<rparr>, changed))"

definition base_remove_pts_elem ::
    "('ds, 'd) pts_ops \<Rightarrow> ('k, 'd, 'ds) base_pt_data \<Rightarrow> 'k \<Rightarrow> 'd \<Rightarrow> ('k, 'd, 'ds) base_pt_data \<times> bool" where
  "base_remove_pts_elem ops pd var elem =
     (let pd = (case rev_pts_map pd elem of
                  Some vars \<Rightarrow> pd\<lparr>rev_pts_map := (rev_pts_map pd)(elem \<mapsto> vars - {var})\<rparr>
                | None \<Rightarrow> pd)
      in case pts_map pd var of
           Some pts \<Rightarrow> (let (ds, changed) = pts_remove ops pts elem
                       in (pd\<lparr>pts_map := (pts_map pd)(var \<mapsto> ds)\<rparr>, changed))
         | None \<Rightarrow> (pd, False))"

text \<open>
  \<open>clear_pts\<close> unwraps the reverse set of every element of the cleared set: a missing
  entry is a panic, the value \<open>None\<close>.
\<close>

fun rev_remove_all :: "('d \<rightharpoonup> 'k set) \<Rightarrow> 'd list \<Rightarrow> 'k \<Rightarrow> ('d \<rightharpoonup> 'k set) option" where
  "rev_remove_all m [] var = Some m"
| "rev_remove_all m (elem # rest) var =
     (case m elem of
        None \<Rightarrow> None
      | Some vars \<Rightarrow> rev_remove_all (m(elem \<mapsto> vars - {var})) rest var)"

definition base_clear_pts ::
    "('ds, 'd) pts_ops \<Rightarrow> ('k, 'd, 'ds) base_pt_data \<Rightarrow> 'k \<Rightarrow> ('k, 'd, 'ds) base_pt_data option" where
  "base_clear_pts ops pd var =
     (case pts_map pd var of
        None \<Rightarrow> Some pd
      | Some pts \<Rightarrow> do {
          m \<leftarrow> rev_remove_all (rev_pts_map pd) (pts_iter ops pts) var;
          Some (pd\<lparr>rev_pts_map := m, pts_map := (pts_map pd)(var \<mapsto> pts_clear ops pts)\<rparr>)
        })"

subsection \<open>Diff points-to data\<close>

record ('k, 'ds) diff_pt_data =
  diff_pts_map :: "'k \<rightharpoonup> 'ds"
  propa_pts_map :: "'k \<rightharpoonup> 'ds"

definition diff_new :: "('k, 'ds) diff_pt_data" where
  "diff_new = \<lparr>diff_pts_map = Map.empty, propa_pts_map = Map.empty\<rparr>"

definition diff_clear :: "('k, 'ds) diff_pt_data \<Rightarrow> ('k, 'ds) diff_pt_data" where
  "diff_clear pd = pd\<lparr>diff_pts_map := Map.empty, propa_pts_map := Map.empty\<rparr>"

definition get_diff_pts :: "('k, 'ds) diff_pt_data \<Rightarrow> 'k \<Rightarrow> 'ds option" where
  "get_diff_pts pd var = diff_pts_map pd var"

definition get_propa_pts :: "('k, 'ds) diff_pt_data \<Rightarrow> 'k \<Rightarrow> 'ds option" where
  "get_propa_pts pd var = propa_pts_map pd var"

definition add_pts ::
    "('ds, 'd) pts_ops \<Rightarrow> ('k, 'ds) diff_pt_data \<Rightarrow> 'k \<Rightarrow> 'd \<Rightarrow> ('k, 'ds) diff_pt_data \<times> bool" where
  "add_pts ops pd var elem =
     (if (case propa_pts_map pd var of Some propa \<Rightarrow> pts_contains ops propa elem | None \<Rightarrow> False)
      then (pd, False)
      else let (diff, changed) = pts_insert ops (entry_or (diff_pts_map pd) var (pts_new ops)) elem
           in (pd\<lparr>diff_pts_map := (diff_pts_map pd)(var \<mapsto> diff)\<rparr>, changed))"

definition union_pts_to ::
    "('ds, 'd) pts_ops \<Rightarrow> ('k, 'ds) diff_pt_data \<Rightarrow> 'k \<Rightarrow> 'ds \<Rightarrow> ('k, 'ds) diff_pt_data \<times> bool" where
  "union_pts_to ops pd dst_var src_ds =
     (let diff = entry_or (diff_pts_map pd) dst_var (pts_new ops);
          propa = entry_or (propa_pts_map pd) dst_var (pts_new ops);
          (new, _) = pts_subtract ops src_ds propa;
          (diff', changed) = pts_union ops diff new
      in (pd\<lparr>diff_pts_map := (diff_pts_map pd)(dst_var \<mapsto> diff'),
             propa_pts_map := (propa_pts_map pd)(dst_var \<mapsto> propa)\<rparr>, changed))"

definition union_diff_pts ::
    "('ds, 'd) pts_ops \<Rightarrow> ('k, 'ds) diff_pt_data \<Rightarrow> 'k \<Rightarrow> 'k \<Rightarrow> ('k, 'ds) diff_pt_data \<times> bool" where
  "union_diff_pts ops pd dst_var src_var =
     (if dst_var = src_var then (pd, False)
      else case diff_pts_map pd src_var of
             Some diff \<Rightarrow> union_pts_to ops pd dst_var diff
           | None \<Rightarrow> (pd, False))"

definition union_pts ::
    "('ds, 'd) pts_ops \<Rightarrow> ('k, 'ds) diff_pt_data \<Rightarrow> 'k \<Rightarrow> 'k \<Rightarrow> ('k, 'ds) diff_pt_data \<times> bool" where
  "union_pts ops pd dst_var src_var =
     (if dst_var = src_var then (pd, False)
      else
        let (pd, changed1) = (case diff_pts_map pd src_var of
               Some diff \<Rightarrow> union_pts_to ops pd dst_var diff
             | None \<Rightarrow> (pd, False));
            (pd, changed2) = (case propa_pts_map pd src_var of
               Some propa \<Rightarrow> union_pts_to ops pd dst_var propa
             | None \<Rightarrow> (pd, False))
        in (pd, changed1 \<or> changed2))"

definition remove_pts_elem ::
    "('ds, 'd) pts_ops \<Rightarrow> ('k, 'ds) diff_pt_data \<Rightarrow> 'k \<Rightarrow> 'd \<Rightarrow> ('k, 'ds) diff_pt_data \<times> bool" where
  "remove_pts_elem ops pd var elem =
     (let (diff, changed1) = pts_remove ops (entry_or (diff_pts_map pd) var (pts_new ops)) elem;
          (propa, changed2) = pts_remove ops (entry_or (propa_pts_map pd) var (pts_new ops)) elem
      in (pd\<lparr>diff_pts_map := (diff_pts_map pd)(var \<mapsto> diff),
             propa_pts_map := (propa_pts_map pd)(var \<mapsto> propa)\<rparr>, changed1 \<or> changed2))"

definition flush :: "('ds, 'd) pts_ops \<Rightarrow> ('k, 'ds) diff_pt_data \<Rightarrow> 'k \<Rightarrow> ('k, 'ds) diff_pt_data" where
  "flush ops pd var =
     (case diff_pts_map pd var of
        None \<Rightarrow> pd
      | Some diff \<Rightarrow>
          let propa = entry_or (propa_pts_map pd) var (pts_new ops);
              (propa', _) = pts_union ops propa diff
          in pd\<lparr>propa_pts_map := (propa_pts_map pd)(var \<mapsto> propa'),
                diff_pts_map := (diff_pts_map pd)(var \<mapsto> pts_clear ops diff)\<rparr>)"

definition clear_diff_pts ::
    "('ds, 'd) pts_ops \<Rightarrow> ('k, 'ds) diff_pt_data \<Rightarrow> 'k \<Rightarrow> ('k, 'ds) diff_pt_data" where
  "clear_diff_pts ops pd var =
     (case diff_pts_map pd var of
        Some diff \<Rightarrow> pd\<lparr>diff_pts_map := (diff_pts_map pd)(var \<mapsto> pts_clear ops diff)\<rparr>
      | None \<Rightarrow> pd)"

definition clear_propa_pts ::
    "('ds, 'd) pts_ops \<Rightarrow> ('k, 'ds) diff_pt_data \<Rightarrow> 'k \<Rightarrow> ('k, 'ds) diff_pt_data" where
  "clear_propa_pts ops pd var =
     (case propa_pts_map pd var of
        Some propa \<Rightarrow> pd\<lparr>propa_pts_map := (propa_pts_map pd)(var \<mapsto> pts_clear ops propa)\<rparr>
      | None \<Rightarrow> pd)"

definition clear_pts ::
    "('ds, 'd) pts_ops \<Rightarrow> ('k, 'ds) diff_pt_data \<Rightarrow> 'k \<Rightarrow> ('k, 'ds) diff_pt_data" where
  "clear_pts ops pd var = clear_propa_pts ops (clear_diff_pts ops pd var) var"

subsection \<open>Abstraction and invariants\<close>

text \<open>The elements a map of sets holds for a key: none where the key is missing.\<close>

definition elems_at :: "('ds \<Rightarrow> 'd set) \<Rightarrow> ('k \<rightharpoonup> 'ds) \<Rightarrow> 'k \<Rightarrow> 'd set" where
  "elems_at elems m v = (case m v of None \<Rightarrow> {} | Some s \<Rightarrow> elems s)"

definition all_inv :: "('ds \<Rightarrow> bool) \<Rightarrow> ('k \<rightharpoonup> 'ds) \<Rightarrow> bool" where
  "all_inv ok m \<longleftrightarrow> (\<forall>v s. m v = Some s \<longrightarrow> ok s)"

abbreviation diff_of :: "('ds \<Rightarrow> 'd set) \<Rightarrow> ('k, 'ds) diff_pt_data \<Rightarrow> 'k \<Rightarrow> 'd set" where
  "diff_of elems pd \<equiv> elems_at elems (diff_pts_map pd)"

abbreviation propa_of :: "('ds \<Rightarrow> 'd set) \<Rightarrow> ('k, 'ds) diff_pt_data \<Rightarrow> 'k \<Rightarrow> 'd set" where
  "propa_of elems pd \<equiv> elems_at elems (propa_pts_map pd)"

text \<open>The points-to set of a key: what is still to be propagated and what has been.\<close>

definition pts_of :: "('ds \<Rightarrow> 'd set) \<Rightarrow> ('k, 'ds) diff_pt_data \<Rightarrow> 'k \<Rightarrow> 'd set" where
  "pts_of elems pd v = diff_of elems pd v \<union> propa_of elems pd v"

text \<open>The two parts of a points-to set are always disjoint.\<close>

definition diff_inv :: "('ds \<Rightarrow> 'd set) \<Rightarrow> ('ds \<Rightarrow> bool) \<Rightarrow> ('k, 'ds) diff_pt_data \<Rightarrow> bool" where
  "diff_inv elems ok pd \<longleftrightarrow>
     all_inv ok (diff_pts_map pd) \<and> all_inv ok (propa_pts_map pd) \<and>
     (\<forall>v. diff_of elems pd v \<inter> propa_of elems pd v = {})"

text \<open>The reverse map is the converse of the points-to map.\<close>

definition rev_of :: "('k, 'd, 'ds) base_pt_data \<Rightarrow> 'd \<Rightarrow> 'k set" where
  "rev_of pd e = entry_or (rev_pts_map pd) e {}"

definition base_inv :: "('ds \<Rightarrow> 'd set) \<Rightarrow> ('ds \<Rightarrow> bool) \<Rightarrow> ('k, 'd, 'ds) base_pt_data \<Rightarrow> bool" where
  "base_inv elems ok pd \<longleftrightarrow>
     all_inv ok (pts_map pd) \<and>
     (\<forall>v e. e \<in> elems_at elems (pts_map pd) v \<longleftrightarrow> v \<in> rev_of pd e)"

lemma elems_at_simps [simp]:
  "elems_at elems Map.empty v = {}"
  "elems_at elems (m(w \<mapsto> s)) v = (if v = w then elems s else elems_at elems m v)"
  "m v = Some s \<Longrightarrow> elems_at elems m v = elems s"
  "m v = None \<Longrightarrow> elems_at elems m v = {}"
  by (simp_all add: elems_at_def)

lemma all_inv_empty [simp]: "all_inv ok Map.empty"
  by (simp add: all_inv_def)

lemma all_inv_upd [simp, intro]: "all_inv ok m \<Longrightarrow> ok s \<Longrightarrow> all_inv ok (m(v \<mapsto> s))"
  by (simp add: all_inv_def)

lemma all_invD: "all_inv ok m \<Longrightarrow> m v = Some s \<Longrightarrow> ok s"
  by (simp add: all_inv_def)

lemma rev_insert_apply:
  "entry_or (rev_insert m e v) e' {} = (if e' = e then insert v (entry_or m e {}) else entry_or m e' {})"
  by (simp add: rev_insert_def entry_or_def)

lemma rev_insert_foldl:
  "entry_or (foldl (\<lambda>m e. rev_insert m e v) m xs) e {} =
     (if e \<in> set xs then insert v (entry_or m e {}) else entry_or m e {})"
  by (induction xs arbitrary: m) (auto simp: rev_insert_apply)

lemma rev_remove_all_spec:
  "(\<forall>e \<in> set xs. m e \<noteq> None) \<Longrightarrow>
     \<exists>m'. rev_remove_all m xs v = Some m' \<and>
       (\<forall>e. entry_or m' e {} = (if e \<in> set xs then entry_or m e {} - {v} else entry_or m e {}))"
proof (induction xs arbitrary: m)
  case (Cons x xs)
  from Cons.prems obtain vars where vars: "m x = Some vars" by auto
  let ?m = "m(x \<mapsto> vars - {v})"
  have "\<forall>e \<in> set xs. ?m e \<noteq> None" using Cons.prems by auto
  from Cons.IH [OF this] obtain m' where m': "rev_remove_all ?m xs v = Some m'"
    "\<forall>e. entry_or m' e {} = (if e \<in> set xs then entry_or ?m e {} - {v} else entry_or ?m e {})"
    by blast
  then show ?case using vars by (auto simp: entry_or_upd)
qed simp

subsection \<open>The lemmas of the contract's clients\<close>

context points_to_set
begin

lemma entry_or_ok [simp]: "all_inv ok m \<Longrightarrow> ok (entry_or m v (pts_new ops))"
  by (cases "m v") (auto dest: all_invD)

lemma entry_or_elems [simp]: "elems (entry_or m v (pts_new ops)) = elems_at elems m v"
  by (cases "m v") auto

lemma diff_inv_new: "diff_inv elems ok diff_new"
  by (simp add: diff_inv_def diff_new_def)

lemma add_pts_spec:
  assumes inv: "diff_inv elems ok pd" and add: "add_pts ops pd v e = (pd', changed)" and e: "valid e"
  shows "diff_inv elems ok pd' \<and>
    (\<forall>w. propa_of elems pd' w = propa_of elems pd w) \<and>
    (\<forall>w. diff_of elems pd' w =
       (if w = v \<and> e \<notin> propa_of elems pd v then insert e (diff_of elems pd w) else diff_of elems pd w)) \<and>
    (changed \<longleftrightarrow> e \<notin> pts_of elems pd v)"
proof (cases "e \<in> propa_of elems pd v")
  case True
  then have "(case propa_pts_map pd v of Some propa \<Rightarrow> pts_contains ops propa e | None \<Rightarrow> False)"
    using inv e by (auto simp: elems_at_def diff_inv_def split: option.splits dest: all_invD)
  then show ?thesis using True inv add e by (auto simp: add_pts_def pts_of_def)
next
  case False
  have ok: "all_inv ok (diff_pts_map pd)" "all_inv ok (propa_pts_map pd)"
    using inv by (simp_all add: diff_inv_def)
  let ?s = "entry_or (diff_pts_map pd) v (pts_new ops)"
  have "\<not> (case propa_pts_map pd v of Some propa \<Rightarrow> pts_contains ops propa e | None \<Rightarrow> False)"
    using False inv e by (auto simp: elems_at_def diff_inv_def split: option.splits dest: all_invD)
  then have "pd' = pd\<lparr>diff_pts_map := (diff_pts_map pd)(v \<mapsto> fst (pts_insert ops ?s e))\<rparr>"
    and "changed = snd (pts_insert ops ?s e)"
    using add by (auto simp: add_pts_def split: prod.splits)
  moreover have "ok ?s" using ok by simp
  ultimately show ?thesis using False inv ok e by (auto simp: diff_inv_def pts_of_def)
qed

lemma union_pts_to_spec:
  assumes inv: "diff_inv elems ok pd" and src: "ok src"
    and un: "union_pts_to ops pd v src = (pd', changed)"
  shows "diff_inv elems ok pd' \<and>
    (\<forall>w. propa_of elems pd' w = propa_of elems pd w) \<and>
    (\<forall>w. diff_of elems pd' w =
       (if w = v then diff_of elems pd w \<union> (elems src - propa_of elems pd w) else diff_of elems pd w)) \<and>
    (changed \<longleftrightarrow> \<not> elems src \<subseteq> pts_of elems pd v)"
proof -
  have ok: "all_inv ok (diff_pts_map pd)" "all_inv ok (propa_pts_map pd)"
    using inv by (simp_all add: diff_inv_def)
  let ?d = "entry_or (diff_pts_map pd) v (pts_new ops)"
  let ?p = "entry_or (propa_pts_map pd) v (pts_new ops)"
  let ?n = "fst (pts_subtract ops src ?p)"
  have pd': "pd' = pd\<lparr>diff_pts_map := (diff_pts_map pd)(v \<mapsto> fst (pts_union ops ?d ?n)),
      propa_pts_map := (propa_pts_map pd)(v \<mapsto> ?p)\<rparr>" "changed = snd (pts_union ops ?d ?n)"
    using un by (auto simp: union_pts_to_def Let_def split: prod.splits)
  have "ok ?d" "ok ?p" "ok ?n" using ok src by simp_all
  then show ?thesis using inv ok src by (auto simp: pd' diff_inv_def pts_of_def)
qed

lemma union_opt_spec:
  assumes inv: "diff_inv elems ok pd" and m: "all_inv ok m"
    and un: "(case m src of Some d \<Rightarrow> union_pts_to ops pd v d | None \<Rightarrow> (pd, False)) = (pd', changed)"
  shows "diff_inv elems ok pd' \<and>
    (\<forall>w. propa_of elems pd' w = propa_of elems pd w) \<and>
    (\<forall>w. diff_of elems pd' w = (if w = v then diff_of elems pd w \<union>
       (elems_at elems m src - propa_of elems pd w) else diff_of elems pd w)) \<and>
    (changed \<longleftrightarrow> \<not> elems_at elems m src \<subseteq> pts_of elems pd v)"
proof (cases "m src")
  case None
  then show ?thesis using inv un by auto
next
  case (Some s)
  then have "ok s" "union_pts_to ops pd v s = (pd', changed)" using m un by (auto dest: all_invD)
  from union_pts_to_spec [OF inv this] show ?thesis using Some by simp
qed

lemma union_diff_pts_spec:
  assumes inv: "diff_inv elems ok pd" and un: "union_diff_pts ops pd dst src = (pd', changed)"
    and neq: "dst \<noteq> src"
  shows "diff_inv elems ok pd' \<and>
    (\<forall>w. propa_of elems pd' w = propa_of elems pd w) \<and>
    pts_of elems pd' dst = pts_of elems pd dst \<union> diff_of elems pd src \<and>
    (\<forall>w. w \<noteq> dst \<longrightarrow> diff_of elems pd' w = diff_of elems pd w) \<and>
    (changed \<longleftrightarrow> \<not> diff_of elems pd src \<subseteq> pts_of elems pd dst)"
proof -
  have m: "all_inv ok (diff_pts_map pd)" using inv by (simp add: diff_inv_def)
  have "(case diff_pts_map pd src of Some d \<Rightarrow> union_pts_to ops pd dst d | None \<Rightarrow> (pd, False))
      = (pd', changed)"
    using un neq by (simp add: union_diff_pts_def split: option.splits)
  from union_opt_spec [OF inv m this] show ?thesis by (auto simp: pts_of_def)
qed

lemma union_pts_spec:
  assumes inv: "diff_inv elems ok pd" and un: "union_pts ops pd dst src = (pd', changed)"
  shows "diff_inv elems ok pd' \<and>
    (\<forall>w. propa_of elems pd' w = propa_of elems pd w) \<and>
    pts_of elems pd' dst = pts_of elems pd dst \<union> pts_of elems pd src \<and>
    (\<forall>w. w \<noteq> dst \<longrightarrow> pts_of elems pd' w = pts_of elems pd w) \<and>
    (changed \<longleftrightarrow> \<not> pts_of elems pd src \<subseteq> pts_of elems pd dst)"
proof (cases "dst = src")
  case True
  then show ?thesis using inv un by (auto simp: union_pts_def)
next
  case False
  obtain pd1 c1 where s1:
    "(case diff_pts_map pd src of Some d \<Rightarrow> union_pts_to ops pd dst d | None \<Rightarrow> (pd, False)) = (pd1, c1)"
    by fastforce
  have "all_inv ok (diff_pts_map pd)" using inv by (simp add: diff_inv_def)
  note spec1 = union_opt_spec [OF inv this s1]
  obtain pd2 c2 where s2:
    "(case propa_pts_map pd1 src of Some d \<Rightarrow> union_pts_to ops pd1 dst d | None \<Rightarrow> (pd1, False)) = (pd2, c2)"
    by fastforce
  have inv1: "diff_inv elems ok pd1" using spec1 by blast
  then have "all_inv ok (propa_pts_map pd1)" by (simp add: diff_inv_def)
  note spec2 = union_opt_spec [OF inv1 this s2]
  have "pd' = pd2" "changed = (c1 \<or> c2)"
    using un False s1 s2 by (simp_all add: union_pts_def Let_def)
  then show ?thesis using spec1 spec2 False by (auto simp: pts_of_def)
qed

lemma remove_pts_elem_spec:
  assumes inv: "diff_inv elems ok pd" and rem: "remove_pts_elem ops pd v e = (pd', changed)" and e: "valid e"
  shows "diff_inv elems ok pd' \<and>
    (\<forall>w. diff_of elems pd' w = (if w = v then diff_of elems pd w - {e} else diff_of elems pd w)) \<and>
    (\<forall>w. propa_of elems pd' w = (if w = v then propa_of elems pd w - {e} else propa_of elems pd w)) \<and>
    (changed \<longleftrightarrow> e \<in> pts_of elems pd v)"
proof -
  have ok: "all_inv ok (diff_pts_map pd)" "all_inv ok (propa_pts_map pd)"
    using inv by (simp_all add: diff_inv_def)
  let ?d = "entry_or (diff_pts_map pd) v (pts_new ops)"
  let ?p = "entry_or (propa_pts_map pd) v (pts_new ops)"
  have pd': "pd' = pd\<lparr>diff_pts_map := (diff_pts_map pd)(v \<mapsto> fst (pts_remove ops ?d e)),
      propa_pts_map := (propa_pts_map pd)(v \<mapsto> fst (pts_remove ops ?p e))\<rparr>"
      "changed \<longleftrightarrow> snd (pts_remove ops ?d e) \<or> snd (pts_remove ops ?p e)"
    using rem by (auto simp: remove_pts_elem_def Let_def split: prod.splits)
  have "ok ?d" "ok ?p" using ok by simp_all
  then show ?thesis using inv ok e by (auto simp: pd' diff_inv_def pts_of_def)
qed

lemma flush_spec:
  assumes inv: "diff_inv elems ok pd"
  shows "diff_inv elems ok (flush ops pd v) \<and>
    (\<forall>w. pts_of elems (flush ops pd v) w = pts_of elems pd w) \<and>
    (\<forall>w. diff_of elems (flush ops pd v) w = (if w = v then {} else diff_of elems pd w))"
proof (cases "diff_pts_map pd v")
  case None
  then show ?thesis using inv by (auto simp: flush_def)
next
  case (Some d)
  have ok: "all_inv ok (diff_pts_map pd)" "all_inv ok (propa_pts_map pd)"
    using inv by (simp_all add: diff_inv_def)
  let ?p = "entry_or (propa_pts_map pd) v (pts_new ops)"
  have fl: "flush ops pd v = pd\<lparr>propa_pts_map := (propa_pts_map pd)(v \<mapsto> fst (pts_union ops ?p d)),
      diff_pts_map := (diff_pts_map pd)(v \<mapsto> pts_clear ops d)\<rparr>"
    using Some by (auto simp: flush_def Let_def split: prod.splits)
  have "ok ?p" "ok d" using ok Some by (auto dest: all_invD)
  then show ?thesis using inv ok Some by (auto simp: fl diff_inv_def pts_of_def)
qed

lemma clear_pts_spec:
  assumes inv: "diff_inv elems ok pd"
  shows "diff_inv elems ok (clear_pts ops pd v) \<and>
    (\<forall>w. pts_of elems (clear_pts ops pd v) w = (if w = v then {} else pts_of elems pd w))"
proof -
  have ok: "all_inv ok (diff_pts_map pd)" "all_inv ok (propa_pts_map pd)"
    using inv by (simp_all add: diff_inv_def)
  then show ?thesis using inv
    by (auto simp: clear_pts_def clear_diff_pts_def clear_propa_pts_def diff_inv_def pts_of_def
        split: option.splits dest: all_invD)
qed

text \<open>The reverse map of \<open>BasePTData\<close> stays the converse of the points-to map.\<close>

lemma base_inv_new: "base_inv elems ok base_new"
  by (simp add: base_inv_def base_new_def rev_of_def entry_or_def)

lemma base_add_pts_spec:
  assumes inv: "base_inv elems ok pd" and add: "base_add_pts ops pd v e = (pd', changed)" and e: "valid e"
  shows "base_inv elems ok pd' \<and>
    (\<forall>w. elems_at elems (pts_map pd') w =
       (if w = v then insert e (elems_at elems (pts_map pd) w) else elems_at elems (pts_map pd) w)) \<and>
    (changed \<longleftrightarrow> e \<notin> elems_at elems (pts_map pd) v)"
proof -
  let ?s = "entry_or (pts_map pd) v (pts_new ops)"
  have m: "all_inv ok (pts_map pd)" using inv by (simp add: base_inv_def)
  have pd': "pd' = pd\<lparr>rev_pts_map := rev_insert (rev_pts_map pd) e v,
      pts_map := (pts_map pd)(v \<mapsto> fst (pts_insert ops ?s e))\<rparr>" "changed = snd (pts_insert ops ?s e)"
    using add by (auto simp: base_add_pts_def split: prod.splits)
  have "ok ?s" using m by simp
  then show ?thesis
    using inv m e by (auto simp: pd' base_inv_def rev_of_def rev_insert_apply)
qed

lemma base_union_pts_to_spec:
  assumes inv: "base_inv elems ok pd" and src: "ok src"
    and un: "base_union_pts_to ops pd v src = (pd', changed)"
  shows "base_inv elems ok pd' \<and>
    (\<forall>w. elems_at elems (pts_map pd') w =
       (if w = v then elems_at elems (pts_map pd) w \<union> elems src else elems_at elems (pts_map pd) w)) \<and>
    (changed \<longleftrightarrow> \<not> elems src \<subseteq> elems_at elems (pts_map pd) v)"
proof -
  let ?s = "entry_or (pts_map pd) v (pts_new ops)"
  have m: "all_inv ok (pts_map pd)" using inv by (simp add: base_inv_def)
  have pd': "pd' = (base_add_rev_pts ops pd src v)
      \<lparr>pts_map := (pts_map pd)(v \<mapsto> fst (pts_union ops ?s src))\<rparr>" "changed = snd (pts_union ops ?s src)"
    using un by (auto simp: base_union_pts_to_def base_add_rev_pts_def Let_def split: prod.splits)
  have "ok ?s" using m by simp
  then show ?thesis
    using inv m src by (auto simp: pd' base_inv_def rev_of_def base_add_rev_pts_def rev_insert_foldl)
qed

lemma base_union_pts_spec:
  assumes inv: "base_inv elems ok pd" and un: "base_union_pts ops pd dst src = (pd', changed)"
  shows "base_inv elems ok pd' \<and>
    (\<forall>w. elems_at elems (pts_map pd') w =
       (if w = dst then elems_at elems (pts_map pd) dst \<union> elems_at elems (pts_map pd) src
        else elems_at elems (pts_map pd) w)) \<and>
    (changed \<longleftrightarrow> \<not> elems_at elems (pts_map pd) src \<subseteq> elems_at elems (pts_map pd) dst)"
proof (cases "pts_map pd src")
  case None
  then show ?thesis using inv un by (auto simp: base_union_pts_def base_get_pts_def)
next
  case (Some s)
  have "ok s" using inv Some by (auto simp: base_inv_def dest: all_invD)
  moreover have "base_union_pts_to ops pd dst s = (pd', changed)"
    using un Some
    by (simp add: base_union_pts_def base_get_pts_def base_union_pts_to_def base_add_rev_pts_def Let_def)
  ultimately show ?thesis using base_union_pts_to_spec [OF inv] Some by auto
qed

lemma base_remove_pts_elem_spec:
  assumes inv: "base_inv elems ok pd" and rem: "base_remove_pts_elem ops pd v e = (pd', changed)" and e: "valid e"
  shows "base_inv elems ok pd' \<and>
    (\<forall>w. elems_at elems (pts_map pd') w =
       (if w = v then elems_at elems (pts_map pd) w - {e} else elems_at elems (pts_map pd) w)) \<and>
    (changed \<longleftrightarrow> e \<in> elems_at elems (pts_map pd) v)"
proof -
  have m: "all_inv ok (pts_map pd)" using inv by (simp add: base_inv_def)
  let ?m = "case rev_pts_map pd e of Some vars \<Rightarrow> (rev_pts_map pd)(e \<mapsto> vars - {v}) | None \<Rightarrow> rev_pts_map pd"
  have rev: "entry_or ?m e' {} = (if e' = e then entry_or (rev_pts_map pd) e' {} - {v}
      else entry_or (rev_pts_map pd) e' {})" for e'
    by (cases "rev_pts_map pd e") (auto simp: entry_or_def)
  have at_v: "v \<in> entry_or (rev_pts_map pd) e' {} \<longleftrightarrow> e' \<in> elems_at elems (pts_map pd) v" for e'
    using inv by (simp add: base_inv_def rev_of_def)
  show ?thesis
  proof (cases "pts_map pd v")
    case None
    then have "rev_pts_map pd' = ?m" "pts_map pd' = pts_map pd" "\<not> changed"
      using rem by (auto simp: base_remove_pts_elem_def Let_def split: option.splits)
    then show ?thesis using inv None at_v by (auto simp: base_inv_def rev_of_def rev)
  next
    case (Some s)
    then have "rev_pts_map pd' = ?m" "pts_map pd' = (pts_map pd)(v \<mapsto> fst (pts_remove ops s e))"
      "changed = snd (pts_remove ops s e)"
      using rem by (auto simp: base_remove_pts_elem_def Let_def split: option.splits prod.splits)
    moreover have "ok s" using m Some by (auto dest: all_invD)
    ultimately show ?thesis using inv m Some at_v e by (auto simp: base_inv_def rev_of_def rev)
  qed
qed

text \<open>With the converse invariant, \<open>clear_pts\<close> never unwraps a missing reverse entry.\<close>

lemma base_clear_pts_spec:
  assumes inv: "base_inv elems ok pd"
  shows "\<exists>pd'. base_clear_pts ops pd v = Some pd' \<and> base_inv elems ok pd' \<and>
    (\<forall>w. elems_at elems (pts_map pd') w = (if w = v then {} else elems_at elems (pts_map pd) w))"
proof (cases "pts_map pd v")
  case None
  then show ?thesis using inv by (simp add: base_clear_pts_def)
next
  case (Some s)
  have m: "all_inv ok (pts_map pd)" using inv by (simp add: base_inv_def)
  then have s: "ok s" using Some by (auto dest: all_invD)
  have "\<forall>e \<in> set (pts_iter ops s). rev_pts_map pd e \<noteq> None"
  proof
    fix e assume "e \<in> set (pts_iter ops s)"
    then have "e \<in> elems_at elems (pts_map pd) v" using s Some by simp
    then have "v \<in> rev_of pd e" using inv by (simp add: base_inv_def)
    then show "rev_pts_map pd e \<noteq> None" by (auto simp: rev_of_def entry_or_def split: option.splits)
  qed
  from rev_remove_all_spec [OF this, of v] obtain m' where
    m': "rev_remove_all (rev_pts_map pd) (pts_iter ops s) v = Some m'"
    "\<forall>e. entry_or m' e {} = (if e \<in> set (pts_iter ops s) then entry_or (rev_pts_map pd) e {} - {v}
       else entry_or (rev_pts_map pd) e {})" by blast
  moreover have "v \<in> entry_or (rev_pts_map pd) e {} \<longleftrightarrow> e \<in> elems s" for e
    using inv elems_at_simps(3) [of "pts_map pd" v s elems, OF Some]
    by (metis base_inv_def rev_of_def)
  ultimately show ?thesis
    using inv m s Some by (auto simp: base_clear_pts_def base_inv_def rev_of_def)
qed

end

subsection \<open>Properties\<close>

text \<open>The instance the solver uses: sets are \<open>HybridPointsToSet\<close>.\<close>

abbreviation h_elems :: "hybrid_points_to_set \<Rightarrow> usize set" where
  "h_elems \<equiv> \<lambda>s. hs_set (points_to s)"

abbreviation h_ok :: "hybrid_points_to_set \<Rightarrow> bool" where
  "h_ok \<equiv> \<lambda>s. hs_inv (points_to s)"

text \<open>
  C15: \<open>DiffPTData::union_pts\<close> adds to the points-to set of \<open>dst\<close> (what is to be propagated
  and what has been) exactly that of \<open>src\<close>, leaves every other key alone, puts the new
  elements into the part still to be propagated, keeps the two parts disjoint, and reports a
  change exactly when there was one.
\<close>

theorem diff_union_pts:
  assumes "diff_inv h_elems h_ok pd" and "union_pts hybrid_ops pd dst src = (pd', changed)"
  shows "diff_inv h_elems h_ok pd' \<and>
    (\<forall>w. propa_of h_elems pd' w = propa_of h_elems pd w) \<and>
    pts_of h_elems pd' dst = pts_of h_elems pd dst \<union> pts_of h_elems pd src \<and>
    (\<forall>w. w \<noteq> dst \<longrightarrow> pts_of h_elems pd' w = pts_of h_elems pd w) \<and>
    (changed \<longleftrightarrow> \<not> pts_of h_elems pd src \<subseteq> pts_of h_elems pd dst)"
  by (rule hybrid.union_pts_spec [OF assms])

text \<open>
  C16: \<open>DiffPTData::flush\<close> empties the part still to be propagated of one key and loses
  nothing: every points-to set stays what it was.
\<close>

theorem diff_flush:
  assumes "diff_inv h_elems h_ok pd"
  shows "diff_inv h_elems h_ok (flush hybrid_ops pd v) \<and>
    (\<forall>w. pts_of h_elems (flush hybrid_ops pd v) w = pts_of h_elems pd w) \<and>
    (\<forall>w. diff_of h_elems (flush hybrid_ops pd v) w = (if w = v then {} else diff_of h_elems pd w))"
  by (rule hybrid.flush_spec [OF assms])

text \<open>
  An element enters the part still to be propagated only when it is in neither part, and
  \<open>add_pts\<close> returns \<open>true\<close> exactly then; \<open>remove_pts_elem\<close> undoes it.
\<close>

theorem diff_add_remove:
  assumes "diff_inv h_elems h_ok pd" and "add_pts hybrid_ops pd v e = (pd1, c1)"
    and "remove_pts_elem hybrid_ops pd1 v e = (pd2, c2)"
  shows "diff_inv h_elems h_ok pd1 \<and> pts_of h_elems pd1 v = insert e (pts_of h_elems pd v) \<and>
    propa_of h_elems pd1 v = propa_of h_elems pd v \<and> (c1 \<longleftrightarrow> e \<notin> pts_of h_elems pd v) \<and>
    diff_inv h_elems h_ok pd2 \<and> pts_of h_elems pd2 v = pts_of h_elems pd v - {e} \<and> c2"
proof -
  note add = hybrid.add_pts_spec [OF assms(1,2) TrueI]
  have "diff_inv h_elems h_ok pd1" using add by blast
  from hybrid.remove_pts_elem_spec [OF this assms(3) TrueI] add show ?thesis
    unfolding pts_of_def by auto
qed

text \<open>
  The reverse map of \<open>BasePTData\<close> stays the converse of the points-to map, and because of
  that \<open>clear_pts\<close>, which unwraps the reverse set of every element it clears, never panics.
\<close>

theorem base_clear_no_panic:
  assumes "base_inv h_elems h_ok pd" and "base_union_pts hybrid_ops pd dst src = (pd1, changed)"
  shows "base_inv h_elems h_ok pd1 \<and>
    elems_at h_elems (pts_map pd1) dst = elems_at h_elems (pts_map pd) dst \<union> elems_at h_elems (pts_map pd) src \<and>
    (\<exists>pd2. base_clear_pts hybrid_ops pd1 v = Some pd2 \<and> base_inv h_elems h_ok pd2 \<and>
      (\<forall>w. elems_at h_elems (pts_map pd2) w = (if w = v then {} else elems_at h_elems (pts_map pd1) w)))"
  using hybrid.base_union_pts_spec [OF assms] hybrid.base_clear_pts_spec [of pd1 v] by simp

text \<open>The witnesses start from the empty data with one element added.\<close>

definition sample_diff :: "(nat, hybrid_points_to_set) diff_pt_data" where
  "sample_diff = fst (add_pts hybrid_ops diff_new 1 7)"

definition sample_base :: "(nat, usize, hybrid_points_to_set) base_pt_data" where
  "sample_base = fst (base_add_pts hybrid_ops base_new 1 7)"

lemma new_maps [simp]:
  "diff_pts_map diff_new = Map.empty" "propa_pts_map diff_new = Map.empty" "pts_map base_new = Map.empty"
  by (simp_all add: diff_new_def base_new_def)

lemma sample_diff_ok:
  "diff_inv h_elems h_ok sample_diff" "pts_of h_elems sample_diff w = (if w = 1 then {7} else {})"
  "diff_of h_elems sample_diff w = (if w = 1 then {7} else {})"
  using hybrid.add_pts_spec [OF hybrid.diff_inv_new prod.collapse [symmetric] TrueI, of "1 :: nat" 7]
  by (cases "w = 1"; simp add: sample_diff_def pts_of_def)+

lemma sample_base_ok:
  "base_inv h_elems h_ok sample_base" "elems_at h_elems (pts_map sample_base) w = (if w = 1 then {7} else {})"
  using hybrid.base_add_pts_spec [OF hybrid.base_inv_new prod.collapse [symmetric] TrueI, of "1 :: nat" 7]
  by (cases "w = 1"; simp add: sample_base_def)+

theorem diff_union_pts_witness:
  "pts_of h_elems (fst (union_pts hybrid_ops sample_diff 2 1)) 2 = {7} \<and>
   snd (union_pts hybrid_ops sample_diff 2 1)"
  using diff_union_pts [OF sample_diff_ok(1) prod.collapse [symmetric], of 2 1]
  by (simp add: sample_diff_ok)

theorem diff_flush_witness:
  "pts_of h_elems (flush hybrid_ops sample_diff 1) 1 = {7} \<and>
   diff_of h_elems (flush hybrid_ops sample_diff 1) 1 = {}"
  using diff_flush [OF sample_diff_ok(1), of 1] by (simp add: sample_diff_ok)

theorem diff_add_remove_witness:
  "let (pd1, c1) = add_pts hybrid_ops sample_diff 1 9; (pd2, c2) = remove_pts_elem hybrid_ops pd1 1 9
   in c1 \<and> c2 \<and> pts_of h_elems pd1 1 = {7, 9} \<and> pts_of h_elems pd2 1 = {7}"
  using diff_add_remove [OF sample_diff_ok(1) prod.collapse [symmetric] prod.collapse [symmetric], of 1 9]
  by (auto simp: sample_diff_ok split_beta Let_def)

theorem base_clear_no_panic_witness:
  "\<exists>pd2. base_clear_pts hybrid_ops (fst (base_union_pts hybrid_ops sample_base 2 1)) 1 = Some pd2 \<and>
     elems_at h_elems (pts_map pd2) 1 = {} \<and> elems_at h_elems (pts_map pd2) 2 = {7}"
  using base_clear_no_panic [OF sample_base_ok(1) prod.collapse [symmetric], of 2 1 1]
  by (auto simp: sample_base_ok hybrid.base_union_pts_spec [OF sample_base_ok(1) prod.collapse [symmetric]])

end
