(* ===== verification/Chunked_Queue.thy ===== *)
theory Chunked_Queue
  imports Prelude
begin

section \<open>The chunked queue (\<open>src/util/chunked_queue.rs\<close>)\<close>

text \<open>
  A linked list of chunks of at most \<open>CHUNK_CAP\<close> elements. The raw pointers of the code are
  addresses of a heap of chunks, and dereferencing an address that holds no chunk (undefined
  behaviour) is \<open>None\<close>. \<open>ArrayVec\<close> comes from the crate \<open>arrayvec\<close>: its operations are a
  parameter (\<open>arrayvec_ops\<close>), and the locale \<open>array_vec\<close> states their documented behaviour.

  The queue refines a list that grows at its end, and \<open>IterCopied\<close> refines a position in
  that list: the locale \<open>append_queue\<close> states this interface. The worklists of the
  analyses rely on it, because they keep such an iterator while elements are pushed.
\<close>

definition CHUNK_CAP :: nat where "CHUNK_CAP = 60"

subsection \<open>The operations of \<open>ArrayVec<T, CHUNK_CAP>\<close>\<close>

record ('a, 'v) arrayvec_ops =
  av_new :: 'v
  av_len :: "'v \<Rightarrow> nat"
  av_is_full :: "'v \<Rightarrow> bool"
  av_push :: "'v \<Rightarrow> 'a \<Rightarrow> 'v option"
  av_read :: "'v \<Rightarrow> nat \<Rightarrow> 'a"

locale array_vec =
  fixes av :: "('a, 'v) arrayvec_ops"
    and elems :: "'v \<Rightarrow> 'a list"
  assumes av_new [simp]: "elems (av_new av) = []"
    and av_len [simp]: "av_len av v = length (elems v)"
    and av_cap: "length (elems v) \<le> CHUNK_CAP"
    and av_is_full [simp]: "av_is_full av v \<longleftrightarrow> length (elems v) = CHUNK_CAP"
    and av_push_room: "length (elems v) < CHUNK_CAP \<Longrightarrow>
      \<exists>v'. av_push av v x = Some v' \<and> elems v' = elems v @ [x]"
    and av_push_full: "length (elems v) = CHUNK_CAP \<Longrightarrow> av_push av v x = None"
    and av_read [simp]: "i < length (elems v) \<Longrightarrow> av_read av v i = elems v ! i"

subsection \<open>Chunks and the queue\<close>

type_synonym addr = nat

record 'v chunk =
  chunk_next :: "addr option"
  chunk_prev :: "addr option"
  chunk_elems :: 'v

record 'v chunked_queue =
  cq_heap :: "addr \<rightharpoonup> 'v chunk"
  cq_fresh :: addr
  cq_head :: addr
  cq_tail :: addr
  cq_len :: nat

definition chunk_new :: "('a, 'v) arrayvec_ops \<Rightarrow> 'v chunk" where
  "chunk_new av = \<lparr>chunk_next = None, chunk_prev = None, chunk_elems = av_new av\<rparr>"

definition chunk_len :: "('a, 'v) arrayvec_ops \<Rightarrow> 'v chunk \<Rightarrow> nat" where
  "chunk_len av c = av_len av (chunk_elems c)"

text \<open>\<open>get_elem_ref\<close> and \<open>get_elem\<close>\<close>

definition get_elem :: "('a, 'v) arrayvec_ops \<Rightarrow> 'v chunk \<Rightarrow> nat \<Rightarrow> 'a option" where
  "get_elem av c index =
     (if index < av_len av (chunk_elems c) then Some (av_read av (chunk_elems c) index) else None)"

text \<open>\<open>new_chunk\<close>: allocate a chunk at an unused address and leak it.\<close>

definition new_chunk ::
    "('a, 'v) arrayvec_ops \<Rightarrow> 'v chunked_queue \<Rightarrow> 'v chunked_queue \<times> addr" where
  "new_chunk av q =
     (q\<lparr>cq_heap := (cq_heap q)(cq_fresh q \<mapsto> chunk_new av), cq_fresh := cq_fresh q + 1\<rparr>, cq_fresh q)"

definition cq_new :: "('a, 'v) arrayvec_ops \<Rightarrow> 'v chunked_queue" where
  "cq_new av =
     (let (q, chunk) = new_chunk av
            \<lparr>cq_heap = Map.empty, cq_fresh = 0, cq_head = 0, cq_tail = 0, cq_len = 0\<rparr>
      in q\<lparr>cq_head := chunk, cq_tail := chunk, cq_len := 0\<rparr>)"

definition cq_is_empty :: "'v chunked_queue \<Rightarrow> bool" where
  "cq_is_empty q \<longleftrightarrow> cq_len q = 0"

definition cq_push ::
    "('a, 'v) arrayvec_ops \<Rightarrow> 'v chunked_queue \<Rightarrow> 'a \<Rightarrow> 'v chunked_queue option" where
  "cq_push av q elem = do {
     tail \<leftarrow> cq_heap q (cq_tail q);
     let q = (if av_is_full av (chunk_elems tail)
              then let (q', c) = new_chunk av q;
                       heap = (cq_heap q')(cq_tail q \<mapsto> tail\<lparr>chunk_next := Some c\<rparr>);
                       heap = heap(c \<mapsto> (chunk_new av)\<lparr>chunk_prev := Some (cq_tail q)\<rparr>)
                   in q'\<lparr>cq_heap := heap, cq_tail := c\<rparr>
              else q);
     chunk \<leftarrow> cq_heap q (cq_tail q);
     elems' \<leftarrow> av_push av (chunk_elems chunk) elem;
     Some (q\<lparr>cq_heap := (cq_heap q)(cq_tail q \<mapsto> chunk\<lparr>chunk_elems := elems'\<rparr>),
             cq_len := cq_len q + 1\<rparr>)
   }"

subsection \<open>Iterators\<close>

record queue_iter =
  qi_chunk :: addr
  qi_index :: nat

definition cq_iter :: "'v chunked_queue \<Rightarrow> queue_iter" where
  "cq_iter q = \<lparr>qi_chunk = cq_head q, qi_index = 0\<rparr>"

text \<open>\<open>Iter::next\<close>. The outer option is the undefined behaviour of a dangling pointer.\<close>

definition iter_next ::
    "('a, 'v) arrayvec_ops \<Rightarrow> 'v chunked_queue \<Rightarrow> queue_iter \<Rightarrow> ('a option \<times> queue_iter) option" where
  "iter_next av q it = do {
     chunk \<leftarrow> cq_heap q (qi_chunk it);
     (case (if qi_index it = CHUNK_CAP
            then (case chunk_next chunk of
                    Some c \<Rightarrow> Some \<lparr>qi_chunk = c, qi_index = 0\<rparr>
                  | None \<Rightarrow> None)
            else Some it) of
        None \<Rightarrow> Some (None, it)
      | Some it \<Rightarrow> do {
          chunk \<leftarrow> cq_heap q (qi_chunk it);
          let elem = get_elem av chunk (qi_index it);
          Some (elem, it\<lparr>qi_index := qi_index it + 1\<rparr>)
        })
   }"

text \<open>\<open>IterCopied::next\<close>, which stays where it is at the end of the queue.\<close>

definition iter_copied_next ::
    "('a, 'v) arrayvec_ops \<Rightarrow> 'v chunked_queue \<Rightarrow> queue_iter \<Rightarrow> ('a option \<times> queue_iter) option" where
  "iter_copied_next av q it = do {
     chunk \<leftarrow> cq_heap q (qi_chunk it);
     (case (if qi_index it = CHUNK_CAP
            then (case chunk_next chunk of
                    Some c \<Rightarrow> Some \<lparr>qi_chunk = c, qi_index = 0\<rparr>
                  | None \<Rightarrow> None)
            else Some it) of
        None \<Rightarrow> Some (None, it)
      | Some it \<Rightarrow> do {
          chunk \<leftarrow> cq_heap q (qi_chunk it);
          if qi_index it < chunk_len av chunk
          then (let elem = get_elem av chunk (qi_index it)
                in Some (elem, it\<lparr>qi_index := qi_index it + 1\<rparr>))
          else Some (None, it)
        })
   }"

subsection \<open>Dropping the queue\<close>

text \<open>
  \<open>Drop::drop\<close> frees the chunks along the \<open>next\<close> pointers. Freeing an address that holds
  no chunk (a double free) is \<open>None\<close>; so is not terminating.
\<close>

partial_function (option) cq_drop_loop :: "(addr \<rightharpoonup> 'v chunk) \<Rightarrow> addr \<Rightarrow> (addr \<rightharpoonup> 'v chunk) option" where
  "cq_drop_loop heap head =
     (case heap head of
        None \<Rightarrow> None
      | Some chunk \<Rightarrow>
          (case chunk_next chunk of
             Some n \<Rightarrow> cq_drop_loop (heap(head := None)) n
           | None \<Rightarrow> Some (heap(head := None))))"

definition cq_drop :: "'v chunked_queue \<Rightarrow> (addr \<rightharpoonup> 'v chunk) option" where
  "cq_drop q = cq_drop_loop (cq_heap q) (cq_head q)"

text \<open>Draining \<open>Iter\<close>, as a \<open>for\<close> loop over \<open>iter()\<close> does.\<close>

partial_function (option) iter_collect ::
    "('a, 'v) arrayvec_ops \<Rightarrow> 'v chunked_queue \<Rightarrow> queue_iter \<Rightarrow> 'a list option" where
  "iter_collect av q it = do {
     (r, it') \<leftarrow> iter_next av q it;
     (case r of
        None \<Rightarrow> Some []
      | Some x \<Rightarrow> do { xs \<leftarrow> iter_collect av q it'; Some (x # xs) })
   }"

subsection \<open>The interface: a list that grows, and positions in it\<close>

locale append_queue =
  fixes new :: 'q
    and push :: "'q \<Rightarrow> 'a \<Rightarrow> 'q option"
    and start :: "'q \<Rightarrow> 'i"
    and nxt :: "'q \<Rightarrow> 'i \<Rightarrow> ('a option \<times> 'i) option"
    and list_of :: "'q \<Rightarrow> 'a list"
    and wf :: "'q \<Rightarrow> bool"
    and pos :: "'q \<Rightarrow> 'i \<Rightarrow> nat \<Rightarrow> bool"
  assumes wf_new: "wf new"
    and list_new: "list_of new = []"
    and push_ok: "wf q \<Longrightarrow> \<exists>q'. push q x = Some q' \<and> wf q' \<and> list_of q' = list_of q @ [x]"
    and pos_start: "wf q \<Longrightarrow> pos q (start q) 0"
    and pos_push: "wf q \<Longrightarrow> push q x = Some q' \<Longrightarrow> pos q it n \<Longrightarrow> pos q' it n"
    and next_more: "wf q \<Longrightarrow> pos q it n \<Longrightarrow> n < length (list_of q) \<Longrightarrow>
      \<exists>it'. nxt q it = Some (Some (list_of q ! n), it') \<and> pos q it' (Suc n)"
    and next_end: "wf q \<Longrightarrow> pos q it n \<Longrightarrow> length (list_of q) \<le> n \<Longrightarrow>
      \<exists>it'. nxt q it = Some (None, it') \<and> pos q it' n"

text \<open>A schedule of pushes and of calls of \<open>next\<close> on one iterator, and what it yields.\<close>

datatype 'a queue_event = Push 'a | Next

fun run_queue ::
    "('q \<Rightarrow> 'a \<Rightarrow> 'q option) \<Rightarrow> ('q \<Rightarrow> 'i \<Rightarrow> ('a option \<times> 'i) option) \<Rightarrow>
     'q \<Rightarrow> 'i \<Rightarrow> 'a queue_event list \<Rightarrow> ('q \<times> 'i \<times> 'a list) option" where
  "run_queue push nxt q it [] = Some (q, it, [])"
| "run_queue push nxt q it (Push x # es) = do {
     q' \<leftarrow> push q x;
     run_queue push nxt q' it es
   }"
| "run_queue push nxt q it (Next # es) = do {
     (r, it') \<leftarrow> nxt q it;
     (q', it'', out) \<leftarrow> run_queue push nxt q it' es;
     Some (q', it'', (case r of Some x \<Rightarrow> x # out | None \<Rightarrow> out))
   }"

fun pushed :: "'a queue_event list \<Rightarrow> 'a list" where
  "pushed [] = []"
| "pushed (Push x # es) = x # pushed es"
| "pushed (Next # es) = pushed es"

context append_queue
begin

lemma run_queue_in_order:
  assumes "wf q" "pos q it n" "n \<le> length (list_of q)"
  shows "\<exists>q' it' out m. run_queue push nxt q it es = Some (q', it', out) \<and> wf q' \<and>
    list_of q' = list_of q @ pushed es \<and> pos q' it' m \<and> m \<le> length (list_of q') \<and>
    n \<le> m \<and> out = take (m - n) (drop n (list_of q'))"
  using assms
proof (induction es arbitrary: q it n)
  case Nil
  then show ?case by auto
next
  case (Cons e es)
  show ?case
  proof (cases e)
    case (Push x)
    obtain q1 where q1: "push q x = Some q1" "wf q1" "list_of q1 = list_of q @ [x]"
      using push_ok Cons.prems(1) by blast
    have "pos q1 it n" using pos_push Cons.prems q1(1) by blast
    from Cons.IH [OF q1(2) this] Cons.prems(3) show ?thesis by (auto simp: Push q1)
  next
    case Next
    show ?thesis
    proof (cases "n < length (list_of q)")
      case True
      then obtain it1 where it1: "nxt q it = Some (Some (list_of q ! n), it1)" "pos q it1 (Suc n)"
        using next_more Cons.prems by blast
      obtain q' it' out m where r: "run_queue push nxt q it1 es = Some (q', it', out)" "wf q'"
        "list_of q' = list_of q @ pushed es" "pos q' it' m" "m \<le> length (list_of q')" "Suc n \<le> m"
        "out = take (m - Suc n) (drop (Suc n) (list_of q'))"
        using Cons.IH [OF Cons.prems(1) it1(2)] True by auto
      have "list_of q ! n # out = take (m - n) (drop n (list_of q'))"
      proof -
        have "drop n (list_of q') = list_of q ! n # drop (Suc n) (list_of q')"
          using True r(3) by (metis Cons_nth_drop_Suc length_append nth_append trans_less_add1)
        moreover have "m - n = Suc (m - Suc n)" using r(6) by simp
        ultimately show ?thesis using r(7) by simp
      qed
      then show ?thesis using r it1 by (auto simp: Next intro!: exI [of _ m])
    next
      case False
      then obtain it1 where it1: "nxt q it = Some (None, it1)" "pos q it1 n"
        using next_end [OF Cons.prems(1,2)] by auto
      from Cons.IH [OF Cons.prems(1) it1(2) Cons.prems(3)] show ?thesis by (auto simp: Next it1)
    qed
  qed
qed

end

subsection \<open>The chunked queue implements the interface\<close>

text \<open>The elements of the chunk at an address, and the list the queue stands for.\<close>

definition chunk_at :: "('v \<Rightarrow> 'a list) \<Rightarrow> 'v chunked_queue \<Rightarrow> addr \<Rightarrow> 'a list" where
  "chunk_at elems q a = (case cq_heap q a of Some c \<Rightarrow> elems (chunk_elems c) | None \<Rightarrow> [])"

definition cq_list :: "('v \<Rightarrow> 'a list) \<Rightarrow> 'v chunked_queue \<Rightarrow> 'a list" where
  "cq_list elems q = concat (map (chunk_at elems q) [0..<cq_fresh q])"

text \<open>
  The chunks are doubly linked from the head to the tail in the order of their allocation,
  all but the last are full, and \<open>len\<close> counts the elements.
\<close>

definition cq_wf :: "('v \<Rightarrow> 'a list) \<Rightarrow> 'v chunked_queue \<Rightarrow> bool" where
  "cq_wf elems q \<longleftrightarrow>
     cq_fresh q = Suc (cq_tail q) \<and> cq_head q = 0 \<and>
     (\<forall>a. cq_heap q a \<noteq> None \<longleftrightarrow> a < cq_fresh q) \<and>
     (\<forall>a c. cq_heap q a = Some c \<longrightarrow>
        chunk_next c = (if a < cq_tail q then Some (Suc a) else None) \<and>
        chunk_prev c = (if a = 0 then None else Some (a - 1))) \<and>
     (\<forall>a < cq_tail q. length (chunk_at elems q a) = CHUNK_CAP) \<and>
     cq_len q = length (cq_list elems q)"

definition cq_pos :: "('v \<Rightarrow> 'a list) \<Rightarrow> 'v chunked_queue \<Rightarrow> queue_iter \<Rightarrow> nat \<Rightarrow> bool" where
  "cq_pos elems q it n \<longleftrightarrow>
     qi_chunk it < cq_fresh q \<and> qi_index it \<le> length (chunk_at elems q (qi_chunk it)) \<and>
     n = qi_chunk it * CHUNK_CAP + qi_index it"

lemma cq_wf_heap: "cq_wf elems q \<Longrightarrow> a < cq_fresh q \<Longrightarrow> \<exists>c. cq_heap q a = Some c"
  unfolding cq_wf_def by (metis not_None_eq)

lemma cq_wf_tail: "cq_wf elems q \<Longrightarrow> a \<le> cq_tail q \<Longrightarrow> \<exists>c. cq_heap q a = Some c"
  by (rule cq_wf_heap) (auto simp: cq_wf_def)

lemma cq_wf_none: "cq_wf elems q \<Longrightarrow> cq_heap q (cq_fresh q) = None"
  unfolding cq_wf_def by (metis less_irrefl)

lemma cq_list_length:
  assumes "cq_wf elems q"
  shows "length (cq_list elems q) = cq_tail q * CHUNK_CAP + length (chunk_at elems q (cq_tail q))"
proof -
  have "length (concat (map (chunk_at elems q) [0..<cq_tail q])) = cq_tail q * CHUNK_CAP"
    by (rule length_concat_blocks) (use assms in \<open>simp add: cq_wf_def\<close>)
  then show ?thesis using assms by (simp add: cq_list_def cq_wf_def)
qed

lemma cq_list_nth:
  assumes "cq_wf elems q" "a \<le> cq_tail q" "i < length (chunk_at elems q a)"
  shows "cq_list elems q ! (a * CHUNK_CAP + i) = chunk_at elems q a ! i"
  using nth_concat_blocks [of "cq_tail q" "chunk_at elems q" CHUNK_CAP a i] assms
  by (simp add: cq_list_def cq_wf_def)

context array_vec
begin

lemma cq_wf_new: "cq_wf elems (cq_new av)" "cq_list elems (cq_new av) = []"
  by (auto simp: cq_wf_def cq_new_def new_chunk_def chunk_new_def cq_list_def chunk_at_def)

lemma chunk_at_cap: "length (chunk_at elems q a) \<le> CHUNK_CAP"
  by (auto simp: chunk_at_def av_cap split: option.splits)

lemma cq_push_room:
  assumes wf: "cq_wf elems q" and room: "length (chunk_at elems q (cq_tail q)) < CHUNK_CAP"
  shows "\<exists>q'. cq_push av q x = Some q' \<and> cq_wf elems q' \<and> cq_list elems q' = cq_list elems q @ [x] \<and>
    cq_fresh q' = cq_fresh q \<and>
    (\<forall>a. chunk_at elems q' a = (if a = cq_tail q then chunk_at elems q a @ [x] else chunk_at elems q a))"
proof -
  obtain c where c: "cq_heap q (cq_tail q) = Some c"
    using cq_wf_tail [OF wf] by auto
  have ca: "chunk_at elems q (cq_tail q) = elems (chunk_elems c)" by (simp add: chunk_at_def c)
  obtain v' where v': "av_push av (chunk_elems c) x = Some v'" "elems v' = elems (chunk_elems c) @ [x]"
    using av_push_room room ca by metis
  define q' where "q' = q\<lparr>cq_heap := (cq_heap q)(cq_tail q \<mapsto> c\<lparr>chunk_elems := v'\<rparr>), cq_len := Suc (cq_len q)\<rparr>"
  have fields: "cq_heap q' = (cq_heap q)(cq_tail q \<mapsto> c\<lparr>chunk_elems := v'\<rparr>)" "cq_fresh q' = cq_fresh q"
    "cq_head q' = cq_head q" "cq_tail q' = cq_tail q" "cq_len q' = Suc (cq_len q)"
    by (simp_all add: q'_def)
  have push: "cq_push av q x = Some q'"
    using room by (simp add: cq_push_def c ca v' q'_def)
  have at: "chunk_at elems q' a = (if a = cq_tail q then chunk_at elems q a @ [x] else chunk_at elems q a)" for a
    using ca v' by (simp add: chunk_at_def fields)
  have "concat (map (chunk_at elems q') [0..<cq_tail q]) = concat (map (chunk_at elems q) [0..<cq_tail q])"
    by (intro arg_cong [where f = concat] map_cong) (auto simp: at)
  then have list: "cq_list elems q' = cq_list elems q @ [x]"
    using wf by (simp add: cq_list_def cq_wf_def at fields)
  have "cq_wf elems q'"
    unfolding cq_wf_def list using wf c by (auto simp: cq_wf_def at fields)
  then show ?thesis using push list at fields by auto
qed

lemma cq_push_full:
  assumes wf: "cq_wf elems q" and full: "length (chunk_at elems q (cq_tail q)) = CHUNK_CAP"
  shows "\<exists>q'. cq_push av q x = Some q' \<and> cq_wf elems q' \<and> cq_list elems q' = cq_list elems q @ [x] \<and>
    cq_fresh q' = Suc (cq_fresh q) \<and>
    (\<forall>a. chunk_at elems q' a = (if a = cq_fresh q then [x] else chunk_at elems q a))"
proof -
  obtain c where c: "cq_heap q (cq_tail q) = Some c"
    using cq_wf_tail [OF wf] by auto
  have ca: "chunk_at elems q (cq_tail q) = elems (chunk_elems c)" by (simp add: chunk_at_def c)
  have fresh: "cq_fresh q = Suc (cq_tail q)" using wf by (simp add: cq_wf_def)
  obtain v' where v': "av_push av (av_new av) x = Some v'" "elems v' = [x]"
    using av_push_room [of "av_new av" x] by (auto simp: CHUNK_CAP_def)
  let ?new = "(chunk_new av)\<lparr>chunk_prev := Some (cq_tail q), chunk_elems := v'\<rparr>"
  let ?heap = "(cq_heap q)(cq_tail q \<mapsto> c\<lparr>chunk_next := Some (cq_fresh q)\<rparr>, cq_fresh q \<mapsto> ?new)"
  define q' where "q' = q\<lparr>cq_heap := ?heap, cq_fresh := Suc (cq_fresh q), cq_tail := cq_fresh q, cq_len := Suc (cq_len q)\<rparr>"
  have fields: "cq_heap q' = ?heap" "cq_fresh q' = Suc (cq_fresh q)" "cq_head q' = cq_head q"
    "cq_tail q' = cq_fresh q" "cq_len q' = Suc (cq_len q)"
    by (simp_all add: q'_def)
  have push: "cq_push av q x = Some q'"
    using full fresh
    by (simp add: cq_push_def c ca v' new_chunk_def Let_def chunk_new_def fun_upd_twist q'_def)
  have none: "chunk_at elems q (cq_fresh q) = []"
    by (simp add: chunk_at_def cq_wf_none [OF wf])
  have at: "chunk_at elems q' a = (if a = cq_fresh q then [x] else chunk_at elems q a)" for a
    using ca v' none fresh by (auto simp: chunk_at_def fields)
  have "concat (map (chunk_at elems q') [0..<cq_fresh q]) = concat (map (chunk_at elems q) [0..<cq_fresh q])"
    by (intro arg_cong [where f = concat] map_cong) (auto simp: at)
  then have list: "cq_list elems q' = cq_list elems q @ [x]"
    by (simp add: cq_list_def at fields)
  have "cq_wf elems q'"
    unfolding cq_wf_def list using wf c fresh full
    by (auto simp: cq_wf_def at fields chunk_new_def less_Suc_eq)
  then show ?thesis using push list at fields by auto
qed

lemma cq_push_ok:
  "cq_wf elems q \<Longrightarrow>
     \<exists>q'. cq_push av q x = Some q' \<and> cq_wf elems q' \<and> cq_list elems q' = cq_list elems q @ [x]"
  using cq_push_room [of q x] cq_push_full [of q x] chunk_at_cap [of q "cq_tail q"]
  by (cases "length (chunk_at elems q (cq_tail q)) < CHUNK_CAP") (auto simp: less_le)

lemma cq_pos_push:
  assumes "cq_wf elems q" "cq_push av q x = Some q'" "cq_pos elems q it n"
  shows "cq_pos elems q' it n"
proof (cases "length (chunk_at elems q (cq_tail q)) < CHUNK_CAP")
  case True
  then show ?thesis
    using cq_push_room [OF assms(1) True, of x] assms by (auto simp: cq_pos_def)
next
  case False
  then have "length (chunk_at elems q (cq_tail q)) = CHUNK_CAP" using chunk_at_cap [of q "cq_tail q"] by simp
  then show ?thesis
    using cq_push_full [OF assms(1) _, of x] assms by (auto simp: cq_pos_def)
qed

text \<open>Where \<open>next\<close> looks: the chunk the iterator is in, or the following one at its end.\<close>

lemma iter_copied_next_spec:
  assumes wf: "cq_wf elems q" and pos: "cq_pos elems q it n"
  shows "n < length (cq_list elems q) \<Longrightarrow>
      \<exists>it'. iter_copied_next av q it = Some (Some (cq_list elems q ! n), it') \<and> cq_pos elems q it' (Suc n)"
    and "length (cq_list elems q) \<le> n \<Longrightarrow>
      \<exists>it'. iter_copied_next av q it = Some (None, it') \<and> cq_pos elems q it' n"
proof -
  let ?a = "qi_chunk it" and ?i = "qi_index it"
  have fresh: "cq_fresh q = Suc (cq_tail q)" and n: "n = ?a * CHUNK_CAP + ?i" and a: "?a \<le> cq_tail q"
    and i: "?i \<le> length (chunk_at elems q ?a)"
    using wf pos by (auto simp: cq_wf_def cq_pos_def)
  obtain c where c: "cq_heap q ?a = Some c" using cq_wf_tail [OF wf a] by auto
  have ca: "chunk_at elems q ?a = elems (chunk_elems c)" by (simp add: chunk_at_def c)
  have nxt: "chunk_next c = (if ?a < cq_tail q then Some (Suc ?a) else None)"
    using wf c by (simp add: cq_wf_def)
  have full: "?a < cq_tail q \<Longrightarrow> length (chunk_at elems q ?a) = CHUNK_CAP" using wf by (simp add: cq_wf_def)
  note len = cq_list_length [OF wf] and cap = chunk_at_cap [of q ?a]
  have goal: "if n < length (cq_list elems q)
    then \<exists>it'. iter_copied_next av q it = Some (Some (cq_list elems q ! n), it') \<and> cq_pos elems q it' (Suc n)
    else \<exists>it'. iter_copied_next av q it = Some (None, it') \<and> cq_pos elems q it' n"
  proof (cases "?i < length (chunk_at elems q ?a)")
    case True
    then have "?i \<noteq> CHUNK_CAP" using cap by simp
    moreover have "n < length (cq_list elems q)"
      using True a n full len cap mult_le_mono1 [of "Suc ?a" "cq_tail q" CHUNK_CAP]
      by (cases "?a = cq_tail q") auto
    moreover have "cq_list elems q ! n = elems (chunk_elems c) ! ?i"
      using cq_list_nth [OF wf a True] n ca by simp
    ultimately show ?thesis
      using True c ca fresh a n
      by (auto simp: iter_copied_next_def chunk_len_def get_elem_def cq_pos_def)
  next
    case end_of_chunk: False
    show ?thesis
    proof (cases "?a < cq_tail q")
      case True
      then have i: "?i = CHUNK_CAP" using end_of_chunk full i by simp
      obtain d where d: "cq_heap q (Suc ?a) = Some d"
        using cq_wf_tail [OF wf, of "Suc ?a"] True by auto
      then have da: "chunk_at elems q (Suc ?a) = elems (chunk_elems d)" by (simp add: chunk_at_def)
      have n': "n = Suc ?a * CHUNK_CAP + 0" using n i by simp
      show ?thesis
      proof (cases "elems (chunk_elems d) = []")
        case empty: True
        have "\<not> Suc ?a < cq_tail q"
        proof
          assume "Suc ?a < cq_tail q"
          then have "length (chunk_at elems q (Suc ?a)) = CHUNK_CAP" using wf by (simp add: cq_wf_def)
          then show False using empty da by (simp add: CHUNK_CAP_def)
        qed
        then have "Suc ?a = cq_tail q" using True by simp
        then show ?thesis
          using empty d da i c nxt True n n' len fresh
          by (auto simp: iter_copied_next_def chunk_len_def cq_pos_def)
      next
        case False
        then have nz: "0 < length (chunk_at elems q (Suc ?a))" by (simp add: da)
        have "n < length (cq_list elems q)"
          using True n' len nz wf mult_le_mono1 [of "Suc (Suc ?a)" "cq_tail q" CHUNK_CAP]
          by (cases "Suc ?a = cq_tail q") (auto simp: cq_wf_def CHUNK_CAP_def)
        moreover have "cq_list elems q ! n = elems (chunk_elems d) ! 0"
          using cq_list_nth [OF wf _ nz] True n' da by simp
        ultimately show ?thesis
          using False d da i c nxt True fresh n
          by (auto simp: iter_copied_next_def chunk_len_def get_elem_def cq_pos_def Suc_le_eq)
      qed
    next
      case False
      then have at: "?a = cq_tail q" using a by simp
      then have "length (cq_list elems q) \<le> n" using end_of_chunk n len by simp
      moreover have "iter_copied_next av q it = Some (None, it)"
        using end_of_chunk c ca nxt at by (auto simp: iter_copied_next_def chunk_len_def)
      ultimately show ?thesis using pos by auto
    qed
  qed
  then show "n < length (cq_list elems q) \<Longrightarrow>
      \<exists>it'. iter_copied_next av q it = Some (Some (cq_list elems q ! n), it') \<and> cq_pos elems q it' (Suc n)"
    and "length (cq_list elems q) \<le> n \<Longrightarrow>
      \<exists>it'. iter_copied_next av q it = Some (None, it') \<and> cq_pos elems q it' n"
    by (simp_all split: if_splits)
qed

end

sublocale array_vec \<subseteq> cq: append_queue "cq_new av" "cq_push av" cq_iter "iter_copied_next av"
    "cq_list elems" "cq_wf elems" "cq_pos elems"
proof unfold_locales
  fix q assume wf: "cq_wf elems q"
  then show "cq_pos elems q (cq_iter q) 0" by (simp add: cq_pos_def cq_iter_def cq_wf_def)
qed (auto intro: cq_wf_new cq_push_ok cq_pos_push iter_copied_next_spec)

context array_vec
begin

text \<open>\<open>Iter\<close> and \<open>IterCopied\<close> yield the same elements.\<close>

lemma iter_next_copied:
  assumes "iter_copied_next av q it = Some (r, it')"
  shows "\<exists>it''. iter_next av q it = Some (r, it'') \<and> (r \<noteq> None \<longrightarrow> it'' = it')"
proof -
  obtain c where c: "cq_heap q (qi_chunk it) = Some c"
    using assms by (auto simp: iter_copied_next_def bind_eq_Some_conv)
  show ?thesis
  proof (cases "qi_index it = CHUNK_CAP")
    case True
    then show ?thesis
      using assms c
      by (cases "chunk_next c")
        (auto simp: iter_copied_next_def iter_next_def get_elem_def chunk_len_def bind_eq_Some_conv Let_def
          split: if_splits)
  next
    case False
    then show ?thesis
      using assms c
      by (auto simp: iter_copied_next_def iter_next_def get_elem_def chunk_len_def split: if_splits)
  qed
qed

lemma iter_collect_from:
  assumes "cq_wf elems q" "cq_pos elems q it n" "n \<le> length (cq_list elems q)"
  shows "iter_collect av q it = Some (drop n (cq_list elems q))"
  using assms(2,3)
proof (induction "length (cq_list elems q) - n" arbitrary: n it)
  case 0
  then obtain it' where "iter_copied_next av q it = Some (None, it')"
    using iter_copied_next_spec(2) [OF assms(1) 0(2)] by auto
  then obtain it'' where "iter_next av q it = Some (None, it'')" using iter_next_copied by blast
  then show ?case using 0 by (subst iter_collect.simps) simp
next
  case (Suc k)
  then have n: "n < length (cq_list elems q)" by simp
  obtain it' where it': "iter_copied_next av q it = Some (Some (cq_list elems q ! n), it')"
    "cq_pos elems q it' (Suc n)" using iter_copied_next_spec(1) [OF assms(1) Suc(3) n] by auto
  have "iter_next av q it = Some (Some (cq_list elems q ! n), it')"
    using iter_next_copied [OF it'(1)] by auto
  moreover have "iter_collect av q it' = Some (drop (Suc n) (cq_list elems q))"
    using Suc(1) [of "Suc n" it'] Suc(2) it'(2) n by simp
  ultimately show ?case using n by (subst iter_collect.simps) (simp add: Cons_nth_drop_Suc)
qed

lemma delivery:
  assumes "cq_wf elems q"
  shows "\<exists>q' it' out. run_queue (cq_push av) (iter_copied_next av) q (cq_iter q) es = Some (q', it', out) \<and>
    cq_wf elems q' \<and> cq_list elems q' = cq_list elems q @ pushed es \<and>
    out = take (length out) (cq_list elems q') \<and>
    (\<forall>it''. iter_copied_next av q' it' = Some (None, it'') \<longrightarrow> out = cq_list elems q')"
proof -
  obtain q' it' out m where r: "run_queue (cq_push av) (iter_copied_next av) q (cq_iter q) es = Some (q', it', out)"
    "cq_wf elems q'" "cq_list elems q' = cq_list elems q @ pushed es" "cq_pos elems q' it' m"
    "m \<le> length (cq_list elems q')" "out = take m (cq_list elems q')"
    using cq.run_queue_in_order [OF assms cq.pos_start [OF assms], of es] by auto
  have "out = cq_list elems q'" if "iter_copied_next av q' it' = Some (None, it'')" for it''
  proof -
    have "m = length (cq_list elems q')"
      using iter_copied_next_spec(1) [OF r(2,4)] r(5) that by (cases "m < length (cq_list elems q')") auto
    then show ?thesis using r(6) by simp
  qed
  moreover have "out = take (length out) (cq_list elems q')" using r(5,6) by simp
  ultimately show ?thesis using r(1-3) by blast
qed

lemma iter_collect_list:
  "cq_wf elems q \<Longrightarrow> iter_collect av q (cq_iter q) = Some (cq_list elems q)"
  using iter_collect_from [of q "cq_iter q" 0] cq.pos_start by simp

end

text \<open>Dropping frees the chunks from the head on, each once, and leaves none.\<close>

lemma cq_drop_loop_frees:
  assumes "k \<le> t" "\<forall>a. heap a \<noteq> None \<longleftrightarrow> k \<le> a \<and> a \<le> t"
    "\<forall>a c. heap a = Some c \<longrightarrow> chunk_next c = (if a < t then Some (Suc a) else None)"
  shows "cq_drop_loop heap k = Some Map.empty"
  using assms
proof (induction "t - k" arbitrary: k heap)
  case 0
  then have "k = t" by simp
  with 0 obtain c where c: "heap k = Some c" by blast
  with 0 \<open>k = t\<close> have "chunk_next c = None" by simp
  moreover have "heap(k := None) = Map.empty"
  proof
    fix a show "(heap(k := None)) a = None"
      using 0(3) \<open>k = t\<close> by (metis fun_upd_apply le_antisym)
  qed
  ultimately show ?case using c by (subst cq_drop_loop.simps) simp
next
  case (Suc n)
  then have "k < t" by simp
  with Suc(4) obtain c where c: "heap k = Some c" by (metis less_imp_le le_refl not_None_eq)
  then have "chunk_next c = Some (Suc k)" using Suc(5) \<open>k < t\<close> by simp
  moreover have "cq_drop_loop (heap(k := None)) (Suc k) = Some Map.empty"
  proof (rule Suc(1))
    show "n = t - Suc k" "Suc k \<le> t" using Suc(2) \<open>k < t\<close> by auto
    show "\<forall>a. (heap(k := None)) a \<noteq> None \<longleftrightarrow> Suc k \<le> a \<and> a \<le> t"
      using Suc(4) by (metis Suc_le_eq fun_upd_apply le_antisym less_imp_le linorder_not_less)
    show "\<forall>a c. (heap(k := None)) a = Some c \<longrightarrow> chunk_next c = (if a < t then Some (Suc a) else None)"
      using Suc(5) by (metis fun_upd_apply option.distinct(1))
  qed
  ultimately show ?case using c by (subst cq_drop_loop.simps) simp
qed

lemma cq_drop_frees: "cq_wf elems q \<Longrightarrow> cq_drop q = Some Map.empty"
  unfolding cq_drop_def cq_wf_def
  by (subst cq_drop_loop_frees [of _ "cq_tail q"]) (auto simp: less_Suc_eq_le)

subsection \<open>A bounded list implements \<open>ArrayVec\<close>\<close>

definition list_arrayvec :: "('a, 'a list) arrayvec_ops" where
  "list_arrayvec = \<lparr>
     av_new = [],
     av_len = \<lambda>v. min (length v) CHUNK_CAP,
     av_is_full = \<lambda>v. CHUNK_CAP \<le> length v,
     av_push = \<lambda>v x. if length v < CHUNK_CAP then Some (v @ [x]) else None,
     av_read = \<lambda>v i. v ! i\<rparr>"

interpretation lav: array_vec list_arrayvec "take CHUNK_CAP"
  by unfold_locales (auto simp: list_arrayvec_def min_def split: if_splits)

subsection \<open>Properties\<close>

text \<open>
  C17: an \<open>IterCopied\<close> taken from a queue sees every element exactly once and in order, however
  calls of \<open>next\<close> and pushes are interleaved, and no push or \<open>next\<close> dereferences a dangling
  pointer: what it has yielded is always a prefix of the queue, and once it has caught up
  it is the whole queue. The hypothesis is the documented behaviour of \<open>ArrayVec\<close>.
\<close>

theorem iter_copied_in_order:
  assumes "array_vec av elems" and "cq_wf elems q"
  shows "\<exists>q' it' out. run_queue (cq_push av) (iter_copied_next av) q (cq_iter q) es = Some (q', it', out) \<and>
    cq_wf elems q' \<and> cq_list elems q' = cq_list elems q @ pushed es \<and>
    out = take (length out) (cq_list elems q') \<and>
    (\<forall>it''. iter_copied_next av q' it' = Some (None, it'') \<longrightarrow> out = cq_list elems q')"
  by (rule array_vec.delivery [OF assms])

theorem iter_copied_in_order_witness:
  "\<exists>q' it' out. run_queue (cq_push list_arrayvec) (iter_copied_next list_arrayvec) (cq_new list_arrayvec)
     (cq_iter (cq_new (list_arrayvec :: (nat, nat list) arrayvec_ops))) [Next, Push (1 :: nat), Next, Push 2, Push 3, Next, Next, Next] =
     Some (q', it', out) \<and> out = take (length out) [1, 2, 3]"
proof -
  let ?es = "[Next, Push (1 :: nat), Next, Push 2, Push 3, Next, Next, Next]"
  obtain q' it' out where r: "run_queue (cq_push list_arrayvec) (iter_copied_next list_arrayvec)
      (cq_new list_arrayvec) (cq_iter (cq_new (list_arrayvec :: (nat, nat list) arrayvec_ops))) ?es = Some (q', it', out)"
    and out: "cq_list (take CHUNK_CAP) q' = cq_list (take CHUNK_CAP) (cq_new list_arrayvec) @ pushed ?es"
      "out = take (length out) (cq_list (take CHUNK_CAP) q')"
    using iter_copied_in_order [OF lav.array_vec_axioms lav.cq_wf_new(1), of ?es] by (elim exE conjE) (rule that, assumption+)
  have "out = take (length out) [1, 2, 3]" using out(2) unfolding out(1) lav.cq_wf_new(2) by simp
  with r show ?thesis by (intro exI conjI)
qed

text \<open>
  C18: \<open>Iter\<close> drains a queue that is not changed meanwhile to exactly the list it stands for,
  and dropping the queue frees every chunk exactly once: no chunk is left in the heap, and
  none is freed twice or read after it was freed.
\<close>

theorem iter_and_drop:
  assumes "array_vec av elems" and "cq_wf elems q"
  shows "iter_collect av q (cq_iter q) = Some (cq_list elems q) \<and> cq_len q = length (cq_list elems q) \<and>
    cq_drop q = Some Map.empty"
  using array_vec.iter_collect_list [OF assms] cq_drop_frees [OF assms(2)] assms(2) by (simp add: cq_wf_def)

theorem iter_and_drop_witness:
  "\<exists>q. cq_push list_arrayvec (cq_new list_arrayvec) (4 :: nat) = Some q \<and>
     iter_collect list_arrayvec q (cq_iter q) = Some [4] \<and> cq_drop q = Some Map.empty"
proof -
  obtain q where q: "cq_push list_arrayvec (cq_new list_arrayvec) (4 :: nat) = Some q"
    "cq_wf (take CHUNK_CAP) q" "cq_list (take CHUNK_CAP) q = cq_list (take CHUNK_CAP) (cq_new list_arrayvec) @ [4]"
    using lav.cq_push_ok [OF lav.cq_wf_new(1), of "4 :: nat"] by (elim exE conjE) (rule that)
  have list: "cq_list (take CHUNK_CAP) q = [4]" using q(3) by (simp only: lav.cq_wf_new(2) append_Nil)
  note all = iter_and_drop [OF lav.array_vec_axioms q(2), unfolded list]
  show ?thesis by (rule exI [of _ q]) (intro conjI q(1) all [THEN conjunct1] all [THEN conjunct2, THEN conjunct2])
qed

end
