(* ===== verification/Index_Tree.thy ===== *)
theory Index_Tree
  imports Prelude
begin

section \<open>The index tree (\<open>src/util/index_tree.rs\<close>)\<close>

text \<open>
  A tree in a single vector of nodes that refer to each other by index; the call-site
  sensitive and the specialization trees are built on it. Indexing out of range and
  \<open>unwrap\<close> of a missing node are panics, the value \<open>None\<close>. The invariant \<open>tree_wf\<close> says that
  the links are those of an ordered tree whose children are kept in insertion order.
\<close>

type_synonym node_id = nat

record 'a node =
  parent :: "node_id option"
  next_sibling :: "node_id option"
  first_child :: "node_id option"
  last_child :: "node_id option"
  data :: 'a

record 'a index_tree =
  nodes :: "'a node list"

definition node_new :: "'a \<Rightarrow> 'a node" where
  "node_new d = \<lparr>parent = None, next_sibling = None, first_child = None, last_child = None, data = d\<rparr>"

definition tree_new_root :: "'a \<Rightarrow> 'a index_tree" where
  "tree_new_root d = \<lparr>nodes = [node_new d]\<rparr>"

definition tree_count :: "'a index_tree \<Rightarrow> nat" where
  "tree_count t = length (nodes t)"

definition tree_get :: "'a index_tree \<Rightarrow> node_id \<Rightarrow> 'a node option" where
  "tree_get t i = (if i < length (nodes t) then Some (nodes t ! i) else None)"

text \<open>\<open>get_mut\<close> followed by an update of the node.\<close>

definition tree_update :: "'a index_tree \<Rightarrow> node_id \<Rightarrow> ('a node \<Rightarrow> 'a node) \<Rightarrow> 'a index_tree option" where
  "tree_update t i f =
     (if i < length (nodes t) then Some (t\<lparr>nodes := (nodes t)[i := f (nodes t ! i)]\<rparr>) else None)"

definition new_node :: "'a index_tree \<Rightarrow> 'a \<Rightarrow> 'a index_tree \<times> node_id" where
  "new_node t d = (t\<lparr>nodes := nodes t @ [node_new d]\<rparr>, length (nodes t))"

definition add_child :: "'a index_tree \<Rightarrow> node_id \<Rightarrow> 'a \<Rightarrow> ('a index_tree \<times> node_id) option" where
  "add_child t parent_id d = do {
     let (t, child_id) = new_node t d;
     par \<leftarrow> tree_get t parent_id;
     t \<leftarrow> (case last_child par of
        None \<Rightarrow> tree_update t parent_id (\<lambda>n. n\<lparr>first_child := Some child_id, last_child := Some child_id\<rparr>)
      | Some i \<Rightarrow> do {
          t \<leftarrow> tree_update t parent_id (\<lambda>n. n\<lparr>last_child := Some child_id\<rparr>);
          tree_update t i (\<lambda>n. n\<lparr>next_sibling := Some child_id\<rparr>)
        });
     t \<leftarrow> tree_update t child_id (\<lambda>n. n\<lparr>parent := Some parent_id\<rparr>);
     Some (t, child_id)
   }"

subsection \<open>Iterators\<close>

text \<open>\<open>Children\<close>: the state is the node to be yielded next.\<close>

definition children_new :: "'a index_tree \<Rightarrow> node_id \<Rightarrow> node_id option option" where
  "children_new t current = do { n \<leftarrow> tree_get t current; Some (first_child n) }"

definition children_next :: "'a index_tree \<Rightarrow> node_id option \<Rightarrow> (node_id option \<times> node_id option) option" where
  "children_next t node =
     (case node of
        None \<Rightarrow> Some (None, None)
      | Some i \<Rightarrow> do { n \<leftarrow> tree_get t i; Some (Some i, next_sibling n) })"

partial_function (option) find_child_loop ::
    "'a index_tree \<Rightarrow> ('a \<Rightarrow> bool) \<Rightarrow> node_id option \<Rightarrow> node_id option option" where
  "find_child_loop t f it = do {
     (r, it') \<leftarrow> children_next t it;
     (case r of
        None \<Rightarrow> Some None
      | Some child \<Rightarrow> do {
          n \<leftarrow> tree_get t child;
          if f (data n) then Some (Some child) else find_child_loop t f it'
        })
   }"

definition find_child :: "'a index_tree \<Rightarrow> node_id \<Rightarrow> ('a \<Rightarrow> bool) \<Rightarrow> node_id option option" where
  "find_child t parent_id f = do { it \<leftarrow> children_new t parent_id; find_child_loop t f it }"

datatype node_edge = Start node_id | End node_id

definition next_of_next :: "'a index_tree \<Rightarrow> node_id \<Rightarrow> node_edge \<Rightarrow> node_edge option option" where
  "next_of_next t root nx =
     (case nx of
        Start node \<Rightarrow> do {
          n \<leftarrow> tree_get t node;
          Some (case first_child n of
                  Some c \<Rightarrow> Some (Start c)
                | None \<Rightarrow> Some (End node))
        }
      | End node \<Rightarrow>
          if node = root then Some None
          else do {
            n \<leftarrow> tree_get t node;
            Some (case next_sibling n of
                    Some s \<Rightarrow> Some (Start s)
                  | None \<Rightarrow> map_option End (parent n))
          })"

text \<open>\<open>Traverse\<close>: the root and the next edge.\<close>

record traverse =
  tr_root :: node_id
  tr_next :: "node_edge option"

definition traverse_new :: "node_id \<Rightarrow> traverse" where
  "traverse_new root = \<lparr>tr_root = root, tr_next = Some (Start root)\<rparr>"

definition traverse_next :: "'a index_tree \<Rightarrow> traverse \<Rightarrow> (node_edge option \<times> traverse) option" where
  "traverse_next t tr =
     (case tr_next tr of
        None \<Rightarrow> Some (None, tr\<lparr>tr_next := None\<rparr>)
      | Some nx \<Rightarrow> do {
          nn \<leftarrow> next_of_next t (tr_root tr) nx;
          Some (Some nx, tr\<lparr>tr_next := nn\<rparr>)
        })"

text \<open>
  \<open>Descendants::next\<close>: \<open>find_map\<close> over \<open>Traverse\<close>, which calls its \<open>next\<close> until an edge is the
  start of a node other than the root.
\<close>

partial_function (option) descendants_next ::
    "'a index_tree \<Rightarrow> node_id \<Rightarrow> traverse \<Rightarrow> (node_id option \<times> traverse) option" where
  "descendants_next t root tr = do {
     (r, tr') \<leftarrow> traverse_next t tr;
     (case r of
        None \<Rightarrow> Some (None, tr')
      | Some (Start node) \<Rightarrow>
          if node = root then descendants_next t root tr' else Some (Some node, tr')
      | Some (End node) \<Rightarrow> descendants_next t root tr')
   }"

partial_function (option) descendants_collect ::
    "'a index_tree \<Rightarrow> node_id \<Rightarrow> traverse \<Rightarrow> node_id list option" where
  "descendants_collect t root tr = do {
     (r, tr') \<leftarrow> descendants_next t root tr;
     (case r of
        None \<Rightarrow> Some []
      | Some node \<Rightarrow> do { xs \<leftarrow> descendants_collect t root tr'; Some (node # xs) })
   }"

definition descendants :: "'a index_tree \<Rightarrow> node_id \<Rightarrow> node_id list option" where
  "descendants t root = descendants_collect t root (traverse_new root)"

subsection \<open>The ordered tree behind the links\<close>

text \<open>The children of a node are the nodes with that parent; their ids grow with insertion.\<close>

definition kids :: "'a index_tree \<Rightarrow> node_id \<Rightarrow> node_id list" where
  "kids t p = filter (\<lambda>c. parent (nodes t ! c) = Some p) [0..<length (nodes t)]"

fun linked :: "'a index_tree \<Rightarrow> node_id list \<Rightarrow> bool" where
  "linked t [] \<longleftrightarrow> True"
| "linked t [c] \<longleftrightarrow> next_sibling (nodes t ! c) = None"
| "linked t (c # d # cs) \<longleftrightarrow> next_sibling (nodes t ! c) = Some d \<and> linked t (d # cs)"

definition tree_wf :: "'a index_tree \<Rightarrow> bool" where
  "tree_wf t \<longleftrightarrow>
     nodes t \<noteq> [] \<and> parent (nodes t ! 0) = None \<and>
     (\<forall>c \<in> {0<..<length (nodes t)}. \<exists>p < c. parent (nodes t ! c) = Some p) \<and>
     (\<forall>p < length (nodes t).
        first_child (nodes t ! p) = (case kids t p of [] \<Rightarrow> None | c # _ \<Rightarrow> Some c) \<and>
        last_child (nodes t ! p) = (if kids t p = [] then None else Some (last (kids t p))) \<and>
        linked t (kids t p))"

lemma kids_less:
  assumes "tree_wf t" "c \<in> set (kids t p)"
  shows "p < c \<and> c < length (nodes t)"
proof -
  have c: "c < length (nodes t)" "parent (nodes t ! c) = Some p" using assms(2) by (auto simp: kids_def)
  then have "c \<noteq> 0" using assms(1) by (metis option.distinct(1) tree_wf_def)
  moreover have "\<forall>c \<in> {0<..<length (nodes t)}. \<exists>p < c. parent (nodes t ! c) = Some p"
    using assms(1) unfolding tree_wf_def by blast
  ultimately have "\<exists>q < c. parent (nodes t ! c) = Some q" using c(1) by simp
  with c show ?thesis by auto
qed

lemma distinct_kids: "distinct (kids t p)"
  by (simp add: kids_def)

lemma kids_parent: "c \<in> set (kids t p) \<longleftrightarrow> c < length (nodes t) \<and> parent (nodes t ! c) = Some p"
  by (auto simp: kids_def)

lemma linked_suffix:
  "linked t (pre @ c # cs) \<Longrightarrow>
     next_sibling (nodes t ! c) = (case cs of [] \<Rightarrow> None | d # _ \<Rightarrow> Some d)"
  by (induction t pre rule: linked.induct) (auto split: list.splits)

lemma linked_cong:
  "(\<forall>c \<in> set cs. next_sibling (nodes t' ! c) = next_sibling (nodes t ! c)) \<Longrightarrow> linked t' cs = linked t cs"
  by (induction t cs rule: linked.induct) auto

lemma linked_snoc:
  assumes "linked t cs" "distinct (cs @ [n])"
    and "\<forall>c \<in> set cs. next_sibling (nodes t' ! c) = (if c = last cs then Some n else next_sibling (nodes t ! c))"
    and "next_sibling (nodes t' ! n) = None"
  shows "linked t' (cs @ [n])"
  using assms
proof (induction t cs rule: linked.induct)
  case (3 t c d cs)
  then have "linked t' ((d # cs) @ [n])" by auto
  moreover have "c \<noteq> last (d # cs)" using 3(3) by (metis distinct_append distinct.simps(2) last_in_set list.discI)
  ultimately show ?case using 3(2,4) by (auto split: if_splits)
qed auto

lemma tree_wf_new: "tree_wf (tree_new_root d)" "kids (tree_new_root d) p = []"
  by (auto simp: tree_wf_def tree_new_root_def kids_def node_new_def)

text \<open>Adding a child: the tree stays well formed and the child is the last of its parent.\<close>

lemma add_child_spec:
  assumes wf: "tree_wf t" and p: "p < length (nodes t)"
  shows "\<exists>t'. add_child t p d = Some (t', length (nodes t)) \<and> tree_wf t' \<and>
    length (nodes t') = Suc (length (nodes t)) \<and>
    data (nodes t' ! length (nodes t)) = d \<and>
    (\<forall>i < length (nodes t). data (nodes t' ! i) = data (nodes t ! i)) \<and>
    (\<forall>q. kids t' q = (if q = p then kids t q @ [length (nodes t)] else kids t q))"
proof -
  let ?n = "length (nodes t)"
  let ?new = "(node_new d)\<lparr>parent := Some p\<rparr>"
  define P where "P i x = (if i = p then x\<lparr>first_child := (case kids t p of [] \<Rightarrow> Some ?n | c # _ \<Rightarrow> Some c),
      last_child := Some ?n\<rparr> else x)" for i and x :: "'a node"
  define S where "S i x = (if kids t p \<noteq> [] \<and> i = last (kids t p) then x\<lparr>next_sibling := Some ?n\<rparr> else x)"
    for i and x :: "'a node"
  have fc: "first_child (nodes t ! p) = (case kids t p of [] \<Rightarrow> None | c # _ \<Rightarrow> Some c)"
    and lc: "last_child (nodes t ! p) = (if kids t p = [] then None else Some (last (kids t p)))"
    using wf p by (auto simp: tree_wf_def)
  obtain t' where t': "add_child t p d = Some (t', ?n)"
    "length (nodes t') = Suc ?n" "nodes t' ! ?n = ?new"
    "\<And>i. i < ?n \<Longrightarrow> nodes t' ! i = S i (P i (nodes t ! i))"
  proof (cases "kids t p")
    case Nil
    let ?t' = "t\<lparr>nodes := ((nodes t @ [node_new d])[p := (nodes t ! p)\<lparr>first_child := Some ?n, last_child := Some ?n\<rparr>])
        [?n := ?new]\<rparr>"
    show ?thesis
      by (rule that [of ?t'])
        (use p lc Nil in \<open>auto simp: add_child_def new_node_def tree_get_def tree_update_def nth_append P_def S_def nth_list_update\<close>)
  next
    case (Cons c cs)
    define l where "l = last (kids t p)"
    have l: "p < l" "l < ?n" using kids_less [OF wf, of l p] Cons by (auto simp: l_def)
    have fc': "first_child (nodes t ! p) = Some c" using fc Cons by simp
    let ?t' = "t\<lparr>nodes := ((nodes t @ [node_new d])[p := (nodes t ! p)\<lparr>last_child := Some ?n\<rparr>,
        l := (nodes t ! l)\<lparr>next_sibling := Some ?n\<rparr>])[?n := ?new]\<rparr>"
    show ?thesis
    proof (rule that [of ?t'])
      show "add_child t p d = Some (?t', ?n)"
        using p l lc Cons by (simp add: add_child_def new_node_def tree_get_def tree_update_def nth_append l_def)
      show "nodes ?t' ! i = S i (P i (nodes t ! i))" if "i < ?n" for i
        using that p l fc' Cons by (auto simp: nth_append P_def S_def nth_list_update l_def)
    qed (use l p in auto)
  qed
  have par: "parent (nodes t' ! i) = parent (nodes t ! i)" if "i < ?n" for i
    using that by (simp add: t' P_def S_def)
  have kids: "kids t' q = (if q = p then kids t q @ [?n] else kids t q)" for q
    using par by (auto simp: kids_def t' node_new_def intro: filter_cong)
  have nxt: "next_sibling (nodes t' ! i) =
      (if kids t p \<noteq> [] \<and> i = last (kids t p) then Some ?n else next_sibling (nodes t ! i))" if "i < ?n" for i
    using that by (simp add: t' P_def S_def)
  have "tree_wf t'"
    unfolding tree_wf_def
  proof (intro conjI ballI allI impI)
    show "nodes t' \<noteq> []" using t'(2) by auto
    show "parent (nodes t' ! 0) = None" using wf par [of 0] by (simp add: tree_wf_def)
    show "\<exists>q < c. parent (nodes t' ! c) = Some q" if "c \<in> {0<..<length (nodes t')}" for c
    proof (cases "c = ?n")
      case True
      then show ?thesis using p by (simp add: t')
    next
      case False
      then have "c \<in> {0<..<?n}" using that t'(2) by auto
      then have "\<exists>q < c. parent (nodes t ! c) = Some q" using wf by (simp add: tree_wf_def)
      then show ?thesis using par [of c] \<open>c \<in> {0<..<?n}\<close> by simp
    qed
    fix q assume q: "q < length (nodes t')"
    have empty: "kids t ?n = []"
      using kids_less [OF wf, of _ ?n] by (metis last_in_set less_asym)
    show "first_child (nodes t' ! q) = (case kids t' q of [] \<Rightarrow> None | c # _ \<Rightarrow> Some c)"
    proof (cases "q = ?n")
      case False
      then have "q < ?n" using q t'(2) by simp
      then show ?thesis using wf fc
        by (auto simp: t'(4) kids P_def S_def tree_wf_def split: list.splits)
    qed (use p empty in \<open>auto simp: t' kids node_new_def\<close>)
    show "last_child (nodes t' ! q) = (if kids t' q = [] then None else Some (last (kids t' q)))"
    proof (cases "q = ?n")
      case False
      then have "q < ?n" using q t'(2) by simp
      then show ?thesis using wf lc by (auto simp: t'(4) kids P_def S_def tree_wf_def)
    qed (use p empty in \<open>auto simp: t' kids node_new_def\<close>)
    show "linked t' (kids t' q)"
    proof (cases "q = p")
      case True
      have "linked t' (kids t p @ [?n])"
      proof (rule linked_snoc)
        show "linked t (kids t p)" using wf p by (simp add: tree_wf_def)
        show "distinct (kids t p @ [?n])" using distinct_kids [of t p] by (auto simp: kids_def)
        show "\<forall>c \<in> set (kids t p). next_sibling (nodes t' ! c) =
            (if c = last (kids t p) then Some ?n else next_sibling (nodes t ! c))"
        proof
          fix c assume "c \<in> set (kids t p)"
          then show "next_sibling (nodes t' ! c) =
              (if c = last (kids t p) then Some ?n else next_sibling (nodes t ! c))"
            using nxt [of c] by (cases "kids t p = []") (simp_all add: kids_parent)
        qed
        show "next_sibling (nodes t' ! ?n) = None" by (simp add: t' node_new_def)
      qed
      then show ?thesis using True by (simp add: kids)
    next
      case False
      have "linked t (kids t q)"
        using wf q t'(2) empty by (cases "q = ?n") (auto simp: tree_wf_def)
      moreover have "linked t' (kids t q) = linked t (kids t q)"
      proof (rule linked_cong, intro ballI)
        fix c assume c: "c \<in> set (kids t q)"
        then have "c \<noteq> last (kids t p) \<or> kids t p = []"
          using False by (metis kids_parent last_in_set option.inject)
        then show "next_sibling (nodes t' ! c) = next_sibling (nodes t ! c)"
          using nxt [of c] c by (auto simp: kids_parent)
      qed
      ultimately show ?thesis using False by (simp add: kids)
    qed
  qed
  moreover have "data (nodes t' ! i) = data (nodes t ! i)" if "i < ?n" for i
    using that by (simp add: t' P_def S_def)
  ultimately show ?thesis using t' kids by (auto simp: node_new_def)
qed

subsection \<open>Iterating\<close>

lemma tree_get_less: "i < length (nodes t) \<Longrightarrow> tree_get t i = Some (nodes t ! i)"
  by (simp add: tree_get_def)

lemma wf_first: "tree_wf t \<Longrightarrow> p < length (nodes t) \<Longrightarrow>
    first_child (nodes t ! p) = (case kids t p of [] \<Rightarrow> None | c # _ \<Rightarrow> Some c)"
  by (simp add: tree_wf_def)

lemma wf_next:
  assumes "tree_wf t" "p < length (nodes t)" "kids t p = pre @ c # cs"
  shows "next_sibling (nodes t ! c) = (case cs of [] \<Rightarrow> None | d # _ \<Rightarrow> Some d)"
    and "parent (nodes t ! c) = Some p" and "p < c" and "c < length (nodes t)"
proof -
  have "linked t (kids t p)" using assms(1,2) by (simp add: tree_wf_def)
  then show "next_sibling (nodes t ! c) = (case cs of [] \<Rightarrow> None | d # _ \<Rightarrow> Some d)"
    using linked_suffix [of t pre c cs] assms(3) by simp
  have "c \<in> set (kids t p)" using assms(3) by simp
  then show "parent (nodes t ! c) = Some p" "p < c" "c < length (nodes t)"
    using kids_less [OF assms(1), of c p] kids_parent [of c t p] by auto
qed

lemma find_child_loop_spec:
  assumes wf: "tree_wf t" "p < length (nodes t)"
  shows "kids t p = pre @ cs \<Longrightarrow>
    find_child_loop t f (case cs of [] \<Rightarrow> None | c # _ \<Rightarrow> Some c) =
      Some (find (\<lambda>c. f (data (nodes t ! c))) cs)"
proof (induction cs arbitrary: pre)
  case Nil
  show ?case by (subst find_child_loop.simps) (simp add: children_next_def)
next
  case (Cons c cs)
  note c = wf_next [OF wf Cons.prems]
  have "find_child_loop t f (next_sibling (nodes t ! c)) = Some (find (\<lambda>c. f (data (nodes t ! c))) cs)"
    using Cons.IH [of "pre @ [c]"] Cons.prems c(1) by (simp split: list.splits)
  then show ?case
    using c by (subst find_child_loop.simps) (simp add: children_next_def tree_get_less)
qed

lemma find_child_spec:
  "tree_wf t \<Longrightarrow> p < length (nodes t) \<Longrightarrow>
     find_child t p f = Some (find (\<lambda>c. f (data (nodes t ! c))) (kids t p))"
  using find_child_loop_spec [of t p "[]" "kids t p" f]
  by (simp add: find_child_def children_new_def tree_get_less wf_first split: list.splits)

text \<open>The preorder of the nodes below a node, to a given depth, and the edges of its traversal.\<close>

fun preorder :: "nat \<Rightarrow> 'a index_tree \<Rightarrow> node_id \<Rightarrow> node_id list" where
  "preorder 0 t x = []"
| "preorder (Suc k) t x = concat (map (\<lambda>c. c # preorder k t c) (kids t x))"

fun edges :: "nat \<Rightarrow> 'a index_tree \<Rightarrow> node_id \<Rightarrow> node_edge list" where
  "edges 0 t x = [Start x, End x]"
| "edges (Suc k) t x = Start x # concat (map (edges k t) (kids t x)) @ [End x]"

text \<open>All the edges \<open>Traverse\<close> yields from a state on.\<close>

partial_function (option) traverse_from ::
    "'a index_tree \<Rightarrow> node_id \<Rightarrow> node_edge option \<Rightarrow> node_edge list option" where
  "traverse_from t root nx =
     (case nx of
        None \<Rightarrow> Some []
      | Some e \<Rightarrow> do { nx' \<leftarrow> next_of_next t root e; es \<leftarrow> traverse_from t root nx'; Some (e # es) })"

lemma traverse_kids:
  assumes wf: "tree_wf t" "x < length (nodes t)" and root: "root \<le> x"
    and sub: "\<And>c. c \<in> set (kids t x) \<Longrightarrow> traverse_from t root (Some (Start c)) = do {
        nx \<leftarrow> next_of_next t root (End c); es \<leftarrow> traverse_from t root nx; Some (E c @ es) }"
  shows "kids t x = pre @ c # cs \<Longrightarrow>
    traverse_from t root (Some (Start c)) =
      do { es \<leftarrow> traverse_from t root (Some (End x)); Some (concat (map E (c # cs)) @ es) }"
proof (induction cs arbitrary: pre c)
  case Nil
  note c = wf_next [OF wf Nil.prems]
  have "next_of_next t root (End c) = Some (Some (End x))"
    using c root by (simp add: next_of_next_def tree_get_less)
  then show ?case using sub [of c] Nil.prems by simp
next
  case (Cons d cs)
  note c = wf_next [OF wf Cons.prems]
  have "next_of_next t root (End c) = Some (Some (Start d))"
    using c root by (simp add: next_of_next_def tree_get_less)
  moreover have "traverse_from t root (Some (Start d)) =
      do { es \<leftarrow> traverse_from t root (Some (End x)); Some (concat (map E (d # cs)) @ es) }"
    using Cons.IH [of "pre @ [c]" d] Cons.prems by simp
  ultimately show ?case
    using sub [of c] Cons.prems by (simp add: Option.bind_assoc)
qed

lemma traverse_subtree:
  assumes wf: "tree_wf t" and root: "root \<le> x" and x: "x < length (nodes t)" "length (nodes t) - x \<le> Suc k"
  shows "traverse_from t root (Some (Start x)) = do {
      nx \<leftarrow> next_of_next t root (End x); es \<leftarrow> traverse_from t root nx; Some (edges k t x @ es) }"
  using root x
proof (induction k arbitrary: x)
  case 0
  then have none: "kids t x = []"
  proof (cases "kids t x")
    case (Cons c cs)
    then have "x < c \<and> c < length (nodes t)" using kids_less [OF wf, of c x] by simp
    then have "Suc 0 < length (nodes t) - x" by arith
    with 0 show ?thesis by simp
  qed
  then have "next_of_next t root (Start x) = Some (Some (End x))"
    using 0 wf by (simp add: next_of_next_def tree_get_less wf_first)
  then show ?case
    by (subst (1) traverse_from.simps, subst (1) traverse_from.simps) (simp add: Option.bind_assoc)
next
  case (Suc k)
  show ?case
  proof (cases "kids t x")
    case Nil
    then have "next_of_next t root (Start x) = Some (Some (End x))"
      using Suc wf by (simp add: next_of_next_def tree_get_less wf_first)
    then show ?thesis
      using Nil by (subst (1) traverse_from.simps, subst (1) traverse_from.simps) (simp add: Option.bind_assoc)
  next
    case (Cons c cs)
    then have "next_of_next t root (Start x) = Some (Some (Start c))"
      using Suc wf by (simp add: next_of_next_def tree_get_less wf_first)
    then have step: "traverse_from t root (Some (Start x)) =
        do { es \<leftarrow> traverse_from t root (Some (Start c)); Some (Start x # es) }"
      by (subst traverse_from.simps) simp
    have "traverse_from t root (Some (Start c)) =
        do { es \<leftarrow> traverse_from t root (Some (End x)); Some (concat (map (edges k t) (c # cs)) @ es) }"
    proof (rule traverse_kids [where pre = "[]"])
      fix d assume "d \<in> set (kids t x)"
      then have d: "x < d" "d < length (nodes t)" using kids_less [OF wf] by auto
      show "traverse_from t root (Some (Start d)) = do {
          nx \<leftarrow> next_of_next t root (End d); es \<leftarrow> traverse_from t root nx; Some (edges k t d @ es) }"
        by (rule Suc.IH) (use d Suc.prems in auto)
    qed (use wf Suc.prems Cons in auto)
    moreover have "traverse_from t root (Some (End x)) = do {
        nx \<leftarrow> next_of_next t root (End x); es \<leftarrow> traverse_from t root nx; Some (End x # es) }"
      by (subst traverse_from.simps) simp
    ultimately show ?thesis
      unfolding step by (simp add: Cons Option.bind_assoc)
  qed
qed

lemma traverse_root:
  assumes "tree_wf t" "root < length (nodes t)"
  shows "traverse_from t root (Some (Start root)) = Some (edges (length (nodes t)) t root)"
proof -
  have "next_of_next t root (End root) = Some None" by (simp add: next_of_next_def)
  moreover have "traverse_from t root None = Some []" by (subst traverse_from.simps) simp
  ultimately show ?thesis
    using traverse_subtree [OF assms(1) order_refl assms(2), of "length (nodes t)"] by simp
qed

fun starts :: "node_id \<Rightarrow> node_edge list \<Rightarrow> node_id list" where
  "starts root [] = []"
| "starts root (Start n # es) = (if n = root then starts root es else n # starts root es)"
| "starts root (End n # es) = starts root es"

lemma starts_append [simp]: "starts root (xs @ ys) = starts root xs @ starts root ys"
  by (induction root xs rule: starts.induct) auto

lemma starts_concat: "starts root (concat xss) = concat (map (starts root) xss)"
  by (induction xss) auto

lemma starts_edges:
  "tree_wf t \<Longrightarrow> root \<le> x \<Longrightarrow>
     starts root (edges k t x) = (if x = root then [] else [x]) @ preorder k t x"
proof (induction k arbitrary: x)
  case (Suc k)
  have "map (starts root \<circ> edges k t) (kids t x) = map (\<lambda>c. c # preorder k t c) (kids t x)"
  proof (rule map_cong [OF refl])
    fix c assume "c \<in> set (kids t x)"
    then have "x < c" using kids_less [OF Suc.prems(1)] by blast
    then show "(starts root \<circ> edges k t) c = c # preorder k t c"
      using Suc.IH [of c] Suc.prems by simp
  qed
  then have "starts root (concat (map (edges k t) (kids t x))) = preorder (Suc k) t x"
    by (simp only: starts_concat map_map preorder.simps)
  then show ?case by (simp only: edges.simps starts_append starts.simps append_Cons append_Nil2 append_Nil split: if_split) simp
qed simp

text \<open>\<open>Descendants\<close> keeps of the traversal the starts of nodes other than the root.\<close>

lemma descendants_next_spec:
  "traverse_from t root nx = Some es \<Longrightarrow>
     (case starts root es of
        [] \<Rightarrow> descendants_next t root \<lparr>tr_root = root, tr_next = nx\<rparr> = Some (None, \<lparr>tr_root = root, tr_next = None\<rparr>)
      | n # ns \<Rightarrow> \<exists>nx' es'. descendants_next t root \<lparr>tr_root = root, tr_next = nx\<rparr> =
            Some (Some n, \<lparr>tr_root = root, tr_next = nx'\<rparr>) \<and>
          traverse_from t root nx' = Some es' \<and> starts root es' = ns)"
proof (induction es arbitrary: nx)
  case Nil
  then have "nx = None"
    by (subst (asm) traverse_from.simps) (auto simp: bind_eq_Some_conv split: option.splits)
  then show ?case by (subst descendants_next.simps) (simp add: traverse_next_def)
next
  case (Cons e es)
  then obtain nx' where nx: "nx = Some e" "next_of_next t root e = Some nx'" "traverse_from t root nx' = Some es"
    by (subst (asm) (2) traverse_from.simps) (auto simp: bind_eq_Some_conv split: option.splits)
  show ?case
  proof (cases "\<exists>n. e = Start n \<and> n \<noteq> root")
    case True
    then show ?thesis using nx by (subst descendants_next.simps) (auto simp: traverse_next_def)
  next
    case False
    then have "starts root (e # es) = starts root es" by (cases e) auto
    moreover have "descendants_next t root \<lparr>tr_root = root, tr_next = nx\<rparr> =
        descendants_next t root \<lparr>tr_root = root, tr_next = nx'\<rparr>"
      using nx False by (subst descendants_next.simps) (auto simp: traverse_next_def split: node_edge.splits)
    ultimately show ?thesis using Cons.IH [OF nx(3)] by (simp only:)
  qed
qed

lemma descendants_collect_spec:
  "traverse_from t root nx = Some es \<Longrightarrow>
     descendants_collect t root \<lparr>tr_root = root, tr_next = nx\<rparr> = Some (starts root es)"
proof (induction "starts root es" arbitrary: nx es)
  case Nil
  then show ?case
    using descendants_next_spec [OF Nil(2)] by (subst descendants_collect.simps) simp
next
  case (Cons n ns)
  obtain nx' es' where nx': "descendants_next t root \<lparr>tr_root = root, tr_next = nx\<rparr> =
      Some (Some n, \<lparr>tr_root = root, tr_next = nx'\<rparr>)"
    "traverse_from t root nx' = Some es'" "starts root es' = ns"
    using descendants_next_spec [OF Cons(3)] Cons(2) [symmetric] by auto
  have "descendants_collect t root \<lparr>tr_root = root, tr_next = nx'\<rparr> = Some ns"
    using Cons(1) [OF _ nx'(2)] nx'(3) by simp
  then show ?case using nx'(1) Cons(2) by (subst descendants_collect.simps) simp
qed

lemma descendants_preorder:
  assumes "tree_wf t" "root < length (nodes t)"
  shows "descendants t root = Some (preorder (length (nodes t)) t root)"
  using descendants_collect_spec [OF traverse_root [OF assms]] starts_edges [OF assms(1) order_refl]
  by (simp add: descendants_def traverse_new_def)

definition child_rel :: "'a index_tree \<Rightarrow> (node_id \<times> node_id) set" where
  "child_rel t = {(p, c). c \<in> set (kids t p)}"

lemma child_rel_less:
  assumes "tree_wf t" "(x, y) \<in> (child_rel t)\<^sup>+"
  shows "x < y"
  using assms(2) by induction (auto simp: child_rel_def dest: kids_less [OF assms(1)])

lemma set_preorder:
  "tree_wf t \<Longrightarrow> length (nodes t) - x \<le> Suc k \<Longrightarrow> set (preorder k t x) = {y. (x, y) \<in> (child_rel t)\<^sup>+}"
proof (induction k arbitrary: x)
  case 0
  have "kids t x = []"
  proof (cases "kids t x")
    case (Cons c cs)
    then have "x < c \<and> c < length (nodes t)" using kids_less [OF 0(1), of c x] by simp
    then have "Suc 0 < length (nodes t) - x" by arith
    with 0 show ?thesis by simp
  qed
  then have "(x, y) \<notin> (child_rel t)\<^sup>+" for y by (auto simp: child_rel_def dest: tranclD)
  then show ?case by simp
next
  case (Suc k)
  have "set (preorder k t c) = {y. (c, y) \<in> (child_rel t)\<^sup>+}" if "c \<in> set (kids t x)" for c
  proof -
    have "length (nodes t) - c \<le> Suc k" using Suc.prems(2) kids_less [OF Suc.prems(1) that] by arith
    from Suc.IH [OF Suc.prems(1) this] show ?thesis .
  qed
  then have "set (preorder (Suc k) t x) = (\<Union>c \<in> set (kids t x). insert c {y. (c, y) \<in> (child_rel t)\<^sup>+})"
    by auto
  also have "\<dots> = {y. \<exists>c. (x, c) \<in> child_rel t \<and> (c, y) \<in> (child_rel t)\<^sup>*}"
    unfolding rtrancl_eq_or_trancl by (auto simp: child_rel_def)
  also have "\<dots> = {y. (x, y) \<in> (child_rel t)\<^sup>+}"
    unfolding trancl_unfold_left by auto
  finally show ?case .
qed

lemma siblings_disjoint:
  assumes wf: "tree_wf t" and c: "(x, c) \<in> child_rel t" "(x, d) \<in> child_rel t" "c \<noteq> d"
  shows "\<not> ((c, y) \<in> (child_rel t)\<^sup>* \<and> (d, y) \<in> (child_rel t)\<^sup>*)"
proof
  assume "(c, y) \<in> (child_rel t)\<^sup>* \<and> (d, y) \<in> (child_rel t)\<^sup>*"
  moreover have "single_valued ((child_rel t)\<inverse>)"
    by (auto simp: single_valued_def child_rel_def kids_parent)
  ultimately have "(c, d) \<in> (child_rel t)\<^sup>* \<or> (d, c) \<in> (child_rel t)\<^sup>*"
    using single_valued_confluent [of "(child_rel t)\<inverse>" y c d] by (auto simp: rtrancl_converse)
  moreover have False if d: "(a, b) \<in> (child_rel t)\<^sup>*" "a \<noteq> b" "(x, a) \<in> child_rel t" "(x, b) \<in> child_rel t" for a b
  proof -
    have "(a, b) \<in> (child_rel t)\<^sup>+" using d(1,2) by (simp add: rtrancl_eq_or_trancl)
    then obtain z where z: "(a, z) \<in> (child_rel t)\<^sup>*" "(z, b) \<in> child_rel t" by (meson tranclD2)
    have "z = x" using z(2) d(4) by (auto simp: child_rel_def kids_parent)
    then have "(x, x) \<in> (child_rel t)\<^sup>+" using z(1) d(3) by (meson rtrancl_into_trancl2)
    then show False using child_rel_less [OF wf] by blast
  qed
  ultimately show False using c by blast
qed

lemma distinct_preorder: "tree_wf t \<Longrightarrow> length (nodes t) - x \<le> Suc k \<Longrightarrow> distinct (preorder k t x)"
proof (induction k arbitrary: x)
  case (Suc k)
  have sub: "length (nodes t) - c \<le> Suc k" "(x, c) \<in> child_rel t" if "c \<in> set (kids t x)" for c
    using kids_less [OF Suc.prems(1) that] Suc.prems(2) that by (auto simp: child_rel_def)
  have set: "set (c # preorder k t c) = {y. (c, y) \<in> (child_rel t)\<^sup>*}" if "c \<in> set (kids t x)" for c
    using set_preorder [OF Suc.prems(1) sub(1) [OF that]] by (auto simp: rtrancl_eq_or_trancl)
  have "c \<notin> set (preorder k t c)" if "c \<in> set (kids t x)" for c
    using set_preorder [OF Suc.prems(1) sub(1) [OF that]] child_rel_less [OF Suc.prems(1), of c c] by auto
  then have each: "distinct (c # preorder k t c)" if "c \<in> set (kids t x)" for c
    using Suc.IH [OF Suc.prems(1) sub(1) [OF that]] that by simp
  have "distinct (concat (map (\<lambda>c. c # preorder k t c) cs))" if "set cs \<subseteq> set (kids t x)" "distinct cs" for cs
    using that
  proof (induction cs)
    case (Cons c cs)
    have "set (c # preorder k t c) \<inter> set (concat (map (\<lambda>c. c # preorder k t c) cs)) = {}"
    proof (rule ccontr)
      assume "\<not> ?thesis"
      then obtain y d where y: "y \<in> set (c # preorder k t c)" "d \<in> set cs" "y \<in> set (d # preorder k t d)"
        by (simp only: set_concat set_map) blast
      then have "c \<noteq> d" "d \<in> set (kids t x)" "c \<in> set (kids t x)" using Cons.prems by auto
      then show False
        using siblings_disjoint [OF Suc.prems(1) sub(2) sub(2), of c d y] y set by blast
    qed
    moreover have "distinct (concat (map (\<lambda>c. c # preorder k t c) cs))" using Cons by simp
    moreover have "distinct (c # preorder k t c)" using each Cons.prems by simp
    ultimately show ?case unfolding list.map concat.simps distinct_append by blast
  qed simp
  from this [of "kids t x"] show ?case using distinct_kids [of t x] by simp
qed simp

subsection \<open>Properties\<close>

text \<open>
  C19: \<open>add_child\<close> on a well-formed tree never panics, keeps it well formed (every sibling,
  first-child and last-child link is that of an ordered tree), appends the new node after the
  existing children of its parent, and changes nobody else's children nor any data.
\<close>

theorem add_child_appends:
  assumes "tree_wf t" "p < length (nodes t)"
  shows "\<exists>t'. add_child t p d = Some (t', length (nodes t)) \<and> tree_wf t' \<and>
    length (nodes t') = Suc (length (nodes t)) \<and> data (nodes t' ! length (nodes t)) = d \<and>
    (\<forall>i < length (nodes t). data (nodes t' ! i) = data (nodes t ! i)) \<and>
    (\<forall>q. kids t' q = (if q = p then kids t q @ [length (nodes t)] else kids t q))"
  by (rule add_child_spec [OF assms])

text \<open>
  \<open>find_child\<close> on a well-formed tree terminates without a panic and returns the first
  child, in insertion order, whose data satisfies the predicate.
\<close>

theorem find_child_first:
  assumes "tree_wf t" "p < length (nodes t)"
  shows "find_child t p f = Some (find (\<lambda>c. f (data (nodes t ! c))) (kids t p))"
  by (rule find_child_spec [OF assms])

text \<open>
  C20: \<open>descendants\<close> on a well-formed tree terminates without a panic; it yields the nodes
  below the root in preorder with children in insertion order, which are exactly the proper
  descendants of the root, each once. The root itself is not yielded.
\<close>

theorem descendants_exact:
  assumes "tree_wf t" "root < length (nodes t)"
  shows "\<exists>ns. descendants t root = Some ns \<and> ns = preorder (length (nodes t)) t root \<and>
    set ns = {y. (root, y) \<in> (child_rel t)\<^sup>+} \<and> distinct ns \<and> root \<notin> set ns"
proof -
  have k: "length (nodes t) - root \<le> Suc (length (nodes t))" by simp
  have "root \<notin> set (preorder (length (nodes t)) t root)"
    unfolding set_preorder [OF assms(1) k] using child_rel_less [OF assms(1), of root root] by auto
  then show ?thesis
    using descendants_preorder [OF assms] set_preorder [OF assms(1) k] distinct_preorder [OF assms(1) k] by simp
qed

text \<open>A tree with two children of the root and one grandchild below the first.\<close>

definition sample_tree :: "nat index_tree" where
  "sample_tree = (case do {
       (t, a) \<leftarrow> add_child (tree_new_root 0) 0 1;
       (t, b) \<leftarrow> add_child t 0 2;
       add_child t a 12
     } of Some (t, _) \<Rightarrow> t | None \<Rightarrow> tree_new_root 0)"

lemma sample_tree_ok: "tree_wf sample_tree" "length (nodes sample_tree) = 4"
  by code_simp+

theorem add_child_appends_witness:
  "\<exists>t'. add_child sample_tree 1 14 = Some (t', 4) \<and> kids t' 1 = [3, 4] \<and> kids t' 0 = [1, 2]"
proof -
  have "kids sample_tree 1 = [3]" "kids sample_tree 0 = [1, 2]" by code_simp+
  then show ?thesis using add_child_appends [OF sample_tree_ok(1), of 1 14] by (auto simp: sample_tree_ok(2))
qed

theorem find_child_first_witness: "find_child sample_tree 0 (\<lambda>d. d = 2) = Some (Some 2)"
proof -
  have "find (\<lambda>c. data (nodes sample_tree ! c) = 2) (kids sample_tree 0) = Some 2" by code_simp
  then show ?thesis using find_child_first [OF sample_tree_ok(1), of 0 "\<lambda>d. d = 2"] by (simp add: sample_tree_ok(2))
qed

theorem descendants_exact_witness: "descendants sample_tree 0 = Some [1, 3, 2]"
proof -
  have "preorder (length (nodes sample_tree)) sample_tree 0 = [1, 3, 2]" by code_simp
  then show ?thesis using descendants_exact [OF sample_tree_ok(1), of 0] by (simp add: sample_tree_ok(2))
qed

end
