(* ===== verification/Graph_Api.thy ===== *)
theory Graph_Api
  imports Prelude
begin

section \<open>Directed graphs (the crate \<open>petgraph\<close>)\<close>

text \<open>
  The call graph and the pointer assignment graph are kept in a \<open>Graph\<close> of the crate
  \<open>petgraph\<close>. Its operations are a parameter of the model, and the locale states what its
  documentation says of them: node indices are given out in order, an edge index is new, and
  nothing is ever removed. \<open>add_edge\<close> panics when an end is not a node.
\<close>

record ('g, 'n, 'e) graph_ops =
  g_new :: 'g
  g_node_count :: "'g \<Rightarrow> nat"
  g_add_node :: "'g \<Rightarrow> 'n \<Rightarrow> 'g \<times> nat"
  g_add_edge :: "'g \<Rightarrow> nat \<Rightarrow> nat \<Rightarrow> 'e \<Rightarrow> ('g \<times> nat) option"
  g_node_weight :: "'g \<Rightarrow> nat \<Rightarrow> 'n option"
  g_edge_weight :: "'g \<Rightarrow> nat \<Rightarrow> 'e option"
  g_edge_endpoints :: "'g \<Rightarrow> nat \<Rightarrow> (nat \<times> nat) option"
  g_edges_connecting :: "'g \<Rightarrow> nat \<Rightarrow> nat \<Rightarrow> nat list"
  g_neighbors :: "'g \<Rightarrow> nat \<Rightarrow> nat list"

locale graph_api =
  fixes gops :: "('g, 'n, 'e) graph_ops"
    and g_ok :: "'g \<Rightarrow> bool"
  assumes ok_new: "g_ok (g_new gops)"
    and count_new: "g_node_count gops (g_new gops) = 0"
    and endpoints_new: "g_edge_endpoints gops (g_new gops) i = None"
    and node_weight_dom: "g_ok g \<Longrightarrow> (\<exists>w. g_node_weight gops g i = Some w) \<longleftrightarrow> i < g_node_count gops g"
    and edge_weight_dom: "g_ok g \<Longrightarrow>
      (\<exists>w. g_edge_weight gops g i = Some w) \<longleftrightarrow> (\<exists>p. g_edge_endpoints gops g i = Some p)"
    and endpoints_nodes: "g_ok g \<Longrightarrow> g_edge_endpoints gops g i = Some (a, b) \<Longrightarrow>
      a < g_node_count gops g \<and> b < g_node_count gops g"
    and add_node: "g_ok g \<Longrightarrow> g_add_node gops g w = (g', i) \<Longrightarrow>
      g_ok g' \<and> i = g_node_count gops g \<and> g_node_count gops g' = Suc (g_node_count gops g) \<and>
      g_node_weight gops g' = (g_node_weight gops g)(i \<mapsto> w) \<and>
      g_edge_weight gops g' = g_edge_weight gops g \<and> g_edge_endpoints gops g' = g_edge_endpoints gops g"
    and add_edge: "g_ok g \<Longrightarrow> a < g_node_count gops g \<Longrightarrow> b < g_node_count gops g \<Longrightarrow>
      \<exists>g' i. g_add_edge gops g a b e = Some (g', i) \<and> g_ok g' \<and>
        g_node_count gops g' = g_node_count gops g \<and> g_node_weight gops g' = g_node_weight gops g \<and>
        g_edge_endpoints gops g i = None \<and>
        g_edge_endpoints gops g' = (g_edge_endpoints gops g)(i \<mapsto> (a, b)) \<and>
        g_edge_weight gops g' = (g_edge_weight gops g)(i \<mapsto> e)"
    and edges_connecting: "g_ok g \<Longrightarrow> set (g_edges_connecting gops g a b) = {i. g_edge_endpoints gops g i = Some (a, b)}"
    and neighbors: "g_ok g \<Longrightarrow> set (g_neighbors gops g a) = {b. \<exists>i. g_edge_endpoints gops g i = Some (a, b)}"
begin

text \<open>The edge relation of a graph.\<close>

definition edge_rel :: "'g \<Rightarrow> (nat \<times> nat) set" where
  "edge_rel g = {(a, b). \<exists>i. g_edge_endpoints gops g i = Some (a, b)}"

lemma neighbors_rel: "g_ok g \<Longrightarrow> set (g_neighbors gops g a) = edge_rel g `` {a}"
  by (auto simp: edge_rel_def neighbors)

lemma edge_rel_nodes: "g_ok g \<Longrightarrow> (a, b) \<in> edge_rel g \<Longrightarrow> a < g_node_count gops g \<and> b < g_node_count gops g"
  by (auto simp: edge_rel_def dest: endpoints_nodes)

lemma trancl_nodes: "g_ok g \<Longrightarrow> (a, b) \<in> (edge_rel g)\<^sup>+ \<Longrightarrow> b < g_node_count gops g"
  using tranclD2 [of a b "edge_rel g"] edge_rel_nodes [of g] by fast

end

subsection \<open>An adjacency-list instance\<close>

text \<open>The vectors of nodes and edges that the crate documents, with the same numbering.\<close>

record ('n, 'e) list_graph =
  lg_nodes :: "'n list"
  lg_edges :: "(nat \<times> nat \<times> 'e) list"

definition list_graph_ops :: "(('n, 'e) list_graph, 'n, 'e) graph_ops" where
  "list_graph_ops = \<lparr>
     g_new = \<lparr>lg_nodes = [], lg_edges = []\<rparr>,
     g_node_count = \<lambda>g. length (lg_nodes g),
     g_add_node = \<lambda>g w. (g\<lparr>lg_nodes := lg_nodes g @ [w]\<rparr>, length (lg_nodes g)),
     g_add_edge = \<lambda>g a b w.
       if a < length (lg_nodes g) \<and> b < length (lg_nodes g)
       then Some (g\<lparr>lg_edges := lg_edges g @ [(a, b, w)]\<rparr>, length (lg_edges g)) else None,
     g_node_weight = \<lambda>g i. if i < length (lg_nodes g) then Some (lg_nodes g ! i) else None,
     g_edge_weight = \<lambda>g i. if i < length (lg_edges g) then Some (snd (snd (lg_edges g ! i))) else None,
     g_edge_endpoints = \<lambda>g i.
       if i < length (lg_edges g) then Some (fst (lg_edges g ! i), fst (snd (lg_edges g ! i))) else None,
     g_edges_connecting = \<lambda>g a b.
       rev (filter (\<lambda>i. fst (lg_edges g ! i) = a \<and> fst (snd (lg_edges g ! i)) = b) [0..<length (lg_edges g)]),
     g_neighbors = \<lambda>g a. rev (map (\<lambda>e. fst (snd e)) (filter (\<lambda>e. fst e = a) (lg_edges g)))\<rparr>"

definition list_graph_ok :: "('n, 'e) list_graph \<Rightarrow> bool" where
  "list_graph_ok g \<longleftrightarrow> 
     (\<forall>e \<in> set (lg_edges g). fst e < length (lg_nodes g) \<and> fst (snd e) < length (lg_nodes g))"

lemma list_graph_okD: "list_graph_ok g \<Longrightarrow> i < length (lg_edges g) \<Longrightarrow>
    fst (lg_edges g ! i) < length (lg_nodes g) \<and> fst (snd (lg_edges g ! i)) < length (lg_nodes g)"
  by (simp add: list_graph_ok_def)

lemma list_graph_ok_snoc: "list_graph_ok g \<Longrightarrow> list_graph_ok (g\<lparr>lg_nodes := lg_nodes g @ [w]\<rparr>)"
  by (simp add: list_graph_ok_def less_SucI)

interpretation list_graph: graph_api list_graph_ops list_graph_ok
proof
  fix g g' :: "('n, 'e) list_graph" and a b i w e
  show "list_graph_ok (g_new list_graph_ops :: ('n, 'e) list_graph)"
    "g_node_count list_graph_ops (g_new list_graph_ops :: ('n, 'e) list_graph) = 0"
    "g_edge_endpoints list_graph_ops (g_new list_graph_ops :: ('n, 'e) list_graph) i = None"
    by (simp_all add: list_graph_ops_def list_graph_ok_def)
  assume ok: "list_graph_ok g"
  show "(\<exists>w. g_node_weight list_graph_ops g i = Some w) \<longleftrightarrow> i < g_node_count list_graph_ops g"
    "(\<exists>w. g_edge_weight list_graph_ops g i = Some w) \<longleftrightarrow> (\<exists>p. g_edge_endpoints list_graph_ops g i = Some p)"
    by (simp_all add: list_graph_ops_def)
  show "a < g_node_count list_graph_ops g \<and> b < g_node_count list_graph_ops g"
    if "g_edge_endpoints list_graph_ops g i = Some (a, b)"
    using that list_graph_okD [OF ok, of i] by (auto simp: list_graph_ops_def split: if_splits)
  show "list_graph_ok g' \<and> i = g_node_count list_graph_ops g \<and>
      g_node_count list_graph_ops g' = Suc (g_node_count list_graph_ops g) \<and>
      g_node_weight list_graph_ops g' = (g_node_weight list_graph_ops g)(i \<mapsto> w) \<and>
      g_edge_weight list_graph_ops g' = g_edge_weight list_graph_ops g \<and>
      g_edge_endpoints list_graph_ops g' = g_edge_endpoints list_graph_ops g"
    if "g_add_node list_graph_ops g w = (g', i)"
    using that list_graph_ok_snoc [OF ok] by (auto simp: list_graph_ops_def nth_append fun_eq_iff)
  show "\<exists>g' i. g_add_edge list_graph_ops g a b e = Some (g', i) \<and> list_graph_ok g' \<and>
        g_node_count list_graph_ops g' = g_node_count list_graph_ops g \<and>
        g_node_weight list_graph_ops g' = g_node_weight list_graph_ops g \<and>
        g_edge_endpoints list_graph_ops g i = None \<and>
        g_edge_endpoints list_graph_ops g' = (g_edge_endpoints list_graph_ops g)(i \<mapsto> (a, b)) \<and>
        g_edge_weight list_graph_ops g' = (g_edge_weight list_graph_ops g)(i \<mapsto> e)"
    if "a < g_node_count list_graph_ops g" "b < g_node_count list_graph_ops g"
    using that ok by (auto simp: list_graph_ops_def list_graph_ok_def nth_append fun_eq_iff)
  show "set (g_edges_connecting list_graph_ops g a b) = {i. g_edge_endpoints list_graph_ops g i = Some (a, b)}"
    by (auto simp: list_graph_ops_def split: if_splits)
  have ex: "(\<exists>e \<in> set es. Q e) \<longleftrightarrow> (\<exists>i < length es. Q (es ! i))" for Q and es :: "(nat \<times> nat \<times> 'e) list"
    by (metis in_set_conv_nth)
  have "b \<in> set (g_neighbors list_graph_ops g a) \<longleftrightarrow> (\<exists>e \<in> set (lg_edges g). fst e = a \<and> fst (snd e) = b)" for b
    by (auto simp: list_graph_ops_def image_iff Bex_def simp del: split_paired_Ex)
  then show "set (g_neighbors list_graph_ops g a) = {b. \<exists>i. g_edge_endpoints list_graph_ops g i = Some (a, b)}"
    unfolding ex by (auto simp: list_graph_ops_def split: if_splits)
qed

end
