(* ===== verification/Paths.thy ===== *)
theory Paths
  imports Prelude
begin

section \<open>Paths (\<open>src/mir/path.rs\<close>) and function identifiers (\<open>src/mir/function.rs\<close>)\<close>

text \<open>
  A path names a memory location: a variable, a heap object, a static item, a projection of
  one of these or an offset into one. \<open>Rc<Path>\<close> is compared by structure, so a path is a
  value of a datatype. The compiler's \<open>DefId\<close> and \<open>Location\<close> are pairs of indices, and the
  ids made with \<open>newtype_index!\<close> are natural numbers. Failed assertions, \<open>unwrap\<close> of
  nothing and indexing of an empty list are \<open>None\<close>; logging is left out.
\<close>

type_synonym func_id = nat
type_synonym context_id = nat
type_synonym def_id = "nat \<times> nat"
type_synonym location = "nat \<times> nat"

record cs_func_id =
  cid :: context_id
  cs_func_id :: func_id

definition cs_func_id_new :: "context_id \<Rightarrow> func_id \<Rightarrow> cs_func_id" where
  "cs_func_id_new c f = \<lparr>cid = c, cs_func_id = f\<rparr>"

text \<open>\<open>From<CSFuncId> for FuncId\<close>\<close>

definition into_func_id :: "cs_func_id \<Rightarrow> func_id" where
  "into_func_id f = cs_func_id f"

datatype path_selector =
    Deref
  | Field nat
  | UnionField nat
  | Index
  | Subslice u64 u64 bool
  | Downcast nat
  | Discriminant
  | Cast nat

datatype path =
    LocalVariable func_id nat
  | Parameter func_id nat
  | ReturnValue func_id
  | Auxiliary func_id nat
  | HeapObj func_id location
  | Constant
  | StaticVariable def_id
  | PromotedConstant def_id nat
  | QualifiedPath path "path_selector list"
  | OffsetPath path nat
  | Function func_id
  | PromotedStrRefArray
  | PromotedArgumentV1Array
  | TypePath nat

fun is_qualified :: "path \<Rightarrow> bool" where
  "is_qualified (QualifiedPath _ _) = True"
| "is_qualified _ = False"

definition PTR_METADATA_OFFSET :: nat where "PTR_METADATA_OFFSET = 8"

subsection \<open>Constructors\<close>

definition new_local :: "func_id \<Rightarrow> nat \<Rightarrow> path" where
  "new_local = LocalVariable"

definition new_parameter :: "func_id \<Rightarrow> nat \<Rightarrow> path" where
  "new_parameter = Parameter"

definition new_return_value :: "func_id \<Rightarrow> path" where
  "new_return_value = ReturnValue"

definition new_aux :: "func_id \<Rightarrow> nat \<Rightarrow> path" where
  "new_aux = Auxiliary"

definition new_heap_obj :: "func_id \<Rightarrow> location \<Rightarrow> path" where
  "new_heap_obj = HeapObj"

definition new_constant :: "path" where
  "new_constant = Constant"

definition new_static_variable :: "def_id \<Rightarrow> path" where
  "new_static_variable = StaticVariable"

definition new_promoted :: "def_id \<Rightarrow> nat \<Rightarrow> path" where
  "new_promoted = PromotedConstant"

definition new_argumentv1_arr :: "path" where
  "new_argumentv1_arr = PromotedArgumentV1Array"

definition new_str_ref_arr :: "path" where
  "new_str_ref_arr = PromotedStrRefArray"

definition new_function :: "func_id \<Rightarrow> path" where
  "new_function = Function"

definition new_type :: "nat \<Rightarrow> path" where
  "new_type = TypePath"

definition new_local_parameter_or_result :: "func_id \<Rightarrow> nat \<Rightarrow> nat \<Rightarrow> path" where
  "new_local_parameter_or_result func_id ordinal argument_count =
     (if ordinal = 0 then new_return_value func_id
      else if ordinal \<le> argument_count then new_parameter func_id ordinal
      else new_local func_id ordinal)"

definition new_qualified :: "path \<Rightarrow> path_selector list \<Rightarrow> path option" where
  "new_qualified base projection =
     (if is_qualified base then None else Some (QualifiedPath base projection))"

definition new_offset :: "path \<Rightarrow> nat \<Rightarrow> path" where
  "new_offset base offset = (if offset = 0 then base else OffsetPath base offset)"

definition new_deref :: "path \<Rightarrow> path option" where
  "new_deref address_path =
     (if is_qualified address_path then None else Some (QualifiedPath address_path [Deref]))"

definition append_projection_elem :: "path \<Rightarrow> path_selector \<Rightarrow> path option" where
  "append_projection_elem p elem =
     (case p of
        QualifiedPath base projection \<Rightarrow> new_qualified base (projection @ [elem])
      | _ \<Rightarrow> new_qualified p [elem])"

definition new_index :: "path \<Rightarrow> path option" where
  "new_index collection_path = append_projection_elem collection_path Index"

definition new_field :: "path \<Rightarrow> nat \<Rightarrow> path option" where
  "new_field base field_index = append_projection_elem base (Field field_index)"

definition new_union_field :: "path \<Rightarrow> nat \<Rightarrow> path option" where
  "new_union_field base field_index = append_projection_elem base (UnionField field_index)"

definition new_downcast :: "path \<Rightarrow> nat \<Rightarrow> path option" where
  "new_downcast base downcast_variant = append_projection_elem base (Downcast downcast_variant)"

definition append_projection :: "path \<Rightarrow> path_selector list \<Rightarrow> path option" where
  "append_projection p elems =
     (if elems = [] then Some p
      else case p of
        QualifiedPath base projection \<Rightarrow> new_qualified base (projection @ elems)
      | _ \<Rightarrow> new_qualified p elems)"

definition add_offset :: "path \<Rightarrow> nat \<Rightarrow> path option" where
  "add_offset p offset =
     (if offset = 0 then Some p
      else case p of
        OffsetPath base old_offset \<Rightarrow> Some (new_offset base (old_offset + offset))
      | QualifiedPath base projection \<Rightarrow>
          if length projection = 1 \<and> projection ! 0 = Deref then Some (new_offset p offset) else None
      | _ \<Rightarrow> Some (new_offset p offset))"

definition dyn_ptr_metadata :: "path \<Rightarrow> path option" where
  "dyn_ptr_metadata dyn_ptr_path = add_offset dyn_ptr_path PTR_METADATA_OFFSET"

definition truncate_projection_elems :: "path \<Rightarrow> nat \<Rightarrow> path option" where
  "truncate_projection_elems p len =
     (case p of
        QualifiedPath base projection \<Rightarrow>
          if length projection < len then Some p
          else if len = 0 then Some base
          else new_qualified base (take len projection)
      | _ \<Rightarrow> Some p)"

fun is_cast :: "path_selector \<Rightarrow> bool" where
  "is_cast (Cast _) = True"
| "is_cast _ = False"

definition remove_cast :: "path \<Rightarrow> path option" where
  "remove_cast p =
     (case p of
        QualifiedPath base projection \<Rightarrow>
          if projection = [] then None
          else if is_cast (last projection)
          then truncate_projection_elems p (length projection - 1)
          else Some p
      | _ \<Rightarrow> Some p)"

definition is_constant :: "path \<Rightarrow> bool" where
  "is_constant p \<longleftrightarrow> p = Constant"

fun is_promoted_constant :: "path \<Rightarrow> bool" where
  "is_promoted_constant (PromotedConstant _ _) = True"
| "is_promoted_constant _ = False"

fun is_static_variable :: "path \<Rightarrow> bool" where
  "is_static_variable (StaticVariable _) = True"
| "is_static_variable _ = False"

definition is_field_of :: "path \<Rightarrow> path \<Rightarrow> bool" where
  "is_field_of self p =
     (case self of
        QualifiedPath self_base self_projection \<Rightarrow>
          (case p of
             QualifiedPath base projection \<Rightarrow>
               if self_base = base \<and> length projection < length self_projection
               then list_all (\<lambda>(a, b). a = b) (zip self_projection projection)
               else False
           | _ \<Rightarrow> self_base = p)
      | _ \<Rightarrow> False)"

fun is_deref_path :: "path \<Rightarrow> bool option" where
  "is_deref_path (QualifiedPath _ projection) =
     (case projection of [] \<Rightarrow> None | s # _ \<Rightarrow> Some (s = Deref))"
| "is_deref_path (OffsetPath base _) = is_deref_path base"
| "is_deref_path _ = Some False"

fun get_containing_func :: "path \<Rightarrow> func_id option" where
  "get_containing_func (LocalVariable func_id _) = Some func_id"
| "get_containing_func (Parameter func_id _) = Some func_id"
| "get_containing_func (ReturnValue func_id) = Some func_id"
| "get_containing_func (Auxiliary func_id _) = Some func_id"
| "get_containing_func (HeapObj func_id _) = Some func_id"
| "get_containing_func (QualifiedPath base _) = get_containing_func base"
| "get_containing_func (OffsetPath base _) = get_containing_func base"
| "get_containing_func _ = None"

subsection \<open>Well-formed paths\<close>

text \<open>
  Projections are collected in one non-empty list over a base that is not itself a
  projection; offsets are collected in one non-zero number, over a base that is not itself
  an offset, and of projections only over a single dereference.
\<close>

fun path_wf :: "path \<Rightarrow> bool" where
  "path_wf (QualifiedPath base projection) \<longleftrightarrow> projection \<noteq> [] \<and> \<not> is_qualified base \<and> path_wf base"
| "path_wf (OffsetPath base offset) \<longleftrightarrow> offset \<noteq> 0 \<and> path_wf base \<and>
     (case base of OffsetPath _ _ \<Rightarrow> False | QualifiedPath _ projection \<Rightarrow> projection = [Deref] | _ \<Rightarrow> True)"
| "path_wf _ \<longleftrightarrow> True"

text \<open>The base and the projection list of a path: the list is empty unless it is qualified.\<close>

fun path_split :: "path \<Rightarrow> path \<times> path_selector list" where
  "path_split (QualifiedPath base projection) = (base, projection)"
| "path_split p = (p, [])"

definition path_join :: "path \<Rightarrow> path_selector list \<Rightarrow> path" where
  "path_join base projection = (if projection = [] then base else QualifiedPath base projection)"

lemma path_join_split: "path_wf p \<Longrightarrow> path_join (fst (path_split p)) (snd (path_split p)) = p"
  by (cases p) (auto simp: path_join_def)

lemma path_split_join: "\<not> is_qualified base \<Longrightarrow> path_split (path_join base projection) = (base, projection)"
  by (cases base) (auto simp: path_join_def)

lemma path_wf_join: "path_wf base \<Longrightarrow> \<not> is_qualified base \<Longrightarrow> path_wf (path_join base projection)"
  by (simp add: path_join_def)

lemma path_wf_split: "path_wf p \<Longrightarrow> path_wf (fst (path_split p)) \<and> \<not> is_qualified (fst (path_split p))"
  by (cases p) auto

lemma append_projection_join:
  assumes "path_wf p"
  shows "append_projection p elems = Some (path_join (fst (path_split p)) (snd (path_split p) @ elems))"
  using assms by (cases p) (auto simp: append_projection_def new_qualified_def path_join_def)

lemma append_projection_elem_eq: "append_projection_elem p elem = append_projection p [elem]"
  by (simp add: append_projection_elem_def append_projection_def)

lemma append_projection_wf:
  "path_wf p \<Longrightarrow> \<exists>q. append_projection p elems = Some q \<and> path_wf q \<and>
     path_split q = (fst (path_split p), snd (path_split p) @ elems)"
  using path_wf_split [of p] by (simp add: append_projection_join path_wf_join path_split_join)

lemma truncate_join:
  assumes "path_wf p" "len \<le> length (snd (path_split p))"
  shows "truncate_projection_elems p len = Some (path_join (fst (path_split p)) (take len (snd (path_split p))))"
  using assms by (cases p) (auto simp: truncate_projection_elems_def new_qualified_def path_join_def)

lemma list_all_zip_prefix:
  "length ys < length xs \<Longrightarrow> list_all (\<lambda>(a, b). a = b) (zip xs ys) \<longleftrightarrow> (\<exists>zs. zs \<noteq> [] \<and> xs = ys @ zs)"
proof (induction xs ys rule: list_induct2')
  case (4 x xs y ys)
  then show ?case by auto
qed auto

lemma is_field_of_iff:
  assumes "path_wf p" "path_wf q"
  shows "is_field_of p q \<longleftrightarrow> (\<exists>elems. elems \<noteq> [] \<and> append_projection q elems = Some p)"
proof -
  have "append_projection q elems = Some p \<longleftrightarrow>
      fst (path_split p) = fst (path_split q) \<and> snd (path_split p) = snd (path_split q) @ elems" for elems
    using append_projection_wf [OF assms(2), of elems] path_join_split [OF assms(1)]
      path_wf_split [OF assms(2)] by (auto simp: append_projection_join [OF assms(2)])
  moreover have "is_field_of p q \<longleftrightarrow> fst (path_split p) = fst (path_split q) \<and>
      (\<exists>elems. elems \<noteq> [] \<and> snd (path_split p) = snd (path_split q) @ elems)"
    using assms list_all_zip_prefix
    by (cases p; cases q) (auto simp: is_field_of_def)
  ultimately show ?thesis by auto
qed

lemma containing_func_split: "get_containing_func p = get_containing_func (fst (path_split p))"
  by (cases p) auto

lemma add_offset_wf:
  "path_wf p \<Longrightarrow> add_offset p n = Some q \<Longrightarrow> path_wf q \<and> get_containing_func q = get_containing_func p"
  by (cases p) (auto simp: add_offset_def new_offset_def length_Suc_conv split: if_splits)

lemma add_offset_add:
  "path_wf p \<Longrightarrow> add_offset p m = Some q \<Longrightarrow> add_offset q n = add_offset p (m + n)"
  by (cases p) (auto simp: add_offset_def new_offset_def split: if_splits)

lemma remove_cast_append:
  assumes "path_wf p" "append_projection_elem p elem = Some q"
  shows "remove_cast q = Some (if is_cast elem then p else q)"
proof -
  have q: "path_wf q" "path_split q = (fst (path_split p), snd (path_split p) @ [elem])"
    using append_projection_wf [OF assms(1), of "[elem]"] assms(2) by (auto simp: append_projection_elem_eq)
  then have eq: "q = QualifiedPath (fst (path_split p)) (snd (path_split p) @ [elem])"
    using path_join_split [OF q(1)] by (simp add: path_join_def)
  have "truncate_projection_elems q (length (snd (path_split p))) = Some p"
    using truncate_join [OF q(1), of "length (snd (path_split p))"] q(2) path_join_split [OF assms(1)] by simp
  then show ?thesis unfolding eq by (simp add: remove_cast_def)
qed

subsection \<open>Properties\<close>

text \<open>
  C21: on a well-formed path \<open>append_projection\<close> never fails its assertion and its result is
  well formed; appending twice appends the concatenation, truncating to the old number of
  projections gives the path back, and the function that contains the path is the same.
\<close>

theorem append_projection_ok:
  assumes "path_wf p"
  shows "\<exists>q. append_projection p xs = Some q \<and> path_wf q \<and>
    append_projection q ys = append_projection p (xs @ ys) \<and>
    truncate_projection_elems q (length (snd (path_split p))) = Some p \<and>
    get_containing_func q = get_containing_func p"
proof -
  obtain q where q: "append_projection p xs = Some q" "path_wf q"
    "path_split q = (fst (path_split p), snd (path_split p) @ xs)"
    using append_projection_wf [OF assms, of xs] by blast
  have "truncate_projection_elems q (length (snd (path_split p))) = Some p"
    using truncate_join [OF q(2), of "length (snd (path_split p))"] q(3) path_join_split [OF assms] by simp
  then show ?thesis
    using q containing_func_split [of p] containing_func_split [of q]
    by (auto simp: append_projection_join assms)
qed

theorem append_projection_ok_witness:
  "\<exists>q. append_projection (Parameter 3 1) [Deref, Field 0] = Some q \<and> get_containing_func q = Some 3 \<and>
     truncate_projection_elems q 0 = Some (Parameter 3 1)"
  using append_projection_ok [of "Parameter 3 1" "[Deref, Field 0]" "[]"] by auto

text \<open>
  \<open>is_field_of\<close> holds of two well-formed paths exactly when the first is the second with
  at least one projection appended.
\<close>

theorem is_field_of_extension:
  assumes "path_wf p" "path_wf q"
  shows "is_field_of p q \<longleftrightarrow> (\<exists>elems. elems \<noteq> [] \<and> append_projection q elems = Some p)"
  by (rule is_field_of_iff [OF assms])

theorem is_field_of_extension_witness:
  "\<exists>elems. elems \<noteq> [] \<and>
     append_projection (QualifiedPath (LocalVariable 0 1) [Field 0]) elems =
       Some (QualifiedPath (LocalVariable 0 1) [Field 0, Field 1])"
  using is_field_of_extension [of "QualifiedPath (LocalVariable 0 1) [Field 0, Field 1]"
      "QualifiedPath (LocalVariable 0 1) [Field 0]"] by (simp add: is_field_of_def)

text \<open>
  C22: a cast appended to a well-formed path is what \<open>remove_cast\<close> removes, any other last
  projection it keeps; and offsets add up: \<open>add_offset\<close> of a sum is \<open>add_offset\<close> twice, it
  keeps paths well formed and in the same function.
\<close>

theorem cast_and_offset_roundtrip:
  assumes "path_wf p"
  shows "(\<exists>q. append_projection_elem p elem = Some q \<and> remove_cast q = Some (if is_cast elem then p else q)) \<and>
    (case add_offset p m of
       None \<Rightarrow> True
     | Some r \<Rightarrow> path_wf r \<and> get_containing_func r = get_containing_func p \<and> add_offset r n = add_offset p (m + n))"
proof
  obtain q where q: "append_projection_elem p elem = Some q"
    using append_projection_wf [OF assms, of "[elem]"] by (auto simp: append_projection_elem_eq)
  with remove_cast_append [OF assms q]
  show "\<exists>q. append_projection_elem p elem = Some q \<and> remove_cast q = Some (if is_cast elem then p else q)"
    by blast
  show "case add_offset p m of None \<Rightarrow> True
     | Some r \<Rightarrow> path_wf r \<and> get_containing_func r = get_containing_func p \<and> add_offset r n = add_offset p (m + n)"
    using add_offset_wf [OF assms] add_offset_add [OF assms] by (auto split: option.split)
qed

theorem cast_and_offset_roundtrip_witness:
  "add_offset (OffsetPath (LocalVariable 0 1) 8) 4 = Some (OffsetPath (LocalVariable 0 1) 12) \<and>
   remove_cast (QualifiedPath (LocalVariable 0 1) [Cast 2]) = Some (LocalVariable 0 1)"
  using cast_and_offset_roundtrip [of "LocalVariable 0 1" "Cast 2" 8 4]
  by (simp add: append_projection_elem_def new_qualified_def add_offset_def new_offset_def)

end
