(* ===== verification/Call_Sites.thy ===== *)
theory Call_Sites
  imports Paths
begin

section \<open>Function references and call sites (\<open>src/mir/function.rs\<close>, \<open>src/mir/call_site.rs\<close>)\<close>

text \<open>
  What identifies a function instance, and where a function is called. Types and constants of
  the compiler are type variables. The four kinds of calls that have to wait for points-to
  facts are kept in \<open>AssocCallGroup\<close>, per pointer that they wait for.
\<close>

subsection \<open>Function references\<close>

datatype ('ty, 'const) generic_arg_e = RegionArg | ConstArg 'const | TypeArg 'ty

text \<open>The kinds \<open>GenericArg::unpack\<close> of the compiler distinguishes.\<close>

datatype ('ty, 'const) generic_arg_kind = Lifetime | ConstKind 'const | TypeKind 'ty

fun generic_arg_from :: "('ty, 'const) generic_arg_kind \<Rightarrow> ('ty, 'const) generic_arg_e" where
  "generic_arg_from Lifetime = RegionArg"
| "generic_arg_from (ConstKind c) = ConstArg c"
| "generic_arg_from (TypeKind ty) = TypeArg ty"

record ('ty, 'const) function_reference =
  fr_def_id :: def_id
  fr_generic_args :: "('ty, 'const) generic_arg_e list"
  fr_promoted :: "nat option"

definition new_function_reference ::
    "def_id \<Rightarrow> ('ty, 'const) generic_arg_e list \<Rightarrow> ('ty, 'const) function_reference" where
  "new_function_reference d generic_args =
     \<lparr>fr_def_id = d, fr_generic_args = generic_args, fr_promoted = None\<rparr>"

definition new_promoted_reference ::
    "def_id \<Rightarrow> ('ty, 'const) generic_arg_e list \<Rightarrow> nat \<Rightarrow> ('ty, 'const) function_reference" where
  "new_promoted_reference d generic_args promoted =
     \<lparr>fr_def_id = d, fr_generic_args = generic_args, fr_promoted = Some promoted\<rparr>"

subsection \<open>Paths in a context\<close>

record cs_path =
  cs_cid :: context_id
  cs_path :: path

definition new_cs_path :: "context_id \<Rightarrow> path \<Rightarrow> cs_path" where
  "new_cs_path c p = \<lparr>cs_cid = c, cs_path = p\<rparr>"

subsection \<open>Call sites\<close>

datatype call_type = StaticDispatch | DynamicDispatch | DynamicFnTrait | FnPtr

record 'f base_call_site =
  bcs_func :: 'f
  bcs_location :: location

record ('f, 'p) call_site =
  call_func :: 'f
  call_location :: location
  call_args :: "'p list"
  call_destination :: 'p

type_synonym cs_call_site = "(cs_func_id, cs_path) call_site"

definition base_call_site_new :: "'f \<Rightarrow> location \<Rightarrow> 'f base_call_site" where
  "base_call_site_new f l = \<lparr>bcs_func = f, bcs_location = l\<rparr>"

definition call_site_new :: "'f \<Rightarrow> location \<Rightarrow> 'p list \<Rightarrow> 'p \<Rightarrow> ('f, 'p) call_site" where
  "call_site_new f l a d = \<lparr>call_func = f, call_location = l, call_args = a, call_destination = d\<rparr>"

text \<open>
  The conversions. The first forgets the context of the calling function (\<open>F: Into<FuncId>\<close>),
  the second keeps the function as it is.
\<close>

definition base_from :: "('f \<Rightarrow> func_id) \<Rightarrow> ('f, 'p) call_site \<Rightarrow> func_id base_call_site" where
  "base_from into callsite = \<lparr>bcs_func = into (call_func callsite), bcs_location = call_location callsite\<rparr>"

definition base_from_cs_base :: "cs_func_id base_call_site \<Rightarrow> func_id base_call_site" where
  "base_from_cs_base callsite = \<lparr>bcs_func = into_func_id (bcs_func callsite), bcs_location = bcs_location callsite\<rparr>"

definition cs_base_from :: "cs_call_site \<Rightarrow> cs_func_id base_call_site" where
  "cs_base_from callsite = \<lparr>bcs_func = call_func callsite, bcs_location = call_location callsite\<rparr>"

record ('f, 'p, 'substs) ext_call_site =
  ecs_callsite :: "('f, 'p) call_site"
  ecs_callee_def_id :: def_id
  ecs_callee_substs :: 'substs

lemma base_from_cs: "base_from_cs_base (cs_base_from c) = base_from into_func_id c"
  by (simp add: base_from_cs_base_def cs_base_from_def base_from_def)

subsection \<open>Calls that wait for a pointer\<close>

record ('i, 'f, 'p) assoc_call_group =
  static_dispatch_instance_calls :: "'i \<rightharpoonup> (('f, 'p) call_site \<times> func_id) set"
  dynamic_dispatch_calls :: "'i \<rightharpoonup> ('f, 'p) call_site set"
  dynamic_fntrait_calls :: "'i \<rightharpoonup> ('f, 'p) call_site set"
  fnptr_calls :: "'i \<rightharpoonup> ('f, 'p) call_site set"

definition assoc_calls_new :: "('i, 'f, 'p) assoc_call_group" where
  "assoc_calls_new =
     \<lparr>static_dispatch_instance_calls = Map.empty, dynamic_dispatch_calls = Map.empty,
      dynamic_fntrait_calls = Map.empty, fnptr_calls = Map.empty\<rparr>"

text \<open>\<open>entry(k).or_default().insert(v)\<close> of a map of sets\<close>

definition entry_insert :: "('k \<rightharpoonup> 'v set) \<Rightarrow> 'k \<Rightarrow> 'v \<Rightarrow> ('k \<rightharpoonup> 'v set)" where
  "entry_insert m k v = m(k \<mapsto> insert v (entry_or m k {}))"

lemma entry_insert_apply [simp]:
  "entry_or (entry_insert m k v) k' {} = (if k' = k then insert v (entry_or m k' {}) else entry_or m k' {})"
  by (simp add: entry_insert_def entry_or_def)

definition add_static_dispatch_instance_call ::
    "('i, 'f, 'p) assoc_call_group \<Rightarrow> 'i \<Rightarrow> ('f, 'p) call_site \<Rightarrow> func_id \<Rightarrow> ('i, 'f, 'p) assoc_call_group" where
  "add_static_dispatch_instance_call g self_ref instance_callsite callee =
     g\<lparr>static_dispatch_instance_calls :=
         entry_insert (static_dispatch_instance_calls g) self_ref (instance_callsite, callee)\<rparr>"

definition add_dynamic_dispatch_call ::
    "('i, 'f, 'p) assoc_call_group \<Rightarrow> 'i \<Rightarrow> ('f, 'p) call_site \<Rightarrow> ('i, 'f, 'p) assoc_call_group" where
  "add_dynamic_dispatch_call g dyn_var dyn_callsite =
     g\<lparr>dynamic_dispatch_calls := entry_insert (dynamic_dispatch_calls g) dyn_var dyn_callsite\<rparr>"

definition add_dynamic_fntrait_call ::
    "('i, 'f, 'p) assoc_call_group \<Rightarrow> 'i \<Rightarrow> ('f, 'p) call_site \<Rightarrow> ('i, 'f, 'p) assoc_call_group" where
  "add_dynamic_fntrait_call g dyn_fn_obj dyn_fntrait_callsite =
     g\<lparr>dynamic_fntrait_calls := entry_insert (dynamic_fntrait_calls g) dyn_fn_obj dyn_fntrait_callsite\<rparr>"

definition add_fnptr_call ::
    "('i, 'f, 'p) assoc_call_group \<Rightarrow> 'i \<Rightarrow> ('f, 'p) call_site \<Rightarrow> ('i, 'f, 'p) assoc_call_group" where
  "add_fnptr_call g fn_ptr callsite = g\<lparr>fnptr_calls := entry_insert (fnptr_calls g) fn_ptr callsite\<rparr>"

text \<open>Nothing is taken from the calls that wait.\<close>

definition calls_grow :: "('i, 'f, 'p) assoc_call_group \<Rightarrow> ('i, 'f, 'p) assoc_call_group \<Rightarrow> bool" where
  "calls_grow g g' \<longleftrightarrow> (\<forall>i.
     entry_or (static_dispatch_instance_calls g) i {} \<subseteq> entry_or (static_dispatch_instance_calls g') i {} \<and>
     entry_or (dynamic_dispatch_calls g) i {} \<subseteq> entry_or (dynamic_dispatch_calls g') i {} \<and>
     entry_or (dynamic_fntrait_calls g) i {} \<subseteq> entry_or (dynamic_fntrait_calls g') i {} \<and>
     entry_or (fnptr_calls g) i {} \<subseteq> entry_or (fnptr_calls g') i {})"

lemma calls_grow_refl [simp]: "calls_grow g g"
  by (simp add: calls_grow_def)

lemma calls_grow_trans: "calls_grow a b \<Longrightarrow> calls_grow b c \<Longrightarrow> calls_grow a c"
  unfolding calls_grow_def by (meson subset_trans)

lemma calls_grow_add:
  "calls_grow g (add_static_dispatch_instance_call g i c f)" "calls_grow g (add_dynamic_dispatch_call g i c)"
  "calls_grow g (add_dynamic_fntrait_call g i c)" "calls_grow g (add_fnptr_call g i c)"
  by (auto simp: calls_grow_def add_static_dispatch_instance_call_def add_dynamic_dispatch_call_def
      add_dynamic_fntrait_call_def add_fnptr_call_def)

lemma calls_grow_fnptrs: "calls_grow g (fold (\<lambda>c g. add_fnptr_call g i c) cs g)"
  by (induction cs arbitrary: g) (auto intro: calls_grow_add calls_grow_trans)

end
