(* ===== verification/Call_Graph.thy ===== *)
theory Call_Graph
  imports Graph_Api Call_Sites
begin

section \<open>The call graph (\<open>src/graph/call_graph.rs\<close>)\<close>

text \<open>
  Functions (with or without a context) are nodes, an edge carries its call site. The queue of
  reachable functions is the list it stands for (\<open>Chunked_Queue\<close>). The invariant \<open>cg_ok\<close> says
  that the maps describe the graph, that every function is queued exactly once and that a call
  site has one edge per callee. The output for Graphviz is left out.
\<close>

record 'f cg_node =
  cgn_func :: 'f

record 's cg_edge =
  cge_callsite :: 's

record ('g, 'f, 's) call_graph =
  cg_graph :: 'g
  func_nodes :: "'f \<rightharpoonup> nat"
  callsite_to_edges :: "'s \<rightharpoonup> nat set"
  callsite_to_type :: "func_id base_call_site \<rightharpoonup> call_type"
  reach_funcs :: "'f list"

type_synonym ('g, 'f, 's) cg_ops = "('g, 'f cg_node, 's cg_edge) graph_ops"

definition cg_node_new :: "'f \<Rightarrow> 'f cg_node" where
  "cg_node_new f = \<lparr>cgn_func = f\<rparr>"

definition cg_edge_new :: "'s \<Rightarrow> 's cg_edge" where
  "cg_edge_new s = \<lparr>cge_callsite = s\<rparr>"

definition cg_new :: "('g, 'f, 's) cg_ops \<Rightarrow> ('g, 'f, 's) call_graph" where
  "cg_new gops = \<lparr>cg_graph = g_new gops, func_nodes = Map.empty, callsite_to_edges = Map.empty,
     callsite_to_type = Map.empty, reach_funcs = []\<rparr>"

definition add_reach_func :: "('g, 'f, 's) call_graph \<Rightarrow> 'f \<Rightarrow> ('g, 'f, 's) call_graph" where
  "add_reach_func cg func = cg\<lparr>reach_funcs := reach_funcs cg @ [func]\<rparr>"

definition cg_add_node :: "('g, 'f, 's) cg_ops \<Rightarrow> ('g, 'f, 's) call_graph \<Rightarrow> 'f \<Rightarrow> ('g, 'f, 's) call_graph" where
  "cg_add_node gops cg func =
     (case func_nodes cg func of
        Some _ \<Rightarrow> cg
      | None \<Rightarrow>
          let (g, node_id) = g_add_node gops (cg_graph cg) (cg_node_new func)
          in add_reach_func (cg\<lparr>cg_graph := g, func_nodes := (func_nodes cg)(func \<mapsto> node_id)\<rparr>) func)"

definition cg_get_or_insert_node ::
    "('g, 'f, 's) cg_ops \<Rightarrow> ('g, 'f, 's) call_graph \<Rightarrow> 'f \<Rightarrow> ('g, 'f, 's) call_graph \<times> nat" where
  "cg_get_or_insert_node gops cg func =
     (case func_nodes cg func of
        Some node_id \<Rightarrow> (cg, node_id)
      | None \<Rightarrow>
          let cg = cg\<lparr>reach_funcs := reach_funcs cg @ [func]\<rparr>;
              (g, node_id) = g_add_node gops (cg_graph cg) (cg_node_new func)
          in (cg\<lparr>cg_graph := g, func_nodes := (func_nodes cg)(func \<mapsto> node_id)\<rparr>, node_id))"

definition set_callsite_type ::
    "('g, 'f, 's) call_graph \<Rightarrow> func_id base_call_site \<Rightarrow> call_type \<Rightarrow> ('g, 'f, 's) call_graph" where
  "set_callsite_type cg callsite ty = cg\<lparr>callsite_to_type := (callsite_to_type cg)(callsite \<mapsto> ty)\<rparr>"

definition get_callsite_type :: "('g, 'f, 's) call_graph \<Rightarrow> func_id base_call_site \<Rightarrow> call_type option" where
  "get_callsite_type cg callsite = callsite_to_type cg callsite"

definition cg_edge_endpoints :: "('g, 'f, 's) cg_ops \<Rightarrow> ('g, 'f, 's) call_graph \<Rightarrow> nat \<Rightarrow> (nat \<times> nat) option" where
  "cg_edge_endpoints gops cg edge_id = g_edge_endpoints gops (cg_graph cg) edge_id"

definition get_callee_id_of_edge :: "('g, 'f, 's) cg_ops \<Rightarrow> ('g, 'f, 's) call_graph \<Rightarrow> nat \<Rightarrow> 'f option" where
  "get_callee_id_of_edge gops cg edge_id =
     (case cg_edge_endpoints gops cg edge_id of
        Some (_, callee_node) \<Rightarrow>
          (case g_node_weight gops (cg_graph cg) callee_node of
             Some node \<Rightarrow> Some (cgn_func node)
           | None \<Rightarrow> None)
      | None \<Rightarrow> None)"

text \<open>\<open>get_callees\<close> unwraps the node of every edge target; a missing one is a panic.\<close>

definition get_callees :: "('g, 'f, 's) cg_ops \<Rightarrow> ('g, 'f, 's) call_graph \<Rightarrow> 's \<Rightarrow> 'f set option" where
  "get_callees gops cg callsite =
     (case callsite_to_edges cg callsite of
        None \<Rightarrow> Some {}
      | Some es \<Rightarrow>
          let targets = (\<lambda>e. snd (the (g_edge_endpoints gops (cg_graph cg) e))) `
                {e \<in> es. g_edge_endpoints gops (cg_graph cg) e \<noteq> None}
          in if \<forall>t \<in> targets. g_node_weight gops (cg_graph cg) t \<noteq> None
             then Some ((\<lambda>t. cgn_func (the (g_node_weight gops (cg_graph cg) t))) ` targets)
             else None)"

definition cg_has_edge :: "('g, 'f, 's) cg_ops \<Rightarrow> ('g, 'f, 's) call_graph \<Rightarrow> 's \<Rightarrow> 'f \<Rightarrow> bool option" where
  "cg_has_edge gops cg callsite callee_id = do {
     callees \<leftarrow> get_callees gops cg callsite;
     Some (callee_id \<in> callees)
   }"

definition cg_add_edge ::
    "('g, 'f, 's) cg_ops \<Rightarrow> ('g, 'f, 's) call_graph \<Rightarrow> 's \<Rightarrow> 'f \<Rightarrow> 'f \<Rightarrow> (('g, 'f, 's) call_graph \<times> bool) option" where
  "cg_add_edge gops cg callsite caller_id callee_id = do {
     let (cg, caller_node) = cg_get_or_insert_node gops cg caller_id;
     let (cg, callee_node) = cg_get_or_insert_node gops cg callee_id;
     callees \<leftarrow> get_callees gops cg callsite;
     if callee_id \<notin> callees then do {
       (g, edge_id) \<leftarrow> g_add_edge gops (cg_graph cg) caller_node callee_node (cg_edge_new callsite);
       Some (cg\<lparr>cg_graph := g,
                callsite_to_edges := entry_insert (callsite_to_edges cg) callsite edge_id\<rparr>, True)
     } else Some (cg, False)
   }"

subsection \<open>The invariant and the calls a graph stands for\<close>

definition cg_ok :: "('g, 'f, 's) cg_ops \<Rightarrow> ('g \<Rightarrow> bool) \<Rightarrow> ('g, 'f, 's) call_graph \<Rightarrow> bool" where
  "cg_ok gops g_ok cg \<longleftrightarrow>
     g_ok (cg_graph cg) \<and>
     (\<forall>f i. func_nodes cg f = Some i \<longleftrightarrow> g_node_weight gops (cg_graph cg) i = Some \<lparr>cgn_func = f\<rparr>) \<and>
     set (reach_funcs cg) = dom (func_nodes cg) \<and> distinct (reach_funcs cg) \<and>
     (\<forall>s e. e \<in> entry_or (callsite_to_edges cg) s {} \<longleftrightarrow> g_edge_weight gops (cg_graph cg) e = Some \<lparr>cge_callsite = s\<rparr>)"

text \<open>The calls \<open>(call site, caller, callee)\<close> of a call graph.\<close>

definition cg_calls :: "('g, 'f, 's) cg_ops \<Rightarrow> ('g, 'f, 's) call_graph \<Rightarrow> ('s \<times> 'f \<times> 'f) set" where
  "cg_calls gops cg = {(s, f, h). \<exists>e a b. g_edge_endpoints gops (cg_graph cg) e = Some (a, b) \<and>
     g_edge_weight gops (cg_graph cg) e = Some \<lparr>cge_callsite = s\<rparr> \<and>
     g_node_weight gops (cg_graph cg) a = Some \<lparr>cgn_func = f\<rparr> \<and>
     g_node_weight gops (cg_graph cg) b = Some \<lparr>cgn_func = h\<rparr>}"

definition callees_of :: "('g, 'f, 's) cg_ops \<Rightarrow> ('g, 'f, 's) call_graph \<Rightarrow> 's \<Rightarrow> 'f set" where
  "callees_of gops cg s = {h. \<exists>f. (s, f, h) \<in> cg_calls gops cg}"

definition push_new :: "'f \<Rightarrow> 'f list \<Rightarrow> 'f list" where
  "push_new f fs = (if f \<in> set fs then fs else fs @ [f])"

text \<open>Adding the calls of a list, one after the other.\<close>

fun cg_add_edges ::
    "('g, 'f, 's) cg_ops \<Rightarrow> ('g, 'f, 's) call_graph \<Rightarrow> ('s \<times> 'f \<times> 'f) list \<Rightarrow> ('g, 'f, 's) call_graph option" where
  "cg_add_edges gops cg [] = Some cg"
| "cg_add_edges gops cg ((s, f, h) # calls) = do {
     (cg', new) \<leftarrow> cg_add_edge gops cg s f h;
     cg_add_edges gops cg' calls
   }"

lemma set_push_new [simp]: "set (push_new f fs) = insert f (set fs)"
  by (auto simp: push_new_def)

locale call_graph_api = graph_api gops g_ok
  for gops :: "('g, 'f cg_node, 's cg_edge) graph_ops" and g_ok :: "'g \<Rightarrow> bool"
begin

lemma cg_ok_new: "cg_ok gops g_ok (cg_new gops)"
proof -
  have "g_node_weight gops (g_new gops) i = None" for i
    using node_weight_dom [OF ok_new] count_new by (metis not_less0 not_None_eq)
  moreover have "g_edge_weight gops (g_new gops) i = None" for i
    using edge_weight_dom [OF ok_new] endpoints_new by (metis not_None_eq option.distinct(1))
  ultimately show ?thesis by (simp add: cg_ok_def cg_new_def ok_new entry_or_def)
qed

lemma cg_calls_new: "cg_calls gops (cg_new gops) = {}"
  by (simp add: cg_calls_def cg_new_def endpoints_new)

lemma get_or_insert_spec:
  assumes ok: "cg_ok gops g_ok cg" and ins: "cg_get_or_insert_node gops cg f = (cg', i)"
  shows "cg_ok gops g_ok cg'" and "func_nodes cg' f = Some i" and "cg_calls gops cg' = cg_calls gops cg"
    and "reach_funcs cg' = push_new f (reach_funcs cg)" and "func_nodes cg \<subseteq>\<^sub>m func_nodes cg'"
    and "callsite_to_edges cg' = callsite_to_edges cg" and "callsite_to_type cg' = callsite_to_type cg"
proof -
  have "cg_ok gops g_ok cg' \<and> func_nodes cg' f = Some i \<and> cg_calls gops cg' = cg_calls gops cg \<and>
    reach_funcs cg' = push_new f (reach_funcs cg) \<and> func_nodes cg \<subseteq>\<^sub>m func_nodes cg' \<and>
    callsite_to_edges cg' = callsite_to_edges cg \<and> callsite_to_type cg' = callsite_to_type cg"
  proof (cases "func_nodes cg f")
    case (Some j)
    then have "f \<in> set (reach_funcs cg)" using ok by (auto simp: cg_ok_def)
    then show ?thesis using ok ins Some by (simp add: cg_get_or_insert_node_def push_new_def)
  next
    case None
    obtain g n where g: "g_add_node gops (cg_graph cg) (cg_node_new f) = (g, n)" by fastforce
    have gok: "g_ok (cg_graph cg)" using ok by (simp add: cg_ok_def)
    note spec = add_node [OF gok g]
    have cg': "cg' = cg\<lparr>reach_funcs := reach_funcs cg @ [f], cg_graph := g,
        func_nodes := (func_nodes cg)(f \<mapsto> n)\<rparr>" "i = n"
      using ins None g by (auto simp: cg_get_or_insert_node_def)
    have new: "f \<notin> set (reach_funcs cg)" using ok None by (auto simp: cg_ok_def)
    have fresh: "g_node_weight gops (cg_graph cg) n = None"
      using node_weight_dom [OF gok, of n] spec by auto
    have nodes: "((func_nodes cg)(f \<mapsto> n)) f' = Some j \<longleftrightarrow> g_node_weight gops g j = Some \<lparr>cgn_func = f'\<rparr>" for f' j
      using ok spec fresh None by (auto simp: cg_ok_def cg_node_new_def)
    have "cg_ok gops g_ok cg'"
      using ok spec new None nodes by (simp add: cg_ok_def cg')
    moreover have "cg_calls gops cg' = cg_calls gops cg"
    proof -
      have "g_node_weight gops g a = g_node_weight gops (cg_graph cg) a \<and>
          g_node_weight gops g b = g_node_weight gops (cg_graph cg) b"
        if "g_edge_endpoints gops (cg_graph cg) e = Some (a, b)" for a b e
        using endpoints_nodes [OF gok that] spec by auto
      then have "(g_edge_endpoints gops g e = Some (a, b) \<and> g_edge_weight gops g e = Some \<lparr>cge_callsite = s'\<rparr> \<and>
            g_node_weight gops g a = Some \<lparr>cgn_func = f'\<rparr> \<and> g_node_weight gops g b = Some \<lparr>cgn_func = h'\<rparr>) \<longleftrightarrow>
          (g_edge_endpoints gops (cg_graph cg) e = Some (a, b) \<and>
            g_edge_weight gops (cg_graph cg) e = Some \<lparr>cge_callsite = s'\<rparr> \<and>
            g_node_weight gops (cg_graph cg) a = Some \<lparr>cgn_func = f'\<rparr> \<and>
            g_node_weight gops (cg_graph cg) b = Some \<lparr>cgn_func = h'\<rparr>)" for e a b s' f' h'
        using spec by metis
      then show ?thesis by (simp add: cg_calls_def cg')
    qed
    ultimately show ?thesis using new None by (auto simp: cg' push_new_def map_le_def)
  qed
  then show "cg_ok gops g_ok cg'" "func_nodes cg' f = Some i" "cg_calls gops cg' = cg_calls gops cg"
    "reach_funcs cg' = push_new f (reach_funcs cg)" "func_nodes cg \<subseteq>\<^sub>m func_nodes cg'"
    "callsite_to_edges cg' = callsite_to_edges cg" "callsite_to_type cg' = callsite_to_type cg" by blast+
qed

lemma get_callees_spec:
  assumes ok: "cg_ok gops g_ok cg"
  shows "get_callees gops cg s = Some (callees_of gops cg s)"
proof -
  have gok: "g_ok (cg_graph cg)" using ok by (simp add: cg_ok_def)
  have node: "\<exists>f. g_node_weight gops (cg_graph cg) i = Some \<lparr>cgn_func = f\<rparr>" if "i < g_node_count gops (cg_graph cg)" for i
    using node_weight_dom [OF gok, of i] that by (metis cg_node.cases)
  have es: "e \<in> entry_or (callsite_to_edges cg) s {} \<longleftrightarrow> g_edge_weight gops (cg_graph cg) e = Some \<lparr>cge_callsite = s\<rparr>" for e
    using ok by (simp add: cg_ok_def)
  have ends: "\<exists>a b f h. g_edge_endpoints gops (cg_graph cg) e = Some (a, b) \<and>
      g_node_weight gops (cg_graph cg) a = Some \<lparr>cgn_func = f\<rparr> \<and> g_node_weight gops (cg_graph cg) b = Some \<lparr>cgn_func = h\<rparr>"
    if weight: "g_edge_weight gops (cg_graph cg) e = Some w" for e w
  proof -
    obtain a b where ab: "g_edge_endpoints gops (cg_graph cg) e = Some (a, b)"
      using edge_weight_dom [OF gok, of e] weight by auto
    then show ?thesis using endpoints_nodes [OF gok ab] node [of a] node [of b] by blast
  qed
  have all: "callees_of gops cg s = (\<lambda>e. cgn_func (the (g_node_weight gops (cg_graph cg)
      (snd (the (g_edge_endpoints gops (cg_graph cg) e)))))) ` entry_or (callsite_to_edges cg) s {}"
    unfolding callees_of_def cg_calls_def
    using es ends by (auto simp: image_iff) (metis option.sel snd_conv cg_node.select_convs(1))+
  show ?thesis
  proof (cases "callsite_to_edges cg s")
    case None
    then show ?thesis using all by (simp add: get_callees_def)
  next
    case (Some E)
    then have E: "entry_or (callsite_to_edges cg) s {} = E" by simp
    have "{e \<in> E. g_edge_endpoints gops (cg_graph cg) e \<noteq> None} = E"
      using es ends by (force simp: E)
    moreover have "g_node_weight gops (cg_graph cg) (snd (the (g_edge_endpoints gops (cg_graph cg) e))) \<noteq> None" if "e \<in> E" for e
      using es ends that unfolding E by fastforce
    ultimately show ?thesis using all Some by (simp add: get_callees_def E image_image)
  qed
qed

lemma add_edge_spec:
  assumes ok: "cg_ok gops g_ok cg"
  shows "\<exists>cg' new. cg_add_edge gops cg s f h = Some (cg', new) \<and> cg_ok gops g_ok cg' \<and>
    (new \<longleftrightarrow> h \<notin> callees_of gops cg s) \<and>
    cg_calls gops cg' = (if new then insert (s, f, h) (cg_calls gops cg) else cg_calls gops cg) \<and>
    reach_funcs cg' = push_new h (push_new f (reach_funcs cg)) \<and>
    callsite_to_type cg' = callsite_to_type cg"
proof -
  obtain cg1 i where 1: "cg_get_or_insert_node gops cg f = (cg1, i)" by fastforce
  obtain cg2 j where 2: "cg_get_or_insert_node gops cg1 h = (cg2, j)" by fastforce
  note s1 = get_or_insert_spec [OF ok 1]
  note s2 = get_or_insert_spec [OF s1(1) 2]
  have i: "func_nodes cg2 f = Some i" using s1(2) s2(5) by (metis domI map_le_def)
  have callees: "get_callees gops cg2 s = Some (callees_of gops cg s)"
    using get_callees_spec [OF s2(1)] s1(3) s2(3) by (simp add: callees_of_def)
  show ?thesis
  proof (cases "h \<in> callees_of gops cg s")
    case True
    then have "cg_add_edge gops cg s f h = Some (cg2, False)" by (simp add: cg_add_edge_def 1 2 callees)
    then show ?thesis using True s1 s2 by auto
  next
    case False
    have gok: "g_ok (cg_graph cg2)" using s2(1) by (simp add: cg_ok_def)
    have w: "g_node_weight gops (cg_graph cg2) i = Some \<lparr>cgn_func = f\<rparr>"
      "g_node_weight gops (cg_graph cg2) j = Some \<lparr>cgn_func = h\<rparr>"
      using s2(1,2) i by (auto simp: cg_ok_def)
    then have ij: "i < g_node_count gops (cg_graph cg2)" "j < g_node_count gops (cg_graph cg2)"
      using node_weight_dom [OF gok] by blast+
    obtain g e where g: "g_add_edge gops (cg_graph cg2) i j (cg_edge_new s) = Some (g, e)" "g_ok g"
      "g_node_weight gops g = g_node_weight gops (cg_graph cg2)"
      "g_edge_endpoints gops (cg_graph cg2) e = None"
      "g_edge_endpoints gops g = (g_edge_endpoints gops (cg_graph cg2))(e \<mapsto> (i, j))"
      "g_edge_weight gops g = (g_edge_weight gops (cg_graph cg2))(e \<mapsto> cg_edge_new s)"
      using add_edge [OF gok ij, of "cg_edge_new s"] by blast
    define cg' where "cg' = cg2\<lparr>cg_graph := g, callsite_to_edges := entry_insert (callsite_to_edges cg2) s e\<rparr>"
    have add: "cg_add_edge gops cg s f h = Some (cg', True)"
      using False g(1) by (simp add: cg_add_edge_def 1 2 callees cg'_def)
    have none: "g_edge_weight gops (cg_graph cg2) e = None"
      using edge_weight_dom [OF gok, of e] g(4) by (metis not_None_eq option.distinct(1))
    have "cg_ok gops g_ok cg'"
      using s2(1) g none by (auto simp: cg_ok_def cg'_def cg_edge_new_def)
    moreover have "cg_calls gops cg' = insert (s, f, h) (cg_calls gops cg2)"
    proof -
      have "(s', f', h') \<in> cg_calls gops cg' \<longleftrightarrow> (s', f', h') = (s, f, h) \<or> (s', f', h') \<in> cg_calls gops cg2" for s' f' h'
      proof -
        let ?Q = "\<lambda>g e. \<exists>a b. g_edge_endpoints gops g e = Some (a, b) \<and>
          g_edge_weight gops g e = Some \<lparr>cge_callsite = s'\<rparr> \<and>
          g_node_weight gops g a = Some \<lparr>cgn_func = f'\<rparr> \<and> g_node_weight gops g b = Some \<lparr>cgn_func = h'\<rparr>"
        have "?Q g e \<longleftrightarrow> (s', f', h') = (s, f, h)" using g(3,5,6) w by (auto simp: cg_edge_new_def)
        moreover have "\<not> ?Q (cg_graph cg2) e" using g(4) by simp
        moreover have "?Q g x \<longleftrightarrow> ?Q (cg_graph cg2) x" if "x \<noteq> e" for x using that g(3,5,6) by simp
        ultimately have "(\<exists>x. ?Q g x) \<longleftrightarrow> (s', f', h') = (s, f, h) \<or> (\<exists>x. ?Q (cg_graph cg2) x)"
          by (rule ex_at)
        then show ?thesis by (simp add: cg_calls_def cg'_def)
      qed
      then show ?thesis by auto
    qed
    ultimately show ?thesis using add False s1 s2 by (auto simp: cg'_def)
  qed
qed

lemma add_edges_spec:
  "cg_ok gops g_ok cg \<Longrightarrow> \<exists>cg'. cg_add_edges gops cg calls = Some cg' \<and> cg_ok gops g_ok cg' \<and>
     (\<forall>s. callees_of gops cg' s = callees_of gops cg s \<union> {h. \<exists>f. (s, f, h) \<in> set calls}) \<and>
     cg_calls gops cg' \<subseteq> cg_calls gops cg \<union> set calls \<and>
     set (reach_funcs cg') = set (reach_funcs cg) \<union> (\<Union>(s, f, h) \<in> set calls. {f, h})"
proof (induction calls arbitrary: cg)
  case (Cons c calls)
  obtain s f h where c: "c = (s, f, h)" by (rule prod_cases3)
  obtain cg1 new where 1: "cg_add_edge gops cg s f h = Some (cg1, new)" "cg_ok gops g_ok cg1"
    "new \<longleftrightarrow> h \<notin> callees_of gops cg s"
    "cg_calls gops cg1 = (if new then insert (s, f, h) (cg_calls gops cg) else cg_calls gops cg)"
    "reach_funcs cg1 = push_new h (push_new f (reach_funcs cg))"
    using add_edge_spec [OF Cons.prems, of s f h] by blast
  have callees: "callees_of gops cg1 s' = callees_of gops cg s' \<union> {h'. (s', h') = (s, h)}" for s'
    using 1(3,4) by (auto simp: callees_of_def split: if_splits)
  obtain cg2 where 2: "cg_add_edges gops cg1 calls = Some cg2" "cg_ok gops g_ok cg2"
    "\<forall>s. callees_of gops cg2 s = callees_of gops cg1 s \<union> {h. \<exists>f. (s, f, h) \<in> set calls}"
    "cg_calls gops cg2 \<subseteq> cg_calls gops cg1 \<union> set calls"
    "set (reach_funcs cg2) = set (reach_funcs cg1) \<union> (\<Union>(s, f, h) \<in> set calls. {f, h})"
    using Cons.IH [OF 1(2)] by blast
  have "cg_add_edges gops cg (c # calls) = Some cg2" using 1(1) 2(1) by (simp add: c)
  moreover have "callees_of gops cg2 s' = callees_of gops cg s' \<union> {h. \<exists>f. (s', f, h) \<in> set (c # calls)}" for s'
    using 2(3) callees by (auto simp: c)
  moreover have "cg_calls gops cg2 \<subseteq> cg_calls gops cg \<union> set (c # calls)"
    using 1(4) 2(4) by (auto simp: c split: if_splits)
  moreover have "set (reach_funcs cg2) = set (reach_funcs cg) \<union> (\<Union>(s, f, h) \<in> set (c # calls). {f, h})"
    using 1(5) 2(5) by (auto simp: c)
  ultimately show ?case using 2(2) by blast
qed auto

end

interpretation list_cg: call_graph_api list_graph_ops list_graph_ok ..

subsection \<open>Properties\<close>

text \<open>
  C25: building a call graph from any sequence of calls never panics (given a graph that
  behaves as documented). The callees of a call site are exactly those it was added with, no
  call appears that was not added, and the queue of reachable functions holds every caller
  and callee exactly once, however often they occur.
\<close>

theorem call_graph_build:
  fixes gops :: "('g, 'f, 's) cg_ops"
  assumes "graph_api gops g_ok"
  shows "\<exists>cg. cg_add_edges gops (cg_new gops) calls = Some cg \<and> cg_ok gops g_ok cg \<and>
    (\<forall>s. get_callees gops cg s = Some {h. \<exists>f. (s, f, h) \<in> set calls}) \<and>
    cg_calls gops cg \<subseteq> set calls \<and>
    set (reach_funcs cg) = (\<Union>(s, f, h) \<in> set calls. {f, h}) \<and> distinct (reach_funcs cg)"
proof -
  have cg: "call_graph_api gops g_ok" using assms by (rule call_graph_api.intro)
  obtain cg' where r: "cg_add_edges gops (cg_new gops) calls = Some cg'" "cg_ok gops g_ok cg'"
    "\<forall>s. callees_of gops cg' s = callees_of gops (cg_new gops) s \<union> {h. \<exists>f. (s, f, h) \<in> set calls}"
    "cg_calls gops cg' \<subseteq> cg_calls gops (cg_new gops) \<union> set calls"
    "set (reach_funcs cg') = set (reach_funcs (cg_new gops)) \<union> (\<Union>(s, f, h) \<in> set calls. {f, h})"
    using call_graph_api.add_edges_spec [OF cg call_graph_api.cg_ok_new [OF cg]] by blast
  have "callees_of gops (cg_new gops) s = {}" for s
    by (simp add: callees_of_def call_graph_api.cg_calls_new [OF cg])
  moreover have "reach_funcs (cg_new gops) = []" by (simp add: cg_new_def)
  ultimately show ?thesis
    using r call_graph_api.get_callees_spec [OF cg r(2)] call_graph_api.cg_calls_new [OF cg]
    by (auto simp: cg_ok_def)
qed

theorem call_graph_build_witness:
  "\<exists>cg. cg_add_edges list_graph_ops (cg_new list_graph_ops) [(7 :: nat, 0 :: nat, 1), (8, 1, 0), (7, 0, 1)] = Some cg \<and>
     get_callees list_graph_ops cg 7 = Some {1} \<and> set (reach_funcs cg) = {0, 1} \<and> distinct (reach_funcs cg)"
  using call_graph_build [OF list_graph.graph_api_axioms, of "[(7 :: nat, 0 :: nat, 1), (8, 1, 0), (7, 0, 1)]"]
  by auto

end
