(* ===== verification/Reachability.thy ===== *)
theory Reachability
  imports Call_Graph Bit_Vec
begin

section \<open>Function reachability (\<open>src/pta/strategies/stack_filtering.rs\<close>)\<close>

text \<open>
  The reachability relation of the call graph is a matrix whose rows are sets of node indices,
  either \<open>Vec<bool>\<close> or \<open>BitVec<usize>\<close>; the trait \<open>RowRelation\<close> is a record of its operations
  and its contract a locale. The relation is computed by a depth-first search from every
  node, in sequence or with the rows computed in parallel. A worklist \<open>VecDeque\<close> that is
  pushed and popped at its back is a list used at its end.
\<close>

record 'r row_ops =
  rr_new_empty :: 'r
  rr_with_capacity :: "nat \<Rightarrow> 'r"
  rr_contains :: "'r \<Rightarrow> nat \<Rightarrow> bool option"
  rr_insert :: "'r \<Rightarrow> nat \<Rightarrow> 'r option"
  rr_count :: "'r \<Rightarrow> nat"

text \<open>\<open>fits n r\<close>: the row can hold the indices below \<open>n\<close>.\<close>

locale row_relation =
  fixes rops :: "'r row_ops"
    and row_set :: "'r \<Rightarrow> nat set"
    and fits :: "nat \<Rightarrow> 'r \<Rightarrow> bool"
  assumes fits_capacity: "fits n (rr_with_capacity rops n)"
    and set_capacity: "row_set (rr_with_capacity rops n) = {}"
    and contains: "fits n r \<Longrightarrow> i < n \<Longrightarrow> rr_contains rops r i = Some (i \<in> row_set r)"
    and insert: "fits n r \<Longrightarrow> i < n \<Longrightarrow>
      \<exists>r'. rr_insert rops r i = Some r' \<and> fits n r' \<and> row_set r' = insert i (row_set r)"
    and count: "fits n r \<Longrightarrow> rr_count rops r = card (row_set r)"

subsection \<open>The two implementations\<close>

definition vec_row_ops :: "bool list row_ops" where
  "vec_row_ops =
     \<lparr>rr_new_empty = [],
      rr_with_capacity = (\<lambda>capacity. replicate capacity False),
      rr_contains = (\<lambda>r i. if i < length r then Some (r ! i) else None),
      rr_insert = (\<lambda>r i. if i < length r then Some (r[i := True]) else None),
      rr_count = (\<lambda>r. length (filter (\<lambda>n. n) r))\<rparr>"

definition bitvec_row_ops :: "bit_vec row_ops" where
  "bitvec_row_ops =
     \<lparr>rr_new_empty = bv_new_empty,
      rr_with_capacity = bv_with_capacity,
      rr_contains = (\<lambda>r i. Some (bv_contains r i)),
      rr_insert = (\<lambda>r i. Some (fst (bv_insert r i))),
      rr_count = bv_count\<rparr>"

interpretation vec_row: row_relation vec_row_ops "\<lambda>r. {i. i < length r \<and> r ! i}" "\<lambda>n r. n = length r"
  by unfold_locales (auto simp: vec_row_ops_def nth_list_update length_filter_conv_card)

interpretation bitvec_row: row_relation bitvec_row_ops bv_set "\<lambda>n r. True"
  by unfold_locales
    (simp_all add: bitvec_row_ops_def bv_set_with_capacity bv_contains_iff bv_insert_set bv_count_card
      del: mem_bv_set)

subsection \<open>The relation\<close>

record 'r reachability_relation =
  num_nodes :: nat
  relation_matrix :: "'r list"

definition relation_new :: "'r row_ops \<Rightarrow> nat \<Rightarrow> 'r reachability_relation" where
  "relation_new rops n = \<lparr>num_nodes = n, relation_matrix = map (\<lambda>_. rr_with_capacity rops n) [0..<n]\<rparr>"

definition is_reachable :: "'r row_ops \<Rightarrow> 'r reachability_relation \<Rightarrow> nat \<Rightarrow> nat \<Rightarrow> bool option" where
  "is_reachable rops rel a b =
     (if num_nodes rel \<le> a \<or> num_nodes rel \<le> b then Some False
      else if a < length (relation_matrix rel) then rr_contains rops (relation_matrix rel ! a) b
      else None)"

definition add_reachable ::
    "'r row_ops \<Rightarrow> 'r reachability_relation \<Rightarrow> nat \<Rightarrow> nat \<Rightarrow> 'r reachability_relation option" where
  "add_reachable rops rel a b =
     (if num_nodes rel \<le> a \<or> num_nodes rel \<le> b then None
      else if a < length (relation_matrix rel) then do {
        row \<leftarrow> rr_insert rops (relation_matrix rel ! a) b;
        Some (rel\<lparr>relation_matrix := (relation_matrix rel)[a := row]\<rparr>)
      }
      else None)"

definition num_reach_relations :: "'r row_ops \<Rightarrow> 'r reachability_relation \<Rightarrow> nat" where
  "num_reach_relations rops rel = sum_list (map (rr_count rops) (relation_matrix rel))"

subsection \<open>The searches\<close>

text \<open>\<open>compute_func_reach_relations_\<close>, which records in the relation itself\<close>

partial_function (option) reach_loop ::
    "('g, 'n, 'e) graph_ops \<Rightarrow> 'r row_ops \<Rightarrow> 'g \<Rightarrow> nat \<Rightarrow> nat list \<Rightarrow> 'r reachability_relation \<Rightarrow>
     'r reachability_relation option" where
  "reach_loop gops rops g func worklist rel =
     (if worklist = [] then Some rel
      else do {
        let reach_node = last worklist;
        let worklist = butlast worklist;
        known \<leftarrow> is_reachable rops rel func reach_node;
        if known then reach_loop gops rops g func worklist rel
        else do {
          rel \<leftarrow> add_reachable rops rel func reach_node;
          reach_loop gops rops g func (worklist @ g_neighbors gops g reach_node) rel
        }
      })"

fun reach_all ::
    "('g, 'f cg_node, 's cg_edge) graph_ops \<Rightarrow> 'r row_ops \<Rightarrow> ('g, 'f, 's) call_graph \<Rightarrow> 'f list \<Rightarrow>
     'r reachability_relation \<Rightarrow> 'r reachability_relation option" where
  "reach_all gops rops cg [] rel = Some rel"
| "reach_all gops rops cg (func # funcs) rel = do {
     node \<leftarrow> func_nodes cg func;
     rel \<leftarrow> reach_loop gops rops (cg_graph cg) node (g_neighbors gops (cg_graph cg) node) rel;
     reach_all gops rops cg funcs rel
   }"

definition compute_func_reach_relations ::
    "('g, 'f cg_node, 's cg_edge) graph_ops \<Rightarrow> 'r row_ops \<Rightarrow> ('g, 'f, 's) call_graph \<Rightarrow> 'r reachability_relation option" where
  "compute_func_reach_relations gops rops cg =
     reach_all gops rops cg (reach_funcs cg) (relation_new rops (g_node_count gops (cg_graph cg)))"

text \<open>The task of one node in \<open>compute_func_reach_relations_mt\<close>, which fills a row of its own\<close>

partial_function (option) row_loop ::
    "('g, 'n, 'e) graph_ops \<Rightarrow> 'r row_ops \<Rightarrow> 'g \<Rightarrow> nat list \<Rightarrow> 'r \<Rightarrow> 'r option" where
  "row_loop gops rops g worklist row =
     (if worklist = [] then Some row
      else do {
        let reach_node = last worklist;
        let worklist = butlast worklist;
        known \<leftarrow> rr_contains rops row reach_node;
        if known then row_loop gops rops g worklist row
        else do {
          row \<leftarrow> rr_insert rops row reach_node;
          row_loop gops rops g (worklist @ g_neighbors gops g reach_node) row
        }
      })"

text \<open>
  The tasks write their rows into the matrix under a lock, in whatever order they finish:
  \<open>order\<close> is that order.
\<close>

fun run_tasks ::
    "('g, 'n, 'e) graph_ops \<Rightarrow> 'r row_ops \<Rightarrow> 'g \<Rightarrow> nat list \<Rightarrow> 'r list \<Rightarrow> 'r list option" where
  "run_tasks gops rops g [] matrix = Some matrix"
| "run_tasks gops rops g (node_index # order) matrix = do {
     row \<leftarrow> row_loop gops rops g (g_neighbors gops g node_index)
       (rr_with_capacity rops (g_node_count gops g));
     if node_index < length matrix then run_tasks gops rops g order (matrix[node_index := row]) else None
   }"

definition compute_func_reach_relations_mt ::
    "('g, 'f cg_node, 's cg_edge) graph_ops \<Rightarrow> 'r row_ops \<Rightarrow> nat list \<Rightarrow> ('g, 'f, 's) call_graph \<Rightarrow>
     'r reachability_relation option" where
  "compute_func_reach_relations_mt gops rops order cg = do {
     let node_count = g_node_count gops (cg_graph cg);
     matrix \<leftarrow> run_tasks gops rops (cg_graph cg) order (replicate node_count (rr_new_empty rops));
     Some \<lparr>num_nodes = node_count, relation_matrix = matrix\<rparr>
   }"

subsection \<open>The searches compute the transitive closure\<close>

locale graph_rows = graph_api gops g_ok + row_relation rops row_set fits
  for gops :: "('g, 'n, 'e) graph_ops" and g_ok :: "'g \<Rightarrow> bool"
    and rops :: "'r row_ops" and row_set :: "'r \<Rightarrow> nat set" and fits :: "nat \<Rightarrow> 'r \<Rightarrow> bool"
begin

text \<open>
  The invariant of the search from \<open>a\<close>: what is visited or waiting is reachable, and the
  successors of \<open>a\<close> and of visited nodes are visited or waiting.
\<close>

definition search_inv :: "'g \<Rightarrow> nat \<Rightarrow> nat list \<Rightarrow> nat set \<Rightarrow> bool" where
  "search_inv g a wl V \<longleftrightarrow>
     V \<union> set wl \<subseteq> (edge_rel g)\<^sup>+ `` {a} \<and> edge_rel g `` insert a V \<subseteq> V \<union> set wl"

lemma search_inv_start: "g_ok g \<Longrightarrow> search_inv g a (g_neighbors gops g a) {}"
  by (auto simp: search_inv_def neighbors_rel)

lemma search_inv_end:
  assumes "search_inv g a [] V"
  shows "V = (edge_rel g)\<^sup>+ `` {a}"
proof
  show "V \<subseteq> (edge_rel g)\<^sup>+ `` {a}" using assms by (auto simp: search_inv_def)
  have "b \<in> V" if "(a, b) \<in> (edge_rel g)\<^sup>+" for b
    using that by induction (use assms in \<open>auto simp: search_inv_def\<close>)
  then show "(edge_rel g)\<^sup>+ `` {a} \<subseteq> V" by auto
qed

lemma search_inv_known: "search_inv g a (wl @ [x]) V \<Longrightarrow> x \<in> V \<Longrightarrow> search_inv g a wl V"
  by (auto simp: search_inv_def)

lemma search_inv_new:
  assumes "g_ok g" "search_inv g a (wl @ [x]) V"
  shows "search_inv g a (wl @ g_neighbors gops g x) (insert x V)"
proof -
  have "(a, x) \<in> (edge_rel g)\<^sup>+" using assms(2) by (auto simp: search_inv_def)
  then have "(a, y) \<in> (edge_rel g)\<^sup>+" if "(x, y) \<in> edge_rel g" for y
    using that by (rule trancl_into_trancl)
  then show ?thesis using assms by (auto simp: search_inv_def neighbors_rel)
qed

lemma search_spec:
  assumes g: "g_ok g" and a: "a < g_node_count gops g"
  shows "fits (g_node_count gops g) row \<Longrightarrow> search_inv g a wl (row_set row) \<Longrightarrow>
    \<exists>row'. row_loop gops rops g wl row = Some row' \<and> fits (g_node_count gops g) row' \<and>
      row_set row' = (edge_rel g)\<^sup>+ `` {a} \<and>
      (\<forall>rel. num_nodes rel = g_node_count gops g \<and> length (relation_matrix rel) = g_node_count gops g \<and>
         relation_matrix rel ! a = row \<longrightarrow>
         reach_loop gops rops g a wl rel = Some (rel\<lparr>relation_matrix := (relation_matrix rel)[a := row']\<rparr>))"
proof (induction "(wl, row)" arbitrary: wl row rule: wf_induct_rule
    [OF wf_measures [of "[\<lambda>(wl, row). card ({..<g_node_count gops g} - row_set row), \<lambda>(wl, row). length wl]"]])
  case (1 wl row)
  let ?n = "g_node_count gops g"
  show ?case
  proof (cases wl rule: rev_cases)
    case Nil
    have "reach_loop gops rops g a [] rel = Some rel" for rel :: "'r reachability_relation"
      by (subst reach_loop.simps) simp
    moreover have "row_loop gops rops g [] row = Some row" by (subst row_loop.simps) simp
    ultimately show ?thesis
      using "1.prems" search_inv_end [of g a "row_set row"] by (auto simp: Nil list_update_id)
  next
    case (snoc wl' x)
    have x: "x < ?n"
      using "1.prems"(2) trancl_nodes [OF g] by (auto simp: snoc search_inv_def)
    have known: "rr_contains rops row x = Some (x \<in> row_set row)" by (rule contains [OF "1.prems"(1) x])
    have known': "is_reachable rops rel a x = Some (x \<in> row_set row)"
      if "num_nodes rel = ?n" "length (relation_matrix rel) = ?n" "relation_matrix rel ! a = row" for rel
      using that a x known by (simp add: is_reachable_def)
    show ?thesis
    proof (cases "x \<in> row_set row")
      case True
      have "row_loop gops rops g wl row = row_loop gops rops g wl' row"
        by (subst row_loop.simps) (simp add: snoc known True)
      moreover have "reach_loop gops rops g a wl rel = reach_loop gops rops g a wl' rel"
        if "num_nodes rel = ?n" "length (relation_matrix rel) = ?n" "relation_matrix rel ! a = row" for rel
        by (subst reach_loop.simps) (simp add: snoc known' [OF that] True)
      ultimately show ?thesis
        using "1.hyps" [of wl' row] "1.prems"(1) search_inv_known [OF "1.prems"(2) [unfolded snoc] True]
        by (simp add: snoc)
    next
      case False
      obtain row1 where row1: "rr_insert rops row x = Some row1" "fits ?n row1" "row_set row1 = insert x (row_set row)"
        using insert [OF "1.prems"(1) x] by blast
      let ?wl = "wl' @ g_neighbors gops g x"
      have "card ({..<?n} - row_set row1) < card ({..<?n} - row_set row)"
        using x False by (intro psubset_card_mono) (auto simp: row1)
      moreover have "search_inv g a ?wl (row_set row1)"
        using search_inv_new [OF g "1.prems"(2) [unfolded snoc]] by (simp add: row1)
      ultimately obtain row' where row': "row_loop gops rops g ?wl row1 = Some row'" "fits ?n row'"
        "row_set row' = (edge_rel g)\<^sup>+ `` {a}"
        "\<forall>rel. num_nodes rel = ?n \<and> length (relation_matrix rel) = ?n \<and> relation_matrix rel ! a = row1 \<longrightarrow>
           reach_loop gops rops g a ?wl rel = Some (rel\<lparr>relation_matrix := (relation_matrix rel)[a := row']\<rparr>)"
        using "1.hyps" [of ?wl row1] row1(2) by auto
      have "row_loop gops rops g wl row = Some row'"
        by (subst row_loop.simps) (simp add: snoc known False row1 row')
      moreover have "reach_loop gops rops g a wl rel = Some (rel\<lparr>relation_matrix := (relation_matrix rel)[a := row']\<rparr>)"
        if rel: "num_nodes rel = ?n" "length (relation_matrix rel) = ?n" "relation_matrix rel ! a = row" for rel
      proof -
        have "add_reachable rops rel a x = Some (rel\<lparr>relation_matrix := (relation_matrix rel)[a := row1]\<rparr>)"
          using rel a x row1(1) by (simp add: add_reachable_def)
        moreover have "reach_loop gops rops g a ?wl (rel\<lparr>relation_matrix := (relation_matrix rel)[a := row1]\<rparr>) =
            Some (rel\<lparr>relation_matrix := (relation_matrix rel)[a := row']\<rparr>)"
          using row'(4) rel a by simp
        ultimately show ?thesis
          by (subst reach_loop.simps) (simp add: snoc known' [OF rel] False)
      qed
      ultimately show ?thesis using row'(2,3) by blast
    qed
  qed
qed

lemma row_from_start:
  assumes "g_ok g" "a < g_node_count gops g"
  shows "\<exists>row. row_loop gops rops g (g_neighbors gops g a) (rr_with_capacity rops (g_node_count gops g)) = Some row \<and>
    fits (g_node_count gops g) row \<and> row_set row = (edge_rel g)\<^sup>+ `` {a} \<and>
    (\<forall>rel. num_nodes rel = g_node_count gops g \<and> length (relation_matrix rel) = g_node_count gops g \<and>
       relation_matrix rel ! a = rr_with_capacity rops (g_node_count gops g) \<longrightarrow>
       reach_loop gops rops g a (g_neighbors gops g a) rel =
         Some (rel\<lparr>relation_matrix := (relation_matrix rel)[a := row]\<rparr>))"
  using search_spec [OF assms fits_capacity, of "g_neighbors gops g a"] search_inv_start [OF assms(1)]
  by (simp add: set_capacity)

lemma run_tasks_spec:
  "g_ok g \<Longrightarrow> length matrix = g_node_count gops g \<Longrightarrow> set order \<subseteq> {..<g_node_count gops g} \<Longrightarrow>
     \<exists>matrix'. run_tasks gops rops g order matrix = Some matrix' \<and> length matrix' = length matrix \<and>
       (\<forall>a \<in> set order. fits (g_node_count gops g) (matrix' ! a) \<and> row_set (matrix' ! a) = (edge_rel g)\<^sup>+ `` {a}) \<and>
       (\<forall>a. a \<notin> set order \<longrightarrow> matrix' ! a = matrix ! a)"
proof (induction order arbitrary: matrix)
  case (Cons a order)
  then have a: "a < g_node_count gops g" by simp
  obtain row where row: "row_loop gops rops g (g_neighbors gops g a) (rr_with_capacity rops (g_node_count gops g)) = Some row"
    "fits (g_node_count gops g) row" "row_set row = (edge_rel g)\<^sup>+ `` {a}"
    using row_from_start [OF Cons.prems(1) a] by blast
  obtain matrix' where m: "run_tasks gops rops g order (matrix[a := row]) = Some matrix'"
    "length matrix' = length (matrix[a := row])"
    "\<forall>b \<in> set order. fits (g_node_count gops g) (matrix' ! b) \<and> row_set (matrix' ! b) = (edge_rel g)\<^sup>+ `` {b}"
    "\<forall>b. b \<notin> set order \<longrightarrow> matrix' ! b = matrix[a := row] ! b"
    using Cons.IH [of "matrix[a := row]"] Cons.prems by auto
  have "run_tasks gops rops g (a # order) matrix = Some matrix'"
    using row m a Cons.prems by simp
  moreover have "fits (g_node_count gops g) (matrix' ! a) \<and> row_set (matrix' ! a) = (edge_rel g)\<^sup>+ `` {a}"
    using m(3,4) row a Cons.prems(2) by (cases "a \<in> set order") auto
  ultimately show ?case using m by auto
qed simp

end

subsection \<open>Reachability of functions\<close>

text \<open>Function \<open>h\<close> is called by function \<open>f\<close>.\<close>

definition calls_rel :: "('g, 'f, 's) cg_ops \<Rightarrow> ('g, 'f, 's) call_graph \<Rightarrow> ('f \<times> 'f) set" where
  "calls_rel gops cg = {(f, h). \<exists>s. (s, f, h) \<in> cg_calls gops cg}"

locale cg_rows = call_graph_api gops g_ok + graph_rows gops g_ok rops row_set fits
  for gops :: "('g, 'f cg_node, 's cg_edge) graph_ops" and g_ok :: "'g \<Rightarrow> bool"
    and rops :: "'r row_ops" and row_set :: "'r \<Rightarrow> nat set" and fits :: "nat \<Rightarrow> 'r \<Rightarrow> bool"
begin

lemma cg_node_less: "cg_ok gops g_ok cg \<Longrightarrow> func_nodes cg f = Some a \<Longrightarrow> a < g_node_count gops (cg_graph cg)"
  using node_weight_dom [of "cg_graph cg" a] by (auto simp: cg_ok_def)

lemma cg_node_inj: "cg_ok gops g_ok cg \<Longrightarrow> func_nodes cg f = Some a \<Longrightarrow> func_nodes cg h = Some a \<Longrightarrow> f = h"
  by (simp add: cg_ok_def)

lemma cg_node_func: "cg_ok gops g_ok cg \<Longrightarrow> a < g_node_count gops (cg_graph cg) \<Longrightarrow> \<exists>f. func_nodes cg f = Some a"
  using node_weight_dom [of "cg_graph cg" a] by (auto simp: cg_ok_def) (metis cg_node.cases)

lemma edge_rel_calls:
  assumes ok: "cg_ok gops g_ok cg"
  shows "(a, b) \<in> edge_rel (cg_graph cg) \<longleftrightarrow>
    (\<exists>f h. func_nodes cg f = Some a \<and> func_nodes cg h = Some b \<and> (f, h) \<in> calls_rel gops cg)"
proof -
  have g: "g_ok (cg_graph cg)" using ok by (simp add: cg_ok_def)
  have weight: "\<exists>s. g_edge_weight gops (cg_graph cg) i = Some \<lparr>cge_callsite = s\<rparr>"
    if "g_edge_endpoints gops (cg_graph cg) i = Some p" for i p
    using edge_weight_dom [OF g, of i] that by (metis cg_edge.cases)
  have nodes: "func_nodes cg f = Some i \<longleftrightarrow> g_node_weight gops (cg_graph cg) i = Some \<lparr>cgn_func = f\<rparr>" for f i
    using ok by (simp add: cg_ok_def)
  show ?thesis
  proof
    assume "(a, b) \<in> edge_rel (cg_graph cg)"
    then obtain i where i: "g_edge_endpoints gops (cg_graph cg) i = Some (a, b)" by (auto simp: edge_rel_def)
    obtain f h where "func_nodes cg f = Some a" "func_nodes cg h = Some b"
      using endpoints_nodes [OF g i] cg_node_func [OF ok] by blast
    moreover obtain s where "g_edge_weight gops (cg_graph cg) i = Some \<lparr>cge_callsite = s\<rparr>" using weight [OF i] by blast
    ultimately have "(s, f, h) \<in> cg_calls gops cg" using i nodes unfolding cg_calls_def by blast
    with \<open>func_nodes cg f = Some a\<close> \<open>func_nodes cg h = Some b\<close>
    show "\<exists>f h. func_nodes cg f = Some a \<and> func_nodes cg h = Some b \<and> (f, h) \<in> calls_rel gops cg"
      unfolding calls_rel_def by blast
  next
    assume "\<exists>f h. func_nodes cg f = Some a \<and> func_nodes cg h = Some b \<and> (f, h) \<in> calls_rel gops cg"
    then obtain f h s where fh: "func_nodes cg f = Some a" "func_nodes cg h = Some b" "(s, f, h) \<in> cg_calls gops cg"
      unfolding calls_rel_def by blast
    then obtain e a' b' where "g_edge_endpoints gops (cg_graph cg) e = Some (a', b')"
      "func_nodes cg f = Some a'" "func_nodes cg h = Some b'"
      unfolding cg_calls_def mem_Collect_eq case_prod_conv nodes by blast
    with fh(1,2) show "(a, b) \<in> edge_rel (cg_graph cg)" by (auto simp: edge_rel_def)
  qed
qed

lemma trancl_calls:
  assumes ok: "cg_ok gops g_ok cg" and f: "func_nodes cg f = Some a"
  shows "(a, b) \<in> (edge_rel (cg_graph cg))\<^sup>+ \<longleftrightarrow> (\<exists>h. func_nodes cg h = Some b \<and> (f, h) \<in> (calls_rel gops cg)\<^sup>+)"
proof
  assume "(a, b) \<in> (edge_rel (cg_graph cg))\<^sup>+"
  then show "\<exists>h. func_nodes cg h = Some b \<and> (f, h) \<in> (calls_rel gops cg)\<^sup>+"
  proof induction
    case (base b)
    then show ?case using edge_rel_calls [OF ok] cg_node_inj [OF ok f] by blast
  next
    case (step b c)
    then obtain h where h: "func_nodes cg h = Some b" "(f, h) \<in> (calls_rel gops cg)\<^sup>+" by blast
    obtain h' k where hk: "func_nodes cg h' = Some b" "func_nodes cg k = Some c" "(h', k) \<in> calls_rel gops cg"
      using edge_rel_calls [OF ok, of b c] step(2) by blast
    have "h' = h" by (rule cg_node_inj [OF ok hk(1) h(1)])
    with h(2) hk(3) have "(f, k) \<in> (calls_rel gops cg)\<^sup>+" by (simp add: trancl_into_trancl)
    with hk(2) show ?case by blast
  qed
next
  assume "\<exists>h. func_nodes cg h = Some b \<and> (f, h) \<in> (calls_rel gops cg)\<^sup>+"
  then obtain h where h: "(f, h) \<in> (calls_rel gops cg)\<^sup>+" "func_nodes cg h = Some b" by blast
  have dom: "\<exists>a b. func_nodes cg f = Some a \<and> func_nodes cg h = Some b" if "(f, h) \<in> calls_rel gops cg" for f h
    using that ok by (auto simp: calls_rel_def cg_calls_def cg_ok_def)
  from h show "(a, b) \<in> (edge_rel (cg_graph cg))\<^sup>+"
  proof (induction arbitrary: b)
    case (base h)
    then show ?case using edge_rel_calls [OF ok] f by blast
  next
    case (step h k)
    obtain c where c: "func_nodes cg h = Some c" using dom [OF step(2)] by blast
    then have "(c, b) \<in> edge_rel (cg_graph cg)" using edge_rel_calls [OF ok] step(2,4) by blast
    then show ?case using step.IH [OF c] by (meson trancl_into_trancl)
  qed
qed

text \<open>A relation that is right for the functions of a list, and untouched for the others\<close>

lemma reach_all_spec:
  assumes ok: "cg_ok gops g_ok cg"
  shows "distinct fs \<Longrightarrow> set fs \<subseteq> dom (func_nodes cg) \<Longrightarrow>
    num_nodes rel = g_node_count gops (cg_graph cg) \<Longrightarrow> length (relation_matrix rel) = g_node_count gops (cg_graph cg) \<Longrightarrow>
    (\<forall>f \<in> set fs. \<forall>a. func_nodes cg f = Some a \<longrightarrow>
       relation_matrix rel ! a = rr_with_capacity rops (g_node_count gops (cg_graph cg))) \<Longrightarrow>
    \<exists>rel'. reach_all gops rops cg fs rel = Some rel' \<and> num_nodes rel' = num_nodes rel \<and>
      length (relation_matrix rel') = length (relation_matrix rel) \<and>
      (\<forall>f a. func_nodes cg f = Some a \<longrightarrow>
        (if f \<in> set fs then fits (num_nodes rel) (relation_matrix rel' ! a) \<and>
             row_set (relation_matrix rel' ! a) = (edge_rel (cg_graph cg))\<^sup>+ `` {a}
         else relation_matrix rel' ! a = relation_matrix rel ! a))"
proof (induction fs arbitrary: rel)
  case (Cons f fs)
  have g: "g_ok (cg_graph cg)" using ok by (simp add: cg_ok_def)
  obtain a where a: "func_nodes cg f = Some a" using Cons.prems(2) by auto
  note less = cg_node_less [OF ok a]
  let ?n = "g_node_count gops (cg_graph cg)"
  obtain row where row: "fits ?n row" "row_set row = (edge_rel (cg_graph cg))\<^sup>+ `` {a}"
    "reach_loop gops rops (cg_graph cg) a (g_neighbors gops (cg_graph cg) a) rel =
       Some (rel\<lparr>relation_matrix := (relation_matrix rel)[a := row]\<rparr>)"
    using row_from_start [OF g less] Cons.prems(3-5) a by auto
  let ?rel = "rel\<lparr>relation_matrix := (relation_matrix rel)[a := row]\<rparr>"
  have other: "b \<noteq> a" if "func_nodes cg h = Some b" "h \<noteq> f" for h b
    using cg_node_inj [OF ok a] that by blast
  have fresh: "\<forall>h \<in> set fs. \<forall>b. func_nodes cg h = Some b \<longrightarrow> relation_matrix ?rel ! b = rr_with_capacity rops ?n"
  proof (intro ballI allI impI)
    fix h b assume h: "h \<in> set fs" "func_nodes cg h = Some b"
    then have "h \<noteq> f" using Cons.prems(1) by auto
    then show "relation_matrix ?rel ! b = rr_with_capacity rops ?n"
      using Cons.prems(5) h other [OF h(2)] by simp
  qed
  have prems: "distinct fs" "set fs \<subseteq> dom (func_nodes cg)" "num_nodes ?rel = ?n" "length (relation_matrix ?rel) = ?n"
    using Cons.prems(1-4) by auto
  obtain rel' where rel': "reach_all gops rops cg fs ?rel = Some rel'" "num_nodes rel' = num_nodes ?rel"
    "length (relation_matrix rel') = length (relation_matrix ?rel)"
    "\<forall>h b. func_nodes cg h = Some b \<longrightarrow>
      (if h \<in> set fs then fits (num_nodes ?rel) (relation_matrix rel' ! b) \<and>
           row_set (relation_matrix rel' ! b) = (edge_rel (cg_graph cg))\<^sup>+ `` {b}
       else relation_matrix rel' ! b = relation_matrix ?rel ! b)"
    using Cons.IH [OF prems fresh] by blast
  have "if h \<in> set (f # fs) then fits (num_nodes rel) (relation_matrix rel' ! b) \<and>
           row_set (relation_matrix rel' ! b) = (edge_rel (cg_graph cg))\<^sup>+ `` {b}
       else relation_matrix rel' ! b = relation_matrix rel ! b" if "func_nodes cg h = Some b" for h b
  proof (cases "h = f")
    case True
    then show ?thesis using that a rel'(4) [rule_format, OF that] row(1,2) less Cons.prems(1,3,4) by auto
  next
    case False
    then show ?thesis using rel'(4) [rule_format, OF that] other [OF that] by (auto split: if_splits)
  qed
  then show ?case using rel'(1-3) row(3) a by auto
qed simp

text \<open>A relation is exact when it relates the functions as the transitive closure of calls does.\<close>

definition exact_relation :: "('g, 'f, 's) call_graph \<Rightarrow> 'r reachability_relation \<Rightarrow> bool" where
  "exact_relation cg rel \<longleftrightarrow>
     num_nodes rel = g_node_count gops (cg_graph cg) \<and> length (relation_matrix rel) = num_nodes rel \<and>
     (\<forall>a < num_nodes rel. fits (num_nodes rel) (relation_matrix rel ! a) \<and>
        row_set (relation_matrix rel ! a) = (edge_rel (cg_graph cg))\<^sup>+ `` {a})"

lemma exact_is_reachable:
  assumes "cg_ok gops g_ok cg" "exact_relation cg rel" "func_nodes cg f = Some a" "func_nodes cg h = Some b"
  shows "is_reachable rops rel a b = Some ((f, h) \<in> (calls_rel gops cg)\<^sup>+)"
proof -
  have "a < num_nodes rel" "b < num_nodes rel"
    using cg_node_less [OF assms(1)] assms(2-4) by (auto simp: exact_relation_def)
  moreover have "(a, b) \<in> (edge_rel (cg_graph cg))\<^sup>+ \<longleftrightarrow> (f, h) \<in> (calls_rel gops cg)\<^sup>+"
    using trancl_calls [OF assms(1,3)] assms(4) cg_node_inj [OF assms(1,4)] by blast
  moreover have "fits (num_nodes rel) (relation_matrix rel ! a)"
    "row_set (relation_matrix rel ! a) = (edge_rel (cg_graph cg))\<^sup>+ `` {a}" "length (relation_matrix rel) = num_nodes rel"
    using assms(2) \<open>a < num_nodes rel\<close> unfolding exact_relation_def by blast+
  ultimately show ?thesis
    using contains [of "num_nodes rel" "relation_matrix rel ! a" b] by (simp add: is_reachable_def)
qed

lemma sequential_exact:
  assumes ok: "cg_ok gops g_ok cg"
  shows "\<exists>rel. compute_func_reach_relations gops rops cg = Some rel \<and> exact_relation cg rel"
proof -
  let ?n = "g_node_count gops (cg_graph cg)"
  have fs: "distinct (reach_funcs cg)" "set (reach_funcs cg) = dom (func_nodes cg)" using ok by (auto simp: cg_ok_def)
  obtain rel where rel: "reach_all gops rops cg (reach_funcs cg) (relation_new rops ?n) = Some rel"
    "num_nodes rel = ?n" "length (relation_matrix rel) = ?n"
    "\<forall>f a. func_nodes cg f = Some a \<longrightarrow> fits ?n (relation_matrix rel ! a) \<and>
       row_set (relation_matrix rel ! a) = (edge_rel (cg_graph cg))\<^sup>+ `` {a}"
    using reach_all_spec [OF ok fs(1), of "relation_new rops ?n"] fs(2) cg_node_less [OF ok]
    by (auto simp: relation_new_def domIff)
  have "fits ?n (relation_matrix rel ! a) \<and> row_set (relation_matrix rel ! a) = (edge_rel (cg_graph cg))\<^sup>+ `` {a}"
    if "a < ?n" for a using rel(4) cg_node_func [OF ok that] by blast
  then show ?thesis using rel(1-3) by (simp add: compute_func_reach_relations_def exact_relation_def)
qed

lemma parallel_exact:
  assumes ok: "cg_ok gops g_ok cg" and order: "set order = {..<g_node_count gops (cg_graph cg)}"
  shows "\<exists>rel. compute_func_reach_relations_mt gops rops order cg = Some rel \<and> exact_relation cg rel"
proof -
  have "g_ok (cg_graph cg)" using ok by (simp add: cg_ok_def)
  from run_tasks_spec [OF this, of "replicate (g_node_count gops (cg_graph cg)) (rr_new_empty rops)" order] order
  show ?thesis by (auto simp: compute_func_reach_relations_mt_def exact_relation_def)
qed

end

interpretation list_vec: cg_rows list_graph_ops list_graph_ok vec_row_ops "\<lambda>r. {i. i < length r \<and> r ! i}" "\<lambda>n r. n = length r" ..

interpretation list_bitvec: cg_rows list_graph_ops list_graph_ok bitvec_row_ops bv_set "\<lambda>n r. True" ..

subsection \<open>Properties\<close>

text \<open>
  C26: the search from every function, in sequence or in parallel with the rows finished in any
  order, never panics and terminates, and both relate two functions of the call graph exactly
  when the second is called, directly or indirectly, by the first. The hypothesis on the
  graph is the documented behaviour of \<open>petgraph\<close>.
\<close>

theorem reachability_exact:
  fixes gops :: "('g, 'f, 's) cg_ops"
  assumes "graph_api gops g_ok" "cg_ok gops g_ok cg" "set order = {..<g_node_count gops (cg_graph cg)}"
    and "func_nodes cg f = Some a" "func_nodes cg h = Some b"
  shows "\<exists>rel rel'. compute_func_reach_relations gops vec_row_ops cg = Some rel \<and>
    compute_func_reach_relations_mt gops bitvec_row_ops order cg = Some rel' \<and>
    is_reachable vec_row_ops rel a b = Some ((f, h) \<in> (calls_rel gops cg)\<^sup>+) \<and>
    is_reachable bitvec_row_ops rel' a b = Some ((f, h) \<in> (calls_rel gops cg)\<^sup>+)"
proof -
  have vec: "cg_rows gops g_ok vec_row_ops (\<lambda>r. {i. i < length r \<and> r ! i}) (\<lambda>n r. n = length r)"
    and bv: "cg_rows gops g_ok bitvec_row_ops bv_set (\<lambda>n r. True)"
    using assms(1) vec_row.row_relation_axioms bitvec_row.row_relation_axioms
    by (simp_all add: cg_rows_def call_graph_api_def graph_rows_def)
  show ?thesis
    using cg_rows.sequential_exact [OF vec assms(2)] cg_rows.parallel_exact [OF bv assms(2,3)]
      cg_rows.exact_is_reachable [OF vec assms(2) _ assms(4,5)] cg_rows.exact_is_reachable [OF bv assms(2) _ assms(4,5)]
    by blast
qed

text \<open>A call graph with the calls \<open>0 \<rightarrow> 1 \<rightarrow> 2\<close> and \<open>2 \<rightarrow> 1\<close>.\<close>

definition sample_cg :: "((nat cg_node, nat cg_edge) list_graph, nat, nat) call_graph" where
  "sample_cg = (case cg_add_edges list_graph_ops (cg_new list_graph_ops) [(7, 0, 1), (8, 1, 2), (9, 2, 1)] of
     Some cg \<Rightarrow> cg | None \<Rightarrow> cg_new list_graph_ops)"

lemma sample_cg_ok:
  "cg_ok list_graph_ops list_graph_ok sample_cg" "func_nodes sample_cg 0 = Some 0" "func_nodes sample_cg 1 = Some 1"
  "func_nodes sample_cg 2 = Some 2" "g_node_count list_graph_ops (cg_graph sample_cg) = 3"
proof -
  obtain cg where cg: "cg_add_edges list_graph_ops (cg_new list_graph_ops) [(7 :: nat, 0 :: nat, 1), (8, 1, 2), (9, 2, 1)] = Some cg"
    "cg_ok list_graph_ops list_graph_ok cg"
    using list_cg.add_edges_spec [OF list_cg.cg_ok_new, of "[(7 :: nat, 0 :: nat, 1), (8, 1, 2), (9, 2, 1)]"] by blast
  then show "cg_ok list_graph_ops list_graph_ok sample_cg" by (simp add: sample_cg_def)
  show "func_nodes sample_cg 0 = Some 0" "func_nodes sample_cg 1 = Some 1" "func_nodes sample_cg 2 = Some 2"
    "g_node_count list_graph_ops (cg_graph sample_cg) = 3"
    by code_simp+
qed

theorem reachability_exact_witness:
  "\<exists>rel rel'. compute_func_reach_relations list_graph_ops vec_row_ops sample_cg = Some rel \<and>
    compute_func_reach_relations_mt list_graph_ops bitvec_row_ops [2, 0, 1] sample_cg = Some rel' \<and>
    is_reachable vec_row_ops rel 0 2 = is_reachable bitvec_row_ops rel' 0 2"
proof -
  have "set [2, 0, 1] = {..<g_node_count list_graph_ops (cg_graph sample_cg)}" by (auto simp: sample_cg_ok)
  from reachability_exact [OF list_graph.graph_api_axioms sample_cg_ok(1) this sample_cg_ok(2,4)] show ?thesis by auto
qed

end
