(* ===== verification/Interner.thy ===== *)
theory Interner
  imports Prelude
begin

section \<open>Interning\<close>

text \<open>
  Contexts, types and function references are all interned in the same way: a vector gives
  the value of an id, a map the id of a value, and an unknown value is pushed. The locale
  states what the users of such a table rely on; the table itself, a list with a map, is
  verified once here.
\<close>

locale interner =
  fixes empty :: 's
    and intern :: "'s \<Rightarrow> 'a \<Rightarrow> 's \<times> nat"
    and lookup :: "'s \<Rightarrow> nat \<Rightarrow> 'a option"
    and ok :: "'s \<Rightarrow> bool"
  assumes ok_empty: "ok empty"
    and lookup_empty: "lookup empty i = None"
    and intern_ok: "ok s \<Longrightarrow> intern s a = (s', i) \<Longrightarrow> ok s'"
    and intern_lookup: "ok s \<Longrightarrow> intern s a = (s', i) \<Longrightarrow> lookup s' i = Some a"
    and intern_mono: "ok s \<Longrightarrow> intern s a = (s', i) \<Longrightarrow> lookup s j = Some b \<Longrightarrow> lookup s' j = Some b"
    and intern_only: "ok s \<Longrightarrow> intern s a = (s', i) \<Longrightarrow> lookup s' j = Some b \<Longrightarrow> lookup s j = Some b \<or> b = a"
    and intern_known: "ok s \<Longrightarrow> lookup s i = Some a \<Longrightarrow> intern s a = (s, i)"
begin

text \<open>Ids and values are one to one.\<close>

lemma lookup_inj: "ok s \<Longrightarrow> lookup s i = Some a \<Longrightarrow> lookup s j = Some a \<Longrightarrow> i = j"
  using intern_known by (metis prod.inject)

lemma intern_same_iff:
  assumes "ok s" "intern s a = (s1, i)" "intern s1 b = (s2, j)"
  shows "i = j \<longleftrightarrow> a = b"
proof
  have s1: "ok s1" "lookup s1 i = Some a" using assms intern_ok intern_lookup by blast+
  then have s2: "lookup s2 i = Some a" "lookup s2 j = Some b"
    using assms(3) intern_mono intern_lookup by blast+
  show "a = b" if "i = j" using s2 that by simp
  show "i = j" if "a = b" using intern_known [OF s1] assms(3) that by simp
qed

fun intern_list :: "'s \<Rightarrow> 'a list \<Rightarrow> 's \<times> nat list" where
  "intern_list s [] = (s, [])"
| "intern_list s (a # as) = (let (s', i) = intern s a; (s'', is) = intern_list s' as in (s'', i # is))"

lemma intern_list_lookup:
  "ok s \<Longrightarrow> intern_list s as = (s', is) \<Longrightarrow>
     ok s' \<and> (\<forall>j b. lookup s j = Some b \<longrightarrow> lookup s' j = Some b) \<and> map (lookup s') is = map Some as"
proof (induction as arbitrary: s s' "is")
  case (Cons a as)
  obtain s1 i where i: "intern s a = (s1, i)" by fastforce
  obtain s2 js where js: "intern_list s1 as = (s2, js)" by fastforce
  have "ok s1" "lookup s1 i = Some a" using Cons.prems(1) i intern_ok intern_lookup by blast+
  with Cons.IH [OF _ js] intern_mono [OF Cons.prems(1) i] show ?case
    using Cons.prems(2) i js by auto
qed auto

end

subsection \<open>A vector with its index map\<close>

text \<open>
  The tables of the code are a vector of values and a map from values to indices; the map is
  the inverse of the vector.
\<close>

definition index_ok :: "'a list \<Rightarrow> ('a \<rightharpoonup> nat) \<Rightarrow> bool" where
  "index_ok xs m \<longleftrightarrow> (\<forall>a i. m a = Some i \<longleftrightarrow> i < length xs \<and> xs ! i = a)"

definition vec_get :: "'a list \<Rightarrow> nat \<Rightarrow> 'a option" where
  "vec_get xs i = (if i < length xs then Some (xs ! i) else None)"

lemma index_ok_empty: "index_ok [] Map.empty"
  by (simp add: index_ok_def)

lemma index_okD: "index_ok xs m \<Longrightarrow> m a = Some i \<longleftrightarrow> vec_get xs i = Some a"
  by (auto simp: index_ok_def vec_get_def)

lemma index_ok_push:
  assumes "index_ok xs m" "m a = None"
  shows "index_ok (xs @ [a]) (m(a \<mapsto> length xs))"
proof -
  have "xs ! i \<noteq> a" if "i < length xs" for i
    using assms that unfolding index_ok_def by (metis option.distinct(1))
  then show ?thesis using assms(1) by (auto simp: index_ok_def nth_append less_Suc_eq split: if_splits)
qed

lemma vec_get_push: "vec_get (xs @ [a]) i = (if i = length xs then Some a else vec_get xs i)"
  by (auto simp: vec_get_def nth_append)

text \<open>
  A table whose interning function looks a value up and pushes it when it is missing
  implements the interface.
\<close>

lemma vec_interner:
  assumes "vals e0 = []" "imap e0 = Map.empty"
    and intern: "\<And>s a. intern s a = (case imap s a of Some i \<Rightarrow> (s, i)
        | None \<Rightarrow> (mk s (vals s @ [a]) ((imap s)(a \<mapsto> length (vals s))), length (vals s)))"
    and mk: "\<And>s xs m. vals (mk s xs m) = xs" "\<And>s xs m. imap (mk s xs m) = m"
    and lookup: "\<And>s i. lookup s i = vec_get (vals s) i"
  shows "interner e0 intern lookup (\<lambda>s. index_ok (vals s) (imap s))"
proof
  show "index_ok (vals e0) (imap e0)" by (simp add: assms index_ok_empty)
  show "lookup e0 i = None" for i by (simp add: assms vec_get_def)
next
  fix s s' a b i j
  assume ok: "index_ok (vals s) (imap s)"
  show "intern s a = (s, i)" if "lookup s i = Some a"
    using ok that index_okD [OF ok, of a i] by (simp add: intern lookup)
  assume int: "intern s a = (s', i)"
  then have cases: "imap s a = Some i \<and> s' = s \<or> imap s a = None \<and> i = length (vals s) \<and>
      vals s' = vals s @ [a] \<and> imap s' = (imap s)(a \<mapsto> length (vals s))"
    by (auto simp: intern mk split: option.splits)
  then show "index_ok (vals s') (imap s')" using ok index_ok_push by fastforce
  show "lookup s' i = Some a"
    using cases index_okD [OF ok, of a i] by (auto simp: lookup vec_get_push)
  show "lookup s' j = Some b" if "lookup s j = Some b"
    using cases that vec_get_push [of "vals s" a j] by (auto simp: lookup vec_get_def split: if_splits)
  show "lookup s j = Some b \<or> b = a" if "lookup s' j = Some b"
    using cases that by (auto simp: lookup vec_get_push split: if_splits)
qed

end
