(* ===== verification/Contexts.thy ===== *)
theory Contexts
  imports Interner Call_Sites
begin

section \<open>Contexts (\<open>src/mir/context.rs\<close>)\<close>

text \<open>
  A context is a list of context elements, the most recent first, kept at most \<open>k\<close> long.
  The cache gives every context an id; it is an interning table.
\<close>

record 'e ctx =
  context_elems :: "'e list"

definition context_new_empty :: "'e ctx" where
  "context_new_empty = \<lparr>context_elems = []\<rparr>"

definition context_new :: "'e list \<Rightarrow> 'e ctx" where
  "context_new elems = \<lparr>context_elems = elems\<rparr>"

definition context_len :: "'e ctx \<Rightarrow> nat" where
  "context_len c = length (context_elems c)"

definition new_k_limited_context :: "'e ctx \<Rightarrow> 'e \<Rightarrow> nat \<Rightarrow> 'e ctx" where
  "new_k_limited_context old_ctx elem k =
     \<lparr>context_elems =
        (if 0 < k
         then elem # (if context_len old_ctx < k then context_elems old_ctx
                      else take (k - 1) (context_elems old_ctx))
         else [])\<rparr>"

definition k_limited_context :: "'e ctx \<Rightarrow> nat \<Rightarrow> 'e ctx" where
  "k_limited_context c k =
     (if context_len c \<le> k then c else \<lparr>context_elems = take k (context_elems c)\<rparr>)"

definition first_context_element :: "'e ctx \<Rightarrow> 'e option" where
  "first_context_element c = (case context_elems c of [] \<Rightarrow> None | e # _ \<Rightarrow> Some e)"

definition last_context_element :: "'e ctx \<Rightarrow> 'e option" where
  "last_context_element c = (if context_elems c = [] then None else Some (last (context_elems c)))"

lemma new_k_limited_take [simp]:
  "context_elems (new_k_limited_context c e k) = take k (e # context_elems c)"
  by (cases k) (auto simp: new_k_limited_context_def context_len_def)

lemma k_limited_take [simp]: "context_elems (k_limited_context c k) = take k (context_elems c)"
  by (auto simp: k_limited_context_def context_len_def)

subsection \<open>The context cache\<close>

record 'e context_cache =
  context_list :: "'e ctx list"
  context_to_index_map :: "'e ctx \<rightharpoonup> context_id"

definition context_cache_new :: "'e context_cache" where
  "context_cache_new = \<lparr>context_list = [], context_to_index_map = Map.empty\<rparr>"

definition get_context_id :: "'e context_cache \<Rightarrow> 'e ctx \<Rightarrow> 'e context_cache \<times> context_id" where
  "get_context_id cache context =
     (case context_to_index_map cache context of
        Some i \<Rightarrow> (cache, i)
      | None \<Rightarrow>
          let i = length (context_list cache)
          in (cache\<lparr>context_list := context_list cache @ [context],
                    context_to_index_map := (context_to_index_map cache)(context \<mapsto> i)\<rparr>, i))"

definition get_context :: "'e context_cache \<Rightarrow> context_id \<Rightarrow> 'e ctx option" where
  "get_context cache i = vec_get (context_list cache) i"

abbreviation cache_ok :: "'e context_cache \<Rightarrow> bool" where
  "cache_ok c \<equiv> index_ok (context_list c) (context_to_index_map c)"

interpretation cache: interner context_cache_new get_context_id get_context cache_ok
  by (rule vec_interner [where mk = "\<lambda>s xs m. s\<lparr>context_list := xs, context_to_index_map := m\<rparr>"])
    (simp_all add: context_cache_new_def get_context_id_def get_context_def Let_def split: option.split)

datatype hybrid_ctx_elem = CallSiteElem "func_id base_call_site" | ObjectElem path

section \<open>Context strategies (\<open>src/pta/strategies/context_strategy.rs\<close>)\<close>

text \<open>
  The trait \<open>ContextStrategy\<close> as a record of its operations over the state \<open>'s\<close> of a strategy.
  A missing context (\<open>unwrap\<close> of \<open>get_context\<close>) is a panic, \<open>None\<close>. The method
  \<open>with_stack_filter\<close> is modelled with the stack filter.
\<close>

record ('s, 'e) context_strategy =
  empty_context :: "'s \<Rightarrow> 'e ctx"
  get_empty_context_id :: "'s \<Rightarrow> 's \<times> context_id"
  strategy_context_id :: "'s \<Rightarrow> 'e ctx \<Rightarrow> 's \<times> context_id"
  get_context_by_id :: "'s \<Rightarrow> context_id \<Rightarrow> 'e ctx"
  new_instance_call_context :: "'s \<Rightarrow> cs_call_site \<Rightarrow> cs_path option \<Rightarrow> ('s \<times> context_id option) option"
  new_static_call_context :: "'s \<Rightarrow> cs_call_site \<Rightarrow> ('s \<times> context_id) option"

subsection \<open>The contract\<close>

text \<open>
  What the analysis relies on: ids that a strategy has handed out stay valid and keep their
  context, contexts are at most \<open>k\<close> long, and a call from a valid context (with a receiver
  in a valid context) never panics.
\<close>

locale context_strategy =
  fixes ops :: "('s, 'e) context_strategy"
    and ok :: "'s \<Rightarrow> bool"
    and valid :: "'s \<Rightarrow> context_id \<Rightarrow> bool"
    and limit :: nat
  assumes empty_context: "context_elems (empty_context ops s) = []"
    and empty_id: "ok s \<Longrightarrow> get_empty_context_id ops s = (s', i) \<Longrightarrow>
        ok s' \<and> valid s' i \<and> context_elems (get_context_by_id ops s' i) = [] \<and>
        (\<forall>j. valid s j \<longrightarrow> valid s' j \<and> get_context_by_id ops s' j = get_context_by_id ops s j)"
    and static_call: "ok s \<Longrightarrow> valid s (cid (call_func c)) \<Longrightarrow>
        \<exists>s' i. new_static_call_context ops s c = Some (s', i) \<and> ok s' \<and> valid s' i \<and>
          (\<forall>j. valid s j \<longrightarrow> valid s' j \<and> get_context_by_id ops s' j = get_context_by_id ops s j)"
    and instance_call: "ok s \<Longrightarrow> valid s (cid (call_func c)) \<Longrightarrow>
        (\<forall>r. recv = Some r \<longrightarrow> valid s (cs_cid r)) \<Longrightarrow>
        \<exists>s' r. new_instance_call_context ops s c recv = Some (s', r) \<and> ok s' \<and>
          (\<forall>i. r = Some i \<longrightarrow> valid s' i) \<and>
          (\<forall>j. valid s j \<longrightarrow> valid s' j \<and> get_context_by_id ops s' j = get_context_by_id ops s j)"
    and context_len: "ok s \<Longrightarrow> length (context_elems (get_context_by_id ops s i)) \<le> limit"

text \<open>
  A run of the analysis, as far as its strategy is concerned: calls from functions in contexts
  handed out before. The ids handed out so far are collected.
\<close>

datatype call_event =
    StaticCall cs_call_site
  | InstanceCall cs_call_site "cs_path option"

fun event_ids :: "call_event \<Rightarrow> context_id list" where
  "event_ids (StaticCall c) = [cid (call_func c)]"
| "event_ids (InstanceCall c recv) = cid (call_func c) # (case recv of None \<Rightarrow> [] | Some r \<Rightarrow> [cs_cid r])"

fun run_calls ::
    "('s, 'e) context_strategy \<Rightarrow> 's \<Rightarrow> context_id list \<Rightarrow> call_event list \<Rightarrow> ('s \<times> context_id list) option" where
  "run_calls ops s ids [] = Some (s, ids)"
| "run_calls ops s ids (e # es) =
     (if \<not> set (event_ids e) \<subseteq> set ids then Some (s, ids)
      else case e of
        StaticCall c \<Rightarrow> do {
          (s', i) \<leftarrow> new_static_call_context ops s c;
          run_calls ops s' (i # ids) es
        }
      | InstanceCall c recv \<Rightarrow> do {
          (s', r) \<leftarrow> new_instance_call_context ops s c recv;
          run_calls ops s' (case r of None \<Rightarrow> ids | Some i \<Rightarrow> i # ids) es
        })"

context context_strategy
begin

lemma run_calls_ok:
  "ok s \<Longrightarrow> (\<forall>i \<in> set ids. valid s i) \<Longrightarrow>
     \<exists>s' ids'. run_calls ops s ids es = Some (s', ids') \<and> ok s' \<and> (\<forall>i \<in> set ids'. valid s' i) \<and>
       (\<forall>i. valid s i \<longrightarrow> valid s' i \<and> get_context_by_id ops s' i = get_context_by_id ops s i)"
proof (induction es arbitrary: s ids)
  case (Cons e es)
  show ?case
  proof (cases "set (event_ids e) \<subseteq> set ids")
    case True
    then have valid: "\<forall>i \<in> set (event_ids e). valid s i" using Cons.prems(2) by blast
    obtain s1 ids1 where step: "run_calls ops s ids (e # es) = run_calls ops s1 ids1 es" "ok s1"
      "\<forall>i \<in> set ids1. valid s1 i"
      "\<forall>j. valid s j \<longrightarrow> valid s1 j \<and> get_context_by_id ops s1 j = get_context_by_id ops s j"
    proof (cases e)
      case (StaticCall c)
      then obtain s1 i where "new_static_call_context ops s c = Some (s1, i)" "ok s1" "valid s1 i"
        "\<forall>j. valid s j \<longrightarrow> valid s1 j \<and> get_context_by_id ops s1 j = get_context_by_id ops s j"
        using static_call [OF Cons.prems(1), of c] valid by auto
      then show ?thesis using that [of s1 "i # ids"] True StaticCall Cons.prems(2) by auto
    next
      case (InstanceCall c recv)
      then obtain s1 r where "new_instance_call_context ops s c recv = Some (s1, r)" "ok s1"
        "\<forall>i. r = Some i \<longrightarrow> valid s1 i"
        "\<forall>j. valid s j \<longrightarrow> valid s1 j \<and> get_context_by_id ops s1 j = get_context_by_id ops s j"
        using instance_call [OF Cons.prems(1), of c recv] valid by (auto split: option.splits)
      then show ?thesis
        using that [of s1 "case r of None \<Rightarrow> ids | Some i \<Rightarrow> i # ids"] True InstanceCall Cons.prems(2)
        by (auto split: option.splits)
    qed
    show ?thesis
      unfolding step(1) using Cons.IH [OF step(2,3)] step(4) by auto
  qed (use Cons.prems in auto)
qed auto

lemma analysis_calls:
  assumes "ok s" "get_empty_context_id ops s = (s0, i0)"
  shows "\<exists>s' ids. run_calls ops s0 [i0] es = Some (s', ids) \<and> ok s' \<and>
    (\<forall>i \<in> set ids. valid s' i \<and> length (context_elems (get_context_by_id ops s' i)) \<le> limit) \<and>
    context_elems (get_context_by_id ops s' i0) = []"
proof -
  have s0: "ok s0" "\<forall>i \<in> set [i0]. valid s0 i" "context_elems (get_context_by_id ops s0 i0) = []"
    using empty_id [OF assms] by auto
  show ?thesis using run_calls_ok [OF s0(1,2), of es] context_len s0(2,3) by auto
qed

end

subsection \<open>The strategies\<close>

datatype context_insensitive = ContextInsensitive

definition insensitive_ops :: "(context_insensitive, func_id base_call_site) context_strategy" where
  "insensitive_ops =
     \<lparr>empty_context = (\<lambda>s. context_new_empty),
      get_empty_context_id = (\<lambda>s. (s, 0)),
      strategy_context_id = (\<lambda>s c. (s, 0)),
      get_context_by_id = (\<lambda>s i. context_new_empty),
      new_instance_call_context = (\<lambda>s callsite receiver. Some (s, Some 0)),
      new_static_call_context = (\<lambda>s callsite. Some (s, 0))\<rparr>"

text \<open>\<open>get_context(id).unwrap_or(Context::new_empty())\<close>\<close>

definition context_or_empty :: "'e context_cache \<Rightarrow> context_id \<Rightarrow> 'e ctx" where
  "context_or_empty cache i = (case get_context cache i of Some c \<Rightarrow> c | None \<Rightarrow> context_new_empty)"

text \<open>
  The step the three other strategies share: the context of an id, which must exist, extended
  by an element.
\<close>

definition extend_context :: "'e context_cache \<Rightarrow> context_id \<Rightarrow> 'e \<Rightarrow> nat \<Rightarrow> ('e context_cache \<times> context_id) option" where
  "extend_context cache i elem k = do {
     old \<leftarrow> get_context cache i;
     Some (get_context_id cache (new_k_limited_context old elem k))
   }"

record k_call_site_sensitive =
  kcs_k :: nat
  kcs_ctx_cache :: "func_id base_call_site context_cache"

definition kcs_new :: "nat \<Rightarrow> k_call_site_sensitive" where
  "kcs_new k = \<lparr>kcs_k = k, kcs_ctx_cache = context_cache_new\<rparr>"

definition kcs_new_context :: "k_call_site_sensitive \<Rightarrow> cs_call_site \<Rightarrow> (k_call_site_sensitive \<times> context_id) option" where
  "kcs_new_context s callsite = do {
     (cache, i) \<leftarrow> extend_context (kcs_ctx_cache s) (cid (call_func callsite)) (base_from into_func_id callsite) (kcs_k s);
     Some (s\<lparr>kcs_ctx_cache := cache\<rparr>, i)
   }"

definition kcs_context_id ::
    "k_call_site_sensitive \<Rightarrow> func_id base_call_site ctx \<Rightarrow> k_call_site_sensitive \<times> context_id" where
  "kcs_context_id s c = (let (cache, i) = get_context_id (kcs_ctx_cache s) c in (s\<lparr>kcs_ctx_cache := cache\<rparr>, i))"

definition kcs_ops :: "(k_call_site_sensitive, func_id base_call_site) context_strategy" where
  "kcs_ops =
     \<lparr>empty_context = (\<lambda>s. context_new_empty),
      get_empty_context_id = (\<lambda>s. kcs_context_id s context_new_empty),
      strategy_context_id = kcs_context_id,
      get_context_by_id = (\<lambda>s i. context_or_empty (kcs_ctx_cache s) i),
      new_instance_call_context = (\<lambda>s callsite receiver.
        do { (s', i) \<leftarrow> kcs_new_context s callsite; Some (s', Some i) }),
      new_static_call_context = kcs_new_context\<rparr>"

record k_object_sensitive =
  kobj_k :: nat
  kobj_ctx_cache :: "path context_cache"

definition kobj_new :: "nat \<Rightarrow> k_object_sensitive" where
  "kobj_new k = \<lparr>kobj_k = k, kobj_ctx_cache = context_cache_new\<rparr>"

definition kobj_new_context :: "k_object_sensitive \<Rightarrow> cs_path \<Rightarrow> (k_object_sensitive \<times> context_id) option" where
  "kobj_new_context s receiver = do {
     (cache, i) \<leftarrow> extend_context (kobj_ctx_cache s) (cs_cid receiver) (cs_path receiver) (kobj_k s);
     Some (s\<lparr>kobj_ctx_cache := cache\<rparr>, i)
   }"

definition kobj_context_id :: "k_object_sensitive \<Rightarrow> path ctx \<Rightarrow> k_object_sensitive \<times> context_id" where
  "kobj_context_id s c = (let (cache, i) = get_context_id (kobj_ctx_cache s) c in (s\<lparr>kobj_ctx_cache := cache\<rparr>, i))"

definition kobj_ops :: "(k_object_sensitive, path) context_strategy" where
  "kobj_ops =
     \<lparr>empty_context = (\<lambda>s. context_new_empty),
      get_empty_context_id = (\<lambda>s. kobj_context_id s context_new_empty),
      strategy_context_id = kobj_context_id,
      get_context_by_id = (\<lambda>s i. context_or_empty (kobj_ctx_cache s) i),
      new_instance_call_context = (\<lambda>s callsite receiver.
        case receiver of
          Some p \<Rightarrow> do { (s', i) \<leftarrow> kobj_new_context s p; Some (s', Some i) }
        | None \<Rightarrow> Some (s, None)),
      new_static_call_context = (\<lambda>s callsite. Some (s, cid (call_func callsite)))\<rparr>"

record simple_hybrid =
  hyb_k :: nat
  hyb_ctx_cache :: "hybrid_ctx_elem context_cache"

definition hyb_new :: "nat \<Rightarrow> simple_hybrid" where
  "hyb_new k = \<lparr>hyb_k = k, hyb_ctx_cache = context_cache_new\<rparr>"

definition hyb_instance_call_context :: "simple_hybrid \<Rightarrow> cs_path \<Rightarrow> (simple_hybrid \<times> context_id) option" where
  "hyb_instance_call_context s receiver = do {
     (cache, i) \<leftarrow> extend_context (hyb_ctx_cache s) (cs_cid receiver) (ObjectElem (cs_path receiver)) (hyb_k s);
     Some (s\<lparr>hyb_ctx_cache := cache\<rparr>, i)
   }"

definition hyb_static_call_context :: "simple_hybrid \<Rightarrow> cs_call_site \<Rightarrow> (simple_hybrid \<times> context_id) option" where
  "hyb_static_call_context s callsite = do {
     (cache, i) \<leftarrow> extend_context (hyb_ctx_cache s) (cid (call_func callsite))
       (CallSiteElem (base_from into_func_id callsite)) (hyb_k s);
     Some (s\<lparr>hyb_ctx_cache := cache\<rparr>, i)
   }"

definition hyb_context_id :: "simple_hybrid \<Rightarrow> hybrid_ctx_elem ctx \<Rightarrow> simple_hybrid \<times> context_id" where
  "hyb_context_id s c = (let (cache, i) = get_context_id (hyb_ctx_cache s) c in (s\<lparr>hyb_ctx_cache := cache\<rparr>, i))"

definition hyb_ops :: "(simple_hybrid, hybrid_ctx_elem) context_strategy" where
  "hyb_ops =
     \<lparr>empty_context = (\<lambda>s. context_new_empty),
      get_empty_context_id = (\<lambda>s. hyb_context_id s context_new_empty),
      strategy_context_id = hyb_context_id,
      get_context_by_id = (\<lambda>s i. context_or_empty (hyb_ctx_cache s) i),
      new_instance_call_context = (\<lambda>s callsite receiver.
        case receiver of
          Some p \<Rightarrow> do { (s', i) \<leftarrow> hyb_instance_call_context s p; Some (s', Some i) }
        | None \<Rightarrow> Some (s, None)),
      new_static_call_context = hyb_static_call_context\<rparr>"

subsection \<open>They satisfy the contract\<close>

definition cache_inv :: "nat \<Rightarrow> 'e context_cache \<Rightarrow> bool" where
  "cache_inv k c \<longleftrightarrow> cache_ok c \<and> (\<forall>x \<in> set (context_list c). length (context_elems x) \<le> k)"

definition cache_valid :: "'e context_cache \<Rightarrow> context_id \<Rightarrow> bool" where
  "cache_valid c i \<longleftrightarrow> i < length (context_list c)"

lemma cache_inv_new: "cache_inv k context_cache_new"
  by (simp add: cache_inv_def context_cache_new_def index_ok_empty)

lemma cache_valid_get: "cache_valid c i \<longleftrightarrow> (\<exists>x. get_context c i = Some x)"
  by (simp add: cache_valid_def get_context_def vec_get_def)

lemma get_context_set: "get_context c i = Some x \<Longrightarrow> x \<in> set (context_list c)"
  by (auto simp: get_context_def vec_get_def split: if_splits)

lemma get_context_id_step:
  assumes inv: "cache_inv k c" and len: "length (context_elems x) \<le> k" and r: "get_context_id c x = (c', i)"
  shows "cache_inv k c' \<and> get_context c' i = Some x \<and> cache_valid c' i \<and>
    (\<forall>j. cache_valid c j \<longrightarrow> cache_valid c' j \<and> context_or_empty c' j = context_or_empty c j)"
proof -
  have ok: "cache_ok c" using inv by (simp add: cache_inv_def)
  have "set (context_list c') \<subseteq> insert x (set (context_list c))"
    using r by (auto simp: get_context_id_def Let_def split: option.splits)
  then have "\<forall>x \<in> set (context_list c'). length (context_elems x) \<le> k"
    using inv len by (auto simp: cache_inv_def)
  moreover have "get_context c' i = Some x" by (rule cache.intern_lookup [OF ok r])
  moreover have "cache_ok c'" by (rule cache.intern_ok [OF ok r])
  ultimately show ?thesis
    using cache.intern_mono [OF ok r] by (auto simp: cache_inv_def cache_valid_get context_or_empty_def)
qed

lemma extend_context_step:
  assumes inv: "cache_inv k c" and j: "cache_valid c j"
  shows "\<exists>c' i. extend_context c j e k = Some (c', i) \<and> cache_inv k c' \<and> cache_valid c' i \<and>
    context_elems (context_or_empty c' i) = take k (e # context_elems (context_or_empty c j)) \<and>
    (\<forall>j. cache_valid c j \<longrightarrow> cache_valid c' j \<and> context_or_empty c' j = context_or_empty c j)"
proof -
  obtain x where x: "get_context c j = Some x" using j by (auto simp: cache_valid_get)
  obtain c' i where r: "get_context_id c (new_k_limited_context x e k) = (c', i)" by fastforce
  show ?thesis
    using get_context_id_step [OF inv _ r] x r by (simp add: extend_context_def context_or_empty_def)
qed

lemma context_or_empty_len: "cache_inv k c \<Longrightarrow> length (context_elems (context_or_empty c i)) \<le> k"
  by (auto simp: context_or_empty_def context_new_empty_def cache_inv_def dest!: get_context_set split: option.splits)

lemma empty_context_step:
  assumes "cache_inv k c" "get_context_id c context_new_empty = (c', i)"
  shows "cache_inv k c' \<and> cache_valid c' i \<and> context_elems (context_or_empty c' i) = [] \<and>
    (\<forall>j. cache_valid c j \<longrightarrow> cache_valid c' j \<and> context_or_empty c' j = context_or_empty c j)"
  using get_context_id_step [OF assms(1) _ assms(2)] by (auto simp: context_or_empty_def context_new_empty_def)

lemmas strategy_steps = empty_context_step extend_context_step context_or_empty_len

interpretation insensitive: context_strategy insensitive_ops "\<lambda>s. True" "\<lambda>s i. i = 0" 0
  by unfold_locales (auto simp: insensitive_ops_def context_new_empty_def)

interpretation kcs: context_strategy kcs_ops "\<lambda>s. kcs_k s = k \<and> cache_inv k (kcs_ctx_cache s)"
    "\<lambda>s. cache_valid (kcs_ctx_cache s)" k for k
proof unfold_locales
  fix s s' :: k_call_site_sensitive and i j and c :: cs_call_site and recv :: "cs_path option"
  assume ok: "kcs_k s = k \<and> cache_inv k (kcs_ctx_cache s)"
  show "length (context_elems (get_context_by_id kcs_ops s i)) \<le> k"
    using context_or_empty_len [OF conjunct2 [OF ok]] by (simp add: kcs_ops_def)
  show "get_empty_context_id kcs_ops s = (s', i) \<Longrightarrow> (kcs_k s' = k \<and> cache_inv k (kcs_ctx_cache s')) \<and>
      cache_valid (kcs_ctx_cache s') i \<and> context_elems (get_context_by_id kcs_ops s' i) = [] \<and>
      (\<forall>j. cache_valid (kcs_ctx_cache s) j \<longrightarrow> cache_valid (kcs_ctx_cache s') j \<and>
        get_context_by_id kcs_ops s' j = get_context_by_id kcs_ops s j)"
    using ok empty_context_step [of k "kcs_ctx_cache s"]
    by (auto simp: kcs_ops_def kcs_context_id_def split: prod.splits)
  assume "cache_valid (kcs_ctx_cache s) (cid (call_func c))"
  from extend_context_step [OF conjunct2 [OF ok] this, of "base_from into_func_id c"]
  show "\<exists>s' i. new_static_call_context kcs_ops s c = Some (s', i) \<and> (kcs_k s' = k \<and> cache_inv k (kcs_ctx_cache s')) \<and>
      cache_valid (kcs_ctx_cache s') i \<and>
      (\<forall>j. cache_valid (kcs_ctx_cache s) j \<longrightarrow> cache_valid (kcs_ctx_cache s') j \<and>
        get_context_by_id kcs_ops s' j = get_context_by_id kcs_ops s j)"
    and "\<exists>s' r. new_instance_call_context kcs_ops s c recv = Some (s', r) \<and>
      (kcs_k s' = k \<and> cache_inv k (kcs_ctx_cache s')) \<and> (\<forall>i. r = Some i \<longrightarrow> cache_valid (kcs_ctx_cache s') i) \<and>
      (\<forall>j. cache_valid (kcs_ctx_cache s) j \<longrightarrow> cache_valid (kcs_ctx_cache s') j \<and>
        get_context_by_id kcs_ops s' j = get_context_by_id kcs_ops s j)"
    using ok by (auto simp: kcs_ops_def kcs_new_context_def)
qed (simp add: kcs_ops_def context_new_empty_def)

interpretation kobj: context_strategy kobj_ops "\<lambda>s. kobj_k s = k \<and> cache_inv k (kobj_ctx_cache s)"
    "\<lambda>s. cache_valid (kobj_ctx_cache s)" k for k
proof unfold_locales
  fix s s' :: k_object_sensitive and i j and c :: cs_call_site and recv :: "cs_path option"
  assume ok: "kobj_k s = k \<and> cache_inv k (kobj_ctx_cache s)"
  show "length (context_elems (get_context_by_id kobj_ops s i)) \<le> k"
    using context_or_empty_len [OF conjunct2 [OF ok]] by (simp add: kobj_ops_def)
  show "get_empty_context_id kobj_ops s = (s', i) \<Longrightarrow> (kobj_k s' = k \<and> cache_inv k (kobj_ctx_cache s')) \<and>
      cache_valid (kobj_ctx_cache s') i \<and> context_elems (get_context_by_id kobj_ops s' i) = [] \<and>
      (\<forall>j. cache_valid (kobj_ctx_cache s) j \<longrightarrow> cache_valid (kobj_ctx_cache s') j \<and>
        get_context_by_id kobj_ops s' j = get_context_by_id kobj_ops s j)"
    using ok empty_context_step [of k "kobj_ctx_cache s"]
    by (auto simp: kobj_ops_def kobj_context_id_def split: prod.splits)
  show "\<exists>s' r. new_instance_call_context kobj_ops s c recv = Some (s', r) \<and>
      (kobj_k s' = k \<and> cache_inv k (kobj_ctx_cache s')) \<and> (\<forall>i. r = Some i \<longrightarrow> cache_valid (kobj_ctx_cache s') i) \<and>
      (\<forall>j. cache_valid (kobj_ctx_cache s) j \<longrightarrow> cache_valid (kobj_ctx_cache s') j \<and>
        get_context_by_id kobj_ops s' j = get_context_by_id kobj_ops s j)"
    if recv: "\<forall>r. recv = Some r \<longrightarrow> cache_valid (kobj_ctx_cache s) (cs_cid r)"
  proof (cases recv)
    case (Some r)
    then have "cache_valid (kobj_ctx_cache s) (cs_cid r)" using recv by blast
    from extend_context_step [OF conjunct2 [OF ok] this, of "cs_path r"] show ?thesis
      using ok Some by (auto simp: kobj_ops_def kobj_new_context_def)
  qed (use ok in \<open>simp add: kobj_ops_def\<close>)
  assume "cache_valid (kobj_ctx_cache s) (cid (call_func c))"
  then show "\<exists>s' i. new_static_call_context kobj_ops s c = Some (s', i) \<and>
      (kobj_k s' = k \<and> cache_inv k (kobj_ctx_cache s')) \<and> cache_valid (kobj_ctx_cache s') i \<and>
      (\<forall>j. cache_valid (kobj_ctx_cache s) j \<longrightarrow> cache_valid (kobj_ctx_cache s') j \<and>
        get_context_by_id kobj_ops s' j = get_context_by_id kobj_ops s j)"
    using ok by (simp add: kobj_ops_def)
qed (simp add: kobj_ops_def context_new_empty_def)

interpretation hyb: context_strategy hyb_ops "\<lambda>s. hyb_k s = k \<and> cache_inv k (hyb_ctx_cache s)"
    "\<lambda>s. cache_valid (hyb_ctx_cache s)" k for k
proof unfold_locales
  fix s s' :: simple_hybrid and i j and c :: cs_call_site and recv :: "cs_path option"
  assume ok: "hyb_k s = k \<and> cache_inv k (hyb_ctx_cache s)"
  show "length (context_elems (get_context_by_id hyb_ops s i)) \<le> k"
    using context_or_empty_len [OF conjunct2 [OF ok]] by (simp add: hyb_ops_def)
  show "get_empty_context_id hyb_ops s = (s', i) \<Longrightarrow> (hyb_k s' = k \<and> cache_inv k (hyb_ctx_cache s')) \<and>
      cache_valid (hyb_ctx_cache s') i \<and> context_elems (get_context_by_id hyb_ops s' i) = [] \<and>
      (\<forall>j. cache_valid (hyb_ctx_cache s) j \<longrightarrow> cache_valid (hyb_ctx_cache s') j \<and>
        get_context_by_id hyb_ops s' j = get_context_by_id hyb_ops s j)"
    using ok empty_context_step [of k "hyb_ctx_cache s"]
    by (auto simp: hyb_ops_def hyb_context_id_def split: prod.splits)
  show "\<exists>s' r. new_instance_call_context hyb_ops s c recv = Some (s', r) \<and>
      (hyb_k s' = k \<and> cache_inv k (hyb_ctx_cache s')) \<and> (\<forall>i. r = Some i \<longrightarrow> cache_valid (hyb_ctx_cache s') i) \<and>
      (\<forall>j. cache_valid (hyb_ctx_cache s) j \<longrightarrow> cache_valid (hyb_ctx_cache s') j \<and>
        get_context_by_id hyb_ops s' j = get_context_by_id hyb_ops s j)"
    if recv: "\<forall>r. recv = Some r \<longrightarrow> cache_valid (hyb_ctx_cache s) (cs_cid r)"
  proof (cases recv)
    case (Some r)
    then have "cache_valid (hyb_ctx_cache s) (cs_cid r)" using recv by blast
    from extend_context_step [OF conjunct2 [OF ok] this, of "ObjectElem (cs_path r)"] show ?thesis
      using ok Some by (auto simp: hyb_ops_def hyb_instance_call_context_def)
  qed (use ok in \<open>simp add: hyb_ops_def\<close>)
  assume "cache_valid (hyb_ctx_cache s) (cid (call_func c))"
  from extend_context_step [OF conjunct2 [OF ok] this, of "CallSiteElem (base_from into_func_id c)"]
  show "\<exists>s' i. new_static_call_context hyb_ops s c = Some (s', i) \<and>
      (hyb_k s' = k \<and> cache_inv k (hyb_ctx_cache s')) \<and> cache_valid (hyb_ctx_cache s') i \<and>
      (\<forall>j. cache_valid (hyb_ctx_cache s) j \<longrightarrow> cache_valid (hyb_ctx_cache s') j \<and>
        get_context_by_id hyb_ops s' j = get_context_by_id hyb_ops s j)"
    using ok by (auto simp: hyb_ops_def hyb_static_call_context_def)
qed (simp add: hyb_ops_def context_new_empty_def)

subsection \<open>Call strings\<close>

text \<open>
  A chain of calls: each call site is in the function that the previous call entered, in the
  context created for it.
\<close>

fun call_chain ::
    "k_call_site_sensitive \<Rightarrow> context_id \<Rightarrow> (func_id \<times> location) list \<Rightarrow> (k_call_site_sensitive \<times> context_id) option" where
  "call_chain s i [] = Some (s, i)"
| "call_chain s i ((f, l) # calls) = do {
     (s', j) \<leftarrow> new_static_call_context kcs_ops s
       (call_site_new (cs_func_id_new i f) l [] (new_cs_path i (ReturnValue f)));
     call_chain s' j calls
   }"

lemma call_chain_spec:
  assumes "kcs_k s = k" "cache_inv k (kcs_ctx_cache s)" "cache_valid (kcs_ctx_cache s) i"
    "context_elems (context_or_empty (kcs_ctx_cache s) i) = ctx"
  shows "\<exists>s' j. call_chain s i calls = Some (s', j) \<and> kcs_k s' = k \<and> cache_inv k (kcs_ctx_cache s') \<and>
    cache_valid (kcs_ctx_cache s') j \<and>
    context_elems (context_or_empty (kcs_ctx_cache s') j) = take k (rev (map (\<lambda>(f, l). base_call_site_new f l) calls) @ ctx) \<and>
    (\<forall>i. cache_valid (kcs_ctx_cache s) i \<longrightarrow> cache_valid (kcs_ctx_cache s') i \<and>
      context_or_empty (kcs_ctx_cache s') i = context_or_empty (kcs_ctx_cache s) i)"
  using assms
proof (induction calls arbitrary: s i ctx)
  case Nil
  then show ?case using context_or_empty_len [of k "kcs_ctx_cache s" i] by auto
next
  case (Cons c calls)
  obtain f l where c: "c = (f, l)" by (rule prod.exhaust)
  let ?e = "base_call_site_new f l"
  obtain cache j where ext: "extend_context (kcs_ctx_cache s) i ?e k = Some (cache, j)" "cache_inv k cache"
    "cache_valid cache j" "context_elems (context_or_empty cache j) = take k (?e # ctx)"
    "\<forall>i. cache_valid (kcs_ctx_cache s) i \<longrightarrow> cache_valid cache i \<and>
      context_or_empty cache i = context_or_empty (kcs_ctx_cache s) i"
    using extend_context_step [OF Cons.prems(2,3), of ?e] Cons.prems(4) by blast
  have step: "call_chain s i (c # calls) = call_chain (s\<lparr>kcs_ctx_cache := cache\<rparr>) j calls"
    using ext Cons.prems(1)
    by (simp add: c kcs_ops_def kcs_new_context_def call_site_new_def cs_func_id_new_def base_from_def
        into_func_id_def base_call_site_new_def)
  have "take k (xs @ take k ys) = take k (xs @ ys)" for xs ys :: "func_id base_call_site list"
    by (simp add: min_def)
  then show ?case
    unfolding step using Cons.IH [of "s\<lparr>kcs_ctx_cache := cache\<rparr>" j "take k (?e # ctx)"] ext Cons.prems(1) by (auto simp: c)
qed

lemma empty_context_id_new:
  assumes "get_context_id context_cache_new context_new_empty = (c, i)"
  shows "cache_inv k c \<and> cache_valid c i \<and> context_elems (context_or_empty c i) = []"
  using empty_context_step [OF cache_inv_new assms] by blast

subsection \<open>Properties\<close>

text \<open>
  C23: whatever calls an analysis makes, in whatever order, as long as callers and receivers
  are in contexts it was given before, the three context-sensitive strategies never panic
  (no context id is unknown) and all contexts they hand out have at most \<open>k\<close> elements; the
  context of an id never changes (here: that of the initial, empty context).
\<close>

theorem strategies_never_panic:
  "(let (s0, i0) = get_empty_context_id kcs_ops (kcs_new k) in
     \<exists>s ids. run_calls kcs_ops s0 [i0] es = Some (s, ids) \<and> context_elems (get_context_by_id kcs_ops s i0) = [] \<and>
       (\<forall>i \<in> set ids. length (context_elems (get_context_by_id kcs_ops s i)) \<le> k)) \<and>
   (let (s0, i0) = get_empty_context_id kobj_ops (kobj_new k) in
     \<exists>s ids. run_calls kobj_ops s0 [i0] es = Some (s, ids) \<and> context_elems (get_context_by_id kobj_ops s i0) = [] \<and>
       (\<forall>i \<in> set ids. length (context_elems (get_context_by_id kobj_ops s i)) \<le> k)) \<and>
   (let (s0, i0) = get_empty_context_id hyb_ops (hyb_new k) in
     \<exists>s ids. run_calls hyb_ops s0 [i0] es = Some (s, ids) \<and> context_elems (get_context_by_id hyb_ops s i0) = [] \<and>
       (\<forall>i \<in> set ids. length (context_elems (get_context_by_id hyb_ops s i)) \<le> k))"
proof -
  have "kcs_k (kcs_new k) = k \<and> cache_inv k (kcs_ctx_cache (kcs_new k))"
    "kobj_k (kobj_new k) = k \<and> cache_inv k (kobj_ctx_cache (kobj_new k))"
    "hyb_k (hyb_new k) = k \<and> cache_inv k (hyb_ctx_cache (hyb_new k))"
    by (simp_all add: kcs_new_def kobj_new_def hyb_new_def cache_inv_new)
  then show ?thesis
    using kcs.analysis_calls [OF _ prod.collapse [symmetric], of "kcs_new k" k es]
      kobj.analysis_calls [OF _ prod.collapse [symmetric], of "kobj_new k" k es]
      hyb.analysis_calls [OF _ prod.collapse [symmetric], of "hyb_new k" k es]
    unfolding split_beta Let_def by blast
qed

theorem strategies_never_panic_witness:
  "let (s0, i0) = get_empty_context_id kobj_ops (kobj_new 1) in
     \<exists>s ids. run_calls kobj_ops s0 [i0]
       [InstanceCall (call_site_new (cs_func_id_new 0 3) (0, 0) [] (new_cs_path 0 (LocalVariable 3 1)))
         (Some (new_cs_path 0 (HeapObj 3 (0, 1))))] = Some (s, ids) \<and>
       (\<forall>i \<in> set ids. length (context_elems (get_context_by_id kobj_ops s i)) \<le> 1)"
  using strategies_never_panic [of 1
      "[InstanceCall (call_site_new (cs_func_id_new 0 3) (0, 0) [] (new_cs_path 0 (LocalVariable 3 1)))
         (Some (new_cs_path 0 (HeapObj 3 (0, 1))))]"]
  unfolding split_beta Let_def by blast

text \<open>
  C24: with \<open>k\<close>-callsite sensitivity the context of a function entered through a chain of calls
  from the empty context is the list of the last \<open>k\<close> call sites, the most recent first, and two
  chains enter in the same context id exactly when their last \<open>k\<close> call sites agree.
\<close>

theorem k_callsite_call_string:
  "let (s0, i0) = get_empty_context_id kcs_ops (kcs_new k) in
     \<exists>s1 i s2 j. call_chain s0 i0 calls1 = Some (s1, i) \<and> call_chain s1 i0 calls2 = Some (s2, j) \<and>
       context_elems (get_context_by_id kcs_ops s1 i) = take k (rev (map (\<lambda>(f, l). base_call_site_new f l) calls1)) \<and>
       (i = j \<longleftrightarrow> take k (rev calls1) = take k (rev calls2))"
proof -
  let ?g = "\<lambda>(f, l). base_call_site_new f l"
  obtain s0 i0 where s0: "get_empty_context_id kcs_ops (kcs_new k) = (s0, i0)" by (rule prod.exhaust)
  have inv0: "kcs_k s0 = k" "cache_inv k (kcs_ctx_cache s0)" "cache_valid (kcs_ctx_cache s0) i0"
    "context_elems (context_or_empty (kcs_ctx_cache s0) i0) = []"
    using kcs.empty_id [OF _ s0, of k] by (auto simp: kcs_new_def cache_inv_new kcs_ops_def)
  obtain s1 i where s1: "call_chain s0 i0 calls1 = Some (s1, i)" "kcs_k s1 = k" "cache_inv k (kcs_ctx_cache s1)"
    "cache_valid (kcs_ctx_cache s1) i" "context_elems (context_or_empty (kcs_ctx_cache s1) i) = take k (rev (map ?g calls1))"
    "cache_valid (kcs_ctx_cache s1) i0" "context_elems (context_or_empty (kcs_ctx_cache s1) i0) = []"
    using call_chain_spec [OF inv0, of calls1] inv0 by auto
  obtain s2 j where s2: "call_chain s1 i0 calls2 = Some (s2, j)" "cache_inv k (kcs_ctx_cache s2)"
    "cache_valid (kcs_ctx_cache s2) j" "context_elems (context_or_empty (kcs_ctx_cache s2) j) = take k (rev (map ?g calls2))"
    "cache_valid (kcs_ctx_cache s2) i" "context_or_empty (kcs_ctx_cache s2) i = context_or_empty (kcs_ctx_cache s1) i"
    using call_chain_spec [OF s1(2,3,6,7), of calls2] s1(4) by auto
  have "i = j \<longleftrightarrow> context_or_empty (kcs_ctx_cache s2) i = context_or_empty (kcs_ctx_cache s2) j"
    using cache.lookup_inj [of "kcs_ctx_cache s2" i _ j] s2(2,3,5)
    by (auto simp: cache_inv_def cache_valid_get context_or_empty_def)
  also have "\<dots> \<longleftrightarrow> map ?g (take k (rev calls1)) = map ?g (take k (rev calls2))"
    using s1(5) s2(4,6) by (auto simp: rev_map take_map intro!: ctx.equality)
  also have "\<dots> \<longleftrightarrow> take k (rev calls1) = take k (rev calls2)"
    by (rule inj_map_eq_map) (auto simp: inj_def base_call_site_new_def)
  finally show ?thesis using s0 s1(1,5) s2(1) by (auto simp: kcs_ops_def)
qed

end
