(* ===== verification/Functions.thy ===== *)
theory Functions
  imports Interner Call_Sites
begin

section \<open>The table of functions (\<open>src/mir/function.rs\<close>, \<open>src/mir/analysis_context.rs\<close>)\<close>

text \<open>
  The part of \<open>AnalysisContext\<close> that gives every function instance its id and its printed
  name, and the printed form of a \<open>FunctionReference\<close>. What the compiler prints for a
  definition, a type or a constant is a record of parameters. A failing \<open>unwrap\<close> or slice is
  a panic, \<open>None\<close>.
\<close>

subsection \<open>Text\<close>

text \<open>\<open>str::find\<close>: the byte index of the first occurrence.\<close>

fun str_find :: "string \<Rightarrow> string \<Rightarrow> nat option" where
  "str_find pat [] = (if pat = [] then Some 0 else None)"
| "str_find pat (c # cs) =
     (if take (length pat) (c # cs) = pat then Some 0 else map_option Suc (str_find pat cs))"

text \<open>\<open>&s[a..b]\<close>\<close>

definition str_slice :: "string \<Rightarrow> nat \<Rightarrow> nat \<Rightarrow> string option" where
  "str_slice s a b = (if a \<le> b \<and> b \<le> length s then Some (take (b - a) (drop a s)) else None)"

fun str_join :: "string \<Rightarrow> string list \<Rightarrow> string" where
  "str_join sep [] = []"
| "str_join sep [s] = s"
| "str_join sep (s # t # ss) = s @ sep @ str_join sep (t # ss)"

fun decimal :: "nat \<Rightarrow> string" where
  "decimal n = (if n < 10 then [char_of (48 + n)] else decimal (n div 10) @ [char_of (48 + n mod 10)])"

declare decimal.simps [simp del]

subsection \<open>The printed form of a function reference\<close>

record ('ty, 'const) compiler_text =
  def_id_debug :: "def_id \<Rightarrow> string"
  ty_debug :: "'ty \<Rightarrow> string"
  const_scalar :: "'const \<Rightarrow> string option"

definition const_to_str :: "('ty, 'const) compiler_text \<Rightarrow> 'const \<Rightarrow> string" where
  "const_to_str tx c = (case const_scalar tx c of Some v \<Rightarrow> v | None \<Rightarrow> ''_'')"

fun generic_arg_text :: "('ty, 'const) compiler_text \<Rightarrow> ('ty, 'const) generic_arg_e \<Rightarrow> string option" where
  "generic_arg_text tx (TypeArg ty) = Some (ty_debug tx ty)"
| "generic_arg_text tx (ConstArg c) = Some (const_to_str tx c)"
| "generic_arg_text tx RegionArg = None"

definition generic_args_text :: "('ty, 'const) compiler_text \<Rightarrow> ('ty, 'const) generic_arg_e list \<Rightarrow> string" where
  "generic_args_text tx args =
     (if args \<noteq> [] then ''<'' @ str_join '', '' (List.map_filter (generic_arg_text tx) args) @ ''>'' else '''')"

definition fr_to_string :: "('ty, 'const) compiler_text \<Rightarrow> ('ty, 'const) function_reference \<Rightarrow> string option" where
  "fr_to_string tx f = do {
     let tmp1 = def_id_debug tx (fr_def_id f);
     tilde \<leftarrow> str_find ''~ '' tmp1;
     bracket \<leftarrow> str_find ''['' tmp1;
     crate_name \<leftarrow> str_slice tmp1 (tilde + 2) bracket;
     colons \<leftarrow> str_find ''::'' tmp1;
     tmp2 \<leftarrow> str_slice tmp1 (colons + 2) (length tmp1 - 1);
     let tmp3 = generic_args_text tx (fr_generic_args f);
     Some (case fr_promoted f of
             Some promoted \<Rightarrow> crate_name @ ''::'' @ tmp2 @ ''::promoted['' @ decimal promoted @ '']''
           | None \<Rightarrow> crate_name @ ''::'' @ tmp2 @ tmp3)
   }"

subsection \<open>The table\<close>

record ('ty, 'const) function_table =
  func_refs :: "('ty, 'const) function_reference list"
  func_id_map :: "('ty, 'const) function_reference \<rightharpoonup> func_id"
  func_name_cache :: "func_id \<rightharpoonup> string"

definition function_table_new :: "('ty, 'const) function_table" where
  "function_table_new = \<lparr>func_refs = [], func_id_map = Map.empty, func_name_cache = Map.empty\<rparr>"

definition get_or_add_function_reference ::
    "('ty, 'const) compiler_text \<Rightarrow> ('ty, 'const) function_table \<Rightarrow> ('ty, 'const) function_reference \<Rightarrow>
     (('ty, 'const) function_table \<times> func_id) option" where
  "get_or_add_function_reference tx t func_ref =
     (case func_id_map t func_ref of
        Some i \<Rightarrow> Some (t, i)
      | None \<Rightarrow> do {
          let i = length (func_refs t);
          name \<leftarrow> fr_to_string tx func_ref;
          Some (t\<lparr>func_refs := func_refs t @ [func_ref], func_name_cache := (func_name_cache t)(i \<mapsto> name),
                  func_id_map := (func_id_map t)(func_ref \<mapsto> i)\<rparr>, i)
        })"

definition get_function_reference :: "('ty, 'const) function_table \<Rightarrow> func_id \<Rightarrow> ('ty, 'const) function_reference option" where
  "get_function_reference t func_id = vec_get (func_refs t) func_id"

text \<open>
  \<open>customize_generic_args\<close>: a constant the compiler cannot evaluate becomes 1
  (\<open>from_target_usize\<close> and \<open>try_eval_target_usize\<close> are the compiler's).
\<close>

fun customize_generic_arg ::
    "('const \<Rightarrow> nat option) \<Rightarrow> (nat \<Rightarrow> 'const) \<Rightarrow> ('ty, 'const) generic_arg_kind \<Rightarrow> ('ty, 'const) generic_arg_e" where
  "customize_generic_arg try_eval from_usize (ConstKind c) =
     ConstArg (case try_eval c of Some val \<Rightarrow> from_usize val | None \<Rightarrow> from_usize 1)"
| "customize_generic_arg try_eval from_usize t = generic_arg_from t"

definition customize_generic_args ::
    "('const \<Rightarrow> nat option) \<Rightarrow> (nat \<Rightarrow> 'const) \<Rightarrow> ('ty, 'const) generic_arg_kind list \<Rightarrow> ('ty, 'const) generic_arg_e list" where
  "customize_generic_args try_eval from_usize = map (customize_generic_arg try_eval from_usize)"

definition get_func_id ::
    "('ty, 'const) compiler_text \<Rightarrow> ('const \<Rightarrow> nat option) \<Rightarrow> (nat \<Rightarrow> 'const) \<Rightarrow> ('ty, 'const) function_table \<Rightarrow>
     def_id \<Rightarrow> ('ty, 'const) generic_arg_kind list \<Rightarrow> (('ty, 'const) function_table \<times> func_id) option" where
  "get_func_id tx try_eval from_usize t d gen_args =
     get_or_add_function_reference tx t
       (new_function_reference d (customize_generic_args try_eval from_usize gen_args))"

definition get_promoted_id ::
    "('ty, 'const) compiler_text \<Rightarrow> ('ty, 'const) function_table \<Rightarrow> def_id \<Rightarrow> ('ty, 'const) generic_arg_e list \<Rightarrow>
     nat \<Rightarrow> (('ty, 'const) function_table \<times> func_id) option" where
  "get_promoted_id tx t d gen_args promoted =
     get_or_add_function_reference tx t (new_promoted_reference d gen_args promoted)"

subsection \<open>Finding the parts of a name\<close>

lemma str_find_char1:
  "c \<notin> set s \<Longrightarrow> str_find [c] (s @ c # t) = Some (length s)"
  by (induction s) auto

lemma str_find_char2:
  "c \<notin> set s \<Longrightarrow> str_find [c, d] (s @ c # d # t) = Some (length s)"
proof (induction s)
  case (Cons a s)
  then show ?case by (cases "s @ c # d # t") auto
qed auto

lemma str_slice_append: "s = x @ y @ z \<Longrightarrow> a = length x \<Longrightarrow> b = a + length y \<Longrightarrow> str_slice s a b = Some y"
  by (simp add: str_slice_def)

lemma str_find_skip:
  "c \<notin> set s \<Longrightarrow> d \<noteq> c \<Longrightarrow>
     str_find [c, c] (s @ c # d # t) = map_option (\<lambda>i. length s + 1 + i) (str_find [c, c] (d # t))"
proof (induction s)
  case Nil
  then show ?case by (cases t) (auto simp: option.map_comp comp_def)
next
  case (Cons a s)
  then show ?case by (cases "s @ c # d # t") (auto simp: option.map_comp comp_def)
qed

text \<open>
  The debug text of a definition is \<open>DefId(i:j ~ crate[hash]::path)\<close>.
\<close>

definition def_text :: "nat \<Rightarrow> nat \<Rightarrow> string \<Rightarrow> string \<Rightarrow> string \<Rightarrow> string" where
  "def_text i j crate_name hash path =
     ''DefId('' @ decimal i @ '':'' @ decimal j @ '' ~ '' @ crate_name @ ''['' @ hash @ '']::'' @ path @ '')''"

definition def_text_ok :: "string \<Rightarrow> string \<Rightarrow> bool" where
  "def_text_ok crate_name hash \<longleftrightarrow> set crate_name \<inter> set ''~[:'' = {} \<and> CHR '':'' \<notin> set hash"

lemma decimal_digits: "set (decimal n) \<subseteq> set ''0123456789'' \<and> decimal n \<noteq> []"
proof (induction n rule: decimal.induct)
  case (1 n)
  have digit: "char_of (48 + m) \<in> set ''0123456789''" if "m < 10" for m :: nat
  proof -
    have "\<forall>m \<in> set [0..<10]. char_of (48 + m :: nat) \<in> set ''0123456789''" by code_simp
    with that show ?thesis by simp
  qed
  show ?case
  proof (cases "n < 10")
    case True
    then show ?thesis using digit [OF True] by (subst (1 2) decimal.simps) simp
  next
    case False
    then show ?thesis using 1 digit [of "n mod 10"] by (subst (1 2) decimal.simps) simp
  qed
qed

lemma decimal_no_char [simp]: "c \<notin> set ''0123456789'' \<Longrightarrow> c \<notin> set (decimal n)"
  using decimal_digits by blast

lemma def_text_tilde:
  "str_find ''~ '' (def_text i j crate_name hash path) = Some (length (''DefId('' @ decimal i @ '':'' @ decimal j @ '' ''))"
  using str_find_char2 [of "CHR ''~''" "''DefId('' @ decimal i @ '':'' @ decimal j @ '' ''" "CHR '' ''"
      "crate_name @ ''['' @ hash @ '']::'' @ path @ '')''"]
  by (simp add: def_text_def)

lemma def_text_bracket:
  assumes "def_text_ok crate_name hash"
  shows "str_find ''['' (def_text i j crate_name hash path) =
    Some (length (''DefId('' @ decimal i @ '':'' @ decimal j @ '' '') + 2 + length crate_name)"
  using str_find_char1 [of "CHR ''[''" "''DefId('' @ decimal i @ '':'' @ decimal j @ '' ~ '' @ crate_name"
      "hash @ '']::'' @ path @ '')''"] assms
  by (simp add: def_text_def def_text_ok_def)

lemma def_text_colons:
  assumes "def_text_ok crate_name hash"
  shows "str_find ''::'' (def_text i j crate_name hash path) =
    Some (length (''DefId('' @ decimal i @ '':'' @ decimal j @ '' ~ '' @ crate_name @ ''['' @ hash @ '']''))"
proof -
  obtain d ds where dj: "decimal j = d # ds" using decimal_digits [of j] by (cases "decimal j") auto
  then have d: "d \<noteq> CHR '':''" using decimal_no_char [of "CHR '':''" j] by auto
  have skip: "str_find ''::'' (def_text i j crate_name hash path) =
      map_option (\<lambda>n. length (''DefId('' @ decimal i) + 1 + n)
        (str_find ''::'' (decimal j @ '' ~ '' @ crate_name @ ''['' @ hash @ '']::'' @ path @ '')''))"
    using str_find_skip [of "CHR '':''" "''DefId('' @ decimal i" d
        "ds @ '' ~ '' @ crate_name @ ''['' @ hash @ '']::'' @ path @ '')''"] d
    by (simp add: def_text_def dj del: str_find.simps)
  have "str_find ''::'' (decimal j @ '' ~ '' @ crate_name @ ''['' @ hash @ '']::'' @ path @ '')'') =
      Some (length (decimal j @ '' ~ '' @ crate_name @ ''['' @ hash @ '']''))"
    using str_find_char2 [of "CHR '':''" "decimal j @ '' ~ '' @ crate_name @ ''['' @ hash @ '']''" "CHR '':''" "path @ '')''"]
      assms
    by (simp add: def_text_ok_def)
  then show ?thesis by (simp add: skip)
qed

lemma def_text_to_string:
  assumes "def_id_debug tx (fr_def_id f) = def_text i j crate_name hash path" "def_text_ok crate_name hash"
  shows "fr_to_string tx f = Some (crate_name @ ''::'' @ path @
    (case fr_promoted f of Some n \<Rightarrow> ''::promoted['' @ decimal n @ '']'' | None \<Rightarrow> generic_args_text tx (fr_generic_args f)))"
proof -
  let ?s = "''DefId('' @ decimal i @ '':'' @ decimal j @ '' ''"
  let ?t = "?s @ ''~ '' @ crate_name @ ''['' @ hash @ '']''"
  have "str_slice (def_text i j crate_name hash path) (length ?s + 2) (length ?s + 2 + length crate_name) = Some crate_name"
    by (rule str_slice_append [where x = "?s @ ''~ ''" and z = "''['' @ hash @ '']::'' @ path @ '')''"])
      (simp_all add: def_text_def)
  moreover have "str_slice (def_text i j crate_name hash path) (length ?t + 2) (length (def_text i j crate_name hash path) - 1) = Some path"
    by (rule str_slice_append [where x = "?t @ ''::''" and z = "'')''"]) (simp_all add: def_text_def)
  ultimately show ?thesis
    using assms def_text_tilde def_text_bracket [OF assms(2)] def_text_colons [OF assms(2)]
    by (auto simp: fr_to_string_def Let_def split: option.split)
qed

subsection \<open>The table is an interning table\<close>

text \<open>
  The compiler prints every definition in the form above. Then no name fails to print, and the
  table with its two maps implements the interface of an interning table.
\<close>

definition text_ok :: "('ty, 'const) compiler_text \<Rightarrow> bool" where
  "text_ok tx \<longleftrightarrow> (\<forall>d. \<exists>i j crate_name hash path.
     def_id_debug tx d = def_text i j crate_name hash path \<and> def_text_ok crate_name hash)"

abbreviation table_ok :: "('ty, 'const) function_table \<Rightarrow> bool" where
  "table_ok t \<equiv> index_ok (func_refs t) (func_id_map t)"

text \<open>The table without its names.\<close>

definition intern_reference ::
    "('ty, 'const) function_table \<Rightarrow> ('ty, 'const) function_reference \<Rightarrow> ('ty, 'const) function_table \<times> func_id" where
  "intern_reference t f =
     (case func_id_map t f of
        Some i \<Rightarrow> (t, i)
      | None \<Rightarrow> (t\<lparr>func_refs := func_refs t @ [f], func_id_map := (func_id_map t)(f \<mapsto> length (func_refs t))\<rparr>,
                 length (func_refs t)))"

interpretation func_table: interner function_table_new intern_reference get_function_reference table_ok
  by (rule vec_interner [where mk = "\<lambda>t xs m. t\<lparr>func_refs := xs, func_id_map := m\<rparr>"])
    (simp_all add: function_table_new_def intern_reference_def get_function_reference_def split: option.split)

definition names_ok :: "('ty, 'const) compiler_text \<Rightarrow> ('ty, 'const) function_table \<Rightarrow> bool" where
  "names_ok tx t \<longleftrightarrow> (\<forall>i. func_name_cache t i = Option.bind (get_function_reference t i) (fr_to_string tx))"

lemma name_printed: "text_ok tx \<Longrightarrow> \<exists>name. fr_to_string tx f = Some name"
  using def_text_to_string [of tx f] unfolding text_ok_def by blast

lemma get_or_add_intern:
  assumes "text_ok tx" "table_ok t" "names_ok tx t"
  shows "\<exists>t' i. get_or_add_function_reference tx t f = Some (t', i) \<and> table_ok t' \<and> names_ok tx t' \<and>
    get_function_reference t' i = Some f \<and>
    (\<forall>j g. get_function_reference t j = Some g \<longrightarrow> get_function_reference t' j = Some g) \<and>
    (\<forall>j g. get_function_reference t' j = Some g \<longrightarrow> get_function_reference t j = Some g \<or> g = f)"
proof -
  obtain t1 i where t1: "intern_reference t f = (t1, i)" by fastforce
  obtain name where name: "fr_to_string tx f = Some name" using name_printed [OF assms(1)] by blast
  define t' where "t' = t1\<lparr>func_name_cache :=
      (if func_id_map t f = None then (func_name_cache t)(i \<mapsto> name) else func_name_cache t)\<rparr>"
  have get: "get_or_add_function_reference tx t f = Some (t', i)"
    using t1 name by (auto simp: get_or_add_function_reference_def intern_reference_def t'_def split: option.splits)
  have refs: "get_function_reference t' = get_function_reference t1" "table_ok t' = table_ok t1"
    by (auto simp: t'_def get_function_reference_def)
  have "names_ok tx t'"
  proof (cases "func_id_map t f")
    case None
    then have "t1 = t\<lparr>func_refs := func_refs t @ [f], func_id_map := (func_id_map t)(f \<mapsto> length (func_refs t))\<rparr>"
      "i = length (func_refs t)" using t1 by (auto simp: intern_reference_def)
    then show ?thesis
      using assms(3) None name by (auto simp: names_ok_def refs(1)) (auto simp: t'_def get_function_reference_def vec_get_push)
  next
    case (Some n)
    then have "t1 = t" using t1 by (simp add: intern_reference_def)
    then show ?thesis using assms(3) Some by (simp add: t'_def names_ok_def get_function_reference_def)
  qed
  then show ?thesis
    using get refs func_table.intern_ok [OF assms(2) t1] func_table.intern_lookup [OF assms(2) t1]
      func_table.intern_mono [OF assms(2) t1] func_table.intern_only [OF assms(2) t1] by auto
qed

lemma names_ok_new: "names_ok tx function_table_new" "table_ok function_table_new"
  by (simp_all add: names_ok_def function_table_new_def get_function_reference_def vec_get_def index_ok_empty)

lemma same_id:
  assumes "table_ok t" "get_function_reference t i = Some f" "get_function_reference t j = Some g"
  shows "i = j \<longleftrightarrow> f = g"
  using func_table.lookup_inj [OF assms(1)] assms(2,3) by auto

text \<open>A run of the table: the references of a list, added one after the other.\<close>

fun add_references ::
    "('ty, 'const) compiler_text \<Rightarrow> ('ty, 'const) function_table \<Rightarrow> ('ty, 'const) function_reference list \<Rightarrow>
     (('ty, 'const) function_table \<times> func_id list) option" where
  "add_references tx t [] = Some (t, [])"
| "add_references tx t (f # fs) = do {
     (t', i) \<leftarrow> get_or_add_function_reference tx t f;
     (t'', is) \<leftarrow> add_references tx t' fs;
     Some (t'', i # is)
   }"

lemma add_references_spec:
  assumes "text_ok tx" "table_ok t" "names_ok tx t"
  shows "\<exists>t' is. add_references tx t fs = Some (t', is) \<and> table_ok t' \<and> names_ok tx t' \<and>
    map (get_function_reference t') is = map Some fs \<and>
    (\<forall>j g. get_function_reference t j = Some g \<longrightarrow> get_function_reference t' j = Some g)"
  using assms(2,3)
proof (induction fs arbitrary: t)
  case (Cons f fs)
  obtain t1 i where t1: "get_or_add_function_reference tx t f = Some (t1, i)" "table_ok t1" "names_ok tx t1"
    "get_function_reference t1 i = Some f" "\<forall>j g. get_function_reference t j = Some g \<longrightarrow> get_function_reference t1 j = Some g"
    using get_or_add_intern [OF assms(1) Cons.prems] by blast
  with Cons.IH [OF t1(2,3)] show ?case by fastforce
qed auto

subsection \<open>Properties\<close>

text \<open>
  The printed name of a function instance is the crate, the path of the definition and its
  generic arguments (or the number of the promoted constant), for every definition that the
  compiler prints as \<open>DefId(i:j ~ crate[hash]::path)\<close>; the searches for the separators in
  that text find the intended ones and no slice panics.
\<close>

theorem function_name:
  assumes "def_id_debug tx (fr_def_id f) = def_text i j crate_name hash path" "def_text_ok crate_name hash"
  shows "fr_to_string tx f = Some (crate_name @ ''::'' @ path @
    (case fr_promoted f of Some n \<Rightarrow> ''::promoted['' @ decimal n @ '']'' | None \<Rightarrow> generic_args_text tx (fr_generic_args f)))"
  by (rule def_text_to_string [OF assms])

definition sample_text :: "(nat, nat) compiler_text" where
  "sample_text = \<lparr>def_id_debug = (\<lambda>d. def_text (fst d) (snd d) ''core'' ''ab12'' ''Foo::bar''), ty_debug = (\<lambda>t. ''i32''),
     const_scalar = (\<lambda>c. if c = 0 then None else Some (decimal c))\<rparr>"

theorem function_name_witness:
  "fr_to_string sample_text (new_function_reference (0, 17) [TypeArg 1, ConstArg 2]) = Some ''core::Foo::bar<i32, 2>''"
proof -
  have "fr_to_string sample_text (new_function_reference (0, 17) [TypeArg 1, ConstArg 2]) =
      Some (''core'' @ ''::'' @ ''Foo::bar'' @ generic_args_text sample_text [TypeArg 1, ConstArg 2])"
    using function_name [of sample_text "new_function_reference (0, 17) [TypeArg 1, ConstArg 2]" 0 17 "''core''" "''ab12''" "''Foo::bar''"]
    by (simp add: sample_text_def new_function_reference_def def_text_ok_def)
  also have "generic_args_text sample_text [TypeArg 1, ConstArg 2] = ''<i32, 2>''" by code_simp
  finally show ?thesis by simp
qed



end
