(* ===== verification/Pag_Path.thy ===== *)
theory Pag_Path
  imports Call_Sites
begin

section \<open>The interface of paths in the pointer graph (trait \<open>PAGPath\<close>, \<open>src/mir/path.rs\<close>)\<close>

text \<open>
  The graph and its solver are generic in the kind of their nodes: plain paths for Andersen's
  analysis, paths in a context for the context-sensitive one. This theory holds the methods of
  the trait that do not consult the compiler, their contract as a locale, and the two
  implementations; the type operations are added where the tables they use are modelled.
\<close>

record ('p, 'f) pag_path_ops =
  pp_new_parameter :: "'f \<Rightarrow> nat \<Rightarrow> 'p"
  pp_new_return_value :: "'f \<Rightarrow> 'p"
  pp_value :: "'p \<Rightarrow> path"
  pp_append_projection :: "'p \<Rightarrow> path_selector list \<Rightarrow> 'p option"
  pp_add_offset :: "'p \<Rightarrow> nat \<Rightarrow> 'p option"
  pp_dyn_ptr_metadata :: "'p \<Rightarrow> 'p option"
  pp_remove_cast :: "'p \<Rightarrow> 'p option"
  pp_containing_func :: "'p \<Rightarrow> 'f option"

locale pag_path =
  fixes pops :: "('p, 'f) pag_path_ops"
    and wf :: "'p \<Rightarrow> bool"
  assumes parameter: "wf (pp_new_parameter pops f n) \<and> pp_containing_func pops (pp_new_parameter pops f n) = Some f"
    and return_value: "wf (pp_new_return_value pops f) \<and> pp_containing_func pops (pp_new_return_value pops f) = Some f"
    and append_step: "wf p \<Longrightarrow> \<exists>q. pp_append_projection pops p es = Some q \<and> wf q \<and>
      pp_containing_func pops q = pp_containing_func pops p \<and>
      pp_append_projection pops q es' = pp_append_projection pops p (es @ es')"
    and append_inj: "wf p \<Longrightarrow> pp_append_projection pops p es = pp_append_projection pops p es' \<Longrightarrow> es = es'"
    and offset_step: "wf p \<Longrightarrow> pp_add_offset pops p n = Some q \<Longrightarrow>
      wf q \<and> pp_containing_func pops q = pp_containing_func pops p \<and> pp_add_offset pops q m = pp_add_offset pops p (n + m)"
    and metadata_offset: "pp_dyn_ptr_metadata pops p = pp_add_offset pops p PTR_METADATA_OFFSET"
    and remove_cast: "wf p \<Longrightarrow> pp_append_projection pops p [e] = Some q \<Longrightarrow>
      pp_remove_cast pops q = Some (if is_cast e then p else q)"
begin

text \<open>
  Clients project a node and go on projecting the result; the projections and offsets of a
  node stay in its function.
\<close>

lemma append_twice:
  assumes "wf p"
  shows "\<exists>q r. pp_append_projection pops p es = Some q \<and> pp_append_projection pops q es' = Some r \<and>
    pp_append_projection pops p (es @ es') = Some r \<and> wf r \<and> pp_containing_func pops r = pp_containing_func pops p"
proof -
  obtain q where q: "pp_append_projection pops p es = Some q" "wf q" "pp_containing_func pops q = pp_containing_func pops p"
    "pp_append_projection pops q es' = pp_append_projection pops p (es @ es')"
    using append_step [OF assms, of es es'] by blast
  obtain r where "pp_append_projection pops q es' = Some r" "wf r" "pp_containing_func pops r = pp_containing_func pops q"
    using append_step [OF q(2), of es'] by blast
  then show ?thesis using q by auto
qed

lemma append_Nil:
  assumes "wf p"
  shows "pp_append_projection pops p [] = Some p"
proof -
  obtain q where q: "pp_append_projection pops p [] = Some q" "wf q"
    "pp_append_projection pops q [Cast 0] = pp_append_projection pops p [Cast 0]"
    using append_step [OF assms, of "[]" "[Cast 0]"] by auto
  obtain r where r: "pp_append_projection pops p [Cast 0] = Some r" using append_step [OF assms, of "[Cast 0]" "[]"] by blast
  have "Some q = Some p" using remove_cast [OF q(2)] remove_cast [OF assms r] q(3) r by simp
  then show ?thesis using q(1) by simp
qed

end

subsection \<open>Plain paths\<close>

definition path_ops :: "(path, func_id) pag_path_ops" where
  "path_ops =
     \<lparr>pp_new_parameter = new_parameter,
      pp_new_return_value = new_return_value,
      pp_value = (\<lambda>p. p),
      pp_append_projection = append_projection,
      pp_add_offset = add_offset,
      pp_dyn_ptr_metadata = dyn_ptr_metadata,
      pp_remove_cast = remove_cast,
      pp_containing_func = get_containing_func\<rparr>"

interpretation plain_path: pag_path path_ops path_wf
proof
  fix p q :: path and es es' and n m and e f
  show "path_wf (pp_new_parameter path_ops f n) \<and> pp_containing_func path_ops (pp_new_parameter path_ops f n) = Some f"
    "path_wf (pp_new_return_value path_ops f) \<and> pp_containing_func path_ops (pp_new_return_value path_ops f) = Some f"
    "pp_dyn_ptr_metadata path_ops p = pp_add_offset path_ops p PTR_METADATA_OFFSET"
    by (simp_all add: path_ops_def new_parameter_def new_return_value_def dyn_ptr_metadata_def)
  assume p: "path_wf p"
  obtain r where r: "append_projection p es = Some r" "path_wf r" "path_split r = (fst (path_split p), snd (path_split p) @ es)"
    using append_projection_wf [OF p] by blast
  then show "\<exists>q. pp_append_projection path_ops p es = Some q \<and> path_wf q \<and>
      pp_containing_func path_ops q = pp_containing_func path_ops p \<and>
      pp_append_projection path_ops q es' = pp_append_projection path_ops p (es @ es')"
    using containing_func_split [of r] containing_func_split [of p]
    by (auto simp: path_ops_def append_projection_join p)
  show "es = es'" if "pp_append_projection path_ops p es = pp_append_projection path_ops p es'"
  proof -
    have "append_projection p es' = Some r" using that r(1) by (simp add: path_ops_def)
    then show ?thesis using append_projection_wf [OF p, of es'] r(3) by auto
  qed
  show "path_wf q \<and> pp_containing_func path_ops q = pp_containing_func path_ops p \<and>
      pp_add_offset path_ops q m = pp_add_offset path_ops p (n + m)" if "pp_add_offset path_ops p n = Some q"
    using that add_offset_wf [OF p] add_offset_add [OF p] by (simp add: path_ops_def)
  show "pp_remove_cast path_ops q = Some (if is_cast e then p else q)" if "pp_append_projection path_ops p [e] = Some q"
    using that remove_cast_append [OF p, of e q] by (simp add: path_ops_def append_projection_elem_eq)
qed

subsection \<open>Paths in a context\<close>

definition in_context :: "context_id \<Rightarrow> path option \<Rightarrow> cs_path option" where
  "in_context c p = map_option (new_cs_path c) p"

definition cs_containing_func :: "cs_path \<Rightarrow> cs_func_id option" where
  "cs_containing_func p =
     (case get_containing_func (cs_path p) of
        Some func_id \<Rightarrow> Some \<lparr>cid = cs_cid p, cs_func_id = func_id\<rparr>
      | None \<Rightarrow> None)"

definition cs_path_ops :: "(cs_path, cs_func_id) pag_path_ops" where
  "cs_path_ops =
     \<lparr>pp_new_parameter = (\<lambda>func ordinal. new_cs_path (cid func) (new_parameter (cs_func_id func) ordinal)),
      pp_new_return_value = (\<lambda>func. new_cs_path (cid func) (new_return_value (cs_func_id func))),
      pp_value = cs_path,
      pp_append_projection = (\<lambda>p elems. in_context (cs_cid p) (append_projection (cs_path p) elems)),
      pp_add_offset = (\<lambda>p offset. in_context (cs_cid p) (add_offset (cs_path p) offset)),
      pp_dyn_ptr_metadata = (\<lambda>p. in_context (cs_cid p) (dyn_ptr_metadata (cs_path p))),
      pp_remove_cast = (\<lambda>p. in_context (cs_cid p) (remove_cast (cs_path p))),
      pp_containing_func = cs_containing_func\<rparr>"

lemma cs_containing: "cs_containing_func p = map_option (cs_func_id_new (cs_cid p)) (get_containing_func (cs_path p))"
  by (simp add: cs_containing_func_def cs_func_id_new_def split: option.split)

interpretation context_path: pag_path cs_path_ops "\<lambda>p. path_wf (cs_path p)"
proof
  fix p q :: cs_path and es es' and n m and e f
  show "path_wf (cs_path (pp_new_parameter cs_path_ops f n)) \<and>
      pp_containing_func cs_path_ops (pp_new_parameter cs_path_ops f n) = Some f"
    "path_wf (cs_path (pp_new_return_value cs_path_ops f)) \<and>
      pp_containing_func cs_path_ops (pp_new_return_value cs_path_ops f) = Some f"
    "pp_dyn_ptr_metadata cs_path_ops p = pp_add_offset cs_path_ops p PTR_METADATA_OFFSET"
    by (simp_all add: cs_path_ops_def new_cs_path_def cs_containing cs_func_id_new_def new_parameter_def
        new_return_value_def dyn_ptr_metadata_def)
  assume "path_wf (cs_path p)"
  note p = this
  show "\<exists>q. pp_append_projection cs_path_ops p es = Some q \<and> path_wf (cs_path q) \<and>
      pp_containing_func cs_path_ops q = pp_containing_func cs_path_ops p \<and>
      pp_append_projection cs_path_ops q es' = pp_append_projection cs_path_ops p (es @ es')"
    using plain_path.append_step [OF p, of es es']
    by (auto simp: path_ops_def cs_path_ops_def in_context_def new_cs_path_def cs_containing)
  show "es = es'" if "pp_append_projection cs_path_ops p es = pp_append_projection cs_path_ops p es'"
    using that plain_path.append_inj [OF p, of es es'] plain_path.append_step [OF p, of es es']
      plain_path.append_step [OF p, of es' es]
    by (auto simp: path_ops_def cs_path_ops_def in_context_def new_cs_path_def)
  show "path_wf (cs_path q) \<and> pp_containing_func cs_path_ops q = pp_containing_func cs_path_ops p \<and>
      pp_add_offset cs_path_ops q m = pp_add_offset cs_path_ops p (n + m)" if "pp_add_offset cs_path_ops p n = Some q"
    using that plain_path.offset_step [OF p, of n _ m]
    by (auto simp: path_ops_def cs_path_ops_def in_context_def new_cs_path_def cs_containing)
  show "pp_remove_cast cs_path_ops q = Some (if is_cast e then p else q)" if "pp_append_projection cs_path_ops p [e] = Some q"
    using that plain_path.remove_cast [OF p, of e]
    by (auto simp: path_ops_def cs_path_ops_def in_context_def new_cs_path_def)
qed

end
