(* ===== verification/Stack_Filter.thy ===== *)
theory Stack_Filter
  imports Reachability Contexts Functions Pag_Path Points_To
begin

section \<open>Stack filtering (\<open>src/pta/strategies/stack_filtering.rs\<close>)\<close>

text \<open>
  A pointer in a function can only point to a stack object of a function that is on the call
  stack. The filter keeps a call graph of an earlier analysis with its reachability relation
  and answers whether an object of one function may be alive in another. The pointer to the
  context strategy is the argument \<open>kcs\<close> of the operations that read through it: the state the
  strategy has at that moment. The time the analysis took is left out.
\<close>

record ('g, 'f) stack_filter =
  sf_call_graph :: "('g, func_id, func_id base_call_site) call_graph"
  reach_relation :: "bit_vec reachability_relation"
  pag_edge_to_func :: "nat \<rightharpoonup> 'f"
  with_kcs_context :: bool
  collecting_filtered :: bool
  filtered_pts :: "nat \<rightharpoonup> hybrid_points_to_set"

type_synonym 'g fcg_ops = "('g, func_id, func_id base_call_site) cg_ops"

text \<open>\<open>order\<close> is the order in which the threads of the reachability analysis finish.\<close>

definition stack_filter_new ::
    "'g fcg_ops \<Rightarrow> nat list \<Rightarrow> ('g, func_id, func_id base_call_site) call_graph \<Rightarrow> ('g, 'f) stack_filter option" where
  "stack_filter_new gops order call_graph = do {
     relation \<leftarrow> compute_func_reach_relations_mt gops bitvec_row_ops order call_graph;
     Some \<lparr>sf_call_graph = call_graph, reach_relation = relation, pag_edge_to_func = Map.empty,
           with_kcs_context = False, collecting_filtered = False, filtered_pts = Map.empty\<rparr>
   }"

definition with_kcs_context_strategy :: "('g, 'f) stack_filter \<Rightarrow> ('g, 'f) stack_filter" where
  "with_kcs_context_strategy sf = sf\<lparr>with_kcs_context := True\<rparr>"

subsection \<open>The edges of functions and the filtered facts\<close>

definition get_filtered_pts_of_edge_mut :: "('g, 'f) stack_filter \<Rightarrow> nat \<Rightarrow> ('g, 'f) stack_filter \<times> hybrid_points_to_set" where
  "get_filtered_pts_of_edge_mut sf edge_id =
     (let pts = entry_or (filtered_pts sf) edge_id (pts_new node_pts_ops)
      in (sf\<lparr>filtered_pts := (filtered_pts sf)(edge_id \<mapsto> pts)\<rparr>, pts))"

definition add_filtered_pts :: "('g, 'f) stack_filter \<Rightarrow> nat \<Rightarrow> nat \<Rightarrow> ('g, 'f) stack_filter" where
  "add_filtered_pts sf edge_id filtered_pointee =
     sf\<lparr>filtered_pts := (filtered_pts sf)(edge_id \<mapsto>
          fst (pts_insert node_pts_ops (entry_or (filtered_pts sf) edge_id (pts_new node_pts_ops)) filtered_pointee))\<rparr>"

definition add_pag_edge_in_func :: "('g, 'f) stack_filter \<Rightarrow> nat \<Rightarrow> 'f \<Rightarrow> ('g, 'f) stack_filter" where
  "add_pag_edge_in_func sf edge_id func = sf\<lparr>pag_edge_to_func := (pag_edge_to_func sf)(edge_id \<mapsto> func)\<rparr>"

definition add_pag_edges_in_func :: "('g, 'f) stack_filter \<Rightarrow> nat list \<Rightarrow> 'f \<Rightarrow> ('g, 'f) stack_filter" where
  "add_pag_edges_in_func sf edges func = fold (\<lambda>edge sf. add_pag_edge_in_func sf edge func) edges sf"

definition get_container_func_of_edge :: "('g, 'f) stack_filter \<Rightarrow> nat \<Rightarrow> 'f option" where
  "get_container_func_of_edge sf edge_id = pag_edge_to_func sf edge_id"

definition collect_filtered_pts :: "('g, 'f) stack_filter \<Rightarrow> nat \<Rightarrow> nat \<Rightarrow> ('g, 'f) stack_filter" where
  "collect_filtered_pts sf edge_id filtered_pointee =
     (if collecting_filtered sf then add_filtered_pts sf edge_id filtered_pointee else sf)"

text \<open>What \<open>dump_stack_filter_stat\<close> prints, over the edges in the order of the map.\<close>

definition num_filtered_relations :: "('g, 'f) stack_filter \<Rightarrow> nat list \<Rightarrow> nat" where
  "num_filtered_relations sf edges = sum_list (map (\<lambda>e. pts_count node_pts_ops (entry_or (filtered_pts sf) e (pts_new node_pts_ops))) edges)"

subsection \<open>Reachability of functions\<close>

definition naive_reachability_relation ::
    "('f \<Rightarrow> func_id) \<Rightarrow> ('g, 'f) stack_filter \<Rightarrow> 'f \<Rightarrow> 'f \<Rightarrow> bool option" where
  "naive_reachability_relation into sf from to = do {
     from_id \<leftarrow> func_nodes (sf_call_graph sf) (into from);
     to_id \<leftarrow> func_nodes (sf_call_graph sf) (into to);
     if from_id = to_id then Some True
     else is_reachable bitvec_row_ops (reach_relation sf) from_id to_id
   }"

text \<open>The loop over \<open>i\<close> compares the last \<open>i\<close> elements of the first list with the first \<open>i\<close> of the second.\<close>

definition match_suffix_and_prefix :: "'e list \<Rightarrow> 'e list \<Rightarrow> bool" where
  "match_suffix_and_prefix v1 v2 =
     list_ex (\<lambda>i. list_all (\<lambda>(e1, e2). e1 = e2) (zip (drop (length v1 - i) v1) v2))
       [1..<min (length v1) (length v2) + 1]"

text \<open>\<open>SFReachable for FuncId\<close>; the receiver is the function to reach.\<close>

definition func_is_reachable_from :: "('g, func_id) stack_filter \<Rightarrow> func_id \<Rightarrow> func_id \<Rightarrow> bool option" where
  "func_is_reachable_from sf to from = naive_reachability_relation (\<lambda>f. f) sf from to"

text \<open>\<open>SFReachable for CSFuncId\<close>\<close>

definition cs_is_reachable_from ::
    "k_call_site_sensitive \<Rightarrow> ('g, cs_func_id) stack_filter \<Rightarrow> cs_func_id \<Rightarrow> cs_func_id \<Rightarrow> bool option" where
  "cs_is_reachable_from kcs sf to from =
     (if with_kcs_context sf then
        let from_ctxt = get_context_by_id kcs_ops kcs (cid from);
            to_ctxt = get_context_by_id kcs_ops kcs (cid to);
            from_call_chain = into_func_id from # map bcs_func (context_elems from_ctxt);
            to_call_chain = into_func_id to # map bcs_func (context_elems to_ctxt)
        in if 0 < context_len from_ctxt \<and> match_suffix_and_prefix to_call_chain from_call_chain then Some True
           else do {
             from_id \<leftarrow> func_nodes (sf_call_graph sf) (into_func_id from);
             to_id \<leftarrow> (case last_context_element to_ctxt of
                  Some last_callsite \<Rightarrow> func_nodes (sf_call_graph sf) (bcs_func last_callsite)
                | None \<Rightarrow> func_nodes (sf_call_graph sf) (into_func_id to));
             if from_id = to_id then Some True
             else is_reachable bitvec_row_ops (reach_relation sf) from_id to_id
           }
      else naive_reachability_relation into_func_id sf from to)"

text \<open>The default method \<open>is_reachable_to\<close> of the trait\<close>

definition sf_is_reachable_to :: "('f \<Rightarrow> 'f \<Rightarrow> bool option) \<Rightarrow> 'f \<Rightarrow> 'f \<Rightarrow> bool option" where
  "sf_is_reachable_to is_reachable_from self to = is_reachable_from to self"

subsection \<open>Objects that may be alive\<close>

fun is_heap_obj :: "path \<Rightarrow> bool" where
  "is_heap_obj (HeapObj _ _) = True"
| "is_heap_obj _ = False"

fun is_heap_path :: "path \<Rightarrow> bool" where
  "is_heap_path (HeapObj _ _) = True"
| "is_heap_path (QualifiedPath base _) = is_heap_obj base"
| "is_heap_path (OffsetPath base _) = is_heap_obj base"
| "is_heap_path _ = False"

text \<open>
  The function is generic in the kind of paths and functions: \<open>into\<close> and \<open>is_reachable_from\<close>
  are the trait methods of the functions, \<open>is_const\<close> is the compiler's answer to
  \<open>def_kind(d) = Const\<close>.
\<close>

definition is_potentially_alive ::
    "('p, 'f) pag_path_ops \<Rightarrow> ('f \<Rightarrow> func_id) \<Rightarrow> ('f \<Rightarrow> 'f \<Rightarrow> bool option) \<Rightarrow> ('ty, 'const) function_table \<Rightarrow>
     (def_id \<Rightarrow> bool) \<Rightarrow> 'f \<Rightarrow> 'p \<Rightarrow> bool option" where
  "is_potentially_alive pops into is_reachable_from table is_const current_func target_path =
     (if is_heap_path (pp_value pops target_path) then Some True
      else case pp_containing_func pops target_path of
        Some path_container_func \<Rightarrow>
          if path_container_func = current_func then Some True
          else do {
            func_ref \<leftarrow> get_function_reference table (into path_container_func);
            if fr_promoted func_ref \<noteq> None then Some True
            else if is_const (fr_def_id func_ref) then Some True
            else is_reachable_from current_func path_container_func
          }
      | None \<Rightarrow> Some True)"

subsection \<open>The contract of the reachability query\<close>

text \<open>
  What \<open>is_potentially_alive\<close> relies on: a relation \<open>above\<close> that says when a function may be
  below another on the call stack is never denied by the query.
\<close>

locale sf_reachable =
  fixes into :: "'f \<Rightarrow> func_id"
    and is_reachable_from :: "'f \<Rightarrow> 'f \<Rightarrow> bool option"
    and above :: "'f \<Rightarrow> 'f \<Rightarrow> bool"
  assumes reach_sound: "above from to \<Longrightarrow> is_reachable_from to from = Some True"
begin

lemma alive_sound:
  assumes "pp_containing_func pops p = Some f \<Longrightarrow> f = current \<or> above f current"
    and "pp_containing_func pops p = Some f \<Longrightarrow> get_function_reference table (into f) \<noteq> None"
    and "pp_containing_func pops p \<in> {None, Some f}"
  shows "is_potentially_alive pops into is_reachable_from table is_const current p = Some True"
  using assms reach_sound by (auto simp: is_potentially_alive_def)

end

subsection \<open>The query on functions without context\<close>

definition filter_ok :: "'g fcg_ops \<Rightarrow> ('g, 'f) stack_filter \<Rightarrow> bool" where
  "filter_ok gops sf \<longleftrightarrow>
     inj_on (func_nodes (sf_call_graph sf)) (dom (func_nodes (sf_call_graph sf))) \<and>
     (\<forall>f h a b. func_nodes (sf_call_graph sf) f = Some a \<longrightarrow> func_nodes (sf_call_graph sf) h = Some b \<longrightarrow>
        is_reachable bitvec_row_ops (reach_relation sf) a b = Some ((f, h) \<in> (calls_rel gops (sf_call_graph sf))\<^sup>+))"

lemma filter_ok_query:
  assumes "filter_ok gops sf" "func_nodes (sf_call_graph sf) f = Some a" "func_nodes (sf_call_graph sf) h = Some b"
  shows "(if a = b then Some True else is_reachable bitvec_row_ops (reach_relation sf) a b) =
    Some ((f, h) \<in> (calls_rel gops (sf_call_graph sf))\<^sup>*)"
proof -
  have "f \<in> dom (func_nodes (sf_call_graph sf))" "h \<in> dom (func_nodes (sf_call_graph sf))" using assms(2,3) by auto
  then have "a = b \<longleftrightarrow> f = h"
    using inj_on_eq_iff [of "func_nodes (sf_call_graph sf)" "dom (func_nodes (sf_call_graph sf))" f h] assms
    unfolding filter_ok_def by simp
  moreover have "is_reachable bitvec_row_ops (reach_relation sf) a b = Some ((f, h) \<in> (calls_rel gops (sf_call_graph sf))\<^sup>+)"
    using assms unfolding filter_ok_def by blast
  ultimately show ?thesis by (simp add: rtrancl_eq_or_trancl)
qed

lemma stack_filter_new_ok:
  assumes "graph_api gops g_ok" "cg_ok gops g_ok cg" "set order = {..<g_node_count gops (cg_graph cg)}"
  shows "\<exists>sf. stack_filter_new gops order cg = Some sf \<and> filter_ok gops sf \<and> sf_call_graph sf = cg \<and>
    \<not> with_kcs_context sf \<and> pag_edge_to_func sf = Map.empty \<and> filtered_pts sf = Map.empty"
proof -
  have bv: "cg_rows gops g_ok bitvec_row_ops bv_set (\<lambda>n r. True)"
    using assms(1) bitvec_row.row_relation_axioms by (simp_all add: cg_rows_def call_graph_api_def graph_rows_def)
  obtain rel where rel: "compute_func_reach_relations_mt gops bitvec_row_ops order cg = Some rel"
    "cg_rows.exact_relation gops bv_set (\<lambda>n r. True) cg rel"
    using cg_rows.parallel_exact [OF bv assms(2,3)] by blast
  have "inj_on (func_nodes cg) (dom (func_nodes cg))"
    using cg_rows.cg_node_inj [OF bv assms(2)] by (auto simp: inj_on_def)
  then show ?thesis
    using rel(1) cg_rows.exact_is_reachable [OF bv assms(2) rel(2)]
    by (simp add: stack_filter_new_def filter_ok_def)
qed

lemma naive_exact:
  assumes "filter_ok gops sf"
    and "into from \<in> dom (func_nodes (sf_call_graph sf))" "into to \<in> dom (func_nodes (sf_call_graph sf))"
  shows "naive_reachability_relation into sf from to = Some ((into from, into to) \<in> (calls_rel gops (sf_call_graph sf))\<^sup>*)"
  using assms(2,3) filter_ok_query [OF assms(1)] by (auto simp: naive_reachability_relation_def)

definition func_above :: "'g fcg_ops \<Rightarrow> ('g, func_id) stack_filter \<Rightarrow> func_id \<Rightarrow> func_id \<Rightarrow> bool" where
  "func_above gops sf from to \<longleftrightarrow> filter_ok gops sf \<and> from \<in> dom (func_nodes (sf_call_graph sf)) \<and>
     to \<in> dom (func_nodes (sf_call_graph sf)) \<and> (from, to) \<in> (calls_rel gops (sf_call_graph sf))\<^sup>*"

interpretation func_reach: sf_reachable "\<lambda>f. f" "func_is_reachable_from sf" "func_above gops sf" for gops sf
proof
  fix f h assume "func_above gops sf f h"
  then show "func_is_reachable_from sf h f = Some True"
    using naive_exact [of gops sf "\<lambda>f. f" f h] by (simp add: func_above_def func_is_reachable_from_def)
qed

subsection \<open>The query on functions in a context\<close>

lemma all_zip_eq: "list_all (\<lambda>(e1, e2). e1 = e2) (zip xs ys) \<longleftrightarrow> take (length ys) xs = take (length xs) ys"
  by (induction xs ys rule: list_induct2') auto

lemma match_iff:
  "match_suffix_and_prefix v1 v2 \<longleftrightarrow>
     (\<exists>i. 1 \<le> i \<and> i \<le> length v1 \<and> i \<le> length v2 \<and> drop (length v1 - i) v1 = take i v2)"
proof -
  have "take (length v2) (drop (length v1 - i) v1) = take (length (drop (length v1 - i) v1)) v2 \<longleftrightarrow>
      drop (length v1 - i) v1 = take i v2" if "i \<le> length v1" "i \<le> length v2" for i
    using that by simp
  then have "match_suffix_and_prefix v1 v2 \<longleftrightarrow>
      (\<exists>i \<in> {1..<min (length v1) (length v2) + 1}. drop (length v1 - i) v1 = take i v2)"
    unfolding match_suffix_and_prefix_def list_ex_iff all_zip_eq by (intro bex_cong) auto
  also have "\<dots> \<longleftrightarrow> (\<exists>i. 1 \<le> i \<and> i \<le> length v1 \<and> i \<le> length v2 \<and> drop (length v1 - i) v1 = take i v2)"
    by (auto simp: Bex_def less_Suc_eq_le)
  finally show ?thesis .
qed

text \<open>The chains of two frames of a stack \<open>xs @ f # bs\<close>, innermost first, kept to \<open>k + 1\<close> functions.\<close>

lemma match_chains:
  assumes "length xs \<le> k"
  shows "match_suffix_and_prefix (take (Suc k) (xs @ f # bs)) (take (Suc k) (f # bs))"
proof -
  let ?m = "Suc k - length xs"
  have "take (Suc k) (xs @ f # bs) = xs @ take ?m (f # bs)" using assms by simp
  moreover have "take (length (take ?m (f # bs))) (take (Suc k) (f # bs)) = take ?m (f # bs)"
    by (cases ?m) (auto simp: min_def)
  moreover have "1 \<le> length (take ?m (f # bs))" "length (take ?m (f # bs)) \<le> length (take (Suc k) (f # bs))"
    using assms by auto
  ultimately show ?thesis unfolding match_iff
    by (intro exI [of _ "length (take ?m (f # bs))"]) simp
qed

lemma last_chain:
  assumes "k < length xs \<or> take k bs = []"
  shows "last (take (Suc k) (xs @ f # bs)) \<in> set (f # xs)"
proof (cases "k < length xs")
  case True
  then have "last (take (Suc k) xs) \<in> set (take (Suc k) xs)" by (intro last_in_set) auto
  moreover have "take (Suc k) (xs @ f # bs) = take (Suc k) xs" using True by simp
  ultimately show ?thesis by (auto dest: in_set_takeD)
next
  case False
  with assms have bs: "k = 0 \<or> bs = []" "length xs \<le> k" by auto
  then have "take (Suc k - length xs) (f # bs) = [f]" by (cases k) (auto simp: Suc_diff_le)
  then have "take (Suc k) (xs @ f # bs) = xs @ [f]" using bs(2) by simp
  then show ?thesis by simp
qed

lemma successively_rtrancl:
  "successively (\<lambda>f h. (f, h) \<in> R) (f # fs) \<Longrightarrow> g \<in> set (f # fs) \<Longrightarrow> (f, g) \<in> R\<^sup>*"
proof (induction fs arbitrary: f)
  case (Cons h fs)
  show ?case
  proof (cases "g = f")
    case False
    then have "(h, g) \<in> R\<^sup>*" "(f, h) \<in> R" using Cons.IH [of h] Cons.prems by auto
    then show ?thesis by (meson converse_rtrancl_into_rtrancl)
  qed simp
qed auto

text \<open>
  A call stack of the program: \<open>calls\<close> are the calls that have not returned, outermost first,
  and \<open>h\<close> is the running function. \<open>call_context\<close> is the context of the frame that \<open>calls\<close>
  lead to under k-call-site sensitivity.
\<close>

definition call_stack :: "'g fcg_ops \<Rightarrow> ('g, func_id, func_id base_call_site) call_graph \<Rightarrow> (func_id \<times> location) list \<Rightarrow> func_id \<Rightarrow> bool" where
  "call_stack gops cg calls h \<longleftrightarrow>
     successively (\<lambda>f h. (f, h) \<in> calls_rel gops cg) (map fst calls @ [h]) \<and>
     set (map fst calls @ [h]) \<subseteq> dom (func_nodes cg)"

definition call_context :: "nat \<Rightarrow> (func_id \<times> location) list \<Rightarrow> func_id base_call_site list" where
  "call_context k calls = take k (rev (map (\<lambda>(f, l). base_call_site_new f l) calls))"

definition frame_func :: "(func_id \<times> location) list \<Rightarrow> func_id \<Rightarrow> func_id" where
  "frame_func calls2 h = hd (map fst calls2 @ [h])"

lemma chain_funcs: "map bcs_func (call_context k calls) = take k (rev (map fst calls))"
  by (simp add: call_context_def take_map rev_map base_call_site_new_def case_prod_unfold comp_def)

lemma chain_of:
  "h # map bcs_func (call_context k calls) = take (Suc k) (h # rev (map fst calls))"
  by (simp add: chain_funcs)

lemma frame_reachable:
  assumes ok: "filter_ok gops sf" "with_kcs_context sf"
    and stack: "call_stack gops (sf_call_graph sf) (calls1 @ calls2) h"
    and lower: "into_func_id from = frame_func calls2 h"
      "context_elems (get_context_by_id kcs_ops kcs (cid from)) = call_context k calls1"
    and upper: "into_func_id to = h"
      "context_elems (get_context_by_id kcs_ops kcs (cid to)) = call_context k (calls1 @ calls2)"
  shows "cs_is_reachable_from kcs sf to from = Some True"
proof -
  let ?cg = "sf_call_graph sf" and ?bs = "rev (map fst calls1)"
  define f where "f = frame_func calls2 h"
  define xs where "xs = butlast (h # rev (map fst calls2))"
  have "h # rev (map fst calls2) = xs @ [f]"
    unfolding xs_def f_def frame_func_def
    by (cases calls2) (simp_all add: butlast_append)
  then have full: "h # rev (map fst (calls1 @ calls2)) = xs @ f # ?bs" by simp
  have fs: "map fst calls2 @ [h] = f # rev xs"
    using \<open>h # rev (map fst calls2) = xs @ [f]\<close> by (metis rev.simps(2) rev_append rev_rev_ident rev_singleton_conv append_Cons append_Nil)
  have to_chain: "into_func_id to # map bcs_func (context_elems (get_context_by_id kcs_ops kcs (cid to))) =
      take (Suc k) (xs @ f # ?bs)"
    unfolding upper chain_of full by simp
  have from_chain: "into_func_id from # map bcs_func (context_elems (get_context_by_id kcs_ops kcs (cid from))) =
      take (Suc k) (f # ?bs)"
    unfolding lower chain_of f_def by simp
  show ?thesis
  proof (cases "context_elems (get_context_by_id kcs_ops kcs (cid from)) \<noteq> [] \<and> length xs \<le> k")
    case True
    then show ?thesis
      using match_chains [of xs k f ?bs] ok(2) unfolding cs_is_reachable_from_def Let_def to_chain from_chain
      by (simp add: context_len_def)
  next
    case False
    have take_k: "take k ?bs = map bcs_func (context_elems (get_context_by_id kcs_ops kcs (cid from)))"
      unfolding lower chain_funcs ..
    let ?g = "last (take (Suc k) (xs @ f # ?bs))"
    have g: "?g \<in> set (f # rev xs)" using last_chain [of k xs ?bs f] False take_k by auto
    have "successively (\<lambda>f h. (f, h) \<in> calls_rel gops ?cg) (f # rev xs)"
      using stack fs unfolding call_stack_def by (simp add: successively_append_iff)
    then have "(f, ?g) \<in> (calls_rel gops ?cg)\<^sup>*" using g by (rule successively_rtrancl)
    moreover have "set (f # rev xs) \<subseteq> dom (func_nodes ?cg)" using stack fs unfolding call_stack_def by auto
    then have "f \<in> dom (func_nodes ?cg)" "?g \<in> dom (func_nodes ?cg)" using g by (simp, blast)
    then obtain a b where ab: "func_nodes ?cg f = Some a" "func_nodes ?cg ?g = Some b" by blast
    ultimately have "(if a = b then Some True else is_reachable bitvec_row_ops (reach_relation sf) a b) = Some True"
      using filter_ok_query [OF ok(1) ab] by simp
    moreover have "(case last_context_element (get_context_by_id kcs_ops kcs (cid to)) of
        Some last_callsite \<Rightarrow> func_nodes ?cg (bcs_func last_callsite)
      | None \<Rightarrow> func_nodes ?cg (into_func_id to)) = Some b"
    proof -
      have "?g = last (into_func_id to # map bcs_func (context_elems (get_context_by_id kcs_ops kcs (cid to))))"
        unfolding to_chain ..
      then show ?thesis using ab(2) by (simp add: last_context_element_def last_map split: if_splits)
    qed
    moreover have "func_nodes ?cg (into_func_id from) = Some a" using ab(1) lower(1) f_def by simp
    ultimately show ?thesis using ok(2) by (simp add: cs_is_reachable_from_def Let_def)
  qed
qed

definition frame_above :: "'g fcg_ops \<Rightarrow> k_call_site_sensitive \<Rightarrow> ('g, cs_func_id) stack_filter \<Rightarrow> cs_func_id \<Rightarrow> cs_func_id \<Rightarrow> bool" where
  "frame_above gops kcs sf from to \<longleftrightarrow> filter_ok gops sf \<and> with_kcs_context sf \<and>
     (\<exists>k calls1 calls2 h. call_stack gops (sf_call_graph sf) (calls1 @ calls2) h \<and>
        into_func_id from = frame_func calls2 h \<and>
        context_elems (get_context_by_id kcs_ops kcs (cid from)) = call_context k calls1 \<and>
        into_func_id to = h \<and>
        context_elems (get_context_by_id kcs_ops kcs (cid to)) = call_context k (calls1 @ calls2))"

interpretation frame_reach: sf_reachable into_func_id "cs_is_reachable_from kcs sf" "frame_above gops kcs sf" for gops kcs sf
  by unfold_locales (auto simp: frame_above_def intro: frame_reachable)

subsection \<open>Properties\<close>

text \<open>
  C8: soundness of stack filtering under k-call-site sensitivity. Take any call stack of a
  program whose calls are in the call graph, an object in a frame of that stack and the frame
  that runs; let the strategy compute the contexts of the two frames from the calls that lead to
  them. Then the filter never panics and never declares the object dead, wherever the two
  frames are on the stack, whatever the limit of the contexts and however the recursion in the
  stack repeats functions and contexts.
\<close>

theorem stack_filter_sound:
  assumes "graph_api gops g_ok" "cg_ok gops g_ok cg" "set order = {..<g_node_count gops (cg_graph cg)}"
    and "call_stack gops cg (calls1 @ calls2) h"
    and "get_empty_context_id kcs_ops (kcs_new k) = (s0, i0)"
    and "call_chain s0 i0 calls1 = Some (s1, i)" "call_chain s1 i calls2 = Some (s2, j)"
    and "cs_containing_func p = Some (cs_func_id_new i (frame_func calls2 h))"
    and "get_function_reference table (frame_func calls2 h) \<noteq> None"
  shows "\<exists>sf. stack_filter_new gops order cg = Some sf \<and>
    is_potentially_alive cs_path_ops into_func_id (cs_is_reachable_from s2 (with_kcs_context_strategy sf))
      table is_const (cs_func_id_new j h) p = Some True"
proof -
  obtain sf :: "('a, cs_func_id) stack_filter" where sf: "stack_filter_new gops order cg = Some sf"
    "filter_ok gops sf" "sf_call_graph sf = cg"
    using stack_filter_new_ok [OF assms(1-3)] by blast
  let ?sf = "with_kcs_context_strategy sf"
  have ok: "filter_ok gops ?sf" "with_kcs_context ?sf" "sf_call_graph ?sf = cg"
    using sf(2,3) by (simp_all add: with_kcs_context_strategy_def filter_ok_def)
  have inv0: "kcs_k s0 = k" "cache_inv k (kcs_ctx_cache s0)" "cache_valid (kcs_ctx_cache s0) i0"
    "context_elems (context_or_empty (kcs_ctx_cache s0) i0) = []"
    using kcs.empty_id [OF _ assms(5), of k] by (auto simp: kcs_new_def cache_inv_new kcs_ops_def)
  have inv1: "kcs_k s1 = k" "cache_inv k (kcs_ctx_cache s1)" "cache_valid (kcs_ctx_cache s1) i"
    "context_elems (context_or_empty (kcs_ctx_cache s1) i) = call_context k calls1"
    using call_chain_spec [OF inv0, of calls1] assms(6) by (auto simp: call_context_def)
  have "take k (rev (map (\<lambda>(f, l). base_call_site_new f l) calls2) @ call_context k calls1) = call_context k (calls1 @ calls2)"
    by (simp add: call_context_def min_def)
  with call_chain_spec [OF inv1, of calls2] assms(7) inv1(3,4)
  have ctx: "context_elems (context_or_empty (kcs_ctx_cache s2) i) = call_context k calls1"
    "context_elems (context_or_empty (kcs_ctx_cache s2) j) = call_context k (calls1 @ calls2)" by auto
  have "frame_above gops s2 ?sf (cs_func_id_new i (frame_func calls2 h)) (cs_func_id_new j h)"
    unfolding frame_above_def
    using ok assms(4) ctx by (auto simp: cs_func_id_new_def into_func_id_def kcs_ops_def intro!: exI [of _ k])
  then have "is_potentially_alive cs_path_ops into_func_id (cs_is_reachable_from s2 ?sf) table is_const (cs_func_id_new j h) p = Some True"
    using assms(8,9) by (intro frame_reach.alive_sound [where gops = gops]) (simp_all add: cs_path_ops_def cs_func_id_new_def into_func_id_def)
  then show ?thesis using sf(1) by blast
qed

definition sample_fcg ::
    "((func_id cg_node, func_id base_call_site cg_edge) list_graph, func_id, func_id base_call_site) call_graph" where
  "sample_fcg = (case cg_add_edges list_graph_ops (cg_new list_graph_ops)
       [(base_call_site_new 0 (0, 0), 0, 1), (base_call_site_new 1 (0, 5), 1, 2)] of
     Some cg \<Rightarrow> cg | None \<Rightarrow> cg_new list_graph_ops)"

lemma sample_fcg_ok:
  "cg_ok list_graph_ops list_graph_ok sample_fcg" "func_nodes sample_fcg 0 = Some 0" "func_nodes sample_fcg 1 = Some 1"
  "func_nodes sample_fcg 2 = Some 2" "g_node_count list_graph_ops (cg_graph sample_fcg) = 3"
  "(0, 1) \<in> calls_rel list_graph_ops sample_fcg" "(1, 2) \<in> calls_rel list_graph_ops sample_fcg"
proof -
  obtain cg where cg: "cg_add_edges list_graph_ops (cg_new list_graph_ops)
      [(base_call_site_new (0 :: func_id) (0, 0), 0 :: nat, 1), (base_call_site_new 1 (0, 5), 1, 2)] = Some cg"
    "cg_ok list_graph_ops list_graph_ok cg"
    using list_cg.add_edges_spec [OF list_cg.cg_ok_new,
        of "[(base_call_site_new (0 :: func_id) (0, 0), 0 :: nat, 1), (base_call_site_new 1 (0, 5), 1, 2)]"] by blast
  then show "cg_ok list_graph_ops list_graph_ok sample_fcg" by (simp add: sample_fcg_def del: cg_add_edges.simps)
  show "func_nodes sample_fcg 0 = Some 0" "func_nodes sample_fcg 1 = Some 1" "func_nodes sample_fcg 2 = Some 2"
    "g_node_count list_graph_ops (cg_graph sample_fcg) = 3"
    by code_simp+
  have "g_edge_endpoints list_graph_ops (cg_graph sample_fcg) 0 = Some (0, 1)"
    "g_edge_weight list_graph_ops (cg_graph sample_fcg) 0 = Some \<lparr>cge_callsite = base_call_site_new 0 (0, 0)\<rparr>"
    "g_edge_endpoints list_graph_ops (cg_graph sample_fcg) 1 = Some (1, 2)"
    "g_edge_weight list_graph_ops (cg_graph sample_fcg) 1 = Some \<lparr>cge_callsite = base_call_site_new 1 (0, 5)\<rparr>"
    "g_node_weight list_graph_ops (cg_graph sample_fcg) 0 = Some \<lparr>cgn_func = 0\<rparr>"
    "g_node_weight list_graph_ops (cg_graph sample_fcg) 1 = Some \<lparr>cgn_func = 1\<rparr>"
    "g_node_weight list_graph_ops (cg_graph sample_fcg) 2 = Some \<lparr>cgn_func = 2\<rparr>"
    by code_simp+
  then show "(0, 1) \<in> calls_rel list_graph_ops sample_fcg" "(1, 2) \<in> calls_rel list_graph_ops sample_fcg"
    unfolding calls_rel_def cg_calls_def by blast+
qed

definition sample_table :: "(nat, nat) function_table" where
  "sample_table = \<lparr>func_refs = [new_function_reference (0, 0) [], new_function_reference (0, 1) [], new_function_reference (0, 2) []],
     func_id_map = [new_function_reference (0, 0) [] \<mapsto> 0, new_function_reference (0, 1) [] \<mapsto> 1, new_function_reference (0, 2) [] \<mapsto> 2],
     func_name_cache = Map.empty\<rparr>"

lemma sample_table_get:
  "get_function_reference sample_table 0 = Some (new_function_reference (0, 0) [])"
  "get_function_reference sample_table 1 = Some (new_function_reference (0, 1) [])"
  by (simp_all add: sample_table_def get_function_reference_def vec_get_def)

lemma sample_order: "set [0, 1, 2] = {..<g_node_count list_graph_ops (cg_graph sample_fcg)}"
  by (auto simp: sample_fcg_ok)

text \<open>The stack \<open>0, 1, 2\<close> with contexts of one call site, and a local variable of function 0.\<close>

theorem stack_filter_sound_witness:
  "\<exists>sf s2 j. stack_filter_new list_graph_ops [0, 1, 2] sample_fcg = Some sf \<and>
    is_potentially_alive cs_path_ops into_func_id (cs_is_reachable_from s2 (with_kcs_context_strategy sf))
      sample_table (\<lambda>d. False) (cs_func_id_new j 2) (new_cs_path 0 (LocalVariable 0 1)) = Some True"
proof -
  obtain s0 where s0: "get_empty_context_id kcs_ops (kcs_new 1) = (s0, 0)"
    by (cases "get_empty_context_id kcs_ops (kcs_new 1)")
      (simp add: kcs_ops_def kcs_new_def kcs_context_id_def get_context_id_def context_cache_new_def Let_def)
  have inv0: "kcs_k s0 = 1" "cache_inv 1 (kcs_ctx_cache s0)" "cache_valid (kcs_ctx_cache s0) 0"
    "context_elems (context_or_empty (kcs_ctx_cache s0) 0) = []"
    using kcs.empty_id [OF _ s0, of 1] by (auto simp: kcs_new_def cache_inv_new kcs_ops_def)
  then obtain s2 j where s2: "call_chain s0 0 [(0, (0, 0)), (1, (0, 5))] = Some (s2, j)"
    using call_chain_spec [OF inv0] by blast
  have stack: "call_stack list_graph_ops sample_fcg ([] @ [(0, (0, 0)), (1, (0, 5))]) 2"
    using sample_fcg_ok by (auto simp: call_stack_def)
  have "cs_containing_func (new_cs_path 0 (LocalVariable 0 1)) = Some (cs_func_id_new 0 (frame_func [(0, (0, 0)), (1, (0, 5))] 2))"
    "get_function_reference sample_table (frame_func [(0, (0, 0)), (1, (0, 5))] 2) \<noteq> None"
    by (simp_all add: frame_func_def cs_containing new_cs_path_def sample_table_get)
  from stack_filter_sound [OF list_graph.graph_api_axioms sample_fcg_ok(1) sample_order stack s0 _ s2 this, of "\<lambda>d. False"]
  show ?thesis by fastforce
qed

text \<open>
  C27: without contexts the filter is exact: for functions of the call graph it never panics,
  and it declares a path alive exactly when the path is on the heap, belongs to no function, to
  a promoted constant or a constant item, or to a function from which the current function is
  reachable by calls (the function itself included).
\<close>

theorem stack_filter_exact:
  assumes "graph_api gops g_ok" "cg_ok gops g_ok cg" "set order = {..<g_node_count gops (cg_graph cg)}"
    and "func_nodes cg current \<noteq> None"
    and "\<forall>f. get_containing_func p = Some f \<longrightarrow> func_nodes cg f \<noteq> None \<and> get_function_reference table f \<noteq> None"
  shows "\<exists>sf. stack_filter_new gops order cg = Some sf \<and>
    is_potentially_alive path_ops (\<lambda>f. f) (func_is_reachable_from sf) table is_const current p =
      Some (is_heap_path p \<or> (case get_containing_func p of None \<Rightarrow> True | Some f \<Rightarrow>
        fr_promoted (the (get_function_reference table f)) \<noteq> None \<or> is_const (fr_def_id (the (get_function_reference table f))) \<or>
        (f, current) \<in> (calls_rel gops cg)\<^sup>*))"
proof -
  obtain sf :: "('a, func_id) stack_filter" where sf: "stack_filter_new gops order cg = Some sf"
    "filter_ok gops sf" "sf_call_graph sf = cg"
    using stack_filter_new_ok [OF assms(1-3)] by blast
  show ?thesis
  proof (intro exI conjI)
    show "is_potentially_alive path_ops (\<lambda>f. f) (func_is_reachable_from sf) table is_const current p =
      Some (is_heap_path p \<or> (case get_containing_func p of None \<Rightarrow> True | Some f \<Rightarrow>
        fr_promoted (the (get_function_reference table f)) \<noteq> None \<or> is_const (fr_def_id (the (get_function_reference table f))) \<or>
        (f, current) \<in> (calls_rel gops cg)\<^sup>*))"
    proof (cases "get_containing_func p")
      case (Some f)
      then have "func_is_reachable_from sf current f = Some ((f, current) \<in> (calls_rel gops cg)\<^sup>*)"
        using naive_exact [OF sf(2), of "\<lambda>f. f" f current] sf(3) assms(4,5)
        by (auto simp: func_is_reachable_from_def)
      then show ?thesis using Some assms(5) by (auto simp: is_potentially_alive_def path_ops_def)
    qed (simp add: is_potentially_alive_def path_ops_def)
  qed (rule sf(1))
qed

theorem stack_filter_exact_witness:
  "\<exists>sf. stack_filter_new list_graph_ops [0, 1, 2] sample_fcg = Some sf \<and>
    is_potentially_alive path_ops (\<lambda>f. f) (func_is_reachable_from sf) sample_table (\<lambda>d. False) 1 (LocalVariable 1 1) = Some True"
  using stack_filter_exact [OF list_graph.graph_api_axioms sample_fcg_ok(1) sample_order,
      of 1 "LocalVariable 1 1" sample_table "\<lambda>d. False"] sample_fcg_ok(3) sample_table_get(2)
  by simp

end
