(* ===== verification/Func_Pag.thy ===== *)
theory Func_Pag
  imports Pag_Path
begin

section \<open>The graph of one function (\<open>src/graph/func_pag.rs\<close>)\<close>

text \<open>
  What the translation of one function body yields: its edges, the static variables it uses and
  its call sites by kind. The queue of edges is the list it stands for (see the theory of the
  chunked queue). The kinds of edges are those of \<open>src/graph/pag.rs\<close>.
\<close>

datatype pag_edge_enum =
    AddrPAGEdge
  | DirectPAGEdge
  | LoadPAGEdge "path_selector list"
  | StorePAGEdge "path_selector list"
  | GepPAGEdge "path_selector list"
  | CastPAGEdge
  | OffsetPAGEdge

type_synonym internal_edge = "path \<times> path \<times> pag_edge_enum"
type_synonym plain_call_site = "(func_id, path) call_site"

record func_pag =
  fp_func_id :: func_id
  internal_edges :: "internal_edge list"
  static_variables_involved :: "path set"
  static_dispatch_callsites :: "(plain_call_site \<times> func_id) list"
  special_callsites :: "(plain_call_site \<times> func_id) list"
  dynamic_dispatch_callsites :: "(path \<times> plain_call_site) list"
  dynamic_fntrait_callsites :: "(path \<times> plain_call_site) list"
  fnptr_callsites :: "(path \<times> plain_call_site) list"

definition func_pag_new :: "func_id \<Rightarrow> func_pag" where
  "func_pag_new func_id =
     \<lparr>fp_func_id = func_id, internal_edges = [], static_variables_involved = {},
      static_dispatch_callsites = [], special_callsites = [], dynamic_dispatch_callsites = [],
      dynamic_fntrait_callsites = [], fnptr_callsites = []\<rparr>"

definition add_internal_edge :: "func_pag \<Rightarrow> path \<Rightarrow> path \<Rightarrow> pag_edge_enum \<Rightarrow> func_pag" where
  "add_internal_edge fpag src dst kind = fpag\<lparr>internal_edges := internal_edges fpag @ [(src, dst, kind)]\<rparr>"

definition internal_edges_iter :: "func_pag \<Rightarrow> internal_edge list" where
  "internal_edges_iter fpag = internal_edges fpag"

definition add_static_variables_involved :: "func_pag \<Rightarrow> path \<Rightarrow> func_pag" where
  "add_static_variables_involved fpag static_variable =
     fpag\<lparr>static_variables_involved := insert static_variable (static_variables_involved fpag)\<rparr>"

definition add_static_dispatch_callsite :: "func_pag \<Rightarrow> plain_call_site \<Rightarrow> func_id \<Rightarrow> func_pag" where
  "add_static_dispatch_callsite fpag callsite callee =
     fpag\<lparr>static_dispatch_callsites := static_dispatch_callsites fpag @ [(callsite, callee)]\<rparr>"

definition add_dynamic_fntrait_callsite :: "func_pag \<Rightarrow> path \<Rightarrow> plain_call_site \<Rightarrow> func_pag" where
  "add_dynamic_fntrait_callsite fpag dynamic_fn_obj std_ops_callsite =
     fpag\<lparr>dynamic_fntrait_callsites := dynamic_fntrait_callsites fpag @ [(dynamic_fn_obj, std_ops_callsite)]\<rparr>"

definition add_dynamic_dispatch_callsite :: "func_pag \<Rightarrow> path \<Rightarrow> plain_call_site \<Rightarrow> func_pag" where
  "add_dynamic_dispatch_callsite fpag dynamic_obj dyn_callsite =
     fpag\<lparr>dynamic_dispatch_callsites := dynamic_dispatch_callsites fpag @ [(dynamic_obj, dyn_callsite)]\<rparr>"

definition add_fnptr_callsite :: "func_pag \<Rightarrow> path \<Rightarrow> plain_call_site \<Rightarrow> func_pag" where
  "add_fnptr_callsite fpag fn_ptr callsite =
     fpag\<lparr>fnptr_callsites := fnptr_callsites fpag @ [(fn_ptr, callsite)]\<rparr>"

definition add_special_callsite :: "func_pag \<Rightarrow> plain_call_site \<Rightarrow> func_id \<Rightarrow> func_pag" where
  "add_special_callsite fpag callsite callee =
     fpag\<lparr>special_callsites := special_callsites fpag @ [(callsite, callee)]\<rparr>"

end
