(* ===== verification/Pag.thy ===== *)
theory Pag
  imports Func_Pag Graph_Api Functions
begin

section \<open>The pointer assignment graph (\<open>src/graph/pag.rs\<close>)\<close>

text \<open>
  A node is a path, an edge a constraint between two paths. Per kind of edge two maps give the
  edges that leave and that enter a node, and the edges that take an address are queued for
  the solver. The invariant states that the maps describe the graph. A \<open>BTreeSet\<close> of edges is
  a set; \<open>unwrap\<close> of a missing node or edge is \<open>None\<close>.
\<close>

record 'p pag_node =
  pn_path :: 'p

record pag_edge =
  pe_kind :: pag_edge_enum

definition pag_node_new :: "'p \<Rightarrow> 'p pag_node" where
  "pag_node_new p = \<lparr>pn_path = p\<rparr>"

type_synonym edge_map = "nat \<rightharpoonup> nat set"

record ('g, 'p) pag =
  pag_graph :: 'g
  pag_values :: "'p \<rightharpoonup> nat"
  func_pags :: "func_id \<rightharpoonup> func_pag"
  promoted_funcs_map :: "func_id \<rightharpoonup> func_id set"
  involved_static_funcs_map :: "func_id \<rightharpoonup> func_id set"
  addr_edges_queue :: "nat list"
  addr_in_edges :: edge_map
  addr_out_edges :: edge_map
  direct_in_edges :: edge_map
  direct_out_edges :: edge_map
  load_in_edges :: edge_map
  load_out_edges :: edge_map
  store_in_edges :: edge_map
  store_out_edges :: edge_map
  gep_in_edges :: edge_map
  gep_out_edges :: edge_map
  cast_in_edges :: edge_map
  cast_out_edges :: edge_map
  offset_in_edges :: edge_map
  offset_out_edges :: edge_map

type_synonym ('g, 'p) pg_ops = "('g, 'p pag_node, pag_edge) graph_ops"

definition pag_new :: "('g, 'p) pg_ops \<Rightarrow> ('g, 'p) pag" where
  "pag_new gops =
     \<lparr>pag_graph = g_new gops, pag_values = Map.empty, func_pags = Map.empty,
      promoted_funcs_map = Map.empty, involved_static_funcs_map = Map.empty, addr_edges_queue = [],
      addr_in_edges = Map.empty, addr_out_edges = Map.empty,
      direct_in_edges = Map.empty, direct_out_edges = Map.empty,
      load_in_edges = Map.empty, load_out_edges = Map.empty,
      store_in_edges = Map.empty, store_out_edges = Map.empty,
      gep_in_edges = Map.empty, gep_out_edges = Map.empty,
      cast_in_edges = Map.empty, cast_out_edges = Map.empty,
      offset_in_edges = Map.empty, offset_out_edges = Map.empty\<rparr>"

subsection \<open>Nodes\<close>

definition node_path :: "('g, 'p) pg_ops \<Rightarrow> ('g, 'p) pag \<Rightarrow> nat \<Rightarrow> 'p option" where
  "node_path gops pag node_id = map_option pn_path (g_node_weight gops (pag_graph pag) node_id)"

definition get_node :: "('g, 'p) pg_ops \<Rightarrow> ('g, 'p) pag \<Rightarrow> nat \<Rightarrow> 'p pag_node option" where
  "get_node gops pag node_id = g_node_weight gops (pag_graph pag) node_id"

definition get_node_id :: "('g, 'p) pag \<Rightarrow> 'p \<Rightarrow> nat option" where
  "get_node_id pag p = (case pag_values pag p of Some i \<Rightarrow> Some i | None \<Rightarrow> None)"

definition get_edge :: "('g, 'p) pg_ops \<Rightarrow> ('g, 'p) pag \<Rightarrow> nat \<Rightarrow> pag_edge option" where
  "get_edge gops pag edge_id = g_edge_weight gops (pag_graph pag) edge_id"

definition pag_add_node :: "('g, 'p) pg_ops \<Rightarrow> ('g, 'p) pag \<Rightarrow> 'p \<Rightarrow> ('g, 'p) pag" where
  "pag_add_node gops pag p =
     (case pag_values pag p of
        None \<Rightarrow>
          let (g, node_id) = g_add_node gops (pag_graph pag) (pag_node_new p)
          in pag\<lparr>pag_graph := g, pag_values := (pag_values pag)(p \<mapsto> node_id)\<rparr>
      | Some _ \<Rightarrow> pag)"

definition get_or_insert_node :: "('g, 'p) pg_ops \<Rightarrow> ('g, 'p) pag \<Rightarrow> 'p \<Rightarrow> ('g, 'p) pag \<times> nat" where
  "get_or_insert_node gops pag p =
     (case pag_values pag p of
        Some i \<Rightarrow> (pag, i)
      | None \<Rightarrow>
          let (g, node_id) = g_add_node gops (pag_graph pag) (pag_node_new p)
          in (pag\<lparr>pag_graph := g, pag_values := (pag_values pag)(p \<mapsto> node_id)\<rparr>, node_id))"

subsection \<open>Edges\<close>

definition contains_edge :: "('g, 'p) pg_ops \<Rightarrow> ('g, 'p) pag \<Rightarrow> nat \<Rightarrow> nat \<Rightarrow> pag_edge_enum \<Rightarrow> bool" where
  "contains_edge gops pag src dst kind =
     list_ex (\<lambda>e. g_edge_weight gops (pag_graph pag) e = Some \<lparr>pe_kind = kind\<rparr>)
       (g_edges_connecting gops (pag_graph pag) src dst)"

definition has_edge :: "('g, 'p) pg_ops \<Rightarrow> ('g, 'p) pag \<Rightarrow> 'p \<Rightarrow> 'p \<Rightarrow> pag_edge_enum \<Rightarrow> bool" where
  "has_edge gops pag src dst kind =
     (case (pag_values pag src, pag_values pag dst) of
        (Some src_id, Some dst_id) \<Rightarrow> contains_edge gops pag src_id dst_id kind
      | _ \<Rightarrow> False)"

definition add_incoming_addr_edge :: "('g, 'p) pag \<Rightarrow> nat \<Rightarrow> nat \<Rightarrow> ('g, 'p) pag" where
  "add_incoming_addr_edge pag n e = pag\<lparr>addr_in_edges := entry_insert (addr_in_edges pag) n e\<rparr>"

definition add_outgoing_addr_edge :: "('g, 'p) pag \<Rightarrow> nat \<Rightarrow> nat \<Rightarrow> ('g, 'p) pag" where
  "add_outgoing_addr_edge pag n e = pag\<lparr>addr_out_edges := entry_insert (addr_out_edges pag) n e\<rparr>"

definition add_incoming_direct_edge :: "('g, 'p) pag \<Rightarrow> nat \<Rightarrow> nat \<Rightarrow> ('g, 'p) pag" where
  "add_incoming_direct_edge pag n e = pag\<lparr>direct_in_edges := entry_insert (direct_in_edges pag) n e\<rparr>"

definition add_outgoing_direct_edge :: "('g, 'p) pag \<Rightarrow> nat \<Rightarrow> nat \<Rightarrow> ('g, 'p) pag" where
  "add_outgoing_direct_edge pag n e = pag\<lparr>direct_out_edges := entry_insert (direct_out_edges pag) n e\<rparr>"

definition add_incoming_load_edge :: "('g, 'p) pag \<Rightarrow> nat \<Rightarrow> nat \<Rightarrow> ('g, 'p) pag" where
  "add_incoming_load_edge pag n e = pag\<lparr>load_in_edges := entry_insert (load_in_edges pag) n e\<rparr>"

definition add_outgoing_load_edge :: "('g, 'p) pag \<Rightarrow> nat \<Rightarrow> nat \<Rightarrow> ('g, 'p) pag" where
  "add_outgoing_load_edge pag n e = pag\<lparr>load_out_edges := entry_insert (load_out_edges pag) n e\<rparr>"

definition add_incoming_store_edge :: "('g, 'p) pag \<Rightarrow> nat \<Rightarrow> nat \<Rightarrow> ('g, 'p) pag" where
  "add_incoming_store_edge pag n e = pag\<lparr>store_in_edges := entry_insert (store_in_edges pag) n e\<rparr>"

definition add_outgoing_store_edge :: "('g, 'p) pag \<Rightarrow> nat \<Rightarrow> nat \<Rightarrow> ('g, 'p) pag" where
  "add_outgoing_store_edge pag n e = pag\<lparr>store_out_edges := entry_insert (store_out_edges pag) n e\<rparr>"

definition add_incoming_gep_edge :: "('g, 'p) pag \<Rightarrow> nat \<Rightarrow> nat \<Rightarrow> ('g, 'p) pag" where
  "add_incoming_gep_edge pag n e = pag\<lparr>gep_in_edges := entry_insert (gep_in_edges pag) n e\<rparr>"

definition add_outgoing_gep_edge :: "('g, 'p) pag \<Rightarrow> nat \<Rightarrow> nat \<Rightarrow> ('g, 'p) pag" where
  "add_outgoing_gep_edge pag n e = pag\<lparr>gep_out_edges := entry_insert (gep_out_edges pag) n e\<rparr>"

definition add_incoming_cast_edge :: "('g, 'p) pag \<Rightarrow> nat \<Rightarrow> nat \<Rightarrow> ('g, 'p) pag" where
  "add_incoming_cast_edge pag n e = pag\<lparr>cast_in_edges := entry_insert (cast_in_edges pag) n e\<rparr>"

definition add_outgoing_cast_edge :: "('g, 'p) pag \<Rightarrow> nat \<Rightarrow> nat \<Rightarrow> ('g, 'p) pag" where
  "add_outgoing_cast_edge pag n e = pag\<lparr>cast_out_edges := entry_insert (cast_out_edges pag) n e\<rparr>"

definition add_incoming_offset_edge :: "('g, 'p) pag \<Rightarrow> nat \<Rightarrow> nat \<Rightarrow> ('g, 'p) pag" where
  "add_incoming_offset_edge pag n e = pag\<lparr>offset_in_edges := entry_insert (offset_in_edges pag) n e\<rparr>"

definition add_outgoing_offset_edge :: "('g, 'p) pag \<Rightarrow> nat \<Rightarrow> nat \<Rightarrow> ('g, 'p) pag" where
  "add_outgoing_offset_edge pag n e = pag\<lparr>offset_out_edges := entry_insert (offset_out_edges pag) n e\<rparr>"

text \<open>
  The seven \<open>add_*_edge\<close> functions have the same body: insert the two nodes, return if the edge
  exists, add it to the graph and record it as leaving the source and entering the target; an
  address edge is queued between the two.
\<close>

definition add_edge_with ::
    "(('g, 'p) pag \<Rightarrow> nat \<Rightarrow> nat \<Rightarrow> ('g, 'p) pag) \<Rightarrow> (('g, 'p) pag \<Rightarrow> nat \<Rightarrow> nat \<Rightarrow> ('g, 'p) pag) \<Rightarrow>
     ('g, 'p) pg_ops \<Rightarrow> ('g, 'p) pag \<Rightarrow> 'p \<Rightarrow> 'p \<Rightarrow> pag_edge_enum \<Rightarrow> (('g, 'p) pag \<times> nat option) option" where
  "add_edge_with outgoing incoming gops pag src dst kind = do {
     let (pag, src_id) = get_or_insert_node gops pag src;
     let (pag, dst_id) = get_or_insert_node gops pag dst;
     if \<not> contains_edge gops pag src_id dst_id kind then do {
       (g, edge_id) \<leftarrow> g_add_edge gops (pag_graph pag) src_id dst_id \<lparr>pe_kind = kind\<rparr>;
       let pag = pag\<lparr>pag_graph := g\<rparr>;
       Some (incoming (outgoing pag src_id edge_id) dst_id edge_id, Some edge_id)
     } else Some (pag, None)
   }"

definition queue_addr_edge :: "('g, 'p) pag \<Rightarrow> nat \<Rightarrow> nat \<Rightarrow> ('g, 'p) pag" where
  "queue_addr_edge pag n e = add_outgoing_addr_edge (pag\<lparr>addr_edges_queue := addr_edges_queue pag @ [e]\<rparr>) n e"

definition add_addr_edge :: "('g, 'p) pg_ops \<Rightarrow> ('g, 'p) pag \<Rightarrow> 'p \<Rightarrow> 'p \<Rightarrow> (('g, 'p) pag \<times> nat option) option" where
  "add_addr_edge gops pag src dst = add_edge_with queue_addr_edge add_incoming_addr_edge gops pag src dst AddrPAGEdge"

definition add_direct_edge :: "('g, 'p) pg_ops \<Rightarrow> ('g, 'p) pag \<Rightarrow> 'p \<Rightarrow> 'p \<Rightarrow> (('g, 'p) pag \<times> nat option) option" where
  "add_direct_edge gops pag src dst =
     add_edge_with add_outgoing_direct_edge add_incoming_direct_edge gops pag src dst DirectPAGEdge"

definition add_load_edge :: "('g, 'p) pg_ops \<Rightarrow> ('g, 'p) pag \<Rightarrow> 'p \<Rightarrow> 'p \<Rightarrow> pag_edge_enum \<Rightarrow> (('g, 'p) pag \<times> nat option) option" where
  "add_load_edge = add_edge_with add_outgoing_load_edge add_incoming_load_edge"

definition add_store_edge :: "('g, 'p) pg_ops \<Rightarrow> ('g, 'p) pag \<Rightarrow> 'p \<Rightarrow> 'p \<Rightarrow> pag_edge_enum \<Rightarrow> (('g, 'p) pag \<times> nat option) option" where
  "add_store_edge = add_edge_with add_outgoing_store_edge add_incoming_store_edge"

definition add_gep_edge :: "('g, 'p) pg_ops \<Rightarrow> ('g, 'p) pag \<Rightarrow> 'p \<Rightarrow> 'p \<Rightarrow> pag_edge_enum \<Rightarrow> (('g, 'p) pag \<times> nat option) option" where
  "add_gep_edge = add_edge_with add_outgoing_gep_edge add_incoming_gep_edge"

definition add_cast_edge :: "('g, 'p) pg_ops \<Rightarrow> ('g, 'p) pag \<Rightarrow> 'p \<Rightarrow> 'p \<Rightarrow> (('g, 'p) pag \<times> nat option) option" where
  "add_cast_edge gops pag src dst =
     add_edge_with add_outgoing_cast_edge add_incoming_cast_edge gops pag src dst CastPAGEdge"

definition add_offset_edge :: "('g, 'p) pg_ops \<Rightarrow> ('g, 'p) pag \<Rightarrow> 'p \<Rightarrow> 'p \<Rightarrow> (('g, 'p) pag \<times> nat option) option" where
  "add_offset_edge gops pag src dst =
     add_edge_with add_outgoing_offset_edge add_incoming_offset_edge gops pag src dst OffsetPAGEdge"

definition add_edge ::
    "('g, 'p) pg_ops \<Rightarrow> ('g, 'p) pag \<Rightarrow> 'p \<Rightarrow> 'p \<Rightarrow> pag_edge_enum \<Rightarrow> (('g, 'p) pag \<times> nat option) option" where
  "add_edge gops pag src dst kind =
     (case kind of
        AddrPAGEdge \<Rightarrow> add_addr_edge gops pag src dst
      | DirectPAGEdge \<Rightarrow> add_direct_edge gops pag src dst
      | LoadPAGEdge _ \<Rightarrow> add_load_edge gops pag src dst kind
      | StorePAGEdge _ \<Rightarrow> add_store_edge gops pag src dst kind
      | GepPAGEdge _ \<Rightarrow> add_gep_edge gops pag src dst kind
      | CastPAGEdge \<Rightarrow> add_cast_edge gops pag src dst
      | OffsetPAGEdge \<Rightarrow> add_offset_edge gops pag src dst)"

subsection \<open>Edges between the pointers inside two values\<close>

text \<open>
  \<open>add_new_direct_edges\<close>: \<open>is_ptr\<close> and \<open>ptr_projs\<close> are what the analysis context answers for
  the type of the value (\<open>is_any_ptr\<close> and \<open>get_pointer_projections\<close>).
\<close>

fun add_proj_edges ::
    "('g, 'p) pg_ops \<Rightarrow> ('p, 'f) pag_path_ops \<Rightarrow> ('g, 'p) pag \<Rightarrow> 'p \<Rightarrow> 'p \<Rightarrow> (path_selector list \<times> 'ty) list \<Rightarrow>
     nat list \<Rightarrow> (('g, 'p) pag \<times> nat list) option" where
  "add_proj_edges gops pops pag src dst [] added_edges = Some (pag, added_edges)"
| "add_proj_edges gops pops pag src dst ((ptr_proj, ptr_ty) # ptr_projs) added_edges = do {
     src_field \<leftarrow> pp_append_projection pops src ptr_proj;
     dst_field \<leftarrow> pp_append_projection pops dst ptr_proj;
     (pag, edge) \<leftarrow> add_direct_edge gops pag src_field dst_field;
     add_proj_edges gops pops pag src dst ptr_projs
       (case edge of Some edge_id \<Rightarrow> added_edges @ [edge_id] | None \<Rightarrow> added_edges)
   }"

definition add_new_direct_edges ::
    "('g, 'p) pg_ops \<Rightarrow> ('p, 'f) pag_path_ops \<Rightarrow> ('g, 'p) pag \<Rightarrow> 'p \<Rightarrow> 'p \<Rightarrow> bool \<Rightarrow> (path_selector list \<times> 'ty) list \<Rightarrow>
     (('g, 'p) pag \<times> nat list) option" where
  "add_new_direct_edges gops pops pag src dst is_ptr ptr_projs =
     (if is_ptr then do {
        (pag, edge) \<leftarrow> add_direct_edge gops pag src dst;
        Some (pag, case edge of Some edge_id \<Rightarrow> [edge_id] | None \<Rightarrow> [])
      } else add_proj_edges gops pops pag src dst ptr_projs [])"

subsection \<open>The invariant\<close>

datatype edge_class = AddrE | DirectE | LoadE | StoreE | GepE | CastE | OffsetE

fun class_of :: "pag_edge_enum \<Rightarrow> edge_class" where
  "class_of AddrPAGEdge = AddrE"
| "class_of DirectPAGEdge = DirectE"
| "class_of (LoadPAGEdge _) = LoadE"
| "class_of (StorePAGEdge _) = StoreE"
| "class_of (GepPAGEdge _) = GepE"
| "class_of CastPAGEdge = CastE"
| "class_of OffsetPAGEdge = OffsetE"

fun out_edges :: "('g, 'p) pag \<Rightarrow> edge_class \<Rightarrow> edge_map" where
  "out_edges pag AddrE = addr_out_edges pag"
| "out_edges pag DirectE = direct_out_edges pag"
| "out_edges pag LoadE = load_out_edges pag"
| "out_edges pag StoreE = store_out_edges pag"
| "out_edges pag GepE = gep_out_edges pag"
| "out_edges pag CastE = cast_out_edges pag"
| "out_edges pag OffsetE = offset_out_edges pag"

fun in_edges :: "('g, 'p) pag \<Rightarrow> edge_class \<Rightarrow> edge_map" where
  "in_edges pag AddrE = addr_in_edges pag"
| "in_edges pag DirectE = direct_in_edges pag"
| "in_edges pag LoadE = load_in_edges pag"
| "in_edges pag StoreE = store_in_edges pag"
| "in_edges pag GepE = gep_in_edges pag"
| "in_edges pag CastE = cast_in_edges pag"
| "in_edges pag OffsetE = offset_in_edges pag"

fun outgoing_of :: "edge_class \<Rightarrow> ('g, 'p) pag \<Rightarrow> nat \<Rightarrow> nat \<Rightarrow> ('g, 'p) pag" where
  "outgoing_of AddrE = queue_addr_edge"
| "outgoing_of DirectE = add_outgoing_direct_edge"
| "outgoing_of LoadE = add_outgoing_load_edge"
| "outgoing_of StoreE = add_outgoing_store_edge"
| "outgoing_of GepE = add_outgoing_gep_edge"
| "outgoing_of CastE = add_outgoing_cast_edge"
| "outgoing_of OffsetE = add_outgoing_offset_edge"

fun incoming_of :: "edge_class \<Rightarrow> ('g, 'p) pag \<Rightarrow> nat \<Rightarrow> nat \<Rightarrow> ('g, 'p) pag" where
  "incoming_of AddrE = add_incoming_addr_edge"
| "incoming_of DirectE = add_incoming_direct_edge"
| "incoming_of LoadE = add_incoming_load_edge"
| "incoming_of StoreE = add_incoming_store_edge"
| "incoming_of GepE = add_incoming_gep_edge"
| "incoming_of CastE = add_incoming_cast_edge"
| "incoming_of OffsetE = add_incoming_offset_edge"

lemma add_edge_class:
  "add_edge gops pag src dst kind =
     add_edge_with (outgoing_of (class_of kind)) (incoming_of (class_of kind)) gops pag src dst kind"
  by (cases kind) (simp_all add: add_edge_def add_addr_edge_def add_direct_edge_def add_load_edge_def
      add_store_edge_def add_gep_edge_def add_cast_edge_def add_offset_edge_def)

lemma outgoing_of_fields [simp]:
  "pag_graph (outgoing_of c pag n e) = pag_graph pag"
  "pag_values (outgoing_of c pag n e) = pag_values pag"
  "func_pags (outgoing_of c pag n e) = func_pags pag"
  "in_edges (outgoing_of c pag n e) c' = in_edges pag c'"
  "out_edges (outgoing_of c pag n e) c' = (if c' = c then entry_insert (out_edges pag c) n e else out_edges pag c')"
  "addr_edges_queue (outgoing_of c pag n e) = addr_edges_queue pag @ (if c = AddrE then [e] else [])"
  by (cases c; cases c'; simp add: queue_addr_edge_def add_outgoing_addr_edge_def add_outgoing_direct_edge_def
      add_outgoing_load_edge_def add_outgoing_store_edge_def add_outgoing_gep_edge_def add_outgoing_cast_edge_def
      add_outgoing_offset_edge_def)+

lemma incoming_of_fields [simp]:
  "pag_graph (incoming_of c pag n e) = pag_graph pag"
  "pag_values (incoming_of c pag n e) = pag_values pag"
  "func_pags (incoming_of c pag n e) = func_pags pag"
  "out_edges (incoming_of c pag n e) c' = out_edges pag c'"
  "in_edges (incoming_of c pag n e) c' = (if c' = c then entry_insert (in_edges pag c) n e else in_edges pag c')"
  "addr_edges_queue (incoming_of c pag n e) = addr_edges_queue pag"
  by (cases c; cases c'; simp add: add_incoming_addr_edge_def add_incoming_direct_edge_def
      add_incoming_load_edge_def add_incoming_store_edge_def add_incoming_gep_edge_def add_incoming_cast_edge_def
      add_incoming_offset_edge_def)+

lemma edge_maps_graph [simp]:
  "out_edges (pag\<lparr>pag_graph := g\<rparr>) c = out_edges pag c" "in_edges (pag\<lparr>pag_graph := g\<rparr>) c = in_edges pag c"
  "out_edges (pag\<lparr>pag_values := vs\<rparr>) c = out_edges pag c" "in_edges (pag\<lparr>pag_values := vs\<rparr>) c = in_edges pag c"
  by (cases c; simp)+

definition edge_at :: "('g, 'p) pg_ops \<Rightarrow> 'g \<Rightarrow> nat \<Rightarrow> nat \<Rightarrow> nat \<Rightarrow> pag_edge_enum \<Rightarrow> bool" where
  "edge_at gops g e a b kind \<longleftrightarrow>
     g_edge_endpoints gops g e = Some (a, b) \<and> g_edge_weight gops g e = Some \<lparr>pe_kind = kind\<rparr>"

definition pag_ok :: "('g, 'p) pg_ops \<Rightarrow> ('g \<Rightarrow> bool) \<Rightarrow> ('g, 'p) pag \<Rightarrow> bool" where
  "pag_ok gops g_ok pag \<longleftrightarrow>
     g_ok (pag_graph pag) \<and>
     (\<forall>p i. pag_values pag p = Some i \<longleftrightarrow> g_node_weight gops (pag_graph pag) i = Some \<lparr>pn_path = p\<rparr>) \<and>
     (\<forall>c n e. e \<in> entry_or (out_edges pag c) n {} \<longleftrightarrow> (\<exists>b k. edge_at gops (pag_graph pag) e n b k \<and> class_of k = c)) \<and>
     (\<forall>c n e. e \<in> entry_or (in_edges pag c) n {} \<longleftrightarrow> (\<exists>a k. edge_at gops (pag_graph pag) e a n k \<and> class_of k = c)) \<and>
     set (addr_edges_queue pag) = {e. \<exists>a b. edge_at gops (pag_graph pag) e a b AddrPAGEdge} \<and>
     distinct (addr_edges_queue pag) \<and>
     (\<forall>e e' a b k. edge_at gops (pag_graph pag) e a b k \<and> edge_at gops (pag_graph pag) e' a b k \<longrightarrow> e = e')"

text \<open>The constraints a graph stands for.\<close>

definition pag_edges :: "('g, 'p) pg_ops \<Rightarrow> ('g, 'p) pag \<Rightarrow> ('p \<times> 'p \<times> pag_edge_enum) set" where
  "pag_edges gops pag = {(p, q, k). \<exists>e a b. edge_at gops (pag_graph pag) e a b k \<and>
     pag_values pag p = Some a \<and> pag_values pag q = Some b}"

definition edge_ids :: "('g, 'p) pg_ops \<Rightarrow> ('g, 'p) pag \<Rightarrow> nat set" where
  "edge_ids gops pag = {e. \<exists>a b k. edge_at gops (pag_graph pag) e a b k}"

locale pag_api = graph_api gops g_ok
  for gops :: "('g, 'p) pg_ops" and g_ok :: "'g \<Rightarrow> bool"
begin

lemma pag_ok_new: "pag_ok gops g_ok (pag_new gops)"
proof -
  have "g_ok (g_new gops)" by (rule ok_new)
  moreover have "g_node_weight gops (g_new gops) i = None" for i
    using node_weight_dom [OF ok_new, of i] count_new by (cases "g_node_weight gops (g_new gops) i") auto
  moreover have "out_edges (pag_new gops) c = Map.empty" "in_edges (pag_new gops) c = Map.empty" for c
    by (cases c; simp add: pag_new_def)+
  ultimately show ?thesis by (auto simp: pag_ok_def pag_new_def edge_at_def endpoints_new)
qed

lemma pag_edges_new: "pag_edges gops (pag_new gops) = {}"
  by (auto simp: pag_edges_def pag_new_def edge_at_def endpoints_new)

lemma edge_at_nodes:
  "g_ok g \<Longrightarrow> edge_at gops g e a b k \<Longrightarrow> a < g_node_count gops g \<and> b < g_node_count gops g"
  unfolding edge_at_def using endpoints_nodes by blast

lemma pag_value_inj: "pag_ok gops g_ok pag \<Longrightarrow> pag_values pag p = Some a \<Longrightarrow> pag_values pag q = Some a \<Longrightarrow> p = q"
  unfolding pag_ok_def by (metis option.inject pag_node.select_convs(1))

lemma get_or_insert_ok:
  assumes ok: "pag_ok gops g_ok pag" and ins: "get_or_insert_node gops pag p = (pag', i)"
  shows "pag_ok gops g_ok pag' \<and> pag_values pag' p = Some i \<and> pag_edges gops pag' = pag_edges gops pag \<and>
    pag_values pag \<subseteq>\<^sub>m pag_values pag' \<and> dom (pag_values pag') = insert p (dom (pag_values pag)) \<and>
    addr_edges_queue pag' = addr_edges_queue pag \<and> func_pags pag' = func_pags pag \<and>
    (\<forall>e a b k. edge_at gops (pag_graph pag') e a b k \<longleftrightarrow> edge_at gops (pag_graph pag) e a b k) \<and>
    (\<forall>c. out_edges pag' c = out_edges pag c \<and> in_edges pag' c = in_edges pag c)"
proof (cases "pag_values pag p")
  case (Some j)
  then show ?thesis using ok ins by (auto simp: get_or_insert_node_def)
next
  case None
  obtain g n where g: "g_add_node gops (pag_graph pag) (pag_node_new p) = (g, n)" by fastforce
  have gok: "g_ok (pag_graph pag)" using ok by (simp add: pag_ok_def)
  note spec = add_node [OF gok g]
  have pag': "pag' = pag\<lparr>pag_graph := g, pag_values := (pag_values pag)(p \<mapsto> n)\<rparr>" "i = n"
    using ins None g by (auto simp: get_or_insert_node_def)
  have same: "edge_at gops g e a b k \<longleftrightarrow> edge_at gops (pag_graph pag) e a b k" for e a b k
    using spec by (simp add: edge_at_def)
  have fresh: "g_node_weight gops (pag_graph pag) n = None"
    using node_weight_dom [OF gok, of n] spec by auto
  have nodes: "((pag_values pag)(p \<mapsto> n)) q = Some j \<longleftrightarrow> g_node_weight gops g j = Some \<lparr>pn_path = q\<rparr>" for q j
  proof -
    have "pag_values pag q = Some j \<longleftrightarrow> g_node_weight gops (pag_graph pag) j = Some \<lparr>pn_path = q\<rparr>"
      using ok by (simp add: pag_ok_def)
    then show ?thesis using spec fresh None by (auto simp: pag_node_new_def)
  qed
  have "pag_ok gops g_ok pag'"
    using ok spec nodes by (simp add: pag_ok_def pag' same)
  moreover have "pag_edges gops pag' = pag_edges gops pag"
  proof -
    have "((pag_values pag)(p \<mapsto> n)) q = Some a \<longleftrightarrow> pag_values pag q = Some a" if "a < g_node_count gops (pag_graph pag)" for q a
      using that None spec by auto
    then have "edge_at gops (pag_graph pag) e a b k \<and> ((pag_values pag)(p \<mapsto> n)) x = Some a \<and> ((pag_values pag)(p \<mapsto> n)) y = Some b
        \<longleftrightarrow> edge_at gops (pag_graph pag) e a b k \<and> pag_values pag x = Some a \<and> pag_values pag y = Some b" for e a b k x y
      using edge_at_nodes [OF gok] by blast
    then show ?thesis by (simp add: pag_edges_def pag' same)
  qed
  ultimately show ?thesis using None same by (auto simp: pag' map_le_def)
qed

lemma contains_edge_iff:
  assumes "pag_ok gops g_ok pag"
  shows "contains_edge gops pag a b k \<longleftrightarrow> (\<exists>e. edge_at gops (pag_graph pag) e a b k)"
proof -
  have "g_ok (pag_graph pag)" using assms by (simp add: pag_ok_def)
  then show ?thesis by (auto simp: contains_edge_def list_ex_iff edges_connecting edge_at_def)
qed

lemma has_edge_iff:
  assumes "pag_ok gops g_ok pag"
  shows "has_edge gops pag p q k \<longleftrightarrow> (p, q, k) \<in> pag_edges gops pag"
  using contains_edge_iff [OF assms] by (auto simp: has_edge_def pag_edges_def split: option.split)

lemma add_edge_ok:
  assumes ok: "pag_ok gops g_ok pag"
  shows "\<exists>pag' r. add_edge gops pag p q k = Some (pag', r) \<and> pag_ok gops g_ok pag' \<and>
    pag_edges gops pag' = insert (p, q, k) (pag_edges gops pag) \<and>
    (r = None \<longleftrightarrow> (p, q, k) \<in> pag_edges gops pag) \<and>
    edge_ids gops pag' = edge_ids gops pag \<union> set_option r \<and>
    (\<forall>e. r = Some e \<longrightarrow> e \<notin> edge_ids gops pag \<and>
       (\<exists>a b. pag_values pag' p = Some a \<and> pag_values pag' q = Some b \<and> edge_at gops (pag_graph pag') e a b k)) \<and>
    addr_edges_queue pag' = addr_edges_queue pag @ (case r of Some e \<Rightarrow> if k = AddrPAGEdge then [e] else [] | None \<Rightarrow> []) \<and>
    pag_values pag \<subseteq>\<^sub>m pag_values pag' \<and> dom (pag_values pag') = dom (pag_values pag) \<union> {p, q} \<and>
    func_pags pag' = func_pags pag"
proof -
  obtain pag1 i where 1: "get_or_insert_node gops pag p = (pag1, i)" by fastforce
  obtain pag2 j where 2: "get_or_insert_node gops pag1 q = (pag2, j)" by fastforce
  note s1 = get_or_insert_ok [OF ok 1]
  have ok1: "pag_ok gops g_ok pag1" using s1 by blast
  note s2 = get_or_insert_ok [OF ok1 2]
  have ok2: "pag_ok gops g_ok pag2" "pag_values pag2 q = Some j" using s2 by blast+
  have i: "pag_values pag2 p = Some i" using s1 s2 by (metis domI map_le_def)
  have sub: "pag_values pag \<subseteq>\<^sub>m pag_values pag2" using s1 s2 map_le_trans by blast
  have old: "edge_at gops (pag_graph pag2) e a b k' \<longleftrightarrow> edge_at gops (pag_graph pag) e a b k'" for e a b k'
    using s1 s2 by blast
  have edges2: "pag_edges gops pag2 = pag_edges gops pag" using s1 s2 by simp
  have present: "contains_edge gops pag2 i j k \<longleftrightarrow> (p, q, k) \<in> pag_edges gops pag"
    unfolding edges2 [symmetric] using contains_edge_iff [OF ok2(1)] i ok2(2) by (simp add: pag_edges_def)
  show ?thesis
  proof (cases "contains_edge gops pag2 i j k")
    case True
    have "add_edge gops pag p q k = Some (pag2, None)"
      using True by (simp add: add_edge_class add_edge_with_def 1 2)
    moreover have "edge_ids gops pag2 = edge_ids gops pag" using ext [of "edge_at gops (pag_graph pag2)" "edge_at gops (pag_graph pag)"] old by (simp add: edge_ids_def fun_eq_iff)
    ultimately show ?thesis using True present ok2 s1 s2 sub edges2 by (auto simp: insert_absorb)
  next
    case False
    have gok: "g_ok (pag_graph pag2)" using ok2 by (simp add: pag_ok_def)
    have "g_node_weight gops (pag_graph pag2) i = Some \<lparr>pn_path = p\<rparr>" "g_node_weight gops (pag_graph pag2) j = Some \<lparr>pn_path = q\<rparr>"
      using ok2 i by (auto simp: pag_ok_def)
    then have ij: "i < g_node_count gops (pag_graph pag2)" "j < g_node_count gops (pag_graph pag2)"
      using node_weight_dom [OF gok] by blast+
    obtain g e where g: "g_add_edge gops (pag_graph pag2) i j \<lparr>pe_kind = k\<rparr> = Some (g, e)" "g_ok g"
      "g_node_weight gops g = g_node_weight gops (pag_graph pag2)"
      "g_edge_endpoints gops (pag_graph pag2) e = None"
      "g_edge_endpoints gops g = (g_edge_endpoints gops (pag_graph pag2))(e \<mapsto> (i, j))"
      "g_edge_weight gops g = (g_edge_weight gops (pag_graph pag2))(e \<mapsto> \<lparr>pe_kind = k\<rparr>)"
      using add_edge [OF gok ij, of "\<lparr>pe_kind = k\<rparr>"] by blast
    have none: "\<not> edge_at gops (pag_graph pag2) e a b k'" for a b k' using g(4) by (simp add: edge_at_def)
    have at: "edge_at gops g e' a b k' \<longleftrightarrow> e' = e \<and> a = i \<and> b = j \<and> k' = k \<or> edge_at gops (pag_graph pag2) e' a b k'"
      for e' a b k' using g(5,6) none [of a b k'] by (auto simp: edge_at_def)
    define pag' where "pag' = incoming_of (class_of k) (outgoing_of (class_of k) (pag2\<lparr>pag_graph := g\<rparr>) i e) j e"
    have add: "Pag.add_edge gops pag p q k = Some (pag', Some e)"
      using False g(1) by (simp add: add_edge_class add_edge_with_def 1 2 pag'_def)
    have f: "pag_graph pag' = g" "pag_values pag' = pag_values pag2" "func_pags pag' = func_pags pag2"
      "addr_edges_queue pag' = addr_edges_queue pag2 @ (if class_of k = AddrE then [e] else [])"
      by (simp_all add: pag'_def)
    have "pag_ok gops g_ok pag'"
      unfolding pag_ok_def f
    proof (intro conjI allI)
      note inv = ok2(1) [unfolded pag_ok_def]
      show "g_ok g" by (rule g(2))
      show "pag_values pag2 x = Some n \<longleftrightarrow> g_node_weight gops g n = Some \<lparr>pn_path = x\<rparr>" for x n
        using inv g(3) by simp
      show "e' \<in> entry_or (out_edges pag' c) n {} \<longleftrightarrow> (\<exists>b k. edge_at gops g e' n b k \<and> class_of k = c)" for c n e'
      proof -
        have "e' \<in> entry_or (out_edges pag2 c) n {} \<longleftrightarrow> (\<exists>b k. edge_at gops (pag_graph pag2) e' n b k \<and> class_of k = c)"
          using inv by blast
        then show ?thesis using none by (cases "e' = e") (auto simp: pag'_def at)
      qed
      show "e' \<in> entry_or (in_edges pag' c) n {} \<longleftrightarrow> (\<exists>a k. edge_at gops g e' a n k \<and> class_of k = c)" for c n e'
      proof -
        have "e' \<in> entry_or (in_edges pag2 c) n {} \<longleftrightarrow> (\<exists>a k. edge_at gops (pag_graph pag2) e' a n k \<and> class_of k = c)"
          using inv by blast
        then show ?thesis using none by (cases "e' = e") (auto simp: pag'_def at)
      qed
      have addr: "class_of k = AddrE \<longleftrightarrow> k = AddrPAGEdge" by (cases k) auto
      show "set (addr_edges_queue pag2 @ (if class_of k = AddrE then [e] else [])) = {e. \<exists>a b. edge_at gops g e a b AddrPAGEdge}"
        using inv none by (auto simp: at addr)
      show "distinct (addr_edges_queue pag2 @ (if class_of k = AddrE then [e] else []))"
        using inv none by auto
      show "edge_at gops g e1 a b k' \<and> edge_at gops g e2 a b k' \<longrightarrow> e1 = e2" for e1 e2 a b k'
      proof -
        have "edge_at gops (pag_graph pag2) e1 a b k' \<Longrightarrow> edge_at gops (pag_graph pag2) e2 a b k' \<Longrightarrow> e1 = e2"
          using inv by blast
        moreover have "\<not> edge_at gops (pag_graph pag2) e' i j k" for e'
          using False contains_edge_iff [OF ok2(1), of i j k] by blast
        ultimately show ?thesis by (auto simp: at)
      qed
    qed
    moreover have "pag_edges gops pag' = insert (p, q, k) (pag_edges gops pag2)"
    proof -
      have "(x, y, k') \<in> pag_edges gops pag' \<longleftrightarrow> (x, y, k') = (p, q, k) \<or> (x, y, k') \<in> pag_edges gops pag2" for x y k'
        unfolding pag_edges_def f at
        using i ok2(2) none pag_value_inj [OF ok2(1), of x i p] pag_value_inj [OF ok2(1), of y j q]
        by (auto split: if_splits)
      then show ?thesis by auto
    qed
    moreover have "class_of k = AddrE \<longleftrightarrow> k = AddrPAGEdge" by (cases k) auto
    moreover have "edge_ids gops pag' = edge_ids gops pag \<union> {e}" "e \<notin> edge_ids gops pag"
      using none old unfolding edge_ids_def f at by blast+
    ultimately show ?thesis
      using add present False edges2 i ok2(2) s1 s2 sub by (auto simp: f at)
  qed
qed

text \<open>The edges a list of insertions reports are the new ones.\<close>

definition new_edges :: "('g, 'p) pag \<Rightarrow> ('g, 'p) pag \<Rightarrow> nat list \<Rightarrow> bool" where
  "new_edges pag pag' es \<longleftrightarrow> distinct es \<and> set es \<inter> edge_ids gops pag = {} \<and>
     edge_ids gops pag' = edge_ids gops pag \<union> set es"

lemma new_edges_Nil: "new_edges pag pag []"
  by (simp add: new_edges_def)

lemma new_edges_snoc:
  assumes "new_edges pag pag1 es" "edge_ids gops pag2 = edge_ids gops pag1 \<union> set_option r"
    "\<forall>e. r = Some e \<longrightarrow> e \<notin> edge_ids gops pag1"
  shows "new_edges pag pag2 (case r of Some e \<Rightarrow> es @ [e] | None \<Rightarrow> es)"
  using assms by (cases r) (auto simp: new_edges_def)

lemma add_direct_edge_class: "add_direct_edge gops pag p q = add_edge gops pag p q DirectPAGEdge"
  by (simp add: add_edge_def)

end

text \<open>The edges between the fields that the projections lead to.\<close>

definition field_edges :: "('p, 'f) pag_path_ops \<Rightarrow> 'p \<Rightarrow> 'p \<Rightarrow> (path_selector list \<times> 'ty) list \<Rightarrow> ('p \<times> 'p \<times> pag_edge_enum) set" where
  "field_edges pops src dst ptr_projs =
     (\<lambda>(proj, ty). (the (pp_append_projection pops src proj), the (pp_append_projection pops dst proj), DirectPAGEdge)) ` set ptr_projs"

locale pag_paths = pag_api gops g_ok + pag_path pops wf
  for gops :: "('g, 'p) pg_ops" and g_ok :: "'g \<Rightarrow> bool" and pops :: "('p, 'f) pag_path_ops" and wf :: "'p \<Rightarrow> bool"
begin

lemma add_proj_edges_ok:
  assumes "pag_ok gops g_ok pag1" "wf src" "wf dst" "new_edges pag pag1 es"
  shows "\<exists>pag' es'. add_proj_edges gops pops pag1 src dst projs es = Some (pag', es') \<and> pag_ok gops g_ok pag' \<and>
    pag_edges gops pag' = pag_edges gops pag1 \<union> field_edges pops src dst projs \<and> new_edges pag pag' es' \<and>
    pag_values pag1 \<subseteq>\<^sub>m pag_values pag'"
  using assms
proof (induction projs arbitrary: pag1 es)
  case (Cons pr projs)
  obtain proj ty where pr: "pr = (proj, ty)" by (rule prod.exhaust)
  obtain sf df where f: "pp_append_projection pops src proj = Some sf" "pp_append_projection pops dst proj = Some df"
    using append_step [OF Cons.prems(2), of proj] append_step [OF Cons.prems(3), of proj] by blast
  obtain pag2 r where 2: "add_edge gops pag1 sf df DirectPAGEdge = Some (pag2, r)" "pag_ok gops g_ok pag2"
    "pag_edges gops pag2 = insert (sf, df, DirectPAGEdge) (pag_edges gops pag1)"
    "edge_ids gops pag2 = edge_ids gops pag1 \<union> set_option r" "\<forall>e. r = Some e \<longrightarrow> e \<notin> edge_ids gops pag1"
    "pag_values pag1 \<subseteq>\<^sub>m pag_values pag2"
    using add_edge_ok [OF Cons.prems(1), of sf df DirectPAGEdge] by blast
  have step: "add_proj_edges gops pops pag1 src dst (pr # projs) es =
      add_proj_edges gops pops pag2 src dst projs (case r of Some e \<Rightarrow> es @ [e] | None \<Rightarrow> es)"
    using 2(1) by (simp add: pr f add_direct_edge_class)
  from Cons.IH [OF 2(2) Cons.prems(2,3) new_edges_snoc [OF Cons.prems(4) 2(4,5)]]
  show ?case
    unfolding step using 2(3,6) map_le_trans by (fastforce simp: field_edges_def pr f)
qed (simp add: field_edges_def)

lemma add_new_direct_edges_ok:
  assumes "pag_ok gops g_ok pag" "wf src" "wf dst"
  shows "\<exists>pag' es. add_new_direct_edges gops pops pag src dst is_ptr projs = Some (pag', es) \<and> pag_ok gops g_ok pag' \<and>
    pag_edges gops pag' = pag_edges gops pag \<union>
      (if is_ptr then {(src, dst, DirectPAGEdge)} else field_edges pops src dst projs) \<and>
    new_edges pag pag' es \<and> pag_values pag \<subseteq>\<^sub>m pag_values pag'"
proof (cases is_ptr)
  case True
  obtain pag2 r where 2: "add_edge gops pag src dst DirectPAGEdge = Some (pag2, r)" "pag_ok gops g_ok pag2"
    "pag_edges gops pag2 = insert (src, dst, DirectPAGEdge) (pag_edges gops pag)"
    "edge_ids gops pag2 = edge_ids gops pag \<union> set_option r" "\<forall>e. r = Some e \<longrightarrow> e \<notin> edge_ids gops pag"
    "pag_values pag \<subseteq>\<^sub>m pag_values pag2"
    using add_edge_ok [OF assms(1), of src dst DirectPAGEdge] by blast
  have "(case r of Some e \<Rightarrow> [e] | None \<Rightarrow> []) = (case r of Some e \<Rightarrow> [] @ [e] | None \<Rightarrow> [])" by (cases r) auto
  then show ?thesis
    using 2 True new_edges_snoc [OF new_edges_Nil 2(4,5)] by (simp add: add_new_direct_edges_def add_direct_edge_class)
next
  case False
  then show ?thesis
    using add_proj_edges_ok [OF assms new_edges_Nil] by (simp add: add_new_direct_edges_def)
qed

end

interpretation list_pag: pag_paths list_graph_ops list_graph_ok path_ops path_wf ..

interpretation list_cs_pag: pag_paths list_graph_ops list_graph_ok cs_path_ops "\<lambda>p. path_wf (cs_path p)" ..

subsection \<open>Building a graph\<close>

fun pag_add_edges ::
    "('g, 'p) pg_ops \<Rightarrow> ('g, 'p) pag \<Rightarrow> ('p \<times> 'p \<times> pag_edge_enum) list \<Rightarrow> (('g, 'p) pag \<times> nat list) option" where
  "pag_add_edges gops pag [] = Some (pag, [])"
| "pag_add_edges gops pag ((p, q, k) # edges) = do {
     (pag', r) \<leftarrow> add_edge gops pag p q k;
     (pag'', es) \<leftarrow> pag_add_edges gops pag' edges;
     Some (pag'', case r of Some e \<Rightarrow> e # es | None \<Rightarrow> es)
   }"

context pag_api
begin

lemma pag_add_edges_ok:
  "pag_ok gops g_ok pag \<Longrightarrow> \<exists>pag' es. pag_add_edges gops pag edges = Some (pag', es) \<and> pag_ok gops g_ok pag' \<and>
     pag_edges gops pag' = pag_edges gops pag \<union> set edges \<and> new_edges pag pag' es \<and>
     dom (pag_values pag') = dom (pag_values pag) \<union> (\<Union>(p, q, k) \<in> set edges. {p, q})"
proof (induction edges arbitrary: pag)
  case (Cons c edges)
  obtain p q k where c: "c = (p, q, k)" by (rule prod_cases3)
  obtain pag1 r where 1: "add_edge gops pag p q k = Some (pag1, r)" "pag_ok gops g_ok pag1"
    "pag_edges gops pag1 = insert (p, q, k) (pag_edges gops pag)"
    "edge_ids gops pag1 = edge_ids gops pag \<union> set_option r" "\<forall>e. r = Some e \<longrightarrow> e \<notin> edge_ids gops pag"
    "dom (pag_values pag1) = dom (pag_values pag) \<union> {p, q}"
    using add_edge_ok [OF Cons.prems, of p q k] by blast
  obtain pag2 es where 2: "pag_add_edges gops pag1 edges = Some (pag2, es)" "pag_ok gops g_ok pag2"
    "pag_edges gops pag2 = pag_edges gops pag1 \<union> set edges" "new_edges pag1 pag2 es"
    "dom (pag_values pag2) = dom (pag_values pag1) \<union> (\<Union>(p, q, k) \<in> set edges. {p, q})"
    using Cons.IH [OF 1(2)] by blast
  have "new_edges pag pag2 (case r of Some e \<Rightarrow> e # es | None \<Rightarrow> es)"
    using 1(4,5) 2(4) by (cases r) (auto simp: new_edges_def)
  then show ?case using 1 2 by (auto simp: c)
qed (simp add: new_edges_def)

end

subsection \<open>Properties\<close>

text \<open>
  C29: building a pointer assignment graph from any sequence of constraints never panics. The
  result has exactly these constraints, each as one edge however often it was added; the edge
  ids reported are those of the edges, in the order they were added; the nodes are the paths
  that occur; the seven pairs of maps describe the edges that leave and enter each node by kind
  and the queue holds every address edge exactly once.
\<close>

theorem pag_build:
  fixes gops :: "('g, 'p) pg_ops"
  assumes "graph_api gops g_ok"
  shows "\<exists>pag es. pag_add_edges gops (pag_new gops) edges = Some (pag, es) \<and> pag_ok gops g_ok pag \<and>
    pag_edges gops pag = set edges \<and> distinct es \<and> set es = edge_ids gops pag \<and>
    dom (pag_values pag) = (\<Union>(p, q, k) \<in> set edges. {p, q})"
proof -
  have api: "pag_api gops g_ok" using assms by (rule pag_api.intro)
  have "edge_ids gops (pag_new gops) = {}" "dom (pag_values (pag_new gops)) = {}"
    using graph_api.endpoints_new [OF assms] by (simp_all add: edge_ids_def edge_at_def pag_new_def)
  then show ?thesis
    using pag_api.pag_add_edges_ok [OF api pag_api.pag_ok_new [OF api], of edges] pag_api.pag_edges_new [OF api]
    by (auto simp: pag_api.new_edges_def [OF api])
qed

theorem pag_build_witness:
  "\<exists>pag es. pag_add_edges list_graph_ops (pag_new list_graph_ops)
      [(LocalVariable 0 1, LocalVariable 0 2, AddrPAGEdge), (LocalVariable 0 2, LocalVariable 0 3, LoadPAGEdge [Deref]),
       (LocalVariable 0 1, LocalVariable 0 2, AddrPAGEdge)] = Some (pag, es) \<and> distinct es \<and>
      pag_edges list_graph_ops pag =
        {(LocalVariable 0 1, LocalVariable 0 2, AddrPAGEdge), (LocalVariable 0 2, LocalVariable 0 3, LoadPAGEdge [Deref])}"
  using pag_build [OF list_graph.graph_api_axioms, of
      "[(LocalVariable 0 1, LocalVariable 0 2, AddrPAGEdge), (LocalVariable 0 2, LocalVariable 0 3, LoadPAGEdge [Deref]),
        (LocalVariable 0 1, LocalVariable 0 2, AddrPAGEdge)]"]
  by (auto simp: insert_commute)

text \<open>
  C30: the edges for the assignment of a value: between two well-formed paths, in a graph that
  satisfies the invariant, \<open>add_new_direct_edges\<close> never panics and adds one direct edge between
  the paths when their type is a pointer, and otherwise exactly one between the corresponding
  fields for every pointer in the type. It reports exactly the edges that were not there before.
\<close>

theorem add_new_direct_edges_exact:
  fixes gops :: "('g, 'p) pg_ops" and pops :: "('p, 'f) pag_path_ops"
  assumes "graph_api gops g_ok" "pag_path pops pwf" "pag_ok gops g_ok pag" "pwf src" "pwf dst"
  shows "\<exists>pag' es. add_new_direct_edges gops pops pag src dst is_ptr projs = Some (pag', es) \<and> pag_ok gops g_ok pag' \<and>
    pag_edges gops pag' = pag_edges gops pag \<union>
      (if is_ptr then {(src, dst, DirectPAGEdge)} else field_edges pops src dst projs) \<and>
    distinct es \<and> set es = edge_ids gops pag' - edge_ids gops pag \<and> edge_ids gops pag \<subseteq> edge_ids gops pag'"
proof -
  have "pag_paths gops g_ok pops pwf" using assms(1,2) by (intro pag_paths.intro pag_api.intro)
  then show ?thesis
    using pag_paths.add_new_direct_edges_ok [OF _ assms(3-5), of pops is_ptr projs]
      pag_api.new_edges_def [OF pag_api.intro [OF assms(1)]] by fastforce
qed

theorem add_new_direct_edges_exact_witness:
  "\<exists>pag es. add_new_direct_edges list_graph_ops path_ops (pag_new list_graph_ops) (LocalVariable 0 1) (Parameter 3 1) False
      [([Field 0], ()), ([Field 2], ())] = Some (pag, es) \<and>
    pag_edges list_graph_ops pag =
      {(QualifiedPath (LocalVariable 0 1) [Field 0], QualifiedPath (Parameter 3 1) [Field 0], DirectPAGEdge),
       (QualifiedPath (LocalVariable 0 1) [Field 2], QualifiedPath (Parameter 3 1) [Field 2], DirectPAGEdge)}"
  using add_new_direct_edges_exact [OF list_graph.graph_api_axioms plain_path.pag_path_axioms list_pag.pag_ok_new,
      of "LocalVariable 0 1" "Parameter 3 1" False "[([Field 0], ()), ([Field 2], ())]"] list_pag.pag_edges_new
  by (auto simp: field_edges_def path_ops_def append_projection_def new_qualified_def)

end
