(* ===== verification/Known_Names.thy ===== *)
theory Known_Names
  imports Call_Sites
begin

section \<open>Well known names (\<open>src/mir/known_names.rs\<close>)\<close>

text \<open>
  The analysis treats some functions of the standard library specially. A definition is
  recognised by the name of its crate and by its definition path, both asked from the
  compiler, and the answer is cached. The enumeration is kept in groups of constructors (a
  name of a group is the group's constructor applied to it), the constructor \<open>None\<close> is
  called \<open>NotKnown\<close>, and \<open>StdThreadBuilderSpawnUnchecked_\<close> ends in \<open>U\<close>. The closures of \<open>get_known_name_for\<close> are one definition each; a
  \<open>match\<close> on a string is a table.
\<close>

text \<open>
  What the compiler answers (\<open>TyCtxt\<close>): crate name and definition path. Of the data of a path
  element only names and the module of foreign items are told apart.
\<close>

datatype def_path_data = TypeNs string | ValueNs string | ForeignMod | OtherDefPathData

record def_path_elem =
  dpe_data :: def_path_data
  disambiguator :: nat

record def_names =
  tcx_crate_name :: "def_id \<Rightarrow> string"
  tcx_def_path :: "def_id \<Rightarrow> def_path_elem list"

datatype (plugins only: code) alloc_name =
    AllocRawVecMinNonZeroCap | RustAlloc | RustAllocZeroed | RustDealloc | RustRealloc |
    RustAllocErrorHandler | StdAllocAlloc | StdAllocAllocZeroed | StdAllocDealloc |
    StdAllocRealloc | StdAllocExchangeMalloc | StdAllocBoxFree | StdAllocHandleAllocError |
    StdAllocAllocatorAllocate | StdAllocAllocatorAllocateZeroed | StdAllocAllocatorDeallocate |
    StdAllocAllocatorGrow | StdAllocAllocatorGrowZeroed | StdAllocAllocatorShrink |
    AllocRawVecCurrnetMemory | AllocRawVecGrowAmortized | AllocRawVecGrowExact |
    AllocRawVecShrink | AllocRawVecFinishGrow | AllocRawVecAllocateIn

datatype (plugins only: code) intrinsic_name =
    StdIntrinsicsArithOffset | StdIntrinsicsBitreverse | StdIntrinsicsBswap | StdIntrinsicsCopy |
    StdIntrinsicsCopyNonOverlapping | StdIntrinsicsCtlz | StdIntrinsicsCtlzNonzero |
    StdIntrinsicsCtpop | StdIntrinsicsCttz | StdIntrinsicsCttzNonzero |
    StdIntrinsicsDiscriminantValue | StdIntrinsicsMinAlignOfVal | StdIntrinsicsMulWithOverflow |
    StdIntrinsicsNeedsDrop | StdIntrinsicsOffset | StdIntrinsicsRawEq | StdIntrinsicsSizeOf |
    StdIntrinsicsSizeOfVal | StdIntrinsicsTransmute | StdIntrinsicsWriteBytes

datatype (plugins only: code) float_intrinsic_name =
    StdIntrinsicsCeilf32 | StdIntrinsicsCeilf64 | StdIntrinsicsCopysignf32 |
    StdIntrinsicsCopysignf64 | StdIntrinsicsCosf32 | StdIntrinsicsCosf64 | StdIntrinsicsExp2f32 |
    StdIntrinsicsExp2f64 | StdIntrinsicsExpf32 | StdIntrinsicsExpf64 | StdIntrinsicsFabsf32 |
    StdIntrinsicsFabsf64 | StdIntrinsicsFaddFast | StdIntrinsicsFdivFast | StdIntrinsicsFloorf32 |
    StdIntrinsicsFloorf64 | StdIntrinsicsFmulFast | StdIntrinsicsFremFast | StdIntrinsicsFsubFast |
    StdIntrinsicsLog10f32 | StdIntrinsicsLog10f64 | StdIntrinsicsLog2f32 | StdIntrinsicsLog2f64 |
    StdIntrinsicsLogf32 | StdIntrinsicsLogf64 | StdIntrinsicsMaxnumf32 | StdIntrinsicsMaxnumf64 |
    StdIntrinsicsMinnumf32 | StdIntrinsicsMinnumf64 | StdIntrinsicsNearbyintf32 |
    StdIntrinsicsNearbyintf64 | StdIntrinsicsPowf32 | StdIntrinsicsPowf64 | StdIntrinsicsPowif32 |
    StdIntrinsicsPowif64 | StdIntrinsicsRintf32 | StdIntrinsicsRintf64 | StdIntrinsicsRoundf32 |
    StdIntrinsicsRoundf64 | StdIntrinsicsSinf32 | StdIntrinsicsSinf64 | StdIntrinsicsSqrtf32 |
    StdIntrinsicsSqrtf64 | StdIntrinsicsTruncf32 | StdIntrinsicsTruncf64

datatype (plugins only: code) ptr_name =
    StdPtrSwapNonOverlapping | StdPtrNonNullAsPtr | StdPtrNonNullAsRef | StdPtrNonNullAsMut |
    StdPtrNonNullCast | StdPtrUniqueNewUnchecked | StdPtrConstPtrCast | StdPtrConstPtrAdd |
    StdPtrConstPtrSub | StdPtrConstPtrOffset | StdPtrConstPtrByteAdd | StdPtrConstPtrByteSub |
    StdPtrConstPtrByteOffset | StdPtrConstPtrWrappingAdd | StdPtrConstPtrWrappingSub |
    StdPtrConstPtrWrappingOffset | StdPtrConstPtrWrappingByteAdd | StdPtrConstPtrWrappingByteSub |
    StdPtrConstPtrWrappingByteOffset | StdPtrMutPtrCast | StdPtrMutPtrAdd | StdPtrMutPtrSub |
    StdPtrMutPtrOffset | StdPtrMutPtrByteAdd | StdPtrMutPtrByteSub | StdPtrMutPtrByteOffset |
    StdPtrMutPtrWrappingAdd | StdPtrMutPtrWrappingSub | StdPtrMutPtrWrappingOffset |
    StdPtrMutPtrWrappingByteAdd | StdPtrMutPtrWrappingByteSub | StdPtrMutPtrWrappingByteOffset

datatype (plugins only: code) known_names =
    NotKnown | StdResultMapErr | StdCloneClone | StdFutureFromGenerator | StdMarkerPhantomData |
    StdMemReplace | StdOpsFunctionImpls | StdOpsFunctionFnCall | StdOpsFunctionFnMutCallMut |
    StdOpsFunctionFnOnceCallOnce | StdPanickingAssertFailed | StdPanickingBeginPanic |
    StdPanickingBeginPanicFmt | StdSliceCmpMemcmp | StdSliceIndexIndex | StdSliceIndexIndexMut |
    StdThreadBuilderSpawnUnchecked | StdThreadBuilderSpawnUncheckedU | StdConvertInto |
    AllocName alloc_name | Intrinsic intrinsic_name | FloatIntrinsic float_intrinsic_name |
    PtrName ptr_name

subsection \<open>Elements of a definition path\<close>

fun next_elem :: "def_path_elem list \<Rightarrow> def_path_elem option" where
  "next_elem [] = None"
| "next_elem (e # _) = Some e"

fun elem_name :: "def_path_data \<Rightarrow> string option" where
  "elem_name (TypeNs s) = Some s"
| "elem_name (ValueNs s) = Some s"
| "elem_name _ = None"

definition get_path_data_elem_name :: "def_path_elem option \<Rightarrow> string option" where
  "get_path_data_elem_name e = Option.bind e (\<lambda>elem. elem_name (dpe_data elem))"

definition is_foreign_module :: "def_path_elem option \<Rightarrow> bool" where
  "is_foreign_module e = (case e of Some elem \<Rightarrow> dpe_data elem = ForeignMod | None \<Rightarrow> False)"

definition path_data_elem_as_disambiguator :: "def_path_elem option \<Rightarrow> nat option" where
  "path_data_elem_as_disambiguator e = map_option disambiguator e"

definition by_name :: "def_path_elem option \<Rightarrow> (string \<times> known_names) list \<Rightarrow> known_names" where
  "by_name e table =
     (case get_path_data_elem_name e of
        Some n \<Rightarrow> (case map_of table n of Some k \<Rightarrow> k | None \<Rightarrow> NotKnown)
      | None \<Rightarrow> NotKnown)"

subsection \<open>The namespaces\<close>

definition get_known_name_for_alloc_namespace :: "def_path_elem list \<Rightarrow> known_names" where
  "get_known_name_for_alloc_namespace it =
     (if is_foreign_module (next_elem it)
      then by_name (next_elem (tl it))
        [(''RawVec'', AllocName RustAlloc), (''__rust_alloc_zeroed'', AllocName RustAllocZeroed),
         (''__rust_dealloc'', AllocName RustDealloc), (''__rust_realloc'', AllocName RustRealloc),
         (''__rust_alloc_error_handler'', AllocName RustAllocErrorHandler)]
      else by_name (next_elem it)
        [(''alloc'', AllocName StdAllocAlloc), (''alloc_zeroed'', AllocName StdAllocAllocZeroed),
         (''dealloc'', AllocName StdAllocDealloc), (''realloc'', AllocName StdAllocRealloc),
         (''exchange_malloc'', AllocName StdAllocExchangeMalloc),
         (''handle_alloc_error'', AllocName StdAllocHandleAllocError),
         (''box_free'', AllocName StdAllocBoxFree),
         (''Allocator'', by_name (next_elem (tl it))
          [(''allocate'', AllocName StdAllocAllocatorAllocate),
           (''allocate_zeroed'', AllocName StdAllocAllocatorAllocateZeroed),
           (''deallocate'', AllocName StdAllocAllocatorDeallocate),
           (''grow'', AllocName StdAllocAllocatorGrow),
           (''grow_zeroed'', AllocName StdAllocAllocatorGrowZeroed),
           (''shrink'', AllocName StdAllocAllocatorShrink)])])"

definition get_known_name_for_clone_trait :: "def_path_elem list \<Rightarrow> known_names" where
  "get_known_name_for_clone_trait it = by_name (next_elem it)
     [(''clone'', StdCloneClone)]"

definition get_known_name_for_clone_namespace :: "def_path_elem list \<Rightarrow> known_names" where
  "get_known_name_for_clone_namespace it = by_name (next_elem it)
     [(''Clone'', get_known_name_for_clone_trait (tl it))]"

definition get_known_name_for_future_namespace :: "def_path_elem list \<Rightarrow> known_names" where
  "get_known_name_for_future_namespace it = by_name (next_elem it)
     [(''from_generator'', StdFutureFromGenerator)]"

definition get_known_name_for_instrinsics_foreign_namespace :: "def_path_elem list \<Rightarrow> known_names" where
  "get_known_name_for_instrinsics_foreign_namespace it = by_name (next_elem it)
     [(''arith_offset'', Intrinsic StdIntrinsicsArithOffset),
      (''bitreverse'', Intrinsic StdIntrinsicsBitreverse),
      (''bswap'', Intrinsic StdIntrinsicsBswap),
      (''ceilf32'', FloatIntrinsic StdIntrinsicsCeilf32),
      (''ceilf64'', FloatIntrinsic StdIntrinsicsCeilf64), (''compare_bytes'', StdSliceCmpMemcmp),
      (''copysignf32'', FloatIntrinsic StdIntrinsicsCopysignf32),
      (''copysignf64'', FloatIntrinsic StdIntrinsicsCopysignf64),
      (''cosf32'', FloatIntrinsic StdIntrinsicsCosf32),
      (''cosf64'', FloatIntrinsic StdIntrinsicsCosf64), (''ctlz'', Intrinsic StdIntrinsicsCtlz),
      (''ctlz_nonzero'', Intrinsic StdIntrinsicsCtlzNonzero),
      (''ctpop'', Intrinsic StdIntrinsicsCtpop), (''cttz'', Intrinsic StdIntrinsicsCttz),
      (''cttz_nonzero'', Intrinsic StdIntrinsicsCttzNonzero),
      (''discriminant_value'', Intrinsic StdIntrinsicsDiscriminantValue),
      (''exp2f32'', FloatIntrinsic StdIntrinsicsExp2f32),
      (''exp2f64'', FloatIntrinsic StdIntrinsicsExp2f64),
      (''expf32'', FloatIntrinsic StdIntrinsicsExpf32),
      (''expf64'', FloatIntrinsic StdIntrinsicsExpf64),
      (''fabsf32'', FloatIntrinsic StdIntrinsicsFabsf32),
      (''fabsf64'', FloatIntrinsic StdIntrinsicsFabsf64),
      (''fadd_fast'', FloatIntrinsic StdIntrinsicsFaddFast),
      (''fdiv_fast'', FloatIntrinsic StdIntrinsicsFdivFast),
      (''floorf32'', FloatIntrinsic StdIntrinsicsFloorf32),
      (''floorf64'', FloatIntrinsic StdIntrinsicsFloorf64),
      (''fmul_fast'', FloatIntrinsic StdIntrinsicsFmulFast),
      (''frem_fast'', FloatIntrinsic StdIntrinsicsFremFast),
      (''fsub_fast'', FloatIntrinsic StdIntrinsicsFsubFast),
      (''log10f32'', FloatIntrinsic StdIntrinsicsLog10f32),
      (''log10f64'', FloatIntrinsic StdIntrinsicsLog10f64),
      (''log2f32'', FloatIntrinsic StdIntrinsicsLog2f32),
      (''log2f64'', FloatIntrinsic StdIntrinsicsLog2f64),
      (''logf32'', FloatIntrinsic StdIntrinsicsLogf32),
      (''logf64'', FloatIntrinsic StdIntrinsicsLogf64),
      (''maxnumf32'', FloatIntrinsic StdIntrinsicsMaxnumf32),
      (''maxnumf64'', FloatIntrinsic StdIntrinsicsMaxnumf64),
      (''min_align_of_val'', Intrinsic StdIntrinsicsMinAlignOfVal),
      (''minnumf32'', FloatIntrinsic StdIntrinsicsMinnumf32),
      (''minnumf64'', FloatIntrinsic StdIntrinsicsMinnumf64),
      (''mul_with_overflow'', Intrinsic StdIntrinsicsMulWithOverflow),
      (''nearbyintf32'', FloatIntrinsic StdIntrinsicsNearbyintf32),
      (''nearbyintf64'', FloatIntrinsic StdIntrinsicsNearbyintf64),
      (''needs_drop'', Intrinsic StdIntrinsicsNeedsDrop),
      (''offset'', Intrinsic StdIntrinsicsOffset),
      (''powf32'', FloatIntrinsic StdIntrinsicsPowf32),
      (''powf64'', FloatIntrinsic StdIntrinsicsPowf64),
      (''powif32'', FloatIntrinsic StdIntrinsicsPowif32),
      (''powif64'', FloatIntrinsic StdIntrinsicsPowif64),
      (''raw_eq'', Intrinsic StdIntrinsicsRawEq),
      (''rintf32'', FloatIntrinsic StdIntrinsicsRintf32),
      (''rintf64'', FloatIntrinsic StdIntrinsicsRintf64),
      (''roundf32'', FloatIntrinsic StdIntrinsicsRintf32),
      (''roundf64'', FloatIntrinsic StdIntrinsicsRintf64),
      (''sinf32'', FloatIntrinsic StdIntrinsicsSinf32),
      (''sinf64'', FloatIntrinsic StdIntrinsicsSinf64),
      (''size_of'', Intrinsic StdIntrinsicsSizeOf),
      (''size_of_val'', Intrinsic StdIntrinsicsSizeOfVal),
      (''sqrtf32'', FloatIntrinsic StdIntrinsicsSqrtf32),
      (''sqrtf64'', FloatIntrinsic StdIntrinsicsSqrtf64),
      (''transmute'', Intrinsic StdIntrinsicsTransmute),
      (''truncf32'', FloatIntrinsic StdIntrinsicsTruncf32),
      (''truncf64'', FloatIntrinsic StdIntrinsicsTruncf64)]"

definition get_known_name_for_intrinsics_namespace :: "def_path_elem list \<Rightarrow> known_names" where
  "get_known_name_for_intrinsics_namespace it =
     (if path_data_elem_as_disambiguator (next_elem it) = Some 0
      then (if is_foreign_module (next_elem it)
            then get_known_name_for_instrinsics_foreign_namespace (tl it)
            else by_name (next_elem it)
              [(''copy'', Intrinsic StdIntrinsicsCopy),
               (''copy_nonoverlapping'', Intrinsic StdIntrinsicsCopyNonOverlapping),
               (''write_bytes'', Intrinsic StdIntrinsicsWriteBytes)])
      else NotKnown)"

definition get_known_name_for_marker_namespace :: "def_path_elem list \<Rightarrow> known_names" where
  "get_known_name_for_marker_namespace it = by_name (next_elem it)
     [(''PhantomData'', StdMarkerPhantomData)]"

definition get_known_name_for_mem_namespace :: "def_path_elem list \<Rightarrow> known_names" where
  "get_known_name_for_mem_namespace it = by_name (next_elem it)
     [(''replace'', StdMemReplace)]"

definition get_known_name_for_fn_trait :: "def_path_elem list \<Rightarrow> known_names" where
  "get_known_name_for_fn_trait it = by_name (next_elem it)
     [(''call'', StdOpsFunctionFnCall), (''call_mut'', StdOpsFunctionFnMutCallMut),
      (''call_once'', StdOpsFunctionFnOnceCallOnce),
      (''call_once_force'', StdOpsFunctionFnOnceCallOnce)]"

definition get_known_name_for_ops_function_namespace :: "def_path_elem list \<Rightarrow> known_names" where
  "get_known_name_for_ops_function_namespace it = by_name (next_elem it)
     [(''Fn'', get_known_name_for_fn_trait (tl it)),
      (''FnMut'', get_known_name_for_fn_trait (tl it)),
      (''FnOnce'', get_known_name_for_fn_trait (tl it))]"

definition get_known_name_for_ops_namespace :: "def_path_elem list \<Rightarrow> known_names" where
  "get_known_name_for_ops_namespace it = by_name (next_elem it)
     [(''function'', get_known_name_for_ops_function_namespace (tl it))]"

definition get_known_name_for_panicking_namespace :: "def_path_elem list \<Rightarrow> known_names" where
  "get_known_name_for_panicking_namespace it = by_name (next_elem it)
     [(''assert_failed'', StdPanickingAssertFailed), (''begin_panic'', StdPanickingBeginPanic),
      (''panic'', StdPanickingBeginPanic), (''begin_panic_fmt'', StdPanickingBeginPanicFmt),
      (''panic_fmt'', StdPanickingBeginPanicFmt)]"

definition get_known_name_for_ptr_mut_ptr_namespace :: "def_path_elem list \<Rightarrow> known_names" where
  "get_known_name_for_ptr_mut_ptr_namespace it =
     (if path_data_elem_as_disambiguator (next_elem it) = Some 0
      then by_name (next_elem (tl it))
        [(''write_bytes'', Intrinsic StdIntrinsicsWriteBytes),
         (''cast'', PtrName StdPtrMutPtrCast), (''add'', PtrName StdPtrMutPtrAdd),
         (''sub'', PtrName StdPtrMutPtrSub), (''offset'', PtrName StdPtrMutPtrOffset),
         (''byte_add'', PtrName StdPtrMutPtrByteAdd), (''byte_sub'', PtrName StdPtrMutPtrByteSub),
         (''byte_offset'', PtrName StdPtrMutPtrByteOffset),
         (''wrapping_add'', PtrName StdPtrMutPtrWrappingAdd),
         (''wrapping_sub'', PtrName StdPtrMutPtrWrappingSub),
         (''wrapping_offset'', PtrName StdPtrMutPtrWrappingOffset),
         (''wrapping_byte_add'', PtrName StdPtrMutPtrWrappingByteAdd),
         (''wrapping_byte_sub'', PtrName StdPtrMutPtrWrappingByteSub),
         (''wrapping_byte_offset'', PtrName StdPtrMutPtrWrappingByteOffset)]
      else NotKnown)"

definition get_known_name_for_ptr_const_ptr_namespace :: "def_path_elem list \<Rightarrow> known_names" where
  "get_known_name_for_ptr_const_ptr_namespace it =
     (if path_data_elem_as_disambiguator (next_elem it) = Some 0
      then by_name (next_elem (tl it))
        [(''write_bytes'', Intrinsic StdIntrinsicsWriteBytes),
         (''cast'', PtrName StdPtrConstPtrCast), (''add'', PtrName StdPtrConstPtrAdd),
         (''sub'', PtrName StdPtrConstPtrSub), (''offset'', PtrName StdPtrConstPtrOffset),
         (''byte_add'', PtrName StdPtrConstPtrByteAdd),
         (''byte_sub'', PtrName StdPtrConstPtrByteSub),
         (''byte_offset'', PtrName StdPtrConstPtrByteOffset),
         (''wrapping_add'', PtrName StdPtrConstPtrWrappingAdd),
         (''wrapping_sub'', PtrName StdPtrConstPtrWrappingSub),
         (''wrapping_offset'', PtrName StdPtrConstPtrWrappingOffset),
         (''wrapping_byte_add'', PtrName StdPtrConstPtrWrappingByteAdd),
         (''wrapping_byte_sub'', PtrName StdPtrConstPtrWrappingByteSub),
         (''wrapping_byte_offset'', PtrName StdPtrConstPtrWrappingByteOffset)]
      else NotKnown)"

definition get_known_name_for_ptr_non_null_namespace :: "def_path_elem list \<Rightarrow> known_names" where
  "get_known_name_for_ptr_non_null_namespace it = by_name (next_elem (tl it))
     [(''as_ptr'', PtrName StdPtrNonNullAsPtr), (''as_mut'', PtrName StdPtrNonNullAsMut),
      (''as_ref'', PtrName StdPtrNonNullAsRef), (''cast'', PtrName StdPtrNonNullCast)]"

definition get_known_name_for_ptr_unique_namespace :: "def_path_elem list \<Rightarrow> known_names" where
  "get_known_name_for_ptr_unique_namespace it = by_name (next_elem (tl it))
     [(''new_unchecked'', PtrName StdPtrUniqueNewUnchecked)]"

definition get_known_name_for_ptr_namespace :: "def_path_elem list \<Rightarrow> known_names" where
  "get_known_name_for_ptr_namespace it = by_name (next_elem it)
     [(''swap_nonoverlapping'', PtrName StdPtrSwapNonOverlapping),
      (''mut_ptr'', get_known_name_for_ptr_mut_ptr_namespace (tl it)),
      (''const_ptr'', get_known_name_for_ptr_const_ptr_namespace (tl it)),
      (''non_null'', get_known_name_for_ptr_non_null_namespace (tl it)),
      (''unique'', get_known_name_for_ptr_unique_namespace (tl it))]"

definition get_known_name_for_slice_cmp_namespace :: "def_path_elem list \<Rightarrow> known_names" where
  "get_known_name_for_slice_cmp_namespace it =
     (if path_data_elem_as_disambiguator (next_elem it) = Some 0
      then by_name (next_elem (tl it))
        [(''memcmp'', StdSliceCmpMemcmp)]
      else NotKnown)"

definition get_known_name_for_slice_index_namespace :: "def_path_elem list \<Rightarrow> known_names" where
  "get_known_name_for_slice_index_namespace it =
     (if path_data_elem_as_disambiguator (next_elem it) = Some 0
      then by_name (next_elem (tl it))
        [(''index'', StdSliceIndexIndex), (''index_mut'', StdSliceIndexIndexMut)]
      else NotKnown)"

definition get_known_name_for_sync_once_namespace :: "def_path_elem list \<Rightarrow> known_names" where
  "get_known_name_for_sync_once_namespace it =
     (if path_data_elem_as_disambiguator (next_elem it) = Some 2
      then by_name (next_elem (tl it))
        [(''call_once'', StdOpsFunctionFnOnceCallOnce),
         (''call_once_force'', StdOpsFunctionFnOnceCallOnce)]
      else NotKnown)"

definition get_known_name_for_raw_vec_namespace :: "def_path_elem list \<Rightarrow> known_names" where
  "get_known_name_for_raw_vec_namespace it =
     (if path_data_elem_as_disambiguator (next_elem it) = Some 1
      then by_name (next_elem (tl it))
        [(''MIN_NON_ZERO_CAP'', AllocName AllocRawVecMinNonZeroCap),
         (''allocate_in'', AllocName AllocRawVecAllocateIn),
         (''current_memory'', AllocName AllocRawVecCurrnetMemory)]
      else by_name (next_elem (tl it))
        [(''allocate_in'', AllocName AllocRawVecAllocateIn),
         (''current_memory'', AllocName AllocRawVecCurrnetMemory),
         (''grow_amortized'', AllocName AllocRawVecGrowAmortized),
         (''grow_exact'', AllocName AllocRawVecGrowExact),
         (''finish_grow'', AllocName AllocRawVecFinishGrow),
         (''shrink'', AllocName AllocRawVecShrink)])"

definition get_known_name_for_slice_namespace :: "def_path_elem list \<Rightarrow> known_names" where
  "get_known_name_for_slice_namespace it = by_name (next_elem it)
     [(''cmp'', get_known_name_for_slice_cmp_namespace (tl it)),
      (''index'', get_known_name_for_slice_index_namespace (tl it))]"

definition get_known_name_for_sync_namespace :: "def_path_elem list \<Rightarrow> known_names" where
  "get_known_name_for_sync_namespace it = by_name (next_elem it)
     [(''once'', get_known_name_for_sync_once_namespace (tl it))]"

definition get_known_name_for_thread_namespace :: "def_path_elem list \<Rightarrow> known_names" where
  "get_known_name_for_thread_namespace it =
     (if path_data_elem_as_disambiguator (next_elem it) = Some 0
      then by_name (next_elem (tl it))
        [(''spawn_unchecked'', StdThreadBuilderSpawnUnchecked),
         (''spawn_unchecked_'', StdThreadBuilderSpawnUncheckedU)]
      else NotKnown)"

definition get_known_name_for_result_namespace :: "def_path_elem list \<Rightarrow> known_names" where
  "get_known_name_for_result_namespace it = by_name (next_elem (tl it))
     [(''map_err'', StdResultMapErr)]"

definition get_known_name_for_convert_namespace :: "def_path_elem list \<Rightarrow> known_names" where
  "get_known_name_for_convert_namespace it = by_name (next_elem (tl it))
     [(''into'', StdConvertInto)]"

definition get_known_name_for_known_crate :: "def_path_elem list \<Rightarrow> known_names" where
  "get_known_name_for_known_crate it = by_name (next_elem it)
     [(''alloc'', get_known_name_for_alloc_namespace (tl it)),
      (''clone'', get_known_name_for_clone_namespace (tl it)),
      (''future'', get_known_name_for_future_namespace (tl it)),
      (''intrinsics'', get_known_name_for_intrinsics_namespace (tl it)),
      (''marker'', get_known_name_for_marker_namespace (tl it)),
      (''mem'', get_known_name_for_mem_namespace (tl it)),
      (''ops'', get_known_name_for_ops_namespace (tl it)),
      (''panicking'', get_known_name_for_panicking_namespace (tl it)),
      (''ptr'', get_known_name_for_ptr_namespace (tl it)),
      (''raw_vec'', get_known_name_for_raw_vec_namespace (tl it)),
      (''result'', get_known_name_for_result_namespace (tl it)),
      (''rt'', get_known_name_for_panicking_namespace (tl it)),
      (''slice'', get_known_name_for_slice_namespace (tl it)),
      (''sync'', get_known_name_for_sync_namespace (tl it)),
      (''thread'', get_known_name_for_thread_namespace (tl it)),
      (''convert'', get_known_name_for_convert_namespace (tl it))]"

subsection \<open>Names of definitions, and their cache\<close>

definition is_std_lib_func :: "'a def_names_scheme \<Rightarrow> def_id \<Rightarrow> bool" where
  "is_std_lib_func tcx d = (tcx_crate_name tcx d \<in> {''alloc'', ''core'', ''std''})"

definition get_known_name_for :: "'a def_names_scheme \<Rightarrow> def_id \<Rightarrow> known_names" where
  "get_known_name_for tcx d =
     (if tcx_crate_name tcx d \<in> {''alloc'', ''core'', ''std''}
      then get_known_name_for_known_crate (tcx_def_path tcx d)
      else NotKnown)"

type_synonym known_names_cache = "def_id \<rightharpoonup> known_names"

definition create_cache_from_language_items :: known_names_cache where
  "create_cache_from_language_items = Map.empty"

definition known_names_get :: "'a def_names_scheme \<Rightarrow> known_names_cache \<Rightarrow> def_id \<Rightarrow> known_names_cache \<times> known_names" where
  "known_names_get tcx cache d =
     (case cache d of
        Some k \<Rightarrow> (cache, k)
      | None \<Rightarrow> (cache(d \<mapsto> get_known_name_for tcx d), get_known_name_for tcx d))"

text \<open>
  The two tests for the call operators of closures (\<open>is_std_ops_fntrait_call\<close> and
  \<open>def_in_ops_func_namespace\<close> of \<open>src/mir/analysis_context.rs\<close>).
\<close>

definition is_std_ops_fntrait_call :: "'a def_names_scheme \<Rightarrow> known_names_cache \<Rightarrow> def_id \<Rightarrow> known_names_cache \<times> bool" where
  "is_std_ops_fntrait_call tcx cache d =
     (case known_names_get tcx cache d of (cache', k) \<Rightarrow>
        (cache', k \<in> {StdOpsFunctionFnCall, StdOpsFunctionFnMutCallMut, StdOpsFunctionFnOnceCallOnce}))"

definition def_in_ops_func_namespace :: "'a def_names_scheme \<Rightarrow> known_names_cache \<Rightarrow> def_id \<Rightarrow> known_names_cache \<times> bool" where
  "def_in_ops_func_namespace tcx cache d =
     (case known_names_get tcx cache d of (cache', k) \<Rightarrow>
        (cache', k \<in> {StdOpsFunctionImpls, StdOpsFunctionFnCall, StdOpsFunctionFnMutCallMut,
                       StdOpsFunctionFnOnceCallOnce}))"

definition is_fn_once_call_once :: "'a def_names_scheme \<Rightarrow> def_id \<Rightarrow> bool" where
  "is_fn_once_call_once tcx i = (get_known_name_for tcx i = StdOpsFunctionFnOnceCallOnce)"

definition names_cache_ok :: "'a def_names_scheme \<Rightarrow> known_names_cache \<Rightarrow> bool" where
  "names_cache_ok tcx cache \<longleftrightarrow> (\<forall>d k. cache d = Some k \<longrightarrow> k = get_known_name_for tcx d)"

lemma names_cache_empty: "names_cache_ok tcx create_cache_from_language_items"
  by (simp add: names_cache_ok_def create_cache_from_language_items_def)

lemma known_names_get_ok:
  "names_cache_ok tcx cache \<Longrightarrow> known_names_get tcx cache d = (cache', k) \<Longrightarrow>
     k = get_known_name_for tcx d \<and> names_cache_ok tcx cache'"
  by (auto simp: names_cache_ok_def known_names_get_def simp del: split_paired_All split: option.splits if_splits)

subsection \<open>Names that no definition has\<close>

definition unused_names :: "known_names set" where
  "unused_names = {StdOpsFunctionImpls, FloatIntrinsic StdIntrinsicsRoundf32, FloatIntrinsic StdIntrinsicsRoundf64}"

named_theorems name_range \<open>no namespace returns an unused name\<close>

lemma by_name_used [name_range]:
  "(\<forall>k \<in> snd ` set table. k \<notin> unused_names) \<Longrightarrow> by_name e table \<notin> unused_names"
  by (auto simp: by_name_def unused_names_def split: option.splits dest!: map_of_SomeD)

lemma used_names [name_range]:
  "NotKnown \<notin> unused_names" "StdResultMapErr \<notin> unused_names"
  "StdCloneClone \<notin> unused_names" "StdFutureFromGenerator \<notin> unused_names"
  "StdMarkerPhantomData \<notin> unused_names" "StdMemReplace \<notin> unused_names"
  "StdOpsFunctionFnCall \<notin> unused_names" "StdOpsFunctionFnMutCallMut \<notin> unused_names"
  "StdOpsFunctionFnOnceCallOnce \<notin> unused_names" "StdPanickingAssertFailed \<notin> unused_names"
  "StdPanickingBeginPanic \<notin> unused_names" "StdPanickingBeginPanicFmt \<notin> unused_names"
  "StdSliceCmpMemcmp \<notin> unused_names" "StdSliceIndexIndex \<notin> unused_names"
  "StdSliceIndexIndexMut \<notin> unused_names" "StdThreadBuilderSpawnUnchecked \<notin> unused_names"
  "StdThreadBuilderSpawnUncheckedU \<notin> unused_names" "StdConvertInto \<notin> unused_names"
  "AllocName a \<notin> unused_names" "Intrinsic i \<notin> unused_names"
  "PtrName p \<notin> unused_names" "FloatIntrinsic f \<in> unused_names \<longleftrightarrow> f \<in> {StdIntrinsicsRoundf32, StdIntrinsicsRoundf64}"
  by (simp_all add: unused_names_def)

lemma alloc_namespace_used [name_range]: "get_known_name_for_alloc_namespace it \<notin> unused_names"
  unfolding get_known_name_for_alloc_namespace_def by (simp add: name_range)

lemma clone_trait_used [name_range]: "get_known_name_for_clone_trait it \<notin> unused_names"
  unfolding get_known_name_for_clone_trait_def by (simp add: name_range)

lemma clone_namespace_used [name_range]: "get_known_name_for_clone_namespace it \<notin> unused_names"
  unfolding get_known_name_for_clone_namespace_def by (simp add: name_range)

lemma future_namespace_used [name_range]: "get_known_name_for_future_namespace it \<notin> unused_names"
  unfolding get_known_name_for_future_namespace_def by (simp add: name_range)

lemma instrinsics_foreign_namespace_used [name_range]: "get_known_name_for_instrinsics_foreign_namespace it \<notin> unused_names"
  unfolding get_known_name_for_instrinsics_foreign_namespace_def by (simp add: name_range)

lemma intrinsics_namespace_used [name_range]: "get_known_name_for_intrinsics_namespace it \<notin> unused_names"
  unfolding get_known_name_for_intrinsics_namespace_def by (simp add: name_range)

lemma marker_namespace_used [name_range]: "get_known_name_for_marker_namespace it \<notin> unused_names"
  unfolding get_known_name_for_marker_namespace_def by (simp add: name_range)

lemma mem_namespace_used [name_range]: "get_known_name_for_mem_namespace it \<notin> unused_names"
  unfolding get_known_name_for_mem_namespace_def by (simp add: name_range)

lemma fn_trait_used [name_range]: "get_known_name_for_fn_trait it \<notin> unused_names"
  unfolding get_known_name_for_fn_trait_def by (simp add: name_range)

lemma ops_function_namespace_used [name_range]: "get_known_name_for_ops_function_namespace it \<notin> unused_names"
  unfolding get_known_name_for_ops_function_namespace_def by (simp add: name_range)

lemma ops_namespace_used [name_range]: "get_known_name_for_ops_namespace it \<notin> unused_names"
  unfolding get_known_name_for_ops_namespace_def by (simp add: name_range)

lemma panicking_namespace_used [name_range]: "get_known_name_for_panicking_namespace it \<notin> unused_names"
  unfolding get_known_name_for_panicking_namespace_def by (simp add: name_range)

lemma ptr_mut_ptr_namespace_used [name_range]: "get_known_name_for_ptr_mut_ptr_namespace it \<notin> unused_names"
  unfolding get_known_name_for_ptr_mut_ptr_namespace_def by (simp add: name_range)

lemma ptr_const_ptr_namespace_used [name_range]: "get_known_name_for_ptr_const_ptr_namespace it \<notin> unused_names"
  unfolding get_known_name_for_ptr_const_ptr_namespace_def by (simp add: name_range)

lemma ptr_non_null_namespace_used [name_range]: "get_known_name_for_ptr_non_null_namespace it \<notin> unused_names"
  unfolding get_known_name_for_ptr_non_null_namespace_def by (simp add: name_range)

lemma ptr_unique_namespace_used [name_range]: "get_known_name_for_ptr_unique_namespace it \<notin> unused_names"
  unfolding get_known_name_for_ptr_unique_namespace_def by (simp add: name_range)

lemma ptr_namespace_used [name_range]: "get_known_name_for_ptr_namespace it \<notin> unused_names"
  unfolding get_known_name_for_ptr_namespace_def by (simp add: name_range)

lemma slice_cmp_namespace_used [name_range]: "get_known_name_for_slice_cmp_namespace it \<notin> unused_names"
  unfolding get_known_name_for_slice_cmp_namespace_def by (simp add: name_range)

lemma slice_index_namespace_used [name_range]: "get_known_name_for_slice_index_namespace it \<notin> unused_names"
  unfolding get_known_name_for_slice_index_namespace_def by (simp add: name_range)

lemma sync_once_namespace_used [name_range]: "get_known_name_for_sync_once_namespace it \<notin> unused_names"
  unfolding get_known_name_for_sync_once_namespace_def by (simp add: name_range)

lemma raw_vec_namespace_used [name_range]: "get_known_name_for_raw_vec_namespace it \<notin> unused_names"
  unfolding get_known_name_for_raw_vec_namespace_def by (simp add: name_range)

lemma slice_namespace_used [name_range]: "get_known_name_for_slice_namespace it \<notin> unused_names"
  unfolding get_known_name_for_slice_namespace_def by (simp add: name_range)

lemma sync_namespace_used [name_range]: "get_known_name_for_sync_namespace it \<notin> unused_names"
  unfolding get_known_name_for_sync_namespace_def by (simp add: name_range)

lemma thread_namespace_used [name_range]: "get_known_name_for_thread_namespace it \<notin> unused_names"
  unfolding get_known_name_for_thread_namespace_def by (simp add: name_range)

lemma result_namespace_used [name_range]: "get_known_name_for_result_namespace it \<notin> unused_names"
  unfolding get_known_name_for_result_namespace_def by (simp add: name_range)

lemma convert_namespace_used [name_range]: "get_known_name_for_convert_namespace it \<notin> unused_names"
  unfolding get_known_name_for_convert_namespace_def by (simp add: name_range)

lemma known_crate_used [name_range]: "get_known_name_for_known_crate it \<notin> unused_names"
  unfolding get_known_name_for_known_crate_def by (simp add: name_range)

subsection \<open>How deep a path is looked at\<close>

named_theorems name_depth \<open>a namespace looks at the first elements only\<close>

lemma next_take [name_depth]: "0 < n \<Longrightarrow> next_elem (take n it) = next_elem it"
  by (cases it) (auto simp: take_Cons')

lemma tl_take_depth [name_depth]: "tl (take n it) = take (n - 1) (tl it)"
  by (rule tl_take)

lemma alloc_namespace_depth [name_depth]: "2 \<le> n \<Longrightarrow> get_known_name_for_alloc_namespace (take n it) = get_known_name_for_alloc_namespace it"
  by (simp add: get_known_name_for_alloc_namespace_def name_depth)

lemma clone_trait_depth [name_depth]: "1 \<le> n \<Longrightarrow> get_known_name_for_clone_trait (take n it) = get_known_name_for_clone_trait it"
  by (simp add: get_known_name_for_clone_trait_def name_depth)

lemma clone_namespace_depth [name_depth]: "2 \<le> n \<Longrightarrow> get_known_name_for_clone_namespace (take n it) = get_known_name_for_clone_namespace it"
  by (simp add: get_known_name_for_clone_namespace_def name_depth)

lemma future_namespace_depth [name_depth]: "1 \<le> n \<Longrightarrow> get_known_name_for_future_namespace (take n it) = get_known_name_for_future_namespace it"
  by (simp add: get_known_name_for_future_namespace_def name_depth)

lemma instrinsics_foreign_namespace_depth [name_depth]: "1 \<le> n \<Longrightarrow> get_known_name_for_instrinsics_foreign_namespace (take n it) = get_known_name_for_instrinsics_foreign_namespace it"
  by (simp add: get_known_name_for_instrinsics_foreign_namespace_def name_depth)

lemma intrinsics_namespace_depth [name_depth]: "2 \<le> n \<Longrightarrow> get_known_name_for_intrinsics_namespace (take n it) = get_known_name_for_intrinsics_namespace it"
  by (simp add: get_known_name_for_intrinsics_namespace_def name_depth)

lemma marker_namespace_depth [name_depth]: "1 \<le> n \<Longrightarrow> get_known_name_for_marker_namespace (take n it) = get_known_name_for_marker_namespace it"
  by (simp add: get_known_name_for_marker_namespace_def name_depth)

lemma mem_namespace_depth [name_depth]: "1 \<le> n \<Longrightarrow> get_known_name_for_mem_namespace (take n it) = get_known_name_for_mem_namespace it"
  by (simp add: get_known_name_for_mem_namespace_def name_depth)

lemma fn_trait_depth [name_depth]: "1 \<le> n \<Longrightarrow> get_known_name_for_fn_trait (take n it) = get_known_name_for_fn_trait it"
  by (simp add: get_known_name_for_fn_trait_def name_depth)

lemma ops_function_namespace_depth [name_depth]: "2 \<le> n \<Longrightarrow> get_known_name_for_ops_function_namespace (take n it) = get_known_name_for_ops_function_namespace it"
  by (simp add: get_known_name_for_ops_function_namespace_def name_depth)

lemma ops_namespace_depth [name_depth]: "3 \<le> n \<Longrightarrow> get_known_name_for_ops_namespace (take n it) = get_known_name_for_ops_namespace it"
  by (simp add: get_known_name_for_ops_namespace_def name_depth)

lemma panicking_namespace_depth [name_depth]: "1 \<le> n \<Longrightarrow> get_known_name_for_panicking_namespace (take n it) = get_known_name_for_panicking_namespace it"
  by (simp add: get_known_name_for_panicking_namespace_def name_depth)

lemma ptr_mut_ptr_namespace_depth [name_depth]: "2 \<le> n \<Longrightarrow> get_known_name_for_ptr_mut_ptr_namespace (take n it) = get_known_name_for_ptr_mut_ptr_namespace it"
  by (simp add: get_known_name_for_ptr_mut_ptr_namespace_def name_depth)

lemma ptr_const_ptr_namespace_depth [name_depth]: "2 \<le> n \<Longrightarrow> get_known_name_for_ptr_const_ptr_namespace (take n it) = get_known_name_for_ptr_const_ptr_namespace it"
  by (simp add: get_known_name_for_ptr_const_ptr_namespace_def name_depth)

lemma ptr_non_null_namespace_depth [name_depth]: "2 \<le> n \<Longrightarrow> get_known_name_for_ptr_non_null_namespace (take n it) = get_known_name_for_ptr_non_null_namespace it"
  by (simp add: get_known_name_for_ptr_non_null_namespace_def name_depth)

lemma ptr_unique_namespace_depth [name_depth]: "2 \<le> n \<Longrightarrow> get_known_name_for_ptr_unique_namespace (take n it) = get_known_name_for_ptr_unique_namespace it"
  by (simp add: get_known_name_for_ptr_unique_namespace_def name_depth)

lemma ptr_namespace_depth [name_depth]: "3 \<le> n \<Longrightarrow> get_known_name_for_ptr_namespace (take n it) = get_known_name_for_ptr_namespace it"
  by (simp add: get_known_name_for_ptr_namespace_def name_depth)

lemma slice_cmp_namespace_depth [name_depth]: "2 \<le> n \<Longrightarrow> get_known_name_for_slice_cmp_namespace (take n it) = get_known_name_for_slice_cmp_namespace it"
  by (simp add: get_known_name_for_slice_cmp_namespace_def name_depth)

lemma slice_index_namespace_depth [name_depth]: "2 \<le> n \<Longrightarrow> get_known_name_for_slice_index_namespace (take n it) = get_known_name_for_slice_index_namespace it"
  by (simp add: get_known_name_for_slice_index_namespace_def name_depth)

lemma sync_once_namespace_depth [name_depth]: "2 \<le> n \<Longrightarrow> get_known_name_for_sync_once_namespace (take n it) = get_known_name_for_sync_once_namespace it"
  by (simp add: get_known_name_for_sync_once_namespace_def name_depth)

lemma raw_vec_namespace_depth [name_depth]: "2 \<le> n \<Longrightarrow> get_known_name_for_raw_vec_namespace (take n it) = get_known_name_for_raw_vec_namespace it"
  by (simp add: get_known_name_for_raw_vec_namespace_def name_depth)

lemma slice_namespace_depth [name_depth]: "3 \<le> n \<Longrightarrow> get_known_name_for_slice_namespace (take n it) = get_known_name_for_slice_namespace it"
  by (simp add: get_known_name_for_slice_namespace_def name_depth)

lemma sync_namespace_depth [name_depth]: "3 \<le> n \<Longrightarrow> get_known_name_for_sync_namespace (take n it) = get_known_name_for_sync_namespace it"
  by (simp add: get_known_name_for_sync_namespace_def name_depth)

lemma thread_namespace_depth [name_depth]: "2 \<le> n \<Longrightarrow> get_known_name_for_thread_namespace (take n it) = get_known_name_for_thread_namespace it"
  by (simp add: get_known_name_for_thread_namespace_def name_depth)

lemma result_namespace_depth [name_depth]: "2 \<le> n \<Longrightarrow> get_known_name_for_result_namespace (take n it) = get_known_name_for_result_namespace it"
  by (simp add: get_known_name_for_result_namespace_def name_depth)

lemma convert_namespace_depth [name_depth]: "2 \<le> n \<Longrightarrow> get_known_name_for_convert_namespace (take n it) = get_known_name_for_convert_namespace it"
  by (simp add: get_known_name_for_convert_namespace_def name_depth)

lemma known_crate_depth [name_depth]: "4 \<le> n \<Longrightarrow> get_known_name_for_known_crate (take n it) = get_known_name_for_known_crate it"
  by (simp add: get_known_name_for_known_crate_def name_depth)

lemma known_name_used: "get_known_name_for tcx d \<notin> unused_names"
  by (simp add: get_known_name_for_def name_range)

subsection \<open>Properties\<close>

text \<open>
  C34: The cache does not change what a name is: asked through the cache, a definition has the
  known name computed from its crate and path, and the cache stays correct. No definition is
  named \<open>StdOpsFunctionImpls\<close> or one of the two rounding intrinsics, so the two tests
  for the call operators of closures always agree.
\<close>

theorem known_names_cached:
  assumes "names_cache_ok tcx cache"
  shows "snd (known_names_get tcx cache d) = get_known_name_for tcx d \<and>
    names_cache_ok tcx (fst (known_names_get tcx cache d)) \<and>
    get_known_name_for tcx d \<notin> unused_names \<and>
    def_in_ops_func_namespace tcx cache d = is_std_ops_fntrait_call tcx cache d"
proof -
  obtain cache' k where get: "known_names_get tcx cache d = (cache', k)" by fastforce
  have k: "k = get_known_name_for tcx d" "names_cache_ok tcx cache'" using known_names_get_ok [OF assms get] by auto
  then have "k \<noteq> StdOpsFunctionImpls" using known_name_used [of tcx d] by (auto simp: unused_names_def)
  then show ?thesis
    using k get known_name_used by (simp add: def_in_ops_func_namespace_def is_std_ops_fntrait_call_def)
qed

text \<open>A compiler that knows two definitions of the standard library.\<close>

definition sample_names :: def_names where
  "sample_names =
     \<lparr>tcx_crate_name = (\<lambda>d. if d = (0, 7) then ''rupta'' else ''core''),
      tcx_def_path = (\<lambda>d. map (\<lambda>s. \<lparr>dpe_data = TypeNs s, disambiguator = 0\<rparr>)
        (if d = (0, 1) then [''ops'', ''function'', ''FnOnce'', ''call_once'']
         else [''alloc'', ''alloc'']))\<rparr>"

theorem known_names_cached_witness:
  "snd (known_names_get sample_names create_cache_from_language_items (0, 1)) = StdOpsFunctionFnOnceCallOnce \<and>
   def_in_ops_func_namespace sample_names create_cache_from_language_items (0, 1) =
     is_std_ops_fntrait_call sample_names create_cache_from_language_items (0, 1)"
proof -
  have "get_known_name_for sample_names (0, 1) = StdOpsFunctionFnOnceCallOnce" by code_simp
  then show ?thesis
    using known_names_cached [OF names_cache_empty, of sample_names "(0, 1)"] by simp
qed

text \<open>
  Only definitions of the crates \<open>alloc\<close>, \<open>core\<close> and \<open>std\<close> have a known name, and at
  most the first four elements of a definition's path are looked at: whatever is defined
  inside a function with a four-element path carries the name of the function.
\<close>

theorem known_names_depth:
  "(\<not> is_std_lib_func tcx d \<longrightarrow> get_known_name_for tcx d = NotKnown) \<and>
   (is_std_lib_func tcx d \<longrightarrow> get_known_name_for tcx d = get_known_name_for_known_crate (take 4 (tcx_def_path tcx d)))"
  by (simp add: is_std_lib_func_def get_known_name_for_def name_depth)

theorem known_names_depth_witness:
  "get_known_name_for sample_names (0, 7) = NotKnown \<and>
   get_known_name_for sample_names (0, 2) = AllocName StdAllocAlloc"
proof -
  have "\<not> is_std_lib_func sample_names (0, 7)" "is_std_lib_func sample_names (0, 2)"
    "get_known_name_for_known_crate (take 4 (tcx_def_path sample_names (0, 2))) = AllocName StdAllocAlloc"
    by code_simp+
  then show ?thesis
    using known_names_depth [of sample_names "(0, 7)"] known_names_depth [of sample_names "(0, 2)"] by simp
qed

end
