(* ===== verification/Types.thy ===== *)
theory Types
  imports Known_Names
begin

section \<open>Types of the compiler, and the predicates of \<open>src/util/type_util.rs\<close> on them\<close>

text \<open>
  The kinds of types (\<open>TyKind\<close>) that the compiler documents, as far as the analysis tells them
  apart, and the queries it makes to the compiler (\<open>TyCtxt\<close>) as a record of functions. A
  constant of the type system is a type variable. Regions and mutability are kept as numbers
  and flags. A function pointer keeps the list of its inputs and its output.
\<close>

datatype alias_kind = ProjectionAlias | InherentAlias | OpaqueAlias | WeakAlias

datatype 'c ty =
    BoolTy
  | CharTy
  | IntTy nat
  | UintTy nat
  | FloatTy nat
  | StrTy
  | NeverTy
  | Adt def_id "('c ty, 'c) generic_arg_kind list"
  | ForeignTy def_id
  | ArrayTy "'c ty" 'c
  | SliceTy "'c ty"
  | RawPtr "'c ty" bool
  | RefTy nat "'c ty" bool
  | FnDef def_id "('c ty, 'c) generic_arg_kind list"
  | FnPtrTy "'c ty list"
  | DynamicTy "'c existential_predicate list" nat
  | Closure def_id "('c ty, 'c) generic_arg_kind list"
  | Coroutine def_id "('c ty, 'c) generic_arg_kind list"
  | CoroutineWitness def_id "('c ty, 'c) generic_arg_kind list"
  | TupleTy "'c ty list"
  | AliasTy alias_kind def_id "('c ty, 'c) generic_arg_kind list"
  | ParamTy nat
  | BoundTy nat
  | PlaceholderTy nat
  | InferTy nat
  | ErrorTy
and 'c existential_predicate =
    TraitPred def_id "('c ty, 'c) generic_arg_kind list"
  | ProjectionPred def_id "('c ty, 'c) generic_arg_kind list" "'c ty option"
  | AutoTraitPred def_id

type_synonym 'c generic_args = "('c ty, 'c) generic_arg_kind list"
type_synonym 'c generic_args_e = "('c ty, 'c) generic_arg_e list"

datatype adt_kind = StructAdt | UnionAdt | EnumAdt

record adt_def =
  adt_kind_of :: adt_kind
  adt_variants :: "def_id list list"
  adt_transparent :: bool

record layout =
  lay_size :: nat
  lay_zst :: bool
  lay_fields :: "(nat list \<times> nat list) option"

text \<open>
  The environment in which the compiler is asked: everything revealed, or the environment of
  an item (\<open>ParamEnv\<close>).
\<close>

datatype param_env = RevealAll | EnvOf def_id

text \<open>
  The compiler, the record of names extended by what it knows of types. \<open>lay_fields\<close> holds the offsets (in source order) and the \<open>memory_index\<close> of
  fields of arbitrary shape. \<open>tcx_local_decls\<close> are the types of the locals in the
  \<open>optimized_mir\<close> of a function, \<open>tcx_fn_has_self\<close> the answer for an associated item,
  \<open>tcx_rust_abi\<close> whether a function has the Rust calling convention, and
  \<open>tcx_args_normalize\<close> whether generic arguments can be normalized.
\<close>

record 'c tcx = def_names +
  tcx_adt :: "def_id \<Rightarrow> adt_def"
  tcx_type_of :: "def_id \<Rightarrow> 'c ty"
  tcx_erase_regions :: "'c ty \<Rightarrow> 'c ty"
  tcx_layout_of :: "'c ty \<Rightarrow> layout option"
  tcx_eval_usize :: "'c \<Rightarrow> nat option"
  tcx_const_param :: "'c \<Rightarrow> nat option"
  tcx_upvar_tys :: "'c generic_args \<Rightarrow> 'c ty list"
  tcx_prefix_tys :: "'c generic_args \<Rightarrow> 'c ty list"
  tcx_state_tys :: "def_id \<Rightarrow> 'c generic_args \<Rightarrow> 'c ty list list"
  tcx_boxed :: "'c ty \<Rightarrow> 'c ty option"
  tcx_fn_traits :: "def_id option \<times> def_id option \<times> def_id option"
  tcx_fn_once_output :: "def_id option"
  tcx_principal :: "'c ty \<Rightarrow> def_id option"
  tcx_container :: "def_id \<Rightarrow> def_id"
  tcx_normalize :: "param_env \<Rightarrow> 'c ty \<Rightarrow> 'c ty option"
  tcx_resolve :: "param_env \<Rightarrow> def_id \<Rightarrow> 'c generic_args \<Rightarrow> (def_id \<times> 'c generic_args) option"
  tcx_parent :: "def_id \<Rightarrow> def_id"
  tcx_pointee_trait :: "def_id option"
  tcx_discriminant_kind_trait :: "def_id option"
  tcx_ptr_metadata_ty :: "'c ty \<Rightarrow> 'c ty"
  tcx_discriminant_ty :: "'c ty \<Rightarrow> 'c ty"
  tcx_fn_output :: "def_id \<Rightarrow> 'c ty"
  tcx_closure_output :: "'c generic_args \<Rightarrow> 'c ty"
  tcx_local_decls :: "def_id \<Rightarrow> 'c ty list"
  tcx_is_mir_available :: "def_id \<Rightarrow> bool"
  tcx_trait_of_item :: "def_id \<Rightarrow> def_id option"
  tcx_fn_has_self :: "def_id \<Rightarrow> bool option"
  tcx_rust_abi :: "def_id \<Rightarrow> bool"
  tcx_args_normalize :: "'c generic_args \<Rightarrow> bool"

subsection \<open>Predicates of the compiler\<close>

fun is_ref :: "'c ty \<Rightarrow> bool" where
  "is_ref (RefTy _ _ _) = True"
| "is_ref _ = False"

fun is_fn_ptr :: "'c ty \<Rightarrow> bool" where
  "is_fn_ptr (FnPtrTy _) = True"
| "is_fn_ptr _ = False"

fun is_any_ptr :: "'c ty \<Rightarrow> bool" where
  "is_any_ptr (RawPtr _ _) = True"
| "is_any_ptr (RefTy _ _ _) = True"
| "is_any_ptr (FnPtrTy _) = True"
| "is_any_ptr _ = False"

fun is_trait :: "'c ty \<Rightarrow> bool" where
  "is_trait (DynamicTy _ _) = True"
| "is_trait _ = False"

fun is_closure :: "'c ty \<Rightarrow> bool" where
  "is_closure (Closure _ _) = True"
| "is_closure _ = False"

fun is_coroutine :: "'c ty \<Rightarrow> bool" where
  "is_coroutine (Coroutine _ _) = True"
| "is_coroutine _ = False"

fun is_foreign :: "'c ty \<Rightarrow> bool" where
  "is_foreign (ForeignTy _) = True"
| "is_foreign _ = False"

fun is_alias :: "'c ty \<Rightarrow> bool" where
  "is_alias (AliasTy _ _ _) = True"
| "is_alias _ = False"

fun is_enum :: "'c tcx \<Rightarrow> 'c ty \<Rightarrow> bool" where
  "is_enum tcx (Adt def _) = (adt_kind_of (tcx_adt tcx def) = EnumAdt)"
| "is_enum tcx _ = False"

subsection \<open>Dereferenced and element types\<close>

definition get_dereferenced_type :: "'c tcx \<Rightarrow> 'c ty \<Rightarrow> 'c ty" where
  "get_dereferenced_type tcx ty =
     (case ty of
        RawPtr t _ \<Rightarrow> t
      | RefTy _ t _ \<Rightarrow> t
      | _ \<Rightarrow> (case tcx_boxed tcx ty of Some t \<Rightarrow> t | None \<Rightarrow> ty))"

fun pointee_element :: "'c ty \<Rightarrow> 'c ty" where
  "pointee_element (ArrayTy t _) = t"
| "pointee_element (SliceTy t) = t"
| "pointee_element StrTy = CharTy"
| "pointee_element t = t"

fun get_element_type :: "'c ty \<Rightarrow> 'c ty" where
  "get_element_type (ArrayTy t _) = t"
| "get_element_type (RawPtr t _) = pointee_element t"
| "get_element_type (RefTy _ t _) = pointee_element t"
| "get_element_type (SliceTy t) = t"
| "get_element_type StrTy = CharTy"
| "get_element_type ty = ty"

subsection \<open>Concrete types\<close>

function (sequential) is_concrete :: "'c ty \<Rightarrow> bool" and are_concrete :: "'c generic_args \<Rightarrow> bool"
  and all_concrete :: "'c ty list \<Rightarrow> bool" where
  "is_concrete (Adt _ gen_args) = are_concrete gen_args"
| "is_concrete (Closure _ gen_args) = are_concrete gen_args"
| "is_concrete (FnDef _ gen_args) = are_concrete gen_args"
| "is_concrete (Coroutine _ gen_args) = are_concrete gen_args"
| "is_concrete (CoroutineWitness _ gen_args) = are_concrete gen_args"
| "is_concrete (AliasTy _ _ gen_args) = are_concrete gen_args"
| "is_concrete (TupleTy types) = all_concrete types"
| "is_concrete (BoundTy _) = False"
| "is_concrete (DynamicTy _ _) = False"
| "is_concrete ErrorTy = False"
| "is_concrete (InferTy _) = False"
| "is_concrete (ParamTy _) = False"
| "is_concrete (RefTy _ ty _) = is_concrete ty"
| "is_concrete _ = True"
| "are_concrete [] = True"
| "are_concrete (TypeKind ty # gen_args) = (is_concrete ty \<and> are_concrete gen_args)"
| "are_concrete (_ # gen_args) = are_concrete gen_args"
| "all_concrete [] = True"
| "all_concrete (ty # types) = (is_concrete ty \<and> all_concrete types)"
  by pat_completeness auto

termination
  by (relation "measure (case_sum size (case_sum (size_list (size_generic_arg_kind size (\<lambda>_. 0))) (size_list size)))") auto

subsection \<open>Pointers to slices, dynamic, foreign and basic types\<close>

definition pointer_target :: "'c ty \<Rightarrow> 'c ty option" where
  "pointer_target ty = (case ty of RawPtr t _ \<Rightarrow> Some t | RefTy _ t _ \<Rightarrow> Some t | _ \<Rightarrow> None)"

definition is_slice_pointer :: "'c ty \<Rightarrow> bool" where
  "is_slice_pointer ty = (case pointer_target ty of
     Some (SliceTy _) \<Rightarrow> True | Some StrTy \<Rightarrow> True | _ \<Rightarrow> False)"

definition is_dynamic_pointer :: "'c ty \<Rightarrow> bool" where
  "is_dynamic_pointer ty = (case pointer_target ty of Some t \<Rightarrow> is_trait t | None \<Rightarrow> False)"

definition is_foreign_pointer :: "'c ty \<Rightarrow> bool" where
  "is_foreign_pointer ty = (case pointer_target ty of Some t \<Rightarrow> is_foreign t | None \<Rightarrow> False)"

fun is_basic_type :: "'c ty \<Rightarrow> bool" where
  "is_basic_type BoolTy = True"
| "is_basic_type CharTy = True"
| "is_basic_type (IntTy _) = True"
| "is_basic_type (UintTy _) = True"
| "is_basic_type (FloatTy _) = True"
| "is_basic_type StrTy = True"
| "is_basic_type (ArrayTy elem_ty _) = is_basic_type elem_ty"
| "is_basic_type (SliceTy elem_ty) = is_basic_type elem_ty"
| "is_basic_type (TupleTy ty_list) = (ty_list = [])"
| "is_basic_type _ = False"

definition is_basic_pointer :: "'c tcx \<Rightarrow> 'c ty \<Rightarrow> bool" where
  "is_basic_pointer tcx ty = (if \<not> is_any_ptr ty then False else is_basic_type (get_dereferenced_type tcx ty))"

fun is_str_ref_array :: "'c ty \<Rightarrow> bool" where
  "is_str_ref_array (ArrayTy (RefTy _ StrTy _) _) = True"
| "is_str_ref_array _ = False"

definition is_transparent_wrapper :: "'c tcx \<Rightarrow> 'c ty \<Rightarrow> bool" where
  "is_transparent_wrapper tcx ty = (case ty of Adt def _ \<Rightarrow> adt_transparent (tcx_adt tcx def) | _ \<Rightarrow> False)"

definition is_fn_trait :: "'c tcx \<Rightarrow> def_id \<Rightarrow> bool" where
  "is_fn_trait tcx i =
     (case tcx_fn_traits tcx of (f, m, c) \<Rightarrow>
        if Some i = f then True else if Some i = m then True else if Some i = c then True else False)"

definition is_dynamic_fn_trait :: "'c tcx \<Rightarrow> 'c ty \<Rightarrow> bool" where
  "is_dynamic_fn_trait tcx ty =
     (if is_trait ty then (case tcx_principal tcx ty of Some d \<Rightarrow> is_fn_trait tcx d | None \<Rightarrow> False) else False)"

definition is_fn_once_output :: "'c tcx \<Rightarrow> def_id \<Rightarrow> bool" where
  "is_fn_once_output tcx i \<longleftrightarrow> Some i = tcx_fn_once_output tcx"

fun is_auto_trait :: "'c existential_predicate \<Rightarrow> bool" where
  "is_auto_trait (AutoTraitPred _) = True"
| "is_auto_trait _ = False"

definition strip_auto_traits :: "'c ty \<Rightarrow> 'c ty" where
  "strip_auto_traits ty =
     (case ty of
        DynamicTy predicates region \<Rightarrow> DynamicTy (filter (\<lambda>p. \<not> is_auto_trait p) predicates) region
      | _ \<Rightarrow> ty)"


subsection \<open>A small compiler\<close>

text \<open>
  Constants are values (\<open>Inl\<close>) or parameters (\<open>Inr\<close>). There is a struct
  \<open>Pair<T> { a: &T, b: T }\<close>, a list node \<open>Node { next: *mut Node, val: u64 }\<close>, an enum
  of two variants and a union.
\<close>

definition sample_layout :: "(nat + nat) ty \<Rightarrow> layout option" where
  "sample_layout t =
     (case t of
        Adt d as \<Rightarrow>
          (if d = (0, 1) then Some \<lparr>lay_size = 16, lay_zst = False, lay_fields = Some ([0, 8], [0, 1])\<rparr>
           else if d = (0, 2) then Some \<lparr>lay_size = 16, lay_zst = False, lay_fields = Some ([8, 0], [1, 0])\<rparr>
           else if d = (0, 4) then Some \<lparr>lay_size = 8, lay_zst = False, lay_fields = None\<rparr>
           else None)
      | RefTy _ _ _ \<Rightarrow> Some \<lparr>lay_size = 8, lay_zst = False, lay_fields = None\<rparr>
      | RawPtr _ _ \<Rightarrow> Some \<lparr>lay_size = 8, lay_zst = False, lay_fields = None\<rparr>
      | UintTy n \<Rightarrow> Some \<lparr>lay_size = n, lay_zst = False, lay_fields = None\<rparr>
      | TupleTy [] \<Rightarrow> Some \<lparr>lay_size = 0, lay_zst = True, lay_fields = Some ([], [])\<rparr>
      | _ \<Rightarrow> None)"

definition sample_tcx :: "(nat + nat) tcx" where
  "sample_tcx =
     \<lparr>tcx_crate_name = (\<lambda>d. ''sample''),
      tcx_def_path = (\<lambda>d. []),
      tcx_adt = (\<lambda>d.
        if d = (0, 1) then \<lparr>adt_kind_of = StructAdt, adt_variants = [[(0, 11), (0, 12)]], adt_transparent = False\<rparr>
        else if d = (0, 2) then \<lparr>adt_kind_of = StructAdt, adt_variants = [[(0, 21), (0, 22)]], adt_transparent = False\<rparr>
        else if d = (0, 3) then \<lparr>adt_kind_of = EnumAdt, adt_variants = [[], [(0, 11)]], adt_transparent = False\<rparr>
        else \<lparr>adt_kind_of = UnionAdt, adt_variants = [[(0, 22), (0, 21)]], adt_transparent = False\<rparr>),
      tcx_type_of = (\<lambda>d.
        if d = (0, 11) then RefTy 0 (ParamTy 0) False
        else if d = (0, 12) then ParamTy 0
        else if d = (0, 21) then RawPtr (Adt (0, 2) []) True
        else UintTy 8),
      tcx_erase_regions = (\<lambda>t. t),
      tcx_layout_of = sample_layout,
      tcx_eval_usize = (\<lambda>c. case c of Inl n \<Rightarrow> Some n | Inr _ \<Rightarrow> None),
      tcx_const_param = (\<lambda>c. case c of Inr i \<Rightarrow> Some i | Inl _ \<Rightarrow> None),
      tcx_upvar_tys = (\<lambda>as. []),
      tcx_prefix_tys = (\<lambda>as. []),
      tcx_state_tys = (\<lambda>d as. []),
      tcx_boxed = (\<lambda>t. None),
      tcx_fn_traits = (None, None, None),
      tcx_fn_once_output = None,
      tcx_principal = (\<lambda>t. None),
      tcx_container = (\<lambda>d. (0, 0)),
      tcx_normalize = (\<lambda>e t. None),
      tcx_resolve = (\<lambda>e d as. None),
      tcx_parent = (\<lambda>d. (0, 0)),
      tcx_pointee_trait = None,
      tcx_discriminant_kind_trait = None,
      tcx_ptr_metadata_ty = (\<lambda>t. TupleTy []),
      tcx_discriminant_ty = (\<lambda>t. UintTy 8),
      tcx_fn_output = (\<lambda>d. TupleTy []),
      tcx_closure_output = (\<lambda>as. TupleTy []),
      tcx_local_decls = (\<lambda>d. [UintTy 8, RefTy 0 (Adt (0, 2) []) True, Adt (0, 2) [],
        Adt (0, 1) [TypeKind (Adt (0, 2) [])]]),
      tcx_is_mir_available = (\<lambda>d. True),
      tcx_trait_of_item = (\<lambda>d. None),
      tcx_fn_has_self = (\<lambda>d. None),
      tcx_rust_abi = (\<lambda>d. True),
      tcx_args_normalize = (\<lambda>as. True)\<rparr>"

end
