(* ===== verification/Substs.thy ===== *)
theory Substs
  imports Types
begin

section \<open>Specialization of generic types (\<open>src/builder/substs_specializer.rs\<close>)\<close>

text \<open>
  The types of a generic function are specialized by the generic arguments of the function
  instance. The specializer follows aliases through the compiler and may start new
  specializers on what it is given, so the recursion is on a fuel: \<open>None\<close> stands for a panic or
  for more calls than the fuel allows. The set of closures being specialized only grows on the
  way down (a closure is removed again when its arguments are done), so it is an argument. The
  steps of the code are parameterised by the specializer \<open>rec\<close> that the nested calls use.
\<close>

type_synonym 'c specializer = "'c generic_args_e \<Rightarrow> def_id set \<Rightarrow> 'c ty \<Rightarrow> 'c ty option"

definition specialize_const :: "'c tcx \<Rightarrow> 'c generic_args_e \<Rightarrow> 'c \<Rightarrow> 'c option" where
  "specialize_const tcx generic_args constant =
     (case tcx_const_param tcx constant of
        Some index \<Rightarrow>
          (if index < length generic_args
           then (case generic_args ! index of ConstArg c \<Rightarrow> Some c | _ \<Rightarrow> Some constant)
           else None)
      | None \<Rightarrow> Some constant)"

definition specialize_generic_argument ::
    "'c tcx \<Rightarrow> 'c specializer \<Rightarrow> 'c generic_args_e \<Rightarrow> def_id set \<Rightarrow>
     ('c ty, 'c) generic_arg_kind \<Rightarrow> ('c ty, 'c) generic_arg_kind option" where
  "specialize_generic_argument tcx rec generic_args closures gen_arg =
     (case gen_arg of
        TypeKind ty \<Rightarrow> map_option TypeKind (rec generic_args closures ty)
      | ConstKind c \<Rightarrow> map_option ConstKind (specialize_const tcx generic_args c)
      | Lifetime \<Rightarrow> Some gen_arg)"

definition specialize_generic_args ::
    "'c tcx \<Rightarrow> 'c specializer \<Rightarrow> 'c generic_args_e \<Rightarrow> def_id set \<Rightarrow> 'c generic_args \<Rightarrow> 'c generic_args option" where
  "specialize_generic_args tcx rec generic_args closures args =
     those (map (specialize_generic_argument tcx rec generic_args closures) args)"

text \<open>The return types of functions and closures start a new specializer.\<close>

definition function_return_type :: "'c tcx \<Rightarrow> 'c specializer \<Rightarrow> def_id \<Rightarrow> 'c generic_args \<Rightarrow> 'c ty option" where
  "function_return_type tcx rec d gen_args = rec (map generic_arg_from gen_args) {} (tcx_fn_output tcx d)"

definition closure_return_type :: "'c tcx \<Rightarrow> 'c specializer \<Rightarrow> def_id \<Rightarrow> 'c generic_args \<Rightarrow> 'c ty option" where
  "closure_return_type tcx rec _ gen_args = rec (map generic_arg_from gen_args) {} (tcx_closure_output tcx gen_args)"

text \<open>\<open>substs[0].as_type()\<close> under the test that there is an element\<close>

fun first_type :: "'c generic_args \<Rightarrow> 'c ty option" where
  "first_type (TypeKind ty # _) = Some ty"
| "first_type _ = None"

subsection \<open>Projections of associated types\<close>

text \<open>The item resolves to itself.\<close>

definition unresolved_projection ::
    "'c tcx \<Rightarrow> 'c specializer \<Rightarrow> def_id \<Rightarrow> 'c generic_args \<Rightarrow> 'c ty option" where
  "unresolved_projection tcx rec item substs =
     (case (if is_fn_once_output tcx item then first_type substs else None) of
        Some (FnDef d gen_args) \<Rightarrow> function_return_type tcx rec d gen_args
      | Some (Closure d gen_args) \<Rightarrow> closure_return_type tcx rec d gen_args
      | Some (FnPtrTy inputs_and_output) \<Rightarrow>
          (if inputs_and_output = [] then None else Some (last inputs_and_output))
      | _ \<Rightarrow> Some (AliasTy ProjectionAlias item substs))"

text \<open>The item resolves to an item of an implementation.\<close>

definition resolved_projection ::
    "'c tcx \<Rightarrow> 'c specializer \<Rightarrow> def_id \<Rightarrow> 'c generic_args \<Rightarrow> def_id \<Rightarrow> 'c generic_args \<Rightarrow> 'c ty option" where
  "resolved_projection tcx rec item substs instance_item instance_args =
     (case (if is_fn_once_output tcx item \<and> is_fn_once_call_once tcx instance_item then first_type substs else None) of
        Some (Closure d gen_args) \<Rightarrow> closure_return_type tcx rec d gen_args
      | _ \<Rightarrow> rec (map generic_arg_from instance_args) {} (tcx_type_of tcx instance_item))"

text \<open>The compiler resolves nothing; the type is returned as it was given.\<close>

definition builtin_projection ::
    "'c tcx \<Rightarrow> 'c ty \<Rightarrow> def_id \<Rightarrow> 'c generic_args \<Rightarrow> 'c ty option" where
  "builtin_projection tcx gen_arg_type item substs =
     (if Some (tcx_parent tcx item) = tcx_pointee_trait tcx then
        (if substs = [] then None
         else (case first_type substs of Some ty \<Rightarrow> Some (tcx_ptr_metadata_ty tcx ty) | None \<Rightarrow> Some gen_arg_type))
      else if Some (tcx_parent tcx item) = tcx_discriminant_kind_trait tcx then
        (if substs = [] then None
         else (case first_type substs of Some ty \<Rightarrow> Some (tcx_discriminant_ty tcx ty) | None \<Rightarrow> Some gen_arg_type))
      else Some gen_arg_type)"

definition specialize_projection ::
    "'c tcx \<Rightarrow> 'c specializer \<Rightarrow> 'c ty \<Rightarrow> def_id \<Rightarrow> 'c generic_args \<Rightarrow> 'c ty option" where
  "specialize_projection tcx rec gen_arg_type item specialized_substs =
     (if are_concrete specialized_substs then
        (let env = EnvOf (tcx_container tcx item);
             new_proj_type = AliasTy ProjectionAlias item specialized_substs in
         case tcx_normalize tcx env new_proj_type of
           Some specialized_type \<Rightarrow> Some specialized_type
         | None \<Rightarrow>
             (case tcx_resolve tcx env item specialized_substs of
                Some (instance_item, instance_args) \<Rightarrow>
                  (if item = instance_item then unresolved_projection tcx rec item specialized_substs
                   else resolved_projection tcx rec item specialized_substs instance_item instance_args)
              | None \<Rightarrow> builtin_projection tcx gen_arg_type item specialized_substs))
      else Some (AliasTy ProjectionAlias item specialized_substs))"

subsection \<open>Types\<close>

definition specialize_predicate ::
    "'c tcx \<Rightarrow> 'c specializer \<Rightarrow> 'c generic_args_e \<Rightarrow> def_id set \<Rightarrow>
     'c existential_predicate \<Rightarrow> 'c existential_predicate option" where
  "specialize_predicate tcx rec generic_args closures pred =
     (case pred of
        TraitPred d args \<Rightarrow> map_option (TraitPred d) (specialize_generic_args tcx rec generic_args closures args)
      | ProjectionPred d args (Some ty) \<Rightarrow>
          do { args' \<leftarrow> specialize_generic_args tcx rec generic_args closures args;
               ty' \<leftarrow> rec generic_args closures ty;
               Some (ProjectionPred d args' (Some ty')) }
      | ProjectionPred d args None \<Rightarrow>
          map_option (\<lambda>args'. ProjectionPred d args' None) (specialize_generic_args tcx rec generic_args closures args)
      | AutoTraitPred d \<Rightarrow> Some pred)"

definition specialize_step ::
    "'c tcx \<Rightarrow> 'c specializer \<Rightarrow> 'c generic_args_e \<Rightarrow> def_id set \<Rightarrow> 'c ty \<Rightarrow> 'c ty option" where
  "specialize_step tcx rec generic_args closures gen_arg_type =
     (let specialize = rec generic_args closures;
          specialize_args = specialize_generic_args tcx rec generic_args closures in
      case gen_arg_type of
        AliasTy ProjectionAlias item args \<Rightarrow>
          Option.bind (specialize_args args) (specialize_projection tcx rec gen_arg_type item)
      | AliasTy OpaqueAlias d args \<Rightarrow>
          do { gen_args \<leftarrow> specialize_args args;
               rec (map generic_arg_from gen_args) {} (tcx_type_of tcx d) }
      | Adt d args \<Rightarrow> map_option (Adt d) (specialize_args args)
      | ArrayTy elem_ty len \<Rightarrow>
          do { elem_ty' \<leftarrow> specialize elem_ty;
               len' \<leftarrow> specialize_const tcx generic_args len;
               Some (ArrayTy elem_ty' len') }
      | SliceTy elem_ty \<Rightarrow> map_option SliceTy (specialize elem_ty)
      | RawPtr ty mutbl \<Rightarrow> map_option (\<lambda>ty'. RawPtr ty' mutbl) (specialize ty)
      | RefTy region ty mutbl \<Rightarrow> map_option (\<lambda>ty'. RefTy region ty' mutbl) (specialize ty)
      | FnDef d substs \<Rightarrow> map_option (FnDef d) (specialize_args substs)
      | FnPtrTy inputs_and_output \<Rightarrow> map_option FnPtrTy (those (map specialize inputs_and_output))
      | DynamicTy predicates region \<Rightarrow>
          map_option (\<lambda>ps. DynamicTy ps region)
            (those (map (specialize_predicate tcx rec generic_args closures) predicates))
      | Closure d args \<Rightarrow>
          (if d \<in> closures then Some gen_arg_type
           else map_option (Closure d) (specialize_generic_args tcx rec generic_args (insert d closures) args))
      | Coroutine d args \<Rightarrow> map_option (Coroutine d) (specialize_args args)
      | CoroutineWitness _ _ \<Rightarrow> Some gen_arg_type
      | TupleTy types \<Rightarrow> map_option TupleTy (those (map specialize types))
      | ParamTy index \<Rightarrow>
          (if index < length generic_args
           then (case generic_args ! index of TypeArg ty \<Rightarrow> Some ty | _ \<Rightarrow> None)
           else None)
      | _ \<Rightarrow> Some gen_arg_type)"

fun specialize_generic_argument_type :: "'c tcx \<Rightarrow> nat \<Rightarrow> 'c specializer" where
  "specialize_generic_argument_type tcx 0 = (\<lambda>_ _ _. None)"
| "specialize_generic_argument_type tcx (Suc fuel) = specialize_step tcx (specialize_generic_argument_type tcx fuel)"

subsection \<open>More fuel does not change a result\<close>

definition rec_le :: "'c specializer \<Rightarrow> 'c specializer \<Rightarrow> bool" where
  "rec_le rec rec' \<longleftrightarrow> (\<forall>gs cl t u. rec gs cl t = Some u \<longrightarrow> rec' gs cl t = Some u)"

lemma rec_leD: "rec_le rec rec' \<Longrightarrow> rec gs cl t = Some u \<Longrightarrow> rec' gs cl t = Some u"
  by (simp add: rec_le_def)

lemma those_map_mono:
  "those (map f xs) = Some ys \<Longrightarrow> (\<And>x y. x \<in> set xs \<Longrightarrow> f x = Some y \<Longrightarrow> g x = Some y) \<Longrightarrow> those (map g xs) = Some ys"
  by (induction xs arbitrary: ys) (auto split: option.splits)

lemma those_map_Some: "(\<And>x. x \<in> set xs \<Longrightarrow> f x = Some (g x)) \<Longrightarrow> those (map f xs) = Some (map g xs)"
  by (induction xs) auto

lemma generic_args_mono:
  assumes "rec_le rec rec'" "specialize_generic_args tcx rec gs cl args = Some args'"
  shows "specialize_generic_args tcx rec' gs cl args = Some args'"
  using assms(2) unfolding specialize_generic_args_def
  by (rule those_map_mono)
    (auto simp: specialize_generic_argument_def split: generic_arg_kind.splits dest: rec_leD [OF assms(1)])

lemma return_type_mono:
  assumes "rec_le rec rec'"
  shows "function_return_type tcx rec d args = Some u \<Longrightarrow> function_return_type tcx rec' d args = Some u"
    and "closure_return_type tcx rec d args = Some u \<Longrightarrow> closure_return_type tcx rec' d args = Some u"
  by (auto simp: function_return_type_def closure_return_type_def dest: rec_leD [OF assms])

lemma projection_mono:
  assumes "rec_le rec rec'" "specialize_projection tcx rec t item substs = Some u"
  shows "specialize_projection tcx rec' t item substs = Some u"
proof -
  have "unresolved_projection tcx rec item substs = Some u \<Longrightarrow> unresolved_projection tcx rec' item substs = Some u" for u
    by (auto simp: unresolved_projection_def return_type_mono [OF assms(1)] split: option.splits ty.splits if_splits)
  moreover have "resolved_projection tcx rec item substs i is = Some u \<Longrightarrow>
      resolved_projection tcx rec' item substs i is = Some u" for i "is" u
    by (auto simp: resolved_projection_def return_type_mono [OF assms(1)] rec_leD [OF assms(1)]
        split: option.splits ty.splits if_splits)
  ultimately show ?thesis
    using assms(2) by (auto simp: specialize_projection_def Let_def split: if_splits option.splits)
qed

lemma predicate_mono:
  assumes "rec_le rec rec'" "specialize_predicate tcx rec gs cl p = Some q"
  shows "specialize_predicate tcx rec' gs cl p = Some q"
  using assms(2)
  by (auto simp: specialize_predicate_def generic_args_mono [OF assms(1)] rec_leD [OF assms(1)] bind_eq_Some_conv
      split: existential_predicate.splits option.splits)

lemma specialize_step_mono:
  assumes le: "rec_le rec rec'" and "specialize_step tcx rec gs cl t = Some u"
  shows "specialize_step tcx rec' gs cl t = Some u"
proof -
  have tys: "those (map (rec gs cl) ts) = Some us \<Longrightarrow> those (map (rec' gs cl) ts) = Some us" for ts us
    by (erule those_map_mono) (rule rec_leD [OF le])
  have preds: "those (map (specialize_predicate tcx rec gs cl) ps) = Some qs \<Longrightarrow>
      those (map (specialize_predicate tcx rec' gs cl) ps) = Some qs" for ps qs
    by (erule those_map_mono) (rule predicate_mono [OF le])
  show ?thesis
    using assms(2) generic_args_mono [OF le] projection_mono [OF le] rec_leD [OF le] tys preds
    by (cases t) (auto simp: specialize_step_def Let_def bind_eq_Some_conv split: alias_kind.splits if_splits; fast)+
qed

lemma specialize_fuel_le: "rec_le (specialize_generic_argument_type tcx n) (specialize_generic_argument_type tcx (n + k))"
proof (induction n)
  case (Suc n)
  then show ?case by (simp add: rec_le_def specialize_step_mono [OF Suc])
qed (simp add: rec_le_def)

subsection \<open>Substitution\<close>

text \<open>
  The reference: replace the parameters everywhere, simultaneously. \<open>subtypes\<close> are all types
  inside a type. A type is plain when it holds no alias and no coroutine witness and no
  closure occurs in its own arguments, and it is in scope of arguments when they have a type
  for each of its type parameters and are long enough for its constant parameters.
\<close>

definition subst_const :: "'c tcx \<Rightarrow> 'c generic_args_e \<Rightarrow> 'c \<Rightarrow> 'c" where
  "subst_const tcx gs c =
     (case tcx_const_param tcx c of
        Some i \<Rightarrow> (case gs ! i of ConstArg c' \<Rightarrow> c' | _ \<Rightarrow> c)
      | None \<Rightarrow> c)"

primrec subst_ty :: "'c tcx \<Rightarrow> 'c generic_args_e \<Rightarrow> 'c ty \<Rightarrow> 'c ty"
  and subst_pred :: "'c tcx \<Rightarrow> 'c generic_args_e \<Rightarrow> 'c existential_predicate \<Rightarrow> 'c existential_predicate" where
  "subst_ty tcx gs BoolTy = BoolTy"
| "subst_ty tcx gs CharTy = CharTy"
| "subst_ty tcx gs (IntTy n) = IntTy n"
| "subst_ty tcx gs (UintTy n) = UintTy n"
| "subst_ty tcx gs (FloatTy n) = FloatTy n"
| "subst_ty tcx gs StrTy = StrTy"
| "subst_ty tcx gs NeverTy = NeverTy"
| "subst_ty tcx gs (Adt d as) =
     Adt d (map (map_generic_arg_kind id (subst_const tcx gs)) (map (map_generic_arg_kind (subst_ty tcx gs) id) as))"
| "subst_ty tcx gs (ForeignTy d) = ForeignTy d"
| "subst_ty tcx gs (ArrayTy t c) = ArrayTy (subst_ty tcx gs t) (subst_const tcx gs c)"
| "subst_ty tcx gs (SliceTy t) = SliceTy (subst_ty tcx gs t)"
| "subst_ty tcx gs (RawPtr t m) = RawPtr (subst_ty tcx gs t) m"
| "subst_ty tcx gs (RefTy r t m) = RefTy r (subst_ty tcx gs t) m"
| "subst_ty tcx gs (FnDef d as) =
     FnDef d (map (map_generic_arg_kind id (subst_const tcx gs)) (map (map_generic_arg_kind (subst_ty tcx gs) id) as))"
| "subst_ty tcx gs (FnPtrTy ts) = FnPtrTy (map (subst_ty tcx gs) ts)"
| "subst_ty tcx gs (DynamicTy ps r) = DynamicTy (map (subst_pred tcx gs) ps) r"
| "subst_ty tcx gs (Closure d as) =
     Closure d (map (map_generic_arg_kind id (subst_const tcx gs)) (map (map_generic_arg_kind (subst_ty tcx gs) id) as))"
| "subst_ty tcx gs (Coroutine d as) =
     Coroutine d (map (map_generic_arg_kind id (subst_const tcx gs)) (map (map_generic_arg_kind (subst_ty tcx gs) id) as))"
| "subst_ty tcx gs (CoroutineWitness d as) = CoroutineWitness d as"
| "subst_ty tcx gs (TupleTy ts) = TupleTy (map (subst_ty tcx gs) ts)"
| "subst_ty tcx gs (AliasTy k d as) = AliasTy k d as"
| "subst_ty tcx gs (ParamTy i) = (case gs ! i of TypeArg t \<Rightarrow> t | _ \<Rightarrow> ParamTy i)"
| "subst_ty tcx gs (BoundTy n) = BoundTy n"
| "subst_ty tcx gs (PlaceholderTy n) = PlaceholderTy n"
| "subst_ty tcx gs (InferTy n) = InferTy n"
| "subst_ty tcx gs ErrorTy = ErrorTy"
| "subst_pred tcx gs (TraitPred d as) =
     TraitPred d (map (map_generic_arg_kind id (subst_const tcx gs)) (map (map_generic_arg_kind (subst_ty tcx gs) id) as))"
| "subst_pred tcx gs (ProjectionPred d as t) =
     ProjectionPred d
       (map (map_generic_arg_kind id (subst_const tcx gs)) (map (map_generic_arg_kind (subst_ty tcx gs) id) as))
       (map_option (subst_ty tcx gs) t)"
| "subst_pred tcx gs (AutoTraitPred d) = AutoTraitPred d"

primrec subtypes :: "'c ty \<Rightarrow> 'c ty set"
  and pred_subtypes :: "'c existential_predicate \<Rightarrow> 'c ty set" where
  "subtypes BoolTy = {BoolTy}"
| "subtypes CharTy = {CharTy}"
| "subtypes (IntTy n) = {IntTy n}"
| "subtypes (UintTy n) = {UintTy n}"
| "subtypes (FloatTy n) = {FloatTy n}"
| "subtypes StrTy = {StrTy}"
| "subtypes NeverTy = {NeverTy}"
| "subtypes (Adt d as) = insert (Adt d as) (\<Union> (\<Union> (set1_generic_arg_kind ` set (map (map_generic_arg_kind subtypes id) as))))"
| "subtypes (ForeignTy d) = {ForeignTy d}"
| "subtypes (ArrayTy t c) = insert (ArrayTy t c) (subtypes t)"
| "subtypes (SliceTy t) = insert (SliceTy t) (subtypes t)"
| "subtypes (RawPtr t m) = insert (RawPtr t m) (subtypes t)"
| "subtypes (RefTy r t m) = insert (RefTy r t m) (subtypes t)"
| "subtypes (FnDef d as) = insert (FnDef d as) (\<Union> (\<Union> (set1_generic_arg_kind ` set (map (map_generic_arg_kind subtypes id) as))))"
| "subtypes (FnPtrTy ts) = insert (FnPtrTy ts) (\<Union> (set (map subtypes ts)))"
| "subtypes (DynamicTy ps r) = insert (DynamicTy ps r) (\<Union> (set (map pred_subtypes ps)))"
| "subtypes (Closure d as) = insert (Closure d as) (\<Union> (\<Union> (set1_generic_arg_kind ` set (map (map_generic_arg_kind subtypes id) as))))"
| "subtypes (Coroutine d as) = insert (Coroutine d as) (\<Union> (\<Union> (set1_generic_arg_kind ` set (map (map_generic_arg_kind subtypes id) as))))"
| "subtypes (CoroutineWitness d as) = {CoroutineWitness d as}"
| "subtypes (TupleTy ts) = insert (TupleTy ts) (\<Union> (set (map subtypes ts)))"
| "subtypes (AliasTy k d as) = {AliasTy k d as}"
| "subtypes (ParamTy i) = {ParamTy i}"
| "subtypes (BoundTy n) = {BoundTy n}"
| "subtypes (PlaceholderTy n) = {PlaceholderTy n}"
| "subtypes (InferTy n) = {InferTy n}"
| "subtypes ErrorTy = {ErrorTy}"
| "pred_subtypes (TraitPred d as) = (\<Union> (\<Union> (set1_generic_arg_kind ` set (map (map_generic_arg_kind subtypes id) as))))"
| "pred_subtypes (ProjectionPred d as t) = (\<Union> (\<Union> (set1_generic_arg_kind ` set (map (map_generic_arg_kind subtypes id) as)))) \<union> (\<Union> (set_option (map_option subtypes t)))"
| "pred_subtypes (AutoTraitPred d) = {}"

abbreviation arg_subtypes :: "'c generic_args \<Rightarrow> 'c ty set" where
  "arg_subtypes as \<equiv> \<Union> (\<Union> (set1_generic_arg_kind ` set (map (map_generic_arg_kind subtypes id) as)))"

abbreviation subst_args :: "'c tcx \<Rightarrow> 'c generic_args_e \<Rightarrow> 'c generic_args \<Rightarrow> 'c generic_args" where
  "subst_args tcx gs as \<equiv>
     map (map_generic_arg_kind id (subst_const tcx gs)) (map (map_generic_arg_kind (subst_ty tcx gs) id) as)"

fun closure_named :: "def_id \<Rightarrow> 'c ty \<Rightarrow> bool" where
  "closure_named d (Closure d' _) = (d' = d)"
| "closure_named _ _ = False"

fun plain_node :: "'c ty \<Rightarrow> bool" where
  "plain_node (AliasTy _ _ _) = False"
| "plain_node (CoroutineWitness _ _) = False"
| "plain_node (Closure d as) = (\<forall>u \<in> arg_subtypes as. \<not> closure_named d u)"
| "plain_node _ = True"

definition plain_ty :: "'c ty \<Rightarrow> bool" where
  "plain_ty t \<longleftrightarrow> (\<forall>u \<in> subtypes t. plain_node u)"

fun is_type_arg :: "('ty, 'c) generic_arg_e \<Rightarrow> bool" where
  "is_type_arg (TypeArg _) = True"
| "is_type_arg _ = False"

fun is_const_arg :: "('ty, 'c) generic_arg_e \<Rightarrow> bool" where
  "is_const_arg (ConstArg _) = True"
| "is_const_arg _ = False"

fun param_bound :: "'c generic_args_e \<Rightarrow> 'c ty \<Rightarrow> bool" where
  "param_bound gs (ParamTy i) = (i < length gs \<and> is_type_arg (gs ! i))"
| "param_bound _ _ = True"

definition const_bound :: "'c tcx \<Rightarrow> 'c generic_args_e \<Rightarrow> 'c \<Rightarrow> bool" where
  "const_bound tcx gs c =
     (case tcx_const_param tcx c of Some i \<Rightarrow> i < length gs \<and> is_const_arg (gs ! i) | None \<Rightarrow> True)"

definition in_scope :: "'c tcx \<Rightarrow> 'c generic_args_e \<Rightarrow> 'c ty \<Rightarrow> bool" where
  "in_scope tcx gs t \<longleftrightarrow> (\<forall>u \<in> subtypes t. param_bound gs u) \<and> (\<forall>c \<in> set_ty t. const_bound tcx gs c)"

subsection \<open>Specialization is substitution on plain types\<close>

lemma subtypes_self [simp, intro]: "t \<in> subtypes t"
  by (cases t) auto

lemma size_arg: "TypeKind t \<in> set as \<Longrightarrow> size t < size_list (size_generic_arg_kind size (\<lambda>_. 0)) as"
  by (induction as) auto

lemma size_elem: "t \<in> set ts \<Longrightarrow> size t < size_list size ts"
  by (induction ts) auto

lemma arg_subtypes_iff: "u \<in> arg_subtypes as \<longleftrightarrow> (\<exists>t. TypeKind t \<in> set as \<and> u \<in> subtypes t)"
proof (induction as)
  case (Cons a as)
  then show ?case by (cases a) auto
qed simp

lemma specialize_const_bound: "const_bound tcx gs c \<Longrightarrow> specialize_const tcx gs c = Some (subst_const tcx gs c)"
  by (auto simp: const_bound_def specialize_const_def subst_const_def split: option.splits generic_arg_e.splits)

lemma specialize_args_subst:
  assumes "\<And>t. TypeKind t \<in> set as \<Longrightarrow> rec gs cl t = Some (subst_ty tcx gs t)"
    and "\<And>c. ConstKind c \<in> set as \<Longrightarrow> const_bound tcx gs c"
  shows "specialize_generic_args tcx rec gs cl as = Some (subst_args tcx gs as)"
  unfolding specialize_generic_args_def map_map
proof (rule those_map_Some)
  fix a
  assume "a \<in> set as"
  with assms show "specialize_generic_argument tcx rec gs cl a =
      Some ((map_generic_arg_kind id (subst_const tcx gs) \<circ> map_generic_arg_kind (subst_ty tcx gs) id) a)"
    by (cases a) (simp_all add: specialize_generic_argument_def specialize_const_bound)
qed

definition good :: "'c tcx \<Rightarrow> 'c generic_args_e \<Rightarrow> def_id set \<Rightarrow> 'c ty \<Rightarrow> bool" where
  "good tcx gs cl t \<longleftrightarrow> plain_ty t \<and> in_scope tcx gs t \<and> (\<forall>u \<in> subtypes t. \<forall>d \<in> cl. \<not> closure_named d u)"

definition good_args :: "'c tcx \<Rightarrow> 'c generic_args_e \<Rightarrow> def_id set \<Rightarrow> 'c generic_args \<Rightarrow> bool" where
  "good_args tcx gs cl as \<longleftrightarrow>
     (\<forall>t. TypeKind t \<in> set as \<longrightarrow> good tcx gs cl t) \<and> (\<forall>c. ConstKind c \<in> set as \<longrightarrow> const_bound tcx gs c)"

lemma ball_arg_subtypes: "(\<forall>u \<in> arg_subtypes as. P u) \<longleftrightarrow> (\<forall>t. TypeKind t \<in> set as \<longrightarrow> (\<forall>u \<in> subtypes t. P u))"
  unfolding Ball_def arg_subtypes_iff by blast

definition ball_args :: "('c \<Rightarrow> bool) \<Rightarrow> 'c generic_args \<Rightarrow> bool" where
  "ball_args P as \<longleftrightarrow> (\<forall>t. TypeKind t \<in> set as \<longrightarrow> (\<forall>c \<in> set_ty t. P c)) \<and> (\<forall>c. ConstKind c \<in> set as \<longrightarrow> P c)"

lemma ball_set_arg:
  "(\<forall>t \<in> set1_generic_arg_kind a. \<forall>c \<in> set_ty t. P c) \<and> (\<forall>c \<in> set2_generic_arg_kind a. P c) \<longleftrightarrow>
     (case a of TypeKind t \<Rightarrow> \<forall>c \<in> set_ty t. P c | ConstKind c \<Rightarrow> P c | Lifetime \<Rightarrow> True)"
  by (cases a) auto

lemma ball_args_case:
  "ball_args P as \<longleftrightarrow> (\<forall>a \<in> set as. case a of TypeKind t \<Rightarrow> \<forall>c \<in> set_ty t. P c | ConstKind c \<Rightarrow> P c | Lifetime \<Rightarrow> True)"
  unfolding ball_args_def by (auto split: generic_arg_kind.splits) 

lemma ball_set_ty:
  "(\<forall>c \<in> set_ty (Adt d as). P c) \<longleftrightarrow> ball_args P as"
  "(\<forall>c \<in> set_ty (FnDef d as). P c) \<longleftrightarrow> ball_args P as"
  "(\<forall>c \<in> set_ty (Closure d as). P c) \<longleftrightarrow> ball_args P as"
  "(\<forall>c \<in> set_ty (Coroutine d as). P c) \<longleftrightarrow> ball_args P as"
  "(\<forall>c \<in> set_existential_predicate (TraitPred d as). P c) \<longleftrightarrow> ball_args P as"
  "(\<forall>c \<in> set_existential_predicate (ProjectionPred d as t). P c) \<longleftrightarrow>
     ball_args P as \<and> (\<forall>u. t = Some u \<longrightarrow> (\<forall>c \<in> set_ty u. P c))"
  unfolding ball_args_case ball_set_arg [symmetric] by auto

fun good_pred :: "'c tcx \<Rightarrow> 'c generic_args_e \<Rightarrow> def_id set \<Rightarrow> 'c existential_predicate \<Rightarrow> bool" where
  "good_pred tcx gs cl (TraitPred d as) = good_args tcx gs cl as"
| "good_pred tcx gs cl (ProjectionPred d as t) = (good_args tcx gs cl as \<and> (\<forall>u. t = Some u \<longrightarrow> good tcx gs cl u))"
| "good_pred tcx gs cl (AutoTraitPred d) = True"

lemma good_args_iff:
  "good_args tcx gs cl as \<longleftrightarrow>
     (\<forall>u \<in> arg_subtypes as. plain_node u \<and> param_bound gs u \<and> (\<forall>d \<in> cl. \<not> closure_named d u)) \<and>
     ball_args (const_bound tcx gs) as"
  unfolding good_args_def good_def plain_ty_def in_scope_def ball_arg_subtypes ball_args_def by blast

lemma good_iff:
  "good tcx gs cl t \<longleftrightarrow>
     (\<forall>u \<in> subtypes t. plain_node u \<and> param_bound gs u \<and> (\<forall>d \<in> cl. \<not> closure_named d u)) \<and>
     (\<forall>c \<in> set_ty t. const_bound tcx gs c)"
  unfolding good_def plain_ty_def in_scope_def by blast

lemma good_pred_iff:
  "good_pred tcx gs cl p \<longleftrightarrow>
     (\<forall>u \<in> pred_subtypes p. plain_node u \<and> param_bound gs u \<and> (\<forall>d \<in> cl. \<not> closure_named d u)) \<and>
     (\<forall>c \<in> set_existential_predicate p. const_bound tcx gs c)"
proof (cases p)
  case (ProjectionPred d as t)
  then show ?thesis
    unfolding ProjectionPred good_pred.simps ball_set_ty good_args_iff
    by (cases t) (simp_all del: set_map add: good_iff ball_Un, blast)
qed (simp_all del: existential_predicate.set set_map add: good_args_iff ball_set_ty, simp)

lemma good_node:
  assumes "subtypes t = insert t (arg_subtypes as)" "\<And>P. (\<forall>c \<in> set_ty t. P c) \<longleftrightarrow> ball_args P as"
  shows "good tcx gs cl t \<longleftrightarrow>
    plain_node t \<and> param_bound gs t \<and> (\<forall>d \<in> cl. \<not> closure_named d t) \<and> good_args tcx gs cl as"
  unfolding good_args_iff good_iff assms(2) unfolding assms(1) by blast

lemma good_simps_args:
  "good tcx gs cl (Adt d as) \<longleftrightarrow> good_args tcx gs cl as"
  "good tcx gs cl (FnDef d as) \<longleftrightarrow> good_args tcx gs cl as"
  "good tcx gs cl (Coroutine d as) \<longleftrightarrow> good_args tcx gs cl as"
    apply (subst good_node [OF subtypes.simps(8) ball_set_ty(1)]; simp)
   apply (subst good_node [OF subtypes.simps(14) ball_set_ty(2)]; simp)
  apply (subst good_node [OF subtypes.simps(18) ball_set_ty(4)]; simp)
  done

lemma good_closure: "good tcx gs cl (Closure d as) \<longleftrightarrow> d \<notin> cl \<and> good_args tcx gs (insert d cl) as"
proof -
  have "plain_node (Closure d as) \<longleftrightarrow> (\<forall>u \<in> arg_subtypes as. \<not> closure_named d u)"
    by (rule plain_node.simps)
  moreover have "(\<forall>d' \<in> cl. \<not> closure_named d' (Closure d as)) \<longleftrightarrow> d \<notin> cl" by auto
  moreover have "param_bound gs (Closure d as)" by simp
  ultimately show ?thesis
    unfolding good_node [OF subtypes.simps(17) ball_set_ty(3)] good_args_iff by blast
qed

lemma good_simps:
  "good tcx gs cl (ArrayTy t c) \<longleftrightarrow> good tcx gs cl t \<and> const_bound tcx gs c"
  "good tcx gs cl (SliceTy t) \<longleftrightarrow> good tcx gs cl t"
  "good tcx gs cl (RawPtr t m) \<longleftrightarrow> good tcx gs cl t"
  "good tcx gs cl (RefTy r t m) \<longleftrightarrow> good tcx gs cl t"
  "good tcx gs cl (ParamTy i) \<longleftrightarrow> i < length gs \<and> is_type_arg (gs ! i)"
  "\<not> good tcx gs cl (AliasTy k d as)"
  "\<not> good tcx gs cl (CoroutineWitness d as)"
  unfolding good_iff by (auto simp del: set_map)

lemma good_simps_list:
  "good tcx gs cl (FnPtrTy ts) \<longleftrightarrow> (\<forall>t \<in> set ts. good tcx gs cl t)"
  "good tcx gs cl (TupleTy ts) \<longleftrightarrow> (\<forall>t \<in> set ts. good tcx gs cl t)"
  "good tcx gs cl (DynamicTy ps r) \<longleftrightarrow> (\<forall>p \<in> set ps. good_pred tcx gs cl p)"
  unfolding good_pred_iff good_iff by (simp_all; blast)+

lemma those_rec:
  "(\<And>t. t \<in> set ts \<Longrightarrow> rec gs cl t = Some (subst_ty tcx gs t)) \<Longrightarrow> those (map (rec gs cl) ts) = Some (map (subst_ty tcx gs) ts)"
  by (rule those_map_Some)

lemma size_pred:
  "p \<in> set ps \<Longrightarrow> size p < size_list size ps"
  by (induction ps) auto

lemma specialize_plain:
  "size t < n \<Longrightarrow> good tcx gs cl t \<Longrightarrow> specialize_generic_argument_type tcx n gs cl t = Some (subst_ty tcx gs t)"
proof (induction n arbitrary: t cl)
  case (Suc n)
  let ?rec = "specialize_generic_argument_type tcx n"
  have args: "specialize_generic_args tcx ?rec gs cl' as = Some (subst_args tcx gs as)"
    if "good_args tcx gs cl' as" "size_list (size_generic_arg_kind size (\<lambda>_. 0)) as \<le> n" for cl' as
  proof (rule specialize_args_subst)
    show "?rec gs cl' t = Some (subst_ty tcx gs t)" if "TypeKind t \<in> set as" for t
      using that \<open>good_args tcx gs cl' as\<close> \<open>_ \<le> n\<close> size_arg [OF that] Suc.IH [of t cl'] by (simp add: good_args_def)
    show "const_bound tcx gs c" if "ConstKind c \<in> set as" for c
      using that \<open>good_args tcx gs cl' as\<close> by (simp add: good_args_def)
  qed
  have tys: "those (map (?rec gs cl) ts) = Some (map (subst_ty tcx gs) ts)"
    if "\<forall>t \<in> set ts. good tcx gs cl t" "size_list size ts \<le> n" for ts
    using that by (intro those_rec Suc.IH) (auto dest: size_elem)
  have preds: "those (map (specialize_predicate tcx ?rec gs cl) ps) = Some (map (subst_pred tcx gs) ps)"
    if ps: "\<forall>p \<in> set ps. good_pred tcx gs cl p" "size_list size ps \<le> n" for ps
  proof (rule those_map_Some)
    fix p
    assume p: "p \<in> set ps"
    then have "size p < n" using ps(2) size_pred [OF p] by simp
    then show "specialize_predicate tcx ?rec gs cl p = Some (subst_pred tcx gs p)"
      using p ps(1) args Suc.IH
      by (cases p) (auto simp: specialize_predicate_def simp del: map_map split: option.splits)
  qed
  show ?case
    using Suc.prems args tys preds Suc.IH
    by (cases t)
      (auto simp: specialize_step_def Let_def good_simps good_simps_args good_simps_list good_closure
        specialize_const_bound simp del: map_map split: generic_arg_e.splits)
qed simp

subsection \<open>Specializing twice\<close>

definition compose_args :: "'c tcx \<Rightarrow> 'c generic_args_e \<Rightarrow> 'c generic_args_e \<Rightarrow> 'c generic_args_e" where
  "compose_args tcx gs' gs = map (map_generic_arg_e (subst_ty tcx gs') (subst_const tcx gs')) gs"

lemma compose_const:
  "const_bound tcx gs c \<Longrightarrow> subst_const tcx gs' (subst_const tcx gs c) = subst_const tcx (compose_args tcx gs' gs) c"
  by (auto simp: const_bound_def subst_const_def compose_args_def split: option.splits generic_arg_e.splits)

lemma compose_subst_args:
  assumes "\<And>t. TypeKind t \<in> set as \<Longrightarrow> subst_ty tcx gs' (subst_ty tcx gs t) = subst_ty tcx (compose_args tcx gs' gs) t"
    and "\<And>c. ConstKind c \<in> set as \<Longrightarrow> const_bound tcx gs c"
  shows "subst_args tcx gs' (subst_args tcx gs as) = subst_args tcx (compose_args tcx gs' gs) as"
  unfolding map_map
proof (rule map_cong [OF refl])
  fix a
  assume "a \<in> set as"
  with assms show "(map_generic_arg_kind id (subst_const tcx gs') \<circ> (map_generic_arg_kind (subst_ty tcx gs') id \<circ>
      (map_generic_arg_kind id (subst_const tcx gs) \<circ> map_generic_arg_kind (subst_ty tcx gs) id))) a =
      (map_generic_arg_kind id (subst_const tcx (compose_args tcx gs' gs)) \<circ>
       map_generic_arg_kind (subst_ty tcx (compose_args tcx gs' gs)) id) a"
    by (cases a) (simp_all add: compose_const)
qed

lemma subst_subst:
  "size t < n \<Longrightarrow> good tcx gs cl t \<Longrightarrow>
     subst_ty tcx gs' (subst_ty tcx gs t) = subst_ty tcx (compose_args tcx gs' gs) t"
proof (induction n arbitrary: t cl)
  case (Suc n)
  have args: "subst_args tcx gs' (subst_args tcx gs as) = subst_args tcx (compose_args tcx gs' gs) as"
    if "good_args tcx gs cl' as" "size_list (size_generic_arg_kind size (\<lambda>_. 0)) as \<le> n" for cl' as
  proof (rule compose_subst_args)
    show "subst_ty tcx gs' (subst_ty tcx gs t) = subst_ty tcx (compose_args tcx gs' gs) t" if "TypeKind t \<in> set as" for t
      using that \<open>good_args tcx gs cl' as\<close> \<open>_ \<le> n\<close> size_arg [OF that] Suc.IH [of t cl'] by (simp add: good_args_def)
    show "const_bound tcx gs c" if "ConstKind c \<in> set as" for c
      using that \<open>good_args tcx gs cl' as\<close> by (simp add: good_args_def)
  qed
  have tys: "map (subst_ty tcx gs') (map (subst_ty tcx gs) ts) = map (subst_ty tcx (compose_args tcx gs' gs)) ts"
    if "\<forall>t \<in> set ts. good tcx gs cl t" "size_list size ts \<le> n" for ts
    unfolding map_map using that
    by (intro map_cong [OF refl], unfold comp_def, intro Suc.IH [where cl = cl]) (auto dest: size_elem)
  have preds: "map (subst_pred tcx gs') (map (subst_pred tcx gs) ps) = map (subst_pred tcx (compose_args tcx gs' gs)) ps"
    if ps: "\<forall>p \<in> set ps. good_pred tcx gs cl p" "size_list size ps \<le> n" for ps
    unfolding map_map
  proof (rule map_cong [OF refl])
    fix p
    assume p: "p \<in> set ps"
    then have "size p < n" using ps(2) size_pred [OF p] by simp
    then show "(subst_pred tcx gs' \<circ> subst_pred tcx gs) p = subst_pred tcx (compose_args tcx gs' gs) p"
    proof (cases p)
      case (ProjectionPred d as u)
      with p ps(1) args [of cl] Suc.IH [of _ cl] \<open>size p < n\<close> show ?thesis by (cases u) (auto simp del: map_map)
    qed (use p ps(1) args [of cl] \<open>size p < n\<close> in \<open>auto simp del: map_map\<close>)
  qed
  show ?case
    using Suc.prems args [of cl] args [of "insert _ cl"] tys preds Suc.IH [of _ cl]
    by (cases t)
      (auto simp: good_simps good_simps_args good_simps_list good_closure compose_const compose_args_def
        simp del: map_map split: generic_arg_e.splits)
qed simp

subsection \<open>Properties\<close>

text \<open>
  C31: Specialization returns, and substitutes: on a type without aliases and coroutine
  witnesses whose closures are not nested in themselves, and whose parameters the generic
  arguments cover, it gives the type with all parameters replaced. The fuel needed is the
  size of the type.
\<close>

theorem specialize_substitutes:
  assumes "plain_ty t" "in_scope tcx gs t" "size t < n"
  shows "specialize_generic_argument_type tcx n gs {} t = Some (subst_ty tcx gs t)"
  using assms by (intro specialize_plain) (simp_all add: good_def)

definition sample_ty :: "(nat + nat) ty" where
  "sample_ty = RefTy 0 (Adt (0, 1) [Lifetime, TypeKind (TupleTy [ParamTy 1, ArrayTy (ParamTy 1) (Inr 0)])]) True"

definition sample_args :: "(nat + nat) generic_args_e" where
  "sample_args = [ConstArg (Inl 4), TypeArg (SliceTy (ParamTy 0))]"

lemma sample_good: "plain_ty sample_ty \<and> in_scope sample_tcx sample_args sample_ty \<and> size sample_ty < 20"
  by (simp add: plain_ty_def in_scope_def sample_ty_def sample_args_def const_bound_def sample_tcx_def)

theorem specialize_substitutes_witness:
  "specialize_generic_argument_type sample_tcx 20 sample_args {} sample_ty =
     Some (RefTy 0 (Adt (0, 1) [Lifetime, TypeKind (TupleTy [SliceTy (ParamTy 0), ArrayTy (SliceTy (ParamTy 0)) (Inl 4)])]) True)"
proof -
  have "subst_ty sample_tcx sample_args sample_ty =
      RefTy 0 (Adt (0, 1) [Lifetime, TypeKind (TupleTy [SliceTy (ParamTy 0), ArrayTy (SliceTy (ParamTy 0)) (Inl 4)])]) True"
    by (simp add: sample_ty_def sample_args_def subst_const_def sample_tcx_def)
  then show ?thesis using specialize_substitutes [of sample_ty sample_tcx sample_args 20] sample_good by simp
qed

text \<open>
  C32: Specializing for a callee and then for its caller is the same as specializing once by
  the callee's arguments after they have been specialized for the caller.
\<close>

theorem specialize_twice:
  assumes "plain_ty t" "in_scope tcx gs t" "size t < n"
    and "plain_ty (subst_ty tcx gs t)" "in_scope tcx gs' (subst_ty tcx gs t)" "size (subst_ty tcx gs t) < n"
  shows "Option.bind (specialize_generic_argument_type tcx n gs {} t) (specialize_generic_argument_type tcx n gs' {}) =
      Some (subst_ty tcx (compose_args tcx gs' gs) t)"
proof -
  have t: "good tcx gs {} t" using assms by (simp add: good_def)
  then have "specialize_generic_argument_type tcx n gs {} t = Some (subst_ty tcx gs t)"
    by (intro specialize_plain) (simp_all add: assms)
  moreover have "specialize_generic_argument_type tcx n gs' {} (subst_ty tcx gs t) = Some (subst_ty tcx gs' (subst_ty tcx gs t))"
    by (intro specialize_plain) (simp_all add: assms good_def)
  ultimately show ?thesis using subst_subst [OF assms(3) t] by simp
qed

theorem specialize_twice_witness:
  "Option.bind (specialize_generic_argument_type sample_tcx 20 sample_args {} sample_ty)
      (specialize_generic_argument_type sample_tcx 20 [TypeArg CharTy] {}) =
    Some (RefTy 0 (Adt (0, 1) [Lifetime, TypeKind (TupleTy [SliceTy CharTy, ArrayTy (SliceTy CharTy) (Inl 4)])]) True)"
proof -
  have t: "subst_ty sample_tcx sample_args sample_ty =
      RefTy 0 (Adt (0, 1) [Lifetime, TypeKind (TupleTy [SliceTy (ParamTy 0), ArrayTy (SliceTy (ParamTy 0)) (Inl 4)])]) True"
    by (simp add: sample_ty_def sample_args_def subst_const_def sample_tcx_def)
  have "plain_ty (subst_ty sample_tcx sample_args sample_ty)"
    "in_scope sample_tcx [TypeArg CharTy] (subst_ty sample_tcx sample_args sample_ty)"
    "size (subst_ty sample_tcx sample_args sample_ty) < 20"
    unfolding t by (simp_all add: plain_ty_def in_scope_def const_bound_def sample_tcx_def)
  moreover have "subst_ty sample_tcx (compose_args sample_tcx [TypeArg CharTy] sample_args) sample_ty =
      RefTy 0 (Adt (0, 1) [Lifetime, TypeKind (TupleTy [SliceTy CharTy, ArrayTy (SliceTy CharTy) (Inl 4)])]) True"
    by (simp add: sample_ty_def sample_args_def compose_args_def subst_const_def sample_tcx_def)
  ultimately show ?thesis
    using specialize_twice [of sample_ty sample_tcx sample_args 20 "[TypeArg CharTy]"] sample_good by simp
qed



end
