(* ===== verification/Type_Fields.thy ===== *)
theory Type_Fields
  imports Substs
begin

section \<open>Fields of types (\<open>src/util/type_util.rs\<close>)\<close>

text \<open>
  The types of fields are specialized, so everything here has the specializer's fuel \<open>fu\<close>;
  recursion over the fields of a type has a fuel of its own, because only the compiler's
  rule that types have a finite size bounds it. \<open>None\<close> is a panic, or too little fuel.
\<close>

definition field_ty :: "'c tcx \<Rightarrow> nat \<Rightarrow> def_id \<Rightarrow> 'c generic_args \<Rightarrow> 'c ty option" where
  "field_ty tcx fu field generic_args =
     map_option (tcx_erase_regions tcx)
       (specialize_generic_argument_type tcx fu (map generic_arg_from generic_args) {} (tcx_type_of tcx field))"

definition field_tys :: "'c tcx \<Rightarrow> nat \<Rightarrow> 'c generic_args \<Rightarrow> def_id list \<Rightarrow> 'c ty list option" where
  "field_tys tcx fu args flds = those (map (\<lambda>field. field_ty tcx fu field args) flds)"

text \<open>\<open>variants().iter().next().expect("at least one variant")\<close>\<close>

definition first_variant :: "adt_def \<Rightarrow> def_id list option" where
  "first_variant def = (case adt_variants def of variant # _ \<Rightarrow> Some variant | [] \<Rightarrow> None)"

definition closure_field_types :: "'c tcx \<Rightarrow> 'c ty \<Rightarrow> 'c ty list option" where
  "closure_field_types tcx ty =
     (case ty of
        Closure _ args \<Rightarrow> Some (tcx_upvar_tys tcx args)
      | Coroutine _ args \<Rightarrow> Some (tcx_prefix_tys tcx args)
      | _ \<Rightarrow> None)"

definition get_field_type :: "'c tcx \<Rightarrow> nat \<Rightarrow> 'c ty \<Rightarrow> nat \<Rightarrow> 'c ty option" where
  "get_field_type tcx fu base_ty ordinal =
     (case base_ty of
        Adt d args \<Rightarrow>
          (if adt_kind_of (tcx_adt tcx d) \<noteq> EnumAdt then
             do { variant \<leftarrow> first_variant (tcx_adt tcx d);
                  if ordinal < length variant then field_ty tcx fu (variant ! ordinal) args else None }
           else Some NeverTy)
      | TupleTy tuple_types \<Rightarrow> (if ordinal < length tuple_types then Some (tuple_types ! ordinal) else None)
      | _ \<Rightarrow>
          (if is_closure base_ty \<or> is_coroutine base_ty then
             do { types \<leftarrow> closure_field_types tcx base_ty;
                  if ordinal < length types then Some (types ! ordinal) else None }
           else Some NeverTy))"

definition get_downcast_type :: "'c tcx \<Rightarrow> nat \<Rightarrow> 'c ty \<Rightarrow> nat \<Rightarrow> 'c ty option" where
  "get_downcast_type tcx fu base_ty variant_idx =
     (case base_ty of
        Adt d args \<Rightarrow>
          (let variants = adt_variants (tcx_adt tcx d) in
           if length variants \<le> variant_idx
           then (if variants = [] then None else map_option TupleTy (field_tys tcx fu args (last variants)))
           else map_option TupleTy (field_tys tcx fu args (variants ! variant_idx)))
      | Coroutine d args \<Rightarrow>
          (let tuple_types = tcx_state_tys tcx d args in
           if variant_idx < length tuple_types then Some (TupleTy (tuple_types ! variant_idx)) else Some NeverTy)
      | _ \<Rightarrow> Some NeverTy)"

definition get_array_length :: "'c tcx \<Rightarrow> 'c \<Rightarrow> nat" where
  "get_array_length tcx len = (case tcx_eval_usize tcx len of Some val \<Rightarrow> val | None \<Rightarrow> 1)"

definition size_of :: "'c tcx \<Rightarrow> 'c ty \<Rightarrow> nat option" where
  "size_of tcx ty = map_option lay_size (tcx_layout_of tcx ty)"

text \<open>The first field that is not zero-sized, by the layout of its declared type.\<close>

definition non_zst_field :: "'c tcx \<Rightarrow> def_id list \<Rightarrow> nat option" where
  "non_zst_field tcx flds =
     position (\<lambda>field. \<not> (case tcx_layout_of tcx (tcx_type_of tcx field) of Some l \<Rightarrow> lay_zst l | None \<Rightarrow> False)) flds"

definition remove_transparent_wrapper :: "'c tcx \<Rightarrow> nat \<Rightarrow> 'c ty \<Rightarrow> (path_selector \<times> 'c ty) option option" where
  "remove_transparent_wrapper tcx fu ty =
     (case ty of
        Adt d args \<Rightarrow>
          (let def = tcx_adt tcx d in
           if adt_transparent def \<and> adt_kind_of def \<noteq> EnumAdt then
             do { variant \<leftarrow> first_variant def;
                  case non_zst_field tcx variant of
                    Some i \<Rightarrow>
                      do { t \<leftarrow> field_ty tcx fu (variant ! i) args;
                           Some (Some (if adt_kind_of def = UnionAdt then UnionField i else Field i, t)) }
                  | None \<Rightarrow> Some None }
           else Some None)
      | _ \<Rightarrow> Some None)"

subsection \<open>The fields directly inside a type\<close>

text \<open>
  What the walks over a type enumerate: the projection to each direct component and its type.
  A struct, union, tuple, closure or coroutine has its fields, an enum the fields of each
  variant, an array or slice its element.
\<close>

type_synonym 'c typed_proj = "path_selector list \<times> 'c ty"

definition numbered :: "(nat \<Rightarrow> path_selector) \<Rightarrow> path_selector list \<Rightarrow> 'c ty list \<Rightarrow> 'c typed_proj list" where
  "numbered sel prefix types = map (\<lambda>(i, t). (prefix @ [sel i], t)) (enumerate 0 types)"

fun variant_fields :: "'c tcx \<Rightarrow> nat \<Rightarrow> 'c generic_args \<Rightarrow> nat \<Rightarrow> def_id list list \<Rightarrow> 'c typed_proj list option" where
  "variant_fields tcx fu args i [] = Some []"
| "variant_fields tcx fu args i (variant # variants) =
     do { types \<leftarrow> field_tys tcx fu args variant;
          rest \<leftarrow> variant_fields tcx fu args (Suc i) variants;
          Some (numbered Field [Downcast i] types @ rest) }"

definition direct_fields :: "'c tcx \<Rightarrow> nat \<Rightarrow> 'c ty \<Rightarrow> 'c typed_proj list option" where
  "direct_fields tcx fu ty =
     (case ty of
        Adt d args \<Rightarrow>
          (let def = tcx_adt tcx d in
           case adt_kind_of def of
             EnumAdt \<Rightarrow> variant_fields tcx fu args 0 (adt_variants def)
           | kind \<Rightarrow>
               do { variant \<leftarrow> first_variant def;
                    types \<leftarrow> field_tys tcx fu args variant;
                    Some (numbered (if kind = StructAdt then Field else UnionField) [] types) })
      | ArrayTy elem_ty _ \<Rightarrow> Some [([Index], elem_ty)]
      | SliceTy elem_ty \<Rightarrow> Some [([Index], elem_ty)]
      | Closure _ _ \<Rightarrow> map_option (numbered Field []) (closure_field_types tcx ty)
      | Coroutine _ _ \<Rightarrow> map_option (numbered Field []) (closure_field_types tcx ty)
      | TupleTy tuple_types \<Rightarrow> Some (numbered Field [] tuple_types)
      | _ \<Rightarrow> Some [])"

subsection \<open>All fields, and the pointers among them\<close>

fun add_fields :: "('c ty \<Rightarrow> 'c typed_proj list option) \<Rightarrow> 'c typed_proj list \<Rightarrow> 'c typed_proj list option" where
  "add_fields rec [] = Some []"
| "add_fields rec ((proj, fld_ty) # flds) =
     do { subfields \<leftarrow> rec fld_ty;
          rest \<leftarrow> add_fields rec flds;
          Some ((proj, fld_ty) # map (\<lambda>(subfield, subfield_ty). (proj @ subfield, subfield_ty)) subfields @ rest) }"

fun projections_and_types :: "'c tcx \<Rightarrow> nat \<Rightarrow> nat \<Rightarrow> 'c ty \<Rightarrow> 'c typed_proj list option" where
  "projections_and_types tcx fu 0 ty = None"
| "projections_and_types tcx fu (Suc n) ty =
     Option.bind (direct_fields tcx fu ty) (add_fields (projections_and_types tcx fu n))"

fun add_pointer_fields :: "('c ty \<Rightarrow> 'c typed_proj list option) \<Rightarrow> 'c typed_proj list \<Rightarrow> 'c typed_proj list option" where
  "add_pointer_fields rec [] = Some []"
| "add_pointer_fields rec ((proj, fld_ty) # flds) =
     do { here \<leftarrow> (if is_any_ptr fld_ty then Some [(proj, fld_ty)]
                   else map_option (map (\<lambda>(subfield, subfield_ty). (proj @ subfield, subfield_ty))) (rec fld_ty));
          rest \<leftarrow> add_pointer_fields rec flds;
          Some (here @ rest) }"

fun get_pointer_projections :: "'c tcx \<Rightarrow> nat \<Rightarrow> nat \<Rightarrow> 'c ty \<Rightarrow> 'c typed_proj list option" where
  "get_pointer_projections tcx fu 0 ty = None"
| "get_pointer_projections tcx fu (Suc n) ty =
     Option.bind (direct_fields tcx fu ty) (add_pointer_fields (get_pointer_projections tcx fu n))"

text \<open>The cache of pointer projections\<close>

type_synonym 'c pointer_projections_cache = "'c ty \<rightharpoonup> 'c typed_proj list"

definition cached_pointer_projections ::
    "'c tcx \<Rightarrow> nat \<Rightarrow> nat \<Rightarrow> 'c pointer_projections_cache \<Rightarrow> 'c ty \<Rightarrow>
     ('c pointer_projections_cache \<times> 'c typed_proj list) option" where
  "cached_pointer_projections tcx fu n cache base_ty =
     (case cache base_ty of
        Some projs \<Rightarrow> Some (cache, projs)
      | None \<Rightarrow> map_option (\<lambda>projs. (cache(base_ty \<mapsto> projs), projs)) (get_pointer_projections tcx fu n base_ty))"

subsection \<open>What the walks compute\<close>

text \<open>The projections of a type, by following direct fields.\<close>

inductive field_path :: "'c tcx \<Rightarrow> nat \<Rightarrow> 'c ty \<Rightarrow> path_selector list \<Rightarrow> 'c ty \<Rightarrow> bool" for tcx fu where
  direct: "direct_fields tcx fu ty = Some fs \<Longrightarrow> (p, t) \<in> set fs \<Longrightarrow> field_path tcx fu ty p t"
| inside: "direct_fields tcx fu ty = Some fs \<Longrightarrow> (p, t) \<in> set fs \<Longrightarrow> field_path tcx fu t q u \<Longrightarrow>
    field_path tcx fu ty (p @ q) u"

inductive_cases field_pathE: "field_path tcx fu ty p t"

lemma add_fields_Some:
  "add_fields rec fs = Some xs \<Longrightarrow>
     (p, t) \<in> set xs \<longleftrightarrow>
       (p, t) \<in> set fs \<or> (\<exists>p' t' subs q. (p', t') \<in> set fs \<and> rec t' = Some subs \<and> (q, t) \<in> set subs \<and> p = p' @ q)"
proof (induction rec fs arbitrary: xs rule: add_fields.induct)
  case (2 rec proj t' fs)
  then obtain subs rest where r: "rec t' = Some subs" "add_fields rec fs = Some rest"
    "xs = (proj, t') # map (\<lambda>(q, u). (proj @ q, u)) subs @ rest" by (auto simp: bind_eq_Some_conv)
  show ?case using "2.IH" [OF r(1,2)] r(1) unfolding r(3) by (auto simp: image_iff; force)
qed simp

lemma add_fields_total: "add_fields rec fs = None \<longleftrightarrow> (\<exists>p t. (p, t) \<in> set fs \<and> rec t = None)"
  by (induction rec fs rule: add_fields.induct) (fastforce split: Option.bind_splits)+

lemma direct_fields_ptr: "is_any_ptr t \<Longrightarrow> direct_fields tcx fu t = Some []"
  by (cases t) (auto simp: direct_fields_def)

lemma projections_ptr: "is_any_ptr t \<Longrightarrow> projections_and_types tcx fu n t = Some xs \<Longrightarrow> xs = []"
  by (cases n) (auto simp: direct_fields_ptr)

lemma projections_iff:
  "projections_and_types tcx fu n ty = Some xs \<Longrightarrow> (p, t) \<in> set xs \<longleftrightarrow> field_path tcx fu ty p t"
proof (induction n arbitrary: ty xs p t)
  case (Suc n)
  then obtain fs where fs: "direct_fields tcx fu ty = Some fs" "add_fields (projections_and_types tcx fu n) fs = Some xs"
    by (auto simp: bind_eq_Some_conv)
  have sub: "\<exists>subs. projections_and_types tcx fu n t' = Some subs" if "(p', t') \<in> set fs" for p' t'
    using add_fields_total [of "projections_and_types tcx fu n" fs] fs(2) that by fastforce
  show ?case
    unfolding add_fields_Some [OF fs(2)]
  proof
    assume "(p, t) \<in> set fs \<or> (\<exists>p' t' subs q. (p', t') \<in> set fs \<and> projections_and_types tcx fu n t' = Some subs \<and> (q, t) \<in> set subs \<and> p = p' @ q)"
    then show "field_path tcx fu ty p t" using fs(1) Suc.IH field_path.intros by metis
  next
    assume "field_path tcx fu ty p t"
    then show "(p, t) \<in> set fs \<or> (\<exists>p' t' subs q. (p', t') \<in> set fs \<and> projections_and_types tcx fu n t' = Some subs \<and> (q, t) \<in> set subs \<and> p = p' @ q)"
      by (cases rule: field_path.cases) (use fs(1) sub Suc.IH in fastforce)+
  qed
qed simp

lemma add_pointer_fields_filter:
  "add_fields rec fs = Some xs \<Longrightarrow>
   (\<And>p t subs. (p, t) \<in> set fs \<Longrightarrow> rec t = Some subs \<Longrightarrow>
      if is_any_ptr t then subs = [] else rec' t = Some (filter (\<lambda>(q, u). is_any_ptr u) subs)) \<Longrightarrow>
   add_pointer_fields rec' fs = Some (filter (\<lambda>(q, u). is_any_ptr u) xs)"
proof (induction rec fs arbitrary: xs rule: add_fields.induct)
  case (2 rec proj t' fs)
  then obtain subs rest where r: "rec t' = Some subs" "add_fields rec fs = Some rest"
    "xs = (proj, t') # map (\<lambda>(q, u). (proj @ q, u)) subs @ rest" by (auto simp: bind_eq_Some_conv)
  have rest: "add_pointer_fields rec' fs = Some (filter (\<lambda>(q, u). is_any_ptr u) rest)"
  proof (rule "2.IH" [OF r(1,2)])
    show "if is_any_ptr t then subs = [] else rec' t = Some (filter (\<lambda>(q, u). is_any_ptr u) subs)"
      if "(p, t) \<in> set fs" "rec t = Some subs" for p t subs
      using that "2.prems"(2) [of p t subs] by simp
  qed
  show ?case
    using "2.prems"(2) [OF _ r(1), of proj] rest unfolding r(3)
    by (auto simp: filter_map comp_def case_prod_unfold split: if_splits)
qed simp

lemma pointer_projections_filter:
  "projections_and_types tcx fu n ty = Some xs \<Longrightarrow>
     get_pointer_projections tcx fu n ty = Some (filter (\<lambda>(p, t). is_any_ptr t) xs)"
proof (induction n arbitrary: ty xs)
  case (Suc n)
  then obtain fs where fs: "direct_fields tcx fu ty = Some fs" "add_fields (projections_and_types tcx fu n) fs = Some xs"
    by (auto simp: bind_eq_Some_conv)
  have "add_pointer_fields (get_pointer_projections tcx fu n) fs = Some (filter (\<lambda>(q, u). is_any_ptr u) xs)"
    by (intro add_pointer_fields_filter [OF fs(2)]) (auto simp: Suc.IH dest: projections_ptr)
  then show ?case using fs(1) by simp
qed simp

text \<open>
  The compiler only accepts types of finite size: there is a rank that every direct field of a
  type lowers.
\<close>

definition finite_fields :: "'c tcx \<Rightarrow> nat \<Rightarrow> 'c ty set \<Rightarrow> ('c ty \<Rightarrow> nat) \<Rightarrow> bool" where
  "finite_fields tcx fu S rank \<longleftrightarrow>
     (\<forall>t \<in> S. \<exists>fs. direct_fields tcx fu t = Some fs \<and> (\<forall>(p, u) \<in> set fs. u \<in> S \<and> rank u < rank t))"

lemma projections_total:
  assumes "finite_fields tcx fu S rank" "ty \<in> S" "rank ty < n"
  shows "\<exists>xs. projections_and_types tcx fu n ty = Some xs"
  using assms(2,3)
proof (induction n arbitrary: ty)
  case (Suc n)
  then obtain fs where fs: "direct_fields tcx fu ty = Some fs" "\<forall>(p, u) \<in> set fs. u \<in> S \<and> rank u < rank ty"
    using assms(1) unfolding finite_fields_def by blast
  have "add_fields (projections_and_types tcx fu n) fs \<noteq> None"
    unfolding add_fields_total
  proof clarify
    fix p t
    assume "(p, t) \<in> set fs" "projections_and_types tcx fu n t = None"
    then have "t \<in> S" "rank t < n" using fs(2) Suc.prems(2) by fastforce+
    then show False using Suc.IH [of t] \<open>_ = None\<close> by simp
  qed
  then show ?case using fs(1) by simp
qed simp

subsection \<open>Properties\<close>

text \<open>
  C35: On types of finite size the walks end, \<open>projections_and_types\<close> lists exactly the
  projections reached through fields with their types, and \<open>get_pointer_projections\<close> lists, in
  the same order, exactly those that are pointers: it never looks behind a pointer and misses
  none.
\<close>

theorem pointer_projections_exact:
  assumes "finite_fields tcx fu S rank" "ty \<in> S" "rank ty < n"
  shows "\<exists>xs. projections_and_types tcx fu n ty = Some xs \<and>
    get_pointer_projections tcx fu n ty = Some (filter (\<lambda>(p, t). is_any_ptr t) xs) \<and>
    (\<forall>p t. (p, t) \<in> set xs \<longleftrightarrow> field_path tcx fu ty p t)"
  using projections_total [OF assms] pointer_projections_filter projections_iff by blast

definition sample_pair :: "(nat + nat) ty" where
  "sample_pair = Adt (0, 1) [TypeKind (TupleTy [UintTy 4, Adt (0, 2) []])]"

fun sample_rank :: "(nat + nat) ty \<Rightarrow> nat" where
  "sample_rank (Adt d as) = (if d = (0, 1) then 4 else 1)"
| "sample_rank (TupleTy ts) = 2"
| "sample_rank _ = 0"

definition sample_types :: "(nat + nat) ty set" where
  "sample_types = {sample_pair, RefTy 0 (TupleTy [UintTy 4, Adt (0, 2) []]) False, TupleTy [UintTy 4, Adt (0, 2) []],
     UintTy 4, UintTy 8, Adt (0, 2) [], RawPtr (Adt (0, 2) []) True}"

lemma sample_direct:
  "direct_fields sample_tcx 9 sample_pair =
     Some [([Field 0], RefTy 0 (TupleTy [UintTy 4, Adt (0, 2) []]) False), ([Field 1], TupleTy [UintTy 4, Adt (0, 2) []])]"
  "direct_fields sample_tcx 9 (Adt (0, 2) []) = Some [([Field 0], RawPtr (Adt (0, 2) []) True), ([Field 1], UintTy 8)]"
  "direct_fields sample_tcx 9 (TupleTy [UintTy 4, Adt (0, 2) []]) = Some [([Field 0], UintTy 4), ([Field 1], Adt (0, 2) [])]"
  "direct_fields sample_tcx 9 (UintTy n) = Some []"
  "direct_fields sample_tcx 9 (RefTy r t m) = Some []"
  "direct_fields sample_tcx 9 (RawPtr t m) = Some []"
       apply code_simp
      apply code_simp
     apply code_simp
    apply (simp_all add: direct_fields_def)
  done

lemma sample_finite: "finite_fields sample_tcx 9 sample_types sample_rank"
  unfolding finite_fields_def sample_types_def
  by (simp add: sample_direct) (simp add: sample_pair_def)

theorem pointer_projections_exact_witness:
  "get_pointer_projections sample_tcx 9 5 sample_pair =
     Some [([Field 0], RefTy 0 (TupleTy [UintTy 4, Adt (0, 2) []]) False),
           ([Field 1, Field 1, Field 0], RawPtr (Adt (0, 2) []) True)]"
proof -
  have "projections_and_types sample_tcx 9 5 sample_pair =
      Some [([Field 0], RefTy 0 (TupleTy [UintTy 4, Adt (0, 2) []]) False),
        ([Field 1], TupleTy [UintTy 4, Adt (0, 2) []]), ([Field 1, Field 0], UintTy 4),
        ([Field 1, Field 1], Adt (0, 2) []), ([Field 1, Field 1, Field 0], RawPtr (Adt (0, 2) []) True),
        ([Field 1, Field 1, Field 1], UintTy 8)]"
    by code_simp
  moreover have "sample_pair \<in> sample_types" "sample_rank sample_pair < 5"
    by (simp_all add: sample_types_def sample_pair_def)
  ultimately show ?thesis using pointer_projections_exact [OF sample_finite, of sample_pair 5] by simp
qed

end
