(* ===== verification/Byte_Offsets.thy ===== *)
theory Byte_Offsets
  imports Type_Fields
begin

section \<open>Byte offsets of fields (\<open>FieldByteOffsetCache\<close>, \<open>src/util/type_util.rs\<close>)\<close>

text \<open>
  The offset of a nested field is the sum of the offsets along the way. The table of a type is
  computed from the tables of its fields, which are cached. A component to be inserted is its
  projection, its offset and, when its own fields are to be inserted too, its type.
\<close>

type_synonym 'c component = "path_selector list \<times> nat \<times> 'c ty option"
type_synonym offset_map = "path_selector list \<rightharpoonup> nat"
type_synonym 'c offset_cache = "'c ty \<rightharpoonup> offset_map"

definition field_components :: "(nat \<Rightarrow> 'c ty option) \<Rightarrow> nat list \<Rightarrow> 'c component list option" where
  "field_components fld_ty offsets =
     those (map (\<lambda>(i, offset). map_option (\<lambda>t. ([Field i], offset, Some t)) (fld_ty i)) (enumerate 0 offsets))"

text \<open>Closures are laid out in the order of their fields; a field without layout takes no room.\<close>

fun closure_components :: "'c tcx \<Rightarrow> nat \<Rightarrow> nat \<Rightarrow> 'c ty list \<Rightarrow> 'c component list" where
  "closure_components tcx i byte_offset [] = []"
| "closure_components tcx i byte_offset (t # ts) =
     (case tcx_layout_of tcx t of
        Some l \<Rightarrow> ([Field i], byte_offset, Some t) # closure_components tcx (Suc i) (byte_offset + lay_size l) ts
      | None \<Rightarrow> ([Field i], byte_offset, None) # closure_components tcx (Suc i) byte_offset ts)"

definition offset_components :: "'c tcx \<Rightarrow> nat \<Rightarrow> 'c ty \<Rightarrow> 'c component list option" where
  "offset_components tcx fu ty =
     (case ty of
        Adt d args \<Rightarrow>
          (case adt_kind_of (tcx_adt tcx d) of
             StructAdt \<Rightarrow>
               (case tcx_layout_of tcx ty of
                  Some l \<Rightarrow>
                    do { variant \<leftarrow> first_variant (tcx_adt tcx d);
                         case lay_fields l of
                           Some (offsets, _) \<Rightarrow>
                             field_components
                               (\<lambda>i. if i < length variant then field_ty tcx fu (variant ! i) args else None) offsets
                         | None \<Rightarrow> Some [] }
                | None \<Rightarrow> Some [])
           | UnionAdt \<Rightarrow>
               do { variant \<leftarrow> first_variant (tcx_adt tcx d);
                    types \<leftarrow> field_tys tcx fu args variant;
                    Some (map (\<lambda>(p, t). (p, 0, Some t)) (numbered UnionField [] types)) }
           | EnumAdt \<Rightarrow> Some [])
      | ArrayTy elem_ty _ \<Rightarrow> Some [([Index], 0, Some elem_ty)]
      | SliceTy elem_ty \<Rightarrow> Some [([Index], 0, Some elem_ty)]
      | TupleTy tuple_types \<Rightarrow>
          (case tcx_layout_of tcx ty of
             Some l \<Rightarrow>
               (case lay_fields l of
                  Some (offsets, _) \<Rightarrow>
                    field_components (\<lambda>i. if i < length tuple_types then Some (tuple_types ! i) else None) offsets
                | None \<Rightarrow> Some [])
           | None \<Rightarrow> map_option (map (\<lambda>(p, t). (p, 0, None))) (projections_and_types tcx fu fu ty))
      | Closure _ _ \<Rightarrow> map_option (closure_components tcx 0 0) (closure_field_types tcx ty)
      | _ \<Rightarrow> Some [])"

text \<open>The offsets of a field's own fields, moved by the field's projection and offset, are inserted.\<close>

definition strip :: "path_selector list \<Rightarrow> path_selector list \<Rightarrow> path_selector list option" where
  "strip proj p = (if take (length proj) p = proj then Some (drop (length proj) p) else None)"

definition add_subfields :: "path_selector list \<Rightarrow> nat \<Rightarrow> offset_map \<Rightarrow> offset_map \<Rightarrow> offset_map" where
  "add_subfields fld_proj fld_offset subflds_offsets m =
     (\<lambda>p. case Option.bind (strip fld_proj p) subflds_offsets of
        Some suboffset \<Rightarrow> Some (fld_offset + suboffset)
      | None \<Rightarrow> m p)"

fun insert_components ::
    "('c offset_cache \<Rightarrow> 'c ty \<Rightarrow> 'c offset_cache option) \<Rightarrow> 'c component list \<Rightarrow> offset_map \<Rightarrow> 'c offset_cache \<Rightarrow>
     (offset_map \<times> 'c offset_cache) option" where
  "insert_components rec [] m cache = Some (m, cache)"
| "insert_components rec ((proj, byte_offset, None) # cs) m cache =
     insert_components rec cs (m(proj \<mapsto> byte_offset)) cache"
| "insert_components rec ((proj, byte_offset, Some fld_ty) # cs) m cache =
     do { cache' \<leftarrow> (if cache fld_ty = None then rec cache fld_ty else Some cache);
          subflds_offsets \<leftarrow> cache' fld_ty;
          insert_components rec cs (add_subfields proj byte_offset subflds_offsets (m(proj \<mapsto> byte_offset))) cache' }"

fun compute_fields_byte_offsets :: "'c tcx \<Rightarrow> nat \<Rightarrow> nat \<Rightarrow> 'c offset_cache \<Rightarrow> 'c ty \<Rightarrow> 'c offset_cache option" where
  "compute_fields_byte_offsets tcx fu 0 cache ty = None"
| "compute_fields_byte_offsets tcx fu (Suc n) cache ty =
     do { cs \<leftarrow> offset_components tcx fu ty;
          (fields_byte_offsets, cache') \<leftarrow>
            insert_components (compute_fields_byte_offsets tcx fu n) cs Map.empty cache;
          Some (cache'(ty \<mapsto> fields_byte_offsets)) }"

definition get_field_byte_offset ::
    "'c tcx \<Rightarrow> nat \<Rightarrow> nat \<Rightarrow> 'c offset_cache \<Rightarrow> 'c ty \<Rightarrow> path_selector list \<Rightarrow> ('c offset_cache \<times> nat) option" where
  "get_field_byte_offset tcx fu n cache base_ty proj =
     do { cache' \<leftarrow> (if cache base_ty = None then compute_fields_byte_offsets tcx fu n cache base_ty else Some cache);
          fields_byte_offsets \<leftarrow> cache' base_ty;
          Some (cache', entry_or fields_byte_offsets proj 0) }"

subsection \<open>The offsets of a type\<close>

inductive offset_at :: "'c tcx \<Rightarrow> nat \<Rightarrow> 'c ty \<Rightarrow> path_selector list \<Rightarrow> nat \<Rightarrow> bool" for tcx fu where
  direct: "offset_components tcx fu ty = Some cs \<Longrightarrow> (p, off, x) \<in> set cs \<Longrightarrow> offset_at tcx fu ty p off"
| inside: "offset_components tcx fu ty = Some cs \<Longrightarrow> (p, off, Some t) \<in> set cs \<Longrightarrow> offset_at tcx fu t q off' \<Longrightarrow>
    offset_at tcx fu ty (p @ q) (off + off')"

text \<open>The components of a type have different projections, and nothing is inserted below one
  another's.\<close>

definition comps_ok :: "'c component list \<Rightarrow> bool" where
  "comps_ok cs \<longleftrightarrow>
     (\<forall>e \<in> set cs. \<forall>e' \<in> set cs. fst e = fst e' \<longrightarrow> e = e') \<and> (\<forall>e \<in> set cs. fst e \<noteq> []) \<and>
     ((\<forall>e \<in> set cs. length (fst e) = 1) \<or> (\<forall>e \<in> set cs. snd (snd e) = None))"

lemma those_enumerate:
  "those (map (\<lambda>(i, x). map_option (g i x) (f i)) (enumerate n xs)) = Some ys \<Longrightarrow>
     (e \<in> set ys \<longrightarrow> (\<exists>i x t. (i, x) \<in> set (enumerate n xs) \<and> f i = Some t \<and> e = g i x t))"
proof (induction xs arbitrary: n ys)
  case (Cons x xs)
  then show ?case by (fastforce split: option.splits)
qed simp

lemma field_components_ok:
  assumes "field_components fld_ty offsets = Some cs"
  shows "comps_ok cs"
proof -
  have e: "\<exists>i t. i < length offsets \<and> e = ([Field i], offsets ! i, Some t) \<and> fld_ty i = Some t" if "e \<in> set cs" for e
    using those_enumerate [of "\<lambda>i off t. ([Field i], off, Some t)" fld_ty 0 offsets cs e] assms that
    by (auto simp: field_components_def in_set_enumerate_eq)
  then show ?thesis unfolding comps_ok_def by (metis One_nat_def fst_conv length_Cons list.inject list.size(3)
      not_Cons_self2 option.inject path_selector.inject(1))
qed

lemma numbered_iff: "(p, t) \<in> set (numbered sel prefix ts) \<longleftrightarrow> (\<exists>i < length ts. p = prefix @ [sel i] \<and> t = ts ! i)"
proof -
  have "(p, t) \<in> set (numbered sel prefix ts) \<longleftrightarrow> (\<exists>(i, t') \<in> set (enumerate 0 ts). p = prefix @ [sel i] \<and> t = t')"
    by (force simp: numbered_def image_iff)
  then show ?thesis by (auto simp: in_set_enumerate_eq)
qed

lemma closure_components_fst:
  "map fst (closure_components tcx i off ts) = map (\<lambda>j. [Field j]) [i..<i + length ts]"
  by (induction ts arbitrary: i off) (auto split: option.splits simp: upt_conv_Cons simp del: upt_Suc)

lemma closure_components_ok: "comps_ok (closure_components tcx i off ts)"
proof -
  have fst: "fst ` set (closure_components tcx i off ts) = (\<lambda>j. [Field j]) ` {i..<i + length ts}"
    using arg_cong [OF closure_components_fst, of set] by simp
  have "distinct (map fst (closure_components tcx i off ts))"
    unfolding closure_components_fst by (simp add: distinct_map inj_on_def)
  then have "\<forall>e \<in> set (closure_components tcx i off ts). \<forall>e' \<in> set (closure_components tcx i off ts).
      fst e = fst e' \<longrightarrow> e = e'"
    by (simp add: distinct_map inj_on_def)
  moreover have "\<forall>e \<in> set (closure_components tcx i off ts). length (fst e) = 1 \<and> fst e \<noteq> []"
    using fst by (metis (no_types, lifting) One_nat_def imageE image_eqI length_Cons list.size(3) not_Cons_self2)
  ultimately show ?thesis unfolding comps_ok_def by blast
qed

lemma field_path_nonempty: "field_path tcx fu ty p t \<Longrightarrow> p \<noteq> []"
proof (induction rule: field_path.induct)
  case (direct ty fs p t)
  have var: "variant_fields tcx fu args i vs = Some xs \<Longrightarrow> (p, t) \<in> set xs \<Longrightarrow> p \<noteq> []" for args i vs xs
    by (induction vs arbitrary: i xs) (auto simp: bind_eq_Some_conv numbered_iff)
  show ?case
    using direct var
    by (auto simp: direct_fields_def Let_def bind_eq_Some_conv numbered_iff split: ty.splits adt_kind.splits)
qed auto

lemma offset_components_ok: "offset_components tcx fu ty = Some cs \<Longrightarrow> comps_ok cs"
proof -
  assume cs: "offset_components tcx fu ty = Some cs"
  have flat: "comps_ok (map (\<lambda>(p, t). (p, 0, None)) ps)" if "projections_and_types tcx fu fu ty = Some ps" for ps
    using projections_iff [OF that] field_path_nonempty [of tcx fu ty] by (fastforce simp: comps_ok_def)
  have union: "comps_ok (map (\<lambda>(p, t). (p, 0, Some t)) (numbered UnionField [] ts))" for ts :: "'a ty list"
    by (auto simp: comps_ok_def numbered_iff)
  show ?thesis
    using cs field_components_ok closure_components_ok flat union
    by (auto simp: offset_components_def bind_eq_Some_conv comps_ok_def [of "[]"] comps_ok_def [of "[_]"]
        split: ty.splits adt_kind.splits option.splits)
qed

subsection \<open>The cache holds these offsets\<close>

definition gives :: "'c tcx \<Rightarrow> nat \<Rightarrow> 'c component \<Rightarrow> path_selector list \<Rightarrow> nat \<Rightarrow> bool" where
  "gives tcx fu e p off \<longleftrightarrow>
     (case e of (proj, fld_off, x) \<Rightarrow>
        p = proj \<and> off = fld_off \<or>
        (\<exists>t q c. x = Some t \<and> p = proj @ q \<and> offset_at tcx fu t q c \<and> off = fld_off + c))"

definition rel :: "'c tcx \<Rightarrow> nat \<Rightarrow> 'c component list \<Rightarrow> path_selector list \<Rightarrow> nat \<Rightarrow> bool" where
  "rel tcx fu cs p off \<longleftrightarrow> (\<exists>e \<in> set cs. gives tcx fu e p off)"

lemma offset_at_rel:
  assumes "offset_components tcx fu ty = Some cs"
  shows "offset_at tcx fu ty p off \<longleftrightarrow> rel tcx fu cs p off"
proof
  assume "offset_at tcx fu ty p off"
  then show "rel tcx fu cs p off"
  proof (cases rule: offset_at.cases)
    case (direct cs' x)
    then have "(p, off, x) \<in> set cs" "gives tcx fu (p, off, x) p off" using assms by (auto simp: gives_def)
    then show ?thesis unfolding rel_def by blast
  next
    case (inside cs' p' off' t q c)
    then have "(p', off', Some t) \<in> set cs" "gives tcx fu (p', off', Some t) p off" using assms by (auto simp: gives_def)
    then show ?thesis unfolding rel_def by blast
  qed
next
  assume "rel tcx fu cs p off"
  then show "offset_at tcx fu ty p off"
    using assms by (auto simp: rel_def gives_def intro: offset_at.intros)
qed

lemma offset_at_nonempty: "offset_at tcx fu ty p off \<Longrightarrow> p \<noteq> []"
proof (induction rule: offset_at.induct)
  case (direct ty cs p off x)
  then show ?case using offset_components_ok [OF direct(1)] unfolding comps_ok_def by (metis fst_conv)
qed simp

lemma rel_functional_step:
  assumes ok: "comps_ok cs" and "rel tcx fu cs p o1" "rel tcx fu cs p o2"
    and below: "\<And>t q a b. length q < length p \<Longrightarrow> offset_at tcx fu t q a \<Longrightarrow> offset_at tcx fu t q b \<Longrightarrow> a = b"
  shows "o1 = o2"
proof -
  obtain e e' where e: "e \<in> set cs" "gives tcx fu e p o1" "e' \<in> set cs" "gives tcx fu e' p o2"
    using assms(2,3) by (auto simp: rel_def)
  have "fst e = fst e'"
  proof (cases "\<forall>e \<in> set cs. snd (snd e) = None")
    case True
    then show ?thesis using e by (auto simp: gives_def split: prod.splits)
  next
    case False
    then have "length (fst e) = 1" "length (fst e') = 1" using ok e by (auto simp: comps_ok_def)
    moreover have "\<exists>q. p = fst e @ q" "\<exists>q. p = fst e' @ q" using e by (auto simp: gives_def split: prod.splits)
    ultimately show ?thesis by (metis append_eq_append_conv)
  qed
  then have "e = e'" using ok e by (auto simp: comps_ok_def)
  moreover obtain proj c x where "e = (proj, c, x)" by (cases e)
  moreover from this have "proj \<noteq> []" using ok e(1) by (fastforce simp: comps_ok_def)
  ultimately show ?thesis
    using e(2,4) below [of "drop (length proj) p"] by (auto simp: gives_def dest: offset_at_nonempty)
qed

lemma offset_at_functional: "offset_at tcx fu ty p a \<Longrightarrow> offset_at tcx fu ty p b \<Longrightarrow> a = b"
proof (induction "length p" arbitrary: ty p a b rule: less_induct)
  case less
  obtain cs where cs: "offset_components tcx fu ty = Some cs" using less.prems(1) by (cases rule: offset_at.cases) auto
  show ?case
    using less.prems rel_functional_step [OF offset_components_ok [OF cs]] less.hyps
    unfolding offset_at_rel [OF cs] by blast
qed

definition map_exact :: "'c tcx \<Rightarrow> nat \<Rightarrow> 'c ty \<Rightarrow> offset_map \<Rightarrow> bool" where
  "map_exact tcx fu ty m \<longleftrightarrow> (\<forall>p off. m p = Some off \<longleftrightarrow> offset_at tcx fu ty p off)"

definition offset_cache_ok :: "'c tcx \<Rightarrow> nat \<Rightarrow> 'c offset_cache \<Rightarrow> bool" where
  "offset_cache_ok tcx fu cache \<longleftrightarrow> (\<forall>ty m. cache ty = Some m \<longrightarrow> map_exact tcx fu ty m)"

lemma strip_Some: "strip proj p = Some q \<longleftrightarrow> p = proj @ q"
  by (auto simp: strip_def) (metis append_take_drop_id)

lemma add_subfields_iff:
  assumes "map_exact tcx fu t sub"
  shows "add_subfields proj off sub m p = Some o1 \<longleftrightarrow>
    (\<exists>q c. p = proj @ q \<and> offset_at tcx fu t q c \<and> o1 = off + c) \<or>
    (\<nexists>q c. p = proj @ q \<and> offset_at tcx fu t q c) \<and> m p = Some o1"
proof -
  have "Option.bind (strip proj p) sub = Some c \<longleftrightarrow> (\<exists>q. p = proj @ q \<and> offset_at tcx fu t q c)" for c
    using assms by (auto simp: bind_eq_Some_conv strip_Some map_exact_def)
  then show ?thesis
    unfolding add_subfields_def by (cases "Option.bind (strip proj p) sub") auto
qed

lemma rel_append: "rel tcx fu (xs @ ys) p a \<longleftrightarrow> rel tcx fu xs p a \<or> rel tcx fu ys p a"
  unfolding rel_def by auto

lemma rel_Cons: "rel tcx fu (e # ys) p a \<longleftrightarrow> gives tcx fu e p a \<or> rel tcx fu ys p a"
  unfolding rel_def by auto

lemma rel_Nil: "\<not> rel tcx fu [] p a"
  by (simp add: rel_def)

lemma rel_single:
  "gives tcx fu (proj, off, None) p a \<longleftrightarrow> p = proj \<and> a = off"
  "gives tcx fu (proj, off, Some t) p a \<longleftrightarrow>
     p = proj \<and> a = off \<or> (\<exists>q c. p = proj @ q \<and> offset_at tcx fu t q c \<and> a = off + c)"
  unfolding gives_def by auto

lemmas rel_simps = rel_append rel_Cons rel_Nil rel_single

lemma insert_components_exact:
  assumes all: "\<And>p a b. rel tcx fu (ds @ cs) p a \<Longrightarrow> rel tcx fu (ds @ cs) p b \<Longrightarrow> a = b"
    and rec: "\<forall>cache t cache'. offset_cache_ok tcx fu cache \<longrightarrow> rec cache t = Some cache' \<longrightarrow> offset_cache_ok tcx fu cache'"
    and m: "\<And>p off. m p = Some off \<longleftrightarrow> rel tcx fu ds p off"
    and "offset_cache_ok tcx fu cache" "insert_components rec cs m cache = Some (m', cache')"
  shows "(\<forall>p off. m' p = Some off \<longleftrightarrow> rel tcx fu (ds @ cs) p off) \<and> offset_cache_ok tcx fu cache'"
  using assms
proof (induction rec cs m cache arbitrary: ds rule: insert_components.induct)
  case (2 rec proj off cs m cache)
  have all: "rel tcx fu (ds @ [(proj, off, None)]) p a \<Longrightarrow> rel tcx fu (ds @ [(proj, off, None)]) p b \<Longrightarrow> a = b" for p a b
    using "2.prems"(1) [of p a b] by (auto simp: rel_simps)
  have "(m(proj \<mapsto> off)) p = Some a \<longleftrightarrow> rel tcx fu (ds @ [(proj, off, None)]) p a" for p a
    using "2.prems"(3) [of p a] all [of p a off] by (auto simp: rel_simps)
  then have "\<And>p a. (m(proj \<mapsto> off)) p = Some a \<longleftrightarrow> rel tcx fu (ds @ [(proj, off, None)]) p a" by blast
  moreover have "insert_components rec cs (m(proj \<mapsto> off)) cache = Some (m', cache')" using "2.prems"(5) by simp
  ultimately show ?case using "2.IH" [of "ds @ [(proj, off, None)]"] "2.prems"(1,2,4) by (simp del: fun_upd_apply)
next
  case (3 rec proj off t cs m cache)
  let ?e = "(proj, off, Some t)"
  obtain c1 sub where c1: "(if cache t = None then rec cache t else Some cache) = Some c1" "c1 t = Some sub"
    "insert_components rec cs (add_subfields proj off sub (m(proj \<mapsto> off))) c1 = Some (m', cache')"
    using "3.prems"(5) by (auto simp: bind_eq_Some_conv)
  have ok: "offset_cache_ok tcx fu c1" using c1(1) "3.prems"(2,4) by (metis option.inject)
  then have sub: "map_exact tcx fu t sub" using c1(2) by (simp add: offset_cache_ok_def)
  have all: "rel tcx fu (ds @ [?e]) p a \<Longrightarrow> rel tcx fu (ds @ [?e]) p b \<Longrightarrow> a = b" for p a b
    by (rule "3.prems"(1) [of p a b]) (auto simp: rel_append rel_Cons rel_Nil)
  have "add_subfields proj off sub (m(proj \<mapsto> off)) p = Some a \<longleftrightarrow> rel tcx fu (ds @ [?e]) p a" for p a
  proof (cases "\<exists>q c. p = proj @ q \<and> offset_at tcx fu t q c")
    case True
    then obtain q c where qc: "p = proj @ q" "offset_at tcx fu t q c" by blast
    then have new: "rel tcx fu (ds @ [?e]) p (off + c)" by (auto simp: rel_simps)
    have "add_subfields proj off sub (m(proj \<mapsto> off)) p = Some (off + c)"
      unfolding add_subfields_iff [OF sub] using qc by blast
    then show ?thesis using all [OF new, of a] new by (metis option.inject)
  next
    case False
    then have "add_subfields proj off sub (m(proj \<mapsto> off)) p = Some a \<longleftrightarrow> (m(proj \<mapsto> off)) p = Some a"
      unfolding add_subfields_iff [OF sub] by blast
    moreover have "rel tcx fu (ds @ [?e]) p a \<longleftrightarrow> rel tcx fu ds p a \<or> p = proj \<and> a = off"
      using False by (auto simp: rel_simps)
    ultimately show ?thesis
      using "3.prems"(3) [of p a] all [of p a off] by (auto simp: rel_simps)
  qed
  then have "\<And>p a. add_subfields proj off sub (m(proj \<mapsto> off)) p = Some a \<longleftrightarrow> rel tcx fu (ds @ [?e]) p a" by blast
  from "3.IH" [OF c1(1,2) _ "3.prems"(2) this ok c1(3)] "3.prems"(1) show ?case by simp
qed simp

lemma compute_exact:
  "offset_cache_ok tcx fu cache \<Longrightarrow> compute_fields_byte_offsets tcx fu n cache ty = Some cache' \<Longrightarrow>
     offset_cache_ok tcx fu cache' \<and> cache' ty \<noteq> None"
proof (induction n arbitrary: cache ty cache')
  case (Suc n)
  then obtain cs m c1 where c1: "offset_components tcx fu ty = Some cs"
    "insert_components (compute_fields_byte_offsets tcx fu n) cs Map.empty cache = Some (m, c1)" "cache' = c1(ty \<mapsto> m)"
    by (auto simp: bind_eq_Some_conv)
  have "(\<forall>p off. m p = Some off \<longleftrightarrow> rel tcx fu ([] @ cs) p off) \<and> offset_cache_ok tcx fu c1"
  proof (rule insert_components_exact [OF _ _ _ Suc.prems(1) c1(2)])
    show "\<forall>cache t cache'. offset_cache_ok tcx fu cache \<longrightarrow>
        compute_fields_byte_offsets tcx fu n cache t = Some cache' \<longrightarrow> offset_cache_ok tcx fu cache'"
      using Suc.IH by blast
    show "a = b" if "rel tcx fu ([] @ cs) p a" "rel tcx fu ([] @ cs) p b" for p a b
      using that unfolding append_Nil offset_at_rel [OF c1(1), symmetric] by (rule offset_at_functional)
    show "Map.empty p = Some off \<longleftrightarrow> rel tcx fu [] p off" for p off by (simp add: rel_Nil)
  qed
  then show ?case
    unfolding c1(3) offset_cache_ok_def map_exact_def by (simp add: offset_at_rel [OF c1(1)])
qed simp

definition finite_components :: "'c tcx \<Rightarrow> nat \<Rightarrow> 'c ty set \<Rightarrow> ('c ty \<Rightarrow> nat) \<Rightarrow> bool" where
  "finite_components tcx fu S rank \<longleftrightarrow>
     (\<forall>t \<in> S. \<exists>cs. offset_components tcx fu t = Some cs \<and>
        (\<forall>(p, off, x) \<in> set cs. \<forall>u. x = Some u \<longrightarrow> u \<in> S \<and> rank u < rank t))"

lemma insert_components_total:
  assumes "\<forall>cache p off t. (p, off, Some t) \<in> set cs \<longrightarrow> (\<exists>cache'. rec cache t = Some cache' \<and> cache' t \<noteq> None)"
  shows "\<exists>m' cache'. insert_components rec cs m cache = Some (m', cache')"
  using assms
proof (induction rec cs m cache rule: insert_components.induct)
  case (3 rec proj off t cs m cache)
  obtain c1 where "rec cache t = Some c1" "c1 t \<noteq> None" using "3.prems" [rule_format, of proj off t cache] by auto
  then obtain c2 sub where c2: "(if cache t = None then rec cache t else Some cache) = Some c2" "c2 t = Some sub"
    by (cases "cache t") auto
  have "\<exists>m' cache'. insert_components rec cs (add_subfields proj off sub (m(proj \<mapsto> off))) c2 = Some (m', cache')"
    by (rule "3.IH" [OF c2]) (intro allI impI, rule "3.prems" [rule_format], erule list.set_intros(2))
  then show ?case using c2 by simp
qed simp_all

lemma compute_total:
  assumes "finite_components tcx fu S rank" "ty \<in> S" "rank ty < n"
  shows "\<exists>cache'. compute_fields_byte_offsets tcx fu n cache ty = Some cache' \<and> cache' ty \<noteq> None"
  using assms(2,3)
proof (induction n arbitrary: ty cache)
  case (Suc n)
  obtain cs where cs: "offset_components tcx fu ty = Some cs"
    "\<forall>(p, off, x) \<in> set cs. \<forall>u. x = Some u \<longrightarrow> u \<in> S \<and> rank u < rank ty"
    using assms(1) Suc.prems(1) unfolding finite_components_def by blast
  have "\<exists>m' cache'. insert_components (compute_fields_byte_offsets tcx fu n) cs Map.empty cache = Some (m', cache')"
  proof (intro insert_components_total allI impI)
    fix c p off t
    assume "(p, off, Some t) \<in> set cs"
    then have "t \<in> S" "rank t < n" using cs(2) Suc.prems(2) by fastforce+
    then show "\<exists>cache'. compute_fields_byte_offsets tcx fu n c t = Some cache' \<and> cache' t \<noteq> None" using Suc.IH by blast
  qed
  then show ?case using cs(1) by auto
qed simp

lemma field_offset_of_finite:
  assumes "offset_cache_ok tcx fu cache" "finite_components tcx fu S rank" "ty \<in> S" "rank ty < n"
  shows "\<exists>cache' off. get_field_byte_offset tcx fu n cache ty proj = Some (cache', off) \<and> offset_cache_ok tcx fu cache' \<and>
    (if \<exists>c. offset_at tcx fu ty proj c then offset_at tcx fu ty proj off else off = 0)"
proof -
  obtain c1 where c1: "(if cache ty = None then compute_fields_byte_offsets tcx fu n cache ty else Some cache) = Some c1"
    using compute_total [OF assms(2-4), of cache] by (cases "cache ty") auto
  then have ok: "offset_cache_ok tcx fu c1 \<and> c1 ty \<noteq> None"
    using compute_exact [OF assms(1), of n ty c1] assms(1) by (auto split: if_splits)
  then obtain m where m: "c1 ty = Some m" by blast
  then have "map_exact tcx fu ty m" using ok by (simp add: offset_cache_ok_def)
  then have "if \<exists>c. offset_at tcx fu ty proj c then offset_at tcx fu ty proj (entry_or m proj 0) else entry_or m proj 0 = 0"
    by (cases "m proj") (auto simp: map_exact_def, metis option.distinct(1))
  then show ?thesis using c1 m ok by (simp add: get_field_byte_offset_def)
qed

subsection \<open>Properties\<close>

text \<open>
  C36: The byte offset of a projection is the sum of the layout offsets of the fields it goes
  through, whatever has been cached before, and 0 for a projection that is none of the type's;
  the cache only ever holds such tables, and on types of finite size an answer is given.
\<close>

theorem field_byte_offset_exact:
  assumes "offset_cache_ok tcx fu cache" "finite_components tcx fu S rank" "ty \<in> S" "rank ty < n"
  shows "\<exists>cache' off. get_field_byte_offset tcx fu n cache ty proj = Some (cache', off) \<and> offset_cache_ok tcx fu cache' \<and>
    (if \<exists>c. offset_at tcx fu ty proj c then offset_at tcx fu ty proj off else off = 0)"
  by (rule field_offset_of_finite [OF assms])

lemma sample_components:
  "offset_components sample_tcx 9 (Adt (0, 2) []) =
     Some [([Field 0], 8, Some (RawPtr (Adt (0, 2) []) True)), ([Field 1], 0, Some (UintTy 8))]"
  "offset_components sample_tcx 9 (ArrayTy (Adt (0, 2) []) (Inl 3)) = Some [([Index], 0, Some (Adt (0, 2) []))]"
  "offset_components sample_tcx 9 (UintTy n) = Some []"
  "offset_components sample_tcx 9 (RawPtr t m) = Some []"
     apply code_simp
    apply (simp_all add: offset_components_def)
  done

theorem field_byte_offset_exact_witness:
  "\<exists>cache'. get_field_byte_offset sample_tcx 9 5 Map.empty (ArrayTy (Adt (0, 2) []) (Inl 3)) [Index, Field 0] = Some (cache', 8) \<and>
     offset_cache_ok sample_tcx 9 cache'"
proof -
  let ?t = "ArrayTy (Adt (0, 2) []) (Inl 3) :: (nat + nat) ty"
  let ?S = "{?t, Adt (0, 2) [], RawPtr (Adt (0, 2) []) True, UintTy 8}"
  have ok: "offset_cache_ok sample_tcx 9 Map.empty" by (simp add: offset_cache_ok_def)
  have fin: "finite_components sample_tcx 9 ?S (\<lambda>t. case t of ArrayTy _ _ \<Rightarrow> 2 | Adt _ _ \<Rightarrow> 1 | _ \<Rightarrow> 0)"
    by (simp add: finite_components_def sample_components)
  have at: "offset_at sample_tcx 9 ?t ([Index] @ [Field 0]) (0 + 8)"
    by (rule offset_at.inside [OF sample_components(2)])
      (auto intro: offset_at.direct [OF sample_components(1), where x = "Some (RawPtr (Adt (0, 2) []) True)"])
  obtain cache' off where c: "get_field_byte_offset sample_tcx 9 5 Map.empty ?t [Index, Field 0] = Some (cache', off)"
      "offset_cache_ok sample_tcx 9 cache'"
      "if \<exists>c. offset_at sample_tcx 9 ?t [Index, Field 0] c then offset_at sample_tcx 9 ?t [Index, Field 0] off else off = 0"
    using field_byte_offset_exact [OF ok fin, of ?t 5 "[Index, Field 0]"] by auto
  have at': "offset_at sample_tcx 9 ?t [Index, Field 0] 8" using at by simp
  then have "offset_at sample_tcx 9 ?t [Index, Field 0] off" using c(3) by meson
  then have "off = 8" using at' by (rule offset_at_functional)
  then show ?thesis using c(1,2) by blast
qed

end
