(* ===== verification/Layouts.thy ===== *)
theory Layouts
  imports Byte_Offsets
begin

section \<open>Walks along the memory layout (\<open>flatten_fields\<close> and \<open>fields_at_start_location\<close>)\<close>

text \<open>
  Both walks follow the layouts that the compiler gives and name what they find by paths.
  \<open>memory_index\<close> lists the places of the fields; the walks use its entries as the indices of
  the fields.
\<close>

type_synonym 'c flat_field = "nat \<times> path \<times> 'c ty"

fun concat_opt :: "'a list option list \<Rightarrow> 'a list option" where
  "concat_opt [] = Some []"
| "concat_opt (x # xs) = do { a \<leftarrow> x; rest \<leftarrow> concat_opt xs; Some (a @ rest) }"

definition nth_opt :: "'a list \<Rightarrow> nat \<Rightarrow> 'a option" where
  "nth_opt xs i = (if i < length xs then Some (xs ! i) else None)"

definition flatten_at ::
    "(path \<Rightarrow> 'c ty \<Rightarrow> nat \<Rightarrow> 'c flat_field list option) \<Rightarrow> path \<Rightarrow> (nat \<Rightarrow> 'c ty option) \<Rightarrow> nat list \<Rightarrow> nat \<Rightarrow>
     nat \<Rightarrow> 'c flat_field list option" where
  "flatten_at rec p fld_ty offsets base_offset index =
     do { fld_path \<leftarrow> new_field p index;
          t \<leftarrow> fld_ty index;
          offset \<leftarrow> nth_opt offsets index;
          rec fld_path t (offset + base_offset) }"

fun flatten_fields_recursively ::
    "'c tcx \<Rightarrow> nat \<Rightarrow> nat \<Rightarrow> path \<Rightarrow> 'c ty \<Rightarrow> nat \<Rightarrow> 'c flat_field list option" where
  "flatten_fields_recursively tcx fu 0 p path_ty base_offset = None"
| "flatten_fields_recursively tcx fu (Suc n) p path_ty base_offset =
     (let rec = flatten_fields_recursively tcx fu n in
      case path_ty of
        Adt d args \<Rightarrow>
          (let def = tcx_adt tcx d in
           case adt_kind_of def of
             EnumAdt \<Rightarrow> Some [(base_offset, p, path_ty)]
           | UnionAdt \<Rightarrow>
               do { variant \<leftarrow> first_variant def;
                    case non_zst_field tcx variant of
                      Some i \<Rightarrow>
                        do { fld_path \<leftarrow> new_union_field p i;
                             t \<leftarrow> field_ty tcx fu (variant ! i) args;
                             rec fld_path t base_offset }
                    | None \<Rightarrow> Some [] }
           | StructAdt \<Rightarrow>
               (if adt_variants def = [] then Some []
                else case tcx_layout_of tcx path_ty of
                  Some l \<Rightarrow>
                    do { variant \<leftarrow> first_variant def;
                         case lay_fields l of
                           Some (offsets, memory_index) \<Rightarrow>
                             concat_opt (map (flatten_at rec p
                               (\<lambda>i. Option.bind (nth_opt variant i) (\<lambda>f. field_ty tcx fu f args)) offsets base_offset) memory_index)
                         | None \<Rightarrow> Some [] }
                | None \<Rightarrow> Some []))
      | ArrayTy elem_ty len \<Rightarrow>
          do { index_path \<leftarrow> new_index p;
               elem_size \<leftarrow> size_of tcx elem_ty;
               concat_opt (map (\<lambda>i. rec index_path elem_ty (base_offset + i * elem_size)) [0..<get_array_length tcx len]) }
      | TupleTy types \<Rightarrow>
          (case tcx_layout_of tcx path_ty of
             Some l \<Rightarrow>
               (case lay_fields l of
                  Some (offsets, memory_index) \<Rightarrow>
                    concat_opt (map (flatten_at rec p (nth_opt types) offsets base_offset) memory_index)
                | None \<Rightarrow> Some [])
           | None \<Rightarrow> Some [])
      | SliceTy elem_ty \<Rightarrow> do { index_path \<leftarrow> new_index p; rec index_path elem_ty base_offset }
      | _ \<Rightarrow> Some [(base_offset, p, path_ty)])"

definition flatten_fields :: "'c tcx \<Rightarrow> nat \<Rightarrow> nat \<Rightarrow> path \<Rightarrow> 'c ty \<Rightarrow> 'c flat_field list option" where
  "flatten_fields tcx fu n p path_ty = flatten_fields_recursively tcx fu n p path_ty 0"

subsection \<open>Fields at the start\<close>

definition start_field ::
    "(path \<Rightarrow> 'c ty \<Rightarrow> (path \<times> 'c ty) list option) \<Rightarrow> path option \<Rightarrow> 'c ty option \<Rightarrow> (path \<times> 'c ty) list option" where
  "start_field rec fld_path fld_ty =
     do { q \<leftarrow> fld_path; t \<leftarrow> fld_ty; rest \<leftarrow> rec q t; Some ((q, t) # rest) }"

definition start_at ::
    "(path \<Rightarrow> 'c ty \<Rightarrow> (path \<times> 'c ty) list option) \<Rightarrow> path \<Rightarrow> (nat \<Rightarrow> 'c ty option) \<Rightarrow> nat list \<Rightarrow>
     nat \<Rightarrow> (path \<times> 'c ty) list option" where
  "start_at rec p fld_ty offsets index =
     do { offset \<leftarrow> nth_opt offsets index;
          if offset = 0 then start_field rec (new_field p index) (fld_ty index) else Some [] }"

fun find_fields_at_start_location :: "'c tcx \<Rightarrow> nat \<Rightarrow> nat \<Rightarrow> path \<Rightarrow> 'c ty \<Rightarrow> (path \<times> 'c ty) list option" where
  "find_fields_at_start_location tcx fu 0 p path_ty = None"
| "find_fields_at_start_location tcx fu (Suc n) p path_ty =
     (let rec = find_fields_at_start_location tcx fu n in
      case path_ty of
        Adt d args \<Rightarrow>
          (let def = tcx_adt tcx d in
           case adt_kind_of def of
             EnumAdt \<Rightarrow> Some []
           | UnionAdt \<Rightarrow>
               do { variant \<leftarrow> first_variant def;
                    concat_opt (map (\<lambda>(i, f). start_field rec (new_union_field p i) (field_ty tcx fu f args)) (enumerate 0 variant)) }
           | StructAdt \<Rightarrow>
               (case adt_variants def of
                  [] \<Rightarrow> Some []
                | variant # _ \<Rightarrow>
                    (if variant = [] then Some []
                     else case tcx_layout_of tcx path_ty of
                       Some l \<Rightarrow>
                         (case lay_fields l of
                            Some (offsets, memory_index) \<Rightarrow>
                              concat_opt (map (start_at rec p
                                (\<lambda>i. Option.bind (nth_opt variant i) (\<lambda>f. field_ty tcx fu f args)) offsets) memory_index)
                          | None \<Rightarrow> Some [])
                     | None \<Rightarrow> Some [])))
      | ArrayTy elem_ty _ \<Rightarrow> start_field rec (new_index p) (Some elem_ty)
      | SliceTy elem_ty \<Rightarrow> start_field rec (new_index p) (Some elem_ty)
      | TupleTy types \<Rightarrow>
          (case tcx_layout_of tcx path_ty of
             Some l \<Rightarrow>
               (case lay_fields l of
                  Some (offsets, memory_index) \<Rightarrow>
                    concat_opt (map (start_at rec p (nth_opt types) offsets) memory_index)
                | None \<Rightarrow> Some [])
           | None \<Rightarrow> Some [])
      | _ \<Rightarrow> Some [])"

definition fields_at_start_location :: "'c tcx \<Rightarrow> nat \<Rightarrow> nat \<Rightarrow> path \<Rightarrow> 'c ty \<Rightarrow> (path \<times> 'c ty) list option" where
  "fields_at_start_location tcx fu n p path_ty = find_fields_at_start_location tcx fu n p path_ty"

subsection \<open>What is found at the start has offset zero\<close>

lemma concat_opt_Some: "concat_opt xs = Some ys \<Longrightarrow> y \<in> set ys \<longleftrightarrow> (\<exists>a. Some a \<in> set xs \<and> y \<in> set a)"
  by (induction xs arbitrary: ys) (fastforce simp: bind_eq_Some_conv)+

lemma those_length: "those xs = Some ys \<Longrightarrow> length ys = length xs"
  by (induction xs arbitrary: ys) (auto split: option.splits)

lemma those_mem: "those xs = Some ys \<Longrightarrow> i < length xs \<Longrightarrow> xs ! i = Some (ys ! i) \<and> length ys = length xs"
proof (induction xs arbitrary: ys i)
  case (Cons x xs)
  then show ?case by (cases i) (auto split: option.splits dest: those_length)
qed simp

lemma field_components_mem:
  assumes "field_components f offsets = Some cs" "i < length offsets" "f i = Some t"
  shows "([Field i], offsets ! i, Some t) \<in> set cs"
proof -
  have "cs ! i = ([Field i], offsets ! i, Some t)" "i < length cs"
    using assms those_mem [of "map (\<lambda>(i, offset). map_option (\<lambda>t. ([Field i], offset, Some t)) (f i)) (enumerate 0 offsets)" cs i]
    by (auto simp: field_components_def nth_enumerate_eq)
  then show ?thesis by (metis nth_mem)
qed

text \<open>One step of the walk goes to a component at offset zero.\<close>

definition start_step :: "'c tcx \<Rightarrow> nat \<Rightarrow> path \<Rightarrow> 'c ty \<Rightarrow> path \<Rightarrow> 'c ty \<Rightarrow> bool" where
  "start_step tcx fu p ty q t \<longleftrightarrow>
     (\<exists>cs sel. offset_components tcx fu ty = Some cs \<and> ([sel], 0, Some t) \<in> set cs \<and> append_projection_elem p sel = Some q)"

lemma start_field_Some:
  "start_field rec qo to = Some xs \<Longrightarrow> \<exists>q t ys. qo = Some q \<and> to = Some t \<and> rec q t = Some ys \<and> xs = (q, t) # ys"
  by (auto simp: start_field_def bind_eq_Some_conv)

lemma find_fields_step:
  assumes "find_fields_at_start_location tcx fu (Suc n) p ty = Some xs" "(q, t) \<in> set xs"
    and cs: "offset_components tcx fu ty = Some cs"
  shows "\<exists>q' t' ys. start_step tcx fu p ty q' t' \<and> find_fields_at_start_location tcx fu n q' t' = Some ys \<and>
    ((q, t) = (q', t') \<or> (q, t) \<in> set ys)"
proof -
  let ?rec = "find_fields_at_start_location tcx fu n"
  have found: ?thesis if f: "start_field ?rec (append_projection_elem p sel) (Some u) = Some zs" "(q, t) \<in> set zs"
    "([sel], 0, Some u) \<in> set cs" for sel u zs
  proof -
    obtain q' ys where q': "append_projection_elem p sel = Some q'" "?rec q' u = Some ys" "zs = (q', u) # ys"
      using start_field_Some [OF f(1)] by blast
    then have "start_step tcx fu p ty q' u" using f(3) cs by (auto simp: start_step_def)
    moreover have "(q, t) = (q', u) \<or> (q, t) \<in> set ys" using f(2) q'(3) by simp
    ultimately show ?thesis using q'(2) by blast
  qed
  have at: ?thesis
    if a: "concat_opt (map (start_at ?rec p f offsets) memory_index) = Some xs" "field_components f' offsets = Some cs"
      "\<And>i u. f i = Some u \<Longrightarrow> f' i = Some u" for f f' offsets memory_index
  proof -
    obtain i zs where i: "start_at ?rec p f offsets i = Some zs" "(q, t) \<in> set zs"
      using concat_opt_Some [OF a(1), of "(q, t)"] assms(2) by (auto simp: image_iff dest: sym)
    then obtain u where u: "i < length offsets" "offsets ! i = 0" "start_field ?rec (new_field p i) (Some u) = Some zs" "f i = Some u"
      by (auto simp: start_at_def nth_opt_def bind_eq_Some_conv start_field_def split: if_splits)
    then show ?thesis
      using found [of "Field i" u zs] i(2) field_components_mem [OF a(2) u(1) a(3) [OF u(4)]] by (simp add: new_field_def)
  qed
  have union: ?thesis
    if v: "ty = Adt d args" "adt_kind_of (tcx_adt tcx d) = UnionAdt" "first_variant (tcx_adt tcx d) = Some variant"
      "concat_opt (map (\<lambda>(i, f). start_field ?rec (new_union_field p i) (field_ty tcx fu f args)) (enumerate 0 variant)) = Some xs"
    for d args variant
  proof -
    obtain zs e where e: "e \<in> set (enumerate 0 variant)" "(q, t) \<in> set zs"
      "(case e of (i, f) \<Rightarrow> start_field ?rec (new_union_field p i) (field_ty tcx fu f args)) = Some zs"
      using concat_opt_Some [OF v(4), of "(q, t)"] assms(2) by (auto simp: image_iff dest: sym)
    obtain i f where "e = (i, f)" by (cases e)
    then have "i < length variant" "f = variant ! i" using e(1) by (auto simp: in_set_enumerate_eq)
    then obtain i zs where i: "i < length variant" "start_field ?rec (new_union_field p i) (field_ty tcx fu (variant ! i) args) = Some zs"
      "(q, t) \<in> set zs"
      using e \<open>e = (i, f)\<close> by auto
    then obtain u where u: "field_ty tcx fu (variant ! i) args = Some u" using start_field_Some by blast
    obtain types where types: "field_tys tcx fu args variant = Some types"
      "cs = map (\<lambda>(p, t). (p, 0, Some t)) (numbered UnionField [] types)"
      using cs v(1-3) by (auto simp: offset_components_def bind_eq_Some_conv)
    have "types ! i = u" "i < length types"
      using those_mem [of "map (\<lambda>f. field_ty tcx fu f args) variant" types i] types(1) i(1) u by (auto simp: field_tys_def)
    then have "([UnionField i], u) \<in> set (numbered UnionField [] types)" by (auto simp: numbered_iff)
    then have "([UnionField i], 0, Some u) \<in> set cs" unfolding types(2) by force
    then show ?thesis using found [of "UnionField i" u zs] i(2,3) u by (simp add: new_union_field_def)
  qed
  show ?thesis
  proof (cases ty)
    case (Adt d args)
    show ?thesis
    proof (cases "adt_kind_of (tcx_adt tcx d)")
      case StructAdt
      then obtain variant vs l offsets mi where l: "adt_variants (tcx_adt tcx d) = variant # vs"
        "tcx_layout_of tcx ty = Some l" "lay_fields l = Some (offsets, mi)"
        "concat_opt (map (start_at ?rec p (\<lambda>i. Option.bind (nth_opt variant i) (\<lambda>f. field_ty tcx fu f args)) offsets) mi) = Some xs"
        using assms(1,2) Adt by (auto simp: Let_def split: list.splits option.splits if_splits)
      then have "field_components (\<lambda>i. if i < length variant then field_ty tcx fu (variant ! i) args else None) offsets = Some cs"
        using cs Adt StructAdt by (simp add: offset_components_def first_variant_def)
      with l(4) show ?thesis by (rule at) (auto simp: nth_opt_def split: if_splits)
    next
      case UnionAdt
      then obtain variant where "first_variant (tcx_adt tcx d) = Some variant"
        "concat_opt (map (\<lambda>(i, f). start_field ?rec (new_union_field p i) (field_ty tcx fu f args)) (enumerate 0 variant)) = Some xs"
        using assms(1) Adt by (auto simp: Let_def bind_eq_Some_conv)
      with Adt UnionAdt show ?thesis by (rule union)
    qed (use assms Adt in \<open>simp add: Let_def\<close>)
  next
    case (ArrayTy e len)
    then have "([Index], 0, Some e) \<in> set cs" using cs by (auto simp: offset_components_def)
    then show ?thesis using ArrayTy assms(1,2) found [of Index e xs] by (simp add: new_index_def)
  next
    case (SliceTy e)
    then have "([Index], 0, Some e) \<in> set cs" using cs by (auto simp: offset_components_def)
    then show ?thesis using SliceTy assms(1,2) found [of Index e xs] by (simp add: new_index_def)
  next
    case (TupleTy ts)
    then obtain l offsets mi where l: "tcx_layout_of tcx ty = Some l" "lay_fields l = Some (offsets, mi)"
        "concat_opt (map (start_at ?rec p (nth_opt ts) offsets) mi) = Some xs"
      using assms(1,2) by (auto simp: Let_def split: option.splits)
    then have "field_components (\<lambda>i. if i < length ts then Some (ts ! i) else None) offsets = Some cs"
      using cs TupleTy by (simp add: offset_components_def)
    with l(3) show ?thesis by (rule at) (simp add: nth_opt_def)
  qed (use assms in \<open>auto simp: Let_def\<close>)
qed

lemma append_elem_split:
  "path_wf p \<Longrightarrow> append_projection_elem p sel = Some q \<Longrightarrow>
     path_wf q \<and> (\<forall>es. append_projection q es = append_projection p (sel # es))"
  using append_projection_wf [of p "[sel]"] append_projection_join [of q] append_projection_join [of p]
  by (auto simp: append_projection_elem_eq)

lemma start_offset_zero:
  assumes "finite_components tcx fu S rank"
  shows "ty \<in> S \<Longrightarrow> path_wf p \<Longrightarrow> find_fields_at_start_location tcx fu n p ty = Some xs \<Longrightarrow> (q, t) \<in> set xs \<Longrightarrow>
    \<exists>proj. append_projection p proj = Some q \<and> offset_at tcx fu ty proj 0"
proof (induction n arbitrary: p ty xs)
  case (Suc n)
  obtain cs where cs: "offset_components tcx fu ty = Some cs"
    "\<forall>(p, off, x) \<in> set cs. \<forall>u. x = Some u \<longrightarrow> u \<in> S \<and> rank u < rank ty"
    using assms Suc.prems(1) unfolding finite_components_def by blast
  obtain q' t' ys where s: "start_step tcx fu p ty q' t'" "find_fields_at_start_location tcx fu n q' t' = Some ys"
    "(q, t) = (q', t') \<or> (q, t) \<in> set ys"
    using find_fields_step [OF Suc.prems(3,4) cs(1)] by blast
  obtain sel where sel: "([sel], 0, Some t') \<in> set cs" "append_projection_elem p sel = Some q'"
    using s(1) cs(1) by (auto simp: start_step_def)
  have q': "path_wf q'" "\<forall>es. append_projection q' es = append_projection p (sel # es)"
    using append_elem_split [OF Suc.prems(2) sel(2)] by auto
  from s(3) show ?case
  proof
    assume "(q, t) = (q', t')"
    then have "append_projection p [sel] = Some q" using sel(2) by (simp add: append_projection_elem_eq)
    then show ?thesis using offset_at.direct [OF cs(1) sel(1)] by blast
  next
    assume "(q, t) \<in> set ys"
    moreover have "t' \<in> S" using cs(2) sel(1) by fastforce
    ultimately obtain proj where "append_projection q' proj = Some q" "offset_at tcx fu t' proj 0"
      using Suc.IH q'(1) s(2) by blast
    then show ?thesis using q'(2) offset_at.inside [OF cs(1) sel(1)] by fastforce
  qed
qed simp

subsection \<open>Properties\<close>

text \<open>
  C37: A field that \<open>fields_at_start_location\<close> reports really is at the start: it is a
  projection of the given path whose byte offset in the type is 0, so a pointer to the object
  is a pointer to the field.
\<close>

theorem start_fields_at_zero:
  assumes "finite_components tcx fu S rank" "ty \<in> S" "path_wf p"
    and "fields_at_start_location tcx fu n p ty = Some xs" "(q, t) \<in> set xs"
  shows "\<exists>proj. append_projection p proj = Some q \<and> offset_at tcx fu ty proj 0"
  using start_offset_zero [OF assms(1-3)] assms(4,5) by (simp add: fields_at_start_location_def)

theorem start_fields_at_zero_witness:
  "fields_at_start_location sample_tcx 9 5 (LocalVariable 0 1) (ArrayTy (Adt (0, 2) []) (Inl 3)) =
     Some [(QualifiedPath (LocalVariable 0 1) [Index], Adt (0, 2) []),
           (QualifiedPath (LocalVariable 0 1) [Index, Field 1], UintTy 8)] \<and>
   (\<exists>proj. append_projection (LocalVariable 0 1) proj = Some (QualifiedPath (LocalVariable 0 1) [Index, Field 1]) \<and>
      offset_at sample_tcx 9 (ArrayTy (Adt (0, 2) []) (Inl 3)) proj 0)"
proof
  let ?t = "ArrayTy (Adt (0, 2) []) (Inl 3) :: (nat + nat) ty"
  show f: "fields_at_start_location sample_tcx 9 5 (LocalVariable 0 1) ?t =
     Some [(QualifiedPath (LocalVariable 0 1) [Index], Adt (0, 2) []),
           (QualifiedPath (LocalVariable 0 1) [Index, Field 1], UintTy 8)]"
    by code_simp
  have fin: "finite_components sample_tcx 9 {?t, Adt (0, 2) [], RawPtr (Adt (0, 2) []) True, UintTy 8}
      (\<lambda>t. case t of ArrayTy _ _ \<Rightarrow> 2 | Adt _ _ \<Rightarrow> 1 | _ \<Rightarrow> 0)"
    by (simp add: finite_components_def sample_components)
  show "\<exists>proj. append_projection (LocalVariable 0 1) proj = Some (QualifiedPath (LocalVariable 0 1) [Index, Field 1]) \<and>
      offset_at sample_tcx 9 ?t proj 0"
    by (rule start_fields_at_zero [OF fin _ _ f]) simp_all
qed

end
