(* ===== verification/Type_Compare.thy ===== *)
theory Type_Compare
  imports Types Interner
begin

section \<open>Comparing types, and type indices (\<open>src/util/type_util.rs\<close>)\<close>

text \<open>
  Types are compared up to regions and up to the lengths of outer arrays; pointers by what
  they point to; function signatures argument by argument. The recursions follow types that
  the compiler has erased, so they have fuel, and \<open>None\<close> means too little of it.
\<close>

definition element_types :: "'c ty \<Rightarrow> 'c ty \<Rightarrow> ('c ty \<times> 'c ty) option" where
  "element_types ty1 ty2 =
     (case ty1 of
        ArrayTy elem_ty1 _ \<Rightarrow> (case ty2 of ArrayTy elem_ty2 _ \<Rightarrow> Some (elem_ty1, elem_ty2) | _ \<Rightarrow> None)
      | SliceTy elem_ty1 \<Rightarrow> (case ty2 of SliceTy elem_ty2 \<Rightarrow> Some (elem_ty1, elem_ty2) | _ \<Rightarrow> None)
      | _ \<Rightarrow> None)"

fun equal_types :: "'c tcx \<Rightarrow> nat \<Rightarrow> 'c ty \<Rightarrow> 'c ty \<Rightarrow> bool option" where
  "equal_types tcx 0 ty1 ty2 = None"
| "equal_types tcx (Suc n) ty1 ty2 =
     (let t1 = tcx_erase_regions tcx ty1; t2 = tcx_erase_regions tcx ty2 in
      case element_types t1 t2 of
        Some (elem_ty1, elem_ty2) \<Rightarrow> equal_types tcx n elem_ty1 elem_ty2
      | None \<Rightarrow> Some (t1 = t2))"

text \<open>\<open>ty.fn_sig(tcx).inputs_and_output()\<close> of a function pointer\<close>

fun fn_sig_types :: "'c ty \<Rightarrow> 'c ty list" where
  "fn_sig_types (FnPtrTy inputs_and_output) = inputs_and_output"
| "fn_sig_types _ = []"

fun equivalent_ptr_types :: "'c tcx \<Rightarrow> nat \<Rightarrow> 'c ty \<Rightarrow> 'c ty \<Rightarrow> bool option" where
  "equivalent_ptr_types tcx 0 ty1 ty2 = None"
| "equivalent_ptr_types tcx (Suc n) ty1 ty2 =
     (if \<not> is_any_ptr ty1 \<or> \<not> is_any_ptr ty2 then Some False
      else if is_fn_ptr ty1 \<and> is_fn_ptr ty2 then Some (fn_sig_types ty1 = fn_sig_types ty2)
      else
          (let deref_ty1 = get_dereferenced_type tcx ty1;
               deref_ty2 = get_dereferenced_type tcx ty2 in
           if \<not> is_any_ptr deref_ty1 \<or> \<not> is_any_ptr deref_ty2 then
             (if is_trait deref_ty1 \<or> is_trait deref_ty2 then Some True
              else if is_closure deref_ty1 \<and> is_closure deref_ty2 then Some True
              else equal_types tcx n deref_ty1 deref_ty2)
           else equivalent_ptr_types tcx n deref_ty1 deref_ty2))"

fun matched_types :: "'c tcx \<Rightarrow> nat \<Rightarrow> ('c ty \<times> 'c ty) list \<Rightarrow> bool option" where
  "matched_types tcx n [] = Some True"
| "matched_types tcx n ((ty1, ty2) # tys) =
     do { ptrs \<leftarrow> (if is_any_ptr ty1 \<and> is_any_ptr ty2
                  then map_option (\<lambda>b. b \<or> is_foreign_pointer ty1 \<or> is_foreign_pointer ty2)
                         (equivalent_ptr_types tcx n ty1 ty2)
                  else Some False);
          if ptrs \<or> is_foreign ty1 \<or> is_foreign ty2 \<or> is_alias ty1 \<or> is_alias ty2 then matched_types tcx n tys
          else do { eq \<leftarrow> equal_types tcx n ty1 ty2;
                    if eq then matched_types tcx n tys else Some False } }"

definition matched_fn_sig :: "'c tcx \<Rightarrow> nat \<Rightarrow> 'c ty list \<Rightarrow> 'c ty list \<Rightarrow> bool option" where
  "matched_fn_sig tcx n inputs_and_output1 inputs_and_output2 =
     (if length inputs_and_output1 \<noteq> length inputs_and_output2 then Some False
      else matched_types tcx n (zip inputs_and_output1 inputs_and_output2))"

subsection \<open>Type indices\<close>

record 'c type_cache =
  type_list :: "'c ty list"
  type_to_index_map :: "'c ty \<rightharpoonup> nat"

definition type_cache_new :: "'c type_cache" where
  "type_cache_new = \<lparr>type_list = [], type_to_index_map = Map.empty\<rparr>"

definition get_index :: "'c type_cache \<Rightarrow> 'c ty \<Rightarrow> 'c type_cache \<times> nat" where
  "get_index c ty =
     (case type_to_index_map c ty of
        Some index \<Rightarrow> (c, index)
      | None \<Rightarrow>
          (let index = length (type_list c) in
           (c\<lparr>type_list := type_list c @ [ty], type_to_index_map := (type_to_index_map c)(ty \<mapsto> index)\<rparr>, index)))"

definition get_type :: "'c type_cache \<Rightarrow> nat \<Rightarrow> 'c ty option" where
  "get_type c index = vec_get (type_list c) index"

abbreviation type_cache_ok :: "'c type_cache \<Rightarrow> bool" where
  "type_cache_ok c \<equiv> index_ok (type_list c) (type_to_index_map c)"

interpretation types: interner type_cache_new get_index get_type type_cache_ok
  by (rule vec_interner [where mk = "\<lambda>s xs m. s\<lparr>type_list := xs, type_to_index_map := m\<rparr>"])
    (simp_all add: type_cache_new_def get_index_def get_type_def Let_def split: option.split)

subsection \<open>Equality of types is an equivalence\<close>

text \<open>
  What \<open>erase_regions_ty\<close> guarantees: regions are leaves, so the size of a type stays.
\<close>

definition erase_ok :: "'c tcx \<Rightarrow> bool" where
  "erase_ok tcx \<longleftrightarrow> (\<forall>t. size (tcx_erase_regions tcx t) = size t)"

lemma element_types_Some:
  "element_types a b = Some (x, y) \<longleftrightarrow>
     (\<exists>c d. a = ArrayTy x c \<and> b = ArrayTy y d) \<or> a = SliceTy x \<and> b = SliceTy y"
  by (cases a; cases b) (auto simp: element_types_def)

lemma element_types_sym: "element_types b a = map_option (\<lambda>(x, y). (y, x)) (element_types a b)"
  by (cases "element_types a b"; cases "element_types b a") (auto simp: element_types_Some, (metis element_types_Some option.distinct(1))+)

lemma equal_types_step:
  "equal_types tcx (Suc n) t u = Some b \<longleftrightarrow>
     (\<exists>x y. element_types (tcx_erase_regions tcx t) (tcx_erase_regions tcx u) = Some (x, y) \<and> equal_types tcx n x y = Some b) \<or>
     element_types (tcx_erase_regions tcx t) (tcx_erase_regions tcx u) = None \<and>
       b = (tcx_erase_regions tcx t = tcx_erase_regions tcx u)"
  by (auto simp: Let_def split: option.splits)

lemma element_types_size: "element_types a b = Some (x, y) \<Longrightarrow> size x < size a \<and> size y < size b"
  by (auto simp: element_types_Some)

lemma equal_types_refl: "erase_ok tcx \<Longrightarrow> size t < n \<Longrightarrow> equal_types tcx n t t = Some True"
proof (induction n arbitrary: t)
  case (Suc n)
  have "size (tcx_erase_regions tcx t) = size t" using Suc.prems(1) by (simp add: erase_ok_def)
  then have "equal_types tcx n x y = Some True"
    if "element_types (tcx_erase_regions tcx t) (tcx_erase_regions tcx t) = Some (x, y)" for x y
    using that Suc element_types_size [OF that] by (auto simp: element_types_Some)
  then show ?case unfolding equal_types_step by (cases "element_types (tcx_erase_regions tcx t) (tcx_erase_regions tcx t)") auto
qed simp

lemma equal_types_sym: "equal_types tcx n t u = equal_types tcx n u t"
proof (induction n arbitrary: t u)
  case (Suc n)
  then show ?case
    by (auto simp: Let_def element_types_sym [of "tcx_erase_regions tcx u" "tcx_erase_regions tcx t"] split: option.splits)
qed simp

lemma equal_types_trans:
  "equal_types tcx n t u = Some True \<Longrightarrow> equal_types tcx n u v = Some True \<Longrightarrow> equal_types tcx n t v = Some True"
proof (induction n arbitrary: t u v)
  case (Suc n)
  let ?a = "tcx_erase_regions tcx t" and ?b = "tcx_erase_regions tcx u" and ?c = "tcx_erase_regions tcx v"
  show ?case
  proof (cases "element_types ?a ?b")
    case None
    then have "?a = ?b" using Suc.prems(1) unfolding equal_types_step by simp
    then show ?thesis using Suc.prems(2) by simp
  next
    case (Some xy)
    then obtain x y where xy: "element_types ?a ?b = Some (x, y)" "equal_types tcx n x y = Some True"
      using Suc.prems(1) unfolding equal_types_step by auto
    show ?thesis
    proof (cases "element_types ?b ?c")
      case None
      then have "?b = ?c" using Suc.prems(2) unfolding equal_types_step by simp
      then show ?thesis using Suc.prems(1) by simp
    next
      case (Some yz)
      then obtain y' z where yz: "element_types ?b ?c = Some (y', z)" "equal_types tcx n y' z = Some True"
        using Suc.prems(2) unfolding equal_types_step by auto
      have "y' = y" "element_types ?a ?c = Some (x, z)" using xy(1) yz(1) by (auto simp: element_types_Some)
      then show ?thesis using Suc.IH xy(2) yz(2) unfolding equal_types_step by blast
    qed
  qed
qed simp

lemma equal_types_total: "erase_ok tcx \<Longrightarrow> size t < n \<Longrightarrow> \<exists>b. equal_types tcx n t u = Some b"
proof (induction n arbitrary: t u)
  case (Suc n)
  have sz: "size (tcx_erase_regions tcx t) = size t" using Suc.prems(1) by (simp add: erase_ok_def)
  show ?case
  proof (cases "element_types (tcx_erase_regions tcx t) (tcx_erase_regions tcx u)")
    case (Some xy)
    then obtain x y where xy: "element_types (tcx_erase_regions tcx t) (tcx_erase_regions tcx u) = Some (x, y)" by (cases xy) auto
    then have "size x < n" using element_types_size [OF xy] Suc.prems(2) sz by simp
    then show ?thesis using Suc.IH [OF Suc.prems(1)] xy by simp
  qed simp
qed simp

subsection \<open>Pointers\<close>

text \<open>\<open>is_box\<close> only holds of an ADT, in particular not of a function pointer.\<close>

definition boxed_ok :: "'c tcx \<Rightarrow> bool" where
  "boxed_ok tcx \<longleftrightarrow> (\<forall>s. tcx_boxed tcx (FnPtrTy s) = None)"

lemma deref_ptr:
  "boxed_ok tcx \<Longrightarrow> is_any_ptr t \<Longrightarrow>
     is_fn_ptr t \<and> get_dereferenced_type tcx t = t \<or> \<not> is_fn_ptr t \<and> size (get_dereferenced_type tcx t) < size t"
  by (cases t) (auto simp: get_dereferenced_type_def boxed_ok_def)

lemma equivalent_ptr_sym: "equivalent_ptr_types tcx n t u = equivalent_ptr_types tcx n u t"
proof (induction n arbitrary: t u)
  case (Suc n)
  then show ?case using equal_types_sym [of tcx n] by (auto simp: Let_def)
qed simp

lemma equivalent_ptr_total:
  "erase_ok tcx \<Longrightarrow> boxed_ok tcx \<Longrightarrow> size t + size u < n \<Longrightarrow> \<exists>b. equivalent_ptr_types tcx n t u = Some b"
proof (induction n arbitrary: t u)
  case (Suc n)
  let ?t = "get_dereferenced_type tcx t" and ?u = "get_dereferenced_type tcx u"
  show ?case
  proof (cases "is_any_ptr t \<and> is_any_ptr u \<and> \<not> (is_fn_ptr t \<and> is_fn_ptr u)")
    case True
    then have sz: "size ?t + size ?u < n"
      using deref_ptr [OF Suc.prems(2), of t] deref_ptr [OF Suc.prems(2), of u] Suc.prems(3) by auto
    then have "\<exists>b. equal_types tcx n ?t ?u = Some b" using Suc.prems(1) by (intro equal_types_total) auto
    moreover have "\<exists>b. equivalent_ptr_types tcx n ?t ?u = Some b" using Suc.IH Suc.prems sz by blast
    ultimately show ?thesis using True by (auto simp: Let_def)
  qed auto
qed simp

lemma equivalent_ptr_refl:
  "erase_ok tcx \<Longrightarrow> boxed_ok tcx \<Longrightarrow> is_any_ptr t \<Longrightarrow> size t < n \<Longrightarrow> equivalent_ptr_types tcx n t t = Some True"
proof (induction n arbitrary: t)
  case (Suc n)
  let ?t = "get_dereferenced_type tcx t"
  show ?case
  proof (cases "is_fn_ptr t")
    case False
    then have "size ?t < n" using deref_ptr [OF Suc.prems(2,3)] Suc.prems(4) by auto
    then show ?thesis
      using False Suc.prems equal_types_refl [OF Suc.prems(1), of ?t n] Suc.IH [OF Suc.prems(1,2), of ?t] by (auto simp: Let_def)
  qed (use Suc.prems in auto)
qed simp

subsection \<open>Properties\<close>



text \<open>
  Pointer equivalence is decided, symmetric, and reflexive on pointers. It does not
  separate a function pointer from a reference to one, contrary to what its comment says: both
  are dereferenced to the function pointer.
\<close>

theorem equivalent_ptr_types_decided:
  assumes "erase_ok tcx" "boxed_ok tcx" "size t + size u < n"
  shows "equivalent_ptr_types tcx n t u \<noteq> None \<and>
    equivalent_ptr_types tcx n u t = equivalent_ptr_types tcx n t u \<and>
    (is_any_ptr t \<longrightarrow> equivalent_ptr_types tcx n t t = Some True) \<and>
    equivalent_ptr_types tcx (Suc (Suc n)) (FnPtrTy s) (RefTy r (FnPtrTy s) m) = Some True"
  using assms equivalent_ptr_total [OF assms] equivalent_ptr_sym [of tcx n t u] equivalent_ptr_refl [of tcx t n]
  by (auto simp: get_dereferenced_type_def boxed_ok_def Let_def)

theorem equivalent_ptr_types_decided_witness:
  "equivalent_ptr_types sample_tcx 9 (RefTy 0 CharTy True) (RawPtr CharTy False) = Some True \<and>
   equivalent_ptr_types sample_tcx 9 (FnPtrTy [CharTy]) (RefTy 0 (FnPtrTy [CharTy]) True) = Some True"
proof -
  have ok: "erase_ok sample_tcx" "boxed_ok sample_tcx" by (simp_all add: erase_ok_def boxed_ok_def sample_tcx_def)
  have "equivalent_ptr_types sample_tcx 9 (RefTy 0 CharTy True) (RawPtr CharTy False) = Some True" by code_simp
  moreover have "equivalent_ptr_types sample_tcx (Suc (Suc 7)) (FnPtrTy [CharTy]) (RefTy 0 (FnPtrTy [CharTy]) True) = Some True"
    using equivalent_ptr_types_decided [OF ok, of "RefTy 0 CharTy True" CharTy 7 "[CharTy]" 0 True] by simp
  ultimately show ?thesis by (simp add: eval_nat_numeral)
qed

lemma matched_types_refl:
  "erase_ok tcx \<Longrightarrow> boxed_ok tcx \<Longrightarrow> \<forall>t \<in> set ts. size t < n \<Longrightarrow> matched_types tcx n (zip ts ts) = Some True"
  by (induction ts) (auto simp: equivalent_ptr_refl equal_types_refl)

text \<open>
  A function signature matches itself, so a call through a function pointer is always
  resolved to the functions that have exactly the pointer's signature; signatures of different
  arity never match.
\<close>

theorem matched_fn_sig_refl:
  assumes "erase_ok tcx" "boxed_ok tcx" "\<forall>t \<in> set tys. size t < n"
  shows "matched_fn_sig tcx n tys tys = Some True \<and>
    (length tys \<noteq> length tys' \<longrightarrow> matched_fn_sig tcx n tys tys' = Some False)"
  using matched_types_refl [OF assms] by (simp add: matched_fn_sig_def)

theorem matched_fn_sig_refl_witness:
  "matched_fn_sig sample_tcx 4 [RefTy 0 (FnPtrTy []) True, CharTy] [RefTy 0 (FnPtrTy []) True, CharTy] = Some True \<and>
   matched_fn_sig sample_tcx 4 [RefTy 0 (FnPtrTy []) True, CharTy] [CharTy] = Some False"
proof -
  have ok: "erase_ok sample_tcx" "boxed_ok sample_tcx" by (simp_all add: erase_ok_def boxed_ok_def sample_tcx_def)
  show ?thesis
    using matched_fn_sig_refl [OF ok, of "[RefTy 0 (FnPtrTy []) True, CharTy]" 4 "[CharTy]"] by simp
qed

end
