(* ===== verification/Analysis_Context.thy ===== *)
theory Analysis_Context
  imports Layouts Type_Compare Functions
begin

section \<open>The global state of the analysis (\<open>src/mir/analysis_context.rs\<close>)\<close>

text \<open>
  The tables of \<open>AnalysisContext\<close>, the types of paths, and the casts of paths
  (\<open>PathCastCache\<close> of \<open>src/util/type_util.rs\<close>). The compiler \<open>tcx\<close> and the fuel of the
  specializer \<open>fu\<close> are arguments; \<open>fu\<close> also bounds the walks over fields. During \<open>cast_to\<close>
  and \<open>get_type_variant\<close> the code takes the cast cache out of the context and puts it back;
  nothing they call looks at it, so it stays in place here. Logging is left out.
\<close>

record 'c analysis_context =
  acx_functions :: "('c ty, 'c) function_table"
  acx_type_cache :: "'c type_cache"
  path_ty_cache :: "path \<rightharpoonup> 'c ty"
  path_memory_size :: "path \<rightharpoonup> nat"
  path_cast_types :: "path \<rightharpoonup> 'c ty set"
  ptr_projs_cache :: "'c pointer_projections_cache"
  field_byte_offset_cache :: "'c offset_cache"
  dyn_callsite_cache :: "func_id base_call_site \<rightharpoonup> def_id \<times> 'c generic_args"
  special_functions :: "func_id set"
  concretized_heap_objs :: "path \<rightharpoonup> 'c ty"
  aux_local_indexer :: "func_id \<rightharpoonup> nat"
  acx_known_names :: known_names_cache
  acx_entry_point :: def_id

subsection \<open>The entry point\<close>

text \<open>
  A body owner of the crate is its definition, whether it is a function (\<open>DefKind::Fn\<close> or
  \<open>DefKind::AssocFn\<close>) and its name. The last function of the wanted name is taken.
\<close>

type_synonym body_owner = "def_id \<times> bool \<times> string"

definition entry_by_name :: "body_owner list \<Rightarrow> string \<Rightarrow> def_id option" where
  "entry_by_name owners entry_func =
     (if entry_func = [] then None
      else fold (\<lambda>(d, is_fn, name) found. if is_fn \<and> name = entry_func then Some d else found) owners None)"

definition find_entry_point :: "body_owner list \<Rightarrow> def_id option \<Rightarrow> string \<Rightarrow> nat option \<Rightarrow> def_id option" where
  "find_entry_point owners tcx_entry_fn entry_func entry_def_id =
     (case entry_by_name owners entry_func of
        Some d \<Rightarrow> Some d
      | None \<Rightarrow>
          (case entry_def_id of
             Some i \<Rightarrow> Some (0, i)
           | None \<Rightarrow> tcx_entry_fn))"

definition acx_new :: "body_owner list \<Rightarrow> def_id option \<Rightarrow> string \<Rightarrow> nat option \<Rightarrow> 'c analysis_context option" where
  "acx_new owners tcx_entry_fn entry_func entry_def_id =
     (case find_entry_point owners tcx_entry_fn entry_func entry_def_id of
        Some entry \<Rightarrow> Some
          \<lparr>acx_functions = function_table_new, acx_type_cache = type_cache_new,
           path_ty_cache = Map.empty, path_memory_size = Map.empty, path_cast_types = Map.empty,
           ptr_projs_cache = Map.empty, field_byte_offset_cache = Map.empty,
           dyn_callsite_cache = Map.empty, special_functions = {}, concretized_heap_objs = Map.empty,
           aux_local_indexer = Map.empty, acx_known_names = create_cache_from_language_items,
           acx_entry_point = entry\<rparr>
      | None \<Rightarrow> None)"

subsection \<open>Types and sizes of paths\<close>

definition set_path_rustc_type :: "'c tcx \<Rightarrow> 'c analysis_context \<Rightarrow> path \<Rightarrow> 'c ty \<Rightarrow> 'c analysis_context" where
  "set_path_rustc_type tcx acx p ty =
     (let erased = tcx_erase_regions tcx ty in
      if path_ty_cache acx p = Some erased then acx
      else acx\<lparr>path_ty_cache := (path_ty_cache acx)(p \<mapsto> erased)\<rparr>)"

definition get_path_rustc_type :: "'c analysis_context \<Rightarrow> path \<Rightarrow> 'c ty option" where
  "get_path_rustc_type acx p = path_ty_cache acx p"

definition set_path_memory_size :: "'c tcx \<Rightarrow> 'c analysis_context \<Rightarrow> path \<Rightarrow> 'c ty \<Rightarrow> 'c analysis_context option" where
  "set_path_memory_size tcx acx p ty =
     (let insert_size = (\<lambda>n. acx\<lparr>path_memory_size := (path_memory_size acx)(p \<mapsto> n)\<rparr>) in
      case p of
        HeapObj _ _ \<Rightarrow> Some (insert_size 10000)
      | Function _ \<Rightarrow> Some (insert_size 0)
      | TypePath _ \<Rightarrow> Some (insert_size 0)
      | _ \<Rightarrow> map_option insert_size (size_of tcx ty))"

definition get_path_memory_size :: "'c analysis_context \<Rightarrow> path \<Rightarrow> nat option" where
  "get_path_memory_size acx p = path_memory_size acx p"

definition get_type_index :: "'c tcx \<Rightarrow> 'c analysis_context \<Rightarrow> 'c ty \<Rightarrow> 'c analysis_context \<times> nat" where
  "get_type_index tcx acx ty =
     (case get_index (acx_type_cache acx) (tcx_erase_regions tcx ty) of
        (c, i) \<Rightarrow> (acx\<lparr>acx_type_cache := c\<rparr>, i))"

definition get_type_by_index :: "'c analysis_context \<Rightarrow> nat \<Rightarrow> 'c ty option" where
  "get_type_by_index acx index = get_type (acx_type_cache acx) index"

definition acx_pointer_projections ::
    "'c tcx \<Rightarrow> nat \<Rightarrow> 'c analysis_context \<Rightarrow> 'c ty \<Rightarrow> ('c analysis_context \<times> 'c typed_proj list) option" where
  "acx_pointer_projections tcx fu acx ty =
     map_option (\<lambda>(cache, projs). (acx\<lparr>ptr_projs_cache := cache\<rparr>, projs))
       (cached_pointer_projections tcx fu fu (ptr_projs_cache acx) ty)"

definition acx_field_byte_offset ::
    "'c tcx \<Rightarrow> nat \<Rightarrow> 'c analysis_context \<Rightarrow> 'c ty \<Rightarrow> path_selector list \<Rightarrow> ('c analysis_context \<times> nat) option" where
  "acx_field_byte_offset tcx fu acx base_ty proj =
     map_option (\<lambda>(cache, off). (acx\<lparr>field_byte_offset_cache := cache\<rparr>, off))
       (get_field_byte_offset tcx fu fu (field_byte_offset_cache acx) base_ty proj)"

subsection \<open>Call sites, special functions and auxiliary variables\<close>

definition add_dyn_callsite ::
    "'c analysis_context \<Rightarrow> func_id base_call_site \<Rightarrow> def_id \<Rightarrow> 'c generic_args \<Rightarrow> 'c analysis_context" where
  "add_dyn_callsite acx callsite callee_id gen_args =
     acx\<lparr>dyn_callsite_cache := (dyn_callsite_cache acx)(callsite \<mapsto> (callee_id, gen_args))\<rparr>"

definition get_dyn_callee_identifier :: "'c analysis_context \<Rightarrow> func_id base_call_site \<Rightarrow> (def_id \<times> 'c generic_args) option" where
  "get_dyn_callee_identifier acx callsite = dyn_callsite_cache acx callsite"

definition add_special_function :: "'c analysis_context \<Rightarrow> func_id \<Rightarrow> 'c analysis_context" where
  "add_special_function acx f = acx\<lparr>special_functions := insert f (special_functions acx)\<rparr>"

definition acx_known_name_for :: "'c tcx \<Rightarrow> 'c analysis_context \<Rightarrow> def_id \<Rightarrow> 'c analysis_context \<times> known_names" where
  "acx_known_name_for tcx acx d =
     (case known_names_get tcx (acx_known_names acx) d of (cache, k) \<Rightarrow> (acx\<lparr>acx_known_names := cache\<rparr>, k))"

definition create_aux_local :: "'c tcx \<Rightarrow> 'c analysis_context \<Rightarrow> func_id \<Rightarrow> 'c ty \<Rightarrow> ('c analysis_context \<times> path) option" where
  "create_aux_local tcx acx func_id ty =
     do { aux_local_index \<leftarrow> aux_local_indexer acx func_id;
          let aux = new_aux func_id aux_local_index;
          let acx' = set_path_rustc_type tcx acx aux ty;
          Some (acx'\<lparr>aux_local_indexer := (aux_local_indexer acx')(func_id \<mapsto> aux_local_index + 1)\<rparr>, aux) }"

subsection \<open>The type of a path\<close>

definition eval_local_decl_type :: "'c tcx \<Rightarrow> nat \<Rightarrow> 'c analysis_context \<Rightarrow> func_id \<Rightarrow> nat \<Rightarrow> 'c ty option" where
  "eval_local_decl_type tcx fu acx func_id ordinal =
     do { f \<leftarrow> get_function_reference (acx_functions acx) func_id;
          t \<leftarrow> nth_opt (tcx_local_decls tcx (fr_def_id f)) ordinal;
          specialize_generic_argument_type tcx fu (fr_generic_args f) {} t }"

text \<open>
  One projection: \<open>Inl\<close> the type that is returned at once, \<open>Inr\<close> the type of the projection.
\<close>

definition eval_projection_elem ::
    "'c tcx \<Rightarrow> nat \<Rightarrow> 'c analysis_context \<Rightarrow> 'c ty \<Rightarrow> path_selector \<Rightarrow> ('c ty + 'c ty) option" where
  "eval_projection_elem tcx fu acx base_ty elem =
     (let fld = (\<lambda>ordinal.
            case base_ty of
              Adt _ _ \<Rightarrow> map_option Inr (get_field_type tcx fu base_ty ordinal)
            | TupleTy _ \<Rightarrow> map_option Inr (get_field_type tcx fu base_ty ordinal)
            | Closure _ _ \<Rightarrow> map_option Inr (get_field_type tcx fu base_ty ordinal)
            | Coroutine _ _ \<Rightarrow> map_option Inr (get_field_type tcx fu base_ty ordinal)
            | _ \<Rightarrow> Some (Inl NeverTy)) in
      case elem of
        Deref \<Rightarrow> Some (if is_any_ptr base_ty then Inr (get_dereferenced_type tcx base_ty) else Inl NeverTy)
      | Field ordinal \<Rightarrow> fld ordinal
      | UnionField ordinal \<Rightarrow> fld ordinal
      | Index \<Rightarrow>
          (case base_ty of
             ArrayTy _ _ \<Rightarrow> Some (Inr (get_element_type base_ty))
           | SliceTy _ \<Rightarrow> Some (Inr (get_element_type base_ty))
           | _ \<Rightarrow> None)
      | Subslice _ _ _ \<Rightarrow> Some (Inr base_ty)
      | Downcast ordinal \<Rightarrow> map_option Inr (get_downcast_type tcx fu base_ty ordinal)
      | Cast type_index \<Rightarrow> map_option Inr (get_type_by_index acx type_index)
      | Discriminant \<Rightarrow> Some (Inl NeverTy))"

fun eval_projection :: "'c tcx \<Rightarrow> nat \<Rightarrow> 'c analysis_context \<Rightarrow> 'c ty \<Rightarrow> path_selector list \<Rightarrow> 'c ty option" where
  "eval_projection tcx fu acx base_ty [] = Some base_ty"
| "eval_projection tcx fu acx base_ty (elem # projection) =
     do { r \<leftarrow> eval_projection_elem tcx fu acx base_ty elem;
          case r of Inl t \<Rightarrow> Some t | Inr t \<Rightarrow> eval_projection tcx fu acx t projection }"

text \<open>The outer \<open>None\<close> is a panic, the inner one says that the path has no type of its own.\<close>

fun try_eval_path_type :: "'c tcx \<Rightarrow> nat \<Rightarrow> 'c analysis_context \<Rightarrow> path \<Rightarrow> 'c ty option option" where
  "try_eval_path_type tcx fu acx p =
     (case get_path_rustc_type acx p of
        Some ty \<Rightarrow> Some (Some ty)
      | None \<Rightarrow>
          (case p of
             OffsetPath _ _ \<Rightarrow> Some None
           | LocalVariable func_id ordinal \<Rightarrow> map_option Some (eval_local_decl_type tcx fu acx func_id ordinal)
           | Parameter func_id ordinal \<Rightarrow> map_option Some (eval_local_decl_type tcx fu acx func_id ordinal)
           | ReturnValue func_id \<Rightarrow> map_option Some (eval_local_decl_type tcx fu acx func_id 0)
           | HeapObj _ _ \<Rightarrow> Some (Some (UintTy 1))
           | Constant \<Rightarrow> Some None
           | StaticVariable d \<Rightarrow> Some (Some (tcx_type_of tcx d))
           | QualifiedPath base projection \<Rightarrow>
               do { base_ty \<leftarrow> Option.bind (try_eval_path_type tcx fu acx base) (\<lambda>t. t);
                    map_option Some (eval_projection tcx fu acx base_ty projection) }
           | _ \<Rightarrow> None))"

declare try_eval_path_type.simps [simp del]

text \<open>\<open>PAGPath::try_eval_path_type\<close>\<close>

definition pag_eval_path_type :: "'c tcx \<Rightarrow> nat \<Rightarrow> 'c analysis_context \<Rightarrow> path \<Rightarrow> ('c analysis_context \<times> 'c ty) option" where
  "pag_eval_path_type tcx fu acx p =
     (case get_path_rustc_type acx p of
        Some ty \<Rightarrow> Some (acx, ty)
      | None \<Rightarrow>
          do { t \<leftarrow> try_eval_path_type tcx fu acx p;
               case t of
                 Some ty \<Rightarrow> Some (set_path_rustc_type tcx acx p ty, ty)
               | None \<Rightarrow> Some (acx, NeverTy) })"

end
