(* ===== verification/Path_Cast.thy ===== *)
theory Path_Cast
  imports Analysis_Context
begin

section \<open>Casts of paths (\<open>PathCastCache\<close>, \<open>src/util/type_util.rs\<close>)\<close>

text \<open>
  An object that is used at another type is given a path of that type, the cast of its
  regularized path. \<open>None\<close> of the outer option is a panic, as before.
\<close>

text \<open>The type of a path that has one, evaluated and recorded when it is not known yet.\<close>

definition path_type_or_eval :: "'c tcx \<Rightarrow> nat \<Rightarrow> 'c analysis_context \<Rightarrow> path \<Rightarrow> ('c analysis_context \<times> 'c ty) option" where
  "path_type_or_eval tcx fu acx p =
     (case get_path_rustc_type acx p of
        Some ty \<Rightarrow> Some (acx, ty)
      | None \<Rightarrow>
          do { ty \<leftarrow> Option.bind (try_eval_path_type tcx fu acx p) (\<lambda>t. t);
               Some (set_path_rustc_type tcx acx p ty, ty) })"

fun path_length :: "path \<Rightarrow> nat" where
  "path_length (QualifiedPath base projection) = path_length base + length projection"
| "path_length _ = 0"

lemma length_truncate:
  "truncate_projection_elems (QualifiedPath base projection) (length projection - Suc 0) = Some q \<Longrightarrow> projection \<noteq> [] \<Longrightarrow>
     path_length q < path_length base + length projection"
  by (auto simp: truncate_projection_elems_def new_qualified_def split: if_splits)

text \<open>\<open>cut\<close> is what the code does to drop the last projection.\<close>

abbreviation cut :: "path \<Rightarrow> path_selector list \<Rightarrow> path option" where
  "cut p projection \<equiv> truncate_projection_elems p (length projection - 1)"

text \<open>A cast, an index, a union field or a downcast is always dropped.\<close>

fun dropped :: "path_selector \<Rightarrow> bool" where
  "dropped (Cast _) = True"
| "dropped Index = True"
| "dropped (UnionField _) = True"
| "dropped (Downcast _) = True"
| "dropped _ = False"

function get_regularized_path :: "'c tcx \<Rightarrow> nat \<Rightarrow> 'c analysis_context \<Rightarrow> path \<Rightarrow> ('c analysis_context \<times> path) option" where
  "get_regularized_path tcx fu acx p =
     (case p of
        QualifiedPath base projection \<Rightarrow>
          (if projection = [] then None
           else if dropped (last projection) then Option.bind (cut p projection) (get_regularized_path tcx fu acx)
           else case last projection of
             Field f \<Rightarrow>
               do { (acx1, struct_ty) \<leftarrow> path_type_or_eval tcx fu acx p;
                    (acx2, off) \<leftarrow> acx_field_byte_offset tcx fu acx1 struct_ty [Field f];
                    if off = 0 then Option.bind (cut p projection) (get_regularized_path tcx fu acx2)
                    else Some (acx2, p) }
           | _ \<Rightarrow> Some (acx, p))
      | _ \<Rightarrow> Some (acx, p))"
  by pat_completeness auto

termination
  by (relation "measure (\<lambda>(tcx, fu, acx, p). path_length p)") (auto dest: length_truncate)

declare get_regularized_path.simps [simp del]

definition get_cast_types :: "'c analysis_context \<Rightarrow> path \<Rightarrow> 'c ty set option" where
  "get_cast_types acx p = path_cast_types acx p"

text \<open>The first field at the start that has the type.\<close>

fun find_equal :: "'c tcx \<Rightarrow> nat \<Rightarrow> 'c ty \<Rightarrow> (path \<times> 'c ty) list \<Rightarrow> path option option" where
  "find_equal tcx fu ty [] = Some None"
| "find_equal tcx fu ty ((fld, fld_ty) # flds) =
     do { eq \<leftarrow> equal_types tcx fu fld_ty ty;
          if eq then Some (Some fld) else find_equal tcx fu ty flds }"

fun has_cast :: "nat \<Rightarrow> path \<Rightarrow> bool" where
  "has_cast ty_index (QualifiedPath _ projection) = (Cast ty_index \<in> set projection)"
| "has_cast ty_index _ = False"

definition cast_to :: "'c tcx \<Rightarrow> nat \<Rightarrow> 'c analysis_context \<Rightarrow> path \<Rightarrow> 'c ty \<Rightarrow> ('c analysis_context \<times> path option) option" where
  "cast_to tcx fu acx p0 ty =
     do { (acx1, p) \<leftarrow> get_regularized_path tcx fu acx p0;
          if is_constant p then Some (acx1, Some p)
          else do {
            (acx2, original_ty) \<leftarrow> path_type_or_eval tcx fu acx1 p;
            if original_ty = NeverTy then Some (acx2, None)
            else do {
              eq \<leftarrow> equal_types tcx fu original_ty ty;
              if eq then Some (acx2, Some p)
              else do {
                flds \<leftarrow> fields_at_start_location tcx fu fu p original_ty;
                found \<leftarrow> find_equal tcx fu ty flds;
                case found of
                  Some fld \<Rightarrow> Some (acx2, Some fld)
                | None \<Rightarrow>
                    (case get_type_index tcx acx2 ty of
                       (acx3, ty_index) \<Rightarrow>
                         if has_cast ty_index p then Some (acx3, None)
                         else do {
                           let acx4 = acx3\<lparr>path_cast_types := entry_insert (path_cast_types acx3) p ty\<rparr>;
                           cast_path \<leftarrow> append_projection_elem p (Cast ty_index);
                           Some (set_path_rustc_type tcx acx4 cast_path ty, Some cast_path) }) } } } }"

definition get_type_variant :: "'c tcx \<Rightarrow> nat \<Rightarrow> 'c analysis_context \<Rightarrow> path \<Rightarrow> 'c ty \<Rightarrow> ('c analysis_context \<times> path option) option" where
  "get_type_variant tcx fu acx p0 ty =
     do { (acx1, p) \<leftarrow> get_regularized_path tcx fu acx p0;
          (acx2, original_ty) \<leftarrow> path_type_or_eval tcx fu acx1 p;
          eq \<leftarrow> equal_types tcx fu original_ty ty;
          if eq then Some (acx2, Some p)
          else do {
            flds \<leftarrow> fields_at_start_location tcx fu fu p original_ty;
            found \<leftarrow> find_equal tcx fu ty flds;
            case found of
              Some fld \<Rightarrow> Some (acx2, Some fld)
            | None \<Rightarrow>
                (case get_type_index tcx acx2 ty of
                   (acx3, ty_index) \<Rightarrow>
                     if ty \<in> entry_or (path_cast_types acx3) p {}
                     then do { cast_path \<leftarrow> append_projection_elem p (Cast ty_index); Some (acx3, Some cast_path) }
                     else Some (acx3, None)) } }"

subsection \<open>Regularizing again\<close>

text \<open>The tables only grow, and what they hold is right.\<close>

lemma insert_components_dom:
  assumes "\<forall>cache t cache'. rec cache t = Some cache' \<longrightarrow> dom cache \<subseteq> dom cache'"
  shows "insert_components rec cs m cache = Some (m', cache') \<Longrightarrow> dom cache \<subseteq> dom cache'"
  using assms
proof (induction rec cs m cache rule: insert_components.induct)
  case (3 rec proj off t cs m cache)
  then obtain c1 sub where c1: "(if cache t = None then rec cache t else Some cache) = Some c1" "c1 t = Some sub"
    "insert_components rec cs (add_subfields proj off sub (m(proj \<mapsto> off))) c1 = Some (m', cache')"
    by (auto simp: bind_eq_Some_conv)
  have "dom c1 \<subseteq> dom cache'" by (rule "3.IH" [OF c1 "3.prems"(2)])
  moreover have "dom cache \<subseteq> dom c1" using c1(1) "3.prems"(2) by (metis option.inject order_refl)
  ultimately show ?case by blast
qed simp_all

lemma compute_dom: "compute_fields_byte_offsets tcx fu n cache ty = Some cache' \<Longrightarrow> dom cache \<subseteq> dom cache'"
proof (induction n arbitrary: cache ty cache')
  case (Suc n)
  then obtain cs m c1 where "insert_components (compute_fields_byte_offsets tcx fu n) cs Map.empty cache = Some (m, c1)"
    "cache' = c1(ty \<mapsto> m)" by (auto simp: bind_eq_Some_conv)
  then show ?case using insert_components_dom [of "compute_fields_byte_offsets tcx fu n"] Suc.IH by fastforce
qed simp

lemma get_offset_again:
  assumes "offset_cache_ok tcx fu cache" "get_field_byte_offset tcx fu n cache ty proj = Some (cache', off)"
  shows "offset_cache_ok tcx fu cache' \<and> dom cache \<subseteq> dom cache' \<and>
    (\<forall>cache2. offset_cache_ok tcx fu cache2 \<longrightarrow> dom cache' \<subseteq> dom cache2 \<longrightarrow>
       get_field_byte_offset tcx fu n cache2 ty proj = Some (cache2, off))"
proof -
  obtain m where m: "(if cache ty = None then compute_fields_byte_offsets tcx fu n cache ty else Some cache) = Some cache'"
    "cache' ty = Some m" "off = entry_or m proj 0"
    using assms(2) by (auto simp: get_field_byte_offset_def bind_eq_Some_conv)
  have ok: "offset_cache_ok tcx fu cache'" "dom cache \<subseteq> dom cache'"
    using m(1) assms(1) compute_exact [OF assms(1)] compute_dom [of tcx fu n cache ty cache'] by (auto split: if_splits)
  have "get_field_byte_offset tcx fu n cache2 ty proj = Some (cache2, off)"
    if c2: "offset_cache_ok tcx fu cache2" "dom cache' \<subseteq> dom cache2" for cache2
  proof -
    obtain m2 where m2: "cache2 ty = Some m2" using c2(2) m(2) by blast
    have "map_exact tcx fu ty m" "map_exact tcx fu ty m2" using ok(1) c2(1) m(2) m2 by (auto simp: offset_cache_ok_def)
    then have "m2 proj = m proj" unfolding map_exact_def by (metis not_None_eq)
    then show ?thesis using m2 m(3) by (simp add: get_field_byte_offset_def entry_or_def)
  qed
  then show ?thesis using ok by blast
qed

definition acx_ok :: "'c tcx \<Rightarrow> nat \<Rightarrow> 'c analysis_context \<Rightarrow> bool" where
  "acx_ok tcx fu acx \<longleftrightarrow> offset_cache_ok tcx fu (field_byte_offset_cache acx) \<and> type_cache_ok (acx_type_cache acx)"

text \<open>The types of a path and of what it is projected from are known.\<close>

definition types_known :: "'c analysis_context \<Rightarrow> path \<Rightarrow> bool" where
  "types_known acx p \<longleftrightarrow>
     (case p of
        QualifiedPath base projection \<Rightarrow>
          path_ty_cache acx base \<noteq> None \<and> (\<forall>n > 0. path_ty_cache acx (QualifiedPath base (take n projection)) \<noteq> None)
      | _ \<Rightarrow> path_ty_cache acx p \<noteq> None)"

fun ends_in_cast :: "path \<Rightarrow> bool" where
  "ends_in_cast (QualifiedPath _ projection) = (projection \<noteq> [] \<and> is_cast (last projection))"
| "ends_in_cast _ = False"

lemma types_known_self: "types_known acx p \<Longrightarrow> path_wf p \<Longrightarrow> path_ty_cache acx p \<noteq> None"
proof (cases p)
  case (QualifiedPath base projection)
  assume "types_known acx p" "path_wf p"
  then show ?thesis using QualifiedPath by (auto simp: types_known_def dest!: spec [of _ "length projection"])
qed (simp_all add: types_known_def)

lemma types_known_cut:
  assumes "path_wf (QualifiedPath base projection)" "types_known acx (QualifiedPath base projection)"
    "cut (QualifiedPath base projection) projection = Some q"
  shows "path_wf q \<and> types_known acx q"
proof (cases "length projection = 1")
  case True
  then have "q = base" using assms(1,3) by (auto simp: truncate_projection_elems_def)
  then show ?thesis using assms(1,2) by (cases base) (auto simp: types_known_def)
next
  case False
  moreover have "projection \<noteq> []" using assms(1) by simp
  ultimately have "length projection > 1" by (cases projection) auto
  then have q: "q = QualifiedPath base (take (length projection - 1) projection)" "length projection > 1"
    using assms(1,3) by (auto simp: truncate_projection_elems_def new_qualified_def split: if_splits)
  then show ?thesis using assms(1,2) by (auto simp: types_known_def min_def)
qed

definition same_types :: "'c analysis_context \<Rightarrow> 'c analysis_context \<Rightarrow> bool" where
  "same_types acx acx2 \<longleftrightarrow> (\<forall>r. \<not> ends_in_cast r \<longrightarrow> path_ty_cache acx2 r = path_ty_cache acx r)"

text \<open>A later state, and the answer there.\<close>

definition later :: "'c tcx \<Rightarrow> nat \<Rightarrow> 'c analysis_context \<Rightarrow> 'c analysis_context \<Rightarrow> bool" where
  "later tcx fu acx acx2 \<longleftrightarrow> acx_ok tcx fu acx2 \<and> same_types acx acx2 \<and>
     dom (field_byte_offset_cache acx) \<subseteq> dom (field_byte_offset_cache acx2)"

definition regularized ::
    "'c tcx \<Rightarrow> nat \<Rightarrow> 'c analysis_context \<Rightarrow> path \<Rightarrow> 'c analysis_context \<Rightarrow> path \<Rightarrow> bool" where
  "regularized tcx fu acx p acx1 q \<longleftrightarrow>
     (\<exists>c. acx1 = acx\<lparr>field_byte_offset_cache := c\<rparr>) \<and> acx_ok tcx fu acx1 \<and>
     dom (field_byte_offset_cache acx) \<subseteq> dom (field_byte_offset_cache acx1) \<and>
     path_wf q \<and> types_known acx q \<and> \<not> ends_in_cast q \<and>
     (\<forall>acx2. later tcx fu acx1 acx2 \<longrightarrow> get_regularized_path tcx fu acx2 p = Some (acx2, q))"

lemma regularized_same:
  assumes "\<And>acx2. later tcx fu acx acx2 \<Longrightarrow> get_regularized_path tcx fu acx2 p = Some (acx2, p)"
    "acx_ok tcx fu acx" "path_wf p" "types_known acx p" "\<not> ends_in_cast p"
  shows "regularized tcx fu acx p acx p"
proof -
  have "acx = acx\<lparr>field_byte_offset_cache := field_byte_offset_cache acx\<rparr>" by simp
  then show ?thesis using assms unfolding regularized_def by blast
qed

text \<open>A state with a larger table of offsets answers the same for types.\<close>

lemma offsets_updated:
  "types_known (acx\<lparr>field_byte_offset_cache := c\<rparr>) = types_known acx"
  "same_types (acx\<lparr>field_byte_offset_cache := c\<rparr>) = same_types acx"
  by (auto simp: types_known_def same_types_def fun_eq_iff split: path.split)

lemma regularized_trans:
  assumes "regularized tcx fu (acx\<lparr>field_byte_offset_cache := c\<rparr>) r acx1 q"
    "dom (field_byte_offset_cache acx) \<subseteq> dom c"
    "\<And>acx2. later tcx fu (acx\<lparr>field_byte_offset_cache := c\<rparr>) acx2 \<Longrightarrow>
       get_regularized_path tcx fu acx2 p = get_regularized_path tcx fu acx2 r"
  shows "regularized tcx fu acx p acx1 q"
proof -
  obtain c1 where c1: "acx1 = acx\<lparr>field_byte_offset_cache := c1\<rparr>" "dom c \<subseteq> dom c1"
    using assms(1) unfolding regularized_def by auto
  have later: "later tcx fu (acx\<lparr>field_byte_offset_cache := c\<rparr>) acx2" if "later tcx fu acx1 acx2" for acx2
    using that subset_trans [OF c1(2)] unfolding c1(1) later_def offsets_updated by simp
  have "dom (field_byte_offset_cache acx) \<subseteq> dom (field_byte_offset_cache acx1)"
    using subset_trans [OF assms(2) c1(2)] unfolding c1(1) by simp
  then show ?thesis
    using assms(1) assms(3) [OF later] c1(1) unfolding regularized_def offsets_updated by simp
qed

lemma regularized_again:
  "get_regularized_path tcx fu acx p = Some (acx1, q) \<Longrightarrow> path_wf p \<Longrightarrow> types_known acx p \<Longrightarrow> acx_ok tcx fu acx \<Longrightarrow>
     regularized tcx fu acx p acx1 q"
proof (induction tcx fu acx p arbitrary: acx1 q rule: get_regularized_path.induct)
  case (1 tcx fu acx p)
  note unfold = get_regularized_path.simps [of tcx fu _ p]
  show ?case
  proof (cases "\<exists>base projection. p = QualifiedPath base projection \<and> (dropped (last projection) \<or> (\<exists>f. last projection = Field f))")
    case False
    then have "get_regularized_path tcx fu acx2 p = Some (acx2, p)" for acx2
      using "1.prems"(2) unfolding unfold by (auto split: path.split path_selector.split)
    then show ?thesis
      using "1.prems" False by (auto intro!: regularized_same split: path.splits elim!: ends_in_cast.elims is_cast.elims)
  next
    case True
    then obtain base projection where p: "p = QualifiedPath base projection" "projection \<noteq> []" using "1.prems"(2) by auto
    have known: "path_wf r" "types_known acx r" if "cut p projection = Some r" for r
      using types_known_cut "1.prems"(2,3) that unfolding p by blast+
    show ?thesis
    proof (cases "dropped (last projection)")
      case True
      then obtain r where r: "cut p projection = Some r" "get_regularized_path tcx fu acx r = Some (acx1, q)"
        using "1.prems"(1) p unfolding unfold by (auto simp: bind_eq_Some_conv)
      have "regularized tcx fu acx r acx1 q"
        using "1.IH"(1) [OF p True, of r acx1 q] r known [OF r(1)] "1.prems"(4) by (simp add: p)
      moreover have "get_regularized_path tcx fu acx2 p = get_regularized_path tcx fu acx2 r" for acx2
        using True p r(1) unfolding unfold by simp
      ultimately have "regularized tcx fu (acx\<lparr>field_byte_offset_cache := field_byte_offset_cache acx\<rparr>) r acx1 q"
        "\<And>acx2. get_regularized_path tcx fu acx2 p = get_regularized_path tcx fu acx2 r" by simp_all
      then show ?thesis by (rule regularized_trans [OF _ order_refl])
    next
      case False
      then obtain f where f: "last projection = Field f" using \<open>\<exists>base projection. _\<close> p by auto
      obtain t where t: "path_ty_cache acx p = Some t" using types_known_self "1.prems"(2,3) by blast
      then have ev: "path_type_or_eval tcx fu acx p = Some (acx, t)"
        by (simp add: path_type_or_eval_def get_path_rustc_type_def)
      obtain a2 off where a2: "acx_field_byte_offset tcx fu acx t [Field f] = Some (a2, off)"
        "(if off = 0 then Option.bind (cut p projection) (get_regularized_path tcx fu a2) else Some (a2, p)) = Some (acx1, q)"
        using "1.prems"(1) f ev p unfolding unfold by (auto simp: bind_eq_Some_conv)
      obtain c where c: "get_field_byte_offset tcx fu fu (field_byte_offset_cache acx) t [Field f] = Some (c, off)"
        "a2 = acx\<lparr>field_byte_offset_cache := c\<rparr>"
        using a2(1) by (auto simp: acx_field_byte_offset_def)
      have again: "offset_cache_ok tcx fu c" "dom (field_byte_offset_cache acx) \<subseteq> dom c"
        "\<And>c2. offset_cache_ok tcx fu c2 \<Longrightarrow> dom c \<subseteq> dom c2 \<Longrightarrow> get_field_byte_offset tcx fu fu c2 t [Field f] = Some (c2, off)"
        using get_offset_again [OF _ c(1)] "1.prems"(4) by (auto simp: acx_ok_def)
      have ok: "acx_ok tcx fu a2" using again(1) "1.prems"(4) c(2) by (simp add: acx_ok_def)
      have hit: "get_regularized_path tcx fu acx2 p =
          (if off = 0 then Option.bind (cut p projection) (get_regularized_path tcx fu acx2) else Some (acx2, p))"
        if l: "later tcx fu a2 acx2" for acx2
      proof -
        have "path_ty_cache acx2 p = Some t" using l t p f c(2) by (simp add: later_def offsets_updated same_types_def)
        then have "path_type_or_eval tcx fu acx2 p = Some (acx2, t)"
          by (simp add: path_type_or_eval_def get_path_rustc_type_def)
        moreover have "acx_field_byte_offset tcx fu acx2 t [Field f] = Some (acx2, off)"
          using again(3) [of "field_byte_offset_cache acx2"] l c(2) by (simp add: later_def acx_ok_def acx_field_byte_offset_def)
        ultimately show ?thesis using p f unfolding unfold by simp
      qed
      show ?thesis
      proof (cases "off = 0")
        case True
        then obtain r where r: "cut p projection = Some r" "get_regularized_path tcx fu a2 r = Some (acx1, q)"
          using a2(2) by (auto simp: bind_eq_Some_conv)
        have "regularized tcx fu a2 r acx1 q"
          using "1.IH"(2) [OF p False f ev refl a2(1) refl True, of r acx1 q] r known [OF r(1)] ok c(2)
          by (simp add: p offsets_updated)
        moreover have "get_regularized_path tcx fu acx2 p = get_regularized_path tcx fu acx2 r" if "later tcx fu a2 acx2" for acx2
          using hit [OF that] True r(1) by simp
        ultimately show ?thesis unfolding c(2) by (rule regularized_trans [OF _ again(2)])
      next
        case False
        then have "acx1 = a2" "q = p" using a2(2) by auto
        moreover have "regularized tcx fu a2 p a2 p"
          using hit False ok "1.prems"(2,3) p f c(2) by (intro regularized_same) (auto simp: offsets_updated)
        ultimately have "regularized tcx fu (acx\<lparr>field_byte_offset_cache := c\<rparr>) p acx1 q" by (simp add: c(2))
        then show ?thesis by (rule regularized_trans [OF _ again(2) refl])
      qed
    qed
  qed
qed


subsection \<open>A cast is found again\<close>

lemma path_type_known: "path_ty_cache acx p = Some t \<Longrightarrow> path_type_or_eval tcx fu acx p = Some (acx, t)"
  by (simp add: path_type_or_eval_def get_path_rustc_type_def)

lemma get_type_index_spec:
  assumes "acx_ok tcx fu acx" "get_type_index tcx acx ty = (acx', i)"
  shows "\<exists>c. acx' = acx\<lparr>acx_type_cache := c\<rparr> \<and> type_cache_ok c \<and> get_type c i = Some (tcx_erase_regions tcx ty) \<and>
    acx_ok tcx fu acx' \<and> (\<forall>acx2. acx_type_cache acx2 = c \<longrightarrow> get_type_index tcx acx2 ty = (acx2, i))"
proof -
  obtain c where c: "get_index (acx_type_cache acx) (tcx_erase_regions tcx ty) = (c, i)" "acx' = acx\<lparr>acx_type_cache := c\<rparr>"
    using assms(2) by (auto simp: get_type_index_def split: prod.splits)
  have ok: "type_cache_ok (acx_type_cache acx)" using assms(1) by (simp add: acx_ok_def)
  have c_ok: "type_cache_ok c" "get_type c i = Some (tcx_erase_regions tcx ty)"
    using types.intern_ok [OF ok c(1)] types.intern_lookup [OF ok c(1)] by auto
  have "get_type_index tcx acx2 ty = (acx2, i)" if "acx_type_cache acx2 = c" for acx2
    using types.intern_known [OF c_ok] that by (auto simp: get_type_index_def)
  then show ?thesis using c c_ok assms(1) by (auto simp: acx_ok_def)
qed

lemma later_self: "acx_ok tcx fu acx \<Longrightarrow> later tcx fu acx acx"
  by (simp add: later_def same_types_def)

lemma cast_path_ends: "append_projection_elem p (Cast i) = Some q \<Longrightarrow> ends_in_cast q"
  by (cases p) (auto simp: append_projection_elem_def new_qualified_def split: if_splits)

lemma cast_then_variant:
  assumes cast: "cast_to tcx fu acx p0 ty = Some (acx', Some q)" and "\<not> is_constant q"
    and p0: "path_wf p0" "types_known acx p0" "acx_ok tcx fu acx"
  shows "\<exists>acx''. get_type_variant tcx fu acx' p0 ty = Some (acx'', Some q)"
proof -
  obtain acx1 p where p: "get_regularized_path tcx fu acx p0 = Some (acx1, p)"
    using cast by (auto simp: cast_to_def bind_eq_Some_conv)
  have reg: "regularized tcx fu acx p0 acx1 p" by (rule regularized_again [OF p p0])
  then have acx1: "acx_ok tcx fu acx1" "\<not> ends_in_cast p"
    and again: "\<And>acx2. later tcx fu acx1 acx2 \<Longrightarrow> get_regularized_path tcx fu acx2 p0 = Some (acx2, p)"
    by (auto simp: regularized_def)
  obtain t where t: "path_ty_cache acx1 p = Some t"
    using reg types_known_self [of acx p] by (auto simp: regularized_def)
  have const: "\<not> is_constant p"
    using cast assms(2) p by (auto simp: cast_to_def)
  obtain b where b: "equal_types tcx fu t ty = Some b" and never: "t \<noteq> NeverTy"
    using cast p const path_type_known [OF t] by (auto simp: cast_to_def bind_eq_Some_conv split: if_splits)
  show ?thesis
  proof (cases b)
    case True
    then have "acx' = acx1" "q = p"
      using cast p const path_type_known [OF t] b never by (auto simp: cast_to_def)
    then show ?thesis
      using again [OF later_self [OF acx1(1)]] path_type_known [OF t] b True by (simp add: get_type_variant_def)
  next
    case False
    then obtain flds found where f: "fields_at_start_location tcx fu fu p t = Some flds" "find_equal tcx fu ty flds = Some found"
      using cast p const path_type_known [OF t] b never by (auto simp: cast_to_def bind_eq_Some_conv)
    note known = p const path_type_known [OF t] b never False f
    show ?thesis
    proof (cases found)
      case (Some fld)
      then have "acx' = acx1" "q = fld" using cast known by (auto simp: cast_to_def)
      then show ?thesis
        using again [OF later_self [OF acx1(1)]] known Some by (simp add: get_type_variant_def)
    next
      case None
      obtain acx3 i where i: "get_type_index tcx acx1 ty = (acx3, i)" by fastforce
      obtain c where c: "acx3 = acx1\<lparr>acx_type_cache := c\<rparr>" "type_cache_ok c"
        "\<And>acx2. acx_type_cache acx2 = c \<Longrightarrow> get_type_index tcx acx2 ty = (acx2, i)"
        using get_type_index_spec [OF acx1(1) i] by blast
      define acx4 where "acx4 = acx3\<lparr>path_cast_types := entry_insert (path_cast_types acx3) p ty\<rparr>"
      have q: "append_projection_elem p (Cast i) = Some q" "acx' = set_path_rustc_type tcx acx4 q ty"
        using cast known None i by (auto simp: cast_to_def acx4_def Let_def bind_eq_Some_conv split: if_splits)
      have ends: "ends_in_cast q" by (rule cast_path_ends [OF q(1)])
      have acx': "acx_type_cache acx' = c" "ty \<in> entry_or (path_cast_types acx') p {}"
        "field_byte_offset_cache acx' = field_byte_offset_cache acx1"
        "\<And>r. r \<noteq> q \<Longrightarrow> path_ty_cache acx' r = path_ty_cache acx1 r"
        unfolding q(2) by (auto simp: acx4_def c(1) set_path_rustc_type_def Let_def)
      have "same_types acx1 acx'" unfolding same_types_def using acx'(4) ends by metis
      then have "later tcx fu acx1 acx'"
        using acx'(1,3) acx1(1) c(2) by (simp add: later_def acx_ok_def)
      moreover have "path_ty_cache acx' p = Some t" using acx'(4) [of p] t ends acx1(2) by auto
      ultimately show ?thesis
        using again path_type_known [of acx' p t] known None c(3) [OF acx'(1)] acx'(2) q(1) by (simp add: get_type_variant_def)
    qed
  qed
qed


subsection \<open>Properties\<close>


definition sample_acx :: "(nat + nat) analysis_context" where
  "sample_acx = the (acx_new [((0, 5), True, ''main'')] None ''main'' None)
     \<lparr>path_ty_cache := [LocalVariable 0 1 \<mapsto> Adt (0, 2) [],
        LocalVariable 0 2 \<mapsto> Adt (0, 1) [TypeKind (UintTy 8)],
        QualifiedPath (LocalVariable 0 2) [Field 1] \<mapsto> RawPtr (UintTy 8) True]\<rparr>"

lemma sample_acx_ok: "acx_ok sample_tcx 9 sample_acx"
proof -
  have "sample_acx = \<lparr>acx_functions = function_table_new, acx_type_cache = type_cache_new,
      path_ty_cache = path_ty_cache sample_acx, path_memory_size = Map.empty, path_cast_types = Map.empty,
      ptr_projs_cache = Map.empty, field_byte_offset_cache = Map.empty,
      dyn_callsite_cache = Map.empty, special_functions = {}, concretized_heap_objs = Map.empty,
      aux_local_indexer = Map.empty, acx_known_names = create_cache_from_language_items, acx_entry_point = (0, 5)\<rparr>"
    by (simp add: sample_acx_def acx_new_def find_entry_point_def entry_by_name_def)
  then have "field_byte_offset_cache sample_acx = Map.empty" "acx_type_cache sample_acx = type_cache_new"
    by (metis analysis_context.select_convs)+
  then show ?thesis by (simp add: acx_ok_def offset_cache_ok_def type_cache_new_def index_ok_empty)
qed


text \<open>
  C40: Regularization asks for the offset of a field in the type of the field itself, not in
  the type of the object it belongs to. A pointer has no fields, the offset is answered as 0,
  and so every field of pointer type is merged into the object it is in, at whatever offset
  it lies.
\<close>

theorem pointer_field_regularized:
  assumes "path_ty_cache acx (QualifiedPath base (projection @ [Field f])) = Some t" "is_any_ptr t"
    and "acx_ok tcx fu acx" "0 < fu"
  shows "\<exists>c. get_regularized_path tcx fu acx (QualifiedPath base (projection @ [Field f])) =
      Option.bind (truncate_projection_elems (QualifiedPath base (projection @ [Field f])) (length projection))
        (get_regularized_path tcx fu (acx\<lparr>field_byte_offset_cache := c\<rparr>))"
proof -
  have comps: "offset_components tcx fu t = Some []" using assms(2) by (cases t) (auto simp: offset_components_def)
  then have none: "\<not> offset_at tcx fu t p off" for p off
    using offset_at_rel [OF comps] by (simp add: rel_Nil)
  have "finite_components tcx fu {t} (\<lambda>_. 0)" using comps by (simp add: finite_components_def)
  moreover have "offset_cache_ok tcx fu (field_byte_offset_cache acx)" using assms(3) by (simp add: acx_ok_def)
  ultimately obtain c where "get_field_byte_offset tcx fu fu (field_byte_offset_cache acx) t [Field f] = Some (c, 0)"
    using field_offset_of_finite [of tcx fu "field_byte_offset_cache acx" "{t}" "\<lambda>_. 0" t fu "[Field f]"] none assms(4) by auto
  then have "acx_field_byte_offset tcx fu acx t [Field f] = Some (acx\<lparr>field_byte_offset_cache := c\<rparr>, 0)"
    by (simp add: acx_field_byte_offset_def)
  then show ?thesis
    using path_type_known [OF assms(1)] by (auto simp: get_regularized_path.simps [of tcx fu acx])
qed

theorem pointer_field_regularized_witness:
  "map_option snd (get_regularized_path sample_tcx 9 sample_acx (QualifiedPath (LocalVariable 0 2) [Field 1])) =
     Some (LocalVariable 0 2) \<and>
   offset_at sample_tcx 9 (Adt (0, 1) [TypeKind (UintTy 8)]) [Field 1] 8"
proof
  have "path_ty_cache sample_acx (QualifiedPath (LocalVariable 0 2) ([] @ [Field 1])) = Some (RawPtr (UintTy 8) True)"
    by (simp add: sample_acx_def)
  from pointer_field_regularized [OF this _ sample_acx_ok] obtain c where
    c: "get_regularized_path sample_tcx 9 sample_acx (QualifiedPath (LocalVariable 0 2) [Field 1]) =
      Option.bind (truncate_projection_elems (QualifiedPath (LocalVariable 0 2) [Field 1]) 0)
        (get_regularized_path sample_tcx 9 (sample_acx\<lparr>field_byte_offset_cache := c\<rparr>))" by auto
  have "truncate_projection_elems (QualifiedPath (LocalVariable 0 2) [Field 1]) 0 = Some (LocalVariable 0 2)"
    by (simp add: truncate_projection_elems_def)
  then show "map_option snd (get_regularized_path sample_tcx 9 sample_acx (QualifiedPath (LocalVariable 0 2) [Field 1])) =
     Some (LocalVariable 0 2)"
    using c by (simp add: get_regularized_path.simps [of _ _ _ "LocalVariable 0 2"])
  have "offset_components sample_tcx 9 (Adt (0, 1) [TypeKind (UintTy 8)]) =
      Some [([Field 0], 0, Some (RefTy 0 (UintTy 8) False)), ([Field 1], 8, Some (UintTy 8))]" by code_simp
  then show "offset_at sample_tcx 9 (Adt (0, 1) [TypeKind (UintTy 8)]) [Field 1] 8"
    by (rule offset_at.direct) simp
qed

end
