(* ===== verification/Call_Resolution.thy ===== *)
theory Call_Resolution
  imports Analysis_Context
begin

section \<open>Resolution of call targets (\<open>src/builder/call_graph_builder.rs\<close>, \<open>src/util/mod.rs\<close>)\<close>

text \<open>
  Whether a callee is a method of a trait, whether a call of it is dynamic, and which function
  the compiler resolves it to. The instance resolution of the compiler is a parameter
  (\<open>tcx_resolve\<close>, with \<open>None\<close> for an error and for an unresolved instance).
\<close>

subsection \<open>Questions about functions\<close>

definition is_trait_method :: "'c tcx \<Rightarrow> def_id \<Rightarrow> bool" where
  "is_trait_method tcx d = (case tcx_trait_of_item tcx d of Some _ \<Rightarrow> True | None \<Rightarrow> False)"

definition has_self_parameter :: "'c tcx \<Rightarrow> def_id \<Rightarrow> bool" where
  "has_self_parameter tcx d =
     (if \<not> tcx_is_mir_available tcx d then False
      else case tcx_fn_has_self tcx d of
        Some fn_has_self_parameter \<Rightarrow> fn_has_self_parameter
      | None \<Rightarrow> False)"

definition has_self_ref_parameter :: "'c tcx \<Rightarrow> def_id \<Rightarrow> bool" where
  "has_self_ref_parameter tcx d =
     (if has_self_parameter tcx d then
        (case nth_opt (tcx_local_decls tcx d) 1 of Some decl_ty \<Rightarrow> is_ref decl_ty | None \<Rightarrow> False)
      else False)"

text \<open>\<open>types().next()\<close>: the first argument that is a type.\<close>

fun next_type :: "'c generic_args \<Rightarrow> 'c ty option" where
  "next_type [] = None"
| "next_type (TypeKind ty # _) = Some ty"
| "next_type (_ # args) = next_type args"

definition is_dynamic_call :: "'c tcx \<Rightarrow> def_id \<Rightarrow> 'c generic_args \<Rightarrow> bool option" where
  "is_dynamic_call tcx callee_def_id callee_substs =
     (if \<not> is_trait_method tcx callee_def_id then Some False
      else map_option is_trait (next_type callee_substs))"

subsection \<open>Devirtualization\<close>

text \<open>The outer \<open>None\<close> is the panic of a trait method without a \<open>Self\<close> argument.\<close>

definition try_to_devirtualize ::
    "'c tcx \<Rightarrow> def_id \<Rightarrow> 'c generic_args \<Rightarrow> (def_id \<times> 'c generic_args) option option" where
  "try_to_devirtualize tcx d gen_args =
     (if \<not> is_trait_method tcx d then Some None
      else do {
        arg0_ty \<leftarrow> next_type gen_args;
        if is_trait arg0_ty then Some None
        else Some (if tcx_rust_abi tcx d then
                     (if \<not> tcx_args_normalize tcx gen_args then None else tcx_resolve tcx RevealAll d gen_args)
                   else None) })"

definition resolve_fn_def :: "'c tcx \<Rightarrow> def_id \<Rightarrow> 'c generic_args \<Rightarrow> (def_id \<times> 'c generic_args) option" where
  "resolve_fn_def tcx d gen_args =
     (if tcx_is_mir_available tcx d \<and> \<not> is_trait_method tcx d then Some (d, gen_args)
      else do {
        resolved \<leftarrow> try_to_devirtualize tcx d gen_args;
        Some (case resolved of
                Some (resolved_def_id, resolved_substs) \<Rightarrow> (resolved_def_id, resolved_substs)
              | None \<Rightarrow> (d, gen_args)) })"

text \<open>A dynamic call is never devirtualized, and stays a call of the method itself.\<close>

lemma dynamic_not_devirtualized:
  assumes "is_dynamic_call tcx d args = Some True"
  shows "try_to_devirtualize tcx d args = Some None \<and> resolve_fn_def tcx d args = Some (d, args)"
  using assms by (auto simp: is_dynamic_call_def try_to_devirtualize_def resolve_fn_def_def split: if_splits)

text \<open>The two questions panic on the same calls, and resolution panics on no others.\<close>

lemma resolution_total:
  assumes "is_dynamic_call tcx d args \<noteq> None"
  shows "try_to_devirtualize tcx d args \<noteq> None \<and> resolve_fn_def tcx d args \<noteq> None"
  using assms
  by (cases "tcx_resolve tcx RevealAll d args")
    (auto simp: is_dynamic_call_def try_to_devirtualize_def resolve_fn_def_def split: if_splits)

text \<open>Resolution is stable when the compiler resolves what it resolved to itself.\<close>

lemma resolve_fn_def_stable:
  assumes r: "resolve_fn_def tcx d args = Some (d', args')"
    and resolved: "tcx_resolve tcx RevealAll d args = Some (d', args') \<Longrightarrow>
      \<not> is_trait_method tcx d' \<or>
      (next_type args' \<noteq> None \<and> tcx_resolve tcx RevealAll d' args' \<in> {None, Some (d', args')})"
  shows "resolve_fn_def tcx d' args' = Some (d', args')"
proof (cases "(d', args') = (d, args)")
  case True
  then show ?thesis using r by simp
next
  case False
  then have "tcx_resolve tcx RevealAll d args = Some (d', args')"
    using r by (auto simp: resolve_fn_def_def try_to_devirtualize_def split: if_splits option.splits Option.bind_splits)
  from resolved [OF this] show ?thesis
    by (auto simp: resolve_fn_def_def try_to_devirtualize_def split: option.splits)
qed

subsection \<open>Function ids of instances\<close>

text \<open>
  \<open>get_func_id\<close> of the context: \<open>tx\<close> prints, \<open>from_usize\<close> makes a constant of the compiler.
\<close>

definition acx_get_func_id ::
    "'c tcx \<Rightarrow> ('c ty, 'c) compiler_text \<Rightarrow> (nat \<Rightarrow> 'c) \<Rightarrow> 'c analysis_context \<Rightarrow> def_id \<Rightarrow> 'c generic_args \<Rightarrow>
     ('c analysis_context \<times> func_id) option" where
  "acx_get_func_id tcx tx from_usize acx d gen_args =
     map_option (\<lambda>(t, i). (acx\<lparr>acx_functions := t\<rparr>, i))
       (get_func_id tx (tcx_eval_usize tcx) from_usize (acx_functions acx) d gen_args)"

subsection \<open>Paths by offset\<close>

definition qualified_path_to_offset_path ::
    "'c tcx \<Rightarrow> nat \<Rightarrow> 'c analysis_context \<Rightarrow> path \<Rightarrow> ('c analysis_context \<times> path) option" where
  "qualified_path_to_offset_path tcx fu acx p =
     (case p of
        QualifiedPath base projection \<Rightarrow>
          do { base_ty \<leftarrow> get_path_rustc_type acx base;
               first \<leftarrow> nth_opt projection 0;
               case first of
                 Deref \<Rightarrow>
                   if 1 < length projection then do {
                     deref_path \<leftarrow> new_deref base;
                     let deref_ty = get_dereferenced_type tcx base_ty;
                     (acx', offset) \<leftarrow> acx_field_byte_offset tcx fu acx deref_ty (drop 1 projection);
                     Some (acx', new_offset deref_path offset)
                   } else Some (acx, p)
               | _ \<Rightarrow>
                   do { (acx', offset) \<leftarrow> acx_field_byte_offset tcx fu acx base_ty projection;
                        Some (acx', new_offset base offset) } }
      | _ \<Rightarrow> Some (acx, p))"

end
