(* ===== verification/Outcome.thy ===== *)
theory Outcome
  imports Prelude
begin

section \<open>Steps that may panic\<close>

subsection \<open>Loops that may panic\<close>

fun fold_opt :: "('a \<Rightarrow> 's \<Rightarrow> 's option) \<Rightarrow> 'a list \<Rightarrow> 's \<Rightarrow> 's option" where
  "fold_opt f [] s = Some s"
| "fold_opt f (x # xs) s = Option.bind (f x s) (fold_opt f xs)"

lemma fold_opt_append: "fold_opt f (xs @ ys) s = Option.bind (fold_opt f xs s) (fold_opt f ys)"
  by (induction xs arbitrary: s) (auto split: Option.bind_splits)

lemma fold_opt_invariant:
  assumes "fold_opt f xs s = Some s'" "P s"
    and "\<And>x s s'. x \<in> set xs \<Longrightarrow> P s \<Longrightarrow> f x s = Some s' \<Longrightarrow> P s'"
  shows "P s'"
  using assms
proof (induction xs arbitrary: s)
  case (Cons x xs)
  obtain t where t: "f x s = Some t" "fold_opt f xs t = Some s'" using Cons.prems(1) by (auto split: Option.bind_splits)
  have "P t" using Cons.prems(3) [of x s t] Cons.prems(2) t(1) by simp
  with t(2) show ?case by (rule Cons.IH) (rule Cons.prems(3), auto)
qed simp

subsection \<open>Partial correctness\<close>

text \<open>
  Partial correctness of a step that may panic: what holds of its result if there is one. Each
  operation gets a rule in the form of a continuation, so that a handler is taken apart along
  its text.
\<close>

definition post :: "'a option \<Rightarrow> ('a \<Rightarrow> bool) \<Rightarrow> bool" where
  "post m Q \<longleftrightarrow> (\<forall>x. m = Some x \<longrightarrow> Q x)"

lemma post_simps [simp]:
  "post None Q" "post (Some x) Q = Q x" "post (Option.bind m f) Q = post m (\<lambda>x. post (f x) Q)"
  "post (map_option h m) Q = post m (\<lambda>x. Q (h x))"
  by (auto simp: post_def split: Option.bind_splits)

lemma postD: "post m Q \<Longrightarrow> m = Some x \<Longrightarrow> Q x"
  by (simp add: post_def)

lemma postI: "(\<And>x. m = Some x \<Longrightarrow> Q x) \<Longrightarrow> post m Q"
  by (simp add: post_def)

lemma post_any: "(\<And>x. Q x) \<Longrightarrow> post m Q"
  by (simp add: post_def)

lemma post_fold:
  assumes "P s" "\<And>x s. P s \<Longrightarrow> post (f x s) P" "\<And>s'. P s' \<Longrightarrow> Q s'"
  shows "post (fold_opt f xs s) Q"
proof (rule postI)
  fix s' assume "fold_opt f xs s = Some s'"
  then have "P s'" using assms(1) by (rule fold_opt_invariant) (rule postD [OF assms(2)])
  then show "Q s'" by (rule assms(3))
qed

subsection \<open>Loops whose steps keep what the earlier ones achieved\<close>

lemma fold_each:
  assumes "I s" "\<And>x s. x \<in> set xs \<Longrightarrow> I s \<Longrightarrow> I (f x s) \<and> le s (f x s) \<and> Q x (f x s)"
    and le: "\<And>s. le s s" "\<And>s t u. le s t \<Longrightarrow> le t u \<Longrightarrow> le s u" and mono: "\<And>x s t. le s t \<Longrightarrow> Q x s \<Longrightarrow> Q x t"
  shows "I (fold f xs s) \<and> le s (fold f xs s) \<and> (\<forall>x\<in>set xs. Q x (fold f xs s))"
  using assms(1,2)
proof (induction xs arbitrary: s)
  case (Cons x xs)
  have step: "I (f x s)" "le s (f x s)" "Q x (f x s)" using Cons.prems by auto
  have "I (fold f xs (f x s)) \<and> le (f x s) (fold f xs (f x s)) \<and> (\<forall>y\<in>set xs. Q y (fold f xs (f x s)))"
    using Cons.IH [OF step(1)] Cons.prems(2) by (simp add: step)
  then show ?case using step le(2) [OF step(2)] mono [of "f x s" _ x] by auto
qed (use le in auto)

lemma post_fold_each:
  assumes "I s" "\<And>x s. x \<in> set xs \<Longrightarrow> I s \<Longrightarrow> post (f x s) (\<lambda>s'. I s' \<and> le s s' \<and> Q x s')"
    and le: "\<And>s. le s s" "\<And>s t u. le s t \<Longrightarrow> le t u \<Longrightarrow> le s u" and mono: "\<And>x s t. le s t \<Longrightarrow> Q x s \<Longrightarrow> Q x t"
  shows "post (fold_opt f xs s) (\<lambda>s'. I s' \<and> le s s' \<and> (\<forall>x\<in>set xs. Q x s'))"
  using assms(1,2)
proof (induction xs arbitrary: s)
  case (Cons x xs)
  show ?case
  proof (rule postI)
    fix u assume "fold_opt f (x # xs) s = Some u"
    then obtain t where t: "f x s = Some t" "fold_opt f xs t = Some u" by (auto split: Option.bind_splits)
    have step: "I t" "le s t" "Q x t" using postD [OF Cons.prems(2) t(1)] Cons.prems(1) by auto
    have "post (fold_opt f xs t) (\<lambda>s'. I s' \<and> le t s' \<and> (\<forall>x\<in>set xs. Q x s'))"
      by (rule Cons.IH) (use Cons.prems step in auto)
    from postD [OF this t(2)] show "I u \<and> le s u \<and> (\<forall>x\<in>set (x # xs). Q x u)"
      using step(3) le(2) [OF step(2)] mono [of t u x] by auto
  qed
qed (use le in auto)

end
