(* ===== verification/Context_Growth.thy ===== *)
theory Context_Growth
  imports Path_Cast Call_Resolution Outcome "HOL-Library.Sublist"
begin

section \<open>The analysis context only grows\<close>

text \<open>
  The context is passed through the translation of bodies and the solver, and everything that was
  looked up before must stay valid: function ids keep their meaning, functions with a built-in
  summary stay marked, the type of a path may be replaced but is never forgotten, and the callee
  of a dynamic call site stays known.
\<close>

definition acx_grows :: "'c analysis_context \<Rightarrow> 'c analysis_context \<Rightarrow> bool" where
  "acx_grows acx acx' \<longleftrightarrow>
     prefix (func_refs (acx_functions acx)) (func_refs (acx_functions acx')) \<and>
     (table_ok (acx_functions acx) \<longrightarrow> table_ok (acx_functions acx')) \<and>
     special_functions acx \<subseteq> special_functions acx' \<and>
     dom (path_ty_cache acx) \<subseteq> dom (path_ty_cache acx') \<and>
     dom (dyn_callsite_cache acx) \<subseteq> dom (dyn_callsite_cache acx') \<and>
     acx_entry_point acx' = acx_entry_point acx"

named_theorems acx_growth \<open>operations that let the context grow\<close>

lemma acx_grows_refl [simp, acx_growth]: "acx_grows acx acx"
  by (simp add: acx_grows_def)

lemma acx_grows_trans:
  assumes "acx_grows a b" "acx_grows b c"
  shows "acx_grows a c"
proof -
  have "prefix (func_refs (acx_functions a)) (func_refs (acx_functions c))"
    using assms unfolding acx_grows_def by (blast intro: prefix_order.trans)
  moreover have "special_functions a \<subseteq> special_functions c" "dom (path_ty_cache a) \<subseteq> dom (path_ty_cache c)"
    "dom (dyn_callsite_cache a) \<subseteq> dom (dyn_callsite_cache c)"
    using assms unfolding acx_grows_def by blast+
  ultimately show ?thesis using assms by (simp add: acx_grows_def)
qed

lemma acx_grows_reference:
  "acx_grows acx acx' \<Longrightarrow> get_function_reference (acx_functions acx) f = Some r \<Longrightarrow>
     get_function_reference (acx_functions acx') f = Some r"
  by (auto simp: acx_grows_def get_function_reference_def vec_get_def prefix_def nth_append split: if_splits)

text \<open>The caches that are not part of it.\<close>

lemma acx_grows_caches [simp]:
  "acx_grows acx (x\<lparr>acx_type_cache := c\<rparr>) = acx_grows acx x"
  "acx_grows acx (x\<lparr>ptr_projs_cache := pc\<rparr>) = acx_grows acx x"
  "acx_grows acx (x\<lparr>field_byte_offset_cache := oc\<rparr>) = acx_grows acx x"
  "acx_grows acx (x\<lparr>acx_known_names := kc\<rparr>) = acx_grows acx x"
  "acx_grows acx (x\<lparr>path_cast_types := cc\<rparr>) = acx_grows acx x"
  "acx_grows acx (x\<lparr>aux_local_indexer := ac\<rparr>) = acx_grows acx x"
  "acx_grows acx (x\<lparr>concretized_heap_objs := hc\<rparr>) = acx_grows acx x"
  by (simp_all add: acx_grows_def)

subsection \<open>The operations\<close>

lemma type_entry_grows [simp]: "acx_grows acx (acx\<lparr>path_ty_cache := (path_ty_cache acx)(p \<mapsto> t)\<rparr>)"
  by (auto simp: acx_grows_def)

lemma set_type_grows [simp, acx_growth]: "acx_grows acx (set_path_rustc_type tcx acx p ty)"
  by (auto simp: acx_grows_def set_path_rustc_type_def Let_def)

lemma set_type_growing: "acx_grows acx x \<Longrightarrow> acx_grows acx (set_path_rustc_type tcx x p ty)"
  by (rule acx_grows_trans) auto

lemma type_index_grows [acx_growth]: "get_type_index tcx acx ty = (acx', i) \<Longrightarrow> acx_grows acx acx'"
  by (auto simp: get_type_index_def split: prod.splits)

lemma projections_grow [acx_growth]: "acx_pointer_projections tcx fu acx ty = Some (acx', ps) \<Longrightarrow> acx_grows acx acx'"
  by (auto simp: acx_pointer_projections_def)

lemma byte_offset_grows [acx_growth]: "acx_field_byte_offset tcx fu acx ty ps = Some (acx', n) \<Longrightarrow> acx_grows acx acx'"
  by (auto simp: acx_field_byte_offset_def)

lemma known_name_grows [acx_growth]: "acx_known_name_for tcx acx d = (acx', k) \<Longrightarrow> acx_grows acx acx'"
  by (auto simp: acx_known_name_for_def split: prod.splits)

lemma callsites_grow [simp, acx_growth]:
  "acx_grows acx (add_dyn_callsite acx c d as)" "acx_grows acx (add_special_function acx f)"
  by (auto simp: acx_grows_def add_dyn_callsite_def add_special_function_def)

lemma aux_local_grows [acx_growth]:
  assumes "create_aux_local tcx acx f ty = Some (acx', p)"
  shows "acx_grows acx acx'"
  using assms by (auto simp: create_aux_local_def bind_eq_Some_conv Let_def)

lemma aux_local_path: "create_aux_local tcx acx f ty = Some (acx', p) \<Longrightarrow> \<exists>n. p = Auxiliary f n"
  by (auto simp: create_aux_local_def bind_eq_Some_conv Let_def new_aux_def)

lemma case_option_eq_Some:
  "(case x of None \<Rightarrow> a | Some y \<Rightarrow> f y) = Some r \<longleftrightarrow> x = None \<and> a = Some r \<or> (\<exists>y. x = Some y \<and> f y = Some r)"
  by (cases x) auto

lemma eval_type_grows [acx_growth]: "pag_eval_path_type tcx fu acx p = Some (acx', t) \<Longrightarrow> acx_grows acx acx'"
  by (cases "get_path_rustc_type acx p")
    (auto simp: pag_eval_path_type_def bind_eq_Some_conv case_option_eq_Some)

lemma add_reference_grows:
  "get_or_add_function_reference tx t r = Some (t', i) \<Longrightarrow>
     prefix (func_refs t) (func_refs t') \<and>
     (table_ok t \<longrightarrow> table_ok t' \<and> get_function_reference t' i = Some r)"
  using index_okD [of "func_refs t" "func_id_map t" r i]
  by (auto simp: get_or_add_function_reference_def bind_eq_Some_conv Let_def get_function_reference_def vec_get_push
      intro: index_ok_push split: option.splits)

lemma func_id_grows [acx_growth]: "acx_get_func_id tcx tx fus acx d as = Some (acx', i) \<Longrightarrow> acx_grows acx acx'"
  by (auto simp: acx_get_func_id_def get_func_id_def acx_grows_def dest: add_reference_grows)

lemma type_or_eval_grows [acx_growth]: "path_type_or_eval tcx fu acx p = Some (acx', t) \<Longrightarrow> acx_grows acx acx'"
  by (auto simp: path_type_or_eval_def bind_eq_Some_conv split: option.splits)

lemma func_id_known:
  "acx_get_func_id tcx tx fus acx d as = Some (acx', i) \<Longrightarrow> table_ok (acx_functions acx) \<Longrightarrow>
     \<exists>r. get_function_reference (acx_functions acx') i = Some r \<and> fr_def_id r = d"
  by (auto simp: acx_get_func_id_def get_func_id_def new_function_reference_def dest!: add_reference_grows)

text \<open>Operations that go through others, by rules for the outcome.\<close>

named_theorems acx_post \<open>rules for the operations on the context\<close>

lemma acx_growing:
  assumes "acx_grows acx0 acx" "\<And>acx' x. m = Some (acx', x) \<Longrightarrow> acx_grows acx acx'"
    "\<And>acx' x. acx_grows acx0 acx' \<Longrightarrow> Q (acx', x)"
  shows "post m Q"
proof (rule postI)
  fix r assume r: "m = Some r"
  obtain acx' x where x: "r = (acx', x)" by fastforce
  have "acx_grows acx0 acx'" using assms(1,2) r x acx_grows_trans by blast
  then show "Q r" unfolding x by (rule assms(3))
qed

lemma post_type_or_eval [acx_post]:
  assumes "acx_grows acx0 acx" "\<And>acx' t. acx_grows acx0 acx' \<Longrightarrow> Q (acx', t)"
  shows "post (path_type_or_eval tcx fu acx p) Q"
  using assms(1) type_or_eval_grows assms(2) by (rule acx_growing)

lemma post_byte_offset [acx_post]:
  assumes "acx_grows acx0 acx" "\<And>acx' n. acx_grows acx0 acx' \<Longrightarrow> Q (acx', n)"
  shows "post (acx_field_byte_offset tcx fu acx ty ps) Q"
  using assms(1) byte_offset_grows assms(2) by (rule acx_growing)

lemma post_type_index [acx_post]:
  "acx_grows acx0 acx \<Longrightarrow> (\<And>acx' i. acx_grows acx0 acx' \<Longrightarrow> post (f acx' i) Q) \<Longrightarrow>
     post (case get_type_index tcx acx ty of (acx', i) \<Rightarrow> f acx' i) Q"
  using acx_grows_trans [of acx0 acx] by (auto dest: type_index_grows split: prod.split)

lemma post_regularize:
  "acx_grows acx0 acx \<Longrightarrow> post (get_regularized_path tcx fu acx p) (\<lambda>(acx', q). acx_grows acx0 acx')"
proof (induction "path_length p" arbitrary: acx p rule: less_induct)
  case less
  show ?case
  proof (cases p)
    case (QualifiedPath base projection)
    have step: "post (Option.bind (cut p projection) (get_regularized_path tcx fu acx')) (\<lambda>(acx', q). acx_grows acx0 acx')"
      if "acx_grows acx0 acx'" "projection \<noteq> []" for acx'
      using less.hyps length_truncate that by (auto simp: QualifiedPath intro!: postI)
        (metis (no_types, lifting) One_nat_def case_prodD path_length.simps(1) postD)
    show ?thesis
      using less.prems step
      by (subst get_regularized_path.simps, cases "last projection")
        (auto simp: QualifiedPath intro!: acx_post)
  qed (use less.prems in \<open>subst get_regularized_path.simps, simp\<close>)+
qed

lemma regularize_grows [acx_growth]: "get_regularized_path tcx fu acx p = Some (acx', q) \<Longrightarrow> acx_grows acx acx'"
  using post_regularize [of acx acx tcx fu p] by (simp add: post_def)

lemma post_regularized [acx_post]:
  assumes "acx_grows acx0 acx" "\<And>acx' q. acx_grows acx0 acx' \<Longrightarrow> Q (acx', q)"
  shows "post (get_regularized_path tcx fu acx p) Q"
  using assms(1) regularize_grows assms(2) by (rule acx_growing)

lemmas post_cast_lookups =
  post_any [of _ "fields_at_start_location tcx fu n q t"] post_any [of _ "find_equal tcx fu t flds"]
  post_any [of _ "append_projection_elem q e"] post_any [of _ "equal_types tcx fu t u"]
  for tcx fu n q t u e flds

lemma post_cast_to:
  "acx_grows acx0 acx \<Longrightarrow> post (cast_to tcx fu acx p ty) (\<lambda>(acx', r). acx_grows acx0 acx')"
  by (auto simp: cast_to_def Let_def split: option.split intro!: acx_post post_cast_lookups set_type_growing)

lemma post_type_variant:
  "acx_grows acx0 acx \<Longrightarrow> post (get_type_variant tcx fu acx p ty) (\<lambda>(acx', r). acx_grows acx0 acx')"
  by (auto simp: get_type_variant_def split: option.split intro!: acx_post post_cast_lookups)

lemma cast_to_grows [acx_growth]: "cast_to tcx fu acx p ty = Some (acx', r) \<Longrightarrow> acx_grows acx acx'"
  using post_cast_to [of acx acx tcx fu p ty] by (simp add: post_def)

lemma type_variant_grows [acx_growth]: "get_type_variant tcx fu acx p ty = Some (acx', r) \<Longrightarrow> acx_grows acx acx'"
  using post_type_variant [of acx acx tcx fu p ty] by (simp add: post_def)

end
