(* ===== verification/Path_Types.thy ===== *)
theory Path_Types
  imports Context_Growth Outcome
begin

section \<open>The type operations of paths in the pointer graph (trait \<open>PAGPath\<close>, \<open>src/mir/path.rs\<close>)\<close>

text \<open>
  The methods of \<open>PAGPath\<close> that consult the analysis context, for plain paths and for paths in a
  context. A method that takes the context mutably returns it updated.
\<close>

subsection \<open>The operations\<close>

record ('p, 'f, 'c) path_type_ops =
  pt_new_aux_local_path :: "'c analysis_context \<Rightarrow> 'f \<Rightarrow> 'c ty \<Rightarrow> ('c analysis_context \<times> 'p) option"
  pt_cast_to :: "'c analysis_context \<Rightarrow> 'p \<Rightarrow> 'c ty \<Rightarrow> ('c analysis_context \<times> 'p option) option"
  pt_type_variant :: "'c analysis_context \<Rightarrow> 'p \<Rightarrow> 'c ty \<Rightarrow> ('c analysis_context \<times> 'p option) option"
  pt_regularize :: "'c analysis_context \<Rightarrow> 'p \<Rightarrow> ('c analysis_context \<times> 'p) option"
  pt_eval_path_type :: "'c analysis_context \<Rightarrow> 'p \<Rightarrow> ('c analysis_context \<times> 'c ty) option"
  pt_set_path_rustc_type :: "'c analysis_context \<Rightarrow> 'p \<Rightarrow> 'c ty \<Rightarrow> 'c analysis_context"
  pt_has_been_cast :: "'c analysis_context \<Rightarrow> 'p \<Rightarrow> bool"
  pt_concretized_heap_type :: "'c analysis_context \<Rightarrow> 'p \<Rightarrow> 'c ty option"
  pt_flatten_fields :: "'c analysis_context \<Rightarrow> 'p \<Rightarrow> ('c analysis_context \<times> (nat \<times> 'p \<times> 'c ty) list) option"

subsection \<open>Plain paths\<close>

definition path_flatten_fields ::
    "'c tcx \<Rightarrow> nat \<Rightarrow> 'c analysis_context \<Rightarrow> path \<Rightarrow> ('c analysis_context \<times> (nat \<times> path \<times> 'c ty) list) option" where
  "path_flatten_fields tcx fu acx p =
     do { (acx', path_ty) \<leftarrow> pag_eval_path_type tcx fu acx p;
          fields' \<leftarrow> flatten_fields tcx fu fu p path_ty;
          Some (acx', fields') }"

definition plain_type_ops :: "'c tcx \<Rightarrow> nat \<Rightarrow> (path, func_id, 'c) path_type_ops" where
  "plain_type_ops tcx fu =
     \<lparr>pt_new_aux_local_path = create_aux_local tcx,
      pt_cast_to = cast_to tcx fu,
      pt_type_variant = get_type_variant tcx fu,
      pt_regularize = get_regularized_path tcx fu,
      pt_eval_path_type = pag_eval_path_type tcx fu,
      pt_set_path_rustc_type = set_path_rustc_type tcx,
      pt_has_been_cast = (\<lambda>acx p. get_cast_types acx p \<noteq> None),
      pt_concretized_heap_type = (\<lambda>acx p. concretized_heap_objs acx p),
      pt_flatten_fields = path_flatten_fields tcx fu\<rparr>"

subsection \<open>Paths in a context\<close>

text \<open>The context of the path is put on what the operation returns for its path.\<close>

definition cs_type_ops :: "'c tcx \<Rightarrow> nat \<Rightarrow> (cs_path, cs_func_id, 'c) path_type_ops" where
  "cs_type_ops tcx fu =
     \<lparr>pt_new_aux_local_path = (\<lambda>acx func ty.
        map_option (\<lambda>(acx', p). (acx', new_cs_path (cid func) p)) (create_aux_local tcx acx (cs_func_id func) ty)),
      pt_cast_to = (\<lambda>acx p ty.
        map_option (\<lambda>(acx', q). (acx', map_option (new_cs_path (cs_cid p)) q)) (cast_to tcx fu acx (cs_path p) ty)),
      pt_type_variant = (\<lambda>acx p ty.
        map_option (\<lambda>(acx', q). (acx', map_option (new_cs_path (cs_cid p)) q)) (get_type_variant tcx fu acx (cs_path p) ty)),
      pt_regularize = (\<lambda>acx p.
        map_option (\<lambda>(acx', q). (acx', new_cs_path (cs_cid p) q)) (get_regularized_path tcx fu acx (cs_path p))),
      pt_eval_path_type = (\<lambda>acx p. pag_eval_path_type tcx fu acx (cs_path p)),
      pt_set_path_rustc_type = (\<lambda>acx p. set_path_rustc_type tcx acx (cs_path p)),
      pt_has_been_cast = (\<lambda>acx p. get_cast_types acx (cs_path p) \<noteq> None),
      pt_concretized_heap_type = (\<lambda>acx p. concretized_heap_objs acx (cs_path p)),
      pt_flatten_fields = (\<lambda>acx p.
        map_option (\<lambda>(acx', flds). (acx', map (\<lambda>(offset, q, ty). (offset, new_cs_path (cs_cid p) q, ty)) flds))
          (path_flatten_fields tcx fu acx (cs_path p)))\<rparr>"

subsection \<open>The contract\<close>

text \<open>
  What the solver relies on: once a type has been set or evaluated it is the type of the path,
  evaluating it again changes nothing, and no operation takes anything from the context.
\<close>

locale path_types =
  fixes tops :: "('p, 'f, 'c) path_type_ops"
    and type_known :: "'c analysis_context \<Rightarrow> 'p \<Rightarrow> 'c ty option"
  assumes eval_known: "type_known acx p = Some t \<Longrightarrow> pt_eval_path_type tops acx p = Some (acx, t)"
    and set_known: "type_known (pt_set_path_rustc_type tops acx p t) p \<noteq> None"
    and aux_known: "pt_new_aux_local_path tops acx f t = Some (acx', p) \<Longrightarrow> type_known acx' p \<noteq> None"
    and aux_grows: "pt_new_aux_local_path tops acx f t = Some (acx', p) \<Longrightarrow> acx_grows acx acx'"
    and cast_grows: "pt_cast_to tops acx p t = Some (acx', r) \<Longrightarrow> acx_grows acx acx'"
    and variant_grows: "pt_type_variant tops acx p t = Some (acx', r) \<Longrightarrow> acx_grows acx acx'"
    and regular_grows: "pt_regularize tops acx p = Some (acx', q) \<Longrightarrow> acx_grows acx acx'"
    and eval_grows: "pt_eval_path_type tops acx p = Some (acx', t) \<Longrightarrow> acx_grows acx acx'"
    and set_grows: "acx_grows acx (pt_set_path_rustc_type tops acx p t)"
    and flatten_grows: "pt_flatten_fields tops acx p = Some (acx', flds) \<Longrightarrow> acx_grows acx acx'"
begin

lemma eval_after_set: "\<exists>t'. pt_eval_path_type tops (pt_set_path_rustc_type tops acx p t) p =
    Some (pt_set_path_rustc_type tops acx p t, t')"
  using set_known [of acx p t] eval_known by fastforce

lemma eval_new_aux:
  "pt_new_aux_local_path tops acx f t = Some (acx', p) \<Longrightarrow> \<exists>t'. pt_eval_path_type tops acx' p = Some (acx', t')"
  using aux_known [of acx f t acx' p] eval_known by fastforce

end

lemma aux_local_known:
  "create_aux_local tcx acx f t = Some (acx', p) \<Longrightarrow> get_path_rustc_type acx' p \<noteq> None"
  by (auto simp: create_aux_local_def get_path_rustc_type_def set_path_rustc_type_def Let_def split: Option.bind_splits if_splits)

lemma flatten_fields_grow [acx_growth]: "path_flatten_fields tcx fu acx p = Some (acx', flds) \<Longrightarrow> acx_grows acx acx'"
  by (auto simp: path_flatten_fields_def bind_eq_Some_conv dest: eval_type_grows)

interpretation plain_types: path_types "plain_type_ops tcx fu" get_path_rustc_type
  by unfold_locales
    (auto simp: plain_type_ops_def pag_eval_path_type_def set_path_rustc_type_def get_path_rustc_type_def Let_def
      dest: aux_local_known [unfolded get_path_rustc_type_def] intro: acx_growth)

interpretation context_types: path_types "cs_type_ops tcx fu" "\<lambda>acx p. get_path_rustc_type acx (cs_path p)"
  by unfold_locales
    (auto simp: cs_type_ops_def pag_eval_path_type_def set_path_rustc_type_def get_path_rustc_type_def Let_def
      new_cs_path_def dest: aux_local_known [unfolded get_path_rustc_type_def] intro: acx_growth)

end
