(* ===== verification/Propagator.thy ===== *)
theory Propagator
  imports Path_Types Pag Pt_Data Stack_Filter
begin

section \<open>The constraint solver (\<open>src/pta/propagator/propagator.rs\<close>)\<close>

text \<open>
  Points-to facts are propagated along the edges of the pointer assignment graph until the
  worklist is empty. Loads, stores and casts add edges on the way, and facts about the
  receivers of calls are turned into new calls. The solver is generic in the kind of paths and
  functions; what it asks of them, of the compiler and of the options is the environment. Its
  state is what the code borrows mutably.

  A \<open>HashSet\<close> of call sites is iterated in an order the library leaves open: \<open>call_order\<close> and
  \<open>instance_order\<close> are these orders. A \<open>BTreeSet\<close> of edges is iterated in ascending order.
  Casts can trigger casts along edges they add; this recursion and the main loop take fuel.
  Log output is left out.
\<close>

record ('c, 'g, 'cg, 'p, 'f) solver_env =
  se_tcx :: "'c tcx"
  se_fuel :: nat
  se_gops :: "('g, 'p) pg_ops"
  se_pops :: "('p, 'f) pag_path_ops"
  se_tops :: "('p, 'f, 'c) path_type_ops"
  se_text :: "('c ty, 'c) compiler_text"
  se_from_usize :: "nat \<Rightarrow> 'c"
  se_re_static :: nat
  se_into :: "'f \<Rightarrow> func_id"
  se_is_reachable_from :: "('cg, 'f) stack_filter \<Rightarrow> 'f \<Rightarrow> 'f \<Rightarrow> bool option"
  se_is_const :: "def_id \<Rightarrow> bool"
  cast_constraint :: bool
  stack_filtering :: bool
  call_order :: "('f, 'p) call_site set \<Rightarrow> ('f, 'p) call_site list"
  instance_order :: "(('f, 'p) call_site \<times> func_id) set \<Rightarrow> (('f, 'p) call_site \<times> func_id) list"

type_synonym node_pts = "(nat, hybrid_points_to_set) diff_pt_data"

record ('c, 'g, 'cg, 'p, 'f) solver =
  sv_acx :: "'c analysis_context"
  sv_pt :: node_pts
  sv_pag :: "('g, 'p) pag"
  new_calls :: "(('f, 'p) call_site \<times> func_id) list"
  new_call_instances :: "(('f, 'p) call_site \<times> 'p \<times> func_id) list"
  addr_edge_iter :: nat
  inter_proc_edge_iter :: "nat list"
  worklist :: "nat list"
  assoc_calls :: "(nat, 'f, 'p) assoc_call_group"
  sv_stack_filter :: "('cg, 'f) stack_filter option"

text \<open>
  The iterator over the address edges is the number of edges it has yielded: the queue may grow
  between two rounds. The iterator over the edges between functions holds the edges to come.
\<close>

definition propagator_new ::
    "'c analysis_context \<Rightarrow> node_pts \<Rightarrow> ('g, 'p) pag \<Rightarrow> nat \<Rightarrow> nat list \<Rightarrow> (nat, 'f, 'p) assoc_call_group \<Rightarrow>
     ('cg, 'f) stack_filter option \<Rightarrow> ('c, 'g, 'cg, 'p, 'f) solver" where
  "propagator_new acx pt pag addr_iter inter_iter assoc sf =
     \<lparr>sv_acx = acx, sv_pt = pt, sv_pag = pag, new_calls = [], new_call_instances = [], addr_edge_iter = addr_iter,
      inter_proc_edge_iter = inter_iter, worklist = [], assoc_calls = assoc, sv_stack_filter = sf\<rparr>"

subsection \<open>Facts, nodes and types\<close>

definition push_back_if :: "bool \<Rightarrow> nat \<Rightarrow> ('c, 'g, 'cg, 'p, 'f) solver \<Rightarrow> ('c, 'g, 'cg, 'p, 'f) solver" where
  "push_back_if changed n s = (if changed then s\<lparr>worklist := worklist s @ [n]\<rparr> else s)"

definition sv_add_pts ::
    "('c, 'g, 'cg, 'p, 'f) solver \<Rightarrow> nat \<Rightarrow> nat \<Rightarrow> ('c, 'g, 'cg, 'p, 'f) solver \<times> bool" where
  "sv_add_pts s pointer pointee =
     (case add_pts node_pts_ops (sv_pt s) pointer pointee of (pt, changed) \<Rightarrow> (s\<lparr>sv_pt := pt\<rparr>, changed))"

definition diff_list :: "('c, 'g, 'cg, 'p, 'f) solver \<Rightarrow> nat \<Rightarrow> nat list option" where
  "diff_list s n = map_option (pts_iter node_pts_ops) (get_diff_pts (sv_pt s) n)"

definition propa_list :: "('c, 'g, 'cg, 'p, 'f) solver \<Rightarrow> nat \<Rightarrow> nat list option" where
  "propa_list s n = map_option (pts_iter node_pts_ops) (get_propa_pts (sv_pt s) n)"

definition get_cloned_pts :: "('c, 'g, 'cg, 'p, 'f) solver \<Rightarrow> nat \<Rightarrow> bool \<Rightarrow> hybrid_points_to_set" where
  "get_cloned_pts s n diff_only =
     (case get_diff_pts (sv_pt s) n of
        Some diff \<Rightarrow>
          (if \<not> diff_only then
             (case get_propa_pts (sv_pt s) n of
                Some propa \<Rightarrow> fst (pts_union node_pts_ops diff propa)
              | None \<Rightarrow> diff)
           else diff)
      | None \<Rightarrow>
          (if \<not> diff_only then
             (case get_propa_pts (sv_pt s) n of Some propa \<Rightarrow> propa | None \<Rightarrow> pts_new node_pts_ops)
           else pts_new node_pts_ops))"

definition sv_node_path :: "('c, 'g, 'cg, 'p, 'f) solver_env \<Rightarrow> ('c, 'g, 'cg, 'p, 'f) solver \<Rightarrow> nat \<Rightarrow> 'p option" where
  "sv_node_path env s n = node_path (se_gops env) (sv_pag s) n"

definition sv_endpoints :: "('c, 'g, 'cg, 'p, 'f) solver_env \<Rightarrow> ('c, 'g, 'cg, 'p, 'f) solver \<Rightarrow> nat \<Rightarrow> (nat \<times> nat) option" where
  "sv_endpoints env s e = g_edge_endpoints (se_gops env) (pag_graph (sv_pag s)) e"

definition sv_node :: "('c, 'g, 'cg, 'p, 'f) solver_env \<Rightarrow> ('c, 'g, 'cg, 'p, 'f) solver \<Rightarrow> 'p \<Rightarrow>
    ('c, 'g, 'cg, 'p, 'f) solver \<times> nat" where
  "sv_node env s p =
     (case get_or_insert_node (se_gops env) (sv_pag s) p of (pag, n) \<Rightarrow> (s\<lparr>sv_pag := pag\<rparr>, n))"

text \<open>An operation on the analysis context inside the solver.\<close>

definition with_acx :: "('c, 'g, 'cg, 'p, 'f) solver \<Rightarrow> ('c analysis_context \<times> 'a) option \<Rightarrow>
    (('c, 'g, 'cg, 'p, 'f) solver \<times> 'a) option" where
  "with_acx s r = map_option (\<lambda>(acx, x). (s\<lparr>sv_acx := acx\<rparr>, x)) r"

definition sv_eval_type :: "('c, 'g, 'cg, 'p, 'f) solver_env \<Rightarrow> ('c, 'g, 'cg, 'p, 'f) solver \<Rightarrow> 'p \<Rightarrow>
    (('c, 'g, 'cg, 'p, 'f) solver \<times> 'c ty) option" where
  "sv_eval_type env s p = with_acx s (pt_eval_path_type (se_tops env) (sv_acx s) p)"

definition node_path_and_ty :: "('c, 'g, 'cg, 'p, 'f) solver_env \<Rightarrow> ('c, 'g, 'cg, 'p, 'f) solver \<Rightarrow> nat \<Rightarrow>
    (('c, 'g, 'cg, 'p, 'f) solver \<times> 'p \<times> 'c ty) option" where
  "node_path_and_ty env s n =
     do { p \<leftarrow> sv_node_path env s n;
          (s', ty) \<leftarrow> sv_eval_type env s p;
          Some (s', p, ty) }"

definition sv_func_id :: "('c, 'g, 'cg, 'p, 'f) solver_env \<Rightarrow> ('c, 'g, 'cg, 'p, 'f) solver \<Rightarrow> def_id \<Rightarrow> 'c generic_args \<Rightarrow>
    (('c, 'g, 'cg, 'p, 'f) solver \<times> func_id) option" where
  "sv_func_id env s d args =
     with_acx s (acx_get_func_id (se_tcx env) (se_text env) (se_from_usize env) (sv_acx s) d args)"

subsection \<open>Filters\<close>

definition type_filter_pred :: "('c, 'g, 'cg, 'p, 'f) solver_env \<Rightarrow> 'c ty \<Rightarrow> 'c ty \<Rightarrow> 'c ty \<Rightarrow> bool option" where
  "type_filter_pred env pointee_ty src_deref_type dst_deref_ty =
     (if is_trait src_deref_type \<and> \<not> is_trait dst_deref_ty
      then map_option Not (equal_types (se_tcx env) (se_fuel env) pointee_ty dst_deref_ty)
      else Some False)"

definition stack_filter_pred ::
    "('c, 'g, 'cg, 'p, 'f) solver_env \<Rightarrow> ('c, 'g, 'cg, 'p, 'f) solver \<Rightarrow> nat \<Rightarrow> 'p \<Rightarrow> bool option" where
  "stack_filter_pred env s edge_id pointee =
     (if \<not> stack_filtering env then Some False
      else case sv_stack_filter s of
        Some sf \<Rightarrow>
          (case get_container_func_of_edge sf edge_id of
             Some edge_func \<Rightarrow>
               map_option Not (is_potentially_alive (se_pops env) (se_into env) (se_is_reachable_from env sf)
                 (acx_functions (sv_acx s)) (se_is_const env) edge_func pointee)
           | None \<Rightarrow> Some False)
      | None \<Rightarrow> Some False)"

definition sv_collect_filtered_pts :: "nat \<Rightarrow> nat \<Rightarrow> ('c, 'g, 'cg, 'p, 'f) solver \<Rightarrow> ('c, 'g, 'cg, 'p, 'f) solver" where
  "sv_collect_filtered_pts edge_id filtered_pointee s =
     s\<lparr>sv_stack_filter := map_option (\<lambda>sf. collect_filtered_pts sf edge_id filtered_pointee) (sv_stack_filter s)\<rparr>"

definition new_edge_from_store_or_load :: "nat \<Rightarrow> nat \<Rightarrow> ('c, 'g, 'cg, 'p, 'f) solver \<Rightarrow> ('c, 'g, 'cg, 'p, 'f) solver" where
  "new_edge_from_store_or_load new_edge store_load_edge s =
     s\<lparr>sv_stack_filter := map_option (\<lambda>sf.
         case get_container_func_of_edge sf store_load_edge of
           Some func \<Rightarrow> add_pag_edge_in_func sf new_edge func
         | None \<Rightarrow> sf) (sv_stack_filter s)\<rparr>"

subsection \<open>Direct edges\<close>

definition sv_add_direct_edge :: "('c, 'g, 'cg, 'p, 'f) solver_env \<Rightarrow> ('c, 'g, 'cg, 'p, 'f) solver \<Rightarrow> 'p \<Rightarrow> 'p \<Rightarrow>
    (('c, 'g, 'cg, 'p, 'f) solver \<times> nat option) option" where
  "sv_add_direct_edge env s src dst =
     (if \<not> has_edge (se_gops env) (sv_pag s) src dst DirectPAGEdge
      then map_option (\<lambda>(pag, r). (s\<lparr>sv_pag := pag\<rparr>, r)) (add_direct_edge (se_gops env) (sv_pag s) src dst)
      else Some (s, None))"

text \<open>The body of the two loops of \<open>propagate\<close>\<close>

definition propagate_pointee ::
    "('c, 'g, 'cg, 'p, 'f) solver_env \<Rightarrow> nat \<Rightarrow> nat \<Rightarrow> 'c ty \<Rightarrow> 'c ty \<Rightarrow> nat \<Rightarrow> ('c, 'g, 'cg, 'p, 'f) solver \<times> bool \<Rightarrow>
     (('c, 'g, 'cg, 'p, 'f) solver \<times> bool) option" where
  "propagate_pointee env direct_edge dst src_deref_type dst_deref_type pointee = (\<lambda>(s, changed).
     do { (s, pointee_path, pointee_type) \<leftarrow> node_path_and_ty env s pointee;
          filtered \<leftarrow> type_filter_pred env pointee_type src_deref_type dst_deref_type;
          if filtered then Some (s, changed)
          else do {
            dead \<leftarrow> stack_filter_pred env s direct_edge pointee_path;
            if dead then Some (sv_collect_filtered_pts direct_edge pointee s, changed)
            else case sv_add_pts s dst pointee of (s, c) \<Rightarrow> Some (s, changed \<or> c) } })"

definition propagate :: "('c, 'g, 'cg, 'p, 'f) solver_env \<Rightarrow> nat \<Rightarrow> bool \<Rightarrow> ('c, 'g, 'cg, 'p, 'f) solver \<Rightarrow>
    ('c, 'g, 'cg, 'p, 'f) solver option" where
  "propagate env direct_edge propa_diff s =
     do { (src, dst) \<leftarrow> sv_endpoints env s direct_edge;
          if get_propa_pts (sv_pt s) src \<noteq> None \<or> get_diff_pts (sv_pt s) src \<noteq> None then do {
            (s, src_path, src_type) \<leftarrow> node_path_and_ty env s src;
            (s, dst_path, dst_type) \<leftarrow> node_path_and_ty env s dst;
            equivalent \<leftarrow> equivalent_ptr_types (se_tcx env) (se_fuel env) src_type dst_type;
            if \<not> equivalent then Some s
            else do {
              let src_deref_type = get_dereferenced_type (se_tcx env) src_type;
              let dst_deref_type = get_dereferenced_type (se_tcx env) dst_type;
              let step = propagate_pointee env direct_edge dst src_deref_type dst_deref_type;
              (s, changed) \<leftarrow> (case diff_list s src of
                 Some diff \<Rightarrow> fold_opt step diff (s, False)
               | None \<Rightarrow> Some (s, False));
              (s, changed) \<leftarrow> (if \<not> propa_diff then
                   (case propa_list s src of
                      Some propa \<Rightarrow> fold_opt step propa (s, changed)
                    | None \<Rightarrow> Some (s, changed))
                 else Some (s, changed));
              Some (push_back_if changed dst s) } }
          else Some s }"

text \<open>
  An offset edge is a direct edge; value flow between different types is dropped by \<open>propagate\<close>.
\<close>

definition process_offset :: "('c, 'g, 'cg, 'p, 'f) solver_env \<Rightarrow> nat \<Rightarrow> ('c, 'g, 'cg, 'p, 'f) solver \<Rightarrow>
    ('c, 'g, 'cg, 'p, 'f) solver option" where
  "process_offset env offset_edge s = propagate env offset_edge True s"

definition process_addr :: "('c, 'g, 'cg, 'p, 'f) solver_env \<Rightarrow> nat \<Rightarrow> ('c, 'g, 'cg, 'p, 'f) solver \<Rightarrow>
    ('c, 'g, 'cg, 'p, 'f) solver option" where
  "process_addr env addr_edge s =
     do { (src, dst) \<leftarrow> sv_endpoints env s addr_edge;
          case sv_add_pts s dst src of (s, changed) \<Rightarrow> Some (push_back_if changed dst s) }"

subsection \<open>Loads, stores and element pointers\<close>

definition process_load :: "('c, 'g, 'cg, 'p, 'f) solver_env \<Rightarrow> nat list \<Rightarrow> nat \<Rightarrow> ('c, 'g, 'cg, 'p, 'f) solver \<Rightarrow>
    ('c, 'g, 'cg, 'p, 'f) solver option" where
  "process_load env base_pts load_edge s =
     do { (src, dst) \<leftarrow> sv_endpoints env s load_edge;
          edge \<leftarrow> get_edge (se_gops env) (sv_pag s) load_edge;
          load_proj \<leftarrow> (case pe_kind edge of LoadPAGEdge proj \<Rightarrow> Some proj | _ \<Rightarrow> None);
          dst_path \<leftarrow> sv_node_path env s dst;
          fold_opt (\<lambda>pointee s.
            do { pointee_path \<leftarrow> sv_node_path env s pointee;
                 src_path \<leftarrow> pp_append_projection (se_pops env) pointee_path load_proj;
                 dead \<leftarrow> stack_filter_pred env s load_edge pointee_path;
                 if dead then Some s
                 else do {
                   (s, r) \<leftarrow> sv_add_direct_edge env s src_path dst_path;
                   case r of
                     Some edge_id \<Rightarrow> propagate env edge_id False (new_edge_from_store_or_load edge_id load_edge s)
                   | None \<Rightarrow> Some s } }) base_pts s }"

definition process_store :: "('c, 'g, 'cg, 'p, 'f) solver_env \<Rightarrow> nat list \<Rightarrow> nat \<Rightarrow> ('c, 'g, 'cg, 'p, 'f) solver \<Rightarrow>
    ('c, 'g, 'cg, 'p, 'f) solver option" where
  "process_store env base_pts store_edge s =
     do { (src, dst) \<leftarrow> sv_endpoints env s store_edge;
          edge \<leftarrow> get_edge (se_gops env) (sv_pag s) store_edge;
          store_proj \<leftarrow> (case pe_kind edge of StorePAGEdge proj \<Rightarrow> Some proj | _ \<Rightarrow> None);
          src_path \<leftarrow> sv_node_path env s src;
          fold_opt (\<lambda>pointee s.
            do { pointee_path \<leftarrow> sv_node_path env s pointee;
                 dead \<leftarrow> stack_filter_pred env s store_edge pointee_path;
                 if dead then Some s
                 else do {
                   dst_path \<leftarrow> pp_append_projection (se_pops env) pointee_path store_proj;
                   (s, r) \<leftarrow> sv_add_direct_edge env s src_path dst_path;
                   case r of
                     Some edge_id \<Rightarrow> propagate env edge_id False (new_edge_from_store_or_load edge_id store_edge s)
                   | None \<Rightarrow> Some s } }) base_pts s }"

definition process_gep :: "('c, 'g, 'cg, 'p, 'f) solver_env \<Rightarrow> nat list \<Rightarrow> nat \<Rightarrow> ('c, 'g, 'cg, 'p, 'f) solver \<Rightarrow>
    ('c, 'g, 'cg, 'p, 'f) solver option" where
  "process_gep env base_pts gep_edge s =
     do { (src, dst) \<leftarrow> sv_endpoints env s gep_edge;
          edge \<leftarrow> get_edge (se_gops env) (sv_pag s) gep_edge;
          gep_proj \<leftarrow> (case pe_kind edge of GepPAGEdge proj \<Rightarrow> Some proj | _ \<Rightarrow> None);
          (s, changed) \<leftarrow> fold_opt (\<lambda>pointee (s, changed).
            do { pointee_path \<leftarrow> sv_node_path env s pointee;
                 dead \<leftarrow> stack_filter_pred env s gep_edge pointee_path;
                 if dead then Some (sv_collect_filtered_pts gep_edge pointee s, changed)
                 else do {
                   src_path \<leftarrow> pp_append_projection (se_pops env) pointee_path gep_proj;
                   let (s, src_id) = sv_node env s src_path;
                   case sv_add_pts s dst src_id of (s, c) \<Rightarrow> Some (s, changed \<or> c) } }) base_pts (s, False);
          Some (push_back_if changed dst s) }"

subsection \<open>Casts\<close>

definition sv_add_cast_edge :: "('c, 'g, 'cg, 'p, 'f) solver_env \<Rightarrow> ('c, 'g, 'cg, 'p, 'f) solver \<Rightarrow> 'p \<Rightarrow> 'p \<Rightarrow>
    (('c, 'g, 'cg, 'p, 'f) solver \<times> nat option) option" where
  "sv_add_cast_edge env s src dst =
     (if \<not> has_edge (se_gops env) (sv_pag s) src dst CastPAGEdge
      then map_option (\<lambda>(pag, r). (s\<lparr>sv_pag := pag\<rparr>, r)) (add_cast_edge (se_gops env) (sv_pag s) src dst)
      else Some (s, None))"

definition sv_cast_to :: "('c, 'g, 'cg, 'p, 'f) solver_env \<Rightarrow> ('c, 'g, 'cg, 'p, 'f) solver \<Rightarrow> 'p \<Rightarrow> 'c ty \<Rightarrow>
    (('c, 'g, 'cg, 'p, 'f) solver \<times> 'p option) option" where
  "sv_cast_to env s p ty = with_acx s (pt_cast_to (se_tops env) (sv_acx s) p ty)"

definition sv_set_type :: "('c, 'g, 'cg, 'p, 'f) solver_env \<Rightarrow> 'p \<Rightarrow> 'c ty \<Rightarrow> ('c, 'g, 'cg, 'p, 'f) solver \<Rightarrow>
    ('c, 'g, 'cg, 'p, 'f) solver" where
  "sv_set_type env p ty s = s\<lparr>sv_acx := pt_set_path_rustc_type (se_tops env) (sv_acx s) p ty\<rparr>"

text \<open>The object a cast yields becomes a node and a pointee of the target.\<close>

definition add_path_pts :: "('c, 'g, 'cg, 'p, 'f) solver_env \<Rightarrow> nat \<Rightarrow> 'p \<Rightarrow> ('c, 'g, 'cg, 'p, 'f) solver \<times> bool \<Rightarrow>
    ('c, 'g, 'cg, 'p, 'f) solver \<times> bool" where
  "add_path_pts env dst p = (\<lambda>(s, changed).
     let (s, i) = sv_node env s p; (s, c) = sv_add_pts s dst i in (s, changed \<or> c))"

definition cast_and_add_pts ::
    "('c, 'g, 'cg, 'p, 'f) solver_env \<Rightarrow> nat \<Rightarrow> 'c ty \<Rightarrow> nat \<Rightarrow> ('c, 'g, 'cg, 'p, 'f) solver \<times> bool \<Rightarrow>
     (('c, 'g, 'cg, 'p, 'f) solver \<times> bool) option" where
  "cast_and_add_pts env pointer cast_ty pointee = (\<lambda>(s, changed).
     do { pointee_path \<leftarrow> sv_node_path env s pointee;
          (s, cast_path) \<leftarrow> sv_cast_to env s pointee_path cast_ty;
          Some (case cast_path of
                  Some q \<Rightarrow> add_path_pts env pointer q (s, changed)
                | None \<Rightarrow> (s, changed)) })"

definition is_callable :: "'c ty \<Rightarrow> bool" where
  "is_callable ty = (case ty of FnDef _ _ \<Rightarrow> True | Closure _ _ \<Rightarrow> True | Coroutine _ _ \<Rightarrow> True | _ \<Rightarrow> False)"

definition uncast_and_add_fnptr_pts ::
    "('c, 'g, 'cg, 'p, 'f) solver_env \<Rightarrow> nat \<Rightarrow> nat \<Rightarrow> ('c, 'g, 'cg, 'p, 'f) solver \<times> bool \<Rightarrow>
     (('c, 'g, 'cg, 'p, 'f) solver \<times> bool) option" where
  "uncast_and_add_fnptr_pts env fnptr pointee = (\<lambda>(s, changed).
     do { pointee_path \<leftarrow> sv_node_path env s pointee;
          original_path \<leftarrow> pp_remove_cast (se_pops env) pointee_path;
          (s, original_ty) \<leftarrow> sv_eval_type env s original_path;
          if is_callable original_ty then do {
            original_id \<leftarrow> get_node_id (sv_pag s) original_path;
            case sv_add_pts s fnptr original_id of (s, c) \<Rightarrow> Some (s, changed \<or> c) }
          else Some (s, changed) })"

text \<open>
  The loop over the pointees of a pointer to basic data. \<open>compatible\<close> is the test on a heap
  object that has got a concrete type.
\<close>

definition compatible_heap_cast ::
    "('c, 'g, 'cg, 'p, 'f) solver_env \<Rightarrow> 'c ty option \<Rightarrow> 'c ty \<Rightarrow> bool option" where
  "compatible_heap_cast env concretized dst_deref_ty =
     (case concretized of
        Some concre_ty \<Rightarrow>
          (case dst_deref_ty of
             ArrayTy elem_ty _ \<Rightarrow> equal_types (se_tcx env) (se_fuel env) concre_ty elem_ty
           | SliceTy elem_ty \<Rightarrow> equal_types (se_tcx env) (se_fuel env) concre_ty elem_ty
           | _ \<Rightarrow> Some False)
      | None \<Rightarrow> Some True)"

definition cast_heap_obj ::
    "('c, 'g, 'cg, 'p, 'f) solver_env \<Rightarrow> nat \<Rightarrow> 'c ty \<Rightarrow> 'p \<Rightarrow> ('c, 'g, 'cg, 'p, 'f) solver \<times> bool \<Rightarrow>
     (('c, 'g, 'cg, 'p, 'f) solver \<times> bool) option" where
  "cast_heap_obj env dst dst_deref_ty regularized_path = (\<lambda>(s, changed).
     if is_heap_obj (pp_value (se_pops env) regularized_path) then do {
       compatible \<leftarrow> compatible_heap_cast env (pt_concretized_heap_type (se_tops env) (sv_acx s) regularized_path) dst_deref_ty;
       if \<not> compatible then Some (s, changed)
       else do {
         (s, cast_path) \<leftarrow> sv_cast_to env s regularized_path dst_deref_ty;
         Some (case cast_path of Some q \<Rightarrow> add_path_pts env dst q (s, changed) | None \<Rightarrow> (s, changed)) } }
     else Some (s, changed))"

definition cast_basic_pointee ::
    "('c, 'g, 'cg, 'p, 'f) solver_env \<Rightarrow> nat \<Rightarrow> nat \<Rightarrow> 'c ty \<Rightarrow> 'c ty \<Rightarrow> nat \<Rightarrow> ('c, 'g, 'cg, 'p, 'f) solver \<times> bool \<Rightarrow>
     (('c, 'g, 'cg, 'p, 'f) solver \<times> bool) option" where
  "cast_basic_pointee env cast_edge dst dst_ty dst_deref_ty pointee = (\<lambda>(s, changed).
     do { pointee_path \<leftarrow> sv_node_path env s pointee;
          (s, regularized_path) \<leftarrow> with_acx s (pt_regularize (se_tops env) (sv_acx s) pointee_path);
          dead \<leftarrow> stack_filter_pred env s cast_edge pointee_path;
          if dead then Some (sv_collect_filtered_pts cast_edge pointee s, changed)
          else do {
            (s, cast_path) \<leftarrow> (if \<not> pt_has_been_cast (se_tops env) (sv_acx s) regularized_path
                               then sv_cast_to env s regularized_path dst_deref_ty else Some (s, None));
            case cast_path of
              Some q \<Rightarrow> Some (add_path_pts env dst q (s, changed))
            | None \<Rightarrow>
                do { (s, type_variant) \<leftarrow>
                       with_acx s (pt_type_variant (se_tops env) (sv_acx s) regularized_path dst_deref_ty);
                     case type_variant of
                       Some q \<Rightarrow> Some (add_path_pts env dst q (s, changed))
                     | None \<Rightarrow>
                         do { (s, cast_path) \<leftarrow> (if is_basic_pointer (se_tcx env) dst_ty
                                then sv_cast_to env s regularized_path dst_deref_ty else Some (s, None));
                              case cast_path of
                                Some q \<Rightarrow> Some (add_path_pts env dst q (s, changed))
                              | None \<Rightarrow> cast_heap_obj env dst dst_deref_ty regularized_path (s, changed) } } } })"

text \<open>
  \<open>cast_between_flattened_fields\<close> walks over both lists of fields by offset. \<open>rec\<close> stands for
  \<open>propagate_cast\<close>, which it calls along the cast edges it adds.
\<close>

definition add_direct_and_propagate :: "('c, 'g, 'cg, 'p, 'f) solver_env \<Rightarrow> 'p \<Rightarrow> 'p \<Rightarrow>
    ('c, 'g, 'cg, 'p, 'f) solver \<Rightarrow> ('c, 'g, 'cg, 'p, 'f) solver option" where
  "add_direct_and_propagate env src dst s =
     do { (s, r) \<leftarrow> sv_add_direct_edge env s src dst;
          case r of Some edge_id \<Rightarrow> propagate env edge_id False s | None \<Rightarrow> Some s }"

definition add_cast_edge_and_propagate ::
    "('c, 'g, 'cg, 'p, 'f) solver_env \<Rightarrow> (nat \<Rightarrow> bool \<Rightarrow> ('c, 'g, 'cg, 'p, 'f) solver \<Rightarrow> ('c, 'g, 'cg, 'p, 'f) solver option) \<Rightarrow>
     'p \<Rightarrow> 'p \<Rightarrow> ('c, 'g, 'cg, 'p, 'f) solver \<Rightarrow> ('c, 'g, 'cg, 'p, 'f) solver option" where
  "add_cast_edge_and_propagate env rec src dst s =
     do { (s, r) \<leftarrow> sv_add_cast_edge env s src dst;
          s \<leftarrow> (case r of Some edge_id \<Rightarrow> rec edge_id False s | None \<Rightarrow> Some s);
          (s, r) \<leftarrow> sv_add_cast_edge env s dst src;
          case r of Some edge_id \<Rightarrow> rec edge_id False s | None \<Rightarrow> Some s }"

definition cast_field_pair ::
    "('c, 'g, 'cg, 'p, 'f) solver_env \<Rightarrow> (nat \<Rightarrow> bool \<Rightarrow> ('c, 'g, 'cg, 'p, 'f) solver \<Rightarrow> ('c, 'g, 'cg, 'p, 'f) solver option) \<Rightarrow>
     'p \<Rightarrow> 'c ty \<Rightarrow> 'p \<Rightarrow> 'c ty \<Rightarrow> ('c, 'g, 'cg, 'p, 'f) solver \<Rightarrow> ('c, 'g, 'cg, 'p, 'f) solver option" where
  "cast_field_pair env rec src_field src_type tgt_field tgt_type s =
     (if is_any_ptr src_type \<and> is_any_ptr tgt_type then do {
        let s = sv_set_type env tgt_field tgt_type (sv_set_type env src_field src_type s);
        equivalent \<leftarrow> equivalent_ptr_types (se_tcx env) (se_fuel env) src_type tgt_type;
        if equivalent then
          Option.bind (add_direct_and_propagate env src_field tgt_field s) (add_direct_and_propagate env tgt_field src_field)
        else add_cast_edge_and_propagate env rec src_field tgt_field s }
      else if is_enum (se_tcx env) src_type \<and> src_type = tgt_type then do {
        (s, ptr_projs) \<leftarrow> with_acx s (acx_pointer_projections (se_tcx env) (se_fuel env) (sv_acx s) src_type);
        fold_opt (\<lambda>(ptr_proj, ptr_ty) s.
          do { src_field \<leftarrow> pp_append_projection (se_pops env) src_field ptr_proj;
               tgt_field \<leftarrow> pp_append_projection (se_pops env) tgt_field ptr_proj;
               let s = sv_set_type env tgt_field ptr_ty (sv_set_type env src_field ptr_ty s);
               s \<leftarrow> add_direct_and_propagate env src_field tgt_field s;
               add_direct_and_propagate env tgt_field src_field s }) ptr_projs s }
      else Some s)"

fun cast_between_flattened_fields ::
    "('c, 'g, 'cg, 'p, 'f) solver_env \<Rightarrow> (nat \<Rightarrow> bool \<Rightarrow> ('c, 'g, 'cg, 'p, 'f) solver \<Rightarrow> ('c, 'g, 'cg, 'p, 'f) solver option) \<Rightarrow>
     (nat \<times> 'p \<times> 'c ty) list \<Rightarrow> (nat \<times> 'p \<times> 'c ty) list \<Rightarrow> ('c, 'g, 'cg, 'p, 'f) solver \<Rightarrow>
     ('c, 'g, 'cg, 'p, 'f) solver option" where
  "cast_between_flattened_fields env rec ((src_offset, src_field, src_type) # srcs) ((tgt_offset, tgt_field, tgt_type) # tgts) s =
     (if tgt_offset < src_offset
      then cast_between_flattened_fields env rec ((src_offset, src_field, src_type) # srcs) tgts s
      else if src_offset < tgt_offset
      then cast_between_flattened_fields env rec srcs ((tgt_offset, tgt_field, tgt_type) # tgts) s
      else Option.bind (cast_field_pair env rec src_field src_type tgt_field tgt_type s)
             (cast_between_flattened_fields env rec srcs tgts))"
| "cast_between_flattened_fields env rec _ _ s = Some s"

definition cast_pointee ::
    "('c, 'g, 'cg, 'p, 'f) solver_env \<Rightarrow> (nat \<Rightarrow> bool \<Rightarrow> ('c, 'g, 'cg, 'p, 'f) solver \<Rightarrow> ('c, 'g, 'cg, 'p, 'f) solver option) \<Rightarrow>
     nat \<Rightarrow> nat \<Rightarrow> 'c ty \<Rightarrow> nat \<Rightarrow> ('c, 'g, 'cg, 'p, 'f) solver \<times> bool \<Rightarrow> (('c, 'g, 'cg, 'p, 'f) solver \<times> bool) option" where
  "cast_pointee env rec cast_edge dst dst_deref_ty pointee = (\<lambda>(s, changed).
     do { pointee_path \<leftarrow> sv_node_path env s pointee;
          dead \<leftarrow> stack_filter_pred env s cast_edge pointee_path;
          if dead then Some (sv_collect_filtered_pts cast_edge pointee s, changed)
          else do {
            (s, cast_path) \<leftarrow> sv_cast_to env s pointee_path dst_deref_ty;
            case cast_path of
              Some q \<Rightarrow>
                do { let (s, changed) = add_path_pts env dst q (s, changed);
                     (s, pointee_fields) \<leftarrow> with_acx s (pt_flatten_fields (se_tops env) (sv_acx s) pointee_path);
                     (s, cast_fields) \<leftarrow> with_acx s (pt_flatten_fields (se_tops env) (sv_acx s) q);
                     s \<leftarrow> cast_between_flattened_fields env rec pointee_fields cast_fields s;
                     Some (s, changed) }
            | None \<Rightarrow> Some (s, changed) } })"

definition propagate_cast_step ::
    "('c, 'g, 'cg, 'p, 'f) solver_env \<Rightarrow> (nat \<Rightarrow> bool \<Rightarrow> ('c, 'g, 'cg, 'p, 'f) solver \<Rightarrow> ('c, 'g, 'cg, 'p, 'f) solver option) \<Rightarrow>
     nat \<Rightarrow> bool \<Rightarrow> ('c, 'g, 'cg, 'p, 'f) solver \<Rightarrow> ('c, 'g, 'cg, 'p, 'f) solver option" where
  "propagate_cast_step env rec cast_edge propa_diff s =
     do { (src, dst) \<leftarrow> sv_endpoints env s cast_edge;
          (s, src_path, src_ty) \<leftarrow> node_path_and_ty env s src;
          (s, dst_path, dst_ty) \<leftarrow> node_path_and_ty env s dst;
          if \<not> (is_any_ptr src_ty \<and> is_any_ptr dst_ty) then None
          else do {
            let dst_deref_ty = get_dereferenced_type (se_tcx env) dst_ty;
            let src_pts = pts_iter node_pts_ops (get_cloned_pts s src propa_diff);
            let step =
              (if is_fn_ptr src_ty then cast_and_add_pts env dst dst_deref_ty
               else if is_fn_ptr dst_ty then uncast_and_add_fnptr_pts env dst
               else if cast_constraint env \<and> is_basic_pointer (se_tcx env) src_ty
               then cast_basic_pointee env cast_edge dst dst_ty dst_deref_ty
               else cast_pointee env rec cast_edge dst dst_deref_ty);
            (s, changed) \<leftarrow> fold_opt step src_pts (s, False);
            Some (push_back_if changed dst s) } }"

fun propagate_cast ::
    "('c, 'g, 'cg, 'p, 'f) solver_env \<Rightarrow> nat \<Rightarrow> nat \<Rightarrow> bool \<Rightarrow> ('c, 'g, 'cg, 'p, 'f) solver \<Rightarrow>
     ('c, 'g, 'cg, 'p, 'f) solver option" where
  "propagate_cast env 0 cast_edge propa_diff s = None"
| "propagate_cast env (Suc n) cast_edge propa_diff s =
     propagate_cast_step env (propagate_cast env n) cast_edge propa_diff s"

subsection \<open>New calls\<close>

definition add_new_call_instance ::
    "('f, 'p) call_site \<Rightarrow> 'p \<Rightarrow> func_id \<Rightarrow> ('c, 'g, 'cg, 'p, 'f) solver \<Rightarrow> ('c, 'g, 'cg, 'p, 'f) solver" where
  "add_new_call_instance callsite inst callee_id s =
     s\<lparr>new_call_instances := new_call_instances s @ [(callsite, inst, callee_id)]\<rparr>"

definition add_new_call ::
    "('c, 'g, 'cg, 'p, 'f) solver_env \<Rightarrow> ('f, 'p) call_site \<Rightarrow> func_id \<Rightarrow> ('c, 'g, 'cg, 'p, 'f) solver \<Rightarrow>
     ('c, 'g, 'cg, 'p, 'f) solver option" where
  "add_new_call env callsite callee_id s =
     do { let s = s\<lparr>new_calls := new_calls s @ [(callsite, callee_id)]\<rparr>;
          callee \<leftarrow> get_function_reference (acx_functions (sv_acx s)) callee_id;
          if has_self_ref_parameter (se_tcx env) (fr_def_id callee) then do {
            self_ref \<leftarrow> nth_opt (call_args callsite) 0;
            let (s, self_ref_id) = sv_node env s self_ref;
            case propa_list s self_ref_id of
              Some propa \<Rightarrow> fold_opt (\<lambda>pointee s.
                do { pointee_path \<leftarrow> sv_node_path env s pointee;
                     Some (add_new_call_instance callsite pointee_path callee_id s) }) propa s
            | None \<Rightarrow> Some s }
          else Some s }"

definition create_closure_callsite ::
    "('c, 'g, 'cg, 'p, 'f) solver_env \<Rightarrow> ('f, 'p) call_site \<Rightarrow> 'p \<Rightarrow> 'c ty \<Rightarrow> def_id \<Rightarrow> ('c, 'g, 'cg, 'p, 'f) solver \<Rightarrow>
     (('c, 'g, 'cg, 'p, 'f) solver \<times> ('f, 'p) call_site) option" where
  "create_closure_callsite env callsite closure_path closure_ty closure_def_id s =
     (if \<not> (is_closure closure_ty \<or> is_coroutine closure_ty) then None
      else do {
        let new_callsite = (\<lambda>args. call_site_new (call_func callsite) (call_location callsite) args (call_destination callsite));
        case nth_opt (tcx_local_decls (se_tcx env) closure_def_id) 1 of
          Some decl_ty \<Rightarrow>
            if is_ref decl_ty then do {
              let closure_ref_ty = RefTy (se_re_static env) closure_ty True;
              (s, closure_ref_path) \<leftarrow>
                with_acx s (pt_new_aux_local_path (se_tops env) (sv_acx s) (call_func callsite) closure_ref_ty);
              (pag, r) \<leftarrow> add_addr_edge (se_gops env) (sv_pag s) closure_path closure_ref_path;
              addr_edge \<leftarrow> r;
              s \<leftarrow> process_addr env addr_edge (s\<lparr>sv_pag := pag\<rparr>);
              Some (s, new_callsite (closure_ref_path # call_args callsite)) }
            else Some (s, new_callsite (closure_path # call_args callsite))
        | None \<Rightarrow> Some (s, new_callsite (closure_path # call_args callsite)) })"

subsection \<open>Static method calls, dynamic calls and calls of function pointers\<close>

text \<open>The callee of a dynamic call site with the type of the pointee as \<open>Self\<close>.\<close>

definition dyn_callee ::
    "('c, 'g, 'cg, 'p, 'f) solver_env \<Rightarrow> ('c, 'g, 'cg, 'p, 'f) solver \<Rightarrow> ('f, 'p) call_site \<Rightarrow> 'c ty \<Rightarrow>
     (def_id \<times> 'c generic_args) option" where
  "dyn_callee env s callsite pointee_type =
     do { (callee_def_id, gen_args) \<leftarrow> get_dyn_callee_identifier (sv_acx s) (base_from (se_into env) callsite);
          if gen_args = [] then None else Some (callee_def_id, gen_args[0 := TypeKind pointee_type]) }"

definition process_dynamic_dispatch_call ::
    "('c, 'g, 'cg, 'p, 'f) solver_env \<Rightarrow> ('f, 'p) call_site set \<Rightarrow> nat list \<Rightarrow> ('c, 'g, 'cg, 'p, 'f) solver \<Rightarrow>
     ('c, 'g, 'cg, 'p, 'f) solver option" where
  "process_dynamic_dispatch_call env dyn_callsites =
     fold_opt (\<lambda>pointee s.
       do { (s, pointee_path, pointee_type) \<leftarrow> node_path_and_ty env s pointee;
            fold_opt (\<lambda>dyn_callsite s.
              do { (callee_def_id, replaced_args) \<leftarrow> dyn_callee env s dyn_callsite pointee_type;
                   resolved \<leftarrow> try_to_devirtualize (se_tcx env) callee_def_id replaced_args;
                   case resolved of
                     Some (callee_def_id, gen_args) \<Rightarrow>
                       do { (s, func) \<leftarrow> sv_func_id env s callee_def_id gen_args;
                            Some (add_new_call_instance dyn_callsite pointee_path func s) }
                   | None \<Rightarrow> Some s }) (call_order env dyn_callsites) s })"

definition process_fnptr_call ::
    "('c, 'g, 'cg, 'p, 'f) solver_env \<Rightarrow> ('f, 'p) call_site set \<Rightarrow> nat list \<Rightarrow> ('c, 'g, 'cg, 'p, 'f) solver \<Rightarrow>
     ('c, 'g, 'cg, 'p, 'f) solver option" where
  "process_fnptr_call env callsites =
     fold_opt (\<lambda>fn_item_id s.
       do { (s, fn_item, fn_item_ty) \<leftarrow> node_path_and_ty env s fn_item_id;
            (s, fn_item, fn_item_ty) \<leftarrow>
              (if is_fn_ptr fn_item_ty then do {
                 fn_item \<leftarrow> pp_remove_cast (se_pops env) fn_item;
                 (s, ty) \<leftarrow> sv_eval_type env s fn_item;
                 Some (s, fn_item, ty) }
               else Some (s, fn_item, fn_item_ty));
            let call_closure = (\<lambda>d args.
              fold_opt (\<lambda>callsite s.
                do { (s, closure_callsite) \<leftarrow> create_closure_callsite env callsite fn_item fn_item_ty d s;
                     (s, callee_func_id) \<leftarrow> sv_func_id env s d args;
                     add_new_call env closure_callsite callee_func_id s }) (call_order env callsites) s);
            case fn_item_ty of
              FnDef _ _ \<Rightarrow>
                (case pp_value (se_pops env) fn_item of
                   Function func \<Rightarrow> fold_opt (\<lambda>callsite. add_new_call env callsite func) (call_order env callsites) s
                 | _ \<Rightarrow> Some s)
            | Closure d args \<Rightarrow> call_closure d args
            | Coroutine d args \<Rightarrow> call_closure d args
            | _ \<Rightarrow> Some s })"

definition unpack_args_tuple :: "('c, 'g, 'cg, 'p, 'f) solver_env \<Rightarrow> 'p \<Rightarrow> 'c ty \<Rightarrow> 'p list option" where
  "unpack_args_tuple env args_tuple tuple_type =
     (case tuple_type of
        TupleTy tuple_types \<Rightarrow>
          those (map (\<lambda>i. pp_append_projection (se_pops env) args_tuple [Field i]) [0..<length tuple_types])
      | _ \<Rightarrow> Some [])"

text \<open>The call site of the function behind a \<open>Fn*\<close> call: its arguments are the fields of the tuple.\<close>

definition unpacked_callsite ::
    "('c, 'g, 'cg, 'p, 'f) solver_env \<Rightarrow> 'p list \<Rightarrow> ('f, 'p) call_site \<Rightarrow> ('c, 'g, 'cg, 'p, 'f) solver \<Rightarrow>
     (('c, 'g, 'cg, 'p, 'f) solver \<times> ('f, 'p) call_site) option" where
  "unpacked_callsite env first_args callsite s =
     do { args_tuple \<leftarrow> nth_opt (call_args callsite) 1;
          (s, tuple_type) \<leftarrow> sv_eval_type env s args_tuple;
          args \<leftarrow> unpack_args_tuple env args_tuple tuple_type;
          Some (s, call_site_new (call_func callsite) (call_location callsite) (first_args @ args)
                     (call_destination callsite)) }"

definition call_fn_item ::
    "('c, 'g, 'cg, 'p, 'f) solver_env \<Rightarrow> ('f, 'p) call_site set \<Rightarrow> def_id \<Rightarrow> 'c generic_args \<Rightarrow>
     ('c, 'g, 'cg, 'p, 'f) solver \<Rightarrow> ('c, 'g, 'cg, 'p, 'f) solver option" where
  "call_fn_item env callsites d args s =
     do { (d, args) \<leftarrow> resolve_fn_def (se_tcx env) d args;
          (s, callee_func_id) \<leftarrow> sv_func_id env s d args;
          fold_opt (\<lambda>callsite s.
            do { (s, new_callsite) \<leftarrow> unpacked_callsite env [] callsite s;
                 add_new_call env new_callsite callee_func_id s }) (call_order env callsites) s }"

definition call_closure ::
    "('c, 'g, 'cg, 'p, 'f) solver_env \<Rightarrow> ('f, 'p) call_site set \<Rightarrow> def_id \<Rightarrow> 'c generic_args \<Rightarrow>
     ('c, 'g, 'cg, 'p, 'f) solver \<Rightarrow> ('c, 'g, 'cg, 'p, 'f) solver option" where
  "call_closure env callsites d args =
     fold_opt (\<lambda>callsite s.
       do { self_arg \<leftarrow> nth_opt (call_args callsite) 0;
            (s, closure_callsite) \<leftarrow> unpacked_callsite env [self_arg] callsite s;
            (s, callee_func_id) \<leftarrow> sv_func_id env s d args;
            add_new_call env closure_callsite callee_func_id s }) (call_order env callsites)"

definition call_fn_ptr ::
    "('c, 'g, 'cg, 'p, 'f) solver_env \<Rightarrow> ('f, 'p) call_site set \<Rightarrow> nat \<Rightarrow> ('c, 'g, 'cg, 'p, 'f) solver \<Rightarrow>
     ('c, 'g, 'cg, 'p, 'f) solver option" where
  "call_fn_ptr env fntrait_callsites pointee_id s =
     do { (s, callsites) \<leftarrow> fold_opt (\<lambda>callsite (s, found).
            do { (s, c) \<leftarrow> unpacked_callsite env [] callsite s; Some (s, insert c found) })
            (call_order env fntrait_callsites) (s, {});
          s \<leftarrow> (case propa_list s pointee_id of
             Some propa \<Rightarrow> process_fnptr_call env callsites propa s | None \<Rightarrow> Some s);
          s \<leftarrow> (case diff_list s pointee_id of
             Some diff \<Rightarrow> process_fnptr_call env callsites diff s | None \<Rightarrow> Some s);
          Some (s\<lparr>assoc_calls := fold (\<lambda>callsite g. add_fnptr_call g pointee_id callsite)
                    (call_order env callsites) (assoc_calls s)\<rparr>) }"

definition call_fn_object ::
    "('c, 'g, 'cg, 'p, 'f) solver_env \<Rightarrow> ('f, 'p) call_site set \<Rightarrow> 'p \<Rightarrow> 'c ty \<Rightarrow>
     ('c, 'g, 'cg, 'p, 'f) solver \<Rightarrow> ('c, 'g, 'cg, 'p, 'f) solver option" where
  "call_fn_object env fntrait_callsites pointee_path pointee_type =
     fold_opt (\<lambda>callsite s.
       do { (callee_def_id, replaced_args) \<leftarrow> dyn_callee env s callsite pointee_type;
            case tcx_resolve (se_tcx env) RevealAll callee_def_id replaced_args of
              Some (resolved_def_id, instance_args) \<Rightarrow>
                if tcx_is_mir_available (se_tcx env) resolved_def_id then do {
                  (s, func) \<leftarrow> sv_func_id env s resolved_def_id instance_args;
                  Some (add_new_call_instance callsite pointee_path func s) }
                else Some s
            | None \<Rightarrow> Some s }) (call_order env fntrait_callsites)"

definition process_dynamic_fntrait_call ::
    "('c, 'g, 'cg, 'p, 'f) solver_env \<Rightarrow> ('f, 'p) call_site set \<Rightarrow> nat list \<Rightarrow> ('c, 'g, 'cg, 'p, 'f) solver \<Rightarrow>
     ('c, 'g, 'cg, 'p, 'f) solver option" where
  "process_dynamic_fntrait_call env fntrait_callsites =
     fold_opt (\<lambda>pointee_id s.
       do { (s, pointee_path, pointee_type) \<leftarrow> node_path_and_ty env s pointee_id;
            case pointee_type of
              FnDef d args \<Rightarrow> call_fn_item env fntrait_callsites d args s
            | Closure d args \<Rightarrow> call_closure env fntrait_callsites d args s
            | Coroutine d args \<Rightarrow> call_closure env fntrait_callsites d args s
            | FnPtrTy _ \<Rightarrow> call_fn_ptr env fntrait_callsites pointee_id s
            | _ \<Rightarrow> call_fn_object env fntrait_callsites pointee_path pointee_type s })"

subsection \<open>One node\<close>

text \<open>
  A handler takes the set of edges of the node out of its map, processes them, and puts the set
  back; edges that the map got for the node meanwhile are overwritten. \<open>edges_of\<close> and
  \<open>edges_upd\<close> select the map.
\<close>

definition with_taken ::
    "(('g, 'p) pag \<Rightarrow> edge_map) \<Rightarrow> ((edge_map \<Rightarrow> edge_map) \<Rightarrow> ('g, 'p) pag \<Rightarrow> ('g, 'p) pag) \<Rightarrow>
     (nat list \<Rightarrow> ('c, 'g, 'cg, 'p, 'f) solver \<Rightarrow> ('c, 'g, 'cg, 'p, 'f) solver option) \<Rightarrow>
     nat \<Rightarrow> ('c, 'g, 'cg, 'p, 'f) solver \<Rightarrow> ('c, 'g, 'cg, 'p, 'f) solver option" where
  "with_taken edges_of edges_upd process node_id s =
     (case edges_of (sv_pag s) node_id of
        Some edges \<Rightarrow>
          do { s \<leftarrow> process (sorted_list_of_set edges) (s\<lparr>sv_pag := edges_upd (\<lambda>m. m(node_id \<mapsto> {})) (sv_pag s)\<rparr>);
               _ \<leftarrow> edges_of (sv_pag s) node_id;
               Some (s\<lparr>sv_pag := edges_upd (\<lambda>m. m(node_id \<mapsto> edges)) (sv_pag s)\<rparr>) }
      | None \<Rightarrow> Some s)"

definition handle_direct :: "('c, 'g, 'cg, 'p, 'f) solver_env \<Rightarrow> nat \<Rightarrow> ('c, 'g, 'cg, 'p, 'f) solver \<Rightarrow>
    ('c, 'g, 'cg, 'p, 'f) solver option" where
  "handle_direct env =
     with_taken direct_out_edges direct_out_edges_update (fold_opt (\<lambda>edge. propagate env edge True))"

definition handle_gep :: "('c, 'g, 'cg, 'p, 'f) solver_env \<Rightarrow> nat \<Rightarrow> ('c, 'g, 'cg, 'p, 'f) solver \<Rightarrow>
    ('c, 'g, 'cg, 'p, 'f) solver option" where
  "handle_gep env node_id =
     with_taken gep_out_edges gep_out_edges_update (\<lambda>edges s.
       case diff_list s node_id of
         Some diff_pts \<Rightarrow> fold_opt (process_gep env diff_pts) edges s
       | None \<Rightarrow> Some s) node_id"

definition handle_load_and_store :: "('c, 'g, 'cg, 'p, 'f) solver_env \<Rightarrow> nat \<Rightarrow> ('c, 'g, 'cg, 'p, 'f) solver \<Rightarrow>
    ('c, 'g, 'cg, 'p, 'f) solver option" where
  "handle_load_and_store env node_id s =
     (case diff_list s node_id of
        Some diff_pts \<Rightarrow>
          Option.bind
            (with_taken load_out_edges load_out_edges_update (fold_opt (process_load env diff_pts)) node_id s)
            (with_taken store_in_edges store_in_edges_update (fold_opt (process_store env diff_pts)) node_id)
      | None \<Rightarrow> Some s)"

definition handle_cast :: "('c, 'g, 'cg, 'p, 'f) solver_env \<Rightarrow> nat \<Rightarrow> nat \<Rightarrow> ('c, 'g, 'cg, 'p, 'f) solver \<Rightarrow>
    ('c, 'g, 'cg, 'p, 'f) solver option" where
  "handle_cast env n =
     with_taken cast_out_edges cast_out_edges_update (fold_opt (\<lambda>edge. propagate_cast env n edge True))"

definition handle_offset :: "('c, 'g, 'cg, 'p, 'f) solver_env \<Rightarrow> nat \<Rightarrow> ('c, 'g, 'cg, 'p, 'f) solver \<Rightarrow>
    ('c, 'g, 'cg, 'p, 'f) solver option" where
  "handle_offset env = with_taken offset_out_edges offset_out_edges_update (fold_opt (process_offset env))"

definition handle_static_dispatch_instance_call ::
    "('c, 'g, 'cg, 'p, 'f) solver_env \<Rightarrow> nat \<Rightarrow> ('c, 'g, 'cg, 'p, 'f) solver \<Rightarrow> ('c, 'g, 'cg, 'p, 'f) solver option" where
  "handle_static_dispatch_instance_call env node_id s =
     (case (static_dispatch_instance_calls (assoc_calls s) node_id, diff_list s node_id) of
        (Some instance_callsites, Some diff_pts) \<Rightarrow>
          fold_opt (\<lambda>pointee s.
            do { (s, pointee_path, _) \<leftarrow> node_path_and_ty env s pointee;
                 Some (fold (\<lambda>(callsite, callee_id). add_new_call_instance callsite pointee_path callee_id)
                         (instance_order env instance_callsites) s) }) diff_pts s
      | _ \<Rightarrow> Some s)"

definition handle_dynamic_dispatch_call ::
    "('c, 'g, 'cg, 'p, 'f) solver_env \<Rightarrow> nat \<Rightarrow> ('c, 'g, 'cg, 'p, 'f) solver \<Rightarrow> ('c, 'g, 'cg, 'p, 'f) solver option" where
  "handle_dynamic_dispatch_call env node_id s =
     (case (dynamic_dispatch_calls (assoc_calls s) node_id, diff_list s node_id) of
        (Some dyn_callsites, Some diff_pts) \<Rightarrow> process_dynamic_dispatch_call env dyn_callsites diff_pts s
      | _ \<Rightarrow> Some s)"

definition handle_fnptr_call ::
    "('c, 'g, 'cg, 'p, 'f) solver_env \<Rightarrow> nat \<Rightarrow> ('c, 'g, 'cg, 'p, 'f) solver \<Rightarrow> ('c, 'g, 'cg, 'p, 'f) solver option" where
  "handle_fnptr_call env node_id s =
     (case (fnptr_calls (assoc_calls s) node_id, diff_list s node_id) of
        (Some callsites, Some diff_pts) \<Rightarrow> process_fnptr_call env callsites diff_pts s
      | _ \<Rightarrow> Some s)"

definition handle_dynamic_fntrait_call ::
    "('c, 'g, 'cg, 'p, 'f) solver_env \<Rightarrow> nat \<Rightarrow> ('c, 'g, 'cg, 'p, 'f) solver \<Rightarrow> ('c, 'g, 'cg, 'p, 'f) solver option" where
  "handle_dynamic_fntrait_call env node_id s =
     (case (dynamic_fntrait_calls (assoc_calls s) node_id, diff_list s node_id) of
        (Some callsites, Some diff_pts) \<Rightarrow> process_dynamic_fntrait_call env callsites diff_pts s
      | _ \<Rightarrow> Some s)"

definition process_node :: "('c, 'g, 'cg, 'p, 'f) solver_env \<Rightarrow> nat \<Rightarrow> nat \<Rightarrow> ('c, 'g, 'cg, 'p, 'f) solver \<Rightarrow>
    ('c, 'g, 'cg, 'p, 'f) solver option" where
  "process_node env n node_id s =
     do { s \<leftarrow> handle_direct env node_id s;
          s \<leftarrow> handle_load_and_store env node_id s;
          s \<leftarrow> handle_gep env node_id s;
          s \<leftarrow> handle_cast env n node_id s;
          s \<leftarrow> handle_offset env node_id s;
          s \<leftarrow> handle_static_dispatch_instance_call env node_id s;
          s \<leftarrow> handle_dynamic_dispatch_call env node_id s;
          s \<leftarrow> handle_fnptr_call env node_id s;
          s \<leftarrow> handle_dynamic_fntrait_call env node_id s;
          Some (s\<lparr>sv_pt := flush node_pts_ops (sv_pt s) node_id\<rparr>) }"

subsection \<open>The solver\<close>

text \<open>The queue of address edges does not grow while it is read: \<open>process_addr\<close> adds none.\<close>

definition process_all_addr_edges :: "('c, 'g, 'cg, 'p, 'f) solver_env \<Rightarrow> ('c, 'g, 'cg, 'p, 'f) solver \<Rightarrow>
    ('c, 'g, 'cg, 'p, 'f) solver option" where
  "process_all_addr_edges env s =
     fold_opt (\<lambda>edge_id s. process_addr env edge_id (s\<lparr>addr_edge_iter := Suc (addr_edge_iter s)\<rparr>))
       (drop (addr_edge_iter s) (addr_edges_queue (sv_pag s))) s"

definition process_all_inter_proc_edges :: "('c, 'g, 'cg, 'p, 'f) solver_env \<Rightarrow> ('c, 'g, 'cg, 'p, 'f) solver \<Rightarrow>
    ('c, 'g, 'cg, 'p, 'f) solver option" where
  "process_all_inter_proc_edges env s =
     fold_opt (\<lambda>edge_id s. propagate env edge_id False (s\<lparr>inter_proc_edge_iter := tl (inter_proc_edge_iter s)\<rparr>))
       (inter_proc_edge_iter s) s"

definition init_constraints :: "('c, 'g, 'cg, 'p, 'f) solver_env \<Rightarrow> ('c, 'g, 'cg, 'p, 'f) solver \<Rightarrow>
    ('c, 'g, 'cg, 'p, 'f) solver option" where
  "init_constraints env s = Option.bind (process_all_addr_edges env s) (process_all_inter_proc_edges env)"

fun solve_loop :: "('c, 'g, 'cg, 'p, 'f) solver_env \<Rightarrow> nat \<Rightarrow> nat \<Rightarrow> ('c, 'g, 'cg, 'p, 'f) solver \<Rightarrow>
    ('c, 'g, 'cg, 'p, 'f) solver option" where
  "solve_loop env n 0 s = (if worklist s = [] then Some s else None)"
| "solve_loop env n (Suc m) s =
     (case worklist s of
        [] \<Rightarrow> Some s
      | node_id # rest \<Rightarrow> Option.bind (process_node env n node_id (s\<lparr>worklist := rest\<rparr>)) (solve_loop env n m))"

definition solve_worklist :: "('c, 'g, 'cg, 'p, 'f) solver_env \<Rightarrow> nat \<Rightarrow> nat \<Rightarrow> ('c, 'g, 'cg, 'p, 'f) solver \<Rightarrow>
    ('c, 'g, 'cg, 'p, 'f) solver option" where
  "solve_worklist env n m s = Option.bind (init_constraints env s) (solve_loop env n m)"

end
