(* ===== verification/Solver_Sample.thy ===== *)
theory Solver_Sample
  imports Propagator
begin

section \<open>Sample solver runs\<close>

text \<open>
  A concrete environment, the adjacency-list graph and the sample compiler interface, in which
  solver runs are evaluated. Locals 0 to 2 point to records of type \<open>(0, 2)\<close>, the other locals
  are such records, and a field of a record is such a pointer.
\<close>

definition sample_env ::
    "(nat + nat, (path pag_node, pag_edge) list_graph, unit, path, func_id) solver_env" where
  "sample_env =
     \<lparr>se_tcx = sample_tcx, se_fuel = 9, se_gops = list_graph_ops, se_pops = path_ops,
      se_tops = plain_type_ops sample_tcx 9,
      se_text = \<lparr>def_id_debug = (\<lambda>d. []), ty_debug = (\<lambda>t. []), const_scalar = (\<lambda>c. None)\<rparr>,
      se_from_usize = Inl, se_re_static = 0, se_into = (\<lambda>f. f), se_is_reachable_from = (\<lambda>sf f h. None),
      se_is_const = (\<lambda>d. False), cast_constraint = True, stack_filtering = False,
      call_order = (\<lambda>S. []), instance_order = (\<lambda>S. [])\<rparr>"

definition sample_types :: "path \<rightharpoonup> (nat + nat) ty" where
  "sample_types p =
     (case p of
        LocalVariable _ n \<Rightarrow> Some (if n < 3 then RawPtr (Adt (0, 2) []) True else Adt (0, 2) [])
      | QualifiedPath _ _ \<Rightarrow> Some (RawPtr (Adt (0, 2) []) True)
      | _ \<Rightarrow> None)"

definition sample_solver_acx :: "(nat + nat) analysis_context" where
  "sample_solver_acx = (the (acx_new [((0, 7), True, ''main'')] None ''main'' None))\<lparr>path_ty_cache := sample_types\<rparr>"

definition sample_solver ::
    "((path pag_node, pag_edge) list_graph, path) pag \<Rightarrow>
     (nat + nat, (path pag_node, pag_edge) list_graph, unit, path, func_id) solver" where
  "sample_solver pag = propagator_new sample_solver_acx diff_new pag 0 [] assoc_calls_new None"

definition sample_run ::
    "(path \<times> path \<times> pag_edge_enum) list \<Rightarrow>
     (nat + nat, (path pag_node, pag_edge) list_graph, unit, path, func_id) solver option" where
  "sample_run edges =
     Option.bind (pag_add_edges list_graph_ops (pag_new list_graph_ops) edges)
       (\<lambda>(pag, es). solve_worklist sample_env 9 20 (sample_solver pag))"

text \<open>The points-to set of the node of a path.\<close>

definition sample_pts ::
    "(nat + nat, (path pag_node, pag_edge) list_graph, unit, path, func_id) solver \<Rightarrow> path \<Rightarrow> path option list option" where
  "sample_pts s p =
     map_option (\<lambda>n. map (node_path list_graph_ops (sv_pag s)) (pts_iter node_pts_ops (get_cloned_pts s n False)))
       (get_node_id (sv_pag s) p)"

text \<open>\<open>p = &a; a.0 = &b; b.0 = &c; p = (*p).0; q = p\<close>, with \<open>p\<close> the local 1 and \<open>q\<close> the local 2.\<close>

definition traverse_edges :: "(path \<times> path \<times> pag_edge_enum) list" where
  "traverse_edges =
     [(LocalVariable 0 3, LocalVariable 0 1, AddrPAGEdge),
      (LocalVariable 0 4, QualifiedPath (LocalVariable 0 3) [Field 0], AddrPAGEdge),
      (LocalVariable 0 5, QualifiedPath (LocalVariable 0 4) [Field 0], AddrPAGEdge),
      (LocalVariable 0 1, LocalVariable 0 1, LoadPAGEdge [Field 0]),
      (LocalVariable 0 1, LocalVariable 0 2, DirectPAGEdge)]"

text \<open>\<open>p = &a; q = p\<close>.\<close>

definition copy_edges :: "(path \<times> path \<times> pag_edge_enum) list" where
  "copy_edges =
     [(LocalVariable 0 3, LocalVariable 0 1, AddrPAGEdge),
      (LocalVariable 0 1, LocalVariable 0 2, DirectPAGEdge)]"

lemma sample_build:
  "\<exists>pag es. pag_add_edges list_graph_ops (pag_new list_graph_ops) edges = Some (pag, es) \<and>
     pag_ok list_graph_ops list_graph_ok (pag :: ((path pag_node, pag_edge) list_graph, path) pag)"
  using list_pag.pag_add_edges_ok [OF list_pag.pag_ok_new, of edges] by blast

lemma copy_graph:
  assumes "pag_add_edges list_graph_ops (pag_new list_graph_ops) copy_edges = Some (pag, es)"
  shows "pag_graph pag =
     \<lparr>lg_nodes = [\<lparr>pn_path = LocalVariable 0 3\<rparr>, \<lparr>pn_path = LocalVariable 0 1\<rparr>, \<lparr>pn_path = LocalVariable 0 2\<rparr>],
      lg_edges = [(0, 1, \<lparr>pe_kind = AddrPAGEdge\<rparr>), (1, 2, \<lparr>pe_kind = DirectPAGEdge\<rparr>)]\<rparr>"
proof -
  have "map_option (\<lambda>(pag, es). pag_graph pag) (pag_add_edges list_graph_ops (pag_new list_graph_ops) copy_edges) =
    Some \<lparr>lg_nodes = [\<lparr>pn_path = LocalVariable 0 3\<rparr>, \<lparr>pn_path = LocalVariable 0 1\<rparr>, \<lparr>pn_path = LocalVariable 0 2\<rparr>],
      lg_edges = [(0, 1, \<lparr>pe_kind = AddrPAGEdge\<rparr>), (1, 2, \<lparr>pe_kind = DirectPAGEdge\<rparr>)]\<rparr>"
    by code_simp
  then show ?thesis using assms by simp
qed

end
