(* ===== verification/Solver_Invariant.thy ===== *)
theory Solver_Invariant
  imports Solver_Sample Outcome "HOL-Library.Sublist"
begin

section \<open>What the solver keeps\<close>

text \<open>
  Two facts about every operation of the solver, whatever the graph, the types and the calls:
  it only adds (facts, nodes, edges, calls), and a node with facts that have not been propagated
  is on the worklist. The second gives that no fact is pending when the solver returns. The
  states are compared with the one the solver started in; \<open>X\<close> holds the nodes that are allowed
  to be missing from the worklist, the node being processed and the target of a loop that pushes
  it at its end.
\<close>

subsection \<open>Points-to facts\<close>

abbreviation words_of :: "hybrid_points_to_set \<Rightarrow> u64 set" where
  "words_of d \<equiv> hs_set (points_to d)"

abbreviation words_ok :: "hybrid_points_to_set \<Rightarrow> bool" where
  "words_ok d \<equiv> hs_inv (points_to d)"

definition facts_of :: "('c, 'g, 'cg, 'p, 'f) solver \<Rightarrow> nat \<Rightarrow> u64 set" where
  "facts_of s n = pts_of words_of (sv_pt s) n"

definition pending :: "('c, 'g, 'cg, 'p, 'f) solver \<Rightarrow> nat set" where
  "pending s = {n. diff_of words_of (sv_pt s) n \<noteq> {}}"

lemma add_pts_words: "add_pts node_pts_ops pd v e = add_pts hybrid_ops pd v (idx_new e)"
  by (simp add: add_pts_def node_pts_ops_def split: option.split)

lemma flush_words: "flush node_pts_ops pd v = flush hybrid_ops pd v"
  by (simp add: flush_def node_pts_ops_def split: option.split)

subsection \<open>Growth of the graph\<close>

definition pag_fine :: "('g, 'p) pg_ops \<Rightarrow> ('g \<Rightarrow> bool) \<Rightarrow> ('g, 'p) pag \<Rightarrow> bool" where
  "pag_fine gops g_ok pag \<longleftrightarrow> g_ok (pag_graph pag) \<and>
     (\<forall>p i. pag_values pag p = Some i \<longrightarrow> g_node_weight gops (pag_graph pag) i = Some \<lparr>pn_path = p\<rparr>)"

definition pag_grows :: "('g, 'p) pg_ops \<Rightarrow> ('g, 'p) pag \<Rightarrow> ('g, 'p) pag \<Rightarrow> bool" where
  "pag_grows gops pag pag' \<longleftrightarrow>
     g_node_weight gops (pag_graph pag) \<subseteq>\<^sub>m g_node_weight gops (pag_graph pag') \<and>
     g_edge_endpoints gops (pag_graph pag) \<subseteq>\<^sub>m g_edge_endpoints gops (pag_graph pag') \<and>
     g_edge_weight gops (pag_graph pag) \<subseteq>\<^sub>m g_edge_weight gops (pag_graph pag') \<and>
     pag_values pag \<subseteq>\<^sub>m pag_values pag' \<and>
     prefix (addr_edges_queue pag) (addr_edges_queue pag')"

text \<open>The graphs of functions kept along with it.\<close>

definition bodies_of :: "('g, 'p) pag \<Rightarrow> (func_id \<rightharpoonup> func_pag) \<times> (func_id \<rightharpoonup> func_id set) \<times> (func_id \<rightharpoonup> func_id set)" where
  "bodies_of pag = (func_pags pag, promoted_funcs_map pag, involved_static_funcs_map pag)"

lemma bodies_of_maps [simp]:
  "bodies_of (q\<lparr>pag_graph := g\<rparr>) = bodies_of q"
  "bodies_of (q\<lparr>pag_graph := g, pag_values := m\<rparr>) = bodies_of q"
  "bodies_of (direct_out_edges_update f q) = bodies_of q"
  "bodies_of (load_out_edges_update f q) = bodies_of q"
  "bodies_of (store_in_edges_update f q) = bodies_of q"
  "bodies_of (gep_out_edges_update f q) = bodies_of q"
  "bodies_of (cast_out_edges_update f q) = bodies_of q"
  "bodies_of (offset_out_edges_update f q) = bodies_of q"
  by (simp_all add: bodies_of_def)

lemma bodies_of_edges [simp]:
  "bodies_of (incoming_of c q n e) = bodies_of q" "bodies_of (outgoing_of c q n e) = bodies_of q"
  by (cases c; simp add: bodies_of_def add_incoming_addr_edge_def add_incoming_direct_edge_def
      add_incoming_load_edge_def add_incoming_store_edge_def add_incoming_gep_edge_def add_incoming_cast_edge_def
      add_incoming_offset_edge_def queue_addr_edge_def add_outgoing_addr_edge_def add_outgoing_direct_edge_def
      add_outgoing_load_edge_def add_outgoing_store_edge_def add_outgoing_gep_edge_def add_outgoing_cast_edge_def
      add_outgoing_offset_edge_def)+

lemma pag_grows_refl [simp]: "pag_grows gops pag pag"
  by (simp add: pag_grows_def)

lemma pag_grows_trans: "pag_grows gops a b \<Longrightarrow> pag_grows gops b c \<Longrightarrow> pag_grows gops a c"
  unfolding pag_grows_def by (meson map_le_trans prefix_order.trans)

lemma pag_fine_ok: "pag_ok gops g_ok pag \<Longrightarrow> pag_fine gops g_ok pag"
  by (simp add: pag_ok_def pag_fine_def)

text \<open>The maps of edges do not matter here.\<close>

lemma pag_grows_maps [simp]:
  "pag_grows gops pag (direct_out_edges_update f q) = pag_grows gops pag q"
  "pag_grows gops pag (load_out_edges_update f q) = pag_grows gops pag q"
  "pag_grows gops pag (store_in_edges_update f q) = pag_grows gops pag q"
  "pag_grows gops pag (gep_out_edges_update f q) = pag_grows gops pag q"
  "pag_grows gops pag (cast_out_edges_update f q) = pag_grows gops pag q"
  "pag_grows gops pag (offset_out_edges_update f q) = pag_grows gops pag q"
  by (simp_all add: pag_grows_def)

lemma pag_fine_maps [simp]:
  "pag_fine gops g_ok (direct_out_edges_update f q) = pag_fine gops g_ok q"
  "pag_fine gops g_ok (load_out_edges_update f q) = pag_fine gops g_ok q"
  "pag_fine gops g_ok (store_in_edges_update f q) = pag_fine gops g_ok q"
  "pag_fine gops g_ok (gep_out_edges_update f q) = pag_fine gops g_ok q"
  "pag_fine gops g_ok (cast_out_edges_update f q) = pag_fine gops g_ok q"
  "pag_fine gops g_ok (offset_out_edges_update f q) = pag_fine gops g_ok q"
  by (simp_all add: pag_fine_def)

lemma pag_fine_edge_of:
  "pag_fine gops g_ok (incoming_of c q n e) = pag_fine gops g_ok q"
  "pag_fine gops g_ok (outgoing_of c q n e) = pag_fine gops g_ok q"
  by (simp_all add: pag_fine_def)

lemma pag_grows_edge_of:
  "pag_grows gops pag q \<Longrightarrow> pag_grows gops pag (incoming_of c q n e)"
  "pag_grows gops pag q \<Longrightarrow> pag_grows gops pag (outgoing_of c q n e)"
  by (auto simp: pag_grows_def)

context pag_api
begin

lemma get_or_insert_grows:
  assumes "pag_fine gops g_ok pag" "get_or_insert_node gops pag p = (pag', i)"
  shows "pag_fine gops g_ok pag' \<and> pag_grows gops pag pag' \<and> bodies_of pag' = bodies_of pag \<and> pag_values pag' p = Some i"
proof (cases "pag_values pag p")
  case (Some j)
  then show ?thesis using assms by (auto simp: get_or_insert_node_def)
next
  case None
  obtain g n where g: "g_add_node gops (pag_graph pag) (pag_node_new p) = (g, n)" by fastforce
  have gok: "g_ok (pag_graph pag)" using assms(1) by (simp add: pag_fine_def)
  note spec = add_node [OF gok g]
  have "g_node_weight gops (pag_graph pag) n = None" using node_weight_dom [OF gok, of n] spec by auto
  moreover have "pag' = pag\<lparr>pag_graph := g, pag_values := (pag_values pag)(p \<mapsto> n)\<rparr>" "i = n"
    using assms(2) None g by (auto simp: get_or_insert_node_def)
  ultimately show ?thesis
    using assms(1) None spec by (auto simp: pag_fine_def pag_grows_def map_le_def pag_node_new_def dom_def)
qed

lemma pag_edges_mono: "pag_grows gops pag pag' \<Longrightarrow> pag_edges gops pag \<subseteq> pag_edges gops pag'"
  unfolding pag_grows_def pag_edges_def edge_at_def map_le_def by (clarsimp, metis domI)

lemma pag_edges_edge_of [simp]:
  "pag_edges gops (incoming_of c q n e) = pag_edges gops q" "pag_edges gops (outgoing_of c q n e) = pag_edges gops q"
  by (simp_all add: pag_edges_def)

lemma add_edge_grows:
  assumes fine: "pag_fine gops g_ok pag" and add: "Pag.add_edge gops pag p q k = Some (pag', r)"
  shows "pag_fine gops g_ok pag' \<and> pag_grows gops pag pag' \<and> bodies_of pag' = bodies_of pag \<and> (p, q, k) \<in> pag_edges gops pag' \<and>
    (\<forall>e. r = Some e \<longrightarrow> edge_at gops (pag_graph pag') e (the (pag_values pag' p)) (the (pag_values pag' q)) k)"
proof -
  obtain pag1 i where 1: "get_or_insert_node gops pag p = (pag1, i)" by fastforce
  obtain pag2 j where 2: "get_or_insert_node gops pag1 q = (pag2, j)" by fastforce
  have f1: "pag_fine gops g_ok pag1" "pag_grows gops pag pag1" "bodies_of pag1 = bodies_of pag" "pag_values pag1 p = Some i"
    using get_or_insert_grows [OF fine 1] by blast+
  have f2: "pag_fine gops g_ok pag2" "pag_grows gops pag1 pag2" "bodies_of pag2 = bodies_of pag1" "pag_values pag2 q = Some j"
    using get_or_insert_grows [OF f1(1) 2] by blast+
  have gr: "pag_grows gops pag pag2" using pag_grows_trans f1(2) f2(2) by blast
  have i: "pag_values pag2 p = Some i" using f1(4) f2(2) unfolding pag_grows_def map_le_def by (metis domI)
  show ?thesis
  proof (cases "contains_edge gops pag2 i j k")
    case True
    moreover have "g_ok (pag_graph pag2)" using f2(1) by (simp add: pag_fine_def)
    ultimately have "(p, q, k) \<in> pag_edges gops pag2"
      using i f2(4) by (auto simp: pag_edges_def contains_edge_def list_ex_iff edges_connecting edge_at_def)
    then show ?thesis using True add f1(3) f2 gr by (simp add: add_edge_class add_edge_with_def 1 2)
  next
    case False
    have gok: "g_ok (pag_graph pag2)" using f2 by (simp add: pag_fine_def)
    have "g_node_weight gops (pag_graph pag2) i \<noteq> None" "g_node_weight gops (pag_graph pag2) j \<noteq> None"
      using f2(1,4) i by (auto simp: pag_fine_def)
    then have ij: "i < g_node_count gops (pag_graph pag2)" "j < g_node_count gops (pag_graph pag2)"
      using node_weight_dom [OF gok] by blast+
    obtain g e where g: "g_add_edge gops (pag_graph pag2) i j \<lparr>pe_kind = k\<rparr> = Some (g, e)" "g_ok g"
      "g_node_weight gops g = g_node_weight gops (pag_graph pag2)"
      "g_edge_endpoints gops (pag_graph pag2) e = None"
      "g_edge_endpoints gops g = (g_edge_endpoints gops (pag_graph pag2))(e \<mapsto> (i, j))"
      "g_edge_weight gops g = (g_edge_weight gops (pag_graph pag2))(e \<mapsto> \<lparr>pe_kind = k\<rparr>)"
      using add_edge [OF gok ij, of "\<lparr>pe_kind = k\<rparr>"] by blast
    have none: "g_edge_weight gops (pag_graph pag2) e = None"
      using edge_weight_dom [OF gok, of e] g(4) by (cases "g_edge_weight gops (pag_graph pag2) e") auto
    have pag': "pag' = incoming_of (class_of k) (outgoing_of (class_of k) (pag2\<lparr>pag_graph := g\<rparr>) i e) j e" "r = Some e"
      using add False g(1) by (simp_all add: add_edge_class add_edge_with_def 1 2)
    have "pag_fine gops g_ok (pag2\<lparr>pag_graph := g\<rparr>)" using f2(1) g(2,3) by (simp add: pag_fine_def)
    moreover have "pag_grows gops pag2 (pag2\<lparr>pag_graph := g\<rparr>)"
      using g none by (auto simp: pag_grows_def map_le_def dom_def)
    moreover have "(p, q, k) \<in> pag_edges gops (pag2\<lparr>pag_graph := g\<rparr>)"
      using i f2(4) g(5,6) by (auto simp: pag_edges_def edge_at_def)
    ultimately show ?thesis
      using gr i f1(3) f2(3,4) g(5,6) by (auto simp: pag' pag_fine_edge_of edge_at_def intro!: pag_grows_edge_of dest: pag_grows_trans)
  qed
qed

end

subsection \<open>The invariant\<close>

definition solver_inv :: "('c, 'g, 'cg, 'p, 'f) solver_env \<Rightarrow> ('g \<Rightarrow> bool) \<Rightarrow> nat set \<Rightarrow> ('c, 'g, 'cg, 'p, 'f) solver \<Rightarrow> bool" where
  "solver_inv env g_ok X s \<longleftrightarrow>
     pag_fine (se_gops env) g_ok (sv_pag s) \<and> diff_inv words_of words_ok (sv_pt s) \<and>
     pending s \<subseteq> set (worklist s) \<union> X"

definition solver_grows :: "('c, 'g, 'cg, 'p, 'f) solver_env \<Rightarrow> ('c, 'g, 'cg, 'p, 'f) solver \<Rightarrow> ('c, 'g, 'cg, 'p, 'f) solver \<Rightarrow> bool" where
  "solver_grows env s s' \<longleftrightarrow>
     (\<forall>n. facts_of s n \<subseteq> facts_of s' n) \<and> pag_grows (se_gops env) (sv_pag s) (sv_pag s') \<and>
     bodies_of (sv_pag s') = bodies_of (sv_pag s) \<and> acx_grows (sv_acx s) (sv_acx s') \<and>
     prefix (new_calls s) (new_calls s') \<and> prefix (new_call_instances s) (new_call_instances s') \<and>
     calls_grow (assoc_calls s) (assoc_calls s')"

lemma solver_grows_refl [simp]: "solver_grows env s s"
  by (simp add: solver_grows_def)

lemma solver_grows_trans: "solver_grows env a b \<Longrightarrow> solver_grows env b c \<Longrightarrow> solver_grows env a c"
  unfolding solver_grows_def
  by (elim conjE, intro conjI)
    (blast intro: pag_grows_trans acx_grows_trans prefix_order.trans calls_grow_trans | simp)+

named_theorems solver_post \<open>rules for the operations of the solver\<close>

text \<open>What a step looks up without changing anything.\<close>

lemmas post_lookups [solver_post] =
  post_any [of _ "sv_endpoints env s e"] post_any [of _ "get_edge g q e"] post_any [of _ "sv_node_path env s n"]
  post_any [of _ "equivalent_ptr_types t n a b"] post_any [of _ "equal_types t n a b"]
  post_any [of _ "type_filter_pred env a b c"] post_any [of _ "stack_filter_pred env s e p"]
  post_any [of _ "pp_append_projection ops p es"] post_any [of _ "pp_remove_cast ops p"]
  post_any [of _ "get_node_id q p"] post_any [of _ "compatible_heap_cast env a b"]
  post_any [of _ "get_function_reference t f"] post_any [of _ "nth_opt xs i"]
  post_any [of _ "dyn_callee env s c t"] post_any [of _ "try_to_devirtualize t d as"]
  post_any [of _ "resolve_fn_def t d as"] post_any [of _ "unpack_args_tuple env p t"]
  for env g q s e n t a b c p ops es f xs i d as

text \<open>The exception for a target that has got facts and will be pushed.\<close>

definition flagged :: "nat set \<Rightarrow> nat \<Rightarrow> bool \<Rightarrow> nat set" where
  "flagged X dst changed = X \<union> (if changed then {dst} else {})"

lemma flagged_False [simp]: "flagged X dst False = X"
  by (simp add: flagged_def)

locale solver_api = pag_api "se_gops env" g_ok + path_types "se_tops env" type_known
  for env :: "('c, 'g, 'cg, 'p, 'f) solver_env" and g_ok :: "'g \<Rightarrow> bool" and type_known :: "'c analysis_context \<Rightarrow> 'p \<Rightarrow> 'c ty option" +
  fixes s0 :: "('c, 'g, 'cg, 'p, 'f) solver"
begin

definition keeps :: "nat set \<Rightarrow> ('c, 'g, 'cg, 'p, 'f) solver \<Rightarrow> bool" where
  "keeps X s \<longleftrightarrow> solver_inv env g_ok X s \<and> solver_grows env s0 s"

lemma keeps_push: "keeps (flagged X dst changed) s \<Longrightarrow> keeps X (push_back_if changed dst s)"
  by (auto simp: flagged_def keeps_def push_back_if_def solver_inv_def solver_grows_def pending_def facts_of_def)

lemma keeps_updates [simp]:
  "keeps X (s\<lparr>sv_stack_filter := f\<rparr>) = keeps X s"
  "keeps X (s\<lparr>addr_edge_iter := i\<rparr>) = keeps X s"
  "keeps X (s\<lparr>inter_proc_edge_iter := is\<rparr>) = keeps X s"
  by (simp_all add: keeps_def solver_inv_def solver_grows_def pending_def facts_of_def)

lemma keeps_waiting: "keeps X s \<Longrightarrow> calls_grow (assoc_calls s) g \<Longrightarrow> keeps X (s\<lparr>assoc_calls := g\<rparr>)"
  by (auto simp: keeps_def solver_inv_def solver_grows_def pending_def facts_of_def dest: calls_grow_trans)

lemma keeps_fnptrs [simp]:
  "keeps X s \<Longrightarrow> keeps X (s\<lparr>assoc_calls := fold (\<lambda>c g. add_fnptr_call g i c) cs (assoc_calls s)\<rparr>)"
  by (erule keeps_waiting) (rule calls_grow_fnptrs)

lemma keeps_calls:
  "keeps X s \<Longrightarrow> keeps X (s\<lparr>new_calls := new_calls s @ cs\<rparr>)"
  "keeps X s \<Longrightarrow> keeps X (add_new_call_instance callsite p callee s)"
  by (auto simp: keeps_def solver_inv_def solver_grows_def pending_def facts_of_def add_new_call_instance_def
      dest: prefix_order.trans intro: prefix_prefix)

lemma keeps_pag: "keeps X s \<Longrightarrow> pag_fine (se_gops env) g_ok pag' \<Longrightarrow> pag_grows (se_gops env) (sv_pag s) pag' \<Longrightarrow>
    bodies_of pag' = bodies_of (sv_pag s) \<Longrightarrow> keeps X (s\<lparr>sv_pag := pag'\<rparr>)"
  by (auto simp: keeps_def solver_inv_def solver_grows_def pending_def facts_of_def dest: pag_grows_trans)

lemma keeps_acx: "keeps X s \<Longrightarrow> acx_grows (sv_acx s) acx \<Longrightarrow> keeps X (s\<lparr>sv_acx := acx\<rparr>)"
  by (auto simp: keeps_def solver_inv_def solver_grows_def pending_def facts_of_def dest: acx_grows_trans)

lemma keeps_fine: "keeps X s \<Longrightarrow> pag_fine (se_gops env) g_ok (sv_pag s)"
  by (simp add: keeps_def solver_inv_def)

lemma keeps_add_pts:
  assumes "sv_add_pts s dst pointee = (s', c)" "keeps (flagged X dst changed) s"
  shows "keeps (flagged X dst (changed \<or> c)) s'"
proof -
  obtain pd' where pd': "add_pts hybrid_ops (sv_pt s) dst (idx_new pointee) = (pd', c)" "s' = s\<lparr>sv_pt := pd'\<rparr>"
    using assms(1) by (auto simp: sv_add_pts_def add_pts_words split: prod.splits)
  have "diff_inv words_of words_ok (sv_pt s)"
    using assms(2) by (auto simp: flagged_def keeps_def solver_inv_def)
  note spec = hybrid.add_pts_spec [OF this pd'(1) TrueI]
  have "pending s' \<subseteq> pending s \<union> (if c then {dst} else {})"
    using spec by (auto simp: pending_def pd'(2) pts_of_def split: if_splits)
  moreover have "pending s \<subseteq> set (worklist s) \<union> (X \<union> (if changed then {dst} else {}))"
    using assms(2) by (simp add: flagged_def keeps_def solver_inv_def)
  ultimately have pend: "pending s' \<subseteq> set (worklist s) \<union> (X \<union> (if changed \<or> c then {dst} else {}))"
    by (cases c; cases changed; auto)
  have facts: "facts_of s n \<subseteq> facts_of s' n" for n
    using spec by (auto simp: facts_of_def pd'(2) pts_of_def)
  have same: "sv_pag s' = sv_pag s" "worklist s' = worklist s" "sv_pt s' = pd'" "sv_acx s' = sv_acx s"
    "new_calls s' = new_calls s" "new_call_instances s' = new_call_instances s" "assoc_calls s' = assoc_calls s" by (simp_all add: pd'(2))
  have "pag_fine (se_gops env) g_ok (sv_pag s)" "solver_grows env s0 s"
    using assms(2) by (simp_all add: flagged_def keeps_def solver_inv_def)
  moreover have "solver_grows env s s'" using facts by (simp add: solver_grows_def same)
  moreover have "diff_inv words_of words_ok pd'" using spec by blast
  ultimately show ?thesis
    using pend solver_grows_trans by (auto simp: flagged_def keeps_def solver_inv_def same)
qed

lemma post_add_pts [solver_post]:
  assumes "keeps (flagged X dst changed) s" "\<And>s' c. keeps (flagged X dst (changed \<or> c)) s' \<Longrightarrow> post (f s' c) Q"
  shows "post (case sv_add_pts s dst pointee of (s', c) \<Rightarrow> f s' c) Q"
  using assms(2) [OF keeps_add_pts [OF _ assms(1)]] by (auto split: prod.split)

lemma post_fold_keeps [solver_post]:
  assumes "keeps X s" "\<And>x s. keeps X s \<Longrightarrow> post (f x s) (keeps X)" "\<And>s'. keeps X s' \<Longrightarrow> Q s'"
  shows "post (fold_opt f xs s) Q"
  using assms by (rule post_fold)

lemma post_fold_flagged:
  assumes "keeps (flagged X dst c0) s"
    "\<And>x s c. keeps (flagged X dst c) s \<Longrightarrow> post (f x (s, c)) (\<lambda>(s, c). keeps (flagged X dst c) s)"
    "\<And>s' c. keeps (flagged X dst c) s' \<Longrightarrow> Q (s', c)"
  shows "post (fold_opt f xs (s, c0)) Q"
  by (rule post_fold [where P = "\<lambda>(s, c). keeps (flagged X dst c) s"]) (use assms in auto)

subsection \<open>Every operation keeps it\<close>

lemma post_with_acx:
  assumes "keeps X s" "\<And>s' x. keeps X s' \<Longrightarrow> Q (s', x)" "\<And>acx x. r = Some (acx, x) \<Longrightarrow> acx_grows (sv_acx s) acx"
  shows "post (with_acx s r) Q"
  using assms keeps_acx by (auto simp: with_acx_def post_def)

lemma post_acx_eval:
  "keeps X s \<Longrightarrow> (\<And>s' x. keeps X s' \<Longrightarrow> Q (s', x)) \<Longrightarrow>
     post (with_acx s (pt_eval_path_type (se_tops env) (sv_acx s) p)) Q"
  by (erule post_with_acx) (auto intro: eval_grows)

lemma post_acx_func:
  "keeps X s \<Longrightarrow> (\<And>s' x. keeps X s' \<Longrightarrow> Q (s', x)) \<Longrightarrow>
     post (with_acx s (acx_get_func_id (se_tcx env) (se_text env) (se_from_usize env) (sv_acx s) d args)) Q"
  by (erule post_with_acx) (auto intro: func_id_grows)

lemma post_acx_projections:
  "keeps X s \<Longrightarrow> (\<And>s' x. keeps X s' \<Longrightarrow> Q (s', x)) \<Longrightarrow>
     post (with_acx s (acx_pointer_projections (se_tcx env) (se_fuel env) (sv_acx s) ty)) Q"
  by (erule post_with_acx) (auto intro: projections_grow)

lemma post_acx_cast:
  "keeps X s \<Longrightarrow> (\<And>s' x. keeps X s' \<Longrightarrow> Q (s', x)) \<Longrightarrow>
     post (with_acx s (pt_cast_to (se_tops env) (sv_acx s) p ty)) Q"
  by (erule post_with_acx) (auto intro: cast_grows)

lemma post_acx_variant:
  "keeps X s \<Longrightarrow> (\<And>s' x. keeps X s' \<Longrightarrow> Q (s', x)) \<Longrightarrow>
     post (with_acx s (pt_type_variant (se_tops env) (sv_acx s) p ty)) Q"
  by (erule post_with_acx) (auto intro: variant_grows)

lemma post_acx_aux:
  "keeps X s \<Longrightarrow> (\<And>s' x. keeps X s' \<Longrightarrow> Q (s', x)) \<Longrightarrow>
     post (with_acx s (pt_new_aux_local_path (se_tops env) (sv_acx s) fn ty)) Q"
  by (erule post_with_acx) (auto intro: aux_grows)

lemma post_acx_regular:
  "keeps X s \<Longrightarrow> (\<And>s' x. keeps X s' \<Longrightarrow> Q (s', x)) \<Longrightarrow>
     post (with_acx s (pt_regularize (se_tops env) (sv_acx s) p)) Q"
  by (erule post_with_acx) (auto intro: regular_grows)

lemma post_acx_flatten:
  "keeps X s \<Longrightarrow> (\<And>s' x. keeps X s' \<Longrightarrow> Q (s', x)) \<Longrightarrow>
     post (with_acx s (pt_flatten_fields (se_tops env) (sv_acx s) p)) Q"
  by (erule post_with_acx) (auto intro: flatten_grows)

lemmas post_acx [solver_post] =
  post_acx_eval post_acx_func post_acx_projections post_acx_cast
  post_acx_variant post_acx_aux post_acx_regular post_acx_flatten

lemma post_node [solver_post]:
  assumes "keeps X s" "\<And>s' i. keeps X s' \<Longrightarrow> post (f s' i) Q"
  shows "post (case sv_node env s p of (s', i) \<Rightarrow> f s' i) Q"
  using get_or_insert_grows [of "sv_pag s" p] keeps_pag keeps_fine assms
  by (fastforce simp: sv_node_def split: prod.splits)

lemma post_node_type [solver_post]:
  "keeps X s \<Longrightarrow> (\<And>s' p t. keeps X s' \<Longrightarrow> Q (s', p, t)) \<Longrightarrow> post (node_path_and_ty env s n) Q"
  by (auto simp: node_path_and_ty_def sv_eval_type_def intro!: solver_post)

lemma post_eval [solver_post]:
  "keeps X s \<Longrightarrow> (\<And>s' t. keeps X s' \<Longrightarrow> Q (s', t)) \<Longrightarrow> post (sv_eval_type env s p) Q"
  by (auto simp: sv_eval_type_def intro!: solver_post)

lemma post_func_id [solver_post]:
  "keeps X s \<Longrightarrow> (\<And>s' t. keeps X s' \<Longrightarrow> Q (s', t)) \<Longrightarrow> post (sv_func_id env s d as) Q"
  by (auto simp: sv_func_id_def intro!: solver_post)

lemma post_sv_cast_to [solver_post]:
  "keeps X s \<Longrightarrow> (\<And>s' t. keeps X s' \<Longrightarrow> Q (s', t)) \<Longrightarrow> post (sv_cast_to env s p ty) Q"
  by (auto simp: sv_cast_to_def intro!: solver_post)

lemma keeps_set_type [solver_post]: "keeps X s \<Longrightarrow> keeps X (sv_set_type env p t s)"
  unfolding sv_set_type_def using set_grows by (rule keeps_acx [rotated])

lemma keeps_filtered [simp]: "keeps X (sv_collect_filtered_pts e n s) = keeps X s"
  "keeps X (new_edge_from_store_or_load e e' s) = keeps X s"
  by (simp_all add: sv_collect_filtered_pts_def new_edge_from_store_or_load_def)

lemma post_edge:
  assumes "keeps X s" "\<And>s' r. keeps X s' \<Longrightarrow> Q (s', r)"
  shows "post (map_option (\<lambda>(q, r). (s\<lparr>sv_pag := q\<rparr>, r)) (Pag.add_edge (se_gops env) (sv_pag s) p q k)) Q"
proof (rule postI, clarsimp)
  fix pag' r assume "Pag.add_edge (se_gops env) (sv_pag s) p q k = Some (pag', r)"
  then have "pag_fine (se_gops env) g_ok pag'" "pag_grows (se_gops env) (sv_pag s) pag'" "bodies_of pag' = bodies_of (sv_pag s)"
    using add_edge_grows [OF keeps_fine [OF assms(1)]] by blast+
  then show "Q (s\<lparr>sv_pag := pag'\<rparr>, r)" using assms keeps_pag by blast
qed

lemma post_direct_edge [solver_post]:
  "keeps X s \<Longrightarrow> (\<And>s' r. keeps X s' \<Longrightarrow> Q (s', r)) \<Longrightarrow> post (sv_add_direct_edge env s p q) Q"
  using post_edge [of X s Q p q DirectPAGEdge] by (simp add: sv_add_direct_edge_def add_edge_def)

lemma post_cast_edge [solver_post]:
  "keeps X s \<Longrightarrow> (\<And>s' r. keeps X s' \<Longrightarrow> Q (s', r)) \<Longrightarrow> post (sv_add_cast_edge env s p q) Q"
  using post_edge [of X s Q p q CastPAGEdge] by (simp add: sv_add_cast_edge_def add_edge_def)

lemma post_propagate_pointee:
  "keeps (flagged X dst c) s \<Longrightarrow>
     post (propagate_pointee env e dst t u n (s, c)) (\<lambda>(s, c). keeps (flagged X dst c) s)"
  by (auto simp: propagate_pointee_def intro!: solver_post)

lemma post_propagate [solver_post]:
  assumes "keeps X s" "\<And>s'. keeps X s' \<Longrightarrow> Q s'"
  shows "post (propagate env e d s) Q"
proof (cases "sv_endpoints env s e")
  case (Some p)
  obtain src dst where p: "p = (src, dst)" by fastforce
  show ?thesis
    using assms
    by (auto simp: propagate_def Some p Let_def split: option.split
        intro!: solver_post assms(2) post_fold_flagged [where X = X and dst = dst] post_propagate_pointee keeps_push)
qed (simp add: propagate_def)


lemma post_add_pts_start:
  assumes "keeps X s" "\<And>s' c. keeps (flagged X dst c) s' \<Longrightarrow> post (f s' c) Q"
  shows "post (case sv_add_pts s dst pointee of (s', c) \<Rightarrow> f s' c) Q"
  by (rule post_add_pts [where X = X and changed = False]) (use assms in simp_all)

lemma post_addr [solver_post]:
  assumes "keeps X s" "\<And>s'. keeps X s' \<Longrightarrow> Q s'"
  shows "post (process_addr env e s) Q"
  using assms by (auto simp: process_addr_def intro!: solver_post assms(2) post_add_pts_start keeps_push)

lemma post_load [solver_post]:
  "keeps X s \<Longrightarrow> (\<And>s'. keeps X s' \<Longrightarrow> Q s') \<Longrightarrow> post (process_load env ns e s) Q"
  by (auto simp: process_load_def split: pag_edge_enum.split option.split intro!: solver_post)

lemma post_store [solver_post]:
  "keeps X s \<Longrightarrow> (\<And>s'. keeps X s' \<Longrightarrow> Q s') \<Longrightarrow> post (process_store env ns e s) Q"
  by (auto simp: process_store_def split: pag_edge_enum.split option.split intro!: solver_post)

lemma post_node_flagged:
  assumes "keeps (flagged X dst c) s" "\<And>s' i. keeps (flagged X dst c) s' \<Longrightarrow> post (f s' i) Q"
  shows "post (case sv_node env s p of (s', i) \<Rightarrow> f s' i) Q"
  using assms by (rule post_node)

lemma post_gep [solver_post]:
  assumes "keeps X s" "\<And>s'. keeps X s' \<Longrightarrow> Q s'"
  shows "post (process_gep env ns e s) Q"
proof (cases "sv_endpoints env s e")
  case (Some p)
  obtain src dst where p: "p = (src, dst)" by fastforce
  show ?thesis
    using assms
    by (auto simp: process_gep_def Some p split: pag_edge_enum.split
        intro!: solver_post assms(2) post_fold_flagged [where X = X and dst = dst] keeps_push)
qed (simp add: process_gep_def)

lemma keeps_path_pts:
  assumes "add_path_pts env dst p (s, c) = (s', c')" "keeps (flagged X dst c) s"
  shows "keeps (flagged X dst c') s'"
proof -
  obtain s1 i where 1: "sv_node env s p = (s1, i)" by fastforce
  obtain s2 c2 where 2: "sv_add_pts s1 dst i = (s2, c2)" by fastforce
  have "post (case sv_node env s p of (s', i) \<Rightarrow> Some s') (keeps (flagged X dst c))"
    using assms(2) by (rule post_node) simp
  then have "keeps (flagged X dst c) s1" using 1 by simp
  then have "keeps (flagged X dst (c \<or> c2)) s2" by (rule keeps_add_pts [OF 2])
  then show ?thesis using assms(1) by (simp add: add_path_pts_def 1 2)
qed

lemma post_path_pts:
  assumes "keeps (flagged X dst c) s" "\<And>s' c'. keeps (flagged X dst c') s' \<Longrightarrow> post (f s' c') Q"
  shows "post (case add_path_pts env dst p (s, c) of (s', c') \<Rightarrow> f s' c') Q"
proof -
  obtain s' c' where r: "add_path_pts env dst p (s, c) = (s', c')" by fastforce
  show ?thesis using assms(2) [OF keeps_path_pts [OF r assms(1)]] by (simp add: r)
qed

lemma post_cast_and_add:
  "keeps (flagged X dst c) s \<Longrightarrow> post (cast_and_add_pts env dst t n (s, c)) (\<lambda>(s, c). keeps (flagged X dst c) s)"
  by (auto simp: cast_and_add_pts_def split: option.split intro!: solver_post intro: keeps_path_pts)

lemma post_uncast_and_add:
  "keeps (flagged X dst c) s \<Longrightarrow> post (uncast_and_add_fnptr_pts env dst n (s, c)) (\<lambda>(s, c). keeps (flagged X dst c) s)"
  by (auto simp: uncast_and_add_fnptr_pts_def split: option.split intro!: solver_post)

lemma post_sv_cast_heap:
  "keeps (flagged X dst c) s \<Longrightarrow> post (cast_heap_obj env dst t p (s, c)) (\<lambda>(s, c). keeps (flagged X dst c) s)"
  by (auto simp: cast_heap_obj_def split: option.split intro!: solver_post intro: keeps_path_pts)

lemma post_cast_basic:
  "keeps (flagged X dst c) s \<Longrightarrow> post (cast_basic_pointee env e dst t u n (s, c)) (\<lambda>(s, c). keeps (flagged X dst c) s)"
  by (auto simp: cast_basic_pointee_def split: option.split intro!: post_lookups post_sv_cast_heap
      post_acx [where X = "flagged X dst c"] post_sv_cast_to [where X = "flagged X dst c"])
    (erule (1) keeps_path_pts)+

lemma post_add_direct [solver_post]:
  "keeps X s \<Longrightarrow> (\<And>s'. keeps X s' \<Longrightarrow> Q s') \<Longrightarrow> post (add_direct_and_propagate env p q s) Q"
  by (auto simp: add_direct_and_propagate_def split: option.split intro!: solver_post)


subsection \<open>Casts\<close>

text \<open>\<open>rec_ok\<close>: the calls of \<open>propagate_cast\<close> along new edges keep it.\<close>

definition rec_ok ::
    "(nat \<Rightarrow> bool \<Rightarrow> ('c, 'g, 'cg, 'p, 'f) solver \<Rightarrow> ('c, 'g, 'cg, 'p, 'f) solver option) \<Rightarrow> bool" where
  "rec_ok rec \<longleftrightarrow> (\<forall>X e d s. keeps X s \<longrightarrow> post (rec e d s) (keeps X))"

lemma post_rec:
  assumes "rec_ok rec" "keeps X s" "\<And>s'. keeps X s' \<Longrightarrow> Q s'"
  shows "post (rec e d s) Q"
  using assms by (auto simp: rec_ok_def post_def)

lemma post_cast_and_propagate:
  assumes "rec_ok rec" "keeps X s" "\<And>s'. keeps X s' \<Longrightarrow> Q s'"
  shows "post (add_cast_edge_and_propagate env rec p q s) Q"
  using assms(1,2)
  by (auto simp: add_cast_edge_and_propagate_def split: option.split intro!: solver_post post_rec [OF assms(1)] assms(3))

lemma post_pointer_projections:
  "keeps X s \<Longrightarrow> (\<And>s'. keeps X s' \<Longrightarrow> Q s') \<Longrightarrow>
     post (fold_opt (\<lambda>(proj, t) s.
          do { src_field \<leftarrow> pp_append_projection (se_pops env) p proj;
               tgt_field \<leftarrow> pp_append_projection (se_pops env) q proj;
               let s = sv_set_type env tgt_field t (sv_set_type env src_field t s);
               s \<leftarrow> add_direct_and_propagate env src_field tgt_field s;
               add_direct_and_propagate env tgt_field src_field s }) projs s) Q"
  by (erule post_fold_keeps) (auto simp: Let_def split: prod.split intro!: solver_post)

lemma post_field_pair:
  assumes "rec_ok rec" "keeps X s" "\<And>s'. keeps X s' \<Longrightarrow> Q s'"
  shows "post (cast_field_pair env rec p t q u s) Q"
  using assms(2)
  by (auto simp: cast_field_pair_def Let_def
      intro!: solver_post post_cast_and_propagate [OF assms(1)] post_pointer_projections assms(3))

lemma post_fields:
  assumes "rec_ok rec" "keeps X s"
  shows "post (cast_between_flattened_fields env rec srcs tgts s) (keeps X)"
  using assms(2)
proof (induction "length srcs + length tgts" arbitrary: srcs tgts s rule: less_induct)
  case less
  show ?case
  proof (cases "srcs = [] \<or> tgts = []")
    case False
    then obtain a p t ss b q u ts where l: "srcs = (a, p, t) # ss" "tgts = (b, q, u) # ts"
      by (metis neq_Nil_conv prod_cases3)
    show ?thesis
      using less.hyps [of srcs ts s] less.hyps [of ss tgts s] less.hyps [of ss ts] less.prems
      by (auto simp: l intro!: post_field_pair [OF assms(1)])
  next
    case True
    then have "cast_between_flattened_fields env rec srcs tgts s = Some s" by (cases srcs) auto
    then show ?thesis using less.prems by simp
  qed
qed

lemma post_cast_pointee:
  assumes "rec_ok rec" "keeps (flagged X dst c) s"
  shows "post (cast_pointee env rec e dst t n (s, c)) (\<lambda>(s, c). keeps (flagged X dst c) s)"
proof -
  have walk: "post (cast_between_flattened_fields env rec fs gs s) (\<lambda>s. keeps Y s)" if "keeps Y s" for fs gs s Y
    using post_fields [OF assms(1) that] .
  show ?thesis
    using assms(2)
    by (auto simp: cast_pointee_def Let_def split: option.split
        intro!: solver_post post_path_pts walk)
qed

lemma post_cast_step:
  assumes "rec_ok rec" "keeps X s" "\<And>s'. keeps X s' \<Longrightarrow> Q s'"
  shows "post (propagate_cast_step env rec e d s) Q"
proof (cases "sv_endpoints env s e")
  case (Some p)
  obtain src dst where p: "p = (src, dst)" by fastforce
  show ?thesis
    using assms(2)
    by (auto simp: propagate_cast_step_def Some p Let_def
        intro!: solver_post assms(3) post_fold_flagged [where X = X and dst = dst] keeps_push
          post_cast_and_add post_uncast_and_add post_cast_basic post_cast_pointee [OF assms(1)])
qed (simp add: propagate_cast_step_def)

lemma post_sv_cast: "rec_ok (propagate_cast env n)"
  by (induction n) (auto simp: rec_ok_def intro!: post_cast_step)

lemmas post_propagate_cast [solver_post] = post_rec [OF post_sv_cast]


subsection \<open>Calls\<close>

lemma post_new_call [solver_post]:
  assumes "keeps X s" "\<And>s'. keeps X s' \<Longrightarrow> Q s'"
  shows "post (add_new_call env callsite callee s) Q"
  using assms(1)
  by (auto simp: add_new_call_def Let_def split: option.split intro!: solver_post keeps_calls assms(2))

lemma post_addr_edge:
  assumes "keeps X s" "\<And>q r. keeps X (s\<lparr>sv_pag := q\<rparr>) \<Longrightarrow> Q (q, r)"
  shows "post (add_addr_edge (se_gops env) (sv_pag s) p q) Q"
proof (rule postI, clarify)
  fix q' r assume "add_addr_edge (se_gops env) (sv_pag s) p q = Some (q', r)"
  then have "Pag.add_edge (se_gops env) (sv_pag s) p q AddrPAGEdge = Some (q', r)" by (simp add: add_edge_def)
  from add_edge_grows [OF keeps_fine [OF assms(1)] this] show "Q (q', r)"
    using assms keeps_pag by blast
qed

lemma post_closure_callsite [solver_post]:
  assumes "keeps X s" "\<And>s' c. keeps X s' \<Longrightarrow> Q (s', c)"
  shows "post (create_closure_callsite env callsite p t d s) Q"
  using assms(1)
  by (auto simp: create_closure_callsite_def Let_def split: option.split
      intro!: solver_post post_addr_edge post_any [of _ "r :: nat option" for r] assms(2))

lemma post_dynamic_dispatch [solver_post]:
  "keeps X s \<Longrightarrow> (\<And>s'. keeps X s' \<Longrightarrow> Q s') \<Longrightarrow> post (process_dynamic_dispatch_call env cs ns s) Q"
  by (auto simp: process_dynamic_dispatch_call_def split: option.split intro!: solver_post keeps_calls)

lemma post_call_closures:
  assumes "keeps X s" "\<And>s'. keeps X s' \<Longrightarrow> Q s'"
  shows "post (fold_opt (\<lambda>callsite s.
           do { (s, closure_callsite) \<leftarrow> create_closure_callsite env callsite p t d s;
                (s, callee_func_id) \<leftarrow> sv_func_id env s d as;
                add_new_call env closure_callsite callee_func_id s }) cs s) Q"
  using assms(1) by (rule post_fold_keeps) (auto intro!: solver_post assms(2))

lemma post_call_fn_items:
  "keeps X s \<Longrightarrow> (\<And>s'. keeps X s' \<Longrightarrow> Q s') \<Longrightarrow>
     post (case p of Function func \<Rightarrow> fold_opt (\<lambda>callsite. add_new_call env callsite func) cs s | _ \<Rightarrow> Some s) Q"
  by (cases p) (auto intro!: solver_post)

lemma post_fn_pointee:
  assumes "keeps X s" "\<And>d as. post (f d as) (keeps X)"
  shows "post (case t of
      FnDef _ _ \<Rightarrow> (case p of Function func \<Rightarrow> fold_opt (\<lambda>callsite. add_new_call env callsite func) cs s | _ \<Rightarrow> Some s)
    | Closure d as \<Rightarrow> f d as | Coroutine d as \<Rightarrow> f d as | _ \<Rightarrow> Some s) (keeps X)"
  using assms by (cases t) (auto intro!: post_call_fn_items)

lemma post_fnptr [solver_post]:
  assumes "keeps X s" "\<And>s'. keeps X s' \<Longrightarrow> Q s'"
  shows "post (process_fnptr_call env cs ns s) Q"
  unfolding process_fnptr_call_def Let_def
  by (rule post_fold_keeps [OF assms(1) _ assms(2)])
    (auto intro!: solver_post post_fn_pointee post_call_closures)

lemma post_unpacked [solver_post]:
  "keeps X s \<Longrightarrow> (\<And>s' c. keeps X s' \<Longrightarrow> Q (s', c)) \<Longrightarrow> post (unpacked_callsite env args c s) Q"
  by (auto simp: unpacked_callsite_def intro!: solver_post)

lemma post_sv_fn_item [solver_post]:
  "keeps X s \<Longrightarrow> (\<And>s'. keeps X s' \<Longrightarrow> Q s') \<Longrightarrow> post (call_fn_item env cs d as s) Q"
  by (auto simp: call_fn_item_def intro!: solver_post)

lemma post_sv_closure [solver_post]:
  "keeps X s \<Longrightarrow> (\<And>s'. keeps X s' \<Longrightarrow> Q s') \<Longrightarrow> post (call_closure env cs d as s) Q"
  by (auto simp: call_closure_def intro!: solver_post)

lemma post_unpack_all:
  assumes "keeps X s" "\<And>s' cs. keeps X s' \<Longrightarrow> Q (s', cs)"
  shows "post (fold_opt (\<lambda>callsite (s, found).
            do { (s, c) \<leftarrow> unpacked_callsite env [] callsite s; Some (s, insert c found) }) cs (s, {})) Q"
  by (rule post_fold [where P = "\<lambda>(s, found). keeps X s"]) (use assms in \<open>auto intro!: solver_post\<close>)

lemma post_sv_fn_ptr [solver_post]:
  "keeps X s \<Longrightarrow> (\<And>s'. keeps X s' \<Longrightarrow> Q s') \<Longrightarrow> post (call_fn_ptr env cs n s) Q"
  by (auto simp: call_fn_ptr_def split: option.split intro!: solver_post post_unpack_all)

lemma post_fn_object [solver_post]:
  "keeps X s \<Longrightarrow> (\<And>s'. keeps X s' \<Longrightarrow> Q s') \<Longrightarrow> post (call_fn_object env cs p t s) Q"
  by (auto simp: call_fn_object_def split: option.split intro!: solver_post keeps_calls)

lemma post_dynamic_fntrait [solver_post]:
  "keeps X s \<Longrightarrow> (\<And>s'. keeps X s' \<Longrightarrow> Q s') \<Longrightarrow> post (process_dynamic_fntrait_call env cs ns s) Q"
  by (auto simp: process_dynamic_fntrait_call_def split: ty.split intro!: solver_post)

subsection \<open>Handlers\<close>

lemma post_taken:
  assumes s: "keeps X s" and Q: "\<And>s'. keeps X s' \<Longrightarrow> Q s'"
    and proc: "\<And>es s. keeps X s \<Longrightarrow> post (process es s) (keeps X)"
    and upd: "\<And>f q. pag_fine (se_gops env) g_ok (edges_upd f q) = pag_fine (se_gops env) g_ok q"
      "\<And>f q. pag_grows (se_gops env) q (edges_upd f q)" "\<And>f q. bodies_of (edges_upd f q) = bodies_of q"
  shows "post (with_taken edges_of edges_upd process n s) Q"
proof (cases "edges_of (sv_pag s) n")
  case (Some es)
  have put: "keeps X (s'\<lparr>sv_pag := edges_upd f (sv_pag s')\<rparr>)" if "keeps X s'" for s' f
    using keeps_pag [OF that] keeps_fine [OF that] upd by blast
  show ?thesis
    using proc [OF put [OF s]] put Q by (simp add: with_taken_def Some) (auto simp: post_def)
qed (use s Q in \<open>simp add: with_taken_def\<close>)

lemma post_handle_direct [solver_post]:
  "keeps X s \<Longrightarrow> (\<And>s'. keeps X s' \<Longrightarrow> Q s') \<Longrightarrow> post (handle_direct env n s) Q"
  unfolding handle_direct_def by (rule post_taken) (auto intro!: solver_post)

lemma post_handle_gep [solver_post]:
  "keeps X s \<Longrightarrow> (\<And>s'. keeps X s' \<Longrightarrow> Q s') \<Longrightarrow> post (handle_gep env n s) Q"
  unfolding handle_gep_def by (rule post_taken) (auto split: option.split intro!: solver_post)

lemma post_handle_load_and_store [solver_post]:
  assumes "keeps X s" "\<And>s'. keeps X s' \<Longrightarrow> Q s'"
  shows "post (handle_load_and_store env n s) Q"
proof -
  have load: "post (with_taken load_out_edges load_out_edges_update (fold_opt (process_load env ns)) n s) R"
    if "keeps X s" "\<And>s'. keeps X s' \<Longrightarrow> R s'" for ns R s
    using that by (rule post_taken) (auto intro!: solver_post)
  have store: "post (with_taken store_in_edges store_in_edges_update (fold_opt (process_store env ns)) n s) R"
    if "keeps X s" "\<And>s'. keeps X s' \<Longrightarrow> R s'" for ns R s
    using that by (rule post_taken) (auto intro!: solver_post)
  show ?thesis using assms by (auto simp: handle_load_and_store_def split: option.split intro!: load store)
qed

lemma post_handle_cast [solver_post]:
  "keeps X s \<Longrightarrow> (\<And>s'. keeps X s' \<Longrightarrow> Q s') \<Longrightarrow> post (handle_cast env m n s) Q"
  unfolding handle_cast_def by (rule post_taken) (auto intro!: solver_post)

lemma post_handle_offset [solver_post]:
  "keeps X s \<Longrightarrow> (\<And>s'. keeps X s' \<Longrightarrow> Q s') \<Longrightarrow> post (handle_offset env n s) Q"
  unfolding handle_offset_def by (rule post_taken) (auto simp: process_offset_def intro!: solver_post)

lemma keeps_instance_calls:
  "keeps X s \<Longrightarrow> keeps X (fold (\<lambda>(callsite, callee_id). add_new_call_instance callsite p callee_id) cs s)"
  by (induction cs arbitrary: s) (auto intro!: keeps_calls)

lemma post_handle_static_dispatch [solver_post]:
  "keeps X s \<Longrightarrow> (\<And>s'. keeps X s' \<Longrightarrow> Q s') \<Longrightarrow> post (handle_static_dispatch_instance_call env n s) Q"
  by (auto simp: handle_static_dispatch_instance_call_def split: option.split intro!: solver_post keeps_instance_calls)

lemma post_handle_calls [solver_post]:
  "keeps X s \<Longrightarrow> (\<And>s'. keeps X s' \<Longrightarrow> Q s') \<Longrightarrow> post (handle_dynamic_dispatch_call env n s) Q"
  "keeps X s \<Longrightarrow> (\<And>s'. keeps X s' \<Longrightarrow> Q s') \<Longrightarrow> post (handle_fnptr_call env n s) Q"
  "keeps X s \<Longrightarrow> (\<And>s'. keeps X s' \<Longrightarrow> Q s') \<Longrightarrow> post (handle_dynamic_fntrait_call env n s) Q"
  by (auto simp: handle_dynamic_dispatch_call_def handle_fnptr_call_def handle_dynamic_fntrait_call_def
      split: option.split intro!: solver_post)

lemma keeps_flush:
  assumes "keeps (insert n X) s"
  shows "keeps X (s\<lparr>sv_pt := flush node_pts_ops (sv_pt s) n\<rparr>)"
proof -
  have "diff_inv words_of words_ok (sv_pt s)" using assms by (simp add: keeps_def solver_inv_def)
  note spec = hybrid.flush_spec [OF this, of n]
  have "pending (s\<lparr>sv_pt := flush node_pts_ops (sv_pt s) n\<rparr>) = pending s - {n}"
    using spec by (auto simp: pending_def flush_words)
  moreover have "facts_of (s\<lparr>sv_pt := flush node_pts_ops (sv_pt s) n\<rparr>) m = facts_of s m" for m
    using spec by (simp add: facts_of_def flush_words)
  moreover have "diff_inv words_of words_ok (flush node_pts_ops (sv_pt s) n)" using spec by (simp add: flush_words)
  ultimately show ?thesis using assms by (auto simp: keeps_def solver_inv_def solver_grows_def)
qed

lemma post_process_node [solver_post]:
  assumes "keeps (insert n X) s" "\<And>s'. keeps X s' \<Longrightarrow> Q s'"
  shows "post (process_node env m n s) Q"
  using assms(1) by (auto simp: process_node_def intro!: solver_post assms(2) keeps_flush)

lemma post_init [solver_post]:
  "keeps X s \<Longrightarrow> (\<And>s'. keeps X s' \<Longrightarrow> Q s') \<Longrightarrow> post (init_constraints env s) Q"
  by (auto simp: init_constraints_def process_all_addr_edges_def process_all_inter_proc_edges_def intro!: solver_post)

lemma keeps_pop: "keeps X s \<Longrightarrow> worklist s = n # rest \<Longrightarrow> keeps (insert n X) (s\<lparr>worklist := rest\<rparr>)"
  by (auto simp: keeps_def solver_inv_def solver_grows_def pending_def facts_of_def)

lemma post_loop: "keeps X s \<Longrightarrow> post (solve_loop env n m s) (\<lambda>s'. keeps X s' \<and> worklist s' = [])"
proof (induction m arbitrary: s)
  case (Suc m)
  show ?case using Suc by (auto split: list.split intro!: post_process_node dest: keeps_pop)
qed simp

lemma post_solve: "keeps X s \<Longrightarrow> post (solve_worklist env n m s) (\<lambda>s'. keeps X s' \<and> worklist s' = [])"
  unfolding solve_worklist_def using post_loop by (auto intro!: solver_post)

end

text \<open>The laws of the graph are all that the invariant needs: it holds on the adjacency-list graph.\<close>

interpretation list_solver: solver_api "env\<lparr>se_gops := list_graph_ops, se_tops := plain_type_ops tcx fu\<rparr>" list_graph_ok
    get_path_rustc_type s0 for env s0 tcx fu
  unfolding solver_api_def pag_api_def by (simp add: list_graph.graph_api_axioms plain_types.path_types_axioms)

lemma solver_inv_start:
  "pag_ok (se_gops env) g_ok (sv_pag s) \<Longrightarrow> sv_pt s = diff_new \<Longrightarrow> solver_inv env g_ok {} s"
  using hybrid.diff_inv_new by (simp add: solver_inv_def pag_fine_ok pending_def diff_new_def)

lemma sample_env_gops: "se_gops sample_env = list_graph_ops" "sample_env\<lparr>se_gops := list_graph_ops\<rparr> = sample_env"
  by (simp_all add: sample_env_def)

lemma sample_run_returns:
  assumes "sample_run edges \<noteq> None"
  shows "\<exists>pag es s'. pag_add_edges list_graph_ops (pag_new list_graph_ops) edges = Some (pag, es) \<and>
    pag_ok list_graph_ops list_graph_ok pag \<and> solve_worklist sample_env 9 20 (sample_solver pag) = Some s' \<and>
    solver_inv sample_env list_graph_ok {} (sample_solver pag)"
proof -
  obtain pag es where pag: "pag_add_edges list_graph_ops (pag_new list_graph_ops) edges = Some (pag, es)"
    "pag_ok list_graph_ops list_graph_ok pag" using sample_build by blast
  then have "solver_inv sample_env list_graph_ok {} (sample_solver pag)"
    by (intro solver_inv_start) (simp_all add: sample_env_gops sample_solver_def propagator_new_def)
  then show ?thesis using assms pag by (auto simp: sample_run_def)
qed

subsection \<open>Properties\<close>

text \<open>
  C3: a run of the solver that returns only adds: it keeps every fact, node, edge, pending call and
  function id it started with, leaves the graphs of functions alone, keeps the graph and the points-to data well formed, and ends with an empty
  worklist and no fact that is still waiting to be propagated. This holds for any graph that obeys
  the laws of the graph crate, with all kinds of edges and calls.
\<close>

theorem solve_worklist_safe:
  fixes env :: "('c, 'g, 'cg, 'p, 'f) solver_env"
  assumes "graph_api (se_gops env) g_ok" "path_types (se_tops env) type_known" "solver_inv env g_ok {} s" "solve_worklist env n m s = Some s'"
  shows "worklist s' = [] \<and> pending s' = {} \<and> solver_grows env s s' \<and> solver_inv env g_ok {} s'"
proof -
  have api: "solver_api env g_ok type_known" using assms(1,2) by (intro solver_api.intro pag_api.intro)
  have "solver_api.keeps env g_ok s {} s" using assms(3) by (simp add: solver_api.keeps_def [OF api])
  from solver_api.post_solve [OF api this, of n m] assms(4)
  have "solver_api.keeps env g_ok s {} s' \<and> worklist s' = []" by (auto dest: postD)
  then show ?thesis by (auto simp: solver_api.keeps_def [OF api] solver_inv_def)
qed

theorem solve_worklist_safe_witness:
  "\<exists>pag es s'. pag_add_edges list_graph_ops (pag_new list_graph_ops) traverse_edges = Some (pag, es) \<and>
     solve_worklist sample_env 9 20 (sample_solver pag) = Some s' \<and> worklist s' = [] \<and> pending s' = {}"
proof -
  have "sample_run traverse_edges \<noteq> None" by code_simp
  then obtain pag es s' where 1: "pag_add_edges list_graph_ops (pag_new list_graph_ops) traverse_edges = Some (pag, es)"
    "solve_worklist sample_env 9 20 (sample_solver pag) = Some s'"
    "solver_inv sample_env list_graph_ok {} (sample_solver pag)"
    using sample_run_returns by blast
  have "graph_api (se_gops sample_env) list_graph_ok" unfolding sample_env_gops by (rule list_graph.graph_api_axioms)
  moreover have "path_types (se_tops sample_env) get_path_rustc_type"
    using plain_types.path_types_axioms by (simp add: sample_env_def)
  ultimately show ?thesis using solve_worklist_safe [OF _ _ 1(3,2)] 1 by blast
qed


end
