(* ===== verification/Solver_Exact.thy ===== *)
theory Solver_Exact
  imports Solver_Invariant
begin

section \<open>The solver computes the least solution\<close>

text \<open>
  For a graph whose edges take addresses and copy pointers (address, direct and offset edges) and
  no waiting calls: the solver returns within as many rounds as there are pairs of nodes, and the
  points-to sets are the least ones closed under the edges and their type filter. Every node of
  the graph has its type in the context, as the translation of function bodies leaves it.
\<close>

subsection \<open>The constraints and their least solution\<close>

definition env_edge :: "('c, 'g, 'cg, 'p, 'f) solver_env \<Rightarrow> 'g \<Rightarrow> nat \<Rightarrow> nat \<Rightarrow> nat \<Rightarrow> edge_class \<Rightarrow> bool" where
  "env_edge env g e a b c \<longleftrightarrow> (\<exists>k. edge_at (se_gops env) g e a b k \<and> class_of k = c)"

text \<open>What the filters of \<open>propagate\<close> let pass from \<open>a\<close> to \<open>b\<close>, by the types \<open>ty\<close> of the nodes.\<close>

definition lets_pass :: "('c, 'g, 'cg, 'p, 'f) solver_env \<Rightarrow> (nat \<Rightarrow> 'c ty) \<Rightarrow> nat \<Rightarrow> nat \<Rightarrow> nat \<Rightarrow> bool" where
  "lets_pass env ty a b obj \<longleftrightarrow>
     type_filter_pred env (ty obj) (get_dereferenced_type (se_tcx env) (ty a))
       (get_dereferenced_type (se_tcx env) (ty b)) = Some False"

definition same_pointer :: "('c, 'g, 'cg, 'p, 'f) solver_env \<Rightarrow> (nat \<Rightarrow> 'c ty) \<Rightarrow> nat \<Rightarrow> nat \<Rightarrow> bool" where
  "same_pointer env ty a b \<longleftrightarrow> equivalent_ptr_types (se_tcx env) (se_fuel env) (ty a) (ty b) = Some True"

inductive flows :: "('c, 'g, 'cg, 'p, 'f) solver_env \<Rightarrow> (nat \<Rightarrow> 'c ty) \<Rightarrow> 'g \<Rightarrow> nat \<Rightarrow> nat \<Rightarrow> bool"
  for env ty g where
  addr: "env_edge env g e obj v AddrE \<Longrightarrow> flows env ty g obj v"
| copy: "flows env ty g obj a \<Longrightarrow> env_edge env g e a b c \<Longrightarrow> c \<in> {DirectE, OffsetE} \<Longrightarrow>
    same_pointer env ty a b \<Longrightarrow> lets_pass env ty a b obj \<Longrightarrow> flows env ty g obj b"

inductive_cases flowsE: "flows env ty g obj v"

text \<open>
  The hypotheses: the graph is well formed and every node has a type that is in the context (so
  that evaluating it changes nothing), the comparisons of these types end, nothing is filtered by
  the stack; every edge takes an address or copies, and no call waits for facts.
\<close>

definition typed_graph ::
    "('c, 'g, 'cg, 'p, 'f) solver_env \<Rightarrow> ('g \<Rightarrow> bool) \<Rightarrow> (nat \<Rightarrow> 'c ty) \<Rightarrow> ('c, 'g, 'cg, 'p, 'f) solver \<Rightarrow> bool" where
  "typed_graph env g_ok ty s \<longleftrightarrow>
     graph_api (se_gops env) g_ok \<and> g_ok (pag_graph (sv_pag s)) \<and>
     g_node_count (se_gops env) (pag_graph (sv_pag s)) \<le> 2 ^ 64 \<and>
     (\<forall>n < g_node_count (se_gops env) (pag_graph (sv_pag s)). \<exists>p. sv_node_path env s n = Some p \<and>
        pt_eval_path_type (se_tops env) (sv_acx s) p = Some (sv_acx s, ty n)) \<and>
     (\<forall>a b. equivalent_ptr_types (se_tcx env) (se_fuel env) (ty a) (ty b) \<noteq> None \<and>
        equal_types (se_tcx env) (se_fuel env) (ty a) (get_dereferenced_type (se_tcx env) (ty b)) \<noteq> None) \<and>
     \<not> stack_filtering env"

definition assignments_only ::
    "('c, 'g, 'cg, 'p, 'f) solver_env \<Rightarrow> ('g \<Rightarrow> bool) \<Rightarrow> (nat \<Rightarrow> 'c ty) \<Rightarrow> ('c, 'g, 'cg, 'p, 'f) solver \<Rightarrow> bool" where
  "assignments_only env g_ok ty s \<longleftrightarrow>
     typed_graph env g_ok ty s \<and> pag_ok (se_gops env) g_ok (sv_pag s) \<and>
     (\<forall>e a b c. env_edge env (pag_graph (sv_pag s)) e a b c \<longrightarrow> c \<in> {AddrE, DirectE, OffsetE}) \<and>
     assoc_calls s = assoc_calls_new"

abbreviation ids_of :: "hybrid_points_to_set \<Rightarrow> nat set" where
  "ids_of d \<equiv> idx_index ` hs_set (points_to d)"

text \<open>Only the facts and the worklist of the solver change.\<close>

definition with_facts :: "('c, 'g, 'cg, 'p, 'f) solver \<Rightarrow> node_pts \<Rightarrow> nat list \<Rightarrow> ('c, 'g, 'cg, 'p, 'f) solver" where
  "with_facts s pd w = s\<lparr>sv_pt := pd, worklist := w\<rparr>"

lemma with_facts_simps [simp]:
  "sv_pt (with_facts s pd w) = pd" "worklist (with_facts s pd w) = w" "sv_pag (with_facts s pd w) = sv_pag s"
  "sv_acx (with_facts s pd w) = sv_acx s" "assoc_calls (with_facts s pd w) = assoc_calls s"
  "with_facts s pd w\<lparr>sv_pt := pd'\<rparr> = with_facts s pd' w" "with_facts s pd w\<lparr>worklist := w'\<rparr> = with_facts s pd w'"
  "with_facts s pd w\<lparr>sv_acx := sv_acx s\<rparr> = with_facts s pd w" "with_facts s pd w\<lparr>sv_pag := sv_pag s\<rparr> = with_facts s pd w"
  "sv_node_path env (with_facts s pd w) n = sv_node_path env s n"
  "sv_endpoints env (with_facts s pd w) e = sv_endpoints env s e"
  by (simp_all add: with_facts_def sv_node_path_def sv_endpoints_def)

lemma with_facts_same: "with_facts s (sv_pt s) (worklist s) = s"
  by (simp add: with_facts_def)

lemma type_filter_total:
  assumes "typed_graph env g_ok ty s"
  shows "type_filter_pred env (ty obj) t (get_dereferenced_type (se_tcx env) (ty b)) \<noteq> None"
proof -
  have "equal_types (se_tcx env) (se_fuel env) (ty obj) (get_dereferenced_type (se_tcx env) (ty b)) \<noteq> None"
    using assms by (simp add: typed_graph_def)
  then show ?thesis by (auto simp: type_filter_pred_def)
qed

lemma node_typed:
  assumes "typed_graph env g_ok ty s" "n < g_node_count (se_gops env) (pag_graph (sv_pag s))"
  shows "\<exists>p. node_path_and_ty env (with_facts s pd w) n = Some (with_facts s pd w, p, ty n)"
proof -
  obtain p where "sv_node_path env s n = Some p" "pt_eval_path_type (se_tops env) (sv_acx s) p = Some (sv_acx s, ty n)"
    using assms by (auto simp: typed_graph_def)
  then show ?thesis by (simp add: node_path_and_ty_def sv_eval_type_def with_acx_def)
qed

subsection \<open>Propagation along one edge\<close>

definition passed :: "('c, 'g, 'cg, 'p, 'f) solver_env \<Rightarrow> (nat \<Rightarrow> 'c ty) \<Rightarrow> nat \<Rightarrow> nat \<Rightarrow> nat set \<Rightarrow> nat set" where
  "passed env ty a b objs = {obj \<in> objs. lets_pass env ty a b obj}"

text \<open>The facts \<open>pd'\<close> are those of \<open>pd\<close> and \<open>new\<close> at \<open>b\<close>, the new ones pending.\<close>

definition adds_facts :: "node_pts \<Rightarrow> nat \<Rightarrow> nat set \<Rightarrow> node_pts \<Rightarrow> bool" where
  "adds_facts pd b new pd' \<longleftrightarrow> diff_inv ids_of words_ok pd' \<and>
     (\<forall>v. propa_of ids_of pd' v = propa_of ids_of pd v) \<and>
     (\<forall>v. diff_of ids_of pd' v = (if v = b then diff_of ids_of pd v \<union> (new - propa_of ids_of pd b) else diff_of ids_of pd v))"

lemma adds_facts_trans:
  "adds_facts pd b new pd' \<Longrightarrow> adds_facts pd' b new' pd'' \<Longrightarrow> adds_facts pd b (new \<union> new') pd''"
  by (auto simp: adds_facts_def)

lemma propagate_pointee_adds:
  assumes ok: "typed_graph env g_ok ty s" and pd: "diff_inv ids_of words_ok pd"
    and obj: "obj < g_node_count (se_gops env) (pag_graph (sv_pag s))"
  shows "\<exists>pd'. propagate_pointee env e b (get_dereferenced_type (se_tcx env) (ty a)) (get_dereferenced_type (se_tcx env) (ty b)) obj
       (with_facts s pd w, c) =
       Some (with_facts s pd' w, c \<or> \<not> passed env ty a b {obj} \<subseteq> pts_of ids_of pd b) \<and>
     adds_facts pd b (passed env ty a b {obj}) pd'"
proof -
  obtain p where p: "node_path_and_ty env (with_facts s pd w) obj = Some (with_facts s pd w, p, ty obj)"
    using node_typed [OF ok obj] by blast
  obtain f where f: "type_filter_pred env (ty obj) (get_dereferenced_type (se_tcx env) (ty a))
      (get_dereferenced_type (se_tcx env) (ty b)) = Some f"
    using type_filter_total [OF ok] by blast
  have nofilter: "stack_filter_pred env (with_facts s pd w) e p = Some False"
    using ok by (simp add: stack_filter_pred_def typed_graph_def)
  show ?thesis
  proof (cases f)
    case True
    then show ?thesis using p f pd by (auto simp: propagate_pointee_def passed_def lets_pass_def adds_facts_def)
  next
    case False
    obtain pd' c' where add: "add_pts node_pts_ops pd b obj = (pd', c')" by fastforce
    have "obj < 2 ^ 64" using obj ok by (simp add: typed_graph_def)
    note spec = node_pts.add_pts_spec [OF pd add this]
    have "passed env ty a b {obj} = {obj}" using f False by (auto simp: passed_def lets_pass_def)
    moreover have "adds_facts pd b {obj} pd'" using spec by (auto simp: adds_facts_def)
    ultimately show ?thesis
      using p f False nofilter add spec by (auto simp: propagate_pointee_def sv_add_pts_def)
  qed
qed

lemma propagate_pointees_add:
  assumes ok: "typed_graph env g_ok ty s" and "diff_inv ids_of words_ok pd"
    and "\<forall>obj \<in> set objs. obj < g_node_count (se_gops env) (pag_graph (sv_pag s))"
  shows "\<exists>pd'. fold_opt (propagate_pointee env e b (get_dereferenced_type (se_tcx env) (ty a))
         (get_dereferenced_type (se_tcx env) (ty b))) objs (with_facts s pd w, c) =
       Some (with_facts s pd' w, c \<or> \<not> passed env ty a b (set objs) \<subseteq> pts_of ids_of pd b) \<and>
     adds_facts pd b (passed env ty a b (set objs)) pd'"
  using assms(2,3)
proof (induction objs arbitrary: pd c)
  case Nil
  then show ?case by (auto simp: passed_def adds_facts_def)
next
  case (Cons x xs)
  obtain pd1 where 1: "propagate_pointee env e b (get_dereferenced_type (se_tcx env) (ty a))
        (get_dereferenced_type (se_tcx env) (ty b)) x (with_facts s pd w, c) =
      Some (with_facts s pd1 w, c \<or> \<not> passed env ty a b {x} \<subseteq> pts_of ids_of pd b)"
    "adds_facts pd b (passed env ty a b {x}) pd1"
    using propagate_pointee_adds [OF ok Cons.prems(1), of x] Cons.prems(2) by fastforce
  have "diff_inv ids_of words_ok pd1" using 1(2) by (simp add: adds_facts_def)
  from Cons.IH [OF this] Cons.prems(2) obtain pd2 where
    2: "fold_opt (propagate_pointee env e b (get_dereferenced_type (se_tcx env) (ty a))
         (get_dereferenced_type (se_tcx env) (ty b))) xs (with_facts s pd1 w, c \<or> \<not> passed env ty a b {x} \<subseteq> pts_of ids_of pd b) =
       Some (with_facts s pd2 w, (c \<or> \<not> passed env ty a b {x} \<subseteq> pts_of ids_of pd b) \<or>
         \<not> passed env ty a b (set xs) \<subseteq> pts_of ids_of pd1 b)"
    "adds_facts pd1 b (passed env ty a b (set xs)) pd2"
    by fastforce
  have pts: "pts_of ids_of pd1 b = pts_of ids_of pd b \<union> passed env ty a b {x}"
    using 1(2) by (auto simp: adds_facts_def pts_of_def)
  have split: "passed env ty a b (set (x # xs)) = passed env ty a b {x} \<union> passed env ty a b (set xs)"
    by (auto simp: passed_def)
  have "adds_facts pd b (passed env ty a b (set (x # xs))) pd2"
    unfolding split using adds_facts_trans [OF 1(2) 2(2)] .
  moreover have "(c \<or> \<not> passed env ty a b {x} \<subseteq> pts_of ids_of pd b) \<or> \<not> passed env ty a b (set xs) \<subseteq> pts_of ids_of pd1 b
      \<longleftrightarrow> c \<or> \<not> passed env ty a b (set (x # xs)) \<subseteq> pts_of ids_of pd b"
    unfolding split pts by blast
  ultimately show ?case using 1(1) 2(1) by (auto simp del: with_facts_simps)
qed

lemma diff_list_ids:
  assumes "diff_inv ids_of words_ok pd"
  shows "case diff_list (with_facts s pd w) n of Some l \<Rightarrow> set l = diff_of ids_of pd n | None \<Rightarrow> diff_of ids_of pd n = {}"
  using assms
  by (auto simp: diff_list_def get_diff_pts_def diff_inv_def elems_at_def split: option.splits dest: all_invD)

lemma edge_nodes:
  assumes "typed_graph env g_ok ty s" "env_edge env (pag_graph (sv_pag s)) e a b c"
  shows "sv_endpoints env s e = Some (a, b)" "a < g_node_count (se_gops env) (pag_graph (sv_pag s))"
    "b < g_node_count (se_gops env) (pag_graph (sv_pag s))"
proof -
  have api: "graph_api (se_gops env) g_ok" "g_ok (pag_graph (sv_pag s))" using assms(1) by (simp_all add: typed_graph_def)
  show "sv_endpoints env s e = Some (a, b)" using assms(2) by (auto simp: env_edge_def edge_at_def sv_endpoints_def)
  then show "a < g_node_count (se_gops env) (pag_graph (sv_pag s))" "b < g_node_count (se_gops env) (pag_graph (sv_pag s))"
    using graph_api.endpoints_nodes [OF api(1) api(2)] by (auto simp: sv_endpoints_def)
qed

definition flow_out :: "('c, 'g, 'cg, 'p, 'f) solver_env \<Rightarrow> (nat \<Rightarrow> 'c ty) \<Rightarrow> nat \<Rightarrow> nat \<Rightarrow> nat set \<Rightarrow> nat set" where
  "flow_out env ty a b objs = (if same_pointer env ty a b then passed env ty a b objs else {})"

lemma propagate_diff_adds:
  assumes ok: "typed_graph env g_ok ty s" and edge: "env_edge env (pag_graph (sv_pag s)) e a b c"
    and pd: "diff_inv ids_of words_ok pd"
    and nodes: "\<forall>v. pts_of ids_of pd v \<subseteq> {..<g_node_count (se_gops env) (pag_graph (sv_pag s))}"
  shows "\<exists>pd'. propagate env e True (with_facts s pd w) =
       Some (with_facts s pd' (w @ (if flow_out env ty a b (diff_of ids_of pd a) \<subseteq> pts_of ids_of pd b then [] else [b]))) \<and>
     adds_facts pd b (flow_out env ty a b (diff_of ids_of pd a)) pd'"
proof -
  note ends = edge_nodes [OF ok edge]
  obtain p where p: "node_path_and_ty env (with_facts s pd w) a = Some (with_facts s pd w, p, ty a)"
    using node_typed [OF ok ends(2)] by blast
  obtain q where q: "node_path_and_ty env (with_facts s pd w) b = Some (with_facts s pd w, q, ty b)"
    using node_typed [OF ok ends(3)] by blast
  obtain eq where eq: "equivalent_ptr_types (se_tcx env) (se_fuel env) (ty a) (ty b) = Some eq"
    using ok unfolding typed_graph_def by (metis option.exhaust)
  have none: ?thesis if "diff_of ids_of pd a = {} \<or> \<not> eq" "propagate env e True (with_facts s pd w) = Some (with_facts s pd w)"
  proof -
    have "flow_out env ty a b (diff_of ids_of pd a) = {}"
      using that(1) eq by (auto simp: flow_out_def passed_def same_pointer_def)
    then show ?thesis using that(2) pd by (auto simp: adds_facts_def)
  qed
  note list = diff_list_ids [OF pd, where s = s and w = w and n = a]
  show ?thesis
  proof (cases "diff_list (with_facts s pd w) a")
    case None
    then have "propagate env e True (with_facts s pd w) = Some (with_facts s pd w)"
      using ends p q eq by (simp add: propagate_def push_back_if_def)
    then show ?thesis using none list None by simp
  next
    case (Some objs)
    then have d: "get_diff_pts pd a \<noteq> None" by (auto simp: diff_list_def)
    have objs: "set objs = diff_of ids_of pd a" using list Some by simp
    show ?thesis
    proof (cases eq)
      case False
      then have "propagate env e True (with_facts s pd w) = Some (with_facts s pd w)"
        using ends p q eq d by (auto simp: propagate_def)
      then show ?thesis using none False by simp
    next
      case True
      then have fl: "flow_out env ty a b (diff_of ids_of pd a) = passed env ty a b (set objs)"
        using eq objs by (simp add: flow_out_def same_pointer_def)
      have "\<forall>obj \<in> set objs. obj < g_node_count (se_gops env) (pag_graph (sv_pag s))"
        using nodes objs by (auto simp: pts_of_def)
      from propagate_pointees_add [OF ok pd this, of e b a w False] obtain pd' where
        pd': "fold_opt (propagate_pointee env e b (get_dereferenced_type (se_tcx env) (ty a))
           (get_dereferenced_type (se_tcx env) (ty b))) objs (with_facts s pd w, False) =
         Some (with_facts s pd' w, \<not> passed env ty a b (set objs) \<subseteq> pts_of ids_of pd b)"
        "adds_facts pd b (passed env ty a b (set objs)) pd'"
        by auto
      have "propagate env e True (with_facts s pd w) =
          Some (push_back_if (\<not> passed env ty a b (set objs) \<subseteq> pts_of ids_of pd b) b (with_facts s pd' w))"
        using ends p q eq d True Some pd'(1) by (auto simp: propagate_def)
      then show ?thesis using pd'(2) by (auto simp: fl push_back_if_def)
    qed
  qed
qed

subsection \<open>Growth and its measure\<close>

definition total_facts :: "node_pts \<Rightarrow> nat \<Rightarrow> nat" where
  "total_facts pd n = (\<Sum>v<n. card (pts_of ids_of pd v))"

lemma total_facts_le:
  assumes "\<forall>v. pts_of ids_of pd v \<subseteq> {..<n}"
  shows "total_facts pd n \<le> n * n"
proof -
  have "card (pts_of ids_of pd v) \<le> n" for v using card_mono [of "{..<n}" "pts_of ids_of pd v"] assms by simp
  then have "total_facts pd n \<le> (\<Sum>v<n. n)" unfolding total_facts_def by (intro sum_mono) simp
  then show ?thesis by simp
qed

lemma total_facts_mono:
  assumes "\<forall>v. pts_of ids_of pd v \<subseteq> pts_of ids_of pd' v" "\<forall>v. pts_of ids_of pd' v \<subseteq> {..<n}"
  shows "total_facts pd n \<le> total_facts pd' n"
  unfolding total_facts_def using assms finite_subset [OF _ finite_lessThan]
  by (intro sum_mono card_mono) blast+

lemma total_facts_less:
  assumes "\<forall>v. pts_of ids_of pd v \<subseteq> pts_of ids_of pd' v" "\<forall>v. pts_of ids_of pd' v \<subseteq> {..<n}"
    and "b < n" "\<not> pts_of ids_of pd' b \<subseteq> pts_of ids_of pd b"
  shows "total_facts pd n < total_facts pd' n"
proof -
  have fin: "finite (pts_of ids_of pd' v)" for v using assms(2) finite_subset [OF _ finite_lessThan] by blast
  have "card (pts_of ids_of pd b) < card (pts_of ids_of pd' b)"
    using assms fin by (intro psubset_card_mono) blast+
  then show ?thesis
    unfolding total_facts_def using assms fin
    by (intro sum_strict_mono_ex1) (auto intro!: card_mono)
qed

text \<open>Each node pushed on the worklist is paid for by a fact.\<close>

definition grown :: "nat \<Rightarrow> node_pts \<Rightarrow> nat list \<Rightarrow> node_pts \<Rightarrow> nat list \<Rightarrow> bool" where
  "grown n pd w pd' w' \<longleftrightarrow>
     diff_inv ids_of words_ok pd' \<and> (\<forall>v. pts_of ids_of pd' v \<subseteq> {..<n}) \<and>
     (\<forall>v. propa_of ids_of pd' v = propa_of ids_of pd v) \<and> (\<forall>v. diff_of ids_of pd v \<subseteq> diff_of ids_of pd' v) \<and>
     (\<forall>v. diff_of ids_of pd' v \<noteq> diff_of ids_of pd v \<longrightarrow> v \<in> set w') \<and> set w \<subseteq> set w' \<and>
     total_facts pd n + length w' \<le> total_facts pd' n + length w"

lemma grown_refl: "diff_inv ids_of words_ok pd \<Longrightarrow> \<forall>v. pts_of ids_of pd v \<subseteq> {..<n} \<Longrightarrow> grown n pd w pd w"
  by (simp add: grown_def)

lemma grown_trans: "grown n a w b w' \<Longrightarrow> grown n b w' c w'' \<Longrightarrow> grown n a w c w''"
  unfolding grown_def by (fastforce dest: subsetD)

lemma adds_grown:
  assumes "adds_facts pd b new pd'" "new \<subseteq> {..<n}" "\<forall>v. pts_of ids_of pd v \<subseteq> {..<n}" "b < n"
  shows "grown n pd w pd' (w @ (if new \<subseteq> pts_of ids_of pd b then [] else [b]))"
proof -
  have pts: "pts_of ids_of pd' v = (if v = b then pts_of ids_of pd v \<union> new else pts_of ids_of pd v)" for v
    using assms(1) by (auto simp: adds_facts_def pts_of_def)
  have bound: "\<forall>v. pts_of ids_of pd' v \<subseteq> {..<n}" using assms(2,3) by (auto simp: pts)
  have sub: "\<forall>v. pts_of ids_of pd v \<subseteq> pts_of ids_of pd' v" by (simp add: pts)
  have "total_facts pd n + (if new \<subseteq> pts_of ids_of pd b then 0 else 1) \<le> total_facts pd' n"
    using total_facts_less [OF sub bound assms(4)] total_facts_mono [OF sub bound] by (simp add: pts Suc_le_eq)
  moreover have "new \<subseteq> pts_of ids_of pd b \<Longrightarrow> diff_of ids_of pd' v = diff_of ids_of pd v" for v
    using assms(1) by (auto simp: adds_facts_def pts_of_def)
  moreover have "v = b" if "diff_of ids_of pd' v \<noteq> diff_of ids_of pd v" for v
    using that assms(1) by (auto simp: adds_facts_def split: if_splits)
  moreover have "diff_of ids_of pd v \<subseteq> diff_of ids_of pd' v" "propa_of ids_of pd' v = propa_of ids_of pd v" for v
    using assms(1) by (auto simp: adds_facts_def)
  moreover have "diff_inv ids_of words_ok pd'" using assms(1) by (simp add: adds_facts_def)
  ultimately show ?thesis
    using bound by (cases "new \<subseteq> pts_of ids_of pd b") (simp_all add: grown_def, blast)
qed

subsection \<open>Propagation along the edges of a node\<close>

definition reached :: "('c, 'g, 'cg, 'p, 'f) solver_env \<Rightarrow> (nat \<Rightarrow> 'c ty) \<Rightarrow> 'g \<Rightarrow> nat set \<Rightarrow> nat \<Rightarrow> edge_class \<Rightarrow> nat set \<Rightarrow> nat \<Rightarrow> nat set" where
  "reached env ty g es n c objs v = {obj. \<exists>e \<in> es. env_edge env g e n v c \<and> obj \<in> flow_out env ty n v objs}"

lemma reached_simps [simp]:
  "reached env ty g {} n c objs v = {}"
  "reached env ty g (insert e es) n c objs v =
     (if env_edge env g e n v c then flow_out env ty n v objs else {}) \<union> reached env ty g es n c objs v"
  by (auto simp: reached_def)

lemma flow_out_sub: "flow_out env ty a b objs \<subseteq> objs"
  by (auto simp: flow_out_def passed_def)

lemma env_edge_unique: "env_edge env g e a b c \<Longrightarrow> env_edge env g e a' b' c' \<Longrightarrow> a' = a \<and> b' = b"
  by (auto simp: env_edge_def edge_at_def)

definition edges_done :: "('c, 'g, 'cg, 'p, 'f) solver_env \<Rightarrow> (nat \<Rightarrow> 'c ty) \<Rightarrow> 'g \<Rightarrow> nat set \<Rightarrow> nat \<Rightarrow> edge_class \<Rightarrow> node_pts \<Rightarrow> node_pts \<Rightarrow> bool" where
  "edges_done env ty g es n c pd pd' \<longleftrightarrow> diff_of ids_of pd' n = diff_of ids_of pd n \<and>
     (\<forall>v. pts_of ids_of pd' v = pts_of ids_of pd v \<union> reached env ty g es n c (diff_of ids_of pd n) v)"

lemma propagate_edges:
  assumes ok: "typed_graph env g_ok ty s"
    and "\<forall>e \<in> set es. \<exists>b. env_edge env (pag_graph (sv_pag s)) e n b c"
    and "diff_inv ids_of words_ok pd" "\<forall>v. pts_of ids_of pd v \<subseteq> {..<g_node_count (se_gops env) (pag_graph (sv_pag s))}"
  shows "\<exists>pd' w'. fold_opt (\<lambda>e. propagate env e True) es (with_facts s pd w) = Some (with_facts s pd' w') \<and>
     grown (g_node_count (se_gops env) (pag_graph (sv_pag s))) pd w pd' w' \<and>
     edges_done env ty (pag_graph (sv_pag s)) (set es) n c pd pd'"
  using assms(2-)
proof (induction es arbitrary: pd w)
  case Nil
  then show ?case by (auto simp: edges_done_def intro!: grown_refl)
next
  case (Cons e es)
  let ?N = "g_node_count (se_gops env) (pag_graph (sv_pag s))" and ?g = "pag_graph (sv_pag s)"
  obtain b where b: "env_edge env ?g e n b c" using Cons.prems(1) by auto
  let ?new = "flow_out env ty n b (diff_of ids_of pd n)"
  let ?w = "w @ (if ?new \<subseteq> pts_of ids_of pd b then [] else [b])"
  obtain pd1 where 1: "propagate env e True (with_facts s pd w) = Some (with_facts s pd1 ?w)" "adds_facts pd b ?new pd1"
    using propagate_diff_adds [OF ok b Cons.prems(2,3)] by blast
  have new: "?new \<subseteq> {..<?N}" using Cons.prems(3) flow_out_sub [of env ty n b] by (fastforce simp: pts_of_def)
  have g1: "grown ?N pd w pd1 ?w"
    using adds_grown [OF 1(2) new Cons.prems(3)] edge_nodes(3) [OF ok b] by simp
  have d1: "diff_of ids_of pd1 n = diff_of ids_of pd n"
    using 1(2) flow_out_sub [of env ty n b] by (auto simp: adds_facts_def)
  have at: "env_edge env ?g e n v c \<longleftrightarrow> v = b" for v using env_edge_unique [OF b] b by blast
  have d2: "diff_of ids_of pd1 v = (if v = b then diff_of ids_of pd v \<union> (?new - propa_of ids_of pd b) else diff_of ids_of pd v)"
    "propa_of ids_of pd1 v = propa_of ids_of pd v" for v
    using 1(2) by (simp_all add: adds_facts_def)
  have p1: "pts_of ids_of pd1 v = pts_of ids_of pd v \<union> (if v = b then ?new else {})" for v
    by (auto simp: pts_of_def d2)
  have "diff_inv ids_of words_ok pd1" "\<forall>v. pts_of ids_of pd1 v \<subseteq> {..<?N}" using g1 by (simp_all add: grown_def)
  moreover have "\<forall>e \<in> set es. \<exists>b. env_edge env ?g e n b c" using Cons.prems(1) by simp
  ultimately obtain pd2 w2 where
    2: "fold_opt (\<lambda>e. propagate env e True) es (with_facts s pd1 ?w) = Some (with_facts s pd2 w2)"
    "grown ?N pd1 ?w pd2 w2" "edges_done env ty ?g (set es) n c pd1 pd2"
    using Cons.IH [of pd1 ?w] by blast
  have "edges_done env ty ?g (set (e # es)) n c pd pd2"
    using 2(3) by (auto simp: edges_done_def d1 p1 at)
  then show ?case using 1(1) 2(1) grown_trans [OF g1 2(2)] by auto
qed

text \<open>A map of edges as the handlers see it: the two functions select and update the same field.\<close>

definition edge_field ::
    "(('g, 'p) pag \<Rightarrow> edge_map) \<Rightarrow> ((edge_map \<Rightarrow> edge_map) \<Rightarrow> ('g, 'p) pag \<Rightarrow> ('g, 'p) pag) \<Rightarrow> bool" where
  "edge_field edges_of edges_upd \<longleftrightarrow>
     (\<forall>f q. edges_of (edges_upd f q) = f (edges_of q)) \<and> (\<forall>f q. pag_graph (edges_upd f q) = pag_graph q) \<and>
     (\<forall>f h q. edges_upd f (edges_upd h q) = edges_upd (f \<circ> h) q) \<and>
     (\<forall>f q. f (edges_of q) = edges_of q \<longrightarrow> edges_upd f q = q)"

lemma edge_fields:
  "edge_field direct_out_edges direct_out_edges_update"
  "edge_field offset_out_edges offset_out_edges_update"
  "edge_field load_out_edges load_out_edges_update"
  "edge_field store_in_edges store_in_edges_update"
  "edge_field gep_out_edges gep_out_edges_update"
  "edge_field cast_out_edges cast_out_edges_update"
  by (auto simp: edge_field_def intro: pag.equality)

lemma taken_restored:
  assumes "edge_field edges_of edges_upd" "edges_of q n = Some es"
  shows "edges_upd (\<lambda>m. m(n \<mapsto> es)) (edges_upd (\<lambda>m. m(n \<mapsto> {})) q) = q"
proof -
  have "((\<lambda>m. m(n \<mapsto> es)) \<circ> (\<lambda>m. m(n \<mapsto> {}))) (edges_of q) = edges_of q" using assms(2) by (simp add: fun_upd_idem)
  then show ?thesis using assms(1) unfolding edge_field_def by metis
qed

lemma taken_edges:
  assumes ok: "typed_graph env g_ok ty s" and f: "edge_field edges_of edges_upd"
    and es: "\<forall>e \<in> entry_or (edges_of (sv_pag s)) n {}. \<exists>b. env_edge env (pag_graph (sv_pag s)) e n b c"
    and fin: "finite (entry_or (edges_of (sv_pag s)) n {})"
    and pd: "diff_inv ids_of words_ok pd" "\<forall>v. pts_of ids_of pd v \<subseteq> {..<g_node_count (se_gops env) (pag_graph (sv_pag s))}"
  shows "\<exists>pd' w'. with_taken edges_of edges_upd (fold_opt (\<lambda>e. propagate env e True)) n (with_facts s pd w) = Some (with_facts s pd' w') \<and>
     grown (g_node_count (se_gops env) (pag_graph (sv_pag s))) pd w pd' w' \<and>
     edges_done env ty (pag_graph (sv_pag s)) (entry_or (edges_of (sv_pag s)) n {}) n c pd pd'"
proof (cases "edges_of (sv_pag s) n")
  case None
  then show ?thesis using pd by (auto simp: with_taken_def edges_done_def intro!: grown_refl exI [of _ pd])
next
  case (Some E)
  let ?q = "edges_upd (\<lambda>m. m(n \<mapsto> {})) (sv_pag s)" and ?s = "s\<lparr>sv_pag := edges_upd (\<lambda>m. m(n \<mapsto> {})) (sv_pag s)\<rparr>"
  have g: "pag_graph ?q = pag_graph (sv_pag s)" using f by (simp add: edge_field_def)
  have ok': "typed_graph env g_ok ty ?s"
    using ok g by (simp add: typed_graph_def sv_node_path_def node_path_def)
  have E: "set (sorted_list_of_set E) = E" using fin Some by simp
  obtain pd' w' where 1: "fold_opt (\<lambda>e. propagate env e True) (sorted_list_of_set E) (with_facts ?s pd w) = Some (with_facts ?s pd' w')"
    "grown (g_node_count (se_gops env) (pag_graph (sv_pag s))) pd w pd' w'"
    "edges_done env ty (pag_graph (sv_pag s)) E n c pd pd'"
    using propagate_edges [OF ok', of "sorted_list_of_set E" n c pd w] es Some g pd E by auto
  have "edges_of ?q n = Some {}" using f by (simp add: edge_field_def)
  moreover have "with_facts s pd w\<lparr>sv_pag := ?q\<rparr> = with_facts ?s pd w" by (simp add: with_facts_def)
  moreover have "with_facts ?s pd' w'\<lparr>sv_pag := edges_upd (\<lambda>m. m(n \<mapsto> E)) ?q\<rparr> = with_facts s pd' w'"
    using taken_restored [OF f, of "sv_pag s" n E] Some by (simp add: with_facts_def)
  ultimately show ?thesis using 1 Some by (auto simp: with_taken_def)
qed

subsection \<open>One node\<close>

lemma taken_none:
  assumes "edge_field edges_of edges_upd" "entry_or (edges_of (sv_pag s)) n {} = {}" "\<And>t. process [] t = Some t"
  shows "with_taken edges_of edges_upd process n (with_facts s pd w) = Some (with_facts s pd w)"
proof (cases "edges_of (sv_pag s) n")
  case None
  then show ?thesis by (simp add: with_taken_def)
next
  case (Some E)
  then have "E = {}" using assms(2) by simp
  then show ?thesis
    using assms(1,3) Some taken_restored [OF assms(1), of "sv_pag s" n E] by (simp add: with_taken_def edge_field_def with_facts_def)
qed

lemma out_edges_node:
  assumes "assignments_only env g_ok ty s"
  shows "e \<in> entry_or (out_edges (sv_pag s) c) n {} \<longleftrightarrow> (\<exists>b. env_edge env (pag_graph (sv_pag s)) e n b c)"
    "e \<in> entry_or (in_edges (sv_pag s) c) n {} \<longleftrightarrow> (\<exists>a. env_edge env (pag_graph (sv_pag s)) e a n c)"
  using assms by (auto simp: assignments_only_def pag_ok_def env_edge_def)

lemma out_edges_none:
  assumes "assignments_only env g_ok ty s" "c \<notin> {AddrE, DirectE, OffsetE}"
  shows "entry_or (out_edges (sv_pag s) c) n {} = {}" "entry_or (in_edges (sv_pag s) c) n {} = {}"
proof -
  have "\<not> env_edge env (pag_graph (sv_pag s)) e a b c" for e a b
    using assms unfolding assignments_only_def by blast
  then show "entry_or (out_edges (sv_pag s) c) n {} = {}" "entry_or (in_edges (sv_pag s) c) n {} = {}"
    using out_edges_node [OF assms(1)] by blast+
qed

lemma out_edges_finite:
  assumes "assignments_only env g_ok ty s"
  shows "finite (entry_or (out_edges (sv_pag s) c) n {})"
proof -
  let ?g = "pag_graph (sv_pag s)"
  have ok: "typed_graph env g_ok ty s" using assms by (simp add: assignments_only_def)
  then have api: "graph_api (se_gops env) g_ok" "g_ok ?g" by (simp_all add: typed_graph_def)
  have "entry_or (out_edges (sv_pag s) c) n {} \<subseteq>
      (\<Union>b \<in> {..<g_node_count (se_gops env) ?g}. set (g_edges_connecting (se_gops env) ?g n b))"
    using out_edges_node(1) [OF assms, of _ c n] edge_nodes [OF ok] graph_api.edges_connecting [OF api]
    by (fastforce simp: sv_endpoints_def)
  then show ?thesis by (rule finite_subset) auto
qed

text \<open>What a round does: the pending facts of \<open>n\<close> flow along its edges and are no longer pending.\<close>

definition node_done ::
    "('c, 'g, 'cg, 'p, 'f) solver_env \<Rightarrow> (nat \<Rightarrow> 'c ty) \<Rightarrow> 'g \<Rightarrow> nat \<Rightarrow> node_pts \<Rightarrow> nat list \<Rightarrow> node_pts \<Rightarrow> nat list \<Rightarrow> bool" where
  "node_done env ty g n pd w pd' w' \<longleftrightarrow>
     diff_inv ids_of words_ok pd' \<and> (\<forall>v. pts_of ids_of pd' v \<subseteq> {..<g_node_count (se_gops env) g}) \<and>
     (\<forall>v. propa_of ids_of pd' v = propa_of ids_of pd v \<union> (if v = n then diff_of ids_of pd n else {})) \<and>
     (\<forall>v. diff_of ids_of pd' v \<noteq> {} \<longrightarrow> v \<in> set w' \<or> v \<noteq> n \<and> diff_of ids_of pd v \<noteq> {}) \<and> set w \<subseteq> set w' \<and>
     total_facts pd (g_node_count (se_gops env) g) + length w' \<le> total_facts pd' (g_node_count (se_gops env) g) + length w \<and>
     (\<forall>v. pts_of ids_of pd' v = pts_of ids_of pd v \<union>
        {obj \<in> diff_of ids_of pd n. \<exists>e c. env_edge env g e n v c \<and> c \<in> {DirectE, OffsetE} \<and> obj \<in> flow_out env ty n v (diff_of ids_of pd n)})"

lemma process_node_done:
  assumes ok: "assignments_only env g_ok ty s"
    and pd: "diff_inv ids_of words_ok pd" "\<forall>v. pts_of ids_of pd v \<subseteq> {..<g_node_count (se_gops env) (pag_graph (sv_pag s))}"
  shows "\<exists>pd' w'. process_node env m n (with_facts s pd w) = Some (with_facts s pd' w') \<and>
     node_done env ty (pag_graph (sv_pag s)) n pd w pd' w'"
proof -
  let ?g = "pag_graph (sv_pag s)"
  let ?N = "g_node_count (se_gops env) ?g"
  have typed: "typed_graph env g_ok ty s" and calls: "assoc_calls s = assoc_calls_new"
    using ok by (simp_all add: assignments_only_def)
  note es = out_edges_node(1) [OF ok] and fin = out_edges_finite [OF ok] and none = out_edges_none [OF ok]
  obtain pd1 w1 where 1: "handle_direct env n (with_facts s pd w) = Some (with_facts s pd1 w1)"
    "grown ?N pd w pd1 w1" "edges_done env ty ?g (entry_or (direct_out_edges (sv_pag s)) n {}) n DirectE pd pd1"
    using taken_edges [OF typed edge_fields(1) _ _ pd, where n = n and c = DirectE and w = w] es [of _ DirectE n] fin [of DirectE n]
    unfolding handle_direct_def by auto
  have 2: "handle_load_and_store env n (with_facts s pd1 w1) = Some (with_facts s pd1 w1)"
    using none [of LoadE n] none [of StoreE n]
    by (auto simp: handle_load_and_store_def taken_none [OF edge_fields(3)] taken_none [OF edge_fields(4)] split: option.split)
  have 3: "handle_gep env n (with_facts s pd1 w1) = Some (with_facts s pd1 w1)"
    unfolding handle_gep_def using none(1) [of GepE n] by (intro taken_none [OF edge_fields(5)]) (auto split: option.split)
  have 4: "handle_cast env m n (with_facts s pd1 w1) = Some (with_facts s pd1 w1)"
    unfolding handle_cast_def using none(1) [of CastE n] by (intro taken_none [OF edge_fields(6)]) auto
  have pd1: "diff_inv ids_of words_ok pd1" "\<forall>v. pts_of ids_of pd1 v \<subseteq> {..<?N}" using 1(2) by (simp_all add: grown_def)
  obtain pd2 w2 where 5: "handle_offset env n (with_facts s pd1 w1) = Some (with_facts s pd2 w2)"
    "grown ?N pd1 w1 pd2 w2" "edges_done env ty ?g (entry_or (offset_out_edges (sv_pag s)) n {}) n OffsetE pd1 pd2"
    using taken_edges [OF typed edge_fields(2) _ _ pd1, where n = n and c = OffsetE and w = w1] es [of _ OffsetE n] fin [of OffsetE n]
    unfolding handle_offset_def process_offset_def by auto
  let ?pd = "flush node_pts_ops pd2 n"
  have run: "process_node env m n (with_facts s pd w) = Some (with_facts s ?pd w2)"
    using calls by (simp add: process_node_def 1(1) 2 3 4 5(1) handle_static_dispatch_instance_call_def
        handle_dynamic_dispatch_call_def handle_fnptr_call_def handle_dynamic_fntrait_call_def assoc_calls_new_def)
  note gr = grown_trans [OF 1(2) 5(2)]
  have pd2: "diff_inv ids_of words_ok pd2" using gr by (simp add: grown_def)
  note fl = node_pts.flush_spec [OF pd2, of n]
  have d: "diff_of ids_of pd2 n = diff_of ids_of pd n" "diff_of ids_of pd1 n = diff_of ids_of pd n"
    using 1(3) 5(3) by (simp_all add: edges_done_def)
  have pts: "pts_of ids_of ?pd v = pts_of ids_of pd v \<union>
      {obj \<in> diff_of ids_of pd n. \<exists>e c. env_edge env ?g e n v c \<and> c \<in> {DirectE, OffsetE} \<and> obj \<in> flow_out env ty n v (diff_of ids_of pd n)}" for v
  proof -
    have "pts_of ids_of ?pd v = pts_of ids_of pd v \<union> reached env ty ?g (entry_or (direct_out_edges (sv_pag s)) n {}) n DirectE (diff_of ids_of pd n) v
        \<union> reached env ty ?g (entry_or (offset_out_edges (sv_pag s)) n {}) n OffsetE (diff_of ids_of pd n) v"
      using fl 1(3) 5(3) d by (simp add: edges_done_def)
    moreover have "reached env ty ?g (entry_or (out_edges (sv_pag s) c) n {}) n c objs v =
        {obj \<in> flow_out env ty n v objs. \<exists>e. env_edge env ?g e n v c}" for c objs
      using es [of _ c n] unfolding reached_def by blast
    from this [of DirectE] this [of OffsetE] have
      "reached env ty ?g (entry_or (direct_out_edges (sv_pag s)) n {}) n DirectE (diff_of ids_of pd n) v =
        {obj \<in> flow_out env ty n v (diff_of ids_of pd n). \<exists>e. env_edge env ?g e n v DirectE}"
      "reached env ty ?g (entry_or (offset_out_edges (sv_pag s)) n {}) n OffsetE (diff_of ids_of pd n) v =
        {obj \<in> flow_out env ty n v (diff_of ids_of pd n). \<exists>e. env_edge env ?g e n v OffsetE}" by simp_all
    ultimately show ?thesis
      using flow_out_sub [of env ty n v "diff_of ids_of pd n"] by auto
  qed
  have propa: "propa_of ids_of ?pd v = propa_of ids_of pd v \<union> (if v = n then diff_of ids_of pd n else {})" for v
  proof -
    have "propa_of ids_of pd2 v = propa_of ids_of pd v" using gr by (simp add: grown_def)
    moreover have "pts_of ids_of ?pd v = pts_of ids_of pd2 v"
      "diff_of ids_of ?pd v = (if v = n then {} else diff_of ids_of pd2 v)" using fl by simp_all
    moreover have "diff_of ids_of ?pd v \<inter> propa_of ids_of ?pd v = {}"
      using conjunct1 [OF fl] unfolding diff_inv_def by blast
    moreover have "diff_of ids_of pd2 v \<inter> propa_of ids_of pd2 v = {}"
      using pd2 unfolding diff_inv_def by blast
    ultimately show ?thesis using d(1) unfolding pts_of_def by (cases "v = n") (simp, blast)+
  qed
  have "total_facts ?pd ?N = total_facts pd2 ?N" using fl by (simp add: total_facts_def)
  moreover have "v \<in> set w2 \<or> v \<noteq> n \<and> diff_of ids_of pd v \<noteq> {}" if "diff_of ids_of ?pd v \<noteq> {}" for v
  proof -
    have "v \<noteq> n" "diff_of ids_of pd2 v \<noteq> {}" using that fl by (auto split: if_splits)
    then show ?thesis using gr unfolding grown_def by metis
  qed
  ultimately have "node_done env ty ?g n pd w ?pd w2"
    using gr fl propa pts by (auto simp: node_done_def grown_def)
  then show ?thesis using run by blast
qed

subsection \<open>The loop\<close>

definition solving :: "('c, 'g, 'cg, 'p, 'f) solver_env \<Rightarrow> (nat \<Rightarrow> 'c ty) \<Rightarrow> 'g \<Rightarrow> node_pts \<Rightarrow> nat list \<Rightarrow> bool" where
  "solving env ty g pd w \<longleftrightarrow>
     diff_inv ids_of words_ok pd \<and> (\<forall>v. pts_of ids_of pd v \<subseteq> {..<g_node_count (se_gops env) g}) \<and>
     (\<forall>v. diff_of ids_of pd v \<noteq> {} \<longrightarrow> v \<in> set w) \<and>
     (\<forall>v. \<forall>obj \<in> pts_of ids_of pd v. flows env ty g obj v) \<and>
     (\<forall>e obj v. env_edge env g e obj v AddrE \<longrightarrow> obj \<in> pts_of ids_of pd v) \<and>
     (\<forall>e a b c. \<forall>obj \<in> propa_of ids_of pd a. env_edge env g e a b c \<and> c \<in> {DirectE, OffsetE} \<and>
        same_pointer env ty a b \<and> lets_pass env ty a b obj \<longrightarrow> obj \<in> pts_of ids_of pd b)"

lemma solving_step:
  assumes "solving env ty g pd (n # w)" and step: "node_done env ty g n pd w pd' w'"
  shows "solving env ty g pd' w'"
proof -
  have inv: "\<forall>v. diff_of ids_of pd v \<noteq> {} \<longrightarrow> v \<in> insert n (set w)"
    "\<And>v obj. obj \<in> pts_of ids_of pd v \<Longrightarrow> flows env ty g obj v"
    "\<And>e obj v. env_edge env g e obj v AddrE \<Longrightarrow> obj \<in> pts_of ids_of pd v"
    "\<And>e a b c obj. obj \<in> propa_of ids_of pd a \<Longrightarrow> env_edge env g e a b c \<Longrightarrow> c \<in> {DirectE, OffsetE} \<Longrightarrow>
        same_pointer env ty a b \<Longrightarrow> lets_pass env ty a b obj \<Longrightarrow> obj \<in> pts_of ids_of pd b"
    using assms(1) by (simp_all add: solving_def)
  have st: "diff_inv ids_of words_ok pd'" "\<forall>v. pts_of ids_of pd' v \<subseteq> {..<g_node_count (se_gops env) g}"
    "\<And>v. propa_of ids_of pd' v = propa_of ids_of pd v \<union> (if v = n then diff_of ids_of pd n else {})"
    "\<And>v. diff_of ids_of pd' v \<noteq> {} \<Longrightarrow> v \<in> set w' \<or> v \<noteq> n \<and> diff_of ids_of pd v \<noteq> {}" "set w \<subseteq> set w'"
    "\<And>v. pts_of ids_of pd' v = pts_of ids_of pd v \<union>
        {obj \<in> diff_of ids_of pd n. \<exists>e c. env_edge env g e n v c \<and> c \<in> {DirectE, OffsetE} \<and> obj \<in> flow_out env ty n v (diff_of ids_of pd n)}"
    using step unfolding node_done_def by blast+
  have "v \<in> set w'" if "diff_of ids_of pd' v \<noteq> {}" for v using st(4) [OF that] inv(1) st(5) by auto
  moreover have "flows env ty g obj v" if obj: "obj \<in> pts_of ids_of pd' v" for obj v
  proof (cases "obj \<in> pts_of ids_of pd v")
    case False
    then obtain e c where e: "obj \<in> diff_of ids_of pd n" "env_edge env g e n v c" "c \<in> {DirectE, OffsetE}"
      "obj \<in> flow_out env ty n v (diff_of ids_of pd n)"
      using obj st(6) [of v] by auto
    then have "flows env ty g obj n" using inv(2) by (simp add: pts_of_def)
    then show ?thesis using e by (auto simp: flow_out_def passed_def split: if_splits intro: flows.copy)
  qed (rule inv(2))
  moreover have "obj \<in> pts_of ids_of pd' b"
    if "obj \<in> propa_of ids_of pd' a" "env_edge env g e a b c" "c \<in> {DirectE, OffsetE}" "same_pointer env ty a b" "lets_pass env ty a b obj"
    for e a b c obj
  proof (cases "obj \<in> propa_of ids_of pd a")
    case True
    then show ?thesis using inv(4) [OF True that(2-)] st(6) by simp
  next
    case False
    then have "a = n" "obj \<in> diff_of ids_of pd n" using that(1) st(3) by (auto split: if_splits)
    then show ?thesis using that(2-) st(6) [of b] by (auto simp: flow_out_def passed_def)
  qed
  moreover have "obj \<in> pts_of ids_of pd' v" if "env_edge env g e obj v AddrE" for e obj v
    using inv(3) [OF that] st(6) by simp
  ultimately show ?thesis using st(1,2) unfolding solving_def by blast
qed

lemma solve_loop_done:
  assumes ok: "assignments_only env g_ok ty s"
    and "solving env ty (pag_graph (sv_pag s)) pd w"
    and "g_node_count (se_gops env) (pag_graph (sv_pag s)) * g_node_count (se_gops env) (pag_graph (sv_pag s)) + length w
      \<le> m + total_facts pd (g_node_count (se_gops env) (pag_graph (sv_pag s)))"
  shows "\<exists>pd'. solve_loop env k m (with_facts s pd w) = Some (with_facts s pd' []) \<and> solving env ty (pag_graph (sv_pag s)) pd' []"
  using assms(2,3)
proof (induction m arbitrary: pd w)
  case 0
  have "total_facts pd (g_node_count (se_gops env) (pag_graph (sv_pag s))) \<le>
      g_node_count (se_gops env) (pag_graph (sv_pag s)) * g_node_count (se_gops env) (pag_graph (sv_pag s))"
    using 0 total_facts_le by (simp add: solving_def)
  then have "length w = 0" using 0(2) by linarith
  then have "w = []" by simp
  then show ?case using 0 by auto
next
  case (Suc m)
  let ?N = "g_node_count (se_gops env) (pag_graph (sv_pag s))"
  show ?case
  proof (cases w)
    case Nil
    then show ?thesis using Suc.prems by auto
  next
    case (Cons n rest)
    obtain pd' w' where 1: "process_node env k n (with_facts s pd rest) = Some (with_facts s pd' w')"
      "node_done env ty (pag_graph (sv_pag s)) n pd rest pd' w'"
      using process_node_done [OF ok, of pd k n rest] Suc.prems(1) by (auto simp: solving_def)
    have "solving env ty (pag_graph (sv_pag s)) pd' w'" using Suc.prems(1) 1(2) unfolding Cons by (rule solving_step)
    moreover have "?N * ?N + length w' \<le> m + total_facts pd' ?N"
      using Suc.prems(2) 1(2) by (simp add: Cons node_done_def)
    ultimately show ?thesis using Suc.IH [of pd' w'] 1(1) by (simp add: Cons)
  qed
qed

lemma solved_exact:
  assumes "solving env ty g pd []"
  shows "obj \<in> pts_of ids_of pd v \<longleftrightarrow> flows env ty g obj v"
proof
  have all_done: "pts_of ids_of pd v = propa_of ids_of pd v" for v using assms by (auto simp: solving_def pts_of_def)
  assume "flows env ty g obj v"
  then show "obj \<in> pts_of ids_of pd v"
  proof (induction rule: flows.induct)
    case (addr e obj v)
    then show ?case using assms unfolding solving_def by blast
  next
    case (copy obj a e b c)
    then have "obj \<in> propa_of ids_of pd a" by (simp add: all_done)
    then show ?case using assms copy(2-5) unfolding solving_def by blast
  qed
qed (use assms in \<open>simp add: solving_def\<close>)

subsection \<open>The start\<close>

definition addr_read :: "('c, 'g, 'cg, 'p, 'f) solver \<Rightarrow> nat \<Rightarrow> ('c, 'g, 'cg, 'p, 'f) solver" where
  "addr_read s k = s\<lparr>addr_edge_iter := addr_edge_iter s + k\<rparr>"

lemma addr_read_simps [simp]:
  "sv_pag (addr_read s k) = sv_pag s" "assoc_calls (addr_read s k) = assoc_calls s"
  "with_facts s pd w\<lparr>addr_edge_iter := Suc (addr_edge_iter (with_facts s pd w))\<rparr> = with_facts (addr_read s 1) pd w"
  "addr_read (addr_read s k) j = addr_read s (k + j)" "inter_proc_edge_iter (with_facts s pd w) = inter_proc_edge_iter s"
  "inter_proc_edge_iter (addr_read s k) = inter_proc_edge_iter s"
  by (simp_all add: addr_read_def with_facts_def)

lemma addr_read_typed:
  "typed_graph env g_ok ty (addr_read s k) = typed_graph env g_ok ty s"
  "assignments_only env g_ok ty (addr_read s k) = assignments_only env g_ok ty s"
  by (simp_all add: assignments_only_def typed_graph_def addr_read_def sv_node_path_def)

lemma process_addr_edges:
  assumes "typed_graph env g_ok ty s"
    and "\<forall>e \<in> set es. \<exists>a b. env_edge env (pag_graph (sv_pag s)) e a b AddrE"
    and "diff_inv ids_of words_ok pd" "\<forall>v. pts_of ids_of pd v \<subseteq> {..<g_node_count (se_gops env) (pag_graph (sv_pag s))}"
  shows "\<exists>pd' w'. fold_opt (\<lambda>e s. process_addr env e (s\<lparr>addr_edge_iter := Suc (addr_edge_iter s)\<rparr>)) es (with_facts s pd w) =
       Some (with_facts (addr_read s (length es)) pd' w') \<and>
     grown (g_node_count (se_gops env) (pag_graph (sv_pag s))) pd w pd' w' \<and>
     (\<forall>v. pts_of ids_of pd' v = pts_of ids_of pd v \<union> {obj. \<exists>e \<in> set es. env_edge env (pag_graph (sv_pag s)) e obj v AddrE})"
  using assms
proof (induction es arbitrary: s pd w)
  case Nil
  then show ?case by (auto simp: addr_read_def intro!: grown_refl)
next
  case (Cons e es)
  let ?N = "g_node_count (se_gops env) (pag_graph (sv_pag s))" and ?g = "pag_graph (sv_pag s)"
  obtain a b where ab: "env_edge env ?g e a b AddrE" using Cons.prems(2) by auto
  note ends = edge_nodes [OF Cons.prems(1) ab]
  have a: "a < 2 ^ 64" using ends(2) Cons.prems(1) by (simp add: typed_graph_def)
  obtain pd1 c where add: "add_pts node_pts_ops pd b a = (pd1, c)" by fastforce
  note spec = node_pts.add_pts_spec [OF Cons.prems(3) add a]
  have adds: "adds_facts pd b {a} pd1" using spec by (auto simp: adds_facts_def)
  let ?w = "w @ (if {a} \<subseteq> pts_of ids_of pd b then [] else [b])"
  have g1: "grown ?N pd w pd1 ?w" using adds_grown [OF adds _ Cons.prems(4) ends(3)] ends(2) by simp
  have "sv_endpoints env (addr_read s 1) e = Some (a, b)" using ends(1) by (simp add: sv_endpoints_def)
  then have step: "process_addr env e (with_facts (addr_read s 1) pd w) = Some (with_facts (addr_read s 1) pd1 ?w)"
    using spec add by (simp add: process_addr_def sv_add_pts_def push_back_if_def)
  have p1: "pts_of ids_of pd1 v = pts_of ids_of pd v \<union> (if v = b then {a} else {})" for v
    using spec by (auto simp: pts_of_def)
  have "diff_inv ids_of words_ok pd1" "\<forall>v. pts_of ids_of pd1 v \<subseteq> {..<?N}" using g1 by (simp_all add: grown_def)
  moreover have "\<forall>e \<in> set es. \<exists>a b. env_edge env ?g e a b AddrE" using Cons.prems(2) by simp
  ultimately obtain pd2 w2 where
    2: "fold_opt (\<lambda>e s. process_addr env e (s\<lparr>addr_edge_iter := Suc (addr_edge_iter s)\<rparr>)) es (with_facts (addr_read s 1) pd1 ?w) =
       Some (with_facts (addr_read (addr_read s 1) (length es)) pd2 w2)" "grown ?N pd1 ?w pd2 w2"
    "\<forall>v. pts_of ids_of pd2 v = pts_of ids_of pd1 v \<union> {obj. \<exists>e \<in> set es. env_edge env ?g e obj v AddrE}"
    using Cons.IH [of "addr_read s 1" pd1 ?w] Cons.prems(1) by (simp add: addr_read_typed) blast
  have at: "env_edge env ?g e obj v AddrE \<longleftrightarrow> obj = a \<and> v = b" for obj v using env_edge_unique [OF ab] ab by blast
  have "pts_of ids_of pd2 v = pts_of ids_of pd v \<union> {obj. \<exists>e \<in> set (e # es). env_edge env ?g e obj v AddrE}" for v
    using 2(3) by (auto simp: p1 at)
  then show ?case using step 2(1) grown_trans [OF g1 2(2)] by auto
qed

lemma cloned_ids:
  assumes "diff_inv ids_of words_ok pd"
  shows "set (pts_iter node_pts_ops (get_cloned_pts (with_facts s pd w) v False)) = pts_of ids_of pd v"
proof -
  have ok: "diff_pts_map pd v = Some d \<Longrightarrow> words_ok d" "propa_pts_map pd v = Some d \<Longrightarrow> words_ok d" for d
    using assms by (auto simp: diff_inv_def dest: all_invD)
  show ?thesis
  proof (cases "diff_pts_map pd v")
    case None
    then show ?thesis using ok node_pts.set_iter [OF node_pts.inv_new]
      by (cases "propa_pts_map pd v") (simp_all add: get_cloned_pts_def get_diff_pts_def get_propa_pts_def pts_of_def)
  next
    case (Some d)
    then have d: "words_ok d" using ok by simp
    show ?thesis
    proof (cases "propa_pts_map pd v")
      case None
      then show ?thesis using Some d
        by (simp add: get_cloned_pts_def get_diff_pts_def get_propa_pts_def pts_of_def)
    next
      case (Some p)
      then have p: "words_ok p" using ok by simp
      show ?thesis using Some \<open>diff_pts_map pd v = Some d\<close>
          node_pts.set_iter [OF node_pts.inv_union [OF d p]] node_pts.elems_union [OF d p]
        by (simp add: get_cloned_pts_def get_diff_pts_def get_propa_pts_def pts_of_def)
    qed
  qed
qed

lemma addr_facts_solving:
  assumes pd: "diff_inv ids_of words_ok pd" "\<And>v. pts_of ids_of pd v \<subseteq> {..<g_node_count (se_gops env) g}"
    and pts: "\<And>v. pts_of ids_of pd v = {obj. \<exists>e. env_edge env g e obj v AddrE}"
    and new: "\<And>v. propa_of ids_of pd v = {}" "\<And>v. diff_of ids_of pd v \<noteq> {} \<Longrightarrow> v \<in> set w"
  shows "solving env ty g pd w"
proof -
  have "\<forall>v. \<forall>obj \<in> pts_of ids_of pd v. flows env ty g obj v" unfolding pts by (blast intro: flows.addr)
  moreover have "\<forall>e obj v. env_edge env g e obj v AddrE \<longrightarrow> obj \<in> pts_of ids_of pd v" unfolding pts by blast
  ultimately show ?thesis using pd new by (simp add: solving_def)
qed

lemma start_solving:
  assumes ok: "assignments_only env g_ok ty s"
    and "sv_pt s = diff_new" "worklist s = []" "addr_edge_iter s = 0" "inter_proc_edge_iter s = []"
  shows "\<exists>pd w s'. init_constraints env s = Some (with_facts s' pd w) \<and> assignments_only env g_ok ty s' \<and> sv_pag s' = sv_pag s \<and>
     solving env ty (pag_graph (sv_pag s)) pd w \<and>
     length w \<le> total_facts pd (g_node_count (se_gops env) (pag_graph (sv_pag s)))"
proof -
  let ?N = "g_node_count (se_gops env) (pag_graph (sv_pag s))" and ?g = "pag_graph (sv_pag s)"
  let ?q = "addr_edges_queue (sv_pag s)"
  have q: "set ?q = {e. \<exists>a b. env_edge env ?g e a b AddrE}"
  proof -
    have "env_edge env ?g e a b AddrE \<longleftrightarrow> edge_at (se_gops env) ?g e a b AddrPAGEdge" for e a b
      using class_of.elims by (auto simp: env_edge_def)
    then show ?thesis using ok by (simp add: assignments_only_def pag_ok_def)
  qed
  have s: "s = with_facts s diff_new []" using assms(2,3) by (simp add: with_facts_def)
  have empty: "pts_of ids_of diff_new v = {}" "diff_of ids_of diff_new v = {}" "propa_of ids_of diff_new v = {}" for v
    by (simp_all add: pts_of_def diff_new_def)
  have typed: "typed_graph env g_ok ty s" using ok by (simp add: assignments_only_def)
  obtain pd w where 1: "fold_opt (\<lambda>e s. process_addr env e (s\<lparr>addr_edge_iter := Suc (addr_edge_iter s)\<rparr>)) ?q (with_facts s diff_new []) =
       Some (with_facts (addr_read s (length ?q)) pd w)" "grown ?N diff_new [] pd w"
    "\<forall>v. pts_of ids_of pd v = pts_of ids_of diff_new v \<union> {obj. \<exists>e \<in> set ?q. env_edge env ?g e obj v AddrE}"
    using process_addr_edges [OF typed, of ?q diff_new "[]"] q node_pts.diff_inv_new empty by fastforce
  have "process_all_addr_edges env s = Some (with_facts (addr_read s (length ?q)) pd w)"
    unfolding process_all_addr_edges_def assms(4) drop_0 using 1(1) unfolding s [symmetric] .
  moreover have "inter_proc_edge_iter (with_facts (addr_read s (length ?q)) pd w) = []"
    unfolding with_facts_def addr_read_def by (simp add: assms(5))
  ultimately have "init_constraints env s = Some (with_facts (addr_read s (length ?q)) pd w)"
    unfolding init_constraints_def process_all_inter_proc_edges_def by simp
  moreover have "solving env ty ?g pd w"
  proof -
    have pts: "pts_of ids_of pd v = {obj. \<exists>e. env_edge env ?g e obj v AddrE}" for v
    proof -
      have "{obj. \<exists>e \<in> set ?q. env_edge env ?g e obj v AddrE} = {obj. \<exists>e. env_edge env ?g e obj v AddrE}"
        unfolding q by blast
      then show ?thesis unfolding 1(3) [rule_format, of v] empty by simp
    qed
    have g: "diff_inv ids_of words_ok pd" "pts_of ids_of pd v \<subseteq> {..<?N}"
        "propa_of ids_of pd v = propa_of ids_of diff_new v"
        "diff_of ids_of pd v \<noteq> diff_of ids_of diff_new v \<longrightarrow> v \<in> set w" for v
      using 1(2) unfolding grown_def by blast+
    show ?thesis
    proof (rule addr_facts_solving [OF g(1,2) pts])
      show "propa_of ids_of pd v = {}" for v unfolding g(3) empty by (rule refl)
      show "diff_of ids_of pd v \<noteq> {} \<Longrightarrow> v \<in> set w" for v using g(4) [of v] unfolding empty by blast
    qed
  qed
  moreover have "length w \<le> total_facts pd ?N"
    using 1(2) empty by (simp add: grown_def total_facts_def)
  ultimately show ?thesis using ok by (metis addr_read_simps(1) addr_read_typed(2))
qed

subsection \<open>The sample graph\<close>

definition sample_node_types :: "nat \<Rightarrow> (nat + nat) ty" where
  "sample_node_types n = (if n = 0 then Adt (0, 2) [] else RawPtr (Adt (0, 2) []) True)"

lemma sample_types_compare:
  "equivalent_ptr_types sample_tcx 9 (sample_node_types a) (sample_node_types b) \<noteq> None"
  "equal_types sample_tcx 9 (sample_node_types a) (get_dereferenced_type sample_tcx (sample_node_types b)) \<noteq> None"
proof -
  have cases: "sample_node_types n = sample_node_types 0 \<or> sample_node_types n = sample_node_types 1" for n
    by (simp add: sample_node_types_def)
  have "\<forall>a \<in> {0, 1}. \<forall>b \<in> {0, 1}. equivalent_ptr_types sample_tcx 9 (sample_node_types a) (sample_node_types b) \<noteq> None \<and>
    equal_types sample_tcx 9 (sample_node_types a) (get_dereferenced_type sample_tcx (sample_node_types b)) \<noteq> None"
    by code_simp
  then show "equivalent_ptr_types sample_tcx 9 (sample_node_types a) (sample_node_types b) \<noteq> None"
    "equal_types sample_tcx 9 (sample_node_types a) (get_dereferenced_type sample_tcx (sample_node_types b)) \<noteq> None"
    using cases [of a] cases [of b] by auto
qed

lemma sample_eval_type:
  assumes "sample_types p = Some t"
  shows "pt_eval_path_type (se_tops sample_env) sample_solver_acx p = Some (sample_solver_acx, t)"
  using assms by (simp add: sample_env_def plain_type_ops_def pag_eval_path_type_def get_path_rustc_type_def sample_solver_acx_def)

lemma sample_assignments:
  assumes "pag_add_edges list_graph_ops (pag_new list_graph_ops) copy_edges = Some (pag, es)"
    and "pag_ok list_graph_ops list_graph_ok pag"
  shows "assignments_only sample_env list_graph_ok sample_node_types (sample_solver pag)"
proof -
  let ?s = "sample_solver pag"
  note graph = copy_graph [OF assms(1)]
  have parts: "sv_pag ?s = pag" "sv_acx ?s = sample_solver_acx" "assoc_calls ?s = assoc_calls_new"
    by (simp_all add: sample_solver_def propagator_new_def)
  have node: "\<exists>p. sv_node_path sample_env ?s n = Some p \<and>
      pt_eval_path_type (se_tops sample_env) (sv_acx ?s) p = Some (sv_acx ?s, sample_node_types n)" if "n < 3" for n
  proof -
    have "n \<in> {0, 1, 2}" using that by auto
    then show ?thesis
      unfolding parts by (auto simp: sv_node_path_def node_path_def parts graph sample_env_gops list_graph_ops_def sample_node_types_def
          sample_types_def intro!: sample_eval_type)
  qed
  have "c \<in> {AddrE, DirectE}" if "env_edge sample_env (pag_graph pag) e a b c" for e a b c
  proof -
    have "e < 2" using that by (auto simp: env_edge_def edge_at_def graph sample_env_gops list_graph_ops_def split: if_splits)
    then have "e \<in> {0, 1}" by auto
    then show ?thesis using that
      by (auto simp: env_edge_def edge_at_def graph sample_env_gops list_graph_ops_def)
  qed
  moreover have "typed_graph sample_env list_graph_ok sample_node_types ?s"
  proof -
    have "g_node_count list_graph_ops (pag_graph pag) = 3" by (simp add: graph list_graph_ops_def)
    moreover have "list_graph_ok (pag_graph pag)" using assms(2) by (simp add: pag_ok_def)
    moreover have "se_tcx sample_env = sample_tcx" "se_fuel sample_env = 9" "\<not> stack_filtering sample_env"
      by (simp_all add: sample_env_def)
    ultimately show ?thesis
      using node sample_types_compare list_graph.graph_api_axioms by (simp add: typed_graph_def parts sample_env_gops)
  qed
  ultimately show ?thesis using assms(2) parts by (auto simp: assignments_only_def sample_env_gops)
qed

subsection \<open>Properties\<close>

text \<open>
  C2: on a graph of address-taking and copying edges whose nodes have their types in the context,
  and with no call waiting for facts, the solver returns: as many rounds as there are pairs of
  nodes are enough. It leaves the graph as it is, and the points-to set of every node is the least
  solution of the constraints: exactly the objects that flow to it from an address edge over
  edges between equivalent pointer types, as far as the type filter lets them pass.
\<close>

theorem solve_assignments_exact:
  fixes env :: "('c, 'g, 'cg, 'p, 'f) solver_env"
  assumes "assignments_only env g_ok ty s"
    and "sv_pt s = diff_new" "worklist s = []" "addr_edge_iter s = 0" "inter_proc_edge_iter s = []"
    and "g_node_count (se_gops env) (pag_graph (sv_pag s)) * g_node_count (se_gops env) (pag_graph (sv_pag s)) \<le> m"
  shows "\<exists>s'. solve_worklist env n m s = Some s' \<and> worklist s' = [] \<and> sv_pag s' = sv_pag s \<and>
    (\<forall>v. set (pts_iter node_pts_ops (get_cloned_pts s' v False)) = {obj. flows env ty (pag_graph (sv_pag s)) obj v})"
proof -
  let ?N = "g_node_count (se_gops env) (pag_graph (sv_pag s))"
  obtain pd w s1 where 1: "init_constraints env s = Some (with_facts s1 pd w)" "assignments_only env g_ok ty s1" "sv_pag s1 = sv_pag s"
    "solving env ty (pag_graph (sv_pag s)) pd w" "length w \<le> total_facts pd ?N"
    using start_solving [OF assms(1-5)] by blast
  obtain pd' where 2: "solve_loop env n m (with_facts s1 pd w) = Some (with_facts s1 pd' [])"
    "solving env ty (pag_graph (sv_pag s)) pd' []"
    using solve_loop_done [OF 1(2), of pd w m n] 1(3-5) assms(6) by auto
  have inv: "diff_inv ids_of words_ok pd'" using 2(2) by (simp add: solving_def)
  have "set (pts_iter node_pts_ops (get_cloned_pts (with_facts s1 pd' []) v False)) =
      {obj. flows env ty (pag_graph (sv_pag s)) obj v}" for v
    unfolding cloned_ids [OF inv] using solved_exact [OF 2(2)] by blast
  then have "solve_worklist env n m s = Some (with_facts s1 pd' []) \<and> worklist (with_facts s1 pd' []) = [] \<and>
      sv_pag (with_facts s1 pd' []) = sv_pag s \<and>
      (\<forall>v. set (pts_iter node_pts_ops (get_cloned_pts (with_facts s1 pd' []) v False)) = {obj. flows env ty (pag_graph (sv_pag s)) obj v})"
    using 1(1,3) 2(1) by (simp add: solve_worklist_def)
  then show ?thesis by blast
qed

theorem solve_assignments_exact_witness:
  "\<exists>pag es s'. pag_add_edges list_graph_ops (pag_new list_graph_ops) copy_edges = Some (pag, es) \<and>
     solve_worklist sample_env 9 9 (sample_solver pag) = Some s' \<and>
     (\<forall>v. set (pts_iter node_pts_ops (get_cloned_pts s' v False)) =
        {obj. flows sample_env sample_node_types (pag_graph pag) obj v})"
proof -
  obtain pag es where pag: "pag_add_edges list_graph_ops (pag_new list_graph_ops) copy_edges = Some (pag, es)"
    "pag_ok list_graph_ops list_graph_ok pag" using sample_build by blast
  have "\<exists>s'. solve_worklist sample_env 9 9 (sample_solver pag) = Some s' \<and> worklist s' = [] \<and>
      sv_pag s' = sv_pag (sample_solver pag) \<and>
      (\<forall>v. set (pts_iter node_pts_ops (get_cloned_pts s' v False)) =
         {obj. flows sample_env sample_node_types (pag_graph (sv_pag (sample_solver pag))) obj v})"
    using copy_graph [OF pag(1)]
    by (intro solve_assignments_exact [OF sample_assignments [OF pag]])
      (simp_all add: sample_solver_def propagator_new_def sample_env_gops list_graph_ops_def)
  then show ?thesis using pag(1) by (auto simp: sample_solver_def propagator_new_def)
qed

end
