(* ===== verification/Mir_Body.thy ===== *)
theory Mir_Body
  imports Path_Types Func_Pag
begin

section \<open>Function bodies of the compiler (MIR), and the state of their translation\<close>

text \<open>
  The bodies that \<open>src/builder/fpag_builder.rs\<close> translates, with the constructors of the
  compiler's types, and the state of \<open>FuncPAGBuilder\<close>. Spans, scopes, branch targets and what
  else the translation does not look at are left out. Log output is left out as well.
\<close>

subsection \<open>Places, operands and constants\<close>

datatype 'c place_elem =
    DerefElem
  | FieldElem nat "'c ty"
  | IndexElem nat
  | ConstantIndexElem nat nat bool
  | DowncastElem nat
  | SubsliceElem u64 u64 bool
  | OpaqueCastElem "'c ty"
  | SubtypeElem "'c ty"

record 'c place =
  pl_local :: nat
  pl_projection :: "'c place_elem list"

text \<open>An allocation of the compiler that a constant pointer leads to (\<open>GlobalAlloc\<close>).\<close>

datatype global_alloc = MemoryAlloc | StaticAlloc def_id | OtherAlloc

datatype const_value = ScalarPtr nat | ScalarInt | ZeroSized | SliceValue | IndirectValue

datatype 'c mir_const =
    TypeConst 'c "'c ty"
  | UnevaluatedConst def_id "'c generic_args" "nat option" "'c ty"
  | ValConst const_value "'c ty"

fun const_ty :: "'c mir_const \<Rightarrow> 'c ty" where
  "const_ty (TypeConst _ ty) = ty"
| "const_ty (UnevaluatedConst _ _ _ ty) = ty"
| "const_ty (ValConst _ ty) = ty"

datatype 'c operand = CopyOp "'c place" | MoveOp "'c place" | ConstantOp "'c mir_const"

subsection \<open>Values, statements and terminators\<close>

datatype pointer_coercion =
    ReifyFnPointer | UnsafeFnPointer | ClosureFnPointer | MutToConstPointer | ArrayToPointer | Unsize

datatype cast_kind =
    PointerExposeAddress | PointerFromExposedAddress | IntToInt | FloatToInt | FloatToFloat | IntToFloat
  | DynStar | PointerCoercion pointer_coercion | PtrToPtr | FnPtrToPtr | Transmute

datatype bin_op = OffsetOp | OtherBinOp

datatype 'c aggregate_kind =
    ArrayAggregate "'c ty"
  | TupleAggregate
  | AdtAggregate def_id nat "'c generic_args" "nat option"
  | ClosureAggregate def_id "'c generic_args"
  | CoroutineAggregate def_id "'c generic_args"

datatype 'c rvalue =
    Use "'c operand"
  | Repeat "'c operand" 'c
  | RefOf "'c place"
  | AddressOf "'c place"
  | ThreadLocalRef def_id
  | LenOf "'c place"
  | CastAs cast_kind "'c operand" "'c ty"
  | BinaryOp bin_op "'c operand" "'c operand"
  | CheckedBinaryOp bin_op "'c operand" "'c operand"
  | NullaryOp
  | UnaryOp "'c operand"
  | DiscriminantOf "'c place"
  | Aggregate "'c aggregate_kind" "'c operand list"
  | ShallowInitBox "'c operand" "'c ty"
  | CopyForDeref "'c place"

datatype 'c non_diverging = Assume "'c operand" | CopyNonOverlapping "'c operand" "'c operand" "'c operand"

datatype 'c statement =
    Assign "'c place" "'c rvalue"
  | FakeRead
  | SetDiscriminant "'c place" nat
  | Deinit "'c place"
  | StorageLive nat
  | StorageDead nat
  | Retag "'c place"
  | PlaceMention
  | AscribeUserType
  | Coverage
  | IntrinsicStatement "'c non_diverging"
  | ConstEvalCounter
  | Nop

datatype 'c terminator =
    CallTerminator "'c operand" "'c operand list" "'c place"
  | InlineAsm
  | OtherTerminator

record 'c body =
  local_decls :: "'c ty list"
  arg_count :: nat
  basic_blocks :: "('c statement list \<times> 'c terminator option) list"

subsection \<open>The builder\<close>

text \<open>
  What the translation asks of the compiler, beside the queries on types: whether an item is a
  static or a constant, whether a definition is a closure, where a constant pointer leads to
  (\<open>try_get_global_alloc\<close>), how the path of a definition is printed, and the trait \<open>FnOnce\<close>.
\<close>

record 'c build_env =
  be_tcx :: "'c tcx"
  be_fuel :: nat
  be_text :: "('c ty, 'c) compiler_text"
  be_from_usize :: "nat \<Rightarrow> 'c"
  be_re_static :: nat
  be_is_static :: "def_id \<Rightarrow> bool"
  be_is_const :: "def_id \<Rightarrow> bool"
  be_is_closure :: "def_id \<Rightarrow> bool"
  be_global_alloc :: "nat \<Rightarrow> global_alloc option"
  be_def_path_str :: "def_id \<Rightarrow> string"
  be_fn_once_trait :: "def_id option"

record 'c builder =
  bd_acx :: "'c analysis_context"
  bd_func_id :: func_id
  bd_func_ref :: "('c ty, 'c) function_reference"
  bd_mir :: "'c body"
  bd_fpag :: func_pag
  path_cache :: "'c place \<rightharpoonup> path"

definition builder_new ::
    "'c analysis_context \<Rightarrow> func_id \<Rightarrow> 'c body \<Rightarrow> func_pag \<Rightarrow> 'c builder option" where
  "builder_new acx func_id mir fpag =
     do { func_ref \<leftarrow> get_function_reference (acx_functions acx) func_id;
          let aux_local_index = length (local_decls mir);
          Some \<lparr>bd_acx = acx\<lparr>aux_local_indexer := (aux_local_indexer acx)(func_id \<mapsto> aux_local_index)\<rparr>,
                bd_func_id = func_id, bd_func_ref = func_ref, bd_mir = mir, bd_fpag = fpag, path_cache = Map.empty\<rparr> }"

definition bd_def_id :: "'c builder \<Rightarrow> def_id" where
  "bd_def_id b = fr_def_id (bd_func_ref b)"

definition is_promoted :: "'c builder \<Rightarrow> bool" where
  "is_promoted b \<longleftrightarrow> fr_promoted (bd_func_ref b) \<noteq> None"

definition is_static_body :: "'c build_env \<Rightarrow> 'c builder \<Rightarrow> bool" where
  "is_static_body env b = be_is_static env (bd_def_id b)"

definition is_const_body :: "'c build_env \<Rightarrow> 'c builder \<Rightarrow> bool" where
  "is_const_body env b = be_is_const env (bd_def_id b)"

text \<open>Calls of the analysis context and of the specializer.\<close>

definition bd_set_type :: "'c build_env \<Rightarrow> path \<Rightarrow> 'c ty \<Rightarrow> 'c builder \<Rightarrow> 'c builder" where
  "bd_set_type env p ty b = b\<lparr>bd_acx := set_path_rustc_type (be_tcx env) (bd_acx b) p ty\<rparr>"

definition bd_type :: "'c builder \<Rightarrow> path \<Rightarrow> 'c ty option" where
  "bd_type b p = get_path_rustc_type (bd_acx b) p"

definition bd_specialize :: "'c build_env \<Rightarrow> 'c builder \<Rightarrow> 'c ty \<Rightarrow> 'c ty option" where
  "bd_specialize env b =
     specialize_generic_argument_type (be_tcx env) (be_fuel env) (fr_generic_args (bd_func_ref b)) {}"

definition bd_specialize_args :: "'c build_env \<Rightarrow> 'c builder \<Rightarrow> 'c generic_args \<Rightarrow> 'c generic_args option" where
  "bd_specialize_args env b =
     specialize_generic_args (be_tcx env) (specialize_generic_argument_type (be_tcx env) (be_fuel env))
       (fr_generic_args (bd_func_ref b)) {}"

definition bd_func_id_of :: "'c build_env \<Rightarrow> def_id \<Rightarrow> 'c generic_args \<Rightarrow> 'c builder \<Rightarrow> ('c builder \<times> func_id) option" where
  "bd_func_id_of env d args b =
     map_option (\<lambda>(acx, i). (b\<lparr>bd_acx := acx\<rparr>, i))
       (acx_get_func_id (be_tcx env) (be_text env) (be_from_usize env) (bd_acx b) d args)"

definition bd_pointer_projections :: "'c build_env \<Rightarrow> 'c ty \<Rightarrow> 'c builder \<Rightarrow> ('c builder \<times> 'c typed_proj list) option" where
  "bd_pointer_projections env ty b =
     map_option (\<lambda>(acx, projs). (b\<lparr>bd_acx := acx\<rparr>, projs))
       (acx_pointer_projections (be_tcx env) (be_fuel env) (bd_acx b) ty)"

definition bd_update_fpag :: "(func_pag \<Rightarrow> func_pag) \<Rightarrow> 'c builder \<Rightarrow> 'c builder" where
  "bd_update_fpag f b = b\<lparr>bd_fpag := f (bd_fpag b)\<rparr>"

fun is_argumentv1_array :: "'c build_env \<Rightarrow> 'c ty \<Rightarrow> bool" where
  "is_argumentv1_array env (ArrayTy elem_ty _) = (ty_debug (be_text env) elem_ty = ''std::fmt::ArgumentV1'')"
| "is_argumentv1_array env _ = False"

subsection \<open>Predicates of the compiler on types\<close>

definition is_box_ty :: "'c build_env \<Rightarrow> 'c ty \<Rightarrow> bool" where
  "is_box_ty env ty \<longleftrightarrow> tcx_boxed (be_tcx env) ty \<noteq> None"

fun is_union_ty :: "'c build_env \<Rightarrow> 'c ty \<Rightarrow> bool" where
  "is_union_ty env (Adt def _) = (adt_kind_of (tcx_adt (be_tcx env) def) = UnionAdt)"
| "is_union_ty env _ = False"

fun is_impl_trait :: "'c ty \<Rightarrow> bool" where
  "is_impl_trait (AliasTy OpaqueAlias _ _) = True"
| "is_impl_trait _ = False"

fun is_fn_ty :: "'c ty \<Rightarrow> bool" where
  "is_fn_ty (FnDef _ _) = True"
| "is_fn_ty (FnPtrTy _) = True"
| "is_fn_ty _ = False"

end
