(* ===== verification/Fpag_Edges.thy ===== *)
theory Fpag_Edges
  imports Mir_Body
begin

section \<open>Edges and places of a function body (\<open>src/builder/fpag_builder.rs\<close>, lower half)\<close>

text \<open>
  The steps the translation of statements and calls is made of: the edges of each kind, the
  edges between values, unions, casts and transmutes, auxiliary locals, and the paths of places.
  A failing assertion, index or \<open>expect\<close> is \<open>None\<close>.
\<close>

subsection \<open>Edges\<close>

definition fb_add_edge :: "path \<Rightarrow> path \<Rightarrow> pag_edge_enum \<Rightarrow> 'c builder \<Rightarrow> 'c builder" where
  "fb_add_edge src dst kind b = bd_update_fpag (\<lambda>fpag. add_internal_edge fpag src dst kind) b"

definition fb_add_addr_edge :: "path \<Rightarrow> path \<Rightarrow> 'c builder \<Rightarrow> 'c builder" where
  "fb_add_addr_edge src dst = fb_add_edge src dst AddrPAGEdge"

definition fb_add_direct_edge :: "path \<Rightarrow> path \<Rightarrow> 'c builder \<Rightarrow> 'c builder" where
  "fb_add_direct_edge src dst = fb_add_edge src dst DirectPAGEdge"

definition fb_add_cast_edge :: "path \<Rightarrow> path \<Rightarrow> 'c builder \<Rightarrow> 'c builder" where
  "fb_add_cast_edge src dst = fb_add_edge src dst CastPAGEdge"

definition fb_add_offset_edge :: "path \<Rightarrow> path \<Rightarrow> 'c builder \<Rightarrow> 'c builder" where
  "fb_add_offset_edge src dst = fb_add_edge src dst OffsetPAGEdge"

text \<open>The base pointer and the projection behind its dereference.\<close>

fun deref_split :: "path \<Rightarrow> (path \<times> path_selector list) option" where
  "deref_split (QualifiedPath base (Deref # proj)) = Some (base, proj)"
| "deref_split _ = None"

definition fb_add_store_edge :: "path \<Rightarrow> path \<Rightarrow> 'c builder \<Rightarrow> 'c builder option" where
  "fb_add_store_edge src dst b =
     do { (base, store_proj) \<leftarrow> deref_split dst;
          Some (fb_add_edge src base (StorePAGEdge store_proj) b) }"

definition fb_add_load_edge :: "path \<Rightarrow> path \<Rightarrow> 'c builder \<Rightarrow> 'c builder option" where
  "fb_add_load_edge src dst b =
     do { (base, load_proj) \<leftarrow> deref_split src;
          Some (fb_add_edge base dst (LoadPAGEdge load_proj) b) }"

definition fb_add_gep_edge :: "path \<Rightarrow> path \<Rightarrow> 'c builder \<Rightarrow> 'c builder option" where
  "fb_add_gep_edge src dst b =
     do { (base, gep_proj) \<leftarrow> deref_split src;
          if gep_proj = [] then None else Some (fb_add_edge base dst (GepPAGEdge gep_proj) b) }"

definition new_callsite :: "func_id \<Rightarrow> location \<Rightarrow> path list \<Rightarrow> path \<Rightarrow> plain_call_site" where
  "new_callsite func_id location args destination = call_site_new func_id location args destination"

subsection \<open>Edges between values\<close>

definition add_edge_between_ptrs :: "path \<Rightarrow> path \<Rightarrow> 'c builder \<Rightarrow> 'c builder option" where
  "add_edge_between_ptrs src dst b =
     do { src_deref \<leftarrow> is_deref_path src;
          dst_deref \<leftarrow> is_deref_path dst;
          case (src_deref, dst_deref) of
            (False, False) \<Rightarrow> Some (fb_add_direct_edge src dst b)
          | (True, False) \<Rightarrow> fb_add_load_edge src dst b
          | (False, True) \<Rightarrow> fb_add_store_edge src dst b
          | (True, True) \<Rightarrow> None }"

definition add_field_edge :: "'c build_env \<Rightarrow> path \<Rightarrow> path \<Rightarrow> path_selector list \<times> 'c ty \<Rightarrow> 'c builder \<Rightarrow> 'c builder option" where
  "add_field_edge env src_path dst_path = (\<lambda>(ptr_proj, ptr_ty) b.
     do { src_field \<leftarrow> append_projection src_path ptr_proj;
          let b = bd_set_type env src_field ptr_ty b;
          dst_field \<leftarrow> append_projection dst_path ptr_proj;
          let b = bd_set_type env dst_field ptr_ty b;
          add_edge_between_ptrs src_field dst_field b })"

definition add_internal_edges ::
    "'c build_env \<Rightarrow> path \<Rightarrow> 'c ty \<Rightarrow> path \<Rightarrow> 'c ty \<Rightarrow> 'c builder \<Rightarrow> 'c builder option" where
  "add_internal_edges env src_path src_type dst_path dst_type b =
     do { equal \<leftarrow> equal_types (be_tcx env) (be_fuel env) src_type dst_type;
          if equal then
            (if is_any_ptr src_type then add_edge_between_ptrs src_path dst_path b
             else do {
               (b, ptr_projs) \<leftarrow> bd_pointer_projections env src_type b;
               fold_opt (add_field_edge env src_path dst_path) ptr_projs b })
          else Some b }"

definition fb_create_aux_local :: "'c build_env \<Rightarrow> 'c ty \<Rightarrow> 'c builder \<Rightarrow> ('c builder \<times> path) option" where
  "fb_create_aux_local env ty b =
     map_option (\<lambda>(acx, aux). (b\<lparr>bd_acx := acx\<rparr>, aux)) (create_aux_local (be_tcx env) (bd_acx b) (bd_func_id b) ty)"

definition create_dereference :: "'c build_env \<Rightarrow> path \<Rightarrow> 'c ty \<Rightarrow> 'c builder \<Rightarrow> ('c builder \<times> path) option" where
  "create_dereference env ptr_path ptr_ty b =
     do { (b, deref_path) \<leftarrow>
            (if is_qualified ptr_path then do {
               (b, aux) \<leftarrow> fb_create_aux_local env ptr_ty b;
               let b = fb_add_direct_edge ptr_path aux b;
               deref_path \<leftarrow> new_deref aux;
               Some (b, deref_path) }
             else do { deref_path \<leftarrow> new_deref ptr_path; Some (b, deref_path) });
          Some (bd_set_type env deref_path (get_dereferenced_type (be_tcx env) ptr_ty) b, deref_path) }"

subsection \<open>Casts, transmutes and unions\<close>

definition transmute_pointers ::
    "'c build_env \<Rightarrow> path \<Rightarrow> 'c ty \<Rightarrow> path \<Rightarrow> 'c ty \<Rightarrow> 'c builder \<Rightarrow> 'c builder option" where
  "transmute_pointers env source_path source_ptr_type target_path target_ptr_type b =
     (if \<not> (is_any_ptr source_ptr_type \<and> is_any_ptr target_ptr_type) then None
      else do {
        source_deref \<leftarrow> is_deref_path source_path;
        (b, source_path) \<leftarrow>
          (if source_deref then do {
             (b, aux) \<leftarrow> fb_create_aux_local env source_ptr_type b;
             b \<leftarrow> fb_add_load_edge source_path aux b;
             Some (b, aux) }
           else Some (b, source_path));
        target_deref \<leftarrow> is_deref_path target_path;
        (b, target_path) \<leftarrow>
          (if target_deref then do {
             (b, aux) \<leftarrow> fb_create_aux_local env target_ptr_type b;
             b \<leftarrow> fb_add_store_edge aux target_path b;
             Some (b, aux) }
           else Some (b, target_path));
        equivalent \<leftarrow> equivalent_ptr_types (be_tcx env) (be_fuel env) source_ptr_type target_ptr_type;
        Some (if equivalent then fb_add_direct_edge source_path target_path b
              else fb_add_cast_edge source_path target_path b) })"

fun copy_flattened_fields ::
    "'c build_env \<Rightarrow> 'c flat_field list \<Rightarrow> 'c flat_field list \<Rightarrow> 'c builder \<Rightarrow> 'c builder option" where
  "copy_flattened_fields env ((src_offset, src_field, src_type) # srcs) ((tgt_offset, tgt_field, tgt_type) # tgts) b =
     (if tgt_offset < src_offset then copy_flattened_fields env ((src_offset, src_field, src_type) # srcs) tgts b
      else if src_offset < tgt_offset then copy_flattened_fields env srcs ((tgt_offset, tgt_field, tgt_type) # tgts) b
      else do {
        b \<leftarrow> (if is_any_ptr src_type \<and> is_any_ptr tgt_type then
               transmute_pointers env src_field src_type tgt_field tgt_type
                 (bd_set_type env tgt_field tgt_type (bd_set_type env src_field src_type b))
              else Some b);
        copy_flattened_fields env srcs tgts b })"
| "copy_flattened_fields env _ _ b = Some b"

definition copy_and_transmute ::
    "'c build_env \<Rightarrow> path \<Rightarrow> 'c ty \<Rightarrow> path \<Rightarrow> 'c ty \<Rightarrow> 'c builder \<Rightarrow> 'c builder option" where
  "copy_and_transmute env source_path source_rustc_type target_path target_rustc_type b =
     do { src_flattened_fields \<leftarrow> flatten_fields (be_tcx env) (be_fuel env) (be_fuel env) source_path source_rustc_type;
          tgt_flattened_fields \<leftarrow> flatten_fields (be_tcx env) (be_fuel env) (be_fuel env) target_path target_rustc_type;
          copy_flattened_fields env src_flattened_fields tgt_flattened_fields b }"

text \<open>The unions a path leads through, with the field it takes of each.\<close>

fun union_fields_at :: "path \<Rightarrow> nat \<Rightarrow> path_selector list \<Rightarrow> (path \<times> nat) list option" where
  "union_fields_at p i [] = Some []"
| "union_fields_at p i (UnionField index # sels) =
     do { union_base \<leftarrow> truncate_projection_elems p i;
          rest \<leftarrow> union_fields_at p (Suc i) sels;
          Some ((union_base, index) # rest) }"
| "union_fields_at p i (_ # sels) = union_fields_at p (Suc i) sels"

definition retrieve_union_fields :: "path \<Rightarrow> (path \<times> nat) list option" where
  "retrieve_union_fields p =
     (case p of QualifiedPath _ projection \<Rightarrow> union_fields_at p 0 projection | _ \<Rightarrow> Some [])"

definition union_field_type :: "'c build_env \<Rightarrow> 'c generic_args \<Rightarrow> def_id \<Rightarrow> 'c builder \<Rightarrow> 'c ty option" where
  "union_field_type env args field b =
     do { t \<leftarrow> field_ty (be_tcx env) (be_fuel env) field args; bd_specialize env b t }"

definition cast_to_union_field ::
    "'c build_env \<Rightarrow> path \<Rightarrow> nat \<Rightarrow> path \<Rightarrow> 'c ty \<Rightarrow> 'c generic_args \<Rightarrow> nat \<times> def_id \<Rightarrow> 'c builder \<Rightarrow> 'c builder option" where
  "cast_to_union_field env union_path field_index source_path source_type args = (\<lambda>(i, field) b.
     (if i = field_index then Some b
      else do {
        target_type \<leftarrow> union_field_type env args field b;
        target_path \<leftarrow> new_union_field union_path i;
        let b = bd_set_type env target_path target_type b;
        copy_and_transmute env source_path source_type target_path target_type b }))"

definition cast_from_union_field :: "'c build_env \<Rightarrow> path \<times> nat \<Rightarrow> 'c builder \<Rightarrow> 'c builder option" where
  "cast_from_union_field env = (\<lambda>(union_path, field_index) b.
     do { union_type \<leftarrow> bd_type b union_path;
          case union_type of
            Adt def substs \<Rightarrow> do {
              let all_fields = concat (adt_variants (tcx_adt (be_tcx env) def));
              source_field \<leftarrow> nth_opt all_fields field_index;
              source_type \<leftarrow> union_field_type env substs source_field b;
              source_path \<leftarrow> new_union_field union_path field_index;
              let b = bd_set_type env source_path source_type b;
              fold_opt (cast_to_union_field env union_path field_index source_path source_type substs)
                (enumerate 0 all_fields) b }
          | _ \<Rightarrow> None })"

definition cast_between_union_fields :: "'c build_env \<Rightarrow> path \<Rightarrow> 'c builder \<Rightarrow> 'c builder option" where
  "cast_between_union_fields env p b =
     do { union_fields \<leftarrow> retrieve_union_fields p;
          fold_opt (cast_from_union_field env) union_fields b }"

definition add_fnptr_cast_edge :: "'c build_env \<Rightarrow> path \<Rightarrow> path \<Rightarrow> 'c ty \<Rightarrow> 'c builder \<Rightarrow> 'c builder option" where
  "add_fnptr_cast_edge env lh_path rh_path ty b =
     (case lh_path of
        QualifiedPath _ [] \<Rightarrow> None
      | QualifiedPath _ (Deref # _) \<Rightarrow>
          if is_fn_ptr ty then do {
            (b, aux) \<leftarrow> fb_create_aux_local env ty b;
            let b = fb_add_addr_edge rh_path aux b;
            fb_add_store_edge aux lh_path b }
          else None
      | _ \<Rightarrow> Some (fb_add_addr_edge rh_path lh_path b))"

subsection \<open>Function items and closures\<close>

definition visit_function_reference ::
    "'c build_env \<Rightarrow> def_id \<Rightarrow> 'c generic_args \<Rightarrow> 'c builder \<Rightarrow> ('c builder \<times> path) option" where
  "visit_function_reference env d gen_args b =
     do { substs \<leftarrow> bd_specialize_args env b gen_args;
          (d, substs) \<leftarrow> resolve_fn_def (be_tcx env) d substs;
          (b, func_id) \<leftarrow> bd_func_id_of env d substs b;
          let p = new_function func_id;
          Some (bd_set_type env p (FnDef d substs) b, p) }"

definition new_closure_path :: "'c build_env \<Rightarrow> 'c ty \<Rightarrow> 'c builder \<Rightarrow> ('c builder \<times> path) option" where
  "new_closure_path env closure_ty b =
     do { closure_ty \<leftarrow> bd_specialize env b closure_ty;
          case closure_ty of
            Closure d args \<Rightarrow> do {
              (b, func_id) \<leftarrow> bd_func_id_of env d args b;
              let p = new_function func_id;
              Some (bd_set_type env p closure_ty b, p) }
          | _ \<Rightarrow> None }"

subsection \<open>Places\<close>

text \<open>\<open>Box.0\<close> is the \<open>Unique\<close>, whose field 0 is the \<open>NonNull\<close>, whose field 0 is the pointer.\<close>

definition get_box_pointer_field :: "'c build_env \<Rightarrow> path \<Rightarrow> 'c ty \<Rightarrow> 'c builder \<Rightarrow> ('c builder \<times> path) option" where
  "get_box_pointer_field env box_path ty b =
     do { value_path \<leftarrow> append_projection box_path [Field 0, Field 0, Field 0];
          case bd_type b value_path of
            None \<Rightarrow> do {
              deref_ty \<leftarrow> bd_specialize env b ty;
              Some (bd_set_type env value_path (RawPtr deref_ty False) b, value_path) }
          | Some _ \<Rightarrow> Some (b, value_path) }"

definition bd_type_index :: "'c build_env \<Rightarrow> 'c ty \<Rightarrow> 'c builder \<Rightarrow> 'c builder \<times> nat" where
  "bd_type_index env ty b = (case get_type_index (be_tcx env) (bd_acx b) ty of (acx, i) \<Rightarrow> (b\<lparr>bd_acx := acx\<rparr>, i))"

fun visit_projection_elem :: "'c build_env \<Rightarrow> 'c ty \<Rightarrow> 'c place_elem \<Rightarrow> 'c builder \<Rightarrow> 'c builder \<times> path_selector" where
  "visit_projection_elem env base_ty DerefElem b = (b, Deref)"
| "visit_projection_elem env base_ty (FieldElem f _) b = (b, if is_union_ty env base_ty then UnionField f else Field f)"
| "visit_projection_elem env base_ty (IndexElem _) b = (b, Index)"
| "visit_projection_elem env base_ty (ConstantIndexElem _ _ _) b = (b, Index)"
| "visit_projection_elem env base_ty (DowncastElem i) b = (b, Downcast i)"
| "visit_projection_elem env base_ty (SubsliceElem start stop from_end) b = (b, Subslice start stop from_end)"
| "visit_projection_elem env base_ty (OpaqueCastElem ty) b = map_prod id Cast (bd_type_index env ty b)"
| "visit_projection_elem env base_ty (SubtypeElem ty) b = map_prod id Cast (bd_type_index env ty b)"

text \<open>
  One element of a projection: the base path, the type and the selectors up to it give those
  behind it. Subslices and casts of opaque types are skipped, the selector of the latter having
  been computed.
\<close>

definition deref_base ::
    "'c build_env \<Rightarrow> path \<Rightarrow> 'c ty \<Rightarrow> 'c builder \<Rightarrow> ('c builder \<times> path) option" where
  "deref_base env base_path ty b =
     (case tcx_boxed (be_tcx env) ty of
        None \<Rightarrow> Some (b, base_path)
      | Some boxed_ty \<Rightarrow> do {
          (b, box_ptr_field) \<leftarrow> get_box_pointer_field env base_path boxed_ty b;
          box_ptr_ty \<leftarrow> bd_type b box_ptr_field;
          (b, aux) \<leftarrow> fb_create_aux_local env box_ptr_ty b;
          Some (fb_add_direct_edge box_ptr_field aux b, aux) })"

definition cache_union_type :: "'c build_env \<Rightarrow> path \<Rightarrow> 'c ty \<Rightarrow> path_selector list \<Rightarrow> 'c builder \<Rightarrow> 'c builder option" where
  "cache_union_type env base_path ty selectors b =
     (if is_union_ty env ty then do {
        union_path \<leftarrow> (if selectors = [] then Some base_path else new_qualified base_path selectors);
        union_ty \<leftarrow> bd_specialize env b ty;
        Some (bd_set_type env union_path union_ty b) }
      else Some b)"

fun visit_projection_step ::
    "'c build_env \<Rightarrow> 'c place_elem \<Rightarrow> 'c builder \<times> path \<times> 'c ty \<times> path_selector list \<Rightarrow>
     ('c builder \<times> path \<times> 'c ty \<times> path_selector list) option" where
  "visit_projection_step env elem (b, base_path, ty, selectors) =
     (case visit_projection_elem env ty elem b of (b, selector) \<Rightarrow>
        (case elem of
           DerefElem \<Rightarrow> do {
             (b, base_path) \<leftarrow> deref_base env base_path ty b;
             Some (b, base_path, get_dereferenced_type (be_tcx env) ty, selectors @ [selector]) }
         | FieldElem _ fty \<Rightarrow> do {
             b \<leftarrow> cache_union_type env base_path ty selectors b;
             ty \<leftarrow> bd_specialize env b fty;
             Some (b, base_path, ty, selectors @ [selector]) }
         | IndexElem _ \<Rightarrow> Some (b, base_path, get_element_type ty, selectors @ [selector])
         | ConstantIndexElem _ _ _ \<Rightarrow> Some (b, base_path, get_element_type ty, selectors @ [selector])
         | DowncastElem variant_idx \<Rightarrow> do {
             ty \<leftarrow> get_downcast_type (be_tcx env) (be_fuel env) ty variant_idx;
             Some (b, base_path, ty, selectors @ [selector]) }
         | SubsliceElem _ _ _ \<Rightarrow> Some (b, base_path, ty, selectors)
         | OpaqueCastElem _ \<Rightarrow> Some (b, base_path, ty, selectors)
         | SubtypeElem _ \<Rightarrow> Some (b, base_path, ty, selectors)))"

definition visit_projection ::
    "'c build_env \<Rightarrow> path \<Rightarrow> 'c ty \<Rightarrow> 'c place_elem list \<Rightarrow> 'c builder \<Rightarrow> ('c builder \<times> path \<times> 'c ty) option" where
  "visit_projection env base_path base_ty projection b =
     do { (b, base_path, ty, selectors) \<leftarrow> fold_opt (visit_projection_step env) projection (b, base_path, base_ty, []);
          result \<leftarrow> (if selectors = [] then Some base_path else new_qualified base_path selectors);
          Some (b, result, ty) }"

definition get_path_for_place :: "'c build_env \<Rightarrow> 'c place \<Rightarrow> 'c builder \<Rightarrow> ('c builder \<times> path) option" where
  "get_path_for_place env place b =
     (case path_cache b place of
        Some p \<Rightarrow> Some (b, p)
      | None \<Rightarrow> do {
          let base_path = new_local_parameter_or_result (bd_func_id b) (pl_local place) (arg_count (bd_mir b));
          decl_ty \<leftarrow> nth_opt (local_decls (bd_mir b)) (pl_local place);
          local_ty \<leftarrow> bd_specialize env b decl_ty;
          let b = bd_set_type env base_path local_ty b;
          if pl_projection place = [] then
            Some (b\<lparr>path_cache := (path_cache b)(place \<mapsto> base_path)\<rparr>, base_path)
          else do {
            (b, p, ty) \<leftarrow> visit_projection env base_path local_ty (pl_projection place) b;
            let b = bd_set_type env p ty b;
            Some (b\<lparr>path_cache := (path_cache b)(place \<mapsto> p)\<rparr>, p) } })"

definition get_path_and_type_for_place ::
    "'c build_env \<Rightarrow> 'c place \<Rightarrow> 'c builder \<Rightarrow> ('c builder \<times> path \<times> 'c ty) option" where
  "get_path_and_type_for_place env place b =
     do { (b, p) \<leftarrow> get_path_for_place env place b;
          ty \<leftarrow> bd_type b p;
          Some (b, p, ty) }"

end
