(* ===== verification/Fpag_Calls.thy ===== *)
theory Fpag_Calls
  imports Fpag_Edges
begin

section \<open>Calls through the \<open>Fn\<close> traits (\<open>src/builder/fpag_builder.rs\<close>)\<close>

text \<open>
  \<open>Fn::call\<close>, \<open>FnMut::call_mut\<close> and \<open>FnOnce::call_once\<close> take a callable and a tuple of
  arguments. The tuple is unpacked, and the call becomes one of the function, the closure, the
  function pointer or the trait object that the first generic argument stands for.
\<close>

definition unpack_tuple_arg :: "'c build_env \<Rightarrow> path \<Rightarrow> nat \<times> 'c ty \<Rightarrow> 'c builder \<times> path list \<Rightarrow> ('c builder \<times> path list) option" where
  "unpack_tuple_arg env args_tuple_path = (\<lambda>(i, ty) (b, actual_args).
     do { arg \<leftarrow> new_qualified args_tuple_path [Field i];
          Some (bd_set_type env arg ty b, actual_args @ [arg]) })"

definition actual_arg_types :: "'c builder \<Rightarrow> path \<Rightarrow> 'c ty list option" where
  "actual_arg_types b args_tuple_path =
     (if is_constant args_tuple_path then Some []
      else do {
        ty \<leftarrow> bd_type b args_tuple_path;
        case ty of TupleTy tuple_types \<Rightarrow> Some tuple_types | _ \<Rightarrow> None })"

definition inline_fn_item ::
    "'c build_env \<Rightarrow> def_id \<Rightarrow> 'c generic_args \<Rightarrow> path list \<Rightarrow> path \<Rightarrow> location \<Rightarrow> 'c builder \<Rightarrow> 'c builder option" where
  "inline_fn_item env d substs actual_args destination location b =
     do { (d, substs) \<leftarrow> resolve_fn_def (be_tcx env) d substs;
          (b, callee_func_id) \<leftarrow> bd_func_id_of env d substs b;
          let callsite = new_callsite (bd_func_id b) location actual_args destination;
          Some (bd_update_fpag (\<lambda>fpag. add_static_dispatch_callsite fpag callsite callee_func_id) b) }"

text \<open>A closure that wants a reference to itself gets an auxiliary one.\<close>

definition inline_closure ::
    "'c build_env \<Rightarrow> 'c ty \<Rightarrow> def_id \<Rightarrow> 'c generic_args \<Rightarrow> path \<Rightarrow> path list \<Rightarrow> path \<Rightarrow> location \<Rightarrow> 'c builder \<Rightarrow> 'c builder option" where
  "inline_closure env closure_ty d substs callee_arg actual_args destination location b =
     do { first_arg_type \<leftarrow> bd_type b callee_arg;
          (b, callee_arg) \<leftarrow>
            (case nth_opt (tcx_local_decls (be_tcx env) d) 1 of
               Some decl_ty \<Rightarrow>
                 (if is_ref decl_ty \<and> \<not> is_ref first_arg_type then do {
                    (b, closure_ref_path) \<leftarrow> fb_create_aux_local env (RefTy (be_re_static env) closure_ty True) b;
                    Some (fb_add_addr_edge callee_arg closure_ref_path b, closure_ref_path) }
                  else Some (b, callee_arg))
             | None \<Rightarrow> Some (b, callee_arg));
          let callsite = new_callsite (bd_func_id b) location (callee_arg # actual_args) destination;
          (b, callee_func_id) \<leftarrow> bd_func_id_of env d substs b;
          Some (bd_update_fpag (\<lambda>fpag. add_static_dispatch_callsite fpag callsite callee_func_id) b) }"

definition inline_fn_ptr ::
    "'c build_env \<Rightarrow> path \<Rightarrow> path list \<Rightarrow> path \<Rightarrow> location \<Rightarrow> 'c builder \<Rightarrow> 'c builder option" where
  "inline_fn_ptr env callee_arg actual_args destination location b =
     do { let callsite = new_callsite (bd_func_id b) location actual_args destination;
          first_arg_type \<leftarrow> bd_type b callee_arg;
          (b, fn_ptr) \<leftarrow>
            (if \<not> is_fn_ptr first_arg_type \<and> is_any_ptr first_arg_type then do {
               (b, aux) \<leftarrow> fb_create_aux_local env (get_dereferenced_type (be_tcx env) first_arg_type) b;
               (b, deref_path) \<leftarrow> create_dereference env callee_arg first_arg_type b;
               b \<leftarrow> fb_add_load_edge deref_path aux b;
               Some (b, aux) }
             else Some (b, callee_arg));
          Some (bd_update_fpag (\<lambda>fpag. add_fnptr_callsite fpag fn_ptr callsite) b) }"

definition inline_dynamic ::
    "'c build_env \<Rightarrow> def_id \<Rightarrow> 'c generic_args \<Rightarrow> path \<Rightarrow> path list \<Rightarrow> path \<Rightarrow> location \<Rightarrow> 'c builder \<Rightarrow> 'c builder option" where
  "inline_dynamic env callee_def_id gen_args dyn_fn_obj args destination location b =
     do { let dyn_callsite = new_callsite (bd_func_id b) location args destination;
          let b = b\<lparr>bd_acx := add_dyn_callsite (bd_acx b) (base_from id dyn_callsite) callee_def_id gen_args\<rparr>;
          first_arg_type \<leftarrow> bd_type b dyn_fn_obj;
          if \<not> is_any_ptr first_arg_type then
            (case dyn_fn_obj of
               QualifiedPath base projection \<Rightarrow>
                 (if projection = [] then None
                  else if projection = [Deref]
                  then Some (bd_update_fpag (\<lambda>fpag. add_dynamic_fntrait_callsite fpag base dyn_callsite) b)
                  else Some b)
             | _ \<Rightarrow> Some b)
          else Some (bd_update_fpag (\<lambda>fpag. add_dynamic_fntrait_callsite fpag dyn_fn_obj dyn_callsite) b) }"

definition inline_indirectly_called_function ::
    "'c build_env \<Rightarrow> def_id \<Rightarrow> 'c generic_args \<Rightarrow> path list \<Rightarrow> path \<Rightarrow> location \<Rightarrow> 'c builder \<Rightarrow> 'c builder option" where
  "inline_indirectly_called_function env callee_def_id gen_args args destination location b =
     (case args of
        [callee_arg, args_tuple_path] \<Rightarrow> do {
          arg_types \<leftarrow> actual_arg_types b args_tuple_path;
          (b, actual_args) \<leftarrow> fold_opt (unpack_tuple_arg env args_tuple_path) (enumerate 0 arg_types) (b, []);
          first_subst_ty \<leftarrow> next_type gen_args;
          case first_subst_ty of
            FnDef d substs \<Rightarrow> inline_fn_item env d substs actual_args destination location b
          | Closure d substs \<Rightarrow> inline_closure env first_subst_ty d substs callee_arg actual_args destination location b
          | Coroutine d substs \<Rightarrow> inline_closure env first_subst_ty d substs callee_arg actual_args destination location b
          | FnPtrTy _ \<Rightarrow> inline_fn_ptr env callee_arg actual_args destination location b
          | DynamicTy _ _ \<Rightarrow> inline_dynamic env callee_def_id gen_args callee_arg args destination location b
          | _ \<Rightarrow> Some b }
      | _ \<Rightarrow> None)"

text \<open>
  \<open>resolve_fntrait_call\<close>: a user-defined implementation of a \<open>Fn\<close> trait is called directly, the
  built-in ones have no body and are inlined.
\<close>

definition bd_in_ops_func_namespace :: "'c build_env \<Rightarrow> def_id \<Rightarrow> 'c builder \<Rightarrow> 'c builder \<times> bool" where
  "bd_in_ops_func_namespace env d b =
     (case def_in_ops_func_namespace (be_tcx env) (acx_known_names (bd_acx b)) d of
        (cache, r) \<Rightarrow> (b\<lparr>bd_acx := (bd_acx b)\<lparr>acx_known_names := cache\<rparr>\<rparr>, r))"

definition resolve_fntrait_call ::
    "'c build_env \<Rightarrow> def_id \<Rightarrow> 'c generic_args \<Rightarrow> path list \<Rightarrow> path \<Rightarrow> location \<Rightarrow> 'c builder \<Rightarrow> 'c builder option" where
  "resolve_fntrait_call env callee_def_id gen_args args destination location b =
     (if \<not> tcx_args_normalize (be_tcx env) gen_args then Some b
      else
        (case tcx_resolve (be_tcx env) RevealAll callee_def_id gen_args of
           None \<Rightarrow> Some b
         | Some (resolved_def_id, instance_args) \<Rightarrow>
             (if be_is_closure env resolved_def_id
              then inline_indirectly_called_function env callee_def_id gen_args args destination location b
              else if \<not> tcx_is_mir_available (be_tcx env) resolved_def_id then
                (case bd_in_ops_func_namespace env resolved_def_id b of
                   (b, True) \<Rightarrow> inline_indirectly_called_function env callee_def_id gen_args args destination location b
                 | (b, False) \<Rightarrow> Some b)
              else do {
                let callsite = new_callsite (bd_func_id b) location args destination;
                (b, callee_func_id) \<leftarrow> bd_func_id_of env resolved_def_id instance_args b;
                Some (bd_update_fpag (\<lambda>fpag. add_static_dispatch_callsite fpag callsite callee_func_id) b) })))"

end
