(* ===== verification/Special_Functions.thy ===== *)
theory Special_Functions
  imports Fpag_Calls
begin

section \<open>Calls with a built-in summary (\<open>src/builder/special_function_handler.rs\<close>)\<close>

text \<open>
  Calls of allocation, pointer arithmetic, transmutes, threads and a few more functions of the
  standard library are not translated as calls; their effect is added to the graph of the caller.
\<close>

definition SPECIALLY_HANDLED_FUNCTIONS :: "known_names list" where
  "SPECIALLY_HANDLED_FUNCTIONS =
     map Intrinsic [StdIntrinsicsTransmute, StdIntrinsicsOffset, StdIntrinsicsArithOffset] @
     map PtrName
       [StdPtrConstPtrCast, StdPtrConstPtrAdd, StdPtrConstPtrSub, StdPtrConstPtrOffset, StdPtrConstPtrByteAdd,
        StdPtrConstPtrByteSub, StdPtrConstPtrByteOffset, StdPtrConstPtrWrappingAdd, StdPtrConstPtrWrappingSub,
        StdPtrConstPtrWrappingOffset, StdPtrConstPtrWrappingByteAdd, StdPtrConstPtrWrappingByteSub,
        StdPtrConstPtrWrappingByteOffset, StdPtrMutPtrCast, StdPtrMutPtrAdd, StdPtrMutPtrSub, StdPtrMutPtrOffset,
        StdPtrMutPtrByteAdd, StdPtrMutPtrByteSub, StdPtrMutPtrByteOffset, StdPtrMutPtrWrappingAdd,
        StdPtrMutPtrWrappingSub, StdPtrMutPtrWrappingOffset, StdPtrMutPtrWrappingByteAdd,
        StdPtrMutPtrWrappingByteSub, StdPtrMutPtrWrappingByteOffset] @
     [AllocName AllocRawVecAllocateIn, StdThreadBuilderSpawnUnchecked, PtrName StdPtrNonNullAsPtr,
      PtrName StdPtrUniqueNewUnchecked, StdResultMapErr] @
     map AllocName
       [RustAlloc, RustAllocZeroed, StdAllocAlloc, StdAllocAllocZeroed, StdAllocExchangeMalloc,
        StdAllocAllocatorAllocate, StdAllocAllocatorAllocateZeroed, RustRealloc, StdAllocRealloc,
        StdAllocAllocatorGrow, StdAllocAllocatorGrowZeroed, StdAllocAllocatorShrink, RustDealloc,
        RustAllocErrorHandler, StdAllocDealloc, StdAllocBoxFree, StdAllocHandleAllocError,
        StdAllocAllocatorDeallocate]"

definition is_specially_handled_function ::
    "'c tcx \<Rightarrow> 'c analysis_context \<Rightarrow> def_id \<Rightarrow> 'c analysis_context \<times> bool" where
  "is_specially_handled_function tcx acx d =
     (case acx_known_name_for tcx acx d of (acx, k) \<Rightarrow> (acx, k \<in> set SPECIALLY_HANDLED_FUNCTIONS))"

subsection \<open>Types\<close>

definition u8_ty :: "'c ty" where
  "u8_ty = UintTy 1"

definition const_rawptr_type :: "'c ty \<Rightarrow> 'c ty" where
  "const_rawptr_type ty = RawPtr ty False"

definition const_u8_rawptr_type :: "'c ty" where
  "const_u8_rawptr_type = RawPtr (SliceTy u8_ty) False"

fun is_std_ptr_unique :: "'c build_env \<Rightarrow> 'c ty \<Rightarrow> bool" where
  "is_std_ptr_unique env (Adt def _) = (be_def_path_str env def = ''std::ptr::Unique'')"
| "is_std_ptr_unique env _ = False"

fun is_std_ptr_nonnull :: "'c build_env \<Rightarrow> 'c ty \<Rightarrow> bool" where
  "is_std_ptr_nonnull env (Adt def _) = (be_def_path_str env def = ''std::ptr::NonNull'')"
| "is_std_ptr_nonnull env _ = False"

text \<open>\<open>gen_args.get(i).expect(..).expect_ty()\<close>, and the type arguments of \<open>into_type_list\<close>.\<close>

definition nth_type :: "'c generic_args \<Rightarrow> nat \<Rightarrow> 'c ty option" where
  "nth_type gen_args i =
     do { arg \<leftarrow> nth_opt gen_args i;
          case arg of TypeKind ty \<Rightarrow> Some ty | _ \<Rightarrow> None }"

definition type_list_of :: "'c generic_args \<Rightarrow> 'c ty list option" where
  "type_list_of gen_args = those (map (\<lambda>arg. case arg of TypeKind ty \<Rightarrow> Some ty | _ \<Rightarrow> None) gen_args)"

subsection \<open>The summaries\<close>

definition handle_transmute ::
    "'c build_env \<Rightarrow> 'c generic_args \<Rightarrow> path list \<Rightarrow> path \<Rightarrow> 'c builder \<Rightarrow> 'c builder option" where
  "handle_transmute env gen_args args destination b =
     do { source_path \<leftarrow> nth_opt args 0;
          source_rustc_type \<leftarrow> nth_type gen_args 0;
          target_rustc_type \<leftarrow> bd_type b destination;
          copy_and_transmute env source_path source_rustc_type destination target_rustc_type b }"

definition fb_handle_offset :: "path list \<Rightarrow> path \<Rightarrow> 'c builder \<Rightarrow> 'c builder option" where
  "fb_handle_offset args destination b =
     do { source_path \<leftarrow> nth_opt args 0;
          Some (fb_add_offset_edge source_path destination b) }"

definition handle_ptr_cast :: "path list \<Rightarrow> path \<Rightarrow> 'c builder \<Rightarrow> 'c builder option" where
  "handle_ptr_cast args destination b =
     do { source_path \<leftarrow> nth_opt args 0;
          Some (fb_add_cast_edge source_path destination b) }"

text \<open>The heap object of a call, with the type \<open>u8\<close>, seen as an object of another type.\<close>

definition new_heap_object :: "'c build_env \<Rightarrow> location \<Rightarrow> 'c builder \<Rightarrow> 'c builder \<times> path" where
  "new_heap_object env location b =
     (let heap_object_path = new_heap_obj (fp_func_id (bd_fpag b)) location
      in (bd_set_type env heap_object_path u8_ty b, heap_object_path))"

definition cast_heap_object :: "'c build_env \<Rightarrow> path \<Rightarrow> 'c ty \<Rightarrow> 'c builder \<Rightarrow> ('c builder \<times> path) option" where
  "cast_heap_object env heap_object_path ty b =
     do { (acx, r) \<leftarrow> cast_to (be_tcx env) (be_fuel env) (bd_acx b) heap_object_path ty;
          p \<leftarrow> r;
          Some (b\<lparr>bd_acx := acx\<rparr>, p) }"

text \<open>The address of an object is stored to a field of the result over an auxiliary local.\<close>

definition add_addr_over_aux :: "'c build_env \<Rightarrow> path \<Rightarrow> path \<Rightarrow> 'c ty \<Rightarrow> 'c builder \<Rightarrow> 'c builder option" where
  "add_addr_over_aux env obj dst_ptr_path ptr_ty b =
     do { let b = bd_set_type env dst_ptr_path ptr_ty b;
          (acx, aux) \<leftarrow> create_aux_local (be_tcx env) (bd_acx b) (fp_func_id (bd_fpag b)) ptr_ty;
          let b = fb_add_addr_edge obj aux (b\<lparr>bd_acx := acx\<rparr>);
          Some (fb_add_direct_edge aux dst_ptr_path b) }"

definition handle_raw_vec_allocate_in ::
    "'c build_env \<Rightarrow> 'c generic_args \<Rightarrow> path \<Rightarrow> location \<Rightarrow> 'c builder \<Rightarrow> 'c builder option" where
  "handle_raw_vec_allocate_in env gen_args destination location b =
     (case new_heap_object env location b of (b, heap_object_path) \<Rightarrow>
        do { generic_type \<leftarrow> nth_type gen_args 0;
             let b = b\<lparr>bd_acx := (bd_acx b)\<lparr>concretized_heap_objs :=
                          (concretized_heap_objs (bd_acx b))(heap_object_path \<mapsto> generic_type)\<rparr>\<rparr>;
             (b, cast_heap_object_path) \<leftarrow> cast_heap_object env heap_object_path generic_type b;
             dst_ptr_path \<leftarrow> new_qualified destination [Field 0, Field 0, Field 0];
             add_addr_over_aux env cast_heap_object_path dst_ptr_path (const_rawptr_type generic_type) b })"

definition handle_thread_builder_spawn_unchecked ::
    "'c build_env \<Rightarrow> 'c generic_args \<Rightarrow> path list \<Rightarrow> location \<Rightarrow> 'c builder \<Rightarrow> 'c builder option" where
  "handle_thread_builder_spawn_unchecked env gen_args args location b =
     do { fn_once_defid \<leftarrow> be_fn_once_trait env;
          dst_ty \<leftarrow> nth_type gen_args 1;
          (b, aux_arg) \<leftarrow> fb_create_aux_local env (TupleTy []) b;
          arg \<leftarrow> nth_opt args 1;
          (b, aux_dst) \<leftarrow> fb_create_aux_local env dst_ty b;
          inline_indirectly_called_function env fn_once_defid gen_args [arg, aux_arg] aux_dst
            (fst location, snd location + 1) b }"

definition handle_non_null_as_ptr :: "'c build_env \<Rightarrow> path list \<Rightarrow> path \<Rightarrow> 'c builder \<Rightarrow> 'c builder option" where
  "handle_non_null_as_ptr env args destination b =
     do { source_path \<leftarrow> nth_opt args 0;
          fld \<leftarrow> new_field source_path 0;
          ty \<leftarrow> bd_type b destination;
          Some (fb_add_direct_edge fld destination (bd_set_type env fld ty b)) }"

definition handle_unique_new_unchecked :: "path list \<Rightarrow> path \<Rightarrow> 'c builder \<Rightarrow> 'c builder option" where
  "handle_unique_new_unchecked args destination b =
     do { dst_field_path \<leftarrow> new_qualified destination [Field 0, Field 0];
          source_path \<leftarrow> nth_opt args 0;
          Some (fb_add_direct_edge source_path dst_field_path b) }"

definition handle_result_map_err ::
    "'c build_env \<Rightarrow> 'c generic_args \<Rightarrow> path list \<Rightarrow> path \<Rightarrow> 'c builder \<Rightarrow> 'c builder option" where
  "handle_result_map_err env gen_args args destination b =
     do { arg \<leftarrow> nth_opt args 0;
          if is_qualified arg then None
          else do {
            source_path \<leftarrow> new_qualified arg [Downcast 0, Field 0];
            source_rustc_type \<leftarrow> nth_type gen_args 0;
            target_path \<leftarrow> new_qualified destination [Downcast 0, Field 0];
            add_internal_edges env source_path source_rustc_type target_path source_rustc_type b } }"

text \<open>\<open>handle_slice_index_index\<close> is not called.\<close>

definition handle_slice_index_index ::
    "'c build_env \<Rightarrow> path list \<Rightarrow> path \<Rightarrow> 'c builder \<Rightarrow> ('c builder \<times> bool) option" where
  "handle_slice_index_index env args destination b =
     do { slice_path \<leftarrow> nth_opt args 1;
          slice_ty \<leftarrow> bd_type b slice_path;
          dst_ty \<leftarrow> bd_type b destination;
          if slice_ty = dst_ty then do {
            b \<leftarrow> add_internal_edges env slice_path slice_ty destination dst_ty b;
            Some (b, True) }
          else Some (b, False) }"

definition handle_unique_into_nonnull :: "'c build_env \<Rightarrow> path list \<Rightarrow> path \<Rightarrow> 'c builder \<Rightarrow> 'c builder option" where
  "handle_unique_into_nonnull env args destination b =
     do { arg \<leftarrow> nth_opt args 0;
          if is_qualified arg then None
          else do {
            source_path \<leftarrow> new_field arg 0;
            r \<leftarrow> try_eval_path_type (be_tcx env) (be_fuel env) (bd_acx b) source_path;
            source_rustc_type \<leftarrow> r;
            target_rustc_type \<leftarrow> bd_type b destination;
            add_internal_edges env source_path source_rustc_type destination target_rustc_type b } }"

definition handle_alloc ::
    "'c build_env \<Rightarrow> known_names \<Rightarrow> path list \<Rightarrow> path \<Rightarrow> location \<Rightarrow> 'c builder \<Rightarrow> ('c builder \<times> bool) option" where
  "handle_alloc env callee_known_name args destination location b =
     (if callee_known_name \<in> AllocName ` {RustAlloc, RustAllocZeroed, StdAllocAlloc, StdAllocAllocZeroed, StdAllocExchangeMalloc}
      then
        (case new_heap_object env location b of (b, heap_object_path) \<Rightarrow>
           Some (fb_add_addr_edge heap_object_path destination b, True))
      else if callee_known_name \<in> AllocName ` {StdAllocAllocatorAllocate, StdAllocAllocatorAllocateZeroed}
      then
        (case new_heap_object env location b of (b, heap_object_path) \<Rightarrow>
           do { (b, cast_heap_object_path) \<leftarrow> cast_heap_object env heap_object_path (SliceTy u8_ty) b;
                qualified_path \<leftarrow> new_qualified destination [Downcast 0, Field 0, Field 0];
                b \<leftarrow> add_addr_over_aux env cast_heap_object_path qualified_path const_u8_rawptr_type b;
                Some (b, True) })
      else if callee_known_name \<in> AllocName ` {RustRealloc, StdAllocRealloc}
      then do { source_path \<leftarrow> nth_opt args 0; Some (fb_add_direct_edge source_path destination b, True) }
      else if callee_known_name \<in> AllocName ` {StdAllocAllocatorGrow, StdAllocAllocatorGrowZeroed, StdAllocAllocatorShrink}
      then do {
        arg \<leftarrow> nth_opt args 1;
        src_ptr_path \<leftarrow> new_qualified arg [Field 0];
        dst_ptr_path \<leftarrow> new_qualified destination [Downcast 0, Field 0, Field 0];
        Some (fb_add_cast_edge src_ptr_path dst_ptr_path (bd_set_type env dst_ptr_path const_u8_rawptr_type b), True) }
      else Some (b, callee_known_name \<in> AllocName `
        {RustDealloc, RustAllocErrorHandler, StdAllocDealloc, StdAllocBoxFree, StdAllocHandleAllocError,
         StdAllocAllocatorDeallocate}))"

subsection \<open>The dispatch\<close>

definition bd_known_name :: "'c build_env \<Rightarrow> def_id \<Rightarrow> 'c builder \<Rightarrow> 'c builder \<times> known_names" where
  "bd_known_name env d b =
     (case acx_known_name_for (be_tcx env) (bd_acx b) d of (acx, k) \<Rightarrow> (b\<lparr>bd_acx := acx\<rparr>, k))"

abbreviation handled :: "'c builder option \<Rightarrow> ('c builder \<times> bool) option" where
  "handled r \<equiv> map_option (\<lambda>b. (b, True)) r"

definition offset_functions :: "known_names list" where
  "offset_functions =
     map Intrinsic [StdIntrinsicsOffset, StdIntrinsicsArithOffset] @
     map PtrName
       [StdPtrConstPtrAdd, StdPtrConstPtrSub, StdPtrConstPtrOffset, StdPtrConstPtrByteAdd,
        StdPtrConstPtrByteSub, StdPtrConstPtrByteOffset, StdPtrConstPtrWrappingAdd, StdPtrConstPtrWrappingSub,
        StdPtrConstPtrWrappingOffset, StdPtrConstPtrWrappingByteAdd, StdPtrConstPtrWrappingByteSub,
        StdPtrConstPtrWrappingByteOffset, StdPtrMutPtrAdd, StdPtrMutPtrSub, StdPtrMutPtrOffset,
        StdPtrMutPtrByteAdd, StdPtrMutPtrByteSub, StdPtrMutPtrByteOffset, StdPtrMutPtrWrappingAdd,
        StdPtrMutPtrWrappingSub, StdPtrMutPtrWrappingOffset, StdPtrMutPtrWrappingByteAdd,
        StdPtrMutPtrWrappingByteSub, StdPtrMutPtrWrappingByteOffset]"

definition handled_as_special_function_call ::
    "'c build_env \<Rightarrow> def_id \<Rightarrow> 'c generic_args \<Rightarrow> path list \<Rightarrow> path \<Rightarrow> location \<Rightarrow> 'c builder \<Rightarrow> ('c builder \<times> bool) option" where
  "handled_as_special_function_call env callee_def_id gen_args args destination location b =
     (case bd_known_name env callee_def_id b of (b, callee_known_name) \<Rightarrow>
        (if callee_known_name = Intrinsic StdIntrinsicsTransmute
         then handled (handle_transmute env gen_args args destination b)
         else if callee_known_name \<in> set offset_functions
         then handled (fb_handle_offset args destination b)
         else if callee_known_name \<in> {PtrName StdPtrConstPtrCast, PtrName StdPtrMutPtrCast}
         then handled (handle_ptr_cast args destination b)
         else if callee_known_name = AllocName AllocRawVecAllocateIn
         then handled (handle_raw_vec_allocate_in env gen_args destination location b)
         else if callee_known_name = StdThreadBuilderSpawnUnchecked
         then handled (handle_thread_builder_spawn_unchecked env gen_args args location b)
         else if callee_known_name = PtrName StdPtrNonNullAsPtr
         then handled (handle_non_null_as_ptr env args destination b)
         else if callee_known_name = PtrName StdPtrUniqueNewUnchecked
         then handled (handle_unique_new_unchecked args destination b)
         else if callee_known_name = StdResultMapErr
         then handled (handle_result_map_err env gen_args args destination b)
         else if callee_known_name = StdConvertInto then do {
           generic_types \<leftarrow> type_list_of gen_args;
           t0 \<leftarrow> nth_opt generic_types 0;
           t1 \<leftarrow> nth_opt generic_types 1;
           if is_std_ptr_unique env t0 \<and> is_std_ptr_nonnull env t1
           then handled (handle_unique_into_nonnull env args destination b)
           else Some (b, False) }
         else handle_alloc env callee_known_name args destination location b))"

end
