(* ===== verification/Fpag_Builder.thy ===== *)
theory Fpag_Builder
  imports Special_Functions
begin

section \<open>The translation of function bodies (\<open>src/builder/fpag_builder.rs\<close>)\<close>

text \<open>
  Each statement and each call of a body becomes edges and call sites of the function's graph.
  The translation does not depend on the control flow. Statements the code skips are skipped;
  what the code takes to be unreachable is \<open>None\<close>.
\<close>

subsection \<open>Constants\<close>

definition static_variable_path :: "'c build_env \<Rightarrow> def_id \<Rightarrow> 'c builder \<Rightarrow> 'c builder \<times> path" where
  "static_variable_path env d b =
     (let static_variable = new_static_variable d;
          b = bd_set_type env static_variable (tcx_type_of (be_tcx env) d) b
      in (bd_update_fpag (\<lambda>fpag. add_static_variables_involved fpag static_variable) b, static_variable))"

definition visit_unevaluated_const ::
    "'c build_env \<Rightarrow> def_id \<Rightarrow> 'c generic_args \<Rightarrow> nat option \<Rightarrow> 'c ty \<Rightarrow> 'c builder \<Rightarrow> ('c builder \<times> path) option" where
  "visit_unevaluated_const env d unevaluated_args promoted ty b =
     (case promoted of
        Some i \<Rightarrow>
          (let p = new_promoted (bd_def_id b) i in Some (bd_set_type env p ty b, p))
      | None \<Rightarrow> do {
          args \<leftarrow> bd_specialize_args env b unevaluated_args;
          let d = (if args \<noteq> [] then
                     (case tcx_resolve (be_tcx env) RevealAll d args of Some (d', _) \<Rightarrow> d' | None \<Rightarrow> d)
                   else d);
          if tcx_is_mir_available (be_tcx env) d then Some (static_variable_path env d b)
          else Some (b, new_constant) })"

definition visit_const_value :: "'c build_env \<Rightarrow> const_value \<Rightarrow> 'c ty \<Rightarrow> 'c builder \<Rightarrow> ('c builder \<times> path) option" where
  "visit_const_value env val ty b =
     (case val of
        ScalarPtr alloc_id \<Rightarrow>
          (case be_global_alloc env alloc_id of
             Some MemoryAlloc \<Rightarrow> fb_create_aux_local env ty b
           | Some (StaticAlloc d) \<Rightarrow>
               (case static_variable_path env d b of (b, static_variable) \<Rightarrow>
                  do { (b, aux) \<leftarrow> fb_create_aux_local env ty b;
                       Some (fb_add_addr_edge static_variable aux b, aux) })
           | _ \<Rightarrow> Some (b, new_constant))
      | ZeroSized \<Rightarrow>
          (case ty of
             Closure _ _ \<Rightarrow> new_closure_path env ty b
           | FnDef d args \<Rightarrow> visit_function_reference env d args b
           | _ \<Rightarrow> Some (b, new_constant))
      | _ \<Rightarrow> Some (b, new_constant))"

definition visit_const_operand :: "'c build_env \<Rightarrow> 'c mir_const \<Rightarrow> 'c builder \<Rightarrow> ('c builder \<times> path) option" where
  "visit_const_operand env const_op b =
     (case const_op of
        TypeConst _ _ \<Rightarrow> Some (b, new_constant)
      | UnevaluatedConst d args promoted ty \<Rightarrow> visit_unevaluated_const env d args promoted ty b
      | ValConst v ty \<Rightarrow> visit_const_value env v ty b)"

definition add_const_assign_edge :: "'c build_env \<Rightarrow> path \<Rightarrow> path \<Rightarrow> 'c builder \<Rightarrow> 'c builder option" where
  "add_const_assign_edge env lh_path rh_path b =
     (case bd_type b rh_path of
        Some rh_type \<Rightarrow> do {
          lh_type \<leftarrow> bd_type b lh_path;
          add_internal_edges env rh_path rh_type lh_path lh_type b }
      | None \<Rightarrow> Some b)"

text \<open>\<open>!ty.is_any_ptr() && get_pointer_projections(ty).is_empty()\<close>\<close>

definition no_pointers :: "'c build_env \<Rightarrow> 'c ty \<Rightarrow> 'c builder \<Rightarrow> ('c builder \<times> bool) option" where
  "no_pointers env ty b =
     (if is_any_ptr ty then Some (b, False)
      else do { (b, projs) \<leftarrow> bd_pointer_projections env ty b; Some (b, projs = []) })"

definition visit_constant_assign :: "'c build_env \<Rightarrow> path \<Rightarrow> 'c mir_const \<Rightarrow> 'c builder \<Rightarrow> 'c builder option" where
  "visit_constant_assign env lh_path const_op b =
     do { lh_type \<leftarrow> bd_type b lh_path;
          (b, skip) \<leftarrow> no_pointers env lh_type b;
          if skip then Some b
          else do {
            (b, rh_path) \<leftarrow> visit_const_operand env const_op b;
            add_const_assign_edge env lh_path rh_path b } }"

subsection \<open>Copies\<close>

definition visit_copy_or_move :: "'c build_env \<Rightarrow> path \<Rightarrow> 'c place \<Rightarrow> 'c builder \<Rightarrow> 'c builder option" where
  "visit_copy_or_move env lh_path place b =
     do { lh_type \<leftarrow> bd_type b lh_path;
          (b, rh_path, rh_type) \<leftarrow> get_path_and_type_for_place env place b;
          let b = (if is_impl_trait lh_type then bd_set_type env lh_path rh_type b else b);
          lh_deref \<leftarrow> is_deref_path lh_path;
          rh_deref \<leftarrow> is_deref_path rh_path;
          if lh_deref \<and> rh_deref then do {
            (b, aux) \<leftarrow> fb_create_aux_local env rh_type b;
            b \<leftarrow> add_internal_edges env rh_path rh_type aux rh_type b;
            add_internal_edges env aux rh_type lh_path lh_type b }
          else add_internal_edges env rh_path rh_type lh_path lh_type b }"

definition visit_use :: "'c build_env \<Rightarrow> path \<Rightarrow> 'c operand \<Rightarrow> 'c builder \<Rightarrow> 'c builder option" where
  "visit_use env lh_path operand b =
     (case operand of
        CopyOp place \<Rightarrow> visit_copy_or_move env lh_path place b
      | MoveOp place \<Rightarrow> visit_copy_or_move env lh_path place b
      | ConstantOp const_op \<Rightarrow> visit_constant_assign env lh_path const_op b)"

definition visit_repeat :: "'c build_env \<Rightarrow> path \<Rightarrow> 'c operand \<Rightarrow> 'c builder \<Rightarrow> 'c builder option" where
  "visit_repeat env lh_path operand b =
     do { lh_type \<leftarrow> bd_type b lh_path;
          case lh_type of
            ArrayTy elem_ty _ \<Rightarrow> do {
              index_path \<leftarrow> new_index lh_path;
              visit_use env index_path operand (bd_set_type env index_path elem_ty b) }
          | _ \<Rightarrow> Some b }"

text \<open>The path of an operand, be it a place or a constant.\<close>

definition operand_path :: "'c build_env \<Rightarrow> 'c operand \<Rightarrow> 'c builder \<Rightarrow> ('c builder \<times> path) option" where
  "operand_path env operand b =
     (case operand of
        CopyOp place \<Rightarrow> get_path_for_place env place b
      | MoveOp place \<Rightarrow> get_path_for_place env place b
      | ConstantOp const_op \<Rightarrow> visit_const_operand env const_op b)"

definition visit_args :: "'c build_env \<Rightarrow> 'c operand list \<Rightarrow> 'c builder \<Rightarrow> ('c builder \<times> path list) option" where
  "visit_args env args b =
     fold_opt (\<lambda>arg (b, args_paths). do { (b, p) \<leftarrow> operand_path env arg b; Some (b, args_paths @ [p]) }) args (b, [])"

text \<open>A copy between the memory two pointers lead to.\<close>

definition copy_ptr_path :: "'c build_env \<Rightarrow> 'c operand \<Rightarrow> 'c builder \<Rightarrow> ('c builder \<times> path) option" where
  "copy_ptr_path env operand b =
     (case operand of
        ConstantOp _ \<Rightarrow> None
      | _ \<Rightarrow> do {
          place \<leftarrow> (case operand of CopyOp place \<Rightarrow> Some place | MoveOp place \<Rightarrow> Some place | _ \<Rightarrow> None);
          (b, p, ty) \<leftarrow> get_path_and_type_for_place env place b;
          case ty of
            RefTy _ _ _ \<Rightarrow> Some (b, p)
          | RawPtr _ _ \<Rightarrow> Some (b, p)
          | _ \<Rightarrow> (case tcx_boxed (be_tcx env) ty of
                   Some boxed_ty \<Rightarrow> get_box_pointer_field env p boxed_ty b
                 | None \<Rightarrow> None) })"

definition visit_copy_non_overlapping :: "'c build_env \<Rightarrow> 'c operand \<Rightarrow> 'c operand \<Rightarrow> 'c builder \<Rightarrow> 'c builder option" where
  "visit_copy_non_overlapping env src dst b =
     do { (b, src_ptr) \<leftarrow> copy_ptr_path env src b;
          (b, dst_ptr) \<leftarrow> copy_ptr_path env dst b;
          src_ptr_ty \<leftarrow> bd_type b src_ptr;
          let deref_ty = get_dereferenced_type (be_tcx env) src_ptr_ty;
          (b, aux) \<leftarrow> fb_create_aux_local env deref_ty b;
          src_deref \<leftarrow> new_deref src_ptr;
          b \<leftarrow> add_internal_edges env src_deref deref_ty aux deref_ty (bd_set_type env src_deref deref_ty b);
          dst_deref \<leftarrow> new_deref dst_ptr;
          add_internal_edges env aux deref_ty dst_deref deref_ty (bd_set_type env dst_deref deref_ty b) }"

subsection \<open>References\<close>

text \<open>An array of a promoted constant is one object for all functions.\<close>

definition addr_of_promoted_array :: "'c build_env \<Rightarrow> path \<Rightarrow> 'c ty \<Rightarrow> path \<Rightarrow> 'c builder \<Rightarrow> 'c builder" where
  "addr_of_promoted_array env arr rh_type lh_path b =
     fb_add_addr_edge arr lh_path (if bd_type b arr = None then bd_set_type env arr rh_type b else b)"

definition addr_of_path :: "path \<Rightarrow> path \<Rightarrow> 'c builder \<Rightarrow> 'c builder option" where
  "addr_of_path rh_path lh_path b =
     (case rh_path of
        Parameter _ _ \<Rightarrow> Some (fb_add_addr_edge rh_path lh_path b)
      | LocalVariable _ _ \<Rightarrow> Some (fb_add_addr_edge rh_path lh_path b)
      | ReturnValue _ \<Rightarrow> Some (fb_add_addr_edge rh_path lh_path b)
      | QualifiedPath base projection \<Rightarrow>
          (case projection of
             [] \<Rightarrow> None
           | [Deref] \<Rightarrow> Some (fb_add_direct_edge base lh_path b)
           | Deref # _ \<Rightarrow> fb_add_gep_edge rh_path lh_path b
           | _ \<Rightarrow> Some (fb_add_addr_edge rh_path lh_path b))
      | _ \<Rightarrow> None)"

definition visit_ref_or_address_of :: "'c build_env \<Rightarrow> path \<Rightarrow> 'c place \<Rightarrow> 'c builder \<Rightarrow> 'c builder option" where
  "visit_ref_or_address_of env lh_path place b =
     do { (b, rh_path) \<leftarrow> get_path_for_place env place b;
          lh_deref \<leftarrow> is_deref_path lh_path;
          (b, lh_path) \<leftarrow>
            (if lh_deref then do {
               lh_type \<leftarrow> bd_type b lh_path;
               (b, aux) \<leftarrow> fb_create_aux_local env lh_type b;
               b \<leftarrow> fb_add_store_edge aux lh_path b;
               Some (b, aux) }
             else Some (b, lh_path));
          if is_promoted b then do {
            rh_type \<leftarrow> bd_type b rh_path;
            if is_argumentv1_array env rh_type
            then Some (addr_of_promoted_array env new_argumentv1_arr rh_type lh_path b)
            else if is_str_ref_array rh_type
            then Some (addr_of_promoted_array env new_str_ref_arr rh_type lh_path b)
            else addr_of_path rh_path lh_path b }
          else addr_of_path rh_path lh_path b }"

subsection \<open>Casts\<close>

definition operand_place :: "'c operand \<Rightarrow> 'c place option" where
  "operand_place operand = (case operand of CopyOp place \<Rightarrow> Some place | MoveOp place \<Rightarrow> Some place | ConstantOp _ \<Rightarrow> None)"

fun is_function_path :: "path \<Rightarrow> bool" where
  "is_function_path (Function _) = True"
| "is_function_path _ = False"

definition reify_fn_pointer :: "'c build_env \<Rightarrow> path \<Rightarrow> 'c operand \<Rightarrow> 'c ty \<Rightarrow> 'c builder \<Rightarrow> 'c builder option" where
  "reify_fn_pointer env lh_path operand ty b =
     do { (b, p) \<leftarrow> operand_path env operand b;
          (b, rh_path) \<leftarrow>
            (case operand of
               ConstantOp _ \<Rightarrow> if is_function_path p then Some (b, p) else None
             | _ \<Rightarrow> do {
                 rh_ty \<leftarrow> bd_type b p;
                 case rh_ty of FnDef d substs \<Rightarrow> visit_function_reference env d substs b | _ \<Rightarrow> None });
          add_fnptr_cast_edge env lh_path rh_path ty b }"

definition closure_fn_pointer :: "'c build_env \<Rightarrow> path \<Rightarrow> 'c operand \<Rightarrow> 'c builder \<Rightarrow> 'c builder option" where
  "closure_fn_pointer env lh_path operand b =
     do { (b, rh_path) \<leftarrow> operand_path env operand b;
          ty \<leftarrow> bd_type b rh_path;
          if is_closure ty then add_fnptr_cast_edge env lh_path rh_path ty b else None }"

definition unsize_pointer :: "'c build_env \<Rightarrow> path \<Rightarrow> 'c ty \<Rightarrow> 'c operand \<Rightarrow> 'c ty \<Rightarrow> 'c builder \<Rightarrow> 'c builder option" where
  "unsize_pointer env lh_path lh_type operand ty b =
     (case operand of
        ConstantOp const_op \<Rightarrow> do {
          (b, const_path) \<leftarrow> visit_const_operand env const_op b;
          case bd_type b const_path of
            Some const_type \<Rightarrow>
              if is_any_ptr ty then copy_and_transmute env const_path const_type lh_path lh_type b else Some b
          | None \<Rightarrow> Some b }
      | _ \<Rightarrow> do {
          place \<leftarrow> operand_place operand;
          (b, rh_path, rh_type) \<leftarrow> get_path_and_type_for_place env place b;
          copy_and_transmute env rh_path rh_type lh_path lh_type b })"

definition cast_pointer :: "'c build_env \<Rightarrow> path \<Rightarrow> 'c ty \<Rightarrow> 'c operand \<Rightarrow> 'c builder \<Rightarrow> 'c builder option" where
  "cast_pointer env lh_path lh_type operand b =
     (case operand_place operand of
        None \<Rightarrow> Some b
      | Some place \<Rightarrow> do {
          (b, rh_path, rh_type) \<leftarrow> get_path_and_type_for_place env place b;
          if is_any_ptr lh_type \<and> is_any_ptr rh_type then do {
            rh_deref \<leftarrow> is_deref_path rh_path;
            (b, src_path) \<leftarrow>
              (if rh_deref then do {
                 (b, aux) \<leftarrow> fb_create_aux_local env rh_type b;
                 b \<leftarrow> fb_add_load_edge rh_path aux b;
                 Some (b, aux) }
               else Some (b, rh_path));
            transmute_pointers env src_path rh_type lh_path lh_type b }
          else Some b })"

definition visit_transmute :: "'c build_env \<Rightarrow> path \<Rightarrow> 'c ty \<Rightarrow> 'c operand \<Rightarrow> 'c builder \<Rightarrow> 'c builder option" where
  "visit_transmute env lh_path lh_type operand b =
     (case operand_place operand of
        None \<Rightarrow> Some b
      | Some place \<Rightarrow> do {
          (b, rh_path, rh_type) \<leftarrow> get_path_and_type_for_place env place b;
          copy_and_transmute env rh_path rh_type lh_path lh_type b })"

definition direct_cast :: "'c build_env \<Rightarrow> path \<Rightarrow> 'c operand \<Rightarrow> 'c builder \<Rightarrow> 'c builder option" where
  "direct_cast env lh_path operand b =
     do { (b, rh_path) \<leftarrow> operand_path env operand b;
          Some (fb_add_direct_edge rh_path lh_path b) }"

definition cast_by_kind ::
    "'c build_env \<Rightarrow> path \<Rightarrow> 'c ty \<Rightarrow> cast_kind \<Rightarrow> 'c operand \<Rightarrow> 'c ty \<Rightarrow> 'c builder \<Rightarrow> 'c builder option" where
  "cast_by_kind env lh_path lh_type kind operand ty b =
     (case kind of
        PointerExposeAddress \<Rightarrow> Some b
      | PointerFromExposedAddress \<Rightarrow> Some b
      | IntToInt \<Rightarrow> Some b
      | FloatToInt \<Rightarrow> Some b
      | FloatToFloat \<Rightarrow> Some b
      | IntToFloat \<Rightarrow> Some b
      | DynStar \<Rightarrow> direct_cast env lh_path operand b
      | PointerCoercion coercion \<Rightarrow>
          (case coercion of
             MutToConstPointer \<Rightarrow> direct_cast env lh_path operand b
           | UnsafeFnPointer \<Rightarrow> direct_cast env lh_path operand b
           | ReifyFnPointer \<Rightarrow> reify_fn_pointer env lh_path operand ty b
           | ClosureFnPointer \<Rightarrow> closure_fn_pointer env lh_path operand b
           | Unsize \<Rightarrow> unsize_pointer env lh_path lh_type operand ty b
           | ArrayToPointer \<Rightarrow> cast_pointer env lh_path lh_type operand b)
      | PtrToPtr \<Rightarrow> cast_pointer env lh_path lh_type operand b
      | FnPtrToPtr \<Rightarrow> cast_pointer env lh_path lh_type operand b
      | Transmute \<Rightarrow> visit_transmute env lh_path lh_type operand b)"

definition visit_cast :: "'c build_env \<Rightarrow> path \<Rightarrow> cast_kind \<Rightarrow> 'c operand \<Rightarrow> 'c ty \<Rightarrow> 'c builder \<Rightarrow> 'c builder option" where
  "visit_cast env lh_path kind operand ty b =
     do { lh_type \<leftarrow> bd_type b lh_path;
          lh_deref \<leftarrow> is_deref_path lh_path;
          (b, lh_path) \<leftarrow>
            (if lh_deref then do {
               (b, aux) \<leftarrow> fb_create_aux_local env lh_type b;
               b \<leftarrow> add_internal_edges env aux lh_type lh_path lh_type b;
               Some (b, aux) }
             else Some (b, lh_path));
          cast_by_kind env lh_path lh_type kind operand ty b }"

subsection \<open>Operators and aggregates\<close>

definition visit_binary_op :: "'c build_env \<Rightarrow> path \<Rightarrow> bin_op \<Rightarrow> 'c operand \<Rightarrow> 'c builder \<Rightarrow> 'c builder option" where
  "visit_binary_op env lh_path op left_operand b =
     (case op of
        OffsetOp \<Rightarrow>
          (case operand_place left_operand of
             Some place \<Rightarrow> do {
               (b, rh_path) \<leftarrow> get_path_for_place env place b;
               Some (fb_add_offset_edge rh_path lh_path b) }
           | None \<Rightarrow> Some b)
      | OtherBinOp \<Rightarrow> Some b)"

definition visit_tuple_field :: "'c build_env \<Rightarrow> path \<Rightarrow> 'c ty list \<Rightarrow> nat \<times> 'c operand \<Rightarrow> 'c builder \<Rightarrow> 'c builder option" where
  "visit_tuple_field env lh_path types = (\<lambda>(i, operand) b.
     do { index_path \<leftarrow> new_field lh_path i;
          let b = (case nth_opt types i of Some ty \<Rightarrow> bd_set_type env index_path ty b | None \<Rightarrow> b);
          visit_use env index_path operand b })"

definition visit_adt_field ::
    "'c build_env \<Rightarrow> path \<Rightarrow> 'c generic_args \<Rightarrow> 'c operand list \<Rightarrow> nat \<times> def_id \<Rightarrow> 'c builder \<Rightarrow> 'c builder option" where
  "visit_adt_field env p args operands = (\<lambda>(i, field) b.
     do { fld \<leftarrow> new_field p i;
          fty \<leftarrow> field_ty (be_tcx env) (be_fuel env) field args;
          let b = bd_set_type env fld fty b;
          case nth_opt operands i of
            Some operand \<Rightarrow> visit_use env fld operand b
          | None \<Rightarrow> Some b })"

definition visit_union_field ::
    "'c build_env \<Rightarrow> path \<Rightarrow> def_id list \<Rightarrow> 'c generic_args \<Rightarrow> nat \<Rightarrow> 'c operand list \<Rightarrow> 'c builder \<Rightarrow> 'c builder option" where
  "visit_union_field env p variant_fds args case_index operands b =
     do { fld \<leftarrow> new_union_field p case_index;
          field \<leftarrow> nth_opt variant_fds case_index;
          fty \<leftarrow> field_ty (be_tcx env) (be_fuel env) field args;
          operand \<leftarrow> nth_opt operands 0;
          b \<leftarrow> visit_use env fld operand (bd_set_type env fld fty b);
          cast_between_union_fields env fld b }"

definition visit_capture :: "'c build_env \<Rightarrow> path \<Rightarrow> nat \<times> 'c operand \<Rightarrow> 'c builder \<Rightarrow> 'c builder option" where
  "visit_capture env lh_path = (\<lambda>(i, operand) b.
     do { base_ty \<leftarrow> bd_type b lh_path;
          fld \<leftarrow> new_field lh_path i;
          fty \<leftarrow> get_field_type (be_tcx env) (be_fuel env) base_ty i;
          visit_use env fld operand (bd_set_type env fld fty b) })"

definition visit_aggregate ::
    "'c build_env \<Rightarrow> path \<Rightarrow> 'c aggregate_kind \<Rightarrow> 'c operand list \<Rightarrow> 'c builder \<Rightarrow> 'c builder option" where
  "visit_aggregate env lh_path kind operands b =
     (case kind of
        ArrayAggregate ty \<Rightarrow> do {
          index_path \<leftarrow> new_index lh_path;
          index_ty \<leftarrow> bd_specialize env b ty;
          fold_opt (visit_use env index_path) operands (bd_set_type env index_path index_ty b) }
      | TupleAggregate \<Rightarrow> do {
          lh_ty \<leftarrow> bd_type b lh_path;
          let types = (case lh_ty of TupleTy ts \<Rightarrow> ts | _ \<Rightarrow> []);
          fold_opt (visit_tuple_field env lh_path types) (enumerate 0 operands) b }
      | AdtAggregate def variant_idx args case_index \<Rightarrow> do {
          let adt = tcx_adt (be_tcx env) def;
          variant_fds \<leftarrow> nth_opt (adt_variants adt) variant_idx;
          args \<leftarrow> bd_specialize_args env b args;
          if adt_kind_of adt = UnionAdt
          then visit_union_field env lh_path variant_fds args (case case_index of Some i \<Rightarrow> i | None \<Rightarrow> 0) operands b
          else do {
            p \<leftarrow> (if adt_kind_of adt = EnumAdt then new_downcast lh_path variant_idx else Some lh_path);
            fold_opt (visit_adt_field env p args operands) (enumerate 0 variant_fds) b } }
      | ClosureAggregate _ _ \<Rightarrow> fold_opt (visit_capture env lh_path) (enumerate 0 operands) b
      | CoroutineAggregate _ _ \<Rightarrow> fold_opt (visit_capture env lh_path) (enumerate 0 operands) b)"

definition visit_shallow_init_box :: "'c build_env \<Rightarrow> path \<Rightarrow> 'c operand \<Rightarrow> 'c ty \<Rightarrow> 'c builder \<Rightarrow> 'c builder option" where
  "visit_shallow_init_box env lh_path operand ty b =
     do { (b, box_ptr_field) \<leftarrow> get_box_pointer_field env lh_path ty b;
          box_ptr_type \<leftarrow> bd_type b box_ptr_field;
          place \<leftarrow> operand_place operand;
          (b, source_path) \<leftarrow> get_path_for_place env place b;
          source_ptr_type \<leftarrow> bd_type b source_path;
          transmute_pointers env source_path source_ptr_type box_ptr_field box_ptr_type b }"

definition visit_rvalue :: "'c build_env \<Rightarrow> path \<Rightarrow> 'c rvalue \<Rightarrow> 'c builder \<Rightarrow> 'c builder option" where
  "visit_rvalue env lh_path rvalue b =
     (case rvalue of
        Use operand \<Rightarrow> visit_use env lh_path operand b
      | Repeat operand _ \<Rightarrow> visit_repeat env lh_path operand b
      | RefOf place \<Rightarrow> visit_ref_or_address_of env lh_path place b
      | AddressOf place \<Rightarrow> visit_ref_or_address_of env lh_path place b
      | CastAs kind operand ty \<Rightarrow> do {
          specialized_ty \<leftarrow> bd_specialize env b ty;
          visit_cast env lh_path kind operand specialized_ty b }
      | BinaryOp op left_operand _ \<Rightarrow> visit_binary_op env lh_path op left_operand b
      | Aggregate kind operands \<Rightarrow> visit_aggregate env lh_path kind operands b
      | ShallowInitBox operand ty \<Rightarrow> visit_shallow_init_box env lh_path operand ty b
      | CopyForDeref place \<Rightarrow> visit_copy_or_move env lh_path place b
      | _ \<Rightarrow> Some b)"

subsection \<open>Statements\<close>

definition visit_assign :: "'c build_env \<Rightarrow> 'c place \<Rightarrow> 'c rvalue \<Rightarrow> 'c builder \<Rightarrow> 'c builder option" where
  "visit_assign env place rvalue b =
     do { (b, lh_path, lh_type) \<leftarrow> get_path_and_type_for_place env place b;
          (b, skip) \<leftarrow> no_pointers env lh_type b;
          if skip then Some b
          else do {
            b \<leftarrow> visit_rvalue env lh_path rvalue b;
            cast_between_union_fields env lh_path b } }"

definition visit_non_diverging_intrinsic :: "'c build_env \<Rightarrow> 'c non_diverging \<Rightarrow> 'c builder \<Rightarrow> 'c builder option" where
  "visit_non_diverging_intrinsic env intrinsic b =
     (case intrinsic of
        CopyNonOverlapping src dst _ \<Rightarrow> visit_copy_non_overlapping env src dst b
      | Assume _ \<Rightarrow> Some b)"

definition visit_statement :: "'c build_env \<Rightarrow> 'c statement \<Rightarrow> 'c builder \<Rightarrow> 'c builder option" where
  "visit_statement env statement b =
     (case statement of
        Assign place rvalue \<Rightarrow> visit_assign env place rvalue b
      | IntrinsicStatement intrinsic \<Rightarrow> visit_non_diverging_intrinsic env intrinsic b
      | _ \<Rightarrow> Some b)"

subsection \<open>Calls\<close>

definition add_static_call :: "'c build_env \<Rightarrow> def_id \<Rightarrow> 'c generic_args \<Rightarrow> plain_call_site \<Rightarrow> 'c builder \<Rightarrow> 'c builder option" where
  "add_static_call env d args callsite b =
     do { (b, callee_func_id) \<leftarrow> bd_func_id_of env d args b;
          Some (bd_update_fpag (\<lambda>fpag. add_static_dispatch_callsite fpag callsite callee_func_id) b) }"

definition add_special_call :: "'c build_env \<Rightarrow> def_id \<Rightarrow> 'c generic_args \<Rightarrow> plain_call_site \<Rightarrow> 'c builder \<Rightarrow> 'c builder option" where
  "add_special_call env d args callsite b =
     do { resolved \<leftarrow> try_to_devirtualize (be_tcx env) d args;
          let (d, args) = (case resolved of Some r \<Rightarrow> r | None \<Rightarrow> (d, args));
          (b, callee_func_id) \<leftarrow> bd_func_id_of env d args b;
          let b = bd_update_fpag (\<lambda>fpag. add_special_callsite fpag callsite callee_func_id) b;
          Some (b\<lparr>bd_acx := add_special_function (bd_acx b) callee_func_id\<rparr>) }"

definition add_dynamic_call ::
    "'c build_env \<Rightarrow> def_id \<Rightarrow> 'c generic_args \<Rightarrow> path list \<Rightarrow> plain_call_site \<Rightarrow> 'c builder \<Rightarrow> 'c builder option" where
  "add_dynamic_call env d gen_args args callsite b =
     do { dynamic \<leftarrow> is_dynamic_call (be_tcx env) d gen_args;
          if dynamic then do {
            receiver \<leftarrow> nth_opt args 0;
            let b = b\<lparr>bd_acx := add_dyn_callsite (bd_acx b) (base_from id callsite) d gen_args\<rparr>;
            Some (bd_update_fpag (\<lambda>fpag. add_dynamic_dispatch_callsite fpag receiver callsite) b) }
          else Some b }"

definition bd_is_fntrait_call :: "'c build_env \<Rightarrow> def_id \<Rightarrow> 'c builder \<Rightarrow> 'c builder \<times> bool" where
  "bd_is_fntrait_call env d b =
     (case is_std_ops_fntrait_call (be_tcx env) (acx_known_names (bd_acx b)) d of
        (cache, r) \<Rightarrow> (b\<lparr>bd_acx := (bd_acx b)\<lparr>acx_known_names := cache\<rparr>\<rparr>, r))"

definition resolve_call ::
    "'c build_env \<Rightarrow> def_id \<Rightarrow> 'c generic_args \<Rightarrow> 'c operand list \<Rightarrow> 'c place \<Rightarrow> location \<Rightarrow> 'c builder \<Rightarrow> 'c builder option" where
  "resolve_call env callee_def_id gen_args args destination location b =
     do { gen_args \<leftarrow> bd_specialize_args env b gen_args;
          (b, args) \<leftarrow> visit_args env args b;
          (b, destination) \<leftarrow> get_path_for_place env destination b;
          (b, special) \<leftarrow> handled_as_special_function_call env callee_def_id gen_args args destination location b;
          let callsite = new_callsite (bd_func_id b) location args destination;
          if special then add_special_call env callee_def_id gen_args callsite b
          else
            (case bd_is_fntrait_call env callee_def_id b of
               (b, True) \<Rightarrow> resolve_fntrait_call env callee_def_id gen_args args destination location b
             | (b, False) \<Rightarrow>
                 (if \<not> is_trait_method (be_tcx env) callee_def_id
                  then add_static_call env callee_def_id gen_args callsite b
                  else do {
                    resolved \<leftarrow> try_to_devirtualize (be_tcx env) callee_def_id gen_args;
                    case resolved of
                      Some (d, substs) \<Rightarrow> add_static_call env d substs callsite b
                    | None \<Rightarrow> add_dynamic_call env callee_def_id gen_args args callsite b })) }"

definition call_through_pointer ::
    "'c build_env \<Rightarrow> path \<Rightarrow> 'c operand list \<Rightarrow> 'c place \<Rightarrow> location \<Rightarrow> 'c builder \<Rightarrow> 'c builder option" where
  "call_through_pointer env fnptr args destination location b =
     do { (b, args) \<leftarrow> visit_args env args b;
          (b, destination) \<leftarrow> get_path_for_place env destination b;
          let callsite = new_callsite (bd_func_id b) location args destination;
          Some (bd_update_fpag (\<lambda>fpag. add_fnptr_callsite fpag fnptr callsite) b) }"

definition visit_call ::
    "'c build_env \<Rightarrow> 'c operand \<Rightarrow> 'c operand list \<Rightarrow> 'c place \<Rightarrow> location \<Rightarrow> 'c builder \<Rightarrow> 'c builder option" where
  "visit_call env func args destination location b =
     (case func of
        ConstantOp constant \<Rightarrow>
          (case const_ty constant of
             Closure d gen_args \<Rightarrow> resolve_call env d gen_args args destination location b
           | FnDef d gen_args \<Rightarrow> resolve_call env d gen_args args destination location b
           | Coroutine d gen_args \<Rightarrow> resolve_call env d gen_args args destination location b
           | FnPtrTy _ \<Rightarrow> do {
               (b, fnptr) \<leftarrow> visit_const_operand env constant b;
               call_through_pointer env fnptr args destination location b }
           | _ \<Rightarrow> Some b)
      | _ \<Rightarrow> do {
          place \<leftarrow> operand_place func;
          (b, fn_item, fn_item_ty) \<leftarrow> get_path_and_type_for_place env place b;
          case fn_item_ty of
            FnDef d gen_args \<Rightarrow> resolve_call env d gen_args args destination location b
          | FnPtrTy _ \<Rightarrow> call_through_pointer env fn_item args destination location b
          | _ \<Rightarrow> None })"

definition visit_terminator :: "'c build_env \<Rightarrow> location \<Rightarrow> 'c terminator \<Rightarrow> 'c builder \<Rightarrow> 'c builder option" where
  "visit_terminator env location kind b =
     (case kind of
        CallTerminator func args destination \<Rightarrow> visit_call env func args destination location b
      | _ \<Rightarrow> Some b)"

subsection \<open>Bodies\<close>

text \<open>A location is the index of the basic block and that of the statement, or their number for the terminator.\<close>

definition visit_basic_block ::
    "'c build_env \<Rightarrow> nat \<times> 'c statement list \<times> 'c terminator option \<Rightarrow> 'c builder \<Rightarrow> 'c builder option" where
  "visit_basic_block env = (\<lambda>(bb, statements, terminator) b.
     do { b \<leftarrow> fold_opt (visit_statement env) statements b;
          case terminator of
            Some kind \<Rightarrow> visit_terminator env (bb, length statements) kind b
          | None \<Rightarrow> Some b })"

definition visit_body :: "'c build_env \<Rightarrow> 'c builder \<Rightarrow> 'c builder option" where
  "visit_body env b = fold_opt (visit_basic_block env) (enumerate 0 (basic_blocks (bd_mir b))) b"

text \<open>The result of an initializer flows to the promoted constant, static or constant it initializes.\<close>

definition add_result_edges :: "'c build_env \<Rightarrow> path \<Rightarrow> 'c builder \<Rightarrow> 'c builder option" where
  "add_result_edges env p b =
     do { let ret_path = new_return_value (bd_func_id b);
          ret_type \<leftarrow> bd_type b ret_path;
          add_internal_edges env ret_path ret_type p ret_type (bd_set_type env p ret_type b) }"

definition build :: "'c build_env \<Rightarrow> 'c builder \<Rightarrow> 'c builder option" where
  "build env b =
     do { b \<leftarrow> visit_body env b;
          case fr_promoted (bd_func_ref b) of
            Some promoted \<Rightarrow> add_result_edges env (new_promoted (bd_def_id b) promoted) b
          | None \<Rightarrow>
              (if is_static_body env b \<or> is_const_body env b
               then add_result_edges env (new_static_variable (bd_def_id b)) b
               else Some b) }"

text \<open>\<open>FuncPAGBuilder::new(acx, func_id, mir, &mut fpag).build()\<close> on an empty graph.\<close>

definition build_fpag :: "'c build_env \<Rightarrow> 'c analysis_context \<Rightarrow> func_id \<Rightarrow> 'c body \<Rightarrow> ('c analysis_context \<times> func_pag) option" where
  "build_fpag env acx func_id mir =
     do { b \<leftarrow> builder_new acx func_id mir (func_pag_new func_id);
          b \<leftarrow> build env b;
          Some (bd_acx b, bd_fpag b) }"

end
