(* ===== verification/Body_Graphs.thy ===== *)
theory Body_Graphs
  imports Fpag_Builder Pag
begin

section \<open>The graphs of function bodies in the pointer graph (\<open>src/graph/pag.rs\<close>)\<close>

text \<open>
  \<open>build_func_pag\<close> translates a function once, with its promoted constants and the initializers
  of the statics it uses; \<open>add_inter_procedural_edges\<close> adds the edges of a call. The bodies come
  from the compiler (\<open>optimized_mir\<close>, \<open>instance_mir\<close> of statics and \<open>promoted_mir\<close>). A function's
  statics are a hash set: \<open>statics_order\<close> is the order of its iteration. Log output is left out.
\<close>

record 'c program_env =
  pe_build :: "'c build_env"
  optimized_mir :: "def_id \<Rightarrow> 'c body"
  instance_mir :: "def_id \<Rightarrow> 'c body"
  promoted_mir :: "def_id \<Rightarrow> 'c body list"
  statics_order :: "path set \<Rightarrow> path list"

abbreviation pe_tcx :: "'c program_env \<Rightarrow> 'c tcx" where
  "pe_tcx pe \<equiv> be_tcx (pe_build pe)"

definition acx_get_promoted_id ::
    "('c ty, 'c) compiler_text \<Rightarrow> 'c analysis_context \<Rightarrow> def_id \<Rightarrow> 'c generic_args_e \<Rightarrow> nat \<Rightarrow> ('c analysis_context \<times> func_id) option" where
  "acx_get_promoted_id tx acx d gen_args promoted =
     map_option (\<lambda>(t, i). (acx\<lparr>acx_functions := t\<rparr>, i)) (get_promoted_id tx (acx_functions acx) d gen_args promoted)"

definition get_func_pag :: "('g, 'p) pag \<Rightarrow> func_id \<Rightarrow> func_pag option" where
  "get_func_pag pag func_id = func_pags pag func_id"

subsection \<open>Building the graphs\<close>

definition insert_fpag ::
    "'c program_env \<Rightarrow> func_id \<Rightarrow> 'c body \<Rightarrow> 'c analysis_context \<Rightarrow> ('g, 'p) pag \<Rightarrow> ('c analysis_context \<times> ('g, 'p) pag) option" where
  "insert_fpag pe func_id mir acx pag =
     do { (acx, fpag) \<leftarrow> build_fpag (pe_build pe) acx func_id mir;
          Some (acx, pag\<lparr>func_pags := (func_pags pag)(func_id \<mapsto> fpag)\<rparr>) }"

definition promote_constant ::
    "'c program_env \<Rightarrow> def_id \<Rightarrow> 'c generic_args_e \<Rightarrow> nat \<times> 'c body \<Rightarrow> 'c analysis_context \<times> ('g, 'p) pag \<times> func_id set \<Rightarrow>
     ('c analysis_context \<times> ('g, 'p) pag \<times> func_id set) option" where
  "promote_constant pe d gen_args = (\<lambda>(ordinal, constant_mir) (acx, pag, promoted_func_ids).
     do { (acx, func_id) \<leftarrow> acx_get_promoted_id (be_text (pe_build pe)) acx d gen_args ordinal;
          (acx, pag) \<leftarrow> (if func_pags pag func_id \<noteq> None then Some (acx, pag) else insert_fpag pe func_id constant_mir acx pag);
          Some (acx, pag, insert func_id promoted_func_ids) })"

definition promote_constants ::
    "'c program_env \<Rightarrow> def_id \<Rightarrow> 'c generic_args_e \<Rightarrow> 'c analysis_context \<Rightarrow> ('g, 'p) pag \<Rightarrow>
     ('c analysis_context \<times> ('g, 'p) pag \<times> func_id set option) option" where
  "promote_constants pe d gen_args acx pag =
     do { (acx, pag, promoted_func_ids) \<leftarrow>
            fold_opt (promote_constant pe d gen_args) (enumerate 0 (promoted_mir pe d)) (acx, pag, {});
          Some (acx, pag, if promoted_func_ids = {} then None else Some promoted_func_ids) }"

definition add_promoted_funcs :: "func_id \<Rightarrow> func_id set option \<Rightarrow> ('g, 'p) pag \<Rightarrow> ('g, 'p) pag" where
  "add_promoted_funcs func_id promoted pag =
     (case promoted of
        Some promoted_funcs \<Rightarrow> pag\<lparr>promoted_funcs_map := (promoted_funcs_map pag)(func_id \<mapsto> promoted_funcs)\<rparr>
      | None \<Rightarrow> pag)"

definition build_static_pag ::
    "'c program_env \<Rightarrow> def_id \<Rightarrow> 'c analysis_context \<Rightarrow> ('g, 'p) pag \<Rightarrow>
     ('c analysis_context \<times> ('g, 'p) pag \<times> func_id option) option" where
  "build_static_pag pe d acx pag =
     (if \<not> tcx_is_mir_available (pe_tcx pe) d then Some (acx, pag, None)
      else do {
        let static_variable_ty = tcx_type_of (pe_tcx pe) d;
        (acx, no_ptrs) \<leftarrow>
          (if is_any_ptr static_variable_ty then Some (acx, False)
           else do {
             (acx, projs) \<leftarrow> acx_pointer_projections (pe_tcx pe) (be_fuel (pe_build pe)) acx static_variable_ty;
             Some (acx, projs = []) });
        if no_ptrs then Some (acx, pag, None)
        else do {
          (acx, func_id) \<leftarrow> acx_get_func_id (pe_tcx pe) (be_text (pe_build pe)) (be_from_usize (pe_build pe)) acx d [];
          (acx, pag) \<leftarrow>
            (if func_pags pag func_id \<noteq> None then Some (acx, pag)
             else do {
               (acx, pag, promoted) \<leftarrow> promote_constants pe d [] acx pag;
               insert_fpag pe func_id (instance_mir pe d) acx (add_promoted_funcs func_id promoted pag) });
          Some (acx, pag, Some func_id) } })"

definition build_static_of ::
    "'c program_env \<Rightarrow> path \<Rightarrow> 'c analysis_context \<times> ('g, 'p) pag \<times> func_id set \<Rightarrow>
     ('c analysis_context \<times> ('g, 'p) pag \<times> func_id set) option" where
  "build_static_of pe static_variable = (\<lambda>(acx, pag, static_funcs).
     (case static_variable of
        StaticVariable d \<Rightarrow> do {
          (acx, pag, r) \<leftarrow> build_static_pag pe d acx pag;
          Some (acx, pag, case r of Some static_func \<Rightarrow> insert static_func static_funcs | None \<Rightarrow> static_funcs) }
      | _ \<Rightarrow> Some (acx, pag, static_funcs)))"

definition add_static_funcs :: "func_id \<Rightarrow> func_id set \<Rightarrow> ('g, 'p) pag \<Rightarrow> ('g, 'p) pag" where
  "add_static_funcs func_id static_funcs pag =
     (if static_funcs = {} then pag
      else pag\<lparr>involved_static_funcs_map := (involved_static_funcs_map pag)(func_id \<mapsto> static_funcs)\<rparr>)"

definition build_func_pag ::
    "'c program_env \<Rightarrow> func_id \<Rightarrow> 'c analysis_context \<Rightarrow> ('g, 'p) pag \<Rightarrow> ('c analysis_context \<times> ('g, 'p) pag \<times> bool) option" where
  "build_func_pag pe func_id acx pag =
     (if func_id \<in> special_functions acx then Some (acx, pag, False)
      else do {
        func_ref \<leftarrow> get_function_reference (acx_functions acx) func_id;
        let d = fr_def_id func_ref;
        if \<not> tcx_is_mir_available (pe_tcx pe) d then Some (acx, pag, False)
        else if func_pags pag func_id \<noteq> None then Some (acx, pag, True)
        else do {
          (acx, pag, promoted) \<leftarrow> promote_constants pe d (fr_generic_args func_ref) acx pag;
          let pag = add_promoted_funcs func_id promoted pag;
          (acx, fpag) \<leftarrow> build_fpag (pe_build pe) acx func_id (optimized_mir pe d);
          (acx, pag, static_funcs) \<leftarrow>
            fold_opt (build_static_of pe) (statics_order pe (static_variables_involved fpag)) (acx, pag, {});
          let pag = add_static_funcs func_id static_funcs pag;
          Some (acx, pag\<lparr>func_pags := (func_pags pag)(func_id \<mapsto> fpag)\<rparr>, True) } })"

subsection \<open>The edges of a call\<close>

definition add_value_edges ::
    "'c program_env \<Rightarrow> ('g, 'p) pg_ops \<Rightarrow> ('p, 'f) pag_path_ops \<Rightarrow> 'p \<Rightarrow> 'p \<Rightarrow> 'c ty \<Rightarrow>
     'c analysis_context \<times> ('g, 'p) pag \<times> nat list \<Rightarrow> ('c analysis_context \<times> ('g, 'p) pag \<times> nat list) option" where
  "add_value_edges pe gops pops src dst ty = (\<lambda>(acx, pag, added_edges).
     do { (acx, ptr_projs) \<leftarrow>
            (if is_any_ptr ty then Some (acx, [])
             else acx_pointer_projections (pe_tcx pe) (be_fuel (pe_build pe)) acx ty);
          (pag, new_edges) \<leftarrow> add_new_direct_edges gops pops pag src dst (is_any_ptr ty) ptr_projs;
          Some (acx, pag, added_edges @ new_edges) })"

definition add_arg_edges ::
    "'c program_env \<Rightarrow> ('g, 'p) pg_ops \<Rightarrow> ('p, 'f) pag_path_ops \<Rightarrow> ('p, 'f, 'c) path_type_ops \<Rightarrow> 'f \<Rightarrow> nat \<times> 'p \<Rightarrow>
     'c analysis_context \<times> ('g, 'p) pag \<times> nat list \<Rightarrow> ('c analysis_context \<times> ('g, 'p) pag \<times> nat list) option" where
  "add_arg_edges pe gops pops tops callee = (\<lambda>(i, arg) (acx, pag, added_edges).
     do { (acx, arg_type) \<leftarrow> pt_eval_path_type tops acx arg;
          add_value_edges pe gops pops arg (pp_new_parameter pops callee (i + 1)) arg_type (acx, pag, added_edges) })"

definition add_inter_procedural_edges ::
    "'c program_env \<Rightarrow> ('g, 'p) pg_ops \<Rightarrow> ('p, 'f) pag_path_ops \<Rightarrow> ('p, 'f, 'c) path_type_ops \<Rightarrow> ('f \<Rightarrow> func_id) \<Rightarrow>
     ('f, 'p) call_site \<Rightarrow> 'f \<Rightarrow> 'c analysis_context \<Rightarrow> ('g, 'p) pag \<Rightarrow>
     ('c analysis_context \<times> ('g, 'p) pag \<times> nat list) option" where
  "add_inter_procedural_edges pe gops pops tops into callsite callee acx pag =
     do { func_ref \<leftarrow> get_function_reference (acx_functions acx) (into callee);
          if \<not> tcx_is_mir_available (pe_tcx pe) (fr_def_id func_ref) then Some (acx, pag, [])
          else do {
            (acx, pag, added_edges) \<leftarrow>
              fold_opt (add_arg_edges pe gops pops tops callee) (enumerate 0 (call_args callsite)) (acx, pag, []);
            (acx, ret_type) \<leftarrow> pt_eval_path_type tops acx (call_destination callsite);
            add_value_edges pe gops pops (pp_new_return_value pops callee) (call_destination callsite) ret_type
              (acx, pag, added_edges) } }"

end
