(* ===== verification/Own_Paths.thy ===== *)
theory Own_Paths
  imports Path_Types
begin

section \<open>The paths of a function\<close>

text \<open>
  The paths the translation of a function deals with are well formed and belong to that function
  or to none (statics, promoted constants, functions, constants). Whatever is computed from such a
  path is one again.
\<close>

definition own_path :: "func_id \<Rightarrow> path \<Rightarrow> bool" where
  "own_path f p \<longleftrightarrow> path_wf p \<and> get_containing_func p \<in> {None, Some f}"

named_theorems own_intro \<open>paths of the function\<close>

lemma own_constructors [simp]:
  "own_path f (LocalVariable f n)" "own_path f (Parameter f n)" "own_path f (ReturnValue f)"
  "own_path f (Auxiliary f n)" "own_path f (HeapObj f l)" "own_path f Constant"
  "own_path f (StaticVariable d)" "own_path f (PromotedConstant d n)" "own_path f PromotedArgumentV1Array"
  "own_path f PromotedStrRefArray" "own_path f (Function g)" "own_path f (TypePath n)"
  by (simp_all add: own_path_def)

lemma own_new [simp]:
  "own_path f (new_aux f n)" "own_path f (new_heap_obj f l)" "own_path f new_constant"
  "own_path f (new_static_variable d)" "own_path f (new_promoted d n)" "own_path f (new_return_value f)"
  "own_path f (new_function g)" "own_path f new_argumentv1_arr" "own_path f new_str_ref_arr"
  "own_path f (new_local_parameter_or_result f n k)"
  by (simp_all add: new_aux_def new_heap_obj_def new_constant_def new_static_variable_def new_promoted_def
      new_return_value_def new_function_def new_argumentv1_arr_def new_str_ref_arr_def
      new_local_parameter_or_result_def new_parameter_def new_local_def)

lemma own_qualified:
  "own_path f (QualifiedPath base es) \<longleftrightarrow> es \<noteq> [] \<and> \<not> is_qualified base \<and> own_path f base"
  by (auto simp: own_path_def)

lemma new_qualified_own: "new_qualified base es = Some q \<Longrightarrow> own_path f base \<Longrightarrow> es \<noteq> [] \<Longrightarrow> own_path f q"
  by (auto simp: new_qualified_def own_qualified split: if_splits)

lemma append_own: "append_projection p es = Some q \<Longrightarrow> own_path f p \<Longrightarrow> own_path f q"
  by (cases p) (auto simp: append_projection_def own_qualified intro: new_qualified_own split: if_splits)

lemma append_elem_own: "append_projection_elem p e = Some q \<Longrightarrow> own_path f p \<Longrightarrow> own_path f q"
  by (simp add: append_projection_elem_eq append_own)

lemma field_own:
  "new_field p n = Some q \<Longrightarrow> own_path f p \<Longrightarrow> own_path f q"
  "new_union_field p n = Some q \<Longrightarrow> own_path f p \<Longrightarrow> own_path f q"
  "new_downcast p n = Some q \<Longrightarrow> own_path f p \<Longrightarrow> own_path f q"
  "new_index p = Some q \<Longrightarrow> own_path f p \<Longrightarrow> own_path f q"
  by (auto simp: new_field_def new_union_field_def new_downcast_def new_index_def intro: append_elem_own)

lemma deref_own: "new_deref p = Some q \<Longrightarrow> own_path f p \<Longrightarrow> own_path f q"
  by (auto simp: new_deref_def own_qualified split: if_splits)

lemma truncate_own: "truncate_projection_elems p n = Some q \<Longrightarrow> own_path f p \<Longrightarrow> own_path f q"
  by (cases p) (auto simp: truncate_projection_elems_def own_qualified intro: new_qualified_own split: if_splits)

text \<open>The same as rules for the outcome.\<close>

named_theorems own_post \<open>rules for operations that yield paths of the function\<close>

lemma post_own:
  assumes "\<And>q. m = Some q \<Longrightarrow> own_path f q" "\<And>q. own_path f q \<Longrightarrow> Q q"
  shows "post m Q"
  using assms by (auto intro: postI)

lemma post_append_own [own_post]:
  "own_path f p \<Longrightarrow> (\<And>q. own_path f q \<Longrightarrow> Q q) \<Longrightarrow> post (append_projection p es) Q"
  "own_path f p \<Longrightarrow> (\<And>q. own_path f q \<Longrightarrow> Q q) \<Longrightarrow> post (append_projection_elem p e) Q"
  by (auto intro!: postI dest: append_own append_elem_own)

lemma post_field_own [own_post]:
  "own_path f p \<Longrightarrow> (\<And>q. own_path f q \<Longrightarrow> Q q) \<Longrightarrow> post (new_field p n) Q"
  "own_path f p \<Longrightarrow> (\<And>q. own_path f q \<Longrightarrow> Q q) \<Longrightarrow> post (new_union_field p n) Q"
  "own_path f p \<Longrightarrow> (\<And>q. own_path f q \<Longrightarrow> Q q) \<Longrightarrow> post (new_downcast p n) Q"
  "own_path f p \<Longrightarrow> (\<And>q. own_path f q \<Longrightarrow> Q q) \<Longrightarrow> post (new_index p) Q"
  "own_path f p \<Longrightarrow> (\<And>q. own_path f q \<Longrightarrow> Q q) \<Longrightarrow> post (new_deref p) Q"
  "own_path f p \<Longrightarrow> (\<And>q. own_path f q \<Longrightarrow> Q q) \<Longrightarrow> post (truncate_projection_elems p n) Q"
  by (auto intro!: postI dest: field_own deref_own truncate_own)

lemma post_qualified_own [own_post]:
  "own_path f p \<Longrightarrow> es \<noteq> [] \<Longrightarrow> (\<And>q. own_path f q \<Longrightarrow> Q q) \<Longrightarrow> post (new_qualified p es) Q"
  by (auto intro!: postI dest: new_qualified_own)

subsection \<open>Fields by layout\<close>

lemma post_concat_opt:
  assumes "\<And>r. r \<in> set rs \<Longrightarrow> post r (\<lambda>ys. \<forall>y \<in> set ys. P y)"
  shows "post (concat_opt rs) (\<lambda>zs. \<forall>z \<in> set zs. P z)"
  using assms
proof (induction rs)
  case (Cons r rs)
  have "post r (\<lambda>ys. \<forall>y \<in> set ys. P y)" "post (concat_opt rs) (\<lambda>zs. \<forall>z \<in> set zs. P z)"
    using Cons by simp_all
  then show ?case by (auto simp: post_def bind_eq_Some_conv)
qed simp

lemmas post_layout_lookups =
  post_any [of _ "first_variant def"] post_any [of _ "field_ty tcx fu fd args"] post_any [of _ "nth_opt xs i"]
  post_any [of _ "size_of tcx t"]
  for def tcx fu fd args xs i t

lemma post_flatten_own:
  "own_path f p \<Longrightarrow> post (flatten_fields_recursively tcx fu n p ty off) (\<lambda>xs. \<forall>(offset, q, t) \<in> set xs. own_path f q)"
proof (induction n arbitrary: p ty off)
  case (Suc n)
  have at: "post (flatten_at (flatten_fields_recursively tcx fu n) p ft offsets base i)
      (\<lambda>xs. \<forall>(offset, q, t) \<in> set xs. own_path f q)" for ft offsets base i
    unfolding flatten_at_def
    using Suc by (auto intro!: own_post [where f = f] post_layout_lookups post_any [of _ "ft i"])
  show ?case
    using Suc
    by (cases ty) (auto simp: Let_def split: adt_kind.split option.split
        intro!: own_post [where f = f] post_layout_lookups post_concat_opt at)
qed simp

lemma post_start_own:
  "own_path f p \<Longrightarrow> post (find_fields_at_start_location tcx fu n p ty) (\<lambda>xs. \<forall>(q, t) \<in> set xs. own_path f q)"
proof (induction n arbitrary: p ty)
  case (Suc n)
  have field: "post (start_field (find_fields_at_start_location tcx fu n) m t) (\<lambda>xs. \<forall>(q, t) \<in> set xs. own_path f q)"
    if "post m (own_path f)" for m t
  proof (cases m)
    case (Some q)
    then have "own_path f q" using that by simp
    then show ?thesis using Suc.IH [of q] Some by (fastforce simp: start_field_def post_def bind_eq_Some_conv)
  qed (simp add: start_field_def)
  have at: "post (start_at (find_fields_at_start_location tcx fu n) p ft offsets i) (\<lambda>xs. \<forall>(q, t) \<in> set xs. own_path f q)"
    for ft offsets i
    using Suc.prems by (auto simp: start_at_def intro!: post_layout_lookups field own_post [where f = f])
  show ?case
    using Suc.prems
    by (cases ty) (auto simp: Let_def split: adt_kind.split option.split list.split
        intro!: own_post [where f = f] post_layout_lookups post_concat_opt at field)
qed simp

lemma post_flattened [own_post]:
  assumes "own_path f p" "\<And>xs. \<forall>(offset, q, t) \<in> set xs. own_path f q \<Longrightarrow> Q xs"
  shows "post (flatten_fields tcx fu n p ty) Q"
  using post_flatten_own [OF assms(1), of tcx fu n ty 0] assms(2) by (auto simp: flatten_fields_def post_def)

subsection \<open>Casts\<close>

lemma post_regular_own:
  "own_path f p \<Longrightarrow> post (get_regularized_path tcx fu acx p) (\<lambda>(acx', q). own_path f q)"
proof (induction "path_length p" arbitrary: acx p rule: less_induct)
  case less
  show ?case
  proof (cases p)
    case (QualifiedPath base projection)
    have step: "post (Option.bind (cut p projection) (get_regularized_path tcx fu acx')) (\<lambda>(acx', q). own_path f q)"
      if "projection \<noteq> []" for acx'
    proof (cases "cut p projection")
      case (Some r)
      have "own_path f r" by (rule truncate_own [OF Some less.prems])
      moreover have "path_length r < path_length p"
        using length_truncate [of base projection r] Some that by (simp add: QualifiedPath)
      ultimately show ?thesis using less.hyps Some by simp
    qed simp
    show ?thesis
      using less.prems step
      by (subst get_regularized_path.simps, cases "last projection")
        (auto simp: QualifiedPath intro!: post_any [of _ "path_type_or_eval a b c d" for a b c d]
          post_any [of _ "acx_field_byte_offset a b c d e" for a b c d e])
  qed (use less.prems in \<open>subst get_regularized_path.simps, simp\<close>)+
qed

lemma find_equal_found: "find_equal tcx fu ty flds = Some (Some q) \<Longrightarrow> \<exists>t. (q, t) \<in> set flds"
proof (induction flds)
  case (Cons c flds)
  obtain p t where c: "c = (p, t)" by fastforce
  show ?case using Cons by (cases "equal_types tcx fu t ty") (fastforce simp: c split: if_splits)+
qed simp

lemma post_cast_own:
  assumes "own_path f p"
  shows "post (cast_to tcx fu acx p ty) (\<lambda>(acx', r). \<forall>q. r = Some q \<longrightarrow> own_path f q)"
proof (rule postI, clarify)
  fix acx' q assume res: "cast_to tcx fu acx p ty = Some (acx', Some q)"
  obtain acx1 r where 1: "get_regularized_path tcx fu acx p = Some (acx1, r)"
    using res by (auto simp: cast_to_def bind_eq_Some_conv)
  have r: "own_path f r" using post_regular_own [OF assms, of tcx fu acx] 1 by (simp add: post_def)
  have start: "own_path f x" if "fields_at_start_location tcx fu fu r t = Some flds" "find_equal tcx fu ty flds = Some (Some x)"
    for t flds x
    using post_start_own [OF r, of tcx fu fu t] that find_equal_found
    by (fastforce simp: post_def fields_at_start_location_def bind_eq_Some_conv)
  show "own_path f q"
    using res r start
    by (auto simp: cast_to_def 1 bind_eq_Some_conv Let_def case_option_eq_Some dest: append_elem_own
        split: if_splits prod.splits)
qed

end
