(* ===== verification/Builder_State.thy ===== *)
theory Builder_State
  imports Fpag_Builder Own_Paths
begin

section \<open>The state of the translation of a body\<close>

text \<open>
  Every step of the translation keeps the graph of the function well formed and only adds to it
  and to the analysis context. Well formed means: the edges and call sites are between paths of the
  function; a projection along a pointer is not empty; the callees of direct calls are functions
  of the table, those of special calls are marked as special, and the callee of a dynamic call is
  recorded for its call site.
\<close>

definition call_ok :: "func_id \<Rightarrow> plain_call_site \<Rightarrow> bool" where
  "call_ok f c \<longleftrightarrow> call_func c = f \<and> (\<forall>a \<in> set (call_args c). own_path f a) \<and> own_path f (call_destination c)"

fun edge_ok :: "func_id \<Rightarrow> internal_edge \<Rightarrow> bool" where
  "edge_ok f (p, q, k) \<longleftrightarrow> own_path f p \<and> own_path f q \<and> k \<noteq> GepPAGEdge []"

definition fpag_ok :: "'c analysis_context \<Rightarrow> func_pag \<Rightarrow> bool" where
  "fpag_ok acx fpag \<longleftrightarrow> (let f = fp_func_id fpag in
     (\<forall>e \<in> set (internal_edges fpag). edge_ok f e) \<and>
     (\<forall>(c, h) \<in> set (static_dispatch_callsites fpag). call_ok f c \<and> get_function_reference (acx_functions acx) h \<noteq> None) \<and>
     (\<forall>(c, h) \<in> set (special_callsites fpag). call_ok f c \<and> h \<in> special_functions acx) \<and>
     (\<forall>(p, c) \<in> set (dynamic_dispatch_callsites fpag). own_path f p \<and> call_ok f c \<and> get_dyn_callee_identifier acx (base_from id c) \<noteq> None) \<and>
     (\<forall>(p, c) \<in> set (dynamic_fntrait_callsites fpag). own_path f p \<and> call_ok f c \<and> get_dyn_callee_identifier acx (base_from id c) \<noteq> None) \<and>
     (\<forall>(p, c) \<in> set (fnptr_callsites fpag). own_path f p \<and> call_ok f c) \<and>
     static_variables_involved fpag \<subseteq> range StaticVariable)"

text \<open>The order of the lists does not change and nothing is taken out.\<close>

definition fpag_grows :: "func_pag \<Rightarrow> func_pag \<Rightarrow> bool" where
  "fpag_grows g g' \<longleftrightarrow> fp_func_id g' = fp_func_id g \<and>
     prefix (internal_edges g) (internal_edges g') \<and>
     static_variables_involved g \<subseteq> static_variables_involved g' \<and>
     prefix (static_dispatch_callsites g) (static_dispatch_callsites g') \<and>
     prefix (special_callsites g) (special_callsites g') \<and>
     prefix (dynamic_dispatch_callsites g) (dynamic_dispatch_callsites g') \<and>
     prefix (dynamic_fntrait_callsites g) (dynamic_fntrait_callsites g') \<and>
     prefix (fnptr_callsites g) (fnptr_callsites g')"

lemma fpag_grows_refl [simp]: "fpag_grows g g"
  by (simp add: fpag_grows_def)

lemma fpag_grows_trans: "fpag_grows a b \<Longrightarrow> fpag_grows b c \<Longrightarrow> fpag_grows a c"
  unfolding fpag_grows_def by (elim conjE, intro conjI) (blast intro: prefix_order.trans | simp)+

lemma fpag_ok_grows:
  assumes "fpag_ok acx g" "acx_grows acx acx'"
  shows "fpag_ok acx' g"
proof -
  have "special_functions acx \<subseteq> special_functions acx'" "dom (dyn_callsite_cache acx) \<subseteq> dom (dyn_callsite_cache acx')"
    using assms(2) by (simp_all add: acx_grows_def)
  moreover have "get_function_reference (acx_functions acx) h \<noteq> None \<Longrightarrow> get_function_reference (acx_functions acx') h \<noteq> None" for h
    using acx_grows_reference [OF assms(2)] by auto
  ultimately show ?thesis
    using assms(1) unfolding fpag_ok_def get_dyn_callee_identifier_def Let_def dom_def by (simp add: case_prod_unfold) blast
qed

lemma fpag_ok_new: "fpag_ok acx (func_pag_new f)"
  by (simp add: fpag_ok_def func_pag_new_def)

subsection \<open>The invariant of the builder\<close>

abbreviation own :: "'c builder \<Rightarrow> path \<Rightarrow> bool" where
  "own bs \<equiv> own_path (bd_func_id bs)"

definition bkeeps :: "'c builder \<Rightarrow> 'c builder \<Rightarrow> bool" where
  "bkeeps bs b \<longleftrightarrow>
     bd_func_id b = bd_func_id bs \<and> bd_func_ref b = bd_func_ref bs \<and> bd_mir b = bd_mir bs \<and>
     fp_func_id (bd_fpag b) = bd_func_id bs \<and> fpag_grows (bd_fpag bs) (bd_fpag b) \<and> fpag_ok (bd_acx b) (bd_fpag b) \<and>
     acx_grows (bd_acx bs) (bd_acx b) \<and> table_ok (acx_functions (bd_acx b)) \<and>
     (\<forall>place p. path_cache b place = Some p \<longrightarrow> own bs p)"

named_theorems fpag_post \<open>rules for the operations of the builder\<close>

lemma bkeeps_parts:
  assumes "bkeeps bs b"
  shows "bd_func_id b = bd_func_id bs" "fp_func_id (bd_fpag b) = bd_func_id bs" "bd_func_ref b = bd_func_ref bs"
    "table_ok (acx_functions (bd_acx b))" "path_cache b place = Some p \<Longrightarrow> own bs p" "bd_mir b = bd_mir bs"
  using assms by (auto simp: bkeeps_def)

lemma bkeeps_acx:
  assumes "bkeeps bs b" "acx_grows (bd_acx b) acx"
  shows "bkeeps bs (b\<lparr>bd_acx := acx\<rparr>)"
  using assms fpag_ok_grows [of "bd_acx b" "bd_fpag b" acx] acx_grows_trans [of "bd_acx bs" "bd_acx b" acx]
  by (auto simp: bkeeps_def acx_grows_def)

lemma bkeeps_cache: "bkeeps bs b \<Longrightarrow> own bs p \<Longrightarrow> bkeeps bs (b\<lparr>path_cache := (path_cache b)(place \<mapsto> p)\<rparr>)"
  by (simp add: bkeeps_def)

lemma bkeeps_fpag:
  assumes "bkeeps bs b" "fpag_grows (bd_fpag b) g" "fpag_ok (bd_acx b) g"
  shows "bkeeps bs (b\<lparr>bd_fpag := g\<rparr>)"
  using assms fpag_grows_trans [of "bd_fpag bs" "bd_fpag b" g]
  by (simp add: bkeeps_def) (simp add: fpag_grows_def)

lemma fpag_ok_edge:
  assumes "fpag_ok acx g" "own_path (fp_func_id g) p" "own_path (fp_func_id g) q" "k \<noteq> GepPAGEdge []"
  shows "fpag_ok acx (add_internal_edge g p q k) \<and> fpag_grows g (add_internal_edge g p q k)"
  using assms by (simp add: fpag_ok_def fpag_grows_def add_internal_edge_def Let_def)

lemma bkeeps_edge:
  assumes "bkeeps bs b" "own bs p" "own bs q" "k \<noteq> GepPAGEdge []"
  shows "bkeeps bs (fb_add_edge p q k b)"
proof -
  have "fpag_ok (bd_acx b) (bd_fpag b)" "fp_func_id (bd_fpag b) = bd_func_id bs" using assms(1) by (simp_all add: bkeeps_def)
  then show ?thesis
    unfolding fb_add_edge_def bd_update_fpag_def
    using fpag_ok_edge [of "bd_acx b" "bd_fpag b" p q k] assms by (auto intro!: bkeeps_fpag)
qed

lemma bkeeps_edges [fpag_post]:
  assumes "bkeeps bs b" "own bs p" "own bs q"
  shows "bkeeps bs (fb_add_addr_edge p q b)" "bkeeps bs (fb_add_direct_edge p q b)"
    "bkeeps bs (fb_add_cast_edge p q b)" "bkeeps bs (fb_add_offset_edge p q b)"
  using bkeeps_edge [OF assms]
  by (simp_all add: fb_add_addr_edge_def fb_add_direct_edge_def fb_add_cast_edge_def fb_add_offset_edge_def)

lemma bkeeps_set_type [fpag_post]: "bkeeps bs b \<Longrightarrow> bkeeps bs (bd_set_type env p t b)"
  unfolding bd_set_type_def by (rule bkeeps_acx) simp_all

lemma bkeeps_static [fpag_post]:
  "bkeeps bs b \<Longrightarrow> bkeeps bs (bd_update_fpag (\<lambda>g. add_static_variables_involved g (new_static_variable d)) b)"
  unfolding bd_update_fpag_def
  by (rule bkeeps_fpag) (auto simp: bkeeps_def fpag_ok_def fpag_grows_def add_static_variables_involved_def
      new_static_variable_def Let_def)

lemma bkeeps_callsite [fpag_post]:
  assumes "bkeeps bs b" "call_ok (bd_func_id bs) c"
  shows "get_function_reference (acx_functions (bd_acx b)) h \<noteq> None \<Longrightarrow>
      bkeeps bs (bd_update_fpag (\<lambda>g. add_static_dispatch_callsite g c h) b)"
    "own bs p \<Longrightarrow> bkeeps bs (bd_update_fpag (\<lambda>g. add_fnptr_callsite g p c) b)"
    "own bs p \<Longrightarrow> get_dyn_callee_identifier (bd_acx b) (base_from id c) \<noteq> None \<Longrightarrow>
      bkeeps bs (bd_update_fpag (\<lambda>g. add_dynamic_fntrait_callsite g p c) b)"
    "own bs p \<Longrightarrow> get_dyn_callee_identifier (bd_acx b) (base_from id c) \<noteq> None \<Longrightarrow>
      bkeeps bs (bd_update_fpag (\<lambda>g. add_dynamic_dispatch_callsite g p c) b)"
  unfolding bd_update_fpag_def using assms
  by (auto intro!: bkeeps_fpag simp: bkeeps_def fpag_ok_def fpag_grows_def add_static_dispatch_callsite_def
      add_fnptr_callsite_def add_dynamic_fntrait_callsite_def add_dynamic_dispatch_callsite_def Let_def)

text \<open>A special call is added together with the mark of its callee.\<close>

lemma bkeeps_special:
  assumes "bkeeps bs b" "call_ok (bd_func_id bs) c" "b' = bd_update_fpag (\<lambda>g. add_special_callsite g c h) b"
  shows "bkeeps bs (b'\<lparr>bd_acx := add_special_function (bd_acx b') h\<rparr>)"
proof -
  let ?b = "b\<lparr>bd_acx := add_special_function (bd_acx b) h\<rparr>"
  have "bkeeps bs ?b" using assms(1) by (rule bkeeps_acx) simp
  moreover have "h \<in> special_functions (bd_acx ?b)" by (simp add: add_special_function_def)
  ultimately have "bkeeps bs (?b\<lparr>bd_fpag := add_special_callsite (bd_fpag ?b) c h\<rparr>)"
    using assms(2) by (intro bkeeps_fpag) (auto simp: bkeeps_def fpag_ok_def fpag_grows_def add_special_callsite_def Let_def)
  moreover have "?b\<lparr>bd_fpag := add_special_callsite (bd_fpag ?b) c h\<rparr> = b'\<lparr>bd_acx := add_special_function (bd_acx b') h\<rparr>"
    by (simp add: assms(3) bd_update_fpag_def)
  ultimately show ?thesis by simp
qed

lemma call_ok_new:
  "\<forall>a \<in> set args. own_path f a \<Longrightarrow> own_path f dst \<Longrightarrow> call_ok f (new_callsite f l args dst)"
  by (simp add: call_ok_def new_callsite_def call_site_new_def)

end
