(* ===== verification/Builder_Invariant.thy ===== *)
theory Builder_Invariant
  imports Builder_State
begin

section \<open>Every step of the translation keeps the graph of the function well formed\<close>

text \<open>
  The rules follow the text of the operations, from the edges up to the translation of a body.
  The result is what the drivers rely on when they add the graph of a function.
\<close>

subsection \<open>Lookups and calls of the context\<close>

lemmas post_builder_lookups =
  post_any [of _ "bd_type b p"] post_any [of _ "bd_specialize env b t"] post_any [of _ "bd_specialize_args env b as"]
  post_any [of _ "equal_types tcx n t u"] post_any [of _ "equivalent_ptr_types tcx n t u"] post_any [of _ "is_deref_path p"]
  post_any [of _ "nth_opt xs i"] post_any [of _ "field_ty tcx n d as"] post_any [of _ "get_field_type tcx n t i"]
  post_any [of _ "get_downcast_type tcx n t i"] post_any [of _ "resolve_fn_def tcx d as"]
  post_any [of _ "try_to_devirtualize tcx d as"] post_any [of _ "is_dynamic_call tcx d as"]
  post_any [of _ "next_type as"] post_any [of _ "nth_type as i"] post_any [of _ "type_list_of as"]
  post_any [of _ "operand_place op"] post_any [of _ "union_field_type env as d b"]
  post_any [of _ "actual_arg_types b p"] post_any [of _ "try_eval_path_type tcx n acx p"]
  for b p env t as tcx n u xs i d op acx

lemma post_with_builder:
  assumes "bkeeps bs b" "\<And>acx x. r = Some (acx, x) \<Longrightarrow> acx_grows (bd_acx b) acx"
    "\<And>b' x. bkeeps bs b' \<Longrightarrow> Q (b', x)"
  shows "post (map_option (\<lambda>(acx, x). (b\<lparr>bd_acx := acx\<rparr>, x)) r) Q"
proof (rule postI, clarsimp)
  fix acx x assume "r = Some (acx, x)"
  then have "bkeeps bs (b\<lparr>bd_acx := acx\<rparr>)" using assms(1,2) bkeeps_acx by blast
  then show "Q (b\<lparr>bd_acx := acx\<rparr>, x)" by (rule assms(3))
qed

lemma post_func_id_of [fpag_post]:
  assumes "bkeeps bs b"
    "\<And>b' i. bkeeps bs b' \<Longrightarrow> get_function_reference (acx_functions (bd_acx b')) i \<noteq> None \<Longrightarrow> Q (b', i)"
  shows "post (bd_func_id_of env d as b) Q"
proof (rule postI)
  fix r assume "bd_func_id_of env d as b = Some r"
  then obtain acx i where r: "acx_get_func_id (be_tcx env) (be_text env) (be_from_usize env) (bd_acx b) d as = Some (acx, i)"
    "r = (b\<lparr>bd_acx := acx\<rparr>, i)" by (auto simp: bd_func_id_of_def)
  have "bkeeps bs (b\<lparr>bd_acx := acx\<rparr>)" using assms(1) func_id_grows [OF r(1)] by (rule bkeeps_acx)
  moreover have "get_function_reference (acx_functions acx) i \<noteq> None"
    using func_id_known [OF r(1) bkeeps_parts(4) [OF assms(1)]] by auto
  ultimately show "Q r" using assms(2) r(2) by simp
qed

lemma post_bd_projections [fpag_post]:
  "bkeeps bs b \<Longrightarrow> (\<And>b' ps. bkeeps bs b' \<Longrightarrow> Q (b', ps)) \<Longrightarrow> post (bd_pointer_projections env t b) Q"
  unfolding bd_pointer_projections_def by (rule post_with_builder) (auto intro: projections_grow)

lemma post_aux [fpag_post]:
  assumes "bkeeps bs b" "\<And>b' aux. bkeeps bs b' \<Longrightarrow> own bs aux \<Longrightarrow> Q (b', aux)"
  shows "post (fb_create_aux_local env t b) Q"
proof (rule postI)
  fix r assume "fb_create_aux_local env t b = Some r"
  then obtain acx aux where r: "create_aux_local (be_tcx env) (bd_acx b) (bd_func_id b) t = Some (acx, aux)"
    "r = (b\<lparr>bd_acx := acx\<rparr>, aux)" by (auto simp: fb_create_aux_local_def)
  have "bkeeps bs (b\<lparr>bd_acx := acx\<rparr>)" using assms(1) aux_local_grows [OF r(1)] by (rule bkeeps_acx)
  moreover have "own bs aux" using aux_local_path [OF r(1)] bkeeps_parts(1) [OF assms(1)] by auto
  ultimately show "Q r" using assms(2) r(2) by simp
qed

lemma post_case_acx:
  assumes "bkeeps bs b" "\<And>b' x. bkeeps bs b' \<Longrightarrow> post (f b' x) Q"
    "\<And>acx x. r = (acx, x) \<Longrightarrow> acx_grows (bd_acx b) acx"
  shows "post (case case r of (acx, x) \<Rightarrow> (b\<lparr>bd_acx := acx\<rparr>, x) of (b', x) \<Rightarrow> f b' x) Q"
proof -
  obtain acx x where r: "r = (acx, x)" by fastforce
  have "bkeeps bs (b\<lparr>bd_acx := acx\<rparr>)" using assms(1) assms(3) [OF r] by (rule bkeeps_acx)
  then show ?thesis using assms(2) by (simp add: r)
qed

lemma post_type_index_of [fpag_post]:
  assumes "bkeeps bs b" "\<And>b' x. bkeeps bs b' \<Longrightarrow> post (f b' x) Q"
  shows "post (case bd_type_index env t b of (b', i) \<Rightarrow> f b' i) Q"
  unfolding bd_type_index_def by (rule post_case_acx) (auto intro: assms type_index_grows)

lemma post_known_name [fpag_post]:
  assumes "bkeeps bs b" "\<And>b' x. bkeeps bs b' \<Longrightarrow> post (f b' x) Q"
  shows "post (case bd_known_name env d b of (b', k) \<Rightarrow> f b' k) Q"
  unfolding bd_known_name_def by (rule post_case_acx) (auto intro: assms known_name_grows)

lemma post_fn_traits [fpag_post]:
  assumes "bkeeps bs b" "\<And>b' x. bkeeps bs b' \<Longrightarrow> post (f b' x) Q"
  shows "post (case bd_in_ops_func_namespace env d b of (b', k) \<Rightarrow> f b' k) Q"
    "post (case bd_is_fntrait_call env d b of (b', k) \<Rightarrow> f b' k) Q"
  using assms bkeeps_acx [OF assms(1)]
  by (auto simp: bd_in_ops_func_namespace_def bd_is_fntrait_call_def split: prod.splits)

text \<open>Paths and call sites named after the function.\<close>

lemma own_of_builder [fpag_post]:
  assumes "bkeeps bs b"
  shows "own bs (new_heap_obj (fp_func_id (bd_fpag b)) l)" "own bs (new_return_value (bd_func_id b))"
    "own bs (new_local_parameter_or_result (bd_func_id b) n k)"
  using bkeeps_parts(1,2) [OF assms] by simp_all

lemma call_ok_of_builder [fpag_post]:
  "bkeeps bs b \<Longrightarrow> \<forall>a \<in> set args. own bs a \<Longrightarrow> own bs dst \<Longrightarrow>
     call_ok (bd_func_id bs) (new_callsite (bd_func_id b) l args dst)"
  using bkeeps_parts(1) [of bs b] call_ok_new by simp

lemma post_fold_bkeeps:
  assumes "bkeeps bs b" "\<And>x b. x \<in> set xs \<Longrightarrow> bkeeps bs b \<Longrightarrow> post (f x b) (bkeeps bs)" "\<And>b'. bkeeps bs b' \<Longrightarrow> Q b'"
  shows "post (fold_opt f xs b) Q"
proof (rule postI)
  fix b' assume "fold_opt f xs b = Some b'"
  then have "bkeeps bs b'" using assms(1) by (rule fold_opt_invariant) (use assms(2) in \<open>auto dest: postD\<close>)
  then show "Q b'" by (rule assms(3))
qed

lemma post_weaken: "post m P \<Longrightarrow> (\<And>x. P x \<Longrightarrow> Q x) \<Longrightarrow> post m Q"
  by (simp add: post_def)

subsection \<open>Edges\<close>

lemma deref_split_own: "deref_split p = Some (base, proj) \<Longrightarrow> own_path f p \<Longrightarrow> own_path f base"
  by (induction p rule: deref_split.induct) (auto simp: own_qualified)

lemma post_load_store [fpag_post]:
  assumes "bkeeps bs b" "own bs p" "own bs q" "\<And>b'. bkeeps bs b' \<Longrightarrow> Q b'"
  shows "post (fb_add_load_edge p q b) Q" "post (fb_add_store_edge p q b) Q" "post (fb_add_gep_edge p q b) Q"
proof -
  have edge: "Q (fb_add_edge x y k b)" if "own bs x" "own bs y" "k \<noteq> GepPAGEdge []" for x y k
    using assms(4) [OF bkeeps_edge [OF assms(1) that]] .
  have p: "own bs r" if "deref_split p = Some (r, es)" for r es using that assms(2) by (rule deref_split_own)
  have q: "own bs r" if "deref_split q = Some (r, es)" for r es using that assms(3) by (rule deref_split_own)
  show "post (fb_add_load_edge p q b) Q" "post (fb_add_gep_edge p q b) Q"
    using edge p assms(3) by (auto simp: fb_add_load_edge_def fb_add_gep_edge_def post_def bind_eq_Some_conv split: if_splits)
  show "post (fb_add_store_edge p q b) Q"
    using edge q assms(2) by (auto simp: fb_add_store_edge_def post_def bind_eq_Some_conv)
qed

lemma post_between_ptrs [fpag_post]:
  assumes "bkeeps bs b" "own bs p" "own bs q" "\<And>b'. bkeeps bs b' \<Longrightarrow> Q b'"
  shows "post (add_edge_between_ptrs p q b) Q"
  using assms
  by (auto simp: add_edge_between_ptrs_def split: bool.split intro!: post_builder_lookups fpag_post [where bs = bs])

lemma post_internal_edges [fpag_post]:
  assumes "bkeeps bs b" "own bs p" "own bs q" "\<And>b'. bkeeps bs b' \<Longrightarrow> Q b'"
  shows "post (add_internal_edges env p t q u b) Q"
proof -
  have "post (add_field_edge env p q pr b) (bkeeps bs)" if "bkeeps bs b" for pr b
    using assms(2,3) that
    by (auto simp: add_field_edge_def Let_def split: prod.split
        intro!: own_post [where f = "bd_func_id bs"] fpag_post [where bs = bs])
  then show ?thesis
    using assms
    by (auto simp: add_internal_edges_def intro!: post_builder_lookups fpag_post [where bs = bs] post_fold_bkeeps [where bs = bs])
qed

lemma post_dereference [fpag_post]:
  assumes "bkeeps bs b" "own bs p" "\<And>b' q. bkeeps bs b' \<Longrightarrow> own bs q \<Longrightarrow> Q (b', q)"
  shows "post (create_dereference env p t b) Q"
  using assms
  by (auto simp: create_dereference_def Let_def
      intro!: own_post [where f = "bd_func_id bs"] fpag_post [where bs = bs] assms(3))

text \<open>A dereference is read to, or written from, an auxiliary local.\<close>

lemma post_read_deref:
  assumes "bkeeps bs b" "own bs p" "\<And>b' q. bkeeps bs b' \<Longrightarrow> own bs q \<Longrightarrow> Q (b', q)"
  shows "post (if d then do { (b, aux) \<leftarrow> fb_create_aux_local env t b; b \<leftarrow> fb_add_load_edge p aux b; Some (b, aux) }
     else Some (b, p)) Q"
  using assms by (cases d) (auto intro!: fpag_post [where bs = bs])

lemma post_write_deref:
  assumes "bkeeps bs b" "own bs p" "\<And>b' q. bkeeps bs b' \<Longrightarrow> own bs q \<Longrightarrow> Q (b', q)"
  shows "post (if d then do { (b, aux) \<leftarrow> fb_create_aux_local env t b; b \<leftarrow> fb_add_store_edge aux p b; Some (b, aux) }
     else Some (b, p)) Q"
  using assms by (cases d) (auto intro!: fpag_post [where bs = bs])

lemma post_transmute_pointers [fpag_post]:
  assumes "bkeeps bs b" "own bs p" "own bs q" "\<And>b'. bkeeps bs b' \<Longrightarrow> Q b'"
  shows "post (transmute_pointers env p t q u b) Q"
proof -
  have edge: "post (equivalent_ptr_types tcx n t u)
      (\<lambda>e. Q (if e then fb_add_direct_edge p' q' b' else fb_add_cast_edge p' q' b'))"
    if "bkeeps bs b'" "own bs p'" "own bs q'" for b' p' q' tcx n
    using that assms(4) bkeeps_edges [OF that] by (intro post_any) simp
  show ?thesis
  proof (cases "is_any_ptr t \<and> is_any_ptr u")
    case True
    show ?thesis
      unfolding transmute_pointers_def
      by (simp only: True simp_thms if_False post_simps, rule post_any, rule post_read_deref [OF assms(1,2)],
          simp only: prod.case post_simps, rule post_any, erule post_write_deref [OF _ assms(3)],
          simp only: prod.case post_simps, rule edge, assumption+)
  qed (simp add: transmute_pointers_def)
qed

lemma post_flattened_fields:
  assumes "bkeeps bs b" "\<forall>(off, p, t) \<in> set srcs. own bs p" "\<forall>(off, q, u) \<in> set tgts. own bs q"
  shows "post (copy_flattened_fields env srcs tgts b) (bkeeps bs)"
  using assms
proof (induction "length srcs + length tgts" arbitrary: srcs tgts b rule: less_induct)
  case less
  show ?case
  proof (cases "srcs = [] \<or> tgts = []")
    case False
    then obtain off1 p t ss off2 q u ts where l: "srcs = (off1, p, t) # ss" "tgts = (off2, q, u) # ts"
      by (metis neq_Nil_conv prod_cases3)
    have rest: "post (copy_flattened_fields env ss ts b') (bkeeps bs)" if "bkeeps bs b'" for b'
      using less.hyps [of ss ts] less.prems that by (simp add: l)
    have fields: "own bs p" "own bs q" using less.prems by (simp_all add: l)
    have pair: "post (if is_any_ptr t \<and> is_any_ptr u
        then transmute_pointers env p t q u (bd_set_type env q u (bd_set_type env p t b)) else Some b)
        (\<lambda>b'. post (copy_flattened_fields env ss ts b') (bkeeps bs))"
      using less.prems(1) fields rest by (auto intro!: fpag_post [where bs = bs])
    show ?thesis
      using less.hyps [of srcs ts b] less.hyps [of ss tgts b] less.prems pair
      by (simp add: l split del: if_split) (simp split: if_split)
  next
    case True
    then have "copy_flattened_fields env srcs tgts b = Some b" by (cases srcs) auto
    then show ?thesis using less.prems by simp
  qed
qed

lemma post_copy_and_transmute [fpag_post]:
  assumes "bkeeps bs b" "own bs p" "own bs q" "\<And>b'. bkeeps bs b' \<Longrightarrow> Q b'"
  shows "post (copy_and_transmute env p t q u b) Q"
  using assms
  by (auto simp: copy_and_transmute_def intro!: own_post [where f = "bd_func_id bs"]
      intro: post_weaken [OF post_flattened_fields [where bs = bs]])

subsection \<open>Unions and function items\<close>

lemma union_fields_own:
  "union_fields_at p i sels = Some us \<Longrightarrow> own_path f p \<Longrightarrow> \<forall>(q, n) \<in> set us. own_path f q"
proof (induction sels arbitrary: i us)
  case (Cons sel sels)
  show ?case
  proof (cases "\<exists>index. sel = UnionField index")
    case True
    then obtain index q rest where r: "sel = UnionField index" "truncate_projection_elems p i = Some q"
      "union_fields_at p (Suc i) sels = Some rest" "us = (q, index) # rest"
      using Cons.prems(1) by (auto simp: bind_eq_Some_conv)
    then show ?thesis using Cons.IH [OF r(3) Cons.prems(2)] truncate_own [OF r(2) Cons.prems(2)] by simp
  next
    case False
    then have "union_fields_at p (Suc i) sels = Some us" using Cons.prems(1) by (cases sel) auto
    then show ?thesis using Cons.prems(2) by (rule Cons.IH)
  qed
qed simp

lemma retrieve_own: "retrieve_union_fields p = Some us \<Longrightarrow> own_path f p \<Longrightarrow> \<forall>(q, n) \<in> set us. own_path f q"
  by (auto simp: retrieve_union_fields_def dest: union_fields_own split: path.splits)

lemma post_to_union_field:
  assumes "bkeeps bs b" "own bs union_path" "own bs p"
  shows "post (cast_to_union_field env union_path n p t as field b) (bkeeps bs)"
  using assms
  by (auto simp: cast_to_union_field_def Let_def split: prod.split
      intro!: post_builder_lookups own_post [where f = "bd_func_id bs"] fpag_post [where bs = bs])

lemma post_from_union_field:
  assumes "bkeeps bs b" "own bs union_path"
  shows "post (cast_from_union_field env (union_path, n) b) (bkeeps bs)"
  using assms
  by (auto simp: cast_from_union_field_def Let_def split: ty.split
      intro!: post_builder_lookups own_post [where f = "bd_func_id bs"] fpag_post [where bs = bs]
        post_fold_bkeeps [where bs = bs] post_to_union_field)

lemma post_between_unions [fpag_post]:
  assumes "bkeeps bs b" "own bs p" "\<And>b'. bkeeps bs b' \<Longrightarrow> Q b'"
  shows "post (cast_between_union_fields env p b) Q"
proof (cases "retrieve_union_fields p")
  case (Some us)
  have "post (cast_from_union_field env u b') (bkeeps bs)" if "u \<in> set us" "bkeeps bs b'" for u b'
    using retrieve_own [OF Some assms(2)] that by (cases u) (auto intro: post_from_union_field)
  then show ?thesis
    using assms(1,3) by (auto simp: cast_between_union_fields_def Some intro!: post_fold_bkeeps [where bs = bs])
qed (simp add: cast_between_union_fields_def)

lemma post_fnptr_cast [fpag_post]:
  assumes "bkeeps bs b" "own bs p" "own bs q" "\<And>b'. bkeeps bs b' \<Longrightarrow> Q b'"
  shows "post (add_fnptr_cast_edge env p q t b) Q"
  using assms
  by (auto simp: add_fnptr_cast_edge_def split: path.split list.split path_selector.split
      intro!: fpag_post [where bs = bs])

lemma post_function_reference [fpag_post]:
  assumes "bkeeps bs b" "\<And>b' p. bkeeps bs b' \<Longrightarrow> own bs p \<Longrightarrow> Q (b', p)"
  shows "post (visit_function_reference env d as b) Q"
  using assms(1)
  by (auto simp: visit_function_reference_def Let_def intro!: post_builder_lookups fpag_post [where bs = bs] assms(2))

lemma post_closure_path [fpag_post]:
  assumes "bkeeps bs b" "\<And>b' p. bkeeps bs b' \<Longrightarrow> own bs p \<Longrightarrow> Q (b', p)"
  shows "post (new_closure_path env t b) Q"
  using assms(1)
  by (auto simp: new_closure_path_def Let_def split: ty.split
      intro!: post_builder_lookups fpag_post [where bs = bs] assms(2))

subsection \<open>Places\<close>

lemma post_box_field [fpag_post]:
  assumes "bkeeps bs b" "own bs p" "\<And>b' q. bkeeps bs b' \<Longrightarrow> own bs q \<Longrightarrow> Q (b', q)"
  shows "post (get_box_pointer_field env p t b) Q"
  using assms(1,2)
  by (auto simp: get_box_pointer_field_def split: option.split
      intro!: post_builder_lookups own_post [where f = "bd_func_id bs"] fpag_post [where bs = bs] assms(3))

lemma post_deref_base [fpag_post]:
  assumes "bkeeps bs b" "own bs p" "\<And>b' q. bkeeps bs b' \<Longrightarrow> own bs q \<Longrightarrow> Q (b', q)"
  shows "post (deref_base env p t b) Q"
  using assms(1,2)
  by (auto simp: deref_base_def split: option.split
      intro!: post_builder_lookups fpag_post [where bs = bs] assms(3))

lemma post_cache_union [fpag_post]:
  assumes "bkeeps bs b" "own bs p" "\<And>b'. bkeeps bs b' \<Longrightarrow> Q b'"
  shows "post (cache_union_type env p t sels b) Q"
proof -
  have path: "post (if sels = [] then Some p else new_qualified p sels) (own bs)"
    using assms(2) by (auto intro!: own_post [where f = "bd_func_id bs"])
  have "post (bd_specialize env b t) (\<lambda>u. Q (bd_set_type env q u b))" for q
    using assms(1,3) by (auto intro!: post_builder_lookups fpag_post [where bs = bs])
  then show ?thesis
    using assms(1,3) post_weaken [OF path] by (simp add: cache_union_type_def)
qed

lemma bkeeps_projection_elem:
  "visit_projection_elem env t e b = (b', sel) \<Longrightarrow> bkeeps bs b \<Longrightarrow> bkeeps bs b'"
  by (cases e) (auto simp: bd_type_index_def intro!: bkeeps_acx type_index_grows split: prod.splits)

lemma post_projection_step:
  assumes "bkeeps bs b" "own bs p"
  shows "post (visit_projection_step env e (b, p, t, sels)) (\<lambda>(b', p', _). bkeeps bs b' \<and> own bs p')"
proof -
  obtain b1 sel where e: "visit_projection_elem env t e b = (b1, sel)" by fastforce
  have b1: "bkeeps bs b1" by (rule bkeeps_projection_elem [OF e assms(1)])
  show ?thesis
    unfolding visit_projection_step.simps e prod.case
    by (cases e) (use b1 assms(2) in \<open>auto intro!: post_builder_lookups fpag_post [where bs = bs]\<close>)
qed

declare visit_projection_step.simps [simp del]

lemma post_projection [fpag_post]:
  assumes "bkeeps bs b" "own bs p" "\<And>b' q t. bkeeps bs b' \<Longrightarrow> own bs q \<Longrightarrow> Q (b', q, t)"
  shows "post (visit_projection env p t es b) Q"
  unfolding visit_projection_def post_simps
proof (rule post_fold [where P = "\<lambda>(b, q, t, sels). bkeeps bs b \<and> own bs q"])
  show "case (b, p, t, []) of (b, q, t, sels) \<Rightarrow> bkeeps bs b \<and> own bs q" using assms by simp
next
  fix e :: "'a place_elem" and s :: "'a builder \<times> path \<times> 'a ty \<times> path_selector list"
  assume "case s of (b, q, t, sels) \<Rightarrow> bkeeps bs b \<and> own bs q"
  then show "post (visit_projection_step env e s) (\<lambda>(b, q, t, sels). bkeeps bs b \<and> own bs q)"
    by (cases s) (auto intro: post_projection_step [THEN post_weaken])
next
  fix s :: "'a builder \<times> path \<times> 'a ty \<times> path_selector list"
  assume "case s of (b, q, t, sels) \<Rightarrow> bkeeps bs b \<and> own bs q"
  then show "post (case s of (b, base_path, ty, selectors) \<Rightarrow>
      do { result \<leftarrow> (if selectors = [] then Some base_path else new_qualified base_path selectors); Some (b, result, ty) }) Q"
    using assms(3) by (cases s) (auto intro!: own_post [where f = "bd_func_id bs"])
qed

lemma post_place [fpag_post]:
  assumes "bkeeps bs b" "\<And>b' p. bkeeps bs b' \<Longrightarrow> own bs p \<Longrightarrow> Q (b', p)"
  shows "post (get_path_for_place env place b) Q"
proof (cases "path_cache b place")
  case (Some p)
  then show ?thesis using assms(2) [OF assms(1)] bkeeps_parts(5) [OF assms(1)] by (simp add: get_path_for_place_def)
next
  case None
  show ?thesis
    using assms(1)
    by (auto simp: get_path_for_place_def None Let_def
        intro!: post_builder_lookups fpag_post [where bs = bs] bkeeps_cache assms(2))
qed

lemma post_place_type [fpag_post]:
  assumes "bkeeps bs b" "\<And>b' p t. bkeeps bs b' \<Longrightarrow> own bs p \<Longrightarrow> Q (b', p, t)"
  shows "post (get_path_and_type_for_place env place b) Q"
  using assms(1) by (auto simp: get_path_and_type_for_place_def intro!: post_builder_lookups fpag_post [where bs = bs] assms(2))

subsection \<open>Calls through the \<open>Fn\<close> traits\<close>

lemma post_unpack [fpag_post]:
  assumes "bkeeps bs b" "own bs p" "\<And>b' args. bkeeps bs b' \<Longrightarrow> \<forall>a \<in> set args. own bs a \<Longrightarrow> Q (b', args)"
  shows "post (fold_opt (unpack_tuple_arg env p) tys (b, [])) Q"
proof (rule post_fold [where P = "\<lambda>(b, args). bkeeps bs b \<and> (\<forall>a \<in> set args. own bs a)"])
  fix ty s assume "case s of (b, args) \<Rightarrow> bkeeps bs b \<and> (\<forall>a \<in> set args. own bs a)"
  then show "post (unpack_tuple_arg env p ty s) (\<lambda>(b, args). bkeeps bs b \<and> (\<forall>a \<in> set args. own bs a))"
    using assms(2)
    by (auto simp: unpack_tuple_arg_def split: prod.split
        intro!: own_post [where f = "bd_func_id bs"] fpag_post [where bs = bs])
qed (use assms(1,3) in auto)

lemma post_fn_item [fpag_post]:
  assumes "bkeeps bs b" "\<forall>a \<in> set args. own bs a" "own bs dst" "\<And>b'. bkeeps bs b' \<Longrightarrow> Q b'"
  shows "post (inline_fn_item env d as args dst l b) Q"
  using assms by (auto simp: inline_fn_item_def Let_def intro!: post_builder_lookups fpag_post [where bs = bs] assms(4))

lemma post_closure_ref:
  assumes "bkeeps bs b" "own bs p" "\<And>b' q. bkeeps bs b' \<Longrightarrow> own bs q \<Longrightarrow> Q (b', q)"
  shows "post (case m of
      Some decl_ty \<Rightarrow>
        (if is_ref decl_ty \<and> \<not> is_ref t then do {
           (b, r) \<leftarrow> fb_create_aux_local env u b;
           Some (fb_add_addr_edge p r b, r) }
         else Some (b, p))
    | None \<Rightarrow> Some (b, p)) Q"
  using assms(1,2) by (auto split: option.split intro!: fpag_post [where bs = bs] assms(3))

lemma post_closure [fpag_post]:
  assumes "bkeeps bs b" "own bs p" "\<forall>a \<in> set args. own bs a" "own bs dst" "\<And>b'. bkeeps bs b' \<Longrightarrow> Q b'"
  shows "post (inline_closure env t d as p args dst l b) Q"
proof -
  have call: "post (bd_func_id_of env d as b') (\<lambda>x. post (case x of (b'', i) \<Rightarrow>
      Some (bd_update_fpag (\<lambda>g. add_static_dispatch_callsite g (new_callsite (bd_func_id b') l (q # args) dst) i) b'')) Q)"
    if "bkeeps bs b'" "own bs q" for b' q
    using that assms(3,4) by (auto intro!: fpag_post [where bs = bs] assms(5))
  show ?thesis
    unfolding inline_closure_def post_simps Let_def
    by (rule post_any, rule post_closure_ref [OF assms(1,2)], simp only: prod.case post_simps, rule call)
qed

lemma post_fn_ptr [fpag_post]:
  assumes "bkeeps bs b" "own bs p" "\<forall>a \<in> set args. own bs a" "own bs dst" "\<And>b'. bkeeps bs b' \<Longrightarrow> Q b'"
  shows "post (inline_fn_ptr env p args dst l b) Q"
  using assms by (auto simp: inline_fn_ptr_def Let_def intro!: post_builder_lookups fpag_post [where bs = bs] assms(5))

lemma bkeeps_dyn_callsite:
  assumes "bkeeps bs b" "b' = b\<lparr>bd_acx := add_dyn_callsite (bd_acx b) c d as\<rparr>"
  shows "bkeeps bs b' \<and> get_dyn_callee_identifier (bd_acx b') c \<noteq> None"
  using bkeeps_acx [OF assms(1) callsites_grow(1)] by (simp add: assms(2) get_dyn_callee_identifier_def add_dyn_callsite_def)

lemma post_dynamic [fpag_post]:
  assumes "bkeeps bs b" "own bs p" "\<forall>a \<in> set args. own bs a" "own bs dst" "\<And>b'. bkeeps bs b' \<Longrightarrow> Q b'"
  shows "post (inline_dynamic env d as p args dst l b) Q"
proof -
  let ?c = "new_callsite (bd_func_id b) l args dst"
  define b' where "b' = b\<lparr>bd_acx := add_dyn_callsite (bd_acx b) (base_from id ?c) d as\<rparr>"
  have b': "bkeeps bs b'" "get_dyn_callee_identifier (bd_acx b') (base_from id ?c) \<noteq> None"
    using bkeeps_dyn_callsite [OF assms(1) b'_def] by blast+
  have c: "call_ok (bd_func_id bs) ?c" using assms(1,3,4) by (rule call_ok_of_builder)
  have add: "Q (bd_update_fpag (\<lambda>g. add_dynamic_fntrait_callsite g q ?c) b')" if "own bs q" for q
    using bkeeps_callsite(3) [OF b'(1) c that b'(2)] by (rule assms(5))
  have base: "own bs base" if "p = QualifiedPath base es" for base es using assms(2) that by (simp add: own_qualified)
  show ?thesis
    unfolding inline_dynamic_def Let_def b'_def [symmetric] post_simps
    by (rule post_any) (use add base assms(2) assms(5) [OF b'(1)] in \<open>auto split: path.split\<close>)
qed

lemma post_indirect [fpag_post]:
  assumes "bkeeps bs b" "\<forall>a \<in> set args. own bs a" "own bs dst" "\<And>b'. bkeeps bs b' \<Longrightarrow> Q b'"
  shows "post (inline_indirectly_called_function env d as args dst l b) Q"
proof (cases "\<exists>p q. args = [p, q]")
  case True
  then obtain p q where args: "args = [p, q]" by blast
  have rest: "post (next_type as) (\<lambda>ty. post (case ty of
            FnDef d substs \<Rightarrow> inline_fn_item env d substs actual_args dst l b'
          | Closure d substs \<Rightarrow> inline_closure env ty d substs p actual_args dst l b'
          | Coroutine d substs \<Rightarrow> inline_closure env ty d substs p actual_args dst l b'
          | FnPtrTy _ \<Rightarrow> inline_fn_ptr env p actual_args dst l b'
          | DynamicTy _ _ \<Rightarrow> inline_dynamic env d as p args dst l b'
          | _ \<Rightarrow> Some b') Q)"
    if "bkeeps bs b'" "\<forall>a \<in> set actual_args. own bs a" for b' actual_args
    by (rule post_any)
      (use that assms(2,3) args in \<open>auto split: ty.split intro!: fpag_post [where bs = bs] assms(4)\<close>)
  show ?thesis
    using assms(1,2)
    by (auto simp: inline_indirectly_called_function_def args
        intro!: post_any [of _ "actual_arg_types b q"] fpag_post [where bs = bs] rest [unfolded args])
next
  case False
  then have "inline_indirectly_called_function env d as args dst l b = None"
    by (auto simp: inline_indirectly_called_function_def split: list.split)
  then show ?thesis by simp
qed

lemma post_fntrait_call [fpag_post]:
  assumes "bkeeps bs b" "\<forall>a \<in> set args. own bs a" "own bs dst" "\<And>b'. bkeeps bs b' \<Longrightarrow> Q b'"
  shows "post (resolve_fntrait_call env d as args dst l b) Q"
  using assms
  by (auto simp: resolve_fntrait_call_def Let_def split: option.split bool.split intro!: fpag_post [where bs = bs] assms(4))

subsection \<open>Built-in summaries\<close>

lemma post_heap_object [fpag_post]:
  assumes "bkeeps bs b" "\<And>b' h. bkeeps bs b' \<Longrightarrow> own bs h \<Longrightarrow> post (f b' h) Q"
  shows "post (case new_heap_object env l b of (b', h) \<Rightarrow> f b' h) Q"
  unfolding new_heap_object_def Let_def prod.case
  by (rule assms(2)) (auto intro: assms(1) own_of_builder bkeeps_set_type)

lemma post_cast_heap [fpag_post]:
  assumes "bkeeps bs b" "own bs h" "\<And>b' q. bkeeps bs b' \<Longrightarrow> own bs q \<Longrightarrow> Q (b', q)"
  shows "post (cast_heap_object env h t b) Q"
proof (rule postI)
  fix r assume "cast_heap_object env h t b = Some r"
  then obtain acx q where r: "cast_to (be_tcx env) (be_fuel env) (bd_acx b) h t = Some (acx, Some q)" "r = (b\<lparr>bd_acx := acx\<rparr>, q)"
    by (auto simp: cast_heap_object_def bind_eq_Some_conv)
  have "bkeeps bs (b\<lparr>bd_acx := acx\<rparr>)" using assms(1) cast_to_grows [OF r(1)] by (rule bkeeps_acx)
  moreover have "own bs q" using post_cast_own [OF assms(2)] r(1) by (fastforce simp: post_def)
  ultimately show "Q r" using assms(3) r(2) by simp
qed

lemma post_addr_over_aux [fpag_post]:
  assumes "bkeeps bs b" "own bs obj" "own bs p" "\<And>b'. bkeeps bs b' \<Longrightarrow> Q b'"
  shows "post (add_addr_over_aux env obj p t b) Q"
proof (rule postI)
  fix b' assume "add_addr_over_aux env obj p t b = Some b'"
  then obtain acx aux where r: "create_aux_local (be_tcx env) (bd_acx (bd_set_type env p t b)) (bd_func_id bs) t = Some (acx, aux)"
    "b' = fb_add_direct_edge aux p (fb_add_addr_edge obj aux ((bd_set_type env p t b)\<lparr>bd_acx := acx\<rparr>))"
    using bkeeps_parts(2) [OF bkeeps_set_type [OF assms(1)], of env p t]
    by (auto simp: add_addr_over_aux_def Let_def bind_eq_Some_conv)
  have "bkeeps bs ((bd_set_type env p t b)\<lparr>bd_acx := acx\<rparr>)"
    using bkeeps_set_type [OF assms(1)] aux_local_grows [OF r(1)] by (rule bkeeps_acx)
  moreover have "own bs aux" using aux_local_path [OF r(1)] by auto
  ultimately show "Q b'" using assms(2,3) r(2) by (auto intro!: assms(4) fpag_post [where bs = bs])
qed

lemma own_nth: "nth_opt args i = Some p \<Longrightarrow> \<forall>a \<in> set args. own bs a \<Longrightarrow> own bs p"
  by (auto simp: nth_opt_def split: if_splits)

lemma post_nth_own [fpag_post]:
  "\<forall>a \<in> set args. own bs a \<Longrightarrow> (\<And>p. own bs p \<Longrightarrow> Q p) \<Longrightarrow> post (nth_opt args i) Q"
  by (auto intro!: postI dest: own_nth)

lemma bkeeps_concretized [fpag_post]:
  "bkeeps bs b \<Longrightarrow> bkeeps bs (b\<lparr>bd_acx := (bd_acx b)\<lparr>concretized_heap_objs := m\<rparr>\<rparr>)"
  by (rule bkeeps_acx) simp_all

lemmas post_special_lookups =
  post_any [of _ "bd_type b p"] post_any [of _ "nth_type as i"] post_any [of _ "type_list_of as"]
  post_any [of _ "try_eval_path_type tcx n acx p"] post_any [of _ "be_fn_once_trait env"]
  for b p as i tcx n acx env

lemma post_summaries [fpag_post]:
  assumes "bkeeps bs b" "\<forall>a \<in> set args. own bs a" "own bs dst" "\<And>b'. bkeeps bs b' \<Longrightarrow> Q b'"
  shows "post (handle_transmute env as args dst b) Q" "post (fb_handle_offset args dst b) Q"
    "post (handle_ptr_cast args dst b) Q" "post (handle_non_null_as_ptr env args dst b) Q"
    "post (handle_unique_new_unchecked args dst b) Q"
    "post (handle_result_map_err env as args dst b) Q" "post (handle_unique_into_nonnull env args dst b) Q"
  unfolding handle_transmute_def fb_handle_offset_def handle_ptr_cast_def handle_non_null_as_ptr_def
    handle_unique_new_unchecked_def handle_result_map_err_def handle_unique_into_nonnull_def
  using assms(1-3)
  by (auto intro!: post_special_lookups own_post [where f = "bd_func_id bs"] fpag_post [where bs = bs] assms(4)
      post_any [of _ "r :: 'a ty option" for r])

lemma post_raw_vec [fpag_post]:
  assumes "bkeeps bs b" "own bs dst" "\<And>b'. bkeeps bs b' \<Longrightarrow> Q b'"
  shows "post (handle_raw_vec_allocate_in env as dst l b) Q"
  unfolding handle_raw_vec_allocate_in_def Let_def
  using assms(1,2)
  by (auto intro!: post_special_lookups own_post [where f = "bd_func_id bs"] fpag_post [where bs = bs] assms(3))

lemma post_spawn [fpag_post]:
  assumes "bkeeps bs b" "\<forall>a \<in> set args. own bs a" "\<And>b'. bkeeps bs b' \<Longrightarrow> Q b'"
  shows "post (handle_thread_builder_spawn_unchecked env as args l b) Q"
  unfolding handle_thread_builder_spawn_unchecked_def
  using assms(1,2) by (auto intro!: post_special_lookups fpag_post [where bs = bs] assms(3))

lemma post_alloc [fpag_post]:
  assumes "bkeeps bs b" "\<forall>a \<in> set args. own bs a" "own bs dst" "\<And>b' h. bkeeps bs b' \<Longrightarrow> Q (b', h)"
  shows "post (handle_alloc env k args dst l b) Q"
  unfolding handle_alloc_def
  using assms(1-3) by (auto intro!: own_post [where f = "bd_func_id bs"] fpag_post [where bs = bs] assms(4))

lemma post_special_call [fpag_post]:
  assumes "bkeeps bs b" "\<forall>a \<in> set args. own bs a" "own bs dst" "\<And>b' h. bkeeps bs b' \<Longrightarrow> Q (b', h)"
  shows "post (handled_as_special_function_call env d as args dst l b) Q"
  unfolding handled_as_special_function_call_def
  using assms(1-3) by (auto intro!: post_special_lookups post_any [of _ "nth_opt ts i" for ts :: "'a ty list" and i]
      fpag_post [where bs = bs] assms(4))

subsection \<open>Constants and copies\<close>

lemma post_static_path [fpag_post]:
  assumes "bkeeps bs b" "\<And>b' p. bkeeps bs b' \<Longrightarrow> own bs p \<Longrightarrow> post (f b' p) Q"
  shows "post (case static_variable_path env d b of (b', p) \<Rightarrow> f b' p) Q"
  unfolding static_variable_path_def Let_def prod.case
  by (rule assms(2)) (auto intro!: fpag_post [where bs = bs] assms(1))

lemma bkeeps_static_path:
  assumes "static_variable_path env d b = (b', p)" "bkeeps bs b"
  shows "bkeeps bs b' \<and> own bs p"
  using assms by (auto simp: static_variable_path_def Let_def intro!: fpag_post [where bs = bs])

lemma post_unevaluated [fpag_post]:
  assumes "bkeeps bs b" "\<And>b' p. bkeeps bs b' \<Longrightarrow> own bs p \<Longrightarrow> Q (b', p)"
  shows "post (visit_unevaluated_const env d as promoted t b) Q"
proof -
  have static: "Q (static_variable_path env d' b)" for d'
    using bkeeps_static_path [OF _ assms(1)] assms(2) by (metis prod.exhaust)
  show ?thesis
    unfolding visit_unevaluated_const_def Let_def
    using assms(1)
    by (auto split: option.split intro!: post_builder_lookups fpag_post [where bs = bs] static assms(2))
qed

lemma post_const_value [fpag_post]:
  assumes "bkeeps bs b" "\<And>b' p. bkeeps bs b' \<Longrightarrow> own bs p \<Longrightarrow> Q (b', p)"
  shows "post (visit_const_value env v t b) Q"
  unfolding visit_const_value_def
  using assms(1)
  by (auto split: const_value.split option.split global_alloc.split ty.split intro!: fpag_post [where bs = bs] assms(2))

lemma post_const_operand [fpag_post]:
  assumes "bkeeps bs b" "\<And>b' p. bkeeps bs b' \<Longrightarrow> own bs p \<Longrightarrow> Q (b', p)"
  shows "post (visit_const_operand env c b) Q"
  unfolding visit_const_operand_def using assms(1) by (auto split: mir_const.split intro!: fpag_post [where bs = bs] assms(2))

lemma post_no_pointers [fpag_post]:
  assumes "bkeeps bs b" "\<And>b' r. bkeeps bs b' \<Longrightarrow> Q (b', r)"
  shows "post (no_pointers env t b) Q"
  unfolding no_pointers_def using assms(1) by (auto intro!: fpag_post [where bs = bs] assms(2))

lemma post_constant_assign [fpag_post]:
  assumes "bkeeps bs b" "own bs p" "\<And>b'. bkeeps bs b' \<Longrightarrow> Q b'"
  shows "post (visit_constant_assign env p c b) Q"
  unfolding visit_constant_assign_def add_const_assign_edge_def
  using assms(1,2) by (auto split: option.split intro!: post_builder_lookups fpag_post [where bs = bs] assms(3))

lemma post_copy_or_move [fpag_post]:
  assumes "bkeeps bs b" "own bs p" "\<And>b'. bkeeps bs b' \<Longrightarrow> Q b'"
  shows "post (visit_copy_or_move env p place b) Q"
  unfolding visit_copy_or_move_def Let_def
  using assms(1,2) by (auto intro!: post_builder_lookups fpag_post [where bs = bs] assms(3))

lemma post_use [fpag_post]:
  assumes "bkeeps bs b" "own bs p" "\<And>b'. bkeeps bs b' \<Longrightarrow> Q b'"
  shows "post (visit_use env p op b) Q"
  unfolding visit_use_def using assms(1,2) by (auto split: operand.split intro!: fpag_post [where bs = bs] assms(3))

lemma post_repeat [fpag_post]:
  assumes "bkeeps bs b" "own bs p" "\<And>b'. bkeeps bs b' \<Longrightarrow> Q b'"
  shows "post (visit_repeat env p op b) Q"
  unfolding visit_repeat_def
  using assms(1,2)
  by (auto split: ty.split intro!: post_builder_lookups own_post [where f = "bd_func_id bs"] fpag_post [where bs = bs] assms(3))

lemma post_operand_path [fpag_post]:
  assumes "bkeeps bs b" "\<And>b' p. bkeeps bs b' \<Longrightarrow> own bs p \<Longrightarrow> Q (b', p)"
  shows "post (operand_path env op b) Q"
  unfolding operand_path_def using assms(1) by (auto split: operand.split intro!: fpag_post [where bs = bs] assms(2))

lemma post_args [fpag_post]:
  assumes "bkeeps bs b" "\<And>b' ps. bkeeps bs b' \<Longrightarrow> \<forall>a \<in> set ps. own bs a \<Longrightarrow> Q (b', ps)"
  shows "post (visit_args env args b) Q"
  unfolding visit_args_def
proof (rule post_fold [where P = "\<lambda>(b, ps). bkeeps bs b \<and> (\<forall>a \<in> set ps. own bs a)"])
  fix op and s :: "'a builder \<times> path list"
  assume "case s of (b, ps) \<Rightarrow> bkeeps bs b \<and> (\<forall>a \<in> set ps. own bs a)"
  then show "post (case s of (b, args_paths) \<Rightarrow> do { (b, p) \<leftarrow> operand_path env op b; Some (b, args_paths @ [p]) })
      (\<lambda>(b, ps). bkeeps bs b \<and> (\<forall>a \<in> set ps. own bs a))"
    by (cases s) (auto intro!: fpag_post [where bs = bs])
qed (use assms in auto)

lemma post_copy_ptr [fpag_post]:
  assumes "bkeeps bs b" "\<And>b' p. bkeeps bs b' \<Longrightarrow> own bs p \<Longrightarrow> Q (b', p)"
  shows "post (copy_ptr_path env op b) Q"
proof -
  have boxed: "post (case tcx_boxed (be_tcx env) t of Some u \<Rightarrow> get_box_pointer_field env p u b' | None \<Rightarrow> None) Q"
    if "bkeeps bs b'" "own bs p" for b' p t
    using that by (auto split: option.split intro!: fpag_post [where bs = bs] assms(2))
  have ptr: "post (case t of RefTy _ _ _ \<Rightarrow> Some (b', p) | RawPtr _ _ \<Rightarrow> Some (b', p)
      | _ \<Rightarrow> (case tcx_boxed (be_tcx env) t of Some u \<Rightarrow> get_box_pointer_field env p u b' | None \<Rightarrow> None)) Q"
    if "bkeeps bs b'" "own bs p" for b' p t
    by (cases t) (use boxed [OF that] assms(2) [OF that] in simp_all)
  have place: "post (get_path_and_type_for_place env place b)
      (\<lambda>x. post (case x of (b, p, ty) \<Rightarrow> (case ty of RefTy _ _ _ \<Rightarrow> Some (b, p) | RawPtr _ _ \<Rightarrow> Some (b, p)
      | _ \<Rightarrow> (case tcx_boxed (be_tcx env) ty of Some u \<Rightarrow> get_box_pointer_field env p u b | None \<Rightarrow> None))) Q)" for place
    by (rule post_place_type [OF assms(1)]) (simp only: prod.case ptr)
  show ?thesis by (cases op) (simp_all only: copy_ptr_path_def operand.case post_simps place)
qed

lemma post_copy_non_overlapping [fpag_post]:
  assumes "bkeeps bs b" "\<And>b'. bkeeps bs b' \<Longrightarrow> Q b'"
  shows "post (visit_copy_non_overlapping env src dst b) Q"
  unfolding visit_copy_non_overlapping_def Let_def
  using assms(1)
  by (auto intro!: post_builder_lookups own_post [where f = "bd_func_id bs"] fpag_post [where bs = bs] assms(2))

subsection \<open>References and casts\<close>

lemma bkeeps_promoted_array [fpag_post]:
  "bkeeps bs b \<Longrightarrow> own bs arr \<Longrightarrow> own bs p \<Longrightarrow> bkeeps bs (addr_of_promoted_array env arr t p b)"
  by (auto simp: addr_of_promoted_array_def intro!: fpag_post [where bs = bs])

lemma post_addr_of [fpag_post]:
  assumes "bkeeps bs b" "own bs p" "own bs q" "\<And>b'. bkeeps bs b' \<Longrightarrow> Q b'"
  shows "post (addr_of_path p q b) Q"
proof (cases "\<exists>base es. p = QualifiedPath base es")
  case True
  then obtain base es where p: "p = QualifiedPath base es" by blast
  then have base: "own bs base" using assms(2) by (simp add: own_qualified)
  show ?thesis
    using assms(1-3) base
    by (auto simp: addr_of_path_def p split: list.split path_selector.split intro!: fpag_post [where bs = bs] assms(4))
next
  case False
  then show ?thesis
    using assms(1-3) by (cases p) (auto simp: addr_of_path_def intro!: fpag_post [where bs = bs] assms(4))
qed

lemma post_ref [fpag_post]:
  assumes "bkeeps bs b" "own bs p" "\<And>b'. bkeeps bs b' \<Longrightarrow> Q b'"
  shows "post (visit_ref_or_address_of env p place b) Q"
proof -
  have addr: "post (if is_promoted b' then do {
            rh_type \<leftarrow> bd_type b' rh;
            if is_argumentv1_array env rh_type
            then Some (addr_of_promoted_array env new_argumentv1_arr rh_type lh b')
            else if is_str_ref_array rh_type
            then Some (addr_of_promoted_array env new_str_ref_arr rh_type lh b')
            else addr_of_path rh lh b' }
          else addr_of_path rh lh b') Q" if "bkeeps bs b'" "own bs rh" "own bs lh" for b' rh lh
    using that by (auto intro!: post_builder_lookups fpag_post [where bs = bs] assms(3))
  have lh: "post (if d then do {
               lh_type \<leftarrow> bd_type b' p;
               (b, aux) \<leftarrow> fb_create_aux_local env lh_type b';
               b \<leftarrow> fb_add_store_edge aux p b;
               Some (b, aux) }
             else Some (b', p)) R" if "bkeeps bs b'" "\<And>b' q. bkeeps bs b' \<Longrightarrow> own bs q \<Longrightarrow> R (b', q)" for d b' R
    using that(1) assms(2) by (auto intro!: post_builder_lookups fpag_post [where bs = bs] that(2))
  show ?thesis
    unfolding visit_ref_or_address_of_def
    by (simp only: post_simps, rule post_place [OF assms(1)], simp only: prod.case post_simps, rule post_any,
        erule lh, simp only: prod.case, rule addr, assumption+)
qed

lemma post_reify [fpag_post]:
  assumes "bkeeps bs b" "own bs p" "\<And>b'. bkeeps bs b' \<Longrightarrow> Q b'"
  shows "post (reify_fn_pointer env p op t b) Q"
proof -
  have fn: "post (case op of
        ConstantOp _ \<Rightarrow> if is_function_path q then Some (b', q) else None
      | _ \<Rightarrow> do {
          rh_ty \<leftarrow> bd_type b' q;
          case rh_ty of FnDef d substs \<Rightarrow> visit_function_reference env d substs b' | _ \<Rightarrow> None })
      R" if "bkeeps bs b'" "own bs q" "\<And>b' q. bkeeps bs b' \<Longrightarrow> own bs q \<Longrightarrow> R (b', q)" for b' q R
    using that(1,2) by (cases op) (auto split: ty.split intro!: post_builder_lookups fpag_post [where bs = bs] that(3))
  show ?thesis
    unfolding reify_fn_pointer_def
    by (simp only: post_simps, rule post_operand_path [OF assms(1)], simp only: prod.case post_simps,
        rule fn, assumption, assumption, simp only: prod.case, rule post_fnptr_cast, assumption,
        rule assms(2), assumption, rule assms(3))
qed

lemma post_closure_fn_pointer [fpag_post]:
  assumes "bkeeps bs b" "own bs p" "\<And>b'. bkeeps bs b' \<Longrightarrow> Q b'"
  shows "post (closure_fn_pointer env p op b) Q"
  unfolding closure_fn_pointer_def
  using assms(1,2) by (auto intro!: post_builder_lookups fpag_post [where bs = bs] assms(3))

lemma post_unsize [fpag_post]:
  assumes "bkeeps bs b" "own bs p" "\<And>b'. bkeeps bs b' \<Longrightarrow> Q b'"
  shows "post (unsize_pointer env p t op u b) Q"
  unfolding unsize_pointer_def
  using assms(1,2) by (cases op) (auto split: option.split intro!: post_builder_lookups fpag_post [where bs = bs] assms(3))

lemma post_cast_pointer [fpag_post]:
  assumes "bkeeps bs b" "own bs p" "\<And>b'. bkeeps bs b' \<Longrightarrow> Q b'"
  shows "post (cast_pointer env p t op b) Q"
  unfolding cast_pointer_def
  using assms(1,2)
  by (auto split: option.split intro!: post_builder_lookups fpag_post [where bs = bs] assms(3))

lemma post_transmute [fpag_post]:
  assumes "bkeeps bs b" "own bs p" "\<And>b'. bkeeps bs b' \<Longrightarrow> Q b'"
  shows "post (visit_transmute env p t op b) Q" "post (direct_cast env p op b) Q"
  unfolding visit_transmute_def direct_cast_def
  using assms(1,2) by (auto split: option.split intro!: fpag_post [where bs = bs] assms(3))

lemma post_cast_kind [fpag_post]:
  assumes "bkeeps bs b" "own bs p" "\<And>b'. bkeeps bs b' \<Longrightarrow> Q b'"
  shows "post (cast_by_kind env p t kind op u b) Q"
  unfolding cast_by_kind_def
  using assms(1,2) by (auto split: cast_kind.split pointer_coercion.split intro!: fpag_post [where bs = bs] assms(3))

lemma post_cast [fpag_post]:
  assumes "bkeeps bs b" "own bs p" "\<And>b'. bkeeps bs b' \<Longrightarrow> Q b'"
  shows "post (visit_cast env p kind op t b) Q"
  unfolding visit_cast_def
  using assms(1,2) by (auto intro!: post_builder_lookups fpag_post [where bs = bs] assms(3))

subsection \<open>Operators and aggregates\<close>

lemma post_binary [fpag_post]:
  assumes "bkeeps bs b" "own bs p" "\<And>b'. bkeeps bs b' \<Longrightarrow> Q b'"
  shows "post (visit_binary_op env p binop op b) Q"
  unfolding visit_binary_op_def
  using assms(1,2) by (auto split: bin_op.split option.split intro!: fpag_post [where bs = bs] assms(3))

lemma post_parts:
  assumes "bkeeps bs b" "own bs p"
  shows "post (visit_tuple_field env p tys io b) (bkeeps bs)" "post (visit_adt_field env p as ops fd b) (bkeeps bs)"
    "post (visit_capture env p io b) (bkeeps bs)"
  unfolding visit_tuple_field_def visit_adt_field_def visit_capture_def Let_def
  using assms
  by (auto split: prod.split option.split
      intro!: post_any [of _ "bd_type b p"] post_any [of _ "field_ty tcx n d as" for tcx n d]
        post_any [of _ "get_field_type tcx n t i" for tcx n t i]
        own_post [where f = "bd_func_id bs"] fpag_post [where bs = bs])

lemma post_union_part [fpag_post]:
  assumes "bkeeps bs b" "own bs p" "\<And>b'. bkeeps bs b' \<Longrightarrow> Q b'"
  shows "post (visit_union_field env p fds as i ops b) Q"
  unfolding visit_union_field_def
  using assms(1,2)
  by (auto intro!: post_builder_lookups own_post [where f = "bd_func_id bs"] fpag_post [where bs = bs] assms(3))

lemma post_aggregate [fpag_post]:
  assumes "bkeeps bs b" "own bs p" "\<And>b'. bkeeps bs b' \<Longrightarrow> Q b'"
  shows "post (visit_aggregate env p kind ops b) Q"
proof -
  have adt: "post (if e then new_downcast p i else Some p)
      (\<lambda>q. post (fold_opt (visit_adt_field env q as ops) fds b) Q)" for e i as fds
    using assms(1,2)
    by (auto intro!: own_post [where f = "bd_func_id bs"] post_fold_bkeeps [where bs = bs] post_parts assms(3))
  show ?thesis
    using assms(1,2) adt
    by (cases kind) (auto simp: visit_aggregate_def Let_def
        intro!: post_builder_lookups own_post [where f = "bd_func_id bs"] fpag_post [where bs = bs]
          post_fold_bkeeps [where bs = bs] post_parts assms(3))
qed

lemma post_init_box [fpag_post]:
  assumes "bkeeps bs b" "own bs p" "\<And>b'. bkeeps bs b' \<Longrightarrow> Q b'"
  shows "post (visit_shallow_init_box env p op t b) Q"
  unfolding visit_shallow_init_box_def
  using assms(1,2) by (auto intro!: post_builder_lookups fpag_post [where bs = bs] assms(3))

lemma post_rvalue [fpag_post]:
  assumes "bkeeps bs b" "own bs p" "\<And>b'. bkeeps bs b' \<Longrightarrow> Q b'"
  shows "post (visit_rvalue env p rv b) Q"
  using assms(1,2)
  by (cases rv) (auto simp: visit_rvalue_def intro!: post_builder_lookups fpag_post [where bs = bs] assms(3))

subsection \<open>Statements, calls and bodies\<close>

lemma post_assign [fpag_post]:
  assumes "bkeeps bs b" "\<And>b'. bkeeps bs b' \<Longrightarrow> Q b'"
  shows "post (visit_assign env place rv b) Q"
  unfolding visit_assign_def using assms(1) by (auto intro!: fpag_post [where bs = bs] assms(2))

lemma post_statement [fpag_post]:
  assumes "bkeeps bs b" "\<And>b'. bkeeps bs b' \<Longrightarrow> Q b'"
  shows "post (visit_statement env st b) Q"
  unfolding visit_statement_def visit_non_diverging_intrinsic_def
  using assms(1) by (auto split: statement.split non_diverging.split intro!: fpag_post [where bs = bs] assms(2))

lemma post_static_call [fpag_post]:
  assumes "bkeeps bs b" "call_ok (bd_func_id bs) c" "\<And>b'. bkeeps bs b' \<Longrightarrow> Q b'"
  shows "post (add_static_call env d as c b) Q"
  unfolding add_static_call_def using assms(1,2) by (auto intro!: fpag_post [where bs = bs] assms(3))

lemma post_mark_special [fpag_post]:
  assumes "bkeeps bs b" "call_ok (bd_func_id bs) c" "\<And>b'. bkeeps bs b' \<Longrightarrow> Q b'"
  shows "post (add_special_call env d as c b) Q"
proof -
  have mark: "Q ((bd_update_fpag (\<lambda>g. add_special_callsite g c h) b')
      \<lparr>bd_acx := add_special_function (bd_acx (bd_update_fpag (\<lambda>g. add_special_callsite g c h) b')) h\<rparr>)"
    if "bkeeps bs b'" for b' h
    using bkeeps_special [OF that assms(2) refl] by (rule assms(3))
  show ?thesis
    unfolding add_special_call_def Let_def
    using assms(1) mark
    by (auto split: option.split prod.split intro!: post_any [of _ "try_to_devirtualize tcx d as" for tcx] fpag_post [where bs = bs])
qed

lemma post_dynamic_call [fpag_post]:
  assumes "bkeeps bs b" "call_ok (bd_func_id bs) c" "\<forall>a \<in> set args. own bs a" "\<And>b'. bkeeps bs b' \<Longrightarrow> Q b'"
  shows "post (add_dynamic_call env d as args c b) Q"
proof -
  define b' where "b' = b\<lparr>bd_acx := add_dyn_callsite (bd_acx b) (base_from id c) d as\<rparr>"
  have b': "bkeeps bs b'" "get_dyn_callee_identifier (bd_acx b') (base_from id c) \<noteq> None"
    using bkeeps_dyn_callsite [OF assms(1) b'_def] by blast+
  have "Q (bd_update_fpag (\<lambda>g. add_dynamic_dispatch_callsite g p c) b')" if "own bs p" for p
    using bkeeps_callsite(4) [OF b'(1) assms(2) that b'(2)] by (rule assms(4))
  then show ?thesis
    unfolding add_dynamic_call_def Let_def b'_def [symmetric]
    using assms(3) assms(4) [OF assms(1)]
    by (auto intro!: post_any [of _ "is_dynamic_call tcx d as" for tcx] post_nth_own [where bs = bs])
qed

lemma post_resolve_call [fpag_post]:
  assumes "bkeeps bs b" "\<And>b'. bkeeps bs b' \<Longrightarrow> Q b'"
  shows "post (resolve_call env d as args dst l b) Q"
proof -
  have devirtualized: "post (try_to_devirtualize tcx d' as') (\<lambda>r. post (case r of
      Some (d, substs) \<Rightarrow> add_static_call env d substs c b' | None \<Rightarrow> add_dynamic_call env d' as' ps c b') Q)"
    if "bkeeps bs b'" "call_ok (bd_func_id bs) c" "\<forall>a \<in> set ps. own bs a" for tcx d' as' c b' ps
    by (rule post_any) (use that in \<open>auto split: option.split intro!: fpag_post [where bs = bs] assms(2)\<close>)
  show ?thesis
    unfolding resolve_call_def Let_def
    using assms(1)
    by (auto split: bool.split intro!: post_any [of _ "bd_specialize_args env b as"]
        devirtualized fpag_post [where bs = bs] assms(2))
qed

lemma post_through_pointer [fpag_post]:
  assumes "bkeeps bs b" "own bs p" "\<And>b'. bkeeps bs b' \<Longrightarrow> Q b'"
  shows "post (call_through_pointer env p args dst l b) Q"
  unfolding call_through_pointer_def Let_def using assms(1,2) by (auto intro!: fpag_post [where bs = bs] assms(3))

lemma post_call [fpag_post]:
  assumes "bkeeps bs b" "\<And>b'. bkeeps bs b' \<Longrightarrow> Q b'"
  shows "post (visit_call env op args dst l b) Q"
proof (cases "\<exists>c. op = ConstantOp c")
  case True
  then obtain c where op: "op = ConstantOp c" by blast
  show ?thesis
    using assms(1)
    by (cases "const_ty c") (auto simp: visit_call_def op intro!: fpag_post [where bs = bs] assms(2))
next
  case False
  have pointer: "post (case t of
            FnDef d gen_args \<Rightarrow> resolve_call env d gen_args args dst l b'
          | FnPtrTy _ \<Rightarrow> call_through_pointer env p args dst l b'
          | _ \<Rightarrow> None) Q" if "bkeeps bs b'" "own bs p" for b' p t
    using that by (cases t) (auto intro!: fpag_post [where bs = bs] assms(2))
  have "visit_call env op args dst l b = do {
      place \<leftarrow> operand_place op;
      (b, p, t) \<leftarrow> get_path_and_type_for_place env place b;
      case t of FnDef d gen_args \<Rightarrow> resolve_call env d gen_args args dst l b
      | FnPtrTy _ \<Rightarrow> call_through_pointer env p args dst l b
      | _ \<Rightarrow> None }"
    using False by (cases op) (simp_all add: visit_call_def)
  then show ?thesis
    by (simp only: post_simps, intro post_any [of _ "operand_place op"] post_place_type [OF assms(1)])
      (simp only: prod.case pointer)
qed

lemma post_body [fpag_post]:
  assumes "bkeeps bs b" "\<And>b'. bkeeps bs b' \<Longrightarrow> Q b'"
  shows "post (visit_body env b) Q"
proof -
  have "post (visit_basic_block env block b') (bkeeps bs)" if "bkeeps bs b'" for block b'
    unfolding visit_basic_block_def visit_terminator_def
    using that
    by (auto split: prod.split option.split terminator.split
        intro!: post_fold_bkeeps [where bs = bs] fpag_post [where bs = bs])
  then show ?thesis
    unfolding visit_body_def using assms by (auto intro!: post_fold_bkeeps [where bs = bs])
qed

lemma post_result_edges [fpag_post]:
  assumes "bkeeps bs b" "own bs p" "\<And>b'. bkeeps bs b' \<Longrightarrow> Q b'"
  shows "post (add_result_edges env p b) Q"
  unfolding add_result_edges_def Let_def
  using assms(1,2) by (auto intro!: post_any [of _ "bd_type b q" for q] fpag_post [where bs = bs] assms(3))

lemma post_build:
  assumes "bkeeps bs b"
  shows "post (build env b) (bkeeps bs)"
  unfolding build_def using assms by (auto split: option.split intro!: fpag_post [where bs = bs])

lemma build_fpag_keeps:
  assumes "build_fpag env acx f mir = Some (acx', fpag)" "table_ok (acx_functions acx)"
  shows "fp_func_id fpag = f \<and> fpag_ok acx' fpag \<and> acx_grows acx acx' \<and> table_ok (acx_functions acx')"
proof -
  obtain bs b where b: "builder_new acx f mir (func_pag_new f) = Some bs" "build env bs = Some b"
    "acx' = bd_acx b" "fpag = bd_fpag b"
    using assms(1) by (auto simp: build_fpag_def bind_eq_Some_conv)
  have bs: "bd_func_id bs = f" "bd_fpag bs = func_pag_new f" "path_cache bs = Map.empty"
    "bd_acx bs = acx\<lparr>aux_local_indexer := aux_local_indexer (bd_acx bs)\<rparr>"
    using b(1) by (auto simp: builder_new_def Let_def bind_eq_Some_conv)
  have acx: "acx_grows acx (bd_acx bs)" "table_ok (acx_functions (bd_acx bs))"
    using assms(2) by (subst bs(4), simp)+
  then have "bkeeps bs bs"
    by (simp add: bkeeps_def bs(1-3) fpag_ok_new) (simp add: func_pag_new_def)
  from postD [OF post_build [OF this] b(2)] show ?thesis
    using acx bs(1) acx_grows_trans [OF acx(1)] by (auto simp: bkeeps_def b(3,4))
qed

end
