(* ===== verification/Body_Invariant.thy ===== *)
theory Body_Invariant
  imports Body_Graphs Builder_Invariant Solver_Invariant
begin

section \<open>The graphs of function bodies are kept well formed\<close>

text \<open>
  What the pointer graph knows of function bodies: each graph is the well-formed one of its
  function, the functions recorded as promoted constants are, and a function with recorded
  statics has been translated. Building graphs never replaces one and leaves the constraints alone.
\<close>

definition promoted_ref :: "'c analysis_context \<Rightarrow> func_id \<Rightarrow> bool" where
  "promoted_ref acx i \<longleftrightarrow> (\<exists>r. get_function_reference (acx_functions acx) i = Some r \<and> fr_promoted r \<noteq> None)"

definition bodies_ok :: "'c analysis_context \<Rightarrow> ('g, 'p) pag \<Rightarrow> bool" where
  "bodies_ok acx pag \<longleftrightarrow> table_ok (acx_functions acx) \<and>
     (\<forall>f fpag. func_pags pag f = Some fpag \<longrightarrow> fp_func_id fpag = f \<and> fpag_ok acx fpag) \<and>
     (\<forall>f S. promoted_funcs_map pag f = Some S \<longrightarrow> finite S \<and> (\<forall>i \<in> S. promoted_ref acx i)) \<and>
     (\<forall>f S. involved_static_funcs_map pag f = Some S \<longrightarrow> finite S) \<and>
     dom (involved_static_funcs_map pag) \<subseteq> dom (func_pags pag)"

text \<open>What is known of the functions that have a graph stays.\<close>

definition bodies_kept :: "('g, 'p) pag \<Rightarrow> ('g, 'p) pag \<Rightarrow> bool" where
  "bodies_kept pag pag' \<longleftrightarrow>
     func_pags pag \<subseteq>\<^sub>m func_pags pag' \<and> involved_static_funcs_map pag \<subseteq>\<^sub>m involved_static_funcs_map pag' \<and>
     (\<forall>f \<in> dom (func_pags pag). promoted_funcs_map pag' f = promoted_funcs_map pag f \<and>
        involved_static_funcs_map pag' f = involved_static_funcs_map pag f)"

definition same_constraints :: "('g, 'p) pag \<Rightarrow> ('g, 'p) pag \<Rightarrow> bool" where
  "same_constraints pag pag' \<longleftrightarrow>
     pag_graph pag' = pag_graph pag \<and> pag_values pag' = pag_values pag \<and> addr_edges_queue pag' = addr_edges_queue pag"

definition bodies_grow :: "'c analysis_context \<times> ('g, 'p) pag \<Rightarrow> 'c analysis_context \<times> ('g, 'p) pag \<Rightarrow> bool" where
  "bodies_grow = (\<lambda>(acx, pag) (acx', pag').
     acx_grows acx acx' \<and> bodies_kept pag pag' \<and> same_constraints pag pag')"

text \<open>The same but for the statics, which only \<open>build_func_pag\<close> records.\<close>

definition builds :: "'c analysis_context \<times> ('g, 'p) pag \<Rightarrow> 'c analysis_context \<times> ('g, 'p) pag \<Rightarrow> bool" where
  "builds b b' \<longleftrightarrow> bodies_ok (fst b') (snd b') \<and> bodies_grow b b' \<and>
     involved_static_funcs_map (snd b') = involved_static_funcs_map (snd b)"

lemma same_constraints_trans: "same_constraints a b \<Longrightarrow> same_constraints b c \<Longrightarrow> same_constraints a c"
  by (simp add: same_constraints_def)

lemma bodies_kept_refl [simp]: "bodies_kept pag pag"
  by (simp add: bodies_kept_def)

lemma bodies_kept_trans: "bodies_kept a b \<Longrightarrow> bodies_kept b c \<Longrightarrow> bodies_kept a c"
  unfolding bodies_kept_def by (metis map_le_implies_dom_le map_le_trans subsetD)

lemma bodies_grow_trans: "bodies_grow a b \<Longrightarrow> bodies_grow b c \<Longrightarrow> bodies_grow a c"
  unfolding bodies_grow_def
  by (auto intro: acx_grows_trans bodies_kept_trans same_constraints_trans split: prod.splits)

lemma builds_trans: "builds a b \<Longrightarrow> builds b c \<Longrightarrow> builds a c"
  unfolding builds_def using bodies_grow_trans by metis

lemma builds_refl: "bodies_ok acx pag \<Longrightarrow> builds (acx, pag) (acx, pag)"
  by (simp add: builds_def bodies_grow_def same_constraints_def)

lemma promoted_ref_grows: "acx_grows acx acx' \<Longrightarrow> promoted_ref acx i \<Longrightarrow> promoted_ref acx' i"
  unfolding promoted_ref_def using acx_grows_reference by blast

lemma bodies_ok_acx:
  assumes "bodies_ok acx pag" "acx_grows acx acx'"
  shows "bodies_ok acx' pag"
  using assms fpag_ok_grows [OF _ assms(2)] promoted_ref_grows [OF assms(2)]
  unfolding bodies_ok_def acx_grows_def by blast

lemma builds_acx: "builds b (acx, pag) \<Longrightarrow> acx_grows acx acx' \<Longrightarrow> builds b (acx', pag)"
  using acx_grows_trans bodies_ok_acx
  by (fastforce simp: builds_def bodies_grow_def split: prod.splits)

lemma kept_fpag:
  assumes "bodies_kept pag0 pag" "func_pags pag0 f = None"
  shows "bodies_kept pag0 (pag\<lparr>func_pags := (func_pags pag)(f \<mapsto> fpag)\<rparr>)"
    "bodies_kept pag0 (add_promoted_funcs f r pag)"
  using assms by (auto simp: bodies_kept_def add_promoted_funcs_def map_le_def split: option.split)

lemma builds_fpag:
  assumes "builds b (acx, pag)" "func_pags (snd b) f = None" "fp_func_id fpag = f" "fpag_ok acx fpag"
  shows "builds b (acx, pag\<lparr>func_pags := (func_pags pag)(f \<mapsto> fpag)\<rparr>)"
proof -
  have ok: "bodies_ok acx pag" using assms(1) by (simp add: builds_def)
  then have "bodies_ok acx (pag\<lparr>func_pags := (func_pags pag)(f \<mapsto> fpag)\<rparr>)"
    using assms(3,4) by (simp add: bodies_ok_def subset_insertI2)
  then show ?thesis
    using assms(1) kept_fpag(1) [OF _ assms(2), of pag fpag]
    by (simp add: builds_def bodies_grow_def same_constraints_def split: prod.splits)
qed

lemma builds_promoted:
  assumes "builds b (acx, pag)" "func_pags (snd b) f = None"
    "\<And>S. r = Some S \<Longrightarrow> finite S \<and> (\<forall>i \<in> S. promoted_ref acx i)"
  shows "builds b (acx, add_promoted_funcs f r pag)"
proof (cases r)
  case (Some S)
  have "bodies_ok acx pag" using assms(1) by (simp add: builds_def)
  then have "bodies_ok acx (pag\<lparr>promoted_funcs_map := (promoted_funcs_map pag)(f \<mapsto> S)\<rparr>)"
    using assms(3) [OF Some] by (simp add: bodies_ok_def)
  then show ?thesis
    using assms(1) kept_fpag(2) [OF _ assms(2), of pag r]
    by (simp add: Some add_promoted_funcs_def builds_def bodies_grow_def same_constraints_def split: prod.splits)
qed (use assms(1) in \<open>simp add: add_promoted_funcs_def\<close>)

subsection \<open>The operations\<close>

lemma post_insert_fpag:
  assumes "builds b (acx, pag)" "func_pags (snd b) f = None" "\<And>b'. builds b b' \<Longrightarrow> Q b'"
  shows "post (insert_fpag pe f mir acx pag) Q"
  unfolding insert_fpag_def post_simps split_def
proof (rule postI)
  fix x assume x: "build_fpag (pe_build pe) acx f mir = Some x"
  have "table_ok (acx_functions acx)" using assms(1) by (simp add: builds_def bodies_ok_def)
  from build_fpag_keeps [of "pe_build pe" acx f mir "fst x" "snd x"] x this
  have "fp_func_id (snd x) = f" "fpag_ok (fst x) (snd x)" "acx_grows acx (fst x)" by auto
  then show "Q (fst x, pag\<lparr>func_pags := (func_pags pag)(f \<mapsto> snd x)\<rparr>)"
    by (intro assms(3) builds_fpag builds_acx [OF assms(1)] assms(2))
qed

lemma promoted_id_ref:
  assumes "acx_get_promoted_id tx acx d as i = Some (acx', f)" "table_ok (acx_functions acx)"
  shows "acx_grows acx acx' \<and> promoted_ref acx' f"
  using assms add_reference_grows
  by (fastforce simp: acx_get_promoted_id_def get_promoted_id_def acx_grows_def promoted_ref_def new_promoted_reference_def)

definition promotes :: "'c analysis_context \<times> ('g, 'p) pag \<Rightarrow> 'c analysis_context \<times> ('g, 'p) pag \<times> func_id set \<Rightarrow> bool" where
  "promotes b = (\<lambda>(acx, pag, S). builds b (acx, pag) \<and> finite S \<and> (\<forall>i \<in> S. promoted_ref acx i))"

lemma post_promote_constant: "promotes b s \<Longrightarrow> post (promote_constant pe d as x s) (promotes b)"
proof -
  assume s: "promotes b s"
  obtain acx pag S where s': "s = (acx, pag, S)" by (rule prod_cases3)
  obtain i mir where x: "x = (i, mir)" by fastforce
  show ?thesis
  proof (rule postI)
    fix s2 assume "promote_constant pe d as x s = Some s2"
    then obtain acx1 f b2 where 1: "acx_get_promoted_id (be_text (pe_build pe)) acx d as i = Some (acx1, f)"
      "(if func_pags pag f \<noteq> None then Some (acx1, pag) else insert_fpag pe f mir acx1 pag) = Some b2"
      "s2 = (fst b2, snd b2, insert f S)"
      by (auto simp: promote_constant_def s' x split: Option.bind_splits)
    have b1: "builds b (acx, pag)" "\<forall>i \<in> S. promoted_ref acx i" "finite S" using s by (simp_all add: promotes_def s')
    then have "table_ok (acx_functions acx)" by (simp add: builds_def bodies_ok_def)
    note f = promoted_id_ref [OF 1(1) this]
    have start: "builds (acx1, pag) (acx1, pag)"
      using builds_acx [OF b1(1)] f builds_refl by (metis builds_def fst_conv snd_conv)
    have "builds (acx1, pag) b2"
      using 1(2) start postD [OF post_insert_fpag [OF start _, of f "builds (acx1, pag)"]] by (auto split: if_splits)
    note b2 = builds_trans [OF builds_acx [OF b1(1)] this]
    have grows: "acx_grows acx1 (fst b2)"
      using \<open>builds (acx1, pag) b2\<close> by (cases b2) (simp add: builds_def bodies_grow_def)
    have "promoted_ref (fst b2) i" if "i \<in> insert f S" for i
      using that f b1(2) promoted_ref_grows [OF grows] promoted_ref_grows by blast
    then show "promotes b s2" using b2 f b1(3) by (simp add: promotes_def 1(3))
  qed
qed

lemma post_promote_constants:
  assumes "builds b (acx, pag)" "\<And>acx' pag' r. builds b (acx', pag') \<Longrightarrow> (\<And>S. r = Some S \<Longrightarrow> finite S \<and> (\<forall>i \<in> S. promoted_ref acx' i)) \<Longrightarrow> Q (acx', pag', r)"
  shows "post (promote_constants pe d as acx pag) Q"
  unfolding promote_constants_def post_simps split_def
proof (rule post_fold [where P = "promotes b"])
  show "promotes b (acx, pag, {})" using assms(1) by (simp add: promotes_def)
  show "post (promote_constant pe d as x s) (promotes b)" if "promotes b s" for x s
    using that by (rule post_promote_constant)
  show "Q (fst s, fst (snd s), if snd (snd s) = {} then None else Some (snd (snd s)))" if "promotes b s" for s
    by (rule assms(2)) (use that in \<open>auto simp: promotes_def split: if_splits prod.splits\<close>)
qed

lemma post_build_static:
  assumes "builds b (acx, pag)"
  shows "post (build_static_pag pe d acx pag) (\<lambda>(acx', pag', r). builds b (acx', pag'))"
proof -
  have projections: "post (if is_any_ptr t then Some (acx, False)
      else do { (acx, projs) \<leftarrow> acx_pointer_projections tcx n acx t; Some (acx, projs = []) }) (\<lambda>(acx', x). builds b (acx', pag))" for t tcx n
    using assms builds_acx [OF assms projections_grow] by (auto simp: post_def split: Option.bind_splits)
  have func: "post (acx_get_func_id tcx tx fu acx d []) (\<lambda>(acx', f). builds b (acx', pag))" if "builds b (acx, pag)" for acx tcx tx fu
    using builds_acx [OF that func_id_grows] by (auto simp: post_def)
  have unknown: "func_pags (snd b) f = None" if "builds b (acx, pag)" "func_pags pag f = None" for acx pag f
    using that by (auto simp: builds_def bodies_grow_def bodies_kept_def map_le_def dom_def split: prod.splits)
  have body: "post (if func_pags pag f \<noteq> None then Some (acx, pag)
      else do { (acx, pag, promoted) \<leftarrow> promote_constants pe d [] acx pag;
                insert_fpag pe f (instance_mir pe d) acx (add_promoted_funcs f promoted pag) }) (builds b)" if s: "builds b (acx, pag)" for acx f
  proof (cases "func_pags pag f")
    case None
    have "post (insert_fpag pe f (instance_mir pe d) acx' (add_promoted_funcs f r pag')) (builds b)"
      if "builds b (acx', pag')" "\<And>S. r = Some S \<Longrightarrow> finite S \<and> (\<forall>i \<in> S. promoted_ref acx' i)" for acx' pag' r
      by (rule post_insert_fpag [OF builds_promoted [OF that(1) unknown [OF s None] that(2)] unknown [OF s None]])
    then show ?thesis
      using None by (simp add: split_def) (rule post_promote_constants [OF s], simp)
  qed (use s in simp)
  have rest: "post (do {
        (acx, f) \<leftarrow> acx_get_func_id (pe_tcx pe) (be_text (pe_build pe)) (be_from_usize (pe_build pe)) acx d [];
        (acx, pag) \<leftarrow>
          (if func_pags pag f \<noteq> None then Some (acx, pag)
           else do { (acx, pag, promoted) \<leftarrow> promote_constants pe d [] acx pag;
                     insert_fpag pe f (instance_mir pe d) acx (add_promoted_funcs f promoted pag) });
        Some (acx, pag, Some f) }) (\<lambda>(acx', pag', r). builds b (acx', pag'))" if "builds b (acx, pag)" for acx
  proof -
    have "post (if func_pags pag (snd x) \<noteq> None then Some (fst x, pag)
        else do { (acx, pag, promoted) \<leftarrow> promote_constants pe d [] (fst x) pag;
                  insert_fpag pe (snd x) (instance_mir pe d) acx (add_promoted_funcs (snd x) promoted pag) })
      (\<lambda>p. builds b (fst p, snd p))" if "case x of (acx', f) \<Rightarrow> builds b (acx', pag)" for x
      using body [of "fst x" "snd x"] that by (simp add: split_beta)
    then show ?thesis
      unfolding post_simps split_beta fst_conv snd_conv
      by (intro post_weaken [OF func [OF that]]) (simp add: split_beta)
  qed
  have "post (if no_ptrs then Some (acx, pag, None) else do {
        (acx, f) \<leftarrow> acx_get_func_id (pe_tcx pe) (be_text (pe_build pe)) (be_from_usize (pe_build pe)) acx d [];
        (acx, pag) \<leftarrow>
          (if func_pags pag f \<noteq> None then Some (acx, pag)
           else do { (acx, pag, promoted) \<leftarrow> promote_constants pe d [] acx pag;
                     insert_fpag pe f (instance_mir pe d) acx (add_promoted_funcs f promoted pag) });
        Some (acx, pag, Some f) }) (\<lambda>(acx', pag', r). builds b (acx', pag'))"
    if "(\<lambda>(acx', x). builds b (acx', pag)) (acx, no_ptrs)" for acx no_ptrs
    using rest [of acx] that by (cases no_ptrs) (simp_all only: post_simps prod.case if_True if_False)
  then have "post (Option.bind m (\<lambda>(acx, no_ptrs). if no_ptrs then Some (acx, pag, None) else do {
        (acx, f) \<leftarrow> acx_get_func_id (pe_tcx pe) (be_text (pe_build pe)) (be_from_usize (pe_build pe)) acx d [];
        (acx, pag) \<leftarrow>
          (if func_pags pag f \<noteq> None then Some (acx, pag)
           else do { (acx, pag, promoted) \<leftarrow> promote_constants pe d [] acx pag;
                     insert_fpag pe f (instance_mir pe d) acx (add_promoted_funcs f promoted pag) });
        Some (acx, pag, Some f) })) (\<lambda>(acx', pag', r). builds b (acx', pag'))"
    if "post m (\<lambda>(acx', x). builds b (acx', pag))" for m
    unfolding post_simps(3) using that by (elim post_weaken) (simp only: split_paired_all prod.case)
  from this [OF projections] show ?thesis
    using assms unfolding build_static_pag_def Let_def by (simp only: post_simps prod.case split: if_split) simp
qed

definition refused :: "'c program_env \<Rightarrow> 'c analysis_context \<Rightarrow> func_id \<Rightarrow> bool" where
  "refused pe acx f \<longleftrightarrow> f \<in> special_functions acx \<or>
     (\<exists>r. get_function_reference (acx_functions acx) f = Some r \<and> \<not> tcx_is_mir_available (pe_tcx pe) (fr_def_id r))"

lemma refused_grows: "refused pe acx f \<Longrightarrow> acx_grows acx acx' \<Longrightarrow> refused pe acx' f"
proof -
  assume r: "refused pe acx f" and grows: "acx_grows acx acx'"
  then have "special_functions acx \<subseteq> special_functions acx'" by (simp add: acx_grows_def)
  then show ?thesis using r acx_grows_reference [OF grows] unfolding refused_def by blast
qed

lemma statics_recorded:
  assumes "builds (acx0, pag0) (acx, pag)" "func_pags pag0 f = None" "bodies_ok acx0 pag0" "fp_func_id fpag = f" "fpag_ok acx fpag"
    and S: "finite S"
  shows "bodies_ok acx (add_static_funcs f S pag\<lparr>func_pags := (func_pags pag)(f \<mapsto> fpag)\<rparr>) \<and>
    bodies_grow (acx0, pag0) (acx, add_static_funcs f S pag\<lparr>func_pags := (func_pags pag)(f \<mapsto> fpag)\<rparr>)"
proof -
  have "builds (acx0, pag0) (acx, pag\<lparr>func_pags := (func_pags pag)(f \<mapsto> fpag)\<rparr>)"
    using builds_fpag [OF assms(1) _ assms(4,5)] assms(2) by simp
  then have b: "bodies_ok acx (pag\<lparr>func_pags := (func_pags pag)(f \<mapsto> fpag)\<rparr>)"
    "bodies_grow (acx0, pag0) (acx, pag\<lparr>func_pags := (func_pags pag)(f \<mapsto> fpag)\<rparr>)"
    and same: "involved_static_funcs_map pag = involved_static_funcs_map pag0"
    by (simp_all add: builds_def)
  have "f \<notin> dom (involved_static_funcs_map pag0)" using assms(2,3) by (auto simp: bodies_ok_def)
  then have "involved_static_funcs_map pag0 \<subseteq>\<^sub>m (involved_static_funcs_map pag)(f \<mapsto> S)" by (auto simp: map_le_def same)
  then have "bodies_kept pag0 (add_static_funcs f S pag\<lparr>func_pags := (func_pags pag)(f \<mapsto> fpag)\<rparr>)"
    using b(2) assms(2) same by (auto simp: bodies_grow_def bodies_kept_def add_static_funcs_def)
  then show ?thesis
    using b S by (auto simp: add_static_funcs_def bodies_ok_def bodies_grow_def same_constraints_def)
qed

lemma post_build_func_pag:
  assumes ok: "bodies_ok acx pag"
  shows "post (build_func_pag pe f acx pag) (\<lambda>(acx', pag', built). bodies_ok acx' pag' \<and> bodies_grow (acx, pag) (acx', pag') \<and>
    (if built then func_pags pag' f \<noteq> None else refused pe acx' f))"
proof -
  have refl: "bodies_grow (acx, pag) (acx, pag)" using builds_refl [OF ok] by (simp add: builds_def)
  have build: "post (do {
          (acx, pag, promoted) \<leftarrow> promote_constants pe d as acx pag;
          let pag = add_promoted_funcs f promoted pag;
          (acx, fpag) \<leftarrow> build_fpag (pe_build pe) acx f mir;
          (acx, pag, static_funcs) \<leftarrow>
            fold_opt (build_static_of pe) (statics_order pe (static_variables_involved fpag)) (acx, pag, {});
          let pag = add_static_funcs f static_funcs pag;
          Some (acx, pag\<lparr>func_pags := (func_pags pag)(f \<mapsto> fpag)\<rparr>, True) })
     (\<lambda>(acx', pag', built). bodies_ok acx' pag' \<and> bodies_grow (acx, pag) (acx', pag') \<and> built \<and> func_pags pag' f \<noteq> None)"
    if none: "func_pags pag f = None" for d as mir
  proof -
    have translate: "post (do {
          (acx, fpag) \<leftarrow> build_fpag (pe_build pe) acx1 f mir;
          (acx, pag, static_funcs) \<leftarrow>
            fold_opt (build_static_of pe) (statics_order pe (static_variables_involved fpag)) (acx, pag1, {});
          let pag = add_static_funcs f static_funcs pag;
          Some (acx, pag\<lparr>func_pags := (func_pags pag)(f \<mapsto> fpag)\<rparr>, True) })
        (\<lambda>(acx', pag', built). bodies_ok acx' pag' \<and> bodies_grow (acx, pag) (acx', pag') \<and> built \<and> func_pags pag' f \<noteq> None)"
      if s: "builds (acx, pag) (acx1, pag1)" for acx1 pag1
    proof (rule postI)
      fix x assume "do {
          (acx, fpag) \<leftarrow> build_fpag (pe_build pe) acx1 f mir;
          (acx, pag, static_funcs) \<leftarrow>
            fold_opt (build_static_of pe) (statics_order pe (static_variables_involved fpag)) (acx, pag1, {});
          let pag = add_static_funcs f static_funcs pag;
          Some (acx, pag\<lparr>func_pags := (func_pags pag)(f \<mapsto> fpag)\<rparr>, True) } = Some x"
      then obtain acx2 fpag acx3 pag3 S where 1: "build_fpag (pe_build pe) acx1 f mir = Some (acx2, fpag)"
        "fold_opt (build_static_of pe) (statics_order pe (static_variables_involved fpag)) (acx2, pag1, {}) = Some (acx3, pag3, S)"
        "x = (acx3, add_static_funcs f S pag3\<lparr>func_pags := (func_pags pag3)(f \<mapsto> fpag)\<rparr>, True)"
        by (auto simp: Let_def add_static_funcs_def split: Option.bind_splits if_splits)
      have "table_ok (acx_functions acx1)" using s by (simp add: builds_def bodies_ok_def)
      from build_fpag_keeps [OF 1(1) this]
      have fpag: "fp_func_id fpag = f" "fpag_ok acx2 fpag" "acx_grows acx1 acx2" by auto
      have s2: "builds (acx, pag) (acx2, pag1)" using builds_acx [OF s fpag(3)] .
      have static: "post (build_static_of pe p t) (\<lambda>(acx, pag, S). builds (acx2, pag1) (acx, pag) \<and> finite S)"
        if "(\<lambda>(acx, pag, S). builds (acx2, pag1) (acx, pag) \<and> finite S) t" for p t
      proof -
        obtain acx pag S where t: "t = (acx, pag, S)" by (rule prod_cases3)
        have t': "builds (acx2, pag1) (acx, pag)" "finite S" using that by (simp_all add: t)
        show ?thesis
          using t' by (cases p) (auto simp: build_static_of_def t split_def split: option.split intro!: post_weaken [OF post_build_static [OF t'(1)]])
      qed
      have "post (fold_opt (build_static_of pe) (statics_order pe (static_variables_involved fpag)) (acx2, pag1, {}))
          (\<lambda>(acx, pag, S). builds (acx2, pag1) (acx, pag) \<and> finite S)"
      proof (rule post_fold [where P = "\<lambda>(acx, pag, S). builds (acx2, pag1) (acx, pag) \<and> finite S"])
        show "case (acx2, pag1, {}) of (acx, pag, S) \<Rightarrow> builds (acx2, pag1) (acx, pag) \<and> finite S"
          using s2 builds_refl [of acx2 pag1] by (simp add: builds_def)
      qed (rule static)
      from postD [OF this 1(2)] have s3: "builds (acx2, pag1) (acx3, pag3)" and S: "finite S" by simp_all
      from s3 have "acx_grows acx2 acx3" by (simp add: builds_def bodies_grow_def)
      from fpag_ok_grows [OF fpag(2) this] have "fpag_ok acx3 fpag" .
      from statics_recorded [OF builds_trans [OF s2 s3] none ok fpag(1) this S]
      show "(\<lambda>(acx', pag', built). bodies_ok acx' pag' \<and> bodies_grow (acx, pag) (acx', pag') \<and> built \<and> func_pags pag' f \<noteq> None) x"
        by (simp add: 1(3))
    qed
    have promoted: "builds (acx, pag) (acx1, add_promoted_funcs f r pag1)"
      if "builds (acx, pag) (acx1, pag1)" "\<And>S. r = Some S \<Longrightarrow> finite S \<and> (\<forall>i \<in> S. promoted_ref acx1 i)" for acx1 pag1 r
      using builds_promoted [OF that(1) _ that(2)] none by simp
    show ?thesis
      unfolding post_simps(3) split_def Let_def
      by (rule post_promote_constants [OF builds_refl [OF ok]])
        (use translate [OF promoted] in \<open>simp add: split_def Let_def\<close>)
  qed
  show ?thesis
  proof (cases "f \<in> special_functions acx")
    case True
    then show ?thesis using ok refl by (simp add: build_func_pag_def refused_def)
  next
    case special: False
    show ?thesis
    proof (rule postI)
      fix x assume x: "build_func_pag pe f acx pag = Some x"
      then obtain r where r: "get_function_reference (acx_functions acx) f = Some r"
        using special by (auto simp: build_func_pag_def split: Option.bind_splits)
      show "(\<lambda>(acx', pag', built). bodies_ok acx' pag' \<and> bodies_grow (acx, pag) (acx', pag') \<and>
          (if built then func_pags pag' f \<noteq> None else refused pe acx' f)) x"
      proof (cases "\<not> tcx_is_mir_available (pe_tcx pe) (fr_def_id r) \<or> func_pags pag f \<noteq> None")
        case True
        then show ?thesis
          using x special r ok refl by (auto simp: build_func_pag_def refused_def Let_def split: if_splits)
      next
        case False
        then have none: "func_pags pag f = None" by simp
        from False have "tcx_is_mir_available (pe_tcx pe) (fr_def_id r)" by simp
        with x special r none have "do {
            (acx, pag, promoted) \<leftarrow> promote_constants pe (fr_def_id r) (fr_generic_args r) acx pag;
            let pag = add_promoted_funcs f promoted pag;
            (acx, fpag) \<leftarrow> build_fpag (pe_build pe) acx f (optimized_mir pe (fr_def_id r));
            (acx, pag, static_funcs) \<leftarrow>
              fold_opt (build_static_of pe) (statics_order pe (static_variables_involved fpag)) (acx, pag, {});
            let pag = add_static_funcs f static_funcs pag;
            Some (acx, pag\<lparr>func_pags := (func_pags pag)(f \<mapsto> fpag)\<rparr>, True) } = Some x"
          unfolding build_func_pag_def by (simp only: Let_def if_False bind.simps simp_thms option.distinct)
        from postD [OF build [OF none] this] show ?thesis by (simp only: split_def if_True simp_thms)
      qed
    qed
  qed
qed

end
