(* ===== verification/Andersen.thy ===== *)
theory Andersen
  imports Body_Graphs Propagator
begin

section \<open>The context-insensitive analysis (\<open>src/pta/andersen.rs\<close>)\<close>

text \<open>
  The driver: the bodies of reachable functions are translated and added to the pointer graph,
  the solver runs, and the calls it finds make more functions reachable, until it finds none.
  The reachable functions and the edges between functions are queues that are read by iterators:
  \<open>rf_iter\<close> is the number of functions read. The recursion of \<open>add_fpag_edges\<close> and the two loops
  take fuel; new instances of generic functions may become reachable without end. The graph of
  the pre-analysis is an argument. Dumping the results is left out.
\<close>

record ('c, 'g, 'cg, 'fg) andersen_env =
  ae_pe :: "'c program_env"
  ae_gops :: "('g, path) pg_ops"
  ae_cgops :: "('cg, func_id, func_id base_call_site) cg_ops"
  ae_fgops :: "'fg fcg_ops"
  ae_cast_constraint :: bool
  ae_stack_filtering :: bool
  ae_call_order :: "plain_call_site set \<Rightarrow> plain_call_site list"
  ae_instance_order :: "(plain_call_site \<times> func_id) set \<Rightarrow> (plain_call_site \<times> func_id) list"
  ae_func_order :: "func_id set \<Rightarrow> func_id list"

record ('c, 'g, 'cg, 'fg) andersen =
  an_acx :: "'c analysis_context"
  an_pt_data :: node_pts
  an_pag :: "('g, path) pag"
  an_call_graph :: "('cg, func_id, func_id base_call_site) call_graph"
  processed_funcs :: "func_id set"
  rf_iter :: nat
  an_addr_edge_iter :: nat
  inter_proc_edges_queue :: "nat list"
  an_assoc_calls :: "(nat, func_id, path) assoc_call_group"
  an_stack_filter :: "('fg, func_id) stack_filter option"

definition andersen_new :: "('c, 'g, 'cg, 'fg) andersen_env \<Rightarrow> 'c analysis_context \<Rightarrow> ('c, 'g, 'cg, 'fg) andersen" where
  "andersen_new ae acx =
     \<lparr>an_acx = acx, an_pt_data = diff_new, an_pag = pag_new (ae_gops ae), an_call_graph = cg_new (ae_cgops ae),
      processed_funcs = {}, rf_iter = 0, an_addr_edge_iter = 0, inter_proc_edges_queue = [],
      an_assoc_calls = assoc_calls_new, an_stack_filter = None\<rparr>"

text \<open>What the solver is given.\<close>

definition andersen_solver_env :: "('c, 'g, 'cg, 'fg) andersen_env \<Rightarrow> ('c, 'g, 'fg, path, func_id) solver_env" where
  "andersen_solver_env ae =
     (let be = pe_build (ae_pe ae) in
      \<lparr>se_tcx = be_tcx be, se_fuel = be_fuel be, se_gops = ae_gops ae, se_pops = path_ops,
       se_tops = plain_type_ops (be_tcx be) (be_fuel be), se_text = be_text be, se_from_usize = be_from_usize be,
       se_re_static = be_re_static be, se_into = (\<lambda>f. f), se_is_reachable_from = func_is_reachable_from,
       se_is_const = be_is_const be, cast_constraint = ae_cast_constraint ae, stack_filtering = ae_stack_filtering ae,
       call_order = ae_call_order ae, instance_order = ae_instance_order ae\<rparr>)"

subsection \<open>Adding the graph of a function\<close>

definition add_fpag_edge ::
    "('c, 'g, 'cg, 'fg) andersen_env \<Rightarrow> internal_edge \<Rightarrow> ('c, 'g, 'cg, 'fg) andersen \<Rightarrow> ('c, 'g, 'cg, 'fg) andersen option" where
  "add_fpag_edge ae = (\<lambda>(src, dst, kind) s.
     do { (pag, r) \<leftarrow> add_edge (ae_gops ae) (an_pag s) src dst kind;
          let s = s\<lparr>an_pag := pag\<rparr>;
          Some (case r of
                  Some edge_id \<Rightarrow>
                    (if is_promoted_constant src \<or> is_static_variable src
                     then s\<lparr>inter_proc_edges_queue := inter_proc_edges_queue s @ [edge_id]\<rparr> else s)
                | None \<Rightarrow> s) })"

definition funcs_of :: "('c, 'g, 'cg, 'fg) andersen_env \<Rightarrow> (func_id \<rightharpoonup> func_id set) \<Rightarrow> func_id \<Rightarrow> func_id list" where
  "funcs_of ae m func_id = (case m func_id of Some funcs \<Rightarrow> ae_func_order ae funcs | None \<Rightarrow> [])"

fun add_fpag_edges ::
    "('c, 'g, 'cg, 'fg) andersen_env \<Rightarrow> nat \<Rightarrow> func_id \<Rightarrow> ('c, 'g, 'cg, 'fg) andersen \<Rightarrow> ('c, 'g, 'cg, 'fg) andersen option" where
  "add_fpag_edges ae 0 func_id s = None"
| "add_fpag_edges ae (Suc n) func_id s =
     (if func_id \<in> processed_funcs s then Some s
      else do {
        fpag \<leftarrow> func_pags (an_pag s) func_id;
        s \<leftarrow> fold_opt (add_fpag_edge ae) (internal_edges_iter fpag) s;
        s \<leftarrow> fold_opt (add_fpag_edges ae n) (funcs_of ae (promoted_funcs_map (an_pag s)) func_id) s;
        s \<leftarrow> fold_opt (add_fpag_edges ae n) (funcs_of ae (involved_static_funcs_map (an_pag s)) func_id) s;
        Some (s\<lparr>processed_funcs := insert func_id (processed_funcs s)\<rparr>) })"

subsection \<open>Calls\<close>

definition an_add_call_edge ::
    "('c, 'g, 'cg, 'fg) andersen_env \<Rightarrow> plain_call_site \<Rightarrow> func_id \<Rightarrow> ('c, 'g, 'cg, 'fg) andersen \<Rightarrow> ('c, 'g, 'cg, 'fg) andersen option" where
  "an_add_call_edge ae callsite callee s =
     do { (cg, new) \<leftarrow> cg_add_edge (ae_cgops ae) (an_call_graph s) (base_from id callsite) (call_func callsite) callee;
          let s = s\<lparr>an_call_graph := cg\<rparr>;
          if \<not> new then Some s
          else do {
            let be = pe_build (ae_pe ae);
            (acx, pag, new_edges) \<leftarrow>
              add_inter_procedural_edges (ae_pe ae) (ae_gops ae) path_ops (plain_type_ops (be_tcx be) (be_fuel be)) (\<lambda>f. f)
                callsite callee (an_acx s) (an_pag s);
            Some (s\<lparr>an_acx := acx, an_pag := pag, inter_proc_edges_queue := inter_proc_edges_queue s @ new_edges,
                   an_stack_filter := map_option (\<lambda>sf. add_pag_edges_in_func sf new_edges (call_func callsite)) (an_stack_filter s)\<rparr>) } }"

definition an_set_callsite_type ::
    "plain_call_site \<Rightarrow> call_type \<Rightarrow> ('c, 'g, 'cg, 'fg) andersen \<Rightarrow> ('c, 'g, 'cg, 'fg) andersen" where
  "an_set_callsite_type callsite ty s = s\<lparr>an_call_graph := set_callsite_type (an_call_graph s) (base_from id callsite) ty\<rparr>"

definition an_node ::
    "('c, 'g, 'cg, 'fg) andersen_env \<Rightarrow> path \<Rightarrow> ('c, 'g, 'cg, 'fg) andersen \<Rightarrow> ('c, 'g, 'cg, 'fg) andersen \<times> nat" where
  "an_node ae p s = (case get_or_insert_node (ae_gops ae) (an_pag s) p of (pag, i) \<Rightarrow> (s\<lparr>an_pag := pag\<rparr>, i))"

definition process_static_call ::
    "('c, 'g, 'cg, 'fg) andersen_env \<Rightarrow> plain_call_site \<times> func_id \<Rightarrow> ('c, 'g, 'cg, 'fg) andersen \<Rightarrow> ('c, 'g, 'cg, 'fg) andersen option" where
  "process_static_call ae = (\<lambda>(callsite, callee) s.
     map_option (an_set_callsite_type callsite StaticDispatch) (an_add_call_edge ae callsite callee s))"

definition process_special_call ::
    "('c, 'g, 'cg, 'fg) andersen_env \<Rightarrow> func_id \<Rightarrow> plain_call_site \<times> func_id \<Rightarrow> ('c, 'g, 'cg, 'fg) andersen \<Rightarrow>
     ('c, 'g, 'cg, 'fg) andersen option" where
  "process_special_call ae func_id = (\<lambda>(callsite, callee) s.
     do { (cg, new) \<leftarrow> cg_add_edge (ae_cgops ae) (an_call_graph s) (base_from id callsite) func_id callee;
          Some (an_set_callsite_type callsite StaticDispatch (s\<lparr>an_call_graph := cg\<rparr>)) })"

definition register_call ::
    "('c, 'g, 'cg, 'fg) andersen_env \<Rightarrow>
     ((nat, func_id, path) assoc_call_group \<Rightarrow> nat \<Rightarrow> plain_call_site \<Rightarrow> (nat, func_id, path) assoc_call_group) \<Rightarrow>
     call_type \<Rightarrow> path \<times> plain_call_site \<Rightarrow> ('c, 'g, 'cg, 'fg) andersen \<Rightarrow> ('c, 'g, 'cg, 'fg) andersen" where
  "register_call ae add ty = (\<lambda>(p, callsite) s.
     case an_node ae p s of (s, i) \<Rightarrow>
       an_set_callsite_type callsite ty (s\<lparr>an_assoc_calls := add (an_assoc_calls s) i callsite\<rparr>))"

definition process_calls_in_fpag ::
    "('c, 'g, 'cg, 'fg) andersen_env \<Rightarrow> func_id \<Rightarrow> ('c, 'g, 'cg, 'fg) andersen \<Rightarrow> ('c, 'g, 'cg, 'fg) andersen option" where
  "process_calls_in_fpag ae func_id s =
     do { fpag \<leftarrow> get_func_pag (an_pag s) func_id;
          s \<leftarrow> fold_opt (process_static_call ae) (static_dispatch_callsites fpag) s;
          s \<leftarrow> fold_opt (process_special_call ae func_id) (special_callsites fpag) s;
          let s = fold (register_call ae add_dynamic_fntrait_call DynamicFnTrait) (dynamic_fntrait_callsites fpag) s;
          let s = fold (register_call ae add_dynamic_dispatch_call DynamicDispatch) (dynamic_dispatch_callsites fpag) s;
          Some (fold (register_call ae add_fnptr_call FnPtr) (fnptr_callsites fpag) s) }"

subsection \<open>Reachable functions\<close>

definition process_reach_func ::
    "('c, 'g, 'cg, 'fg) andersen_env \<Rightarrow> nat \<Rightarrow> func_id \<Rightarrow> ('c, 'g, 'cg, 'fg) andersen \<Rightarrow> ('c, 'g, 'cg, 'fg) andersen option" where
  "process_reach_func ae n func_id s =
     (if func_id \<in> processed_funcs s then Some s
      else do {
        func_ref \<leftarrow> get_function_reference (acx_functions (an_acx s)) func_id;
        (acx, pag, built) \<leftarrow> build_func_pag (ae_pe ae) func_id (an_acx s) (an_pag s);
        let s = s\<lparr>an_acx := acx, an_pag := pag\<rparr>;
        if built then do {
          s \<leftarrow> add_fpag_edges ae n func_id s;
          process_calls_in_fpag ae func_id s }
        else Some s })"

fun process_reach_funcs ::
    "('c, 'g, 'cg, 'fg) andersen_env \<Rightarrow> nat \<Rightarrow> nat \<Rightarrow> ('c, 'g, 'cg, 'fg) andersen \<Rightarrow> ('c, 'g, 'cg, 'fg) andersen option" where
  "process_reach_funcs ae n 0 s = (if rf_iter s < length (reach_funcs (an_call_graph s)) then None else Some s)"
| "process_reach_funcs ae n (Suc m) s =
     (if rf_iter s < length (reach_funcs (an_call_graph s)) then do {
        s \<leftarrow> process_reach_func ae n (reach_funcs (an_call_graph s) ! rf_iter s) (s\<lparr>rf_iter := Suc (rf_iter s)\<rparr>);
        process_reach_funcs ae n m s }
      else Some s)"

definition process_new_calls ::
    "('c, 'g, 'cg, 'fg) andersen_env \<Rightarrow> nat \<Rightarrow> nat \<Rightarrow> (plain_call_site \<times> func_id) list \<Rightarrow> ('c, 'g, 'cg, 'fg) andersen \<Rightarrow>
     ('c, 'g, 'cg, 'fg) andersen option" where
  "process_new_calls ae n m calls s =
     do { s \<leftarrow> fold_opt (\<lambda>(callsite, callee_id). an_add_call_edge ae callsite callee_id) calls s;
          process_reach_funcs ae n m s }"

definition process_new_call_instances ::
    "('c, 'g, 'cg, 'fg) andersen_env \<Rightarrow> nat \<Rightarrow> nat \<Rightarrow> (plain_call_site \<times> path \<times> func_id) list \<Rightarrow> ('c, 'g, 'cg, 'fg) andersen \<Rightarrow>
     ('c, 'g, 'cg, 'fg) andersen option" where
  "process_new_call_instances ae n m instances s =
     do { s \<leftarrow> fold_opt (\<lambda>(callsite, _, callee_id). an_add_call_edge ae callsite callee_id) instances s;
          process_reach_funcs ae n m s }"

subsection \<open>The analysis\<close>

text \<open>
  \<open>rta\<close> is the call graph of the rapid type analysis with the context it leaves, \<open>order\<close> the order
  in which the threads of the reachability analysis finish.
\<close>

definition pre_analysis ::
    "('c, 'g, 'cg, 'fg) andersen_env \<Rightarrow>
     ('c analysis_context \<Rightarrow> ('c analysis_context \<times> ('fg, func_id, func_id base_call_site) call_graph) option) \<Rightarrow> nat list \<Rightarrow>
     ('c, 'g, 'cg, 'fg) andersen \<Rightarrow> ('c, 'g, 'cg, 'fg) andersen option" where
  "pre_analysis ae rta order s =
     (if \<not> ae_stack_filtering ae then Some s
      else do {
        (acx, call_graph) \<leftarrow> rta (an_acx s);
        sf \<leftarrow> stack_filter_new (ae_fgops ae) order call_graph;
        Some (s\<lparr>an_acx := acx, an_stack_filter := Some sf\<rparr>) })"

definition initialize ::
    "('c, 'g, 'cg, 'fg) andersen_env \<Rightarrow> nat \<Rightarrow> nat \<Rightarrow> ('c, 'g, 'cg, 'fg) andersen \<Rightarrow> ('c, 'g, 'cg, 'fg) andersen option" where
  "initialize ae n m s =
     do { let be = pe_build (ae_pe ae);
          (acx, entry_func_id) \<leftarrow>
            acx_get_func_id (be_tcx be) (be_text be) (be_from_usize be) (an_acx s) (acx_entry_point (an_acx s)) [];
          let s = s\<lparr>an_acx := acx, an_call_graph := cg_add_node (ae_cgops ae) (an_call_graph s) entry_func_id\<rparr>;
          process_reach_funcs ae n m s }"

text \<open>
  One run of the solver, on the edges between functions that were queued since the last one;
  \<open>read\<close> of them have been read. The calls found are returned.
\<close>

definition solve_round ::
    "('c, 'g, 'cg, 'fg) andersen_env \<Rightarrow> nat \<Rightarrow> nat \<Rightarrow> nat \<Rightarrow> ('c, 'g, 'cg, 'fg) andersen \<Rightarrow>
     (('c, 'g, 'cg, 'fg) andersen \<times> (plain_call_site \<times> func_id) list \<times> (plain_call_site \<times> path \<times> func_id) list) option" where
  "solve_round ae casts rounds read s =
     do { p \<leftarrow> solve_worklist (andersen_solver_env ae) casts rounds
            (propagator_new (an_acx s) (an_pt_data s) (an_pag s) (an_addr_edge_iter s)
              (drop read (inter_proc_edges_queue s)) (an_assoc_calls s) (an_stack_filter s));
          Some (s\<lparr>an_acx := sv_acx p, an_pt_data := sv_pt p, an_pag := sv_pag p, an_addr_edge_iter := addr_edge_iter p,
                 an_assoc_calls := assoc_calls p, an_stack_filter := sv_stack_filter p\<rparr>,
                new_calls p, new_call_instances p) }"

record limits =
  lim_depth :: nat
  lim_funcs :: nat
  lim_casts :: nat
  lim_rounds :: nat

fun propagate_loop ::
    "('c, 'g, 'cg, 'fg) andersen_env \<Rightarrow> limits \<Rightarrow> nat \<Rightarrow> nat \<Rightarrow> ('c, 'g, 'cg, 'fg) andersen \<Rightarrow> ('c, 'g, 'cg, 'fg) andersen option" where
  "propagate_loop ae lim 0 read s = None"
| "propagate_loop ae lim (Suc k) read s =
     do { (s', calls, instances) \<leftarrow> solve_round ae (lim_casts lim) (lim_rounds lim) read s;
          if calls = [] \<and> instances = [] then Some s'
          else do {
            s'' \<leftarrow> process_new_calls ae (lim_depth lim) (lim_funcs lim) calls s';
            s'' \<leftarrow> process_new_call_instances ae (lim_depth lim) (lim_funcs lim) instances s'';
            propagate_loop ae lim k (length (inter_proc_edges_queue s)) s'' } }"

definition an_propagate ::
    "('c, 'g, 'cg, 'fg) andersen_env \<Rightarrow> limits \<Rightarrow> nat \<Rightarrow> ('c, 'g, 'cg, 'fg) andersen \<Rightarrow> ('c, 'g, 'cg, 'fg) andersen option" where
  "an_propagate ae lim k s = propagate_loop ae lim k 0 s"

definition analyze ::
    "('c, 'g, 'cg, 'fg) andersen_env \<Rightarrow> limits \<Rightarrow> nat \<Rightarrow>
     ('c analysis_context \<Rightarrow> ('c analysis_context \<times> ('fg, func_id, func_id base_call_site) call_graph) option) \<Rightarrow> nat list \<Rightarrow>
     ('c, 'g, 'cg, 'fg) andersen \<Rightarrow> ('c, 'g, 'cg, 'fg) andersen option" where
  "analyze ae lim k rta order s =
     do { s \<leftarrow> pre_analysis ae rta order s;
          s \<leftarrow> initialize ae (lim_depth lim) (lim_funcs lim) s;
          an_propagate ae lim k s }"

end
