(* ===== verification/Andersen_Invariant.thy ===== *)
theory Andersen_Invariant
  imports Body_Invariant Andersen
begin

section \<open>What the context-insensitive analysis keeps\<close>

text \<open>
  The state of the driver only grows, and a function it has processed is in it for good: its
  internal edges are in the pointer graph, its static calls in the call graph, and its calls
  through pointers wait for the pointer. The initializers, bodies of promoted constants and of
  statics, are the exception: their edges are added but their calls are not looked at.
\<close>

subsection \<open>Functions that have been dealt with\<close>

definition initializer :: "('c, 'g, 'cg, 'fg) andersen \<Rightarrow> func_id \<Rightarrow> bool" where
  "initializer s f \<longleftrightarrow> promoted_ref (an_acx s) f \<or> (\<exists>g S. involved_static_funcs_map (an_pag s) g = Some S \<and> f \<in> S)"

definition internal_added :: "('c, 'g, 'cg, 'fg) andersen_env \<Rightarrow> ('c, 'g, 'cg, 'fg) andersen \<Rightarrow> func_id \<Rightarrow> bool" where
  "internal_added ae s f \<longleftrightarrow>
     (\<exists>fpag. func_pags (an_pag s) f = Some fpag \<and> set (internal_edges_iter fpag) \<subseteq> pag_edges (ae_gops ae) (an_pag s))"

definition in_graph :: "('c, 'g, 'cg, 'fg) andersen_env \<Rightarrow> ('c, 'g, 'cg, 'fg) andersen \<Rightarrow> plain_call_site \<times> func_id \<Rightarrow> bool" where
  "in_graph ae s = (\<lambda>(c, h). h \<in> callees_of (ae_cgops ae) (an_call_graph s) (base_from id c))"

definition waits :: "('c, 'g, 'cg, 'fg) andersen \<Rightarrow> ((nat, func_id, path) assoc_call_group \<Rightarrow> nat \<rightharpoonup> plain_call_site set) \<Rightarrow>
     path \<times> plain_call_site \<Rightarrow> bool" where
  "waits s calls = (\<lambda>(p, c). \<exists>i. pag_values (an_pag s) p = Some i \<and> c \<in> entry_or (calls (an_assoc_calls s)) i {})"

definition calls_recorded :: "('c, 'g, 'cg, 'fg) andersen_env \<Rightarrow> ('c, 'g, 'cg, 'fg) andersen \<Rightarrow> func_id \<Rightarrow> bool" where
  "calls_recorded ae s f \<longleftrightarrow>
     (\<exists>fpag. func_pags (an_pag s) f = Some fpag \<and>
        list_all (in_graph ae s) (static_dispatch_callsites fpag) \<and> list_all (in_graph ae s) (special_callsites fpag) \<and>
        list_all (waits s dynamic_fntrait_calls) (dynamic_fntrait_callsites fpag) \<and>
        list_all (waits s dynamic_dispatch_calls) (dynamic_dispatch_callsites fpag) \<and>
        list_all (waits s fnptr_calls) (fnptr_callsites fpag))"

definition handled :: "('c, 'g, 'cg, 'fg) andersen_env \<Rightarrow> ('c, 'g, 'cg, 'fg) andersen \<Rightarrow> func_id \<Rightarrow> bool" where
  "handled ae s f \<longleftrightarrow> refused (ae_pe ae) (an_acx s) f \<or>
     f \<in> processed_funcs s \<and> (initializer s f \<or> calls_recorded ae s f)"

subsection \<open>Growth\<close>

definition an_grows :: "('c, 'g, 'cg, 'fg) andersen_env \<Rightarrow> ('c, 'g, 'cg, 'fg) andersen \<Rightarrow> ('c, 'g, 'cg, 'fg) andersen \<Rightarrow> bool" where
  "an_grows ae s s' \<longleftrightarrow>
     acx_grows (an_acx s) (an_acx s') \<and> pag_grows (ae_gops ae) (an_pag s) (an_pag s') \<and>
     bodies_kept (an_pag s) (an_pag s') \<and> processed_funcs s \<subseteq> processed_funcs s' \<and>
     prefix (reach_funcs (an_call_graph s)) (reach_funcs (an_call_graph s')) \<and>
     cg_calls (ae_cgops ae) (an_call_graph s) \<subseteq> cg_calls (ae_cgops ae) (an_call_graph s') \<and>
     calls_grow (an_assoc_calls s) (an_assoc_calls s')"

lemma an_grows_refl [simp]: "an_grows ae s s"
  by (simp add: an_grows_def)

lemma an_grows_trans: "an_grows ae a b \<Longrightarrow> an_grows ae b c \<Longrightarrow> an_grows ae a c"
  unfolding an_grows_def
  by (elim conjE, intro conjI)
    (erule (1) acx_grows_trans pag_grows_trans bodies_kept_trans subset_trans prefix_order.trans calls_grow_trans)+

lemma initializer_grows: "an_grows ae s s' \<Longrightarrow> initializer s f \<Longrightarrow> initializer s' f"
  unfolding initializer_def an_grows_def bodies_kept_def
  using promoted_ref_grows by (metis domI map_le_def)

lemma same_body: "an_grows ae s s' \<Longrightarrow> func_pags (an_pag s) f = Some fpag \<Longrightarrow> func_pags (an_pag s') f = Some fpag"
  unfolding an_grows_def bodies_kept_def map_le_def by (metis domI)

lemma in_graph_grows: "an_grows ae s s' \<Longrightarrow> in_graph ae s x \<Longrightarrow> in_graph ae s' x"
  unfolding an_grows_def in_graph_def callees_of_def by blast

lemma waits_grows:
  assumes "an_grows ae s s'"
  shows "waits s dynamic_fntrait_calls x \<Longrightarrow> waits s' dynamic_fntrait_calls x"
    "waits s dynamic_dispatch_calls x \<Longrightarrow> waits s' dynamic_dispatch_calls x"
    "waits s fnptr_calls x \<Longrightarrow> waits s' fnptr_calls x"
proof -
  have node: "pag_values (an_pag s') p = Some i" if "pag_values (an_pag s) p = Some i" for p i
    using assms that unfolding an_grows_def pag_grows_def map_le_def by (metis domI)
  have kept: "waits s' calls x" if "waits s calls x"
      "\<And>i. entry_or (calls (an_assoc_calls s)) i {} \<subseteq> entry_or (calls (an_assoc_calls s')) i {}" for calls
    using that node unfolding waits_def by (cases x) blast
  have "calls_grow (an_assoc_calls s) (an_assoc_calls s')" using assms by (simp add: an_grows_def)
  then show "waits s dynamic_fntrait_calls x \<Longrightarrow> waits s' dynamic_fntrait_calls x"
    "waits s dynamic_dispatch_calls x \<Longrightarrow> waits s' dynamic_dispatch_calls x"
    "waits s fnptr_calls x \<Longrightarrow> waits s' fnptr_calls x"
    using kept by (simp_all add: calls_grow_def)
qed

lemma calls_recorded_grows:
  assumes "an_grows ae s s'" "calls_recorded ae s f"
  shows "calls_recorded ae s' f"
proof -
  obtain fpag where fpag: "func_pags (an_pag s) f = Some fpag" using assms(2) by (auto simp: calls_recorded_def)
  have "func_pags (an_pag s') f = Some fpag" using same_body [OF assms(1) fpag] .
  then show ?thesis
    using assms(2) fpag in_graph_grows [OF assms(1)] waits_grows [OF assms(1)]
    by (simp add: calls_recorded_def list_all_iff)
qed

lemma refused_growing: "an_grows ae s s' \<Longrightarrow> refused pe (an_acx s) f \<Longrightarrow> refused pe (an_acx s') f"
  unfolding an_grows_def using refused_grows by blast

lemma handled_grows: "an_grows ae s s' \<Longrightarrow> handled ae s f \<Longrightarrow> handled ae s' f"
  unfolding handled_def using refused_growing initializer_grows calls_recorded_grows
  by (metis an_grows_def subsetD)

subsection \<open>The invariant\<close>

text \<open>
  The graphs of processed functions are added, with those of their initializers. \<open>X\<close> holds the
  functions whose calls are still to be recorded.
\<close>

definition processed_ok :: "('c, 'g, 'cg, 'fg) andersen_env \<Rightarrow> func_id set \<Rightarrow> ('c, 'g, 'cg, 'fg) andersen \<Rightarrow> bool" where
  "processed_ok ae X s \<longleftrightarrow> (\<forall>f \<in> processed_funcs s.
     internal_added ae s f \<and> (f \<in> X \<or> initializer s f \<or> calls_recorded ae s f) \<and>
     (\<forall>S. promoted_funcs_map (an_pag s) f = Some S \<or> involved_static_funcs_map (an_pag s) f = Some S \<longrightarrow>
        S \<subseteq> processed_funcs s))"

definition an_moves :: "('c, 'g, 'cg, 'fg) andersen_env \<Rightarrow> ('c, 'g, 'cg, 'fg) andersen \<Rightarrow> ('c, 'g, 'cg, 'fg) andersen \<Rightarrow> bool" where
  "an_moves ae s s' \<longleftrightarrow> an_grows ae s s' \<and> rf_iter s' = rf_iter s"

lemma an_moves_refl [simp]: "an_moves ae s s"
  by (simp add: an_moves_def)

lemma an_moves_trans: "an_moves ae a b \<Longrightarrow> an_moves ae b c \<Longrightarrow> an_moves ae a c"
  unfolding an_moves_def using an_grows_trans by metis

locale andersen_api = pag_api "ae_gops ae" g_ok + cg: call_graph_api "ae_cgops ae" c_ok
  for ae :: "('c, 'g, 'cg, 'fg) andersen_env" and g_ok :: "'g \<Rightarrow> bool" and c_ok :: "'cg \<Rightarrow> bool" +
  assumes order: "finite S \<Longrightarrow> set (ae_func_order ae S) = S"
begin

lemma processed_grows:
  assumes "processed_ok ae X s" "an_grows ae s s'" "processed_funcs s' = processed_funcs s"
  shows "processed_ok ae X s'"
proof -
  have kept: "bodies_kept (an_pag s) (an_pag s')" and grows: "pag_grows (ae_gops ae) (an_pag s) (an_pag s')"
    using assms(2) by (simp_all add: an_grows_def)
  have body: "internal_added ae s' f" if "internal_added ae s f" for f
    using that same_body [OF assms(2)] pag_edges_mono [OF grows] unfolding internal_added_def by blast
  have same: "promoted_funcs_map (an_pag s') f = promoted_funcs_map (an_pag s) f \<and>
      involved_static_funcs_map (an_pag s') f = involved_static_funcs_map (an_pag s) f" if "internal_added ae s f" for f
    using that kept unfolding internal_added_def bodies_kept_def by blast
  show ?thesis
    using assms(1) body same initializer_grows [OF assms(2)] calls_recorded_grows [OF assms(2)]
    unfolding processed_ok_def assms(3) by (intro ballI) (metis (no_types, lifting))
qed

definition an_ok :: "func_id set \<Rightarrow> ('c, 'g, 'cg, 'fg) andersen \<Rightarrow> bool" where
  "an_ok X s \<longleftrightarrow> pag_fine (ae_gops ae) g_ok (an_pag s) \<and> cg_ok (ae_cgops ae) c_ok (an_call_graph s) \<and>
     bodies_ok (an_acx s) (an_pag s) \<and> diff_inv words_of words_ok (an_pt_data s) \<and>
     (\<forall>n. diff_of words_of (an_pt_data s) n = {}) \<and> processed_ok ae X s"

text \<open>A change of the context, the graph, the call graph or the waiting calls that only adds.\<close>

lemma an_ok_grown:
  assumes "an_ok X s" "an_grows ae s s'" "processed_funcs s' = processed_funcs s" "an_pt_data s' = an_pt_data s"
    and "pag_fine (ae_gops ae) g_ok (an_pag s')" "cg_ok (ae_cgops ae) c_ok (an_call_graph s')" "bodies_ok (an_acx s') (an_pag s')"
  shows "an_ok X s'"
  using assms processed_grows [OF _ assms(2,3)] by (simp add: an_ok_def)

lemma kept_bodies: "bodies_of pag' = bodies_of pag \<Longrightarrow> bodies_kept pag pag'"
  by (simp add: bodies_of_def bodies_kept_def)

lemma bodies_ok_same: "bodies_of pag' = bodies_of pag \<Longrightarrow> bodies_ok acx pag \<Longrightarrow> bodies_ok acx pag'"
  by (simp add: bodies_of_def bodies_ok_def)

lemma an_ok_pag:
  assumes "an_ok X s" "pag_fine (ae_gops ae) g_ok pag" "pag_grows (ae_gops ae) (an_pag s) pag" "bodies_of pag = bodies_of (an_pag s)"
    "acx_grows (an_acx s) acx"
  shows "an_ok X (s\<lparr>an_acx := acx, an_pag := pag\<rparr>) \<and> an_moves ae s (s\<lparr>an_acx := acx, an_pag := pag\<rparr>)"
proof -
  have grows: "an_grows ae s (s\<lparr>an_acx := acx, an_pag := pag\<rparr>)"
    using assms(3,5) kept_bodies [OF assms(4)] by (simp add: an_grows_def)
  have "bodies_ok acx pag"
    using assms(1) by (intro bodies_ok_acx [OF _ assms(5)] bodies_ok_same [OF assms(4)]) (simp add: an_ok_def)
  then have "an_ok X (s\<lparr>an_acx := acx, an_pag := pag\<rparr>)"
    using assms(1,2) by (intro an_ok_grown [OF assms(1) grows]) (simp_all add: an_ok_def)
  then show ?thesis using grows by (simp add: an_moves_def)
qed

lemma an_ok_updates [simp]:
  "an_ok X (s\<lparr>inter_proc_edges_queue := q\<rparr>) = an_ok X s" "an_ok X (s\<lparr>an_stack_filter := f\<rparr>) = an_ok X s"
  "an_ok X (s\<lparr>rf_iter := i\<rparr>) = an_ok X s" "an_ok X (s\<lparr>an_addr_edge_iter := i\<rparr>) = an_ok X s"
  by (simp_all add: an_ok_def processed_ok_def internal_added_def initializer_def calls_recorded_def in_graph_def waits_def
      cong: list.pred_cong)

lemma an_moves_updates [simp]:
  "an_moves ae a (s\<lparr>inter_proc_edges_queue := q\<rparr>) = an_moves ae a s" "an_moves ae a (s\<lparr>an_stack_filter := f\<rparr>) = an_moves ae a s"
  "an_moves ae a (s\<lparr>an_addr_edge_iter := i\<rparr>) = an_moves ae a s"
  by (simp_all add: an_moves_def an_grows_def)

subsection \<open>The graph of a function\<close>

lemma post_add_fpag_edge:
  assumes "an_ok X s"
  shows "post (add_fpag_edge ae x s) (\<lambda>s'. an_ok X s' \<and> an_moves ae s s' \<and> x \<in> pag_edges (ae_gops ae) (an_pag s'))"
proof -
  obtain p q k where x: "x = (p, q, k)" by (rule prod_cases3)
  show ?thesis
  proof (rule postI)
    fix s' assume "add_fpag_edge ae x s = Some s'"
    then obtain pag r where 1: "Pag.add_edge (ae_gops ae) (an_pag s) p q k = Some (pag, r)"
      "s' = (case r of Some e \<Rightarrow> (if is_promoted_constant p \<or> is_static_variable p
         then s\<lparr>an_pag := pag, inter_proc_edges_queue := inter_proc_edges_queue (s\<lparr>an_pag := pag\<rparr>) @ [e]\<rparr> else s\<lparr>an_pag := pag\<rparr>)
       | None \<Rightarrow> s\<lparr>an_pag := pag\<rparr>)"
      by (auto simp: add_fpag_edge_def x Let_def split: Option.bind_splits)
    have "pag_fine (ae_gops ae) g_ok (an_pag s)" using assms by (simp add: an_ok_def)
    from add_edge_grows [OF this 1(1)]
    have new: "pag_fine (ae_gops ae) g_ok pag" "pag_grows (ae_gops ae) (an_pag s) pag" "bodies_of pag = bodies_of (an_pag s)"
      "(p, q, k) \<in> pag_edges (ae_gops ae) pag" by blast+
    from an_ok_pag [OF assms new(1-3) acx_grows_refl]
    show "an_ok X s' \<and> an_moves ae s s' \<and> x \<in> pag_edges (ae_gops ae) (an_pag s')"
      using new(4) by (simp add: 1(2) x split: option.split)
  qed
qed

lemma an_moves_edges: "an_moves ae s s' \<Longrightarrow> x \<in> pag_edges (ae_gops ae) (an_pag s) \<Longrightarrow> x \<in> pag_edges (ae_gops ae) (an_pag s')"
  using pag_edges_mono unfolding an_moves_def an_grows_def by blast

lemma post_internal:
  assumes "an_ok X s"
  shows "post (fold_opt (add_fpag_edge ae) xs s)
    (\<lambda>s'. an_ok X s' \<and> an_moves ae s s' \<and> (\<forall>x \<in> set xs. x \<in> pag_edges (ae_gops ae) (an_pag s')))"
  by (rule post_fold_each [OF assms post_add_fpag_edge an_moves_refl an_moves_trans an_moves_edges])

text \<open>The functions whose calls may be left out.\<close>

definition exempt :: "func_id set \<Rightarrow> ('c, 'g, 'cg, 'fg) andersen \<Rightarrow> func_id \<Rightarrow> bool" where
  "exempt X s f \<longleftrightarrow> f \<in> X \<or> initializer s f"

lemma exempt_moves: "an_moves ae s s' \<Longrightarrow> exempt X s f \<Longrightarrow> exempt X s' f"
  unfolding exempt_def an_moves_def using initializer_grows by blast

lemma processed_stays: "an_moves ae s s' \<Longrightarrow> f \<in> processed_funcs s \<Longrightarrow> f \<in> processed_funcs s'"
  unfolding an_moves_def an_grows_def by blast

lemma an_ok_processed:
  assumes "an_ok X s" "func_pags (an_pag s) f = Some fpag" "set (internal_edges_iter fpag) \<subseteq> pag_edges (ae_gops ae) (an_pag s)"
    and "exempt X s f"
    and "\<And>S. promoted_funcs_map (an_pag s) f = Some S \<Longrightarrow> S \<subseteq> processed_funcs s"
    and "\<And>S. involved_static_funcs_map (an_pag s) f = Some S \<Longrightarrow> S \<subseteq> processed_funcs s"
  shows "an_ok X (s\<lparr>processed_funcs := insert f (processed_funcs s)\<rparr>) \<and>
    an_moves ae s (s\<lparr>processed_funcs := insert f (processed_funcs s)\<rparr>)"
proof -
  let ?s = "s\<lparr>processed_funcs := insert f (processed_funcs s)\<rparr>"
  have moves: "an_moves ae s ?s" by (auto simp: an_moves_def an_grows_def)
  have same: "initializer ?s g = initializer s g" "internal_added ae ?s g = internal_added ae s g"
    "calls_recorded ae ?s g = calls_recorded ae s g" for g
    by (simp_all add: initializer_def internal_added_def calls_recorded_def in_graph_def waits_def cong: list.pred_cong)
  have "internal_added ae s f" using assms(2,3) by (auto simp: internal_added_def)
  moreover have "processed_ok ae X s" using assms(1) by (simp add: an_ok_def)
  ultimately have "processed_ok ae X ?s"
    using assms(4-6) unfolding processed_ok_def same exempt_def by (auto dest: subsetD)
  then show ?thesis using assms(1) moves by (simp add: an_ok_def)
qed

lemma post_initializers:
  assumes rec: "\<And>f s. an_ok X s \<Longrightarrow> exempt X s f \<Longrightarrow>
      post (add f s) (\<lambda>s'. an_ok X s' \<and> an_moves ae s s' \<and> f \<in> processed_funcs s')"
    and ok: "an_ok X s" and init: "\<And>S f. m g = Some S \<Longrightarrow> f \<in> S \<Longrightarrow> exempt X s f" and fin: "\<And>S. m g = Some S \<Longrightarrow> finite S"
  shows "post (fold_opt add (funcs_of ae m g) s) (\<lambda>s'. an_ok X s' \<and> an_moves ae s s' \<and> (\<forall>S. m g = Some S \<longrightarrow> S \<subseteq> processed_funcs s'))"
proof -
  have elems: "set (funcs_of ae m g) = (case m g of Some S \<Rightarrow> S | None \<Rightarrow> {})"
    using fin order by (auto simp: funcs_of_def split: option.split)
  have "post (fold_opt add (funcs_of ae m g) s)
    (\<lambda>s'. (an_ok X s' \<and> an_moves ae s s') \<and> an_moves ae s s' \<and> (\<forall>f \<in> set (funcs_of ae m g). f \<in> processed_funcs s'))"
  proof (rule post_fold_each [OF _ _ an_moves_refl an_moves_trans processed_stays])
    show "post (add f t) (\<lambda>s'. (an_ok X s' \<and> an_moves ae s s') \<and> an_moves ae t s' \<and> f \<in> processed_funcs s')"
      if "f \<in> set (funcs_of ae m g)" "an_ok X t \<and> an_moves ae s t" for f t
    proof -
      have "exempt X s f" using that(1) init elems by (auto split: option.splits)
      then have "exempt X t f" using exempt_moves that(2) by blast
      note rec [OF conjunct1 [OF that(2)] this]
      then show ?thesis by (rule post_weaken) (use that(2) an_moves_trans in auto)
    qed
  qed (use ok in auto)
  then show ?thesis by (rule post_weaken) (use elems in \<open>auto split: option.splits\<close>)
qed

lemma post_add_fpag_edges:
  "an_ok X s \<Longrightarrow> exempt X s f \<Longrightarrow>
     post (add_fpag_edges ae n f s) (\<lambda>s'. an_ok X s' \<and> an_moves ae s s' \<and> f \<in> processed_funcs s')"
proof (induction n arbitrary: f s)
  case (Suc n)
  show ?case
  proof (cases "f \<in> processed_funcs s")
    case False
    show ?thesis
    proof (rule postI)
      fix s' assume "add_fpag_edges ae (Suc n) f s = Some s'"
      then obtain fpag s1 s2 s3 where 1: "func_pags (an_pag s) f = Some fpag"
        "fold_opt (add_fpag_edge ae) (internal_edges_iter fpag) s = Some s1"
        "fold_opt (add_fpag_edges ae n) (funcs_of ae (promoted_funcs_map (an_pag s1)) f) s1 = Some s2"
        "fold_opt (add_fpag_edges ae n) (funcs_of ae (involved_static_funcs_map (an_pag s2)) f) s2 = Some s3"
        "s' = s3\<lparr>processed_funcs := insert f (processed_funcs s3)\<rparr>"
        using False by (auto split: Option.bind_splits)
      from postD [OF post_internal [OF Suc.prems(1)] 1(2)]
      have s1: "an_ok X s1" "an_moves ae s s1" "set (internal_edges_iter fpag) \<subseteq> pag_edges (ae_gops ae) (an_pag s1)" by auto
      have "bodies_ok (an_acx s1) (an_pag s1)" using s1(1) by (simp add: an_ok_def)
      then have "exempt X s1 i" "finite S" if "promoted_funcs_map (an_pag s1) f = Some S" "i \<in> S" for S i
        using that by (auto simp: bodies_ok_def exempt_def initializer_def)
      with \<open>bodies_ok (an_acx s1) (an_pag s1)\<close>
      have "post (fold_opt (add_fpag_edges ae n) (funcs_of ae (promoted_funcs_map (an_pag s1)) f) s1)
        (\<lambda>s'. an_ok X s' \<and> an_moves ae s1 s' \<and> (\<forall>S. promoted_funcs_map (an_pag s1) f = Some S \<longrightarrow> S \<subseteq> processed_funcs s'))"
        by (intro post_initializers [OF Suc.IH s1(1)]) (auto simp: bodies_ok_def)
      from postD [OF this 1(3)] have s2: "an_ok X s2" "an_moves ae s1 s2"
        "\<forall>S. promoted_funcs_map (an_pag s1) f = Some S \<longrightarrow> S \<subseteq> processed_funcs s2" by auto
      have "bodies_ok (an_acx s2) (an_pag s2)" using s2(1) by (simp add: an_ok_def)
      then have "post (fold_opt (add_fpag_edges ae n) (funcs_of ae (involved_static_funcs_map (an_pag s2)) f) s2)
        (\<lambda>s'. an_ok X s' \<and> an_moves ae s2 s' \<and> (\<forall>S. involved_static_funcs_map (an_pag s2) f = Some S \<longrightarrow> S \<subseteq> processed_funcs s'))"
        by (intro post_initializers [OF Suc.IH s2(1)]) (auto simp: bodies_ok_def exempt_def initializer_def)
      from postD [OF this 1(4)] have s3: "an_ok X s3" "an_moves ae s2 s3"
        "\<forall>S. involved_static_funcs_map (an_pag s2) f = Some S \<longrightarrow> S \<subseteq> processed_funcs s3" by auto
      have moves: "an_moves ae s s3" "an_moves ae s1 s3" using s1(2) s2(2) s3(2) an_moves_trans by blast+
      have body: "func_pags (an_pag s1) f = Some fpag" "func_pags (an_pag s2) f = Some fpag" "func_pags (an_pag s3) f = Some fpag"
        using same_body 1(1) s1(2) s2(2) s3(2) unfolding an_moves_def by blast+
      have "promoted_funcs_map (an_pag s3) f = promoted_funcs_map (an_pag s1) f"
        "involved_static_funcs_map (an_pag s3) f = involved_static_funcs_map (an_pag s2) f"
        using moves(2) s3(2) body unfolding an_moves_def an_grows_def bodies_kept_def by blast+
      moreover have "processed_funcs s2 \<subseteq> processed_funcs s3" using s3(2) by (simp add: an_moves_def an_grows_def)
      with s2(3) have "S \<subseteq> processed_funcs s3" if "promoted_funcs_map (an_pag s1) f = Some S" for S
        using that subset_trans by blast
      moreover have "set (internal_edges_iter fpag) \<subseteq> pag_edges (ae_gops ae) (an_pag s3)"
        using s1(3) an_moves_edges [OF moves(2)] by blast
      moreover have "exempt X s3 f" using exempt_moves [OF moves(1) Suc.prems(2)] .
      ultimately have "an_ok X s' \<and> an_moves ae s3 s'"
        unfolding 1(5) using s3(3) by (intro an_ok_processed [OF s3(1) body(3)]) simp_all
      then show "an_ok X s' \<and> an_moves ae s s' \<and> f \<in> processed_funcs s'"
        using an_moves_trans [OF moves(1)] by (simp add: 1(5))
    qed
  qed (use Suc.prems in simp)
qed simp

subsection \<open>Calls\<close>

text \<open>A change of the context and the graph by the edges of a call.\<close>

definition flows :: "'c analysis_context \<times> ('g, path) pag \<Rightarrow> 'c analysis_context \<times> ('g, path) pag \<Rightarrow> bool" where
  "flows b b' \<longleftrightarrow> acx_grows (fst b) (fst b') \<and> pag_fine (ae_gops ae) g_ok (snd b') \<and>
     pag_grows (ae_gops ae) (snd b) (snd b') \<and> bodies_of (snd b') = bodies_of (snd b)"

lemma flows_acx: "flows b (acx, pag) \<Longrightarrow> acx_grows acx acx' \<Longrightarrow> flows b (acx', pag)"
  using acx_grows_trans by (auto simp: flows_def)

lemma flows_edge: "flows b (acx, pag) \<Longrightarrow> add_direct_edge (ae_gops ae) pag p q = Some (pag', r) \<Longrightarrow> flows b (acx, pag')"
proof -
  assume b: "flows b (acx, pag)" and "add_direct_edge (ae_gops ae) pag p q = Some (pag', r)"
  then have "Pag.add_edge (ae_gops ae) pag p q DirectPAGEdge = Some (pag', r)" by (simp add: add_edge_def)
  moreover have "pag_fine (ae_gops ae) g_ok pag" using b by (simp add: flows_def)
  ultimately show ?thesis using b add_edge_grows pag_grows_trans by (fastforce simp: flows_def)
qed

lemma flows_proj_edges:
  "flows b (acx, pag) \<Longrightarrow> post (add_proj_edges (ae_gops ae) pops pag src dst projs es) (\<lambda>(pag', es'). flows b (acx, pag'))"
proof (induction projs arbitrary: pag es)
  case (Cons x projs)
  obtain proj t where x: "x = (proj, t)" by fastforce
  show ?case
    using Cons.IH flows_edge [OF Cons.prems] by (auto simp: x post_def split: Option.bind_splits) blast
qed simp

lemma flows_value_edges:
  assumes "flows b (acx, pag)"
  shows "post (add_value_edges pe (ae_gops ae) pops src dst ty (acx, pag, es)) (\<lambda>(acx', pag', es'). flows b (acx', pag'))"
proof (rule postI)
  fix x assume "add_value_edges pe (ae_gops ae) pops src dst ty (acx, pag, es) = Some x"
  then obtain acx1 projs pag1 es1 where 1: "(if is_any_ptr ty then Some (acx, [])
      else acx_pointer_projections (pe_tcx pe) (be_fuel (pe_build pe)) acx ty) = Some (acx1, projs)"
    "add_new_direct_edges (ae_gops ae) pops pag src dst (is_any_ptr ty) projs = Some (pag1, es1)" "x = (acx1, pag1, es @ es1)"
    by (auto simp: add_value_edges_def split: Option.bind_splits)
  have b1: "flows b (acx1, pag)" using 1(1) assms flows_acx [OF assms projections_grow] by (auto split: if_splits)
  have "flows b (acx1, pag1)"
    using 1(2) flows_edge [OF b1] postD [OF flows_proj_edges [OF b1]]
    by (fastforce simp: add_new_direct_edges_def split: if_splits Option.bind_splits)
  then show "(\<lambda>(acx', pag', es'). flows b (acx', pag')) x" by (simp add: 1(3))
qed

lemma flows_typed_edges:
  assumes "path_types tops known" "flows b (acx, pag)"
  shows "post (do { (acx, t) \<leftarrow> pt_eval_path_type tops acx p; add_value_edges pe (ae_gops ae) pops src dst t (acx, pag, es) })
    (\<lambda>(acx', pag', es'). flows b (acx', pag'))"
proof (rule postI)
  fix x assume "do { (acx, t) \<leftarrow> pt_eval_path_type tops acx p; add_value_edges pe (ae_gops ae) pops src dst t (acx, pag, es) } = Some x"
  then obtain acx1 t where 1: "pt_eval_path_type tops acx p = Some (acx1, t)"
    "add_value_edges pe (ae_gops ae) pops src dst t (acx1, pag, es) = Some x"
    by (auto split: Option.bind_splits)
  have "flows b (acx1, pag)" using path_types.eval_grows [OF assms(1) 1(1)] by (rule flows_acx [OF assms(2)])
  from postD [OF flows_value_edges [OF this] 1(2)] show "(\<lambda>(acx', pag', es'). flows b (acx', pag')) x" .
qed

lemma flows_call_edges:
  assumes "path_types tops known" "flows b (acx, pag)"
  shows "post (add_inter_procedural_edges pe (ae_gops ae) pops tops into cs callee acx pag) (\<lambda>(acx', pag', es). flows b (acx', pag'))"
proof -
  have arg: "post (add_arg_edges pe (ae_gops ae) pops tops callee x s) (\<lambda>(acx', pag', es). flows b (acx', pag'))"
    if "(\<lambda>(acx', pag', es). flows b (acx', pag')) s" for x s
    unfolding add_arg_edges_def
    using that by (cases x; cases s) (simp only: prod.case, rule flows_typed_edges [OF assms(1)])
  have args: "post (fold_opt (add_arg_edges pe (ae_gops ae) pops tops callee) xs (acx, pag, []))
      (\<lambda>(acx', pag', es). flows b (acx', pag'))" for xs
    by (rule post_fold [where P = "\<lambda>(acx', pag', es). flows b (acx', pag')"]) (use assms(2) arg in simp_all)
  show ?thesis
  proof (rule postI)
    fix x assume x: "add_inter_procedural_edges pe (ae_gops ae) pops tops into cs callee acx pag = Some x"
    then obtain r where r: "get_function_reference (acx_functions acx) (into callee) = Some r"
      by (auto simp: add_inter_procedural_edges_def split: Option.bind_splits)
    show "(\<lambda>(acx', pag', es). flows b (acx', pag')) x"
    proof (cases "tcx_is_mir_available (pe_tcx pe) (fr_def_id r)")
      case True
      then obtain acx1 pag1 es1 where 1: "fold_opt (add_arg_edges pe (ae_gops ae) pops tops callee) (enumerate 0 (call_args cs)) (acx, pag, []) =
          Some (acx1, pag1, es1)"
        "do { (acx, t) \<leftarrow> pt_eval_path_type tops acx1 (call_destination cs);
              add_value_edges pe (ae_gops ae) pops (pp_new_return_value pops callee) (call_destination cs) t (acx, pag1, es1) } = Some x"
        using x r by (auto simp: add_inter_procedural_edges_def simp del: fold_opt.simps split: Option.bind_splits)
      have "flows b (acx1, pag1)" using postD [OF args 1(1)] by simp
      from postD [OF flows_typed_edges [OF assms(1) this] 1(2)] show ?thesis .
    qed (use x r assms(2) in \<open>auto simp: add_inter_procedural_edges_def\<close>)
  qed
qed

lemma call_graph_step:
  assumes ok: "an_ok X s" and add: "cg_add_edge (ae_cgops ae) (an_call_graph s) (base_from id c) f h = Some (cg, new)"
  shows "an_ok X (s\<lparr>an_call_graph := cg\<rparr>) \<and> an_moves ae s (s\<lparr>an_call_graph := cg\<rparr>) \<and> in_graph ae (s\<lparr>an_call_graph := cg\<rparr>) (c, h)"
proof -
  have "cg_ok (ae_cgops ae) c_ok (an_call_graph s)" using ok by (simp add: an_ok_def)
  from cg.add_edge_spec [OF this, of "base_from id c" f h] add
  have spec: "cg_ok (ae_cgops ae) c_ok cg" "new \<longleftrightarrow> h \<notin> callees_of (ae_cgops ae) (an_call_graph s) (base_from id c)"
    "cg_calls (ae_cgops ae) cg =
       (if new then insert (base_from id c, f, h) (cg_calls (ae_cgops ae) (an_call_graph s)) else cg_calls (ae_cgops ae) (an_call_graph s))"
    "reach_funcs cg = push_new h (push_new f (reach_funcs (an_call_graph s)))"
    by auto
  have "prefix (reach_funcs (an_call_graph s)) (reach_funcs cg)" by (simp add: spec(4) push_new_def)
  then have grows: "an_grows ae s (s\<lparr>an_call_graph := cg\<rparr>)" using spec(3) by (auto simp: an_grows_def)
  have "an_ok X (s\<lparr>an_call_graph := cg\<rparr>)"
    using ok spec(1) by (intro an_ok_grown [OF ok grows]) (simp_all add: an_ok_def)
  moreover have "h \<in> callees_of (ae_cgops ae) cg (base_from id c)" using spec(2,3) by (auto simp: callees_of_def split: if_splits)
  ultimately show ?thesis using grows by (simp add: an_moves_def in_graph_def)
qed

lemma callsite_type_calls [simp]:
  "cg_calls gops (set_callsite_type cg c ty) = cg_calls gops cg" "cg_ok gops ok (set_callsite_type cg c ty) = cg_ok gops ok cg"
  "reach_funcs (set_callsite_type cg c ty) = reach_funcs cg"
  by (simp_all add: cg_calls_def cg_ok_def set_callsite_type_def)

lemma callsite_type_step:
  "an_ok X (an_set_callsite_type c ty s) = an_ok X s" "an_moves ae a (an_set_callsite_type c ty s) = an_moves ae a s"
  "in_graph ae (an_set_callsite_type c ty s) x = in_graph ae s x" "waits (an_set_callsite_type c ty s) m y = waits s m y"
  by (simp_all add: an_ok_def processed_ok_def internal_added_def initializer_def calls_recorded_def in_graph_def waits_def
      an_moves_def an_grows_def an_set_callsite_type_def callees_of_def cong: list.pred_cong)

lemma post_call_edge:
  assumes "an_ok X s"
  shows "post (an_add_call_edge ae c h s) (\<lambda>s'. an_ok X s' \<and> an_moves ae s s' \<and> in_graph ae s' (c, h))"
proof (rule postI)
  fix s' assume a: "an_add_call_edge ae c h s = Some s'"
  then obtain cg new where cg: "cg_add_edge (ae_cgops ae) (an_call_graph s) (base_from id c) (call_func c) h = Some (cg, new)"
    by (auto simp: an_add_call_edge_def split: Option.bind_splits)
  define s1 where "s1 = s\<lparr>an_call_graph := cg\<rparr>"
  have s1: "an_ok X s1" "an_moves ae s s1" "in_graph ae s1 (c, h)"
    using call_graph_step [OF assms cg] by (simp_all add: s1_def)
  show "an_ok X s' \<and> an_moves ae s s' \<and> in_graph ae s' (c, h)"
  proof (cases new)
    case True
    define tops where "tops = plain_type_ops (be_tcx (pe_build (ae_pe ae))) (be_fuel (pe_build (ae_pe ae)))"
    obtain acx pag es where 1: "add_inter_procedural_edges (ae_pe ae) (ae_gops ae) path_ops tops (\<lambda>f. f) c h (an_acx s1) (an_pag s1) =
        Some (acx, pag, es)"
      "s' = s1\<lparr>an_acx := acx, an_pag := pag, inter_proc_edges_queue := inter_proc_edges_queue s1 @ es,
         an_stack_filter := map_option (\<lambda>sf. add_pag_edges_in_func sf es (call_func c)) (an_stack_filter s1)\<rparr>"
      using a True by (auto simp: an_add_call_edge_def cg Let_def s1_def tops_def split: Option.bind_splits)
    have "flows (an_acx s1, an_pag s1) (an_acx s1, an_pag s1)" using s1(1) by (simp add: flows_def an_ok_def)
    from postD [OF flows_call_edges [OF plain_types.path_types_axioms this] 1(1) [unfolded tops_def]]
    have "an_ok X (s1\<lparr>an_acx := acx, an_pag := pag\<rparr>) \<and> an_moves ae s1 (s1\<lparr>an_acx := acx, an_pag := pag\<rparr>)"
      by (intro an_ok_pag [OF s1(1)]) (simp_all add: flows_def)
    then have "an_ok X s'" "an_moves ae s1 s'" by (simp_all add: 1(2))
    moreover have "in_graph ae s' (c, h)" using in_graph_grows s1(3) \<open>an_moves ae s1 s'\<close> unfolding an_moves_def by blast
    ultimately show ?thesis using an_moves_trans s1(2) by blast
  qed (use a s1 in \<open>simp add: an_add_call_edge_def cg s1_def\<close>)
qed

lemma in_graph_moves: "an_moves ae s s' \<Longrightarrow> in_graph ae s x \<Longrightarrow> in_graph ae s' x"
  unfolding an_moves_def using in_graph_grows by blast

lemma post_static_calls:
  assumes "an_ok X s"
  shows "post (fold_opt (process_static_call ae) xs s) (\<lambda>s'. an_ok X s' \<and> an_moves ae s s' \<and> (\<forall>x \<in> set xs. in_graph ae s' x))"
proof (rule post_fold_each [where I = "an_ok X" and Q = "\<lambda>x s. in_graph ae s x", OF assms _ an_moves_refl an_moves_trans in_graph_moves])
  show "post (process_static_call ae x t) (\<lambda>s'. an_ok X s' \<and> an_moves ae t s' \<and> in_graph ae s' x)" if "an_ok X t" for x t
    using post_call_edge [OF that, of "fst x" "snd x"]
    by (cases x) (simp add: process_static_call_def callsite_type_step)
qed

lemma post_special_calls:
  assumes "an_ok X s"
  shows "post (fold_opt (process_special_call ae f) xs s) (\<lambda>s'. an_ok X s' \<and> an_moves ae s s' \<and> (\<forall>x \<in> set xs. in_graph ae s' x))"
proof (rule post_fold_each [where I = "an_ok X" and Q = "\<lambda>x s. in_graph ae s x", OF assms _ an_moves_refl an_moves_trans in_graph_moves])
  show "post (process_special_call ae f x t) (\<lambda>s'. an_ok X s' \<and> an_moves ae t s' \<and> in_graph ae s' x)" if "an_ok X t" for x t
  proof (rule postI)
    fix s' assume "process_special_call ae f x t = Some s'"
    then obtain cg new where
      1: "cg_add_edge (ae_cgops ae) (an_call_graph t) (base_from id (fst x)) f (snd x) = Some (cg, new)"
        "s' = an_set_callsite_type (fst x) StaticDispatch (t\<lparr>an_call_graph := cg\<rparr>)"
      by (cases x) (auto simp: process_special_call_def split: Option.bind_splits)
    then show "an_ok X s' \<and> an_moves ae t s' \<and> in_graph ae s' x"
      using call_graph_step [OF that 1(1)] by (simp add: callsite_type_step)
  qed
qed

text \<open>A call through a pointer waits for the node of the pointer.\<close>

lemma node_step:
  assumes "an_ok X s" "an_node ae p s = (s', i)"
  shows "an_ok X s' \<and> an_moves ae s s' \<and> pag_values (an_pag s') p = Some i \<and> an_assoc_calls s' = an_assoc_calls s"
proof -
  obtain pag where pag: "get_or_insert_node (ae_gops ae) (an_pag s) p = (pag, i)" "s' = s\<lparr>an_pag := pag\<rparr>"
    using assms(2) by (auto simp: an_node_def split: prod.splits)
  have "pag_fine (ae_gops ae) g_ok (an_pag s)" using assms(1) by (simp add: an_ok_def)
  from get_or_insert_grows [OF this pag(1)] an_ok_pag [OF assms(1), of pag "an_acx s"]
  show ?thesis by (simp add: pag(2))
qed

lemma register_step:
  assumes "an_ok X s" "\<And>g i c. calls_grow g (add g i c)" "\<And>g i c. c \<in> entry_or (calls (add g i c)) i {}"
  shows "an_ok X (register_call ae add ty x s) \<and> an_moves ae s (register_call ae add ty x s) \<and> waits (register_call ae add ty x s) calls x"
proof -
  obtain p c where x: "x = (p, c)" by fastforce
  obtain s1 i where 1: "an_node ae p s = (s1, i)" by fastforce
  note node = node_step [OF assms(1) 1]
  define s2 where "s2 = s1\<lparr>an_assoc_calls := add (an_assoc_calls s1) i c\<rparr>"
  have grows: "an_grows ae s1 s2" using assms(2) by (simp add: s2_def an_grows_def)
  have ok: "an_ok X s1" using node by blast
  have "an_ok X s2" using ok by (intro an_ok_grown [OF ok grows]) (simp_all add: s2_def an_ok_def)
  moreover have "an_moves ae s1 s2" using grows by (simp add: an_moves_def s2_def)
  with node have "an_moves ae s s2" using an_moves_trans by blast
  moreover have "waits s2 calls (p, c)" using node assms(3) by (simp add: waits_def s2_def)
  ultimately show ?thesis by (simp add: register_call_def x 1 s2_def [symmetric] callsite_type_step)
qed

lemma register_all:
  assumes "an_ok X s" "\<And>g i c. calls_grow g (add g i c)" "\<And>g i c. c \<in> entry_or (calls (add g i c)) i {}"
    and "\<And>s s' x. an_grows ae s s' \<Longrightarrow> waits s calls x \<Longrightarrow> waits s' calls x"
  shows "an_ok X (fold (register_call ae add ty) xs s) \<and> an_moves ae s (fold (register_call ae add ty) xs s) \<and>
    (\<forall>x \<in> set xs. waits (fold (register_call ae add ty) xs s) calls x)"
proof (rule fold_each [where I = "an_ok X" and Q = "\<lambda>x s. waits s calls x", OF assms(1) _ an_moves_refl an_moves_trans])
  show "waits s' calls x" if "an_moves ae s s'" "waits s calls x" for x s s'
    using assms(4) that unfolding an_moves_def by blast
qed (rule register_step [OF _ assms(2,3)])

lemma added_waits:
  "c \<in> entry_or (dynamic_fntrait_calls (add_dynamic_fntrait_call g i c)) i {}"
  "c \<in> entry_or (dynamic_dispatch_calls (add_dynamic_dispatch_call g i c)) i {}"
  "c \<in> entry_or (fnptr_calls (add_fnptr_call g i c)) i {}"
  by (simp_all add: add_dynamic_fntrait_call_def add_dynamic_dispatch_call_def add_fnptr_call_def)

lemma post_calls:
  assumes "an_ok X s"
  shows "post (process_calls_in_fpag ae f s) (\<lambda>s'. an_ok X s' \<and> an_moves ae s s' \<and> calls_recorded ae s' f)"
proof (rule postI)
  fix s' assume "process_calls_in_fpag ae f s = Some s'"
  then obtain fpag s1 s2 where 1: "func_pags (an_pag s) f = Some fpag"
    "fold_opt (process_static_call ae) (static_dispatch_callsites fpag) s = Some s1"
    "fold_opt (process_special_call ae f) (special_callsites fpag) s1 = Some s2"
    "s' = fold (register_call ae add_fnptr_call FnPtr) (fnptr_callsites fpag)
       (fold (register_call ae add_dynamic_dispatch_call DynamicDispatch) (dynamic_dispatch_callsites fpag)
         (fold (register_call ae add_dynamic_fntrait_call DynamicFnTrait) (dynamic_fntrait_callsites fpag) s2))"
    by (auto simp: process_calls_in_fpag_def get_func_pag_def Let_def split: Option.bind_splits)
  from postD [OF post_static_calls [OF assms] 1(2)]
  have s1: "an_ok X s1" "an_moves ae s s1" "\<forall>x \<in> set (static_dispatch_callsites fpag). in_graph ae s1 x" by blast+
  from postD [OF post_special_calls [OF s1(1)] 1(3)]
  have s2: "an_ok X s2" "an_moves ae s1 s2" "\<forall>x \<in> set (special_callsites fpag). in_graph ae s2 x" by blast+
  define s3 where "s3 = fold (register_call ae add_dynamic_fntrait_call DynamicFnTrait) (dynamic_fntrait_callsites fpag) s2"
  have s3: "an_ok X s3" "an_moves ae s2 s3" "\<forall>x \<in> set (dynamic_fntrait_callsites fpag). waits s3 dynamic_fntrait_calls x"
    using register_all [where calls = dynamic_fntrait_calls, OF s2(1) calls_grow_add(3) added_waits(1) waits_grows(1), where ty = DynamicFnTrait and xs = "dynamic_fntrait_callsites fpag"]
    by (simp_all add: s3_def)
  define s4 where "s4 = fold (register_call ae add_dynamic_dispatch_call DynamicDispatch) (dynamic_dispatch_callsites fpag) s3"
  have s4: "an_ok X s4" "an_moves ae s3 s4" "\<forall>x \<in> set (dynamic_dispatch_callsites fpag). waits s4 dynamic_dispatch_calls x"
    using register_all [where calls = dynamic_dispatch_calls, OF s3(1) calls_grow_add(2) added_waits(2) waits_grows(2), where ty = DynamicDispatch and xs = "dynamic_dispatch_callsites fpag"]
    by (simp_all add: s4_def)
  have s': "s' = fold (register_call ae add_fnptr_call FnPtr) (fnptr_callsites fpag) s4" by (simp add: 1(4) s3_def s4_def)
  have s5: "an_ok X s'" "an_moves ae s4 s'" "\<forall>x \<in> set (fnptr_callsites fpag). waits s' fnptr_calls x"
    using register_all [where calls = fnptr_calls, OF s4(1) calls_grow_add(4) added_waits(3) waits_grows(3), where ty = FnPtr and xs = "fnptr_callsites fpag"]
    by (simp_all add: s')
  have moves: "an_moves ae s3 s'" "an_moves ae s2 s'" "an_moves ae s1 s'" "an_moves ae s s'"
    using s1(2) s2(2) s3(2) s4(2) s5(2) an_moves_trans by blast+
  then have grows: "an_grows ae s4 s'" "an_grows ae s3 s'" "an_grows ae s2 s'" "an_grows ae s1 s'" "an_grows ae s s'"
    using s5(2) by (simp_all add: an_moves_def)
  have "calls_recorded ae s' f"
    unfolding calls_recorded_def list_all_iff
    using same_body [OF grows(5) 1(1)] in_graph_grows [OF grows(4)] s1(3) in_graph_grows [OF grows(3)] s2(3)
      waits_grows(1) [OF grows(2)] s3(3) waits_grows(2) [OF grows(1)] s4(3) s5(3) by blast
  then show "an_ok X s' \<and> an_moves ae s s' \<and> calls_recorded ae s' f" using s5(1) moves(4) by blast
qed

subsection \<open>Reachable functions\<close>

lemma an_ok_recorded: "an_ok {f} s \<Longrightarrow> calls_recorded ae s f \<Longrightarrow> an_ok {} s"
  by (auto simp: an_ok_def processed_ok_def)

lemma an_ok_more: "an_ok {} s \<Longrightarrow> an_ok X s"
  by (auto simp: an_ok_def processed_ok_def)

lemma post_reach_func:
  assumes "an_ok {} s"
  shows "post (process_reach_func ae n f s) (\<lambda>s'. an_ok {} s' \<and> an_moves ae s s' \<and> handled ae s' f)"
proof (cases "f \<in> processed_funcs s")
  case True
  then have "handled ae s f" using assms by (auto simp: an_ok_def processed_ok_def handled_def)
  then show ?thesis using assms True by (simp add: process_reach_func_def)
next
  case False
  show ?thesis
  proof (rule postI)
    fix s' assume "process_reach_func ae n f s = Some s'"
    then obtain acx pag built where 1: "build_func_pag (ae_pe ae) f (an_acx s) (an_pag s) = Some (acx, pag, built)"
      "(if built then Option.bind (add_fpag_edges ae n f (s\<lparr>an_acx := acx, an_pag := pag\<rparr>)) (process_calls_in_fpag ae f)
        else Some (s\<lparr>an_acx := acx, an_pag := pag\<rparr>)) = Some s'"
      using False by (auto simp: process_reach_func_def Let_def split: Option.bind_splits)
    define s1 where "s1 = s\<lparr>an_acx := acx, an_pag := pag\<rparr>"
    have "bodies_ok (an_acx s) (an_pag s)" using assms by (simp add: an_ok_def)
    from postD [OF post_build_func_pag [OF this] 1(1)]
    have b: "bodies_ok acx pag" "bodies_grow (an_acx s, an_pag s) (acx, pag)"
      "if built then func_pags pag f \<noteq> None else refused (ae_pe ae) acx f" by auto
    have same: "same_constraints (an_pag s) pag" using b(2) by (simp add: bodies_grow_def)
    then have graph: "pag_fine (ae_gops ae) g_ok pag = pag_fine (ae_gops ae) g_ok (an_pag s)" "pag_grows (ae_gops ae) (an_pag s) pag"
      by (simp_all add: same_constraints_def pag_fine_def pag_grows_def)
    have grows: "an_grows ae s s1" using b(2) graph(2) by (simp add: an_grows_def s1_def bodies_grow_def)
    have ok: "an_ok {} s1" using assms b(1) graph(1) by (intro an_ok_grown [OF assms grows]) (simp_all add: s1_def an_ok_def)
    have moves: "an_moves ae s s1" using grows by (simp add: an_moves_def s1_def)
    show "an_ok {} s' \<and> an_moves ae s s' \<and> handled ae s' f"
    proof (cases built)
      case True
      then obtain s2 where 2: "add_fpag_edges ae n f s1 = Some s2" "process_calls_in_fpag ae f s2 = Some s'"
        using 1(2) by (auto simp: s1_def split: Option.bind_splits)
      have "exempt {f} s1 f" by (simp add: exempt_def)
      from postD [OF post_add_fpag_edges [OF an_ok_more [OF ok] this] 2(1)]
      have s2: "an_ok {f} s2" "an_moves ae s1 s2" "f \<in> processed_funcs s2" by auto
      from postD [OF post_calls [OF s2(1)] 2(2)]
      have s': "an_ok {f} s'" "an_moves ae s2 s'" "calls_recorded ae s' f" by auto
      have "f \<in> processed_funcs s'" using processed_stays [OF s'(2) s2(3)] .
      then have "handled ae s' f" using s'(3) by (simp add: handled_def)
      then show ?thesis using an_ok_recorded [OF s'(1,3)] moves s2(2) s'(2) an_moves_trans by blast
    next
      case False
      then have s': "s' = s1" and r: "refused (ae_pe ae) acx f" using 1(2) b(3) by (simp_all add: s1_def)
      have "handled ae s1 f" using r by (simp add: handled_def s1_def)
      then show ?thesis using ok moves s' by simp
    qed
  qed
qed

text \<open>Every function that has been read has been dealt with.\<close>

definition an_read :: "('c, 'g, 'cg, 'fg) andersen \<Rightarrow> bool" where
  "an_read s \<longleftrightarrow> an_ok {} s \<and> rf_iter s \<le> length (reach_funcs (an_call_graph s)) \<and>
     (\<forall>f \<in> set (take (rf_iter s) (reach_funcs (an_call_graph s))). handled ae s f)"

lemma take_prefix: "prefix xs ys \<Longrightarrow> n \<le> length xs \<Longrightarrow> take n ys = take n xs"
  by (auto simp: prefix_def)

lemma an_read_moves:
  assumes "an_read s" "an_ok {} s'" "an_moves ae s s'"
  shows "an_read s'"
proof -
  have p: "prefix (reach_funcs (an_call_graph s)) (reach_funcs (an_call_graph s'))" and i: "rf_iter s' = rf_iter s"
    and grows: "an_grows ae s s'"
    using assms(3) by (simp_all add: an_moves_def an_grows_def)
  have "take (rf_iter s) (reach_funcs (an_call_graph s')) = take (rf_iter s) (reach_funcs (an_call_graph s))"
    using take_prefix [OF p] assms(1) by (simp add: an_read_def)
  moreover have "rf_iter s \<le> length (reach_funcs (an_call_graph s'))"
    using assms(1) prefix_length_le [OF p] by (simp add: an_read_def)
  ultimately show ?thesis
    using assms(1,2) handled_grows [OF grows] by (simp add: an_read_def i)
qed

lemma an_read_next:
  assumes "an_read s" "rf_iter s < length (reach_funcs (an_call_graph s))"
    and "an_ok {} s'" "an_moves ae (s\<lparr>rf_iter := Suc (rf_iter s)\<rparr>) s'" "handled ae s' (reach_funcs (an_call_graph s) ! rf_iter s)"
  shows "an_read s' \<and> an_grows ae s s'"
proof -
  have p: "prefix (reach_funcs (an_call_graph s)) (reach_funcs (an_call_graph s'))" and i: "rf_iter s' = Suc (rf_iter s)"
    and grows: "an_grows ae s s'"
    using assms(4) by (simp_all add: an_moves_def an_grows_def)
  have "take (Suc (rf_iter s)) (reach_funcs (an_call_graph s')) =
      take (rf_iter s) (reach_funcs (an_call_graph s)) @ [reach_funcs (an_call_graph s) ! rf_iter s]"
    using take_prefix [OF p] assms(2) by (simp add: take_Suc_conv_app_nth)
  moreover have "Suc (rf_iter s) \<le> length (reach_funcs (an_call_graph s'))"
    using assms(2) prefix_length_le [OF p] by simp
  ultimately show ?thesis
    using assms(1,3,5) handled_grows [OF grows] grows by (auto simp: an_read_def i)
qed

lemma post_reach_funcs:
  "an_read s \<Longrightarrow> post (process_reach_funcs ae n m s)
     (\<lambda>s'. an_read s' \<and> an_grows ae s s' \<and> rf_iter s' = length (reach_funcs (an_call_graph s')))"
proof (induction m arbitrary: s)
  case (Suc m)
  show ?case
  proof (cases "rf_iter s < length (reach_funcs (an_call_graph s))")
    case True
    show ?thesis
    proof (rule postI)
      fix s' assume "process_reach_funcs ae n (Suc m) s = Some s'"
      then obtain s1 where 1: "process_reach_func ae n (reach_funcs (an_call_graph s) ! rf_iter s) (s\<lparr>rf_iter := Suc (rf_iter s)\<rparr>) = Some s1"
        "process_reach_funcs ae n m s1 = Some s'"
        using True by (auto split: Option.bind_splits)
      have "an_ok {} (s\<lparr>rf_iter := Suc (rf_iter s)\<rparr>)" using Suc.prems by (simp add: an_read_def)
      from postD [OF post_reach_func [OF this] 1(1)] have "an_read s1 \<and> an_grows ae s s1"
        by (intro an_read_next [OF Suc.prems True]) auto
      then show "an_read s' \<and> an_grows ae s s' \<and> rf_iter s' = length (reach_funcs (an_call_graph s'))"
        using postD [OF Suc.IH 1(2)] an_grows_trans by blast
    qed
  qed (use Suc.prems in \<open>simp add: an_read_def\<close>)
qed (simp add: an_read_def)

subsection \<open>The rounds\<close>

definition an_done :: "('c, 'g, 'cg, 'fg) andersen \<Rightarrow> bool" where
  "an_done s \<longleftrightarrow> an_read s \<and> rf_iter s = length (reach_funcs (an_call_graph s))"

lemma post_funcs_done: "an_read s \<Longrightarrow> post (process_reach_funcs ae n m s) (\<lambda>s'. an_done s' \<and> an_grows ae s s')"
  by (rule post_weaken [OF post_reach_funcs]) (simp_all add: an_done_def)

text \<open>The calls found by the solver are in the call graph, and the functions they make reachable are dealt with.\<close>

lemma post_added_calls:
  assumes "an_done s" "\<And>x s. add x s = an_add_call_edge ae (site x) (target x) s"
  shows "post (do { s \<leftarrow> fold_opt add xs s; process_reach_funcs ae n m s })
    (\<lambda>s'. an_done s' \<and> an_grows ae s s' \<and> (\<forall>x \<in> set xs. in_graph ae s' (site x, target x)))"
proof (rule postI)
  fix s' assume "do { s \<leftarrow> fold_opt add xs s; process_reach_funcs ae n m s } = Some s'"
  then obtain s1 where 1: "fold_opt add xs s = Some s1" "process_reach_funcs ae n m s1 = Some s'"
    by (auto split: Option.bind_splits)
  have ok: "an_ok {} s" using assms(1) by (simp add: an_done_def an_read_def)
  have "post (fold_opt add xs s) (\<lambda>s'. an_ok {} s' \<and> an_moves ae s s' \<and> (\<forall>x \<in> set xs. in_graph ae s' (site x, target x)))"
  proof (rule post_fold_each [where I = "an_ok {}" and Q = "\<lambda>x s. in_graph ae s (site x, target x)",
        OF ok _ an_moves_refl an_moves_trans in_graph_moves])
    show "post (add x t) (\<lambda>s'. an_ok {} s' \<and> an_moves ae t s' \<and> in_graph ae s' (site x, target x))" if "an_ok {} t" for x t
      using post_call_edge [OF that] by (simp add: assms(2))
  qed
  from postD [OF this 1(1)] have s1: "an_ok {} s1" "an_moves ae s s1" "\<forall>x \<in> set xs. in_graph ae s1 (site x, target x)" by auto
  have "an_read s1" using assms(1) an_read_moves [OF _ s1(1,2)] by (simp add: an_done_def)
  from postD [OF post_funcs_done [OF this] 1(2)] have s': "an_done s'" "an_grows ae s1 s'" by auto
  moreover have "an_grows ae s s1" using s1(2) by (simp add: an_moves_def)
  ultimately show "an_done s' \<and> an_grows ae s s' \<and> (\<forall>x \<in> set xs. in_graph ae s' (site x, target x))"
    using s1(3) in_graph_grows [OF s'(2)] an_grows_trans by blast
qed

lemma post_new_calls:
  "an_done s \<Longrightarrow> post (process_new_calls ae n m calls s) (\<lambda>s'. an_done s' \<and> an_grows ae s s' \<and> (\<forall>x \<in> set calls. in_graph ae s' x))"
  unfolding process_new_calls_def using post_added_calls [where site = fst and target = snd]
  by (simp add: split_def del: post_simps)

lemma post_new_instances:
  "an_done s \<Longrightarrow> post (process_new_call_instances ae n m insts s)
     (\<lambda>s'. an_done s' \<and> an_grows ae s s' \<and> (\<forall>(c, p, h) \<in> set insts. in_graph ae s' (c, h)))"
  unfolding process_new_call_instances_def
  using post_added_calls [of s "\<lambda>(c, p, h). an_add_call_edge ae c h" fst "snd \<circ> snd" insts n m]
  by (simp add: split_def del: post_simps)

lemma post_round:
  assumes "an_done s"
  shows "post (solve_round ae casts rounds read s) (\<lambda>(s', calls, instances). an_done s' \<and> an_grows ae s s')"
proof (rule postI)
  fix x assume "solve_round ae casts rounds read s = Some x"
  let ?env = "andersen_solver_env ae"
  define t where "t = propagator_new (an_acx s) (an_pt_data s) (an_pag s) (an_addr_edge_iter s)
    (drop read (inter_proc_edges_queue s)) (an_assoc_calls s) (an_stack_filter s)"
  have t: "sv_acx t = an_acx s" "sv_pt t = an_pt_data s" "sv_pag t = an_pag s" "assoc_calls t = an_assoc_calls s" "worklist t = []"
    by (simp_all add: t_def propagator_new_def)
  obtain p where p: "solve_worklist ?env casts rounds t = Some p"
    "x = (s\<lparr>an_acx := sv_acx p, an_pt_data := sv_pt p, an_pag := sv_pag p, an_addr_edge_iter := addr_edge_iter p,
       an_assoc_calls := assoc_calls p, an_stack_filter := sv_stack_filter p\<rparr>, new_calls p, new_call_instances p)"
    using \<open>solve_round ae casts rounds read s = Some x\<close> by (auto simp: solve_round_def t_def split: Option.bind_splits)
  define s' where "s' = s\<lparr>an_acx := sv_acx p, an_pt_data := sv_pt p, an_pag := sv_pag p, an_addr_edge_iter := addr_edge_iter p,
    an_assoc_calls := assoc_calls p, an_stack_filter := sv_stack_filter p\<rparr>"
  have env: "se_gops ?env = ae_gops ae" "se_tops ?env = plain_type_ops (pe_tcx (ae_pe ae)) (be_fuel (pe_build (ae_pe ae)))"
    by (simp_all add: andersen_solver_env_def Let_def)
  have api: "solver_api ?env g_ok get_path_rustc_type"
    by (intro solver_api.intro pag_api.intro) (simp_all add: env graph_api_axioms plain_types.path_types_axioms)
  have ok: "an_ok {} s" using assms by (simp add: an_done_def an_read_def)
  then have "solver_api.keeps ?env g_ok t {} t"
    by (simp add: solver_api.keeps_def [OF api] solver_inv_def pending_def env t an_ok_def)
  from postD [OF solver_api.post_solve [OF api this] p(1)]
  have p': "worklist p = []" "solver_inv ?env g_ok {} p" "solver_grows ?env t p" by (simp_all add: solver_api.keeps_def [OF api])
  then have kept: "pag_fine (ae_gops ae) g_ok (sv_pag p)" "pag_grows (ae_gops ae) (an_pag s) (sv_pag p)" "bodies_of (sv_pag p) = bodies_of (an_pag s)"
    "acx_grows (an_acx s) (sv_acx p)" "calls_grow (an_assoc_calls s) (assoc_calls p)"
    "diff_inv words_of words_ok (sv_pt p)" "\<forall>n. diff_of words_of (sv_pt p) n = {}"
    by (auto simp: solver_inv_def solver_grows_def pending_def env t)
  have grows: "an_grows ae s s'"
    using kept(2,4,5) kept_bodies [OF kept(3)] by (simp add: an_grows_def s'_def)
  have "bodies_ok (sv_acx p) (sv_pag p)"
    using ok by (intro bodies_ok_acx [OF _ kept(4)] bodies_ok_same [OF kept(3)]) (simp add: an_ok_def)
  then have "an_ok {} s'"
    using ok kept(1,6,7) processed_grows [OF _ grows, of "{}"] by (simp add: an_ok_def s'_def)
  moreover have "an_moves ae s s'" using grows by (simp add: an_moves_def s'_def)
  moreover have "an_read s" using assms by (simp add: an_done_def)
  ultimately have "an_read s'" using an_read_moves by blast
  then have "an_done s'" using assms by (simp add: an_done_def s'_def)
  then show "(\<lambda>(s', calls, instances). an_done s' \<and> an_grows ae s s') x" using grows by (simp add: p(2) s'_def)
qed

lemma post_propagate: "an_done s \<Longrightarrow> post (propagate_loop ae lim k read s) (\<lambda>s'. an_done s' \<and> an_grows ae s s')"
proof (induction k arbitrary: read s)
  case (Suc k)
  show ?case
  proof (rule postI)
    fix s' assume run: "propagate_loop ae lim (Suc k) read s = Some s'"
    then obtain s1 calls insts where 1: "solve_round ae (lim_casts lim) (lim_rounds lim) read s = Some (s1, calls, insts)"
      by (auto split: Option.bind_splits)
    from postD [OF post_round [OF Suc.prems] 1] have s1: "an_done s1" "an_grows ae s s1" by auto
    show "an_done s' \<and> an_grows ae s s'"
    proof (cases "calls = [] \<and> insts = []")
      case False
      then obtain s2 s3 where 2: "process_new_calls ae (lim_depth lim) (lim_funcs lim) calls s1 = Some s2"
        "process_new_call_instances ae (lim_depth lim) (lim_funcs lim) insts s2 = Some s3"
        "propagate_loop ae lim k (length (inter_proc_edges_queue s)) s3 = Some s'"
        using run 1 by (auto split: Option.bind_splits if_splits)
      from postD [OF post_new_calls [OF s1(1)] 2(1)] have s2: "an_done s2" "an_grows ae s1 s2" by auto
      from postD [OF post_new_instances [OF s2(1)] 2(2)] have s3: "an_done s3" "an_grows ae s2 s3" by auto
      from postD [OF Suc.IH [OF s3(1)] 2(3)] show ?thesis
        using s1(2) s2(2) s3(2) an_grows_trans by blast
    qed (use run 1 s1 in simp)
  qed
qed simp

subsection \<open>The analysis\<close>

lemma an_read_new: "table_ok (acx_functions acx) \<Longrightarrow> an_read (andersen_new ae acx)"
  using pag_fine_ok [OF pag_ok_new] cg.cg_ok_new hybrid.diff_inv_new
  by (simp add: an_read_def an_ok_def andersen_new_def bodies_ok_def processed_ok_def pag_new_def diff_new_def)

lemma an_read_acx:
  assumes "an_read s" "acx_grows (an_acx s) acx"
  shows "an_read (s\<lparr>an_acx := acx\<rparr>)"
proof -
  have ok: "an_ok {} s" using assms(1) by (simp add: an_read_def)
  then have "pag_fine (ae_gops ae) g_ok (an_pag s)" by (simp add: an_ok_def)
  from an_ok_pag [OF ok this pag_grows_refl refl assms(2)] an_read_moves [OF assms(1)] show ?thesis by simp
qed

lemma an_read_node:
  assumes "an_read s"
  shows "an_read (s\<lparr>an_call_graph := cg_add_node (ae_cgops ae) (an_call_graph s) f\<rparr>)"
proof -
  have ok: "an_ok {} s" using assms by (simp add: an_read_def)
  obtain cg' i where 1: "cg_get_or_insert_node (ae_cgops ae) (an_call_graph s) f = (cg', i)" by fastforce
  have node: "cg_add_node (ae_cgops ae) (an_call_graph s) f = cg'"
    using 1 by (auto simp: cg_add_node_def cg_get_or_insert_node_def add_reach_func_def split: option.splits prod.splits)
  have "cg_ok (ae_cgops ae) c_ok (an_call_graph s)" using ok by (simp add: an_ok_def)
  note spec = cg.get_or_insert_spec [OF this 1]
  have "prefix (reach_funcs (an_call_graph s)) (reach_funcs cg')" by (simp add: spec(4) push_new_def)
  then have grows: "an_grows ae s (s\<lparr>an_call_graph := cg'\<rparr>)" using spec(3) by (simp add: an_grows_def)
  have "an_ok {} (s\<lparr>an_call_graph := cg'\<rparr>)"
    using ok spec(1) by (intro an_ok_grown [OF ok grows]) (simp_all add: an_ok_def)
  then show ?thesis using an_read_moves [OF assms] grows by (simp add: node an_moves_def)
qed

lemma an_read_filter [simp]: "an_read (s\<lparr>an_stack_filter := f\<rparr>) = an_read s"
  by (simp add: an_read_def handled_def initializer_def calls_recorded_def in_graph_def waits_def cong: list.pred_cong)

lemma post_analyze:
  assumes "table_ok (acx_functions acx)" "\<And>acx' cg. rta acx = Some (acx', cg) \<Longrightarrow> acx_grows acx acx'"
  shows "post (analyze ae lim k rta ord (andersen_new ae acx)) an_done"
proof (rule postI)
  fix s assume "analyze ae lim k rta ord (andersen_new ae acx) = Some s"
  then obtain s1 acx2 f s3 where 1: "pre_analysis ae rta ord (andersen_new ae acx) = Some s1"
    "acx_get_func_id (pe_tcx (ae_pe ae)) (be_text (pe_build (ae_pe ae))) (be_from_usize (pe_build (ae_pe ae))) (an_acx s1)
       (acx_entry_point (an_acx s1)) [] = Some (acx2, f)"
    "process_reach_funcs ae (lim_depth lim) (lim_funcs lim)
       (s1\<lparr>an_acx := acx2, an_call_graph := cg_add_node (ae_cgops ae) (an_call_graph s1) f\<rparr>) = Some s3"
    "propagate_loop ae lim k 0 s3 = Some s"
    by (auto simp: analyze_def initialize_def an_propagate_def Let_def split: Option.bind_splits)
  have new: "an_acx (andersen_new ae acx) = acx" by (simp add: andersen_new_def)
  have "an_read s1"
    using 1(1) an_read_new [OF assms(1)] an_read_acx [OF an_read_new [OF assms(1)]] assms(2)
    by (auto simp: pre_analysis_def new split: if_splits Option.bind_splits)
  from an_read_node [OF an_read_acx [OF this func_id_grows [OF 1(2)]], of f]
  have "an_read (s1\<lparr>an_acx := acx2, an_call_graph := cg_add_node (ae_cgops ae) (an_call_graph s1) f\<rparr>)" by simp
  from postD [OF post_funcs_done [OF this] 1(3)] have "an_done s3" by simp
  from postD [OF post_propagate [OF this] 1(4)] show "an_done s" by simp
qed

end

text \<open>The driver on adjacency-list graphs, with sets visited in ascending order.\<close>

interpretation list_andersen: andersen_api
    "ae\<lparr>ae_gops := list_graph_ops, ae_cgops := list_graph_ops, ae_func_order := sorted_list_of_set\<rparr>" list_graph_ok list_graph_ok
    for ae
  by (intro andersen_api.intro pag_api.intro call_graph_api.intro andersen_api_axioms.intro) (simp_all add: list_graph.graph_api_axioms)

end
