(* ===== verification/Rta.thy ===== *)
theory Rta
  imports Body_Graphs Call_Graph "HOL-Library.AList_Mapping"
begin

section \<open>Rapid type analysis (\<open>src/rta/rta.rs\<close>)\<close>

text \<open>
  The pre-analysis that gives stack filtering its call graph: a dynamic call may lead to the
  implementations of all types that are cast to the trait object anywhere, a call through a
  pointer to all functions of a matching signature that are cast to a pointer. The visitor of
  bodies is in \<open>Rta_Visitor\<close>. The hash maps that the analysis iterates over are values of the
  library's \<open>mapping\<close>; the order of the iteration over their keys, and over hash sets, is given by
  the environment. Log output and timing are left out.
\<close>

type_synonym rta_callsite = "func_id base_call_site"
type_synonym 'c dyn_call = "rta_callsite \<times> def_id \<times> 'c generic_args"

record ('c, 'cg) rta_env =
  re_pe :: "'c program_env"
  re_gops :: "('cg, func_id, rta_callsite) cg_ops"
  type_order :: "'c ty set \<Rightarrow> 'c ty list"
  dyn_call_order :: "'c dyn_call set \<Rightarrow> 'c dyn_call list"
  fn_sig_order :: "'c ty list set \<Rightarrow> 'c ty list list"
  callsite_order :: "rta_callsite set \<Rightarrow> rta_callsite list"

text \<open>\<open>entry(k).or_default()\<close>, and the insertion into the set it yields\<close>

type_synonym ('k, 'v) set_mapping = "('k, 'v set) mapping"

abbreviation or_default :: "('k, 'v) set_mapping \<Rightarrow> 'k \<Rightarrow> 'v set" where
  "or_default m k \<equiv> Mapping.lookup_default {} m k"

definition default_insert :: "('k, 'v) set_mapping \<Rightarrow> 'k \<Rightarrow> 'v \<Rightarrow> ('k, 'v) set_mapping" where
  "default_insert m k v = Mapping.update k (insert v (or_default m k)) m"

abbreviation re_tcx :: "('c, 'cg) rta_env \<Rightarrow> 'c tcx" where
  "re_tcx env \<equiv> be_tcx (pe_build (re_pe env))"

abbreviation re_fuel :: "('c, 'cg) rta_env \<Rightarrow> nat" where
  "re_fuel env \<equiv> be_fuel (pe_build (re_pe env))"

record ('c, 'cg) rta =
  ra_acx :: "'c analysis_context"
  ra_call_graph :: "('cg, func_id, rta_callsite) call_graph"
  ra_rf_iter :: nat
  visited_functions :: "func_id set"
  specially_handled_functions :: "func_id set"
  static_callsites :: "rta_callsite set"
  dyn_callsites :: "('c ty, 'c dyn_call) set_mapping"
  dyn_fntrait_callsites :: "('c ty, 'c dyn_call) set_mapping"
  ra_fnptr_callsites :: "('c ty, rta_callsite) set_mapping"
  dynamic_to_possible_concrete_types :: "('c ty, 'c ty) set_mapping"
  fnptr_sig_to_possible_targets :: "('c ty list, 'c ty) set_mapping"
  trait_upcasting_relations :: "('c ty, 'c ty) set_mapping"
  num_stmts :: nat

definition rta_new :: "('c, 'cg) rta_env \<Rightarrow> 'c analysis_context \<Rightarrow> ('c, 'cg) rta" where
  "rta_new env acx =
     \<lparr>ra_acx = acx, ra_call_graph = cg_new (re_gops env), ra_rf_iter = 0, visited_functions = {},
      specially_handled_functions = {}, static_callsites = {}, dyn_callsites = Mapping.empty,
      dyn_fntrait_callsites = Mapping.empty, ra_fnptr_callsites = Mapping.empty,
      dynamic_to_possible_concrete_types = Mapping.empty, fnptr_sig_to_possible_targets = Mapping.empty,
      trait_upcasting_relations = Mapping.empty, num_stmts = 0\<rparr>"

subsection \<open>What the bodies record\<close>

definition rta_set_callsite_type :: "rta_callsite \<Rightarrow> call_type \<Rightarrow> ('c, 'cg) rta \<Rightarrow> ('c, 'cg) rta" where
  "rta_set_callsite_type callsite call_type r =
     r\<lparr>ra_call_graph := set_callsite_type (ra_call_graph r) callsite call_type\<rparr>"

definition rta_add_call_edge ::
    "('c, 'cg) rta_env \<Rightarrow> rta_callsite \<Rightarrow> func_id \<Rightarrow> ('c, 'cg) rta \<Rightarrow> ('c, 'cg) rta option" where
  "rta_add_call_edge env callsite callee_id r =
     map_option (\<lambda>(cg, new). r\<lparr>ra_call_graph := cg\<rparr>)
       (cg_add_edge (re_gops env) (ra_call_graph r) callsite (bcs_func callsite) callee_id)"

definition rta_add_static_callsite :: "rta_callsite \<Rightarrow> ('c, 'cg) rta \<Rightarrow> ('c, 'cg) rta" where
  "rta_add_static_callsite callsite r =
     rta_set_callsite_type callsite StaticDispatch (r\<lparr>static_callsites := insert callsite (static_callsites r)\<rparr>)"

text \<open>\<open>strip_auto_traits(erase_regions_ty(ty))\<close>\<close>

definition dyn_key :: "('c, 'cg) rta_env \<Rightarrow> 'c ty \<Rightarrow> 'c ty" where
  "dyn_key env ty = strip_auto_traits (tcx_erase_regions (re_tcx env) ty)"

definition rta_add_dyn_callsite ::
    "('c, 'cg) rta_env \<Rightarrow> rta_callsite \<Rightarrow> def_id \<Rightarrow> 'c generic_args \<Rightarrow> ('c, 'cg) rta \<Rightarrow> ('c, 'cg) rta option" where
  "rta_add_dyn_callsite env callsite callee_def_id callee_substs r =
     do { self_ty \<leftarrow> nth_type callee_substs 0;
          let dyn_type = dyn_key env self_ty;
          if \<not> is_trait dyn_type then None
          else Some (rta_set_callsite_type callsite DynamicDispatch
            (r\<lparr>dyn_callsites := default_insert (dyn_callsites r) dyn_type (callsite, callee_def_id, callee_substs)\<rparr>)) }"

definition rta_add_dyn_fntrait_callsite ::
    "('c, 'cg) rta_env \<Rightarrow> rta_callsite \<Rightarrow> def_id \<Rightarrow> 'c generic_args \<Rightarrow> ('c, 'cg) rta \<Rightarrow> ('c, 'cg) rta option" where
  "rta_add_dyn_fntrait_callsite env callsite callee_def_id callee_substs r =
     do { self_ty \<leftarrow> nth_type callee_substs 0;
          let dyn_fntrait_type = dyn_key env self_ty;
          Some (rta_set_callsite_type callsite DynamicFnTrait
            (r\<lparr>dyn_fntrait_callsites :=
                 default_insert (dyn_fntrait_callsites r) dyn_fntrait_type (callsite, callee_def_id, callee_substs)\<rparr>)) }"

definition rta_add_fnptr_callsite ::
    "('c, 'cg) rta_env \<Rightarrow> rta_callsite \<Rightarrow> 'c ty \<Rightarrow> ('c, 'cg) rta \<Rightarrow> ('c, 'cg) rta" where
  "rta_add_fnptr_callsite env callsite fnptr_type r =
     rta_set_callsite_type callsite FnPtr
       (r\<lparr>ra_fnptr_callsites := default_insert (ra_fnptr_callsites r) (tcx_erase_regions (re_tcx env) fnptr_type) callsite\<rparr>)"

definition add_possible_concrete_type ::
    "('c, 'cg) rta_env \<Rightarrow> 'c ty \<Rightarrow> 'c ty \<Rightarrow> ('c, 'cg) rta \<Rightarrow> ('c, 'cg) rta" where
  "add_possible_concrete_type env dyn_ty concrete_ty r =
     r\<lparr>dynamic_to_possible_concrete_types :=
         default_insert (dynamic_to_possible_concrete_types r) (dyn_key env dyn_ty) (tcx_erase_regions (re_tcx env) concrete_ty)\<rparr>"

definition add_possible_fnptr_target ::
    "('c, 'cg) rta_env \<Rightarrow> 'c ty \<Rightarrow> 'c ty \<Rightarrow> ('c, 'cg) rta \<Rightarrow> ('c, 'cg) rta option" where
  "add_possible_fnptr_target env fnptr_type fn_item_type r =
     (let fn_item_type = tcx_erase_regions (re_tcx env) fn_item_type in
      case tcx_erase_regions (re_tcx env) fnptr_type of
        FnPtrTy fnsig \<Rightarrow>
          Some (r\<lparr>fnptr_sig_to_possible_targets := default_insert (fnptr_sig_to_possible_targets r) fnsig fn_item_type\<rparr>)
      | _ \<Rightarrow> None)"

definition add_trait_upcasting_relation ::
    "('c, 'cg) rta_env \<Rightarrow> 'c ty \<Rightarrow> 'c ty \<Rightarrow> ('c, 'cg) rta \<Rightarrow> ('c, 'cg) rta" where
  "add_trait_upcasting_relation env src_dyn_ty tgt_dyn_ty r =
     (let src_dyn_ty = dyn_key env src_dyn_ty; tgt_dyn_ty = dyn_key env tgt_dyn_ty in
      if src_dyn_ty \<noteq> tgt_dyn_ty
      then r\<lparr>trait_upcasting_relations := default_insert (trait_upcasting_relations r) src_dyn_ty tgt_dyn_ty\<rparr>
      else r)"

definition rta_func_id ::
    "('c, 'cg) rta_env \<Rightarrow> def_id \<Rightarrow> 'c generic_args \<Rightarrow> ('c, 'cg) rta \<Rightarrow> (('c, 'cg) rta \<times> func_id) option" where
  "rta_func_id env d gen_args r =
     (let be = pe_build (re_pe env) in
      map_option (\<lambda>(acx, i). (r\<lparr>ra_acx := acx\<rparr>, i))
        (acx_get_func_id (be_tcx be) (be_text be) (be_from_usize be) (ra_acx r) d gen_args))"

text \<open>A call whose callee is known: \<open>add_static_callsite\<close> and \<open>add_call_edge\<close>.\<close>

definition rta_static_call ::
    "('c, 'cg) rta_env \<Rightarrow> rta_callsite \<Rightarrow> def_id \<Rightarrow> 'c generic_args \<Rightarrow> ('c, 'cg) rta \<Rightarrow> (('c, 'cg) rta \<times> func_id) option" where
  "rta_static_call env callsite d gen_args r =
     do { (r, callee_func_id) \<leftarrow> rta_func_id env d gen_args r;
          r \<leftarrow> rta_add_call_edge env callsite callee_func_id (rta_add_static_callsite callsite r);
          Some (r, callee_func_id) }"

subsection \<open>Upcasts of trait objects\<close>

text \<open>One pass over the relations; the flag says whether a type was new for its target.\<close>

definition upcast_to ::
    "'c ty set \<Rightarrow> 'c ty \<Rightarrow> ('c ty, 'c ty) set_mapping \<times> bool \<Rightarrow> ('c ty, 'c ty) set_mapping \<times> bool" where
  "upcast_to src_concrete_types tgt_dyn_ty = (\<lambda>(types, changed).
     (let tgt_concrete_types = or_default types tgt_dyn_ty in
      (Mapping.update tgt_dyn_ty (tgt_concrete_types \<union> src_concrete_types) types,
       changed \<or> \<not> src_concrete_types \<subseteq> tgt_concrete_types)))"

definition upcast_from ::
    "('c, 'cg) rta_env \<Rightarrow> ('c ty, 'c ty) set_mapping \<Rightarrow> 'c ty \<Rightarrow> ('c ty, 'c ty) set_mapping \<times> bool \<Rightarrow>
     ('c ty, 'c ty) set_mapping \<times> bool" where
  "upcast_from env relations src_dyn_ty = (\<lambda>(types, changed).
     (case Mapping.lookup types src_dyn_ty of
        Some src_concrete_types \<Rightarrow>
          fold (upcast_to src_concrete_types) (type_order env (or_default relations src_dyn_ty)) (types, changed)
      | None \<Rightarrow> (types, changed)))"

definition upcast_pass ::
    "('c, 'cg) rta_env \<Rightarrow> ('c ty, 'c ty) set_mapping \<Rightarrow> ('c ty, 'c ty) set_mapping \<Rightarrow> ('c ty, 'c ty) set_mapping \<times> bool" where
  "upcast_pass env relations types =
     fold (upcast_from env relations) (type_order env (Mapping.keys relations)) (types, False)"

fun upcast_loop ::
    "('c, 'cg) rta_env \<Rightarrow> ('c ty, 'c ty) set_mapping \<Rightarrow> nat \<Rightarrow> ('c ty, 'c ty) set_mapping \<Rightarrow> ('c ty, 'c ty) set_mapping option" where
  "upcast_loop env relations 0 types = None"
| "upcast_loop env relations (Suc n) types =
     (case upcast_pass env relations types of
        (types, changed) \<Rightarrow> (if changed then upcast_loop env relations n types else Some types))"

definition solve_trait_upcasting :: "('c, 'cg) rta_env \<Rightarrow> nat \<Rightarrow> ('c, 'cg) rta \<Rightarrow> ('c, 'cg) rta option" where
  "solve_trait_upcasting env n r =
     map_option (\<lambda>types. r\<lparr>dynamic_to_possible_concrete_types := types\<rparr>)
       (upcast_loop env (trait_upcasting_relations r) n (dynamic_to_possible_concrete_types r))"

subsection \<open>Calls on trait objects\<close>

text \<open>\<open>replaced_args[0] = concrete_type.into()\<close> panics for an empty list.\<close>

fun replace_self :: "'c ty \<Rightarrow> 'c generic_args \<Rightarrow> 'c generic_args option" where
  "replace_self ty [] = None"
| "replace_self ty (_ # args) = Some (TypeKind ty # args)"

definition solve_dyn_call ::
    "('c, 'cg) rta_env \<Rightarrow> 'c dyn_call \<Rightarrow> 'c ty \<Rightarrow> ('c, 'cg) rta \<Rightarrow> ('c, 'cg) rta option" where
  "solve_dyn_call env = (\<lambda>(callsite, callee_def_id, gen_args) concrete_type r.
     do { replaced_args \<leftarrow> replace_self concrete_type gen_args;
          resolved \<leftarrow> try_to_devirtualize (re_tcx env) callee_def_id replaced_args;
          case resolved of
            Some (d, gen_args) \<Rightarrow> do {
              (r, func_id) \<leftarrow> rta_func_id env d gen_args r;
              rta_add_call_edge env callsite func_id r }
          | None \<Rightarrow> Some r })"

definition solve_dyn_callsites :: "('c, 'cg) rta_env \<Rightarrow> ('c, 'cg) rta \<Rightarrow> ('c, 'cg) rta option" where
  "solve_dyn_callsites env r =
     (let types = dynamic_to_possible_concrete_types r; callsites = dyn_callsites r in
      fold_opt (\<lambda>dyn_ty.
          case Mapping.lookup callsites dyn_ty of
            Some calls \<Rightarrow>
              fold_opt (\<lambda>call. fold_opt (solve_dyn_call env call) (type_order env (or_default types dyn_ty)))
                (dyn_call_order env calls)
          | None \<Rightarrow> Some)
        (type_order env (Mapping.keys types)) r)"

definition fntrait_edge ::
    "('c, 'cg) rta_env \<Rightarrow> def_id \<Rightarrow> 'c generic_args \<Rightarrow> 'c dyn_call \<Rightarrow> ('c, 'cg) rta \<Rightarrow> ('c, 'cg) rta option" where
  "fntrait_edge env d substs = (\<lambda>(callsite, _, _) r.
     do { (d, substs) \<leftarrow> resolve_fn_def (re_tcx env) d substs;
          (r, func_id) \<leftarrow> rta_func_id env d substs r;
          rta_add_call_edge env callsite func_id r })"

definition fntrait_impl_edge ::
    "('c, 'cg) rta_env \<Rightarrow> 'c ty \<Rightarrow> 'c dyn_call \<Rightarrow> ('c, 'cg) rta \<Rightarrow> ('c, 'cg) rta option" where
  "fntrait_impl_edge env concrete_type = (\<lambda>(callsite, callee_def_id, gen_args) r.
     do { replaced_args \<leftarrow> replace_self concrete_type gen_args;
          case tcx_resolve (re_tcx env) RevealAll callee_def_id replaced_args of
            Some (resolved_def_id, instance_args) \<Rightarrow>
              (if tcx_is_mir_available (re_tcx env) resolved_def_id then do {
                 (r, func_id) \<leftarrow> rta_func_id env resolved_def_id instance_args r;
                 rta_add_call_edge env callsite func_id r }
               else Some r)
          | None \<Rightarrow> Some r })"

definition solve_dyn_fntrait_calls ::
    "('c, 'cg) rta_env \<Rightarrow> 'c dyn_call set \<Rightarrow> 'c ty \<Rightarrow> ('c, 'cg) rta \<Rightarrow> ('c, 'cg) rta option" where
  "solve_dyn_fntrait_calls env calls concrete_type r =
     (case concrete_type of
        FnDef d substs \<Rightarrow> fold_opt (fntrait_edge env d substs) (dyn_call_order env calls) r
      | Closure d substs \<Rightarrow> fold_opt (fntrait_edge env d substs) (dyn_call_order env calls) r
      | Coroutine d substs \<Rightarrow> fold_opt (fntrait_edge env d substs) (dyn_call_order env calls) r
      | FnPtrTy _ \<Rightarrow>
          Some (fold (\<lambda>(callsite, _, _). rta_add_fnptr_callsite env callsite concrete_type) (dyn_call_order env calls) r)
      | _ \<Rightarrow> fold_opt (fntrait_impl_edge env concrete_type) (dyn_call_order env calls) r)"

definition solve_dyn_fntrait_callsites :: "('c, 'cg) rta_env \<Rightarrow> ('c, 'cg) rta \<Rightarrow> ('c, 'cg) rta option" where
  "solve_dyn_fntrait_callsites env r =
     (let types = dynamic_to_possible_concrete_types r; callsites = dyn_fntrait_callsites r in
      fold_opt (\<lambda>dyn_fntrait_ty.
          case Mapping.lookup types dyn_fntrait_ty of
            Some concrete_types \<Rightarrow>
              fold_opt (solve_dyn_fntrait_calls env (or_default callsites dyn_fntrait_ty)) (type_order env concrete_types)
          | None \<Rightarrow> Some)
        (type_order env (Mapping.keys callsites)) r)"

subsection \<open>Calls through function pointers\<close>

definition fnptr_edge ::
    "('c, 'cg) rta_env \<Rightarrow> rta_callsite \<Rightarrow> 'c ty \<Rightarrow> ('c, 'cg) rta \<Rightarrow> ('c, 'cg) rta option" where
  "fnptr_edge env callsite fn_item_ty r =
     (let add = (\<lambda>d substs. do {
            (r, func_id) \<leftarrow> rta_func_id env d substs r;
            rta_add_call_edge env callsite func_id r }) in
      case fn_item_ty of
        FnDef d substs \<Rightarrow> add d substs
      | Closure d substs \<Rightarrow> add d substs
      | Coroutine d substs \<Rightarrow> add d substs
      | _ \<Rightarrow> None)"

definition solve_fnptr_calls ::
    "('c, 'cg) rta_env \<Rightarrow> ('c ty list, 'c ty) set_mapping \<Rightarrow> rta_callsite set \<Rightarrow> 'c ty list \<Rightarrow> 'c ty list \<Rightarrow>
     ('c, 'cg) rta \<Rightarrow> ('c, 'cg) rta option" where
  "solve_fnptr_calls env targets callsites fn_sig fn_sig2 r =
     do { matched \<leftarrow> matched_fn_sig (re_tcx env) (re_fuel env) fn_sig fn_sig2;
          if matched
          then fold_opt (\<lambda>callsite. fold_opt (fnptr_edge env callsite) (type_order env (or_default targets fn_sig2)))
                 (callsite_order env callsites) r
          else Some r }"

definition solve_fnptr_callsites :: "('c, 'cg) rta_env \<Rightarrow> ('c, 'cg) rta \<Rightarrow> ('c, 'cg) rta option" where
  "solve_fnptr_callsites env r =
     (let targets = fnptr_sig_to_possible_targets r; callsites = ra_fnptr_callsites r in
      fold_opt (\<lambda>fnptr_type.
          case fnptr_type of
            FnPtrTy fn_sig \<Rightarrow>
              fold_opt (solve_fnptr_calls env targets (or_default callsites fnptr_type) fn_sig) (fn_sig_order env (Mapping.keys targets))
          | _ \<Rightarrow> Some)
        (type_order env (Mapping.keys callsites)) r)"

end
