(* ===== verification/Rta_Visitor.thy ===== *)
theory Rta_Visitor
  imports Rta
begin

section \<open>The visitor of bodies (\<open>src/rta/body_visitor.rs\<close>) and the analysis\<close>

text \<open>
  The visitor looks at the casts and the calls of a body. A cast to a trait object records the
  type that is cast, a cast to a function pointer the function; a call is resolved, or recorded by
  the type of its callee.
\<close>

record ('c, 'cg) body_visitor =
  bv_rta :: "('c, 'cg) rta"
  bv_func_id :: func_id
  bv_mir :: "'c body"
  bv_generic_args :: "'c generic_args_e"
  encountered_statics :: "def_id set"

definition body_visitor_new :: "('c, 'cg) rta \<Rightarrow> func_id \<Rightarrow> 'c body \<Rightarrow> ('c, 'cg) body_visitor option" where
  "body_visitor_new rta func_id mir =
     do { func_ref \<leftarrow> get_function_reference (acx_functions (ra_acx rta)) func_id;
          Some \<lparr>bv_rta = rta, bv_func_id = func_id, bv_mir = mir, bv_generic_args = fr_generic_args func_ref,
                encountered_statics = {}\<rparr> }"

definition bv_specialize :: "('c, 'cg) rta_env \<Rightarrow> ('c, 'cg) body_visitor \<Rightarrow> 'c ty \<Rightarrow> 'c ty option" where
  "bv_specialize env v = specialize_generic_argument_type (re_tcx env) (re_fuel env) (bv_generic_args v) {}"

definition bv_specialize_args :: "('c, 'cg) rta_env \<Rightarrow> ('c, 'cg) body_visitor \<Rightarrow> 'c generic_args \<Rightarrow> 'c generic_args option" where
  "bv_specialize_args env v =
     specialize_generic_args (re_tcx env) (specialize_generic_argument_type (re_tcx env) (re_fuel env)) (bv_generic_args v) {}"

text \<open>The calls of the analysis from the visitor.\<close>

definition in_rta ::
    "(('c, 'cg) rta \<Rightarrow> ('c, 'cg) rta option) \<Rightarrow> ('c, 'cg) body_visitor \<Rightarrow> ('c, 'cg) body_visitor option" where
  "in_rta f v = map_option (\<lambda>r. v\<lparr>bv_rta := r\<rparr>) (f (bv_rta v))"

definition bv_callsite :: "('c, 'cg) body_visitor \<Rightarrow> location \<Rightarrow> rta_callsite" where
  "bv_callsite v location = base_call_site_new (bv_func_id v) location"

definition bv_static_call ::
    "('c, 'cg) rta_env \<Rightarrow> location \<Rightarrow> def_id \<Rightarrow> 'c generic_args \<Rightarrow> ('c, 'cg) body_visitor \<Rightarrow> ('c, 'cg) body_visitor option" where
  "bv_static_call env location d gen_args v =
     in_rta (\<lambda>r. map_option fst (rta_static_call env (bv_callsite v location) d gen_args r)) v"

subsection \<open>Types of operands\<close>

definition rta_projection_type ::
    "('c, 'cg) rta_env \<Rightarrow> ('c, 'cg) body_visitor \<Rightarrow> 'c place_elem \<Rightarrow> 'c ty \<Rightarrow> 'c ty option" where
  "rta_projection_type env v elem ty =
     (case elem of
        DerefElem \<Rightarrow> Some (get_dereferenced_type (re_tcx env) ty)
      | FieldElem _ elem_ty \<Rightarrow> bv_specialize env v elem_ty
      | IndexElem _ \<Rightarrow> Some (get_element_type ty)
      | ConstantIndexElem _ _ _ \<Rightarrow> Some (get_element_type ty)
      | DowncastElem variant_idx \<Rightarrow> get_downcast_type (re_tcx env) (re_fuel env) ty variant_idx
      | SubsliceElem _ _ _ \<Rightarrow> Some ty
      | OpaqueCastElem _ \<Rightarrow> Some ty
      | SubtypeElem _ \<Rightarrow> Some ty)"

definition rta_place_type :: "('c, 'cg) rta_env \<Rightarrow> ('c, 'cg) body_visitor \<Rightarrow> 'c place \<Rightarrow> 'c ty option" where
  "rta_place_type env v place =
     do { decl_ty \<leftarrow> nth_opt (local_decls (bv_mir v)) (pl_local place);
          local_ty \<leftarrow> bv_specialize env v decl_ty;
          fold_opt (rta_projection_type env v) (pl_projection place) local_ty }"

definition rta_visit_unevaluated_const ::
    "('c, 'cg) rta_env \<Rightarrow> def_id \<Rightarrow> 'c generic_args \<Rightarrow> nat option \<Rightarrow> ('c, 'cg) body_visitor \<Rightarrow> ('c, 'cg) body_visitor option" where
  "rta_visit_unevaluated_const env d unevaluated_args promoted v =
     (if promoted \<noteq> None then Some v
      else do {
        args \<leftarrow> bv_specialize_args env v unevaluated_args;
        if args \<noteq> [] then
          (let d = (case tcx_resolve (re_tcx env) RevealAll d args of Some (d', _) \<Rightarrow> d' | None \<Rightarrow> d) in
           Some (if tcx_is_mir_available (re_tcx env) d
                 then v\<lparr>encountered_statics := insert d (encountered_statics v)\<rparr> else v))
        else Some v })"

definition rta_visit_const_value ::
    "('c, 'cg) rta_env \<Rightarrow> const_value \<Rightarrow> ('c, 'cg) body_visitor \<Rightarrow> ('c, 'cg) body_visitor" where
  "rta_visit_const_value env val v =
     (case val of
        ScalarPtr alloc_id \<Rightarrow>
          (case be_global_alloc (pe_build (re_pe env)) alloc_id of
             Some (StaticAlloc d) \<Rightarrow> v\<lparr>encountered_statics := insert d (encountered_statics v)\<rparr>
           | _ \<Rightarrow> v)
      | _ \<Rightarrow> v)"

definition rta_const_type ::
    "('c, 'cg) rta_env \<Rightarrow> 'c mir_const \<Rightarrow> ('c, 'cg) body_visitor \<Rightarrow> (('c, 'cg) body_visitor \<times> 'c ty) option" where
  "rta_const_type env c v =
     do { v \<leftarrow> (case c of
                  TypeConst _ _ \<Rightarrow> Some v
                | UnevaluatedConst d args promoted _ \<Rightarrow> rta_visit_unevaluated_const env d args promoted v
                | ValConst val _ \<Rightarrow> Some (rta_visit_const_value env val v));
          ty \<leftarrow> bv_specialize env v (const_ty c);
          Some (v, ty) }"

definition rta_operand_type ::
    "('c, 'cg) rta_env \<Rightarrow> 'c operand \<Rightarrow> ('c, 'cg) body_visitor \<Rightarrow> (('c, 'cg) body_visitor \<times> 'c ty) option" where
  "rta_operand_type env operand v =
     do { (v, ty) \<leftarrow> (case operand of
                          CopyOp place \<Rightarrow> map_option (Pair v) (rta_place_type env v place)
                        | MoveOp place \<Rightarrow> map_option (Pair v) (rta_place_type env v place)
                        | ConstantOp c \<Rightarrow> rta_const_type env c v);
          case ty of
            FnDef d gen_args \<Rightarrow> do {
              (d, gen_args) \<leftarrow> resolve_fn_def (re_tcx env) d gen_args;
              Some (v, FnDef d gen_args) }
          | _ \<Rightarrow> Some (v, ty) }"

subsection \<open>Casts\<close>

definition record_cast :: "('c, 'cg) rta_env \<Rightarrow> 'c ty \<Rightarrow> 'c ty \<Rightarrow> ('c, 'cg) rta \<Rightarrow> ('c, 'cg) rta" where
  "record_cast env src_ty tgt_ty r =
     (if \<not> is_trait tgt_ty then r
      else if is_trait src_ty then add_trait_upcasting_relation env src_ty tgt_ty r
      else add_possible_concrete_type env tgt_ty src_ty r)"

text \<open>An unsizing cast of a structure casts its generic arguments.\<close>

definition record_args_cast ::
    "('c, 'cg) rta_env \<Rightarrow> ('c ty, 'c) generic_arg_kind \<times> ('c ty, 'c) generic_arg_kind \<Rightarrow> ('c, 'cg) rta \<Rightarrow> ('c, 'cg) rta" where
  "record_args_cast env = (\<lambda>(tgt_generic_arg, src_generic_arg) r.
     (case (tgt_generic_arg, src_generic_arg) of
        (TypeKind tgt_generic_ty, TypeKind src_generic_ty) \<Rightarrow> record_cast env src_generic_ty tgt_generic_ty r
      | _ \<Rightarrow> r))"

definition rta_visit_cast ::
    "('c, 'cg) rta_env \<Rightarrow> cast_kind \<Rightarrow> 'c ty \<Rightarrow> 'c ty \<Rightarrow> ('c, 'cg) rta \<Rightarrow> ('c, 'cg) rta option" where
  "rta_visit_cast env kind specialized_ty source_ty r =
     (case specialized_ty of
        RawPtr ty _ \<Rightarrow> Some (record_cast env (get_dereferenced_type (re_tcx env) source_ty) ty r)
      | RefTy _ ty _ \<Rightarrow> Some (record_cast env (get_dereferenced_type (re_tcx env) source_ty) ty r)
      | FnPtrTy _ \<Rightarrow>
          (case source_ty of
             FnDef _ _ \<Rightarrow> add_possible_fnptr_target env specialized_ty source_ty r
           | Closure _ _ \<Rightarrow> add_possible_fnptr_target env specialized_ty source_ty r
           | Coroutine _ _ \<Rightarrow> add_possible_fnptr_target env specialized_ty source_ty r
           | _ \<Rightarrow> Some r)
      | Adt _ tgt_generic_args \<Rightarrow>
          (if kind = PointerCoercion Unsize then
             (case source_ty of
                Adt _ src_generic_args \<Rightarrow> Some (fold (record_args_cast env) (zip tgt_generic_args src_generic_args) r)
              | _ \<Rightarrow> Some r)
           else Some r)
      | _ \<Rightarrow> Some r)"

definition rta_visit_statement ::
    "('c, 'cg) rta_env \<Rightarrow> 'c statement \<Rightarrow> ('c, 'cg) body_visitor \<Rightarrow> ('c, 'cg) body_visitor option" where
  "rta_visit_statement env statement v =
     (case statement of
        Assign _ (CastAs kind operand ty) \<Rightarrow> do {
          specialized_ty \<leftarrow> bv_specialize env v ty;
          (v, source_ty) \<leftarrow> rta_operand_type env operand v;
          in_rta (rta_visit_cast env kind specialized_ty source_ty) v }
      | _ \<Rightarrow> Some v)"

subsection \<open>Calls\<close>

definition rta_inline_call ::
    "('c, 'cg) rta_env \<Rightarrow> def_id \<Rightarrow> 'c generic_args \<Rightarrow> location \<Rightarrow> ('c, 'cg) body_visitor \<Rightarrow> ('c, 'cg) body_visitor option" where
  "rta_inline_call env callee_def_id gen_args location v =
     do { first_subst_ty \<leftarrow> next_type gen_args;
          let callsite = bv_callsite v location;
          case first_subst_ty of
            FnDef d substs \<Rightarrow> do {
              (d, substs) \<leftarrow> resolve_fn_def (re_tcx env) d substs;
              bv_static_call env location d substs v }
          | Closure d substs \<Rightarrow> bv_static_call env location d substs v
          | Coroutine d substs \<Rightarrow> bv_static_call env location d substs v
          | FnPtrTy _ \<Rightarrow> in_rta (\<lambda>r. Some (rta_add_fnptr_callsite env callsite first_subst_ty r)) v
          | DynamicTy _ _ \<Rightarrow> in_rta (rta_add_dyn_fntrait_callsite env callsite callee_def_id gen_args) v
          | _ \<Rightarrow> Some v }"

text \<open>Questions to the cache of known names.\<close>

definition bv_ask ::
    "(known_names_cache \<Rightarrow> known_names_cache \<times> bool) \<Rightarrow> ('c, 'cg) body_visitor \<Rightarrow> ('c, 'cg) body_visitor \<times> bool" where
  "bv_ask f v =
     (case f (acx_known_names (ra_acx (bv_rta v))) of
        (cache, answer) \<Rightarrow>
          (v\<lparr>bv_rta := (bv_rta v)\<lparr>ra_acx := (ra_acx (bv_rta v))\<lparr>acx_known_names := cache\<rparr>\<rparr>\<rparr>, answer))"

definition rta_resolve_fntrait_call ::
    "('c, 'cg) rta_env \<Rightarrow> def_id \<Rightarrow> 'c generic_args \<Rightarrow> location \<Rightarrow> ('c, 'cg) body_visitor \<Rightarrow> ('c, 'cg) body_visitor option" where
  "rta_resolve_fntrait_call env callee_def_id gen_args location v =
     (if \<not> tcx_args_normalize (re_tcx env) gen_args then Some v
      else
        (case tcx_resolve (re_tcx env) RevealAll callee_def_id gen_args of
           None \<Rightarrow> Some v
         | Some (resolved_def_id, instance_args) \<Rightarrow>
             (if be_is_closure (pe_build (re_pe env)) resolved_def_id
              then rta_inline_call env callee_def_id gen_args location v
              else if \<not> tcx_is_mir_available (re_tcx env) resolved_def_id then
                (case bv_ask (\<lambda>cache. def_in_ops_func_namespace (re_tcx env) cache resolved_def_id) v of
                   (v, True) \<Rightarrow> rta_inline_call env callee_def_id gen_args location v
                 | (v, False) \<Rightarrow> Some v)
              else bv_static_call env location resolved_def_id instance_args v)))"

definition rta_special_call ::
    "('c, 'cg) rta_env \<Rightarrow> def_id \<Rightarrow> 'c generic_args \<Rightarrow> location \<Rightarrow> ('c, 'cg) body_visitor \<Rightarrow> ('c, 'cg) body_visitor option" where
  "rta_special_call env callee_def_id gen_args location v =
     (case acx_known_name_for (re_tcx env) (ra_acx (bv_rta v)) callee_def_id of (acx, name) \<Rightarrow> do {
        let v = v\<lparr>bv_rta := (bv_rta v)\<lparr>ra_acx := acx\<rparr>\<rparr>;
        v \<leftarrow> (if name = StdThreadBuilderSpawnUnchecked then do {
                 fn_once_defid \<leftarrow> be_fn_once_trait (pe_build (re_pe env));
                 rta_inline_call env fn_once_defid gen_args (fst location, snd location + 1) v }
               else Some v);
        resolved \<leftarrow> try_to_devirtualize (re_tcx env) callee_def_id gen_args;
        let (d, gen_args) = (case resolved of Some callee \<Rightarrow> callee | None \<Rightarrow> (callee_def_id, gen_args));
        (r, callee_func_id) \<leftarrow> rta_static_call env (bv_callsite v location) d gen_args (bv_rta v);
        Some (v\<lparr>bv_rta := r\<lparr>specially_handled_functions := insert callee_func_id (specially_handled_functions r)\<rparr>\<rparr>) })"

definition rta_resolve_call ::
    "('c, 'cg) rta_env \<Rightarrow> def_id \<Rightarrow> 'c generic_args \<Rightarrow> location \<Rightarrow> ('c, 'cg) body_visitor \<Rightarrow> ('c, 'cg) body_visitor option" where
  "rta_resolve_call env callee_def_id gen_args location v =
     do { gen_args \<leftarrow> bv_specialize_args env v gen_args;
          case is_specially_handled_function (re_tcx env) (ra_acx (bv_rta v)) callee_def_id of (acx, special) \<Rightarrow> do {
            let v = v\<lparr>bv_rta := (bv_rta v)\<lparr>ra_acx := acx\<rparr>\<rparr>;
            if special then rta_special_call env callee_def_id gen_args location v
            else
              (case bv_ask (\<lambda>cache. is_std_ops_fntrait_call (re_tcx env) cache callee_def_id) v of
                 (v, True) \<Rightarrow> rta_resolve_fntrait_call env callee_def_id gen_args location v
               | (v, False) \<Rightarrow>
                   (if \<not> is_trait_method (re_tcx env) callee_def_id
                    then bv_static_call env location callee_def_id gen_args v
                    else do {
                      resolved \<leftarrow> try_to_devirtualize (re_tcx env) callee_def_id gen_args;
                      case resolved of
                        Some (d, substs) \<Rightarrow> bv_static_call env location d substs v
                      | None \<Rightarrow> do {
                          dynamic \<leftarrow> is_dynamic_call (re_tcx env) callee_def_id gen_args;
                          if dynamic
                          then in_rta (rta_add_dyn_callsite env (bv_callsite v location) callee_def_id gen_args) v
                          else Some v } })) } }"

definition rta_visit_call ::
    "('c, 'cg) rta_env \<Rightarrow> 'c operand \<Rightarrow> location \<Rightarrow> ('c, 'cg) body_visitor \<Rightarrow> ('c, 'cg) body_visitor option" where
  "rta_visit_call env func location v =
     (case func of
        ConstantOp constant \<Rightarrow>
          (case const_ty constant of
             Closure d gen_args \<Rightarrow> rta_resolve_call env d gen_args location v
           | FnDef d gen_args \<Rightarrow> rta_resolve_call env d gen_args location v
           | Coroutine d gen_args \<Rightarrow> rta_resolve_call env d gen_args location v
           | _ \<Rightarrow> Some v)
      | _ \<Rightarrow> do {
          place \<leftarrow> operand_place func;
          fn_item_ty \<leftarrow> rta_place_type env v place;
          case fn_item_ty of
            FnDef d gen_args \<Rightarrow> rta_resolve_call env d gen_args location v
          | FnPtrTy _ \<Rightarrow> in_rta (\<lambda>r. Some (rta_add_fnptr_callsite env (bv_callsite v location) fn_item_ty r)) v
          | _ \<Rightarrow> None })"

definition rta_visit_terminator ::
    "('c, 'cg) rta_env \<Rightarrow> location \<Rightarrow> 'c terminator \<Rightarrow> ('c, 'cg) body_visitor \<Rightarrow> ('c, 'cg) body_visitor option" where
  "rta_visit_terminator env location kind v =
     (case kind of
        CallTerminator func args destination \<Rightarrow> rta_visit_call env func location v
      | _ \<Rightarrow> Some v)"

subsection \<open>Bodies\<close>

definition rta_visit_basic_block ::
    "('c, 'cg) rta_env \<Rightarrow> nat \<times> 'c statement list \<times> 'c terminator option \<Rightarrow> ('c, 'cg) body_visitor \<Rightarrow>
     ('c, 'cg) body_visitor option" where
  "rta_visit_basic_block env = (\<lambda>(bb, statements, terminator) v.
     do { v \<leftarrow> fold_opt (rta_visit_statement env) statements v;
          v \<leftarrow> (case terminator of
                   Some kind \<Rightarrow> rta_visit_terminator env (bb, length statements) kind v
                 | None \<Rightarrow> Some v);
          Some (v\<lparr>bv_rta := (bv_rta v)\<lparr>num_stmts := num_stmts (bv_rta v) + (length statements + 1)\<rparr>\<rparr>) })"

definition rta_visit_body :: "('c, 'cg) rta_env \<Rightarrow> ('c, 'cg) body_visitor \<Rightarrow> ('c, 'cg) body_visitor option" where
  "rta_visit_body env v = fold_opt (rta_visit_basic_block env) (enumerate 0 (basic_blocks (bv_mir v))) v"

text \<open>\<open>BodyVisitor::new(self, func_id, mir).visit_body()\<close>, after which the function is visited.\<close>

definition rta_visit_function :: "('c, 'cg) rta_env \<Rightarrow> func_id \<Rightarrow> 'c body \<Rightarrow> ('c, 'cg) rta \<Rightarrow> ('c, 'cg) rta option" where
  "rta_visit_function env func_id mir r =
     do { v \<leftarrow> body_visitor_new r func_id mir;
          v \<leftarrow> rta_visit_body env v;
          Some ((bv_rta v)\<lparr>visited_functions := insert func_id (visited_functions (bv_rta v))\<rparr>) }"

subsection \<open>The analysis (\<open>src/rta/rta.rs\<close>)\<close>

definition rta_promote_constant ::
    "('c, 'cg) rta_env \<Rightarrow> def_id \<Rightarrow> 'c generic_args_e \<Rightarrow> nat \<times> 'c body \<Rightarrow> ('c, 'cg) rta \<Rightarrow> ('c, 'cg) rta option" where
  "rta_promote_constant env d gen_args = (\<lambda>(ordinal, constant_mir) r.
     do { (acx, func_id) \<leftarrow> acx_get_promoted_id (be_text (pe_build (re_pe env))) (ra_acx r) d gen_args ordinal;
          let r = r\<lparr>ra_acx := acx\<rparr>;
          if func_id \<in> visited_functions r then Some r else rta_visit_function env func_id constant_mir r })"

definition rta_promote_constants ::
    "('c, 'cg) rta_env \<Rightarrow> def_id \<Rightarrow> 'c generic_args_e \<Rightarrow> ('c, 'cg) rta \<Rightarrow> ('c, 'cg) rta option" where
  "rta_promote_constants env d gen_args r =
     fold_opt (rta_promote_constant env d gen_args) (enumerate 0 (promoted_mir (re_pe env) d)) r"

text \<open>No code calls \<open>visit_static\<close>.\<close>

definition rta_visit_static :: "('c, 'cg) rta_env \<Rightarrow> def_id \<Rightarrow> ('c, 'cg) rta \<Rightarrow> ('c, 'cg) rta option" where
  "rta_visit_static env d r =
     (if \<not> tcx_is_mir_available (re_tcx env) d then Some r
      else do {
        (r, func_id) \<leftarrow> rta_func_id env d [] r;
        if func_id \<in> visited_functions r then Some r
        else rta_visit_function env func_id (instance_mir (re_pe env) d) r })"

definition mark_visited :: "func_id \<Rightarrow> ('c, 'cg) rta \<Rightarrow> ('c, 'cg) rta" where
  "mark_visited func_id r = r\<lparr>visited_functions := insert func_id (visited_functions r)\<rparr>"

definition process_reachable_function ::
    "('c, 'cg) rta_env \<Rightarrow> func_id \<Rightarrow> ('c, 'cg) rta \<Rightarrow> ('c, 'cg) rta option" where
  "process_reachable_function env func_id r =
     (if func_id \<in> visited_functions r then Some r
      else do {
        func_ref \<leftarrow> get_function_reference (acx_functions (ra_acx r)) func_id;
        let d = fr_def_id func_ref;
        if func_id \<in> specially_handled_functions r then Some (mark_visited func_id r)
        else if \<not> tcx_is_mir_available (re_tcx env) d then Some (mark_visited func_id r)
        else do {
          r \<leftarrow> rta_promote_constants env d (fr_generic_args func_ref) r;
          rta_visit_function env func_id (optimized_mir (re_pe env) d) r } })"

text \<open>The flag says whether a function was read from the queue; the loop takes fuel.\<close>

fun process_reachable_functions ::
    "('c, 'cg) rta_env \<Rightarrow> nat \<Rightarrow> bool \<Rightarrow> ('c, 'cg) rta \<Rightarrow> (('c, 'cg) rta \<times> bool) option" where
  "process_reachable_functions env m has_new_functions r =
     (if ra_rf_iter r < length (reach_funcs (ra_call_graph r)) then
        (case m of
           0 \<Rightarrow> None
         | Suc m \<Rightarrow> do {
             r \<leftarrow> process_reachable_function env (reach_funcs (ra_call_graph r) ! ra_rf_iter r)
                    (r\<lparr>ra_rf_iter := Suc (ra_rf_iter r)\<rparr>);
             process_reachable_functions env m True r })
      else Some (r, has_new_functions))"

fun iteratively_process_reachable_functions ::
    "('c, 'cg) rta_env \<Rightarrow> nat \<Rightarrow> nat \<Rightarrow> nat \<Rightarrow> ('c, 'cg) rta \<Rightarrow> ('c, 'cg) rta option" where
  "iteratively_process_reachable_functions env m n 0 r = None"
| "iteratively_process_reachable_functions env m n (Suc k) r =
     do { (r, has_new_functions) \<leftarrow> process_reachable_functions env m False r;
          if has_new_functions then do {
            r \<leftarrow> solve_trait_upcasting env n r;
            r \<leftarrow> solve_dyn_callsites env r;
            r \<leftarrow> solve_dyn_fntrait_callsites env r;
            r \<leftarrow> solve_fnptr_callsites env r;
            iteratively_process_reachable_functions env m n k r }
          else Some r }"

definition rta_analyze :: "('c, 'cg) rta_env \<Rightarrow> nat \<Rightarrow> nat \<Rightarrow> nat \<Rightarrow> ('c, 'cg) rta \<Rightarrow> ('c, 'cg) rta option" where
  "rta_analyze env m n k r =
     do { (t, entry_func_id) \<leftarrow>
            get_or_add_function_reference (be_text (pe_build (re_pe env))) (acx_functions (ra_acx r))
              (new_function_reference (acx_entry_point (ra_acx r)) []);
          iteratively_process_reachable_functions env m n k
            (r\<lparr>ra_acx := (ra_acx r)\<lparr>acx_functions := t\<rparr>,
               ra_call_graph := cg_add_node (re_gops env) (ra_call_graph r) entry_func_id\<rparr>) }"

text \<open>What the pre-analysis takes from it: the context it leaves, and the call graph.\<close>

definition rta_call_graph ::
    "('c, 'cg) rta_env \<Rightarrow> nat \<Rightarrow> nat \<Rightarrow> nat \<Rightarrow> 'c analysis_context \<Rightarrow>
     ('c analysis_context \<times> ('cg, func_id, rta_callsite) call_graph) option" where
  "rta_call_graph env m n k acx =
     map_option (\<lambda>r. (ra_acx r, ra_call_graph r)) (rta_analyze env m n k (rta_new env acx))"

end
