(* ===== verification/Rta_Upcasts.thy ===== *)
theory Rta_Upcasts
  imports Rta
begin

section \<open>Upcasts of trait objects reach a fixpoint\<close>

text \<open>
  The loop of \<open>solve_trait_upcasting\<close> ends, and gives each trait object the concrete types of all
  that are cast to it, directly or over others.
\<close>

definition upcasts :: "('c ty, 'c ty) set_mapping \<Rightarrow> ('c ty \<times> 'c ty) set" where
  "upcasts relations = {(s, t). t \<in> or_default relations s}"

definition upcast_types :: "('c ty, 'c ty) set_mapping \<Rightarrow> ('c ty, 'c ty) set_mapping \<Rightarrow> 'c ty \<Rightarrow> 'c ty set" where
  "upcast_types relations types t = (\<Union>s \<in> {s. (s, t) \<in> (upcasts relations)\<^sup>*}. or_default types s)"

definition relations_iterated :: "('c, 'cg) rta_env \<Rightarrow> ('c ty, 'c ty) set_mapping \<Rightarrow> bool" where
  "relations_iterated env relations \<longleftrightarrow>
     set (type_order env (Mapping.keys relations)) = Mapping.keys relations \<and>
     (\<forall>s \<in> Mapping.keys relations. set (type_order env (or_default relations s)) = or_default relations s)"

lemma or_default_lookup: "Mapping.lookup m k = Some v \<Longrightarrow> or_default m k = v"
  by (simp add: Mapping.lookup_default_def)

lemma or_default_missing: "k \<notin> Mapping.keys m \<Longrightarrow> or_default m k = {}"
  by (simp add: Mapping.lookup_default_def keys_dom_lookup domIff)

lemma or_default_empty [simp]: "or_default Mapping.empty k = {}"
  by (simp add: Mapping.lookup_default_empty)

lemma or_default_update [simp]:
  "or_default (Mapping.update k v m) j = (if j = k then v else or_default m j)"
  by (simp add: Mapping.lookup_default_def)

lemma or_default_insert [simp]:
  "or_default (default_insert m k v) j = (if j = k then insert v (or_default m k) else or_default m j)"
  by (simp add: default_insert_def)

lemma upcasts_finite: "relations_iterated env relations \<Longrightarrow> finite (upcasts relations)"
proof -
  assume it: "relations_iterated env relations"
  have "upcasts relations \<subseteq> (SIGMA s : Mapping.keys relations. or_default relations s)"
    using or_default_missing by (fastforce simp: upcasts_def)
  moreover have "finite (Mapping.keys relations)" "\<And>s. s \<in> Mapping.keys relations \<Longrightarrow> finite (or_default relations s)"
    using it List.finite_set unfolding relations_iterated_def by metis+
  then have "finite (SIGMA s : Mapping.keys relations. or_default relations s)" by blast
  ultimately show ?thesis by (rule finite_subset)
qed

text \<open>A pass extends the types below any solution, and its flag tells whether it did.\<close>

definition pass_le ::
    "('c ty, 'c ty) set_mapping \<Rightarrow> ('c ty, 'c ty) set_mapping \<times> bool \<Rightarrow> ('c ty, 'c ty) set_mapping \<times> bool \<Rightarrow> bool" where
  "pass_le relations = (\<lambda>(types, ch) (types', ch').
     (\<forall>t. or_default types t \<subseteq> or_default types' t) \<and> (ch \<longrightarrow> ch') \<and>
     (\<not> ch' \<longrightarrow> (\<forall>t. or_default types' t = or_default types t)) \<and>
     (ch' \<and> \<not> ch \<longrightarrow> (\<exists>t \<in> Range (upcasts relations). or_default types t \<subset> or_default types' t)))"

lemma pass_le_refl: "pass_le relations s s"
  by (cases s) (simp add: pass_le_def)

lemma pass_le_trans: "pass_le relations s t \<Longrightarrow> pass_le relations t u \<Longrightarrow> pass_le relations s u"
  by (cases s; cases t; cases u) (auto simp: pass_le_def; blast)

definition pass_done :: "'c ty \<Rightarrow> 'c ty \<Rightarrow> ('c ty, 'c ty) set_mapping \<times> bool \<Rightarrow> bool" where
  "pass_done s t = (\<lambda>(types, ch). ch \<or> or_default types s \<subseteq> or_default types t)"

lemma pass_done_mono: "pass_le relations a b \<Longrightarrow> pass_done s t a \<Longrightarrow> pass_done s t b"
  by (cases a; cases b) (auto simp: pass_le_def pass_done_def)

definition pass_below :: "('c ty \<Rightarrow> 'c ty set) \<Rightarrow> ('c ty, 'c ty) set_mapping \<times> bool \<Rightarrow> bool" where
  "pass_below sol = (\<lambda>(types, ch). \<forall>t. or_default types t \<subseteq> sol t)"

lemma upcast_from_spec:
  assumes it: "relations_iterated env relations" and closed: "\<And>s t. (s, t) \<in> upcasts relations \<Longrightarrow> sol s \<subseteq> sol t"
    and s: "s \<in> Mapping.keys relations" and below: "pass_below sol a"
  shows "pass_below sol (upcast_from env relations s a) \<and> pass_le relations a (upcast_from env relations s a) \<and>
    (\<forall>t \<in> or_default relations s. pass_done s t (upcast_from env relations s a))"
proof -
  obtain types ch where a: "a = (types, ch)" by fastforce
  show ?thesis
  proof (cases "Mapping.lookup types s")
    case None
    then have "or_default types s = {}" by (simp add: Mapping.lookup_default_def)
    then show ?thesis using below None by (auto simp: a upcast_from_def pass_done_def pass_le_refl)
  next
    case (Some src)
    have src: "or_default types s = src" "src \<subseteq> sol s"
      using below or_default_lookup [OF Some] by (auto simp: a pass_below_def)
    have targets: "set (type_order env (or_default relations s)) = or_default relations s"
      using it s by (simp add: relations_iterated_def)
    define end_of where "end_of = fold (upcast_to src) (type_order env (or_default relations s)) a"
    have each: "pass_below sol end_of \<and> pass_le relations a end_of \<and>
      (\<forall>t \<in> set (type_order env (or_default relations s)). (\<lambda>t (types, ch). ch \<or> src \<subseteq> or_default types t) t end_of)"
      unfolding end_of_def
    proof (rule fold_each [where I = "pass_below sol" and le = "pass_le relations"])
      fix t b assume t: "t \<in> set (type_order env (or_default relations s))" and b: "pass_below sol b"
      have "(s, t) \<in> upcasts relations" using t targets by (simp add: upcasts_def)
      with closed src have "src \<subseteq> sol t" "t \<in> Range (upcasts relations)" by blast+
      then show "pass_below sol (upcast_to src t b) \<and> pass_le relations b (upcast_to src t b) \<and>
          (\<lambda>t (types, ch). ch \<or> src \<subseteq> or_default types t) t (upcast_to src t b)"
        using b by (cases b) (auto simp: upcast_to_def Let_def pass_below_def pass_le_def)
    next
      show "pass_below sol a" by (rule below)
    next
      show "(\<lambda>t (types, ch). ch \<or> src \<subseteq> or_default types t) t b'"
        if "pass_le relations b b'" "(\<lambda>t (types, ch). ch \<or> src \<subseteq> or_default types t) t b" for t b b'
        using that by (cases b; cases b') (auto simp: pass_le_def)
    qed (fact pass_le_refl, fact pass_le_trans)
    have "upcast_from env relations s a = end_of" by (simp add: a upcast_from_def Some end_of_def)
    moreover have "pass_done s t end_of" if "t \<in> or_default relations s" for t
      using each that targets src by (cases end_of) (simp add: a pass_done_def pass_le_def, blast)
    ultimately show ?thesis using each by simp
  qed
qed

lemma upcast_pass_spec:
  assumes it: "relations_iterated env relations" and closed: "\<And>s t. (s, t) \<in> upcasts relations \<Longrightarrow> sol s \<subseteq> sol t"
    and below: "\<And>t. or_default types t \<subseteq> sol t" and r: "upcast_pass env relations types = (types', ch)"
  shows "or_default types' t \<subseteq> sol t" "or_default types t \<subseteq> or_default types' t"
    and "\<not> ch \<Longrightarrow> or_default types' t = or_default types t \<and> ((s, t) \<in> upcasts relations \<longrightarrow> or_default types' s \<subseteq> or_default types' t)"
    and "ch \<Longrightarrow> \<exists>t \<in> Range (upcasts relations). or_default types t \<subset> or_default types' t"
proof -
  have "pass_below sol (types', ch) \<and> pass_le relations (types, False) (types', ch) \<and>
      (\<forall>s \<in> set (type_order env (Mapping.keys relations)). \<forall>t \<in> or_default relations s. pass_done s t (types', ch))"
    unfolding r [symmetric] upcast_pass_def
  proof (rule fold_each [where I = "pass_below sol" and le = "pass_le relations"])
    show "pass_below sol (types, False)" using below by (simp add: pass_below_def)
  next
    show "pass_below sol (upcast_from env relations s a) \<and> pass_le relations a (upcast_from env relations s a) \<and>
        (\<forall>t \<in> or_default relations s. pass_done s t (upcast_from env relations s a))"
      if "s \<in> set (type_order env (Mapping.keys relations))" "pass_below sol a" for s a
      by (rule upcast_from_spec [OF it closed]) (use that it in \<open>auto simp: relations_iterated_def\<close>)
  next
    show "\<forall>t \<in> or_default relations s. pass_done s t b"
      if "pass_le relations a b" "\<forall>t \<in> or_default relations s. pass_done s t a" for s a b
      using that pass_done_mono by blast
  qed (fact pass_le_refl, fact pass_le_trans)
  moreover have "\<forall>s t. (s, t) \<in> upcasts relations \<longrightarrow> s \<in> Mapping.keys relations"
    using or_default_missing by (fastforce simp: upcasts_def)
  ultimately have pass: "\<forall>t. or_default types' t \<subseteq> sol t" "pass_le relations (types, False) (types', ch)"
    "\<forall>s t. (s, t) \<in> upcasts relations \<longrightarrow> pass_done s t (types', ch)"
    using it by (auto simp: pass_below_def relations_iterated_def upcasts_def)
  show "or_default types' t \<subseteq> sol t" "or_default types t \<subseteq> or_default types' t"
    "ch \<Longrightarrow> \<exists>t \<in> Range (upcasts relations). or_default types t \<subset> or_default types' t"
    using pass(1,2) by (simp_all add: pass_le_def)
  show "\<not> ch \<Longrightarrow> or_default types' t = or_default types t \<and> ((s, t) \<in> upcasts relations \<longrightarrow> or_default types' s \<subseteq> or_default types' t)"
    using pass(2,3) by (simp add: pass_le_def pass_done_def)
qed

text \<open>The least solution, and the number of types it may still add.\<close>

lemma upcast_types_least:
  assumes "\<And>s t. (s, t) \<in> upcasts relations \<Longrightarrow> sol s \<subseteq> sol t" "\<And>t. or_default types t \<subseteq> sol t"
  shows "upcast_types relations types t \<subseteq> sol t"
proof -
  have "(s, t) \<in> (upcasts relations)\<^sup>* \<Longrightarrow> sol s \<subseteq> sol t" for s
    by (induction rule: rtrancl_induct) (use assms(1) in blast)+
  then show ?thesis using assms(2) by (fastforce simp: upcast_types_def)
qed

lemma upcast_types_solution:
  "or_default types t \<subseteq> upcast_types relations types t"
  "(s, t) \<in> upcasts relations \<Longrightarrow> upcast_types relations types s \<subseteq> upcast_types relations types t"
  by (auto simp: upcast_types_def intro: rtrancl_into_rtrancl)

definition upcasts_left :: "('c ty, 'c ty) set_mapping \<Rightarrow> 'c ty set \<Rightarrow> ('c ty, 'c ty) set_mapping \<Rightarrow> nat" where
  "upcasts_left relations U types = (\<Sum>t \<in> Range (upcasts relations). card (U - or_default types t))"

lemma upcast_loop_ends:
  assumes it: "relations_iterated env relations" and sol: "\<And>s t. (s, t) \<in> upcasts relations \<Longrightarrow> sol s \<subseteq> sol t"
    "\<And>t. or_default types t \<subseteq> sol t" "\<And>t. sol t \<subseteq> U" and fin: "finite U" and fuel: "upcasts_left relations U types < n"
  shows "\<exists>types'. upcast_loop env relations n types = Some types' \<and>
    (\<forall>t. or_default types t \<subseteq> or_default types' t \<and> or_default types' t \<subseteq> sol t) \<and>
    (\<forall>(s, t) \<in> upcasts relations. or_default types' s \<subseteq> or_default types' t)"
  using sol(2) fuel
proof (induction n arbitrary: types)
  case (Suc n)
  obtain types' ch where r: "upcast_pass env relations types = (types', ch)" by fastforce
  note pass = upcast_pass_spec [OF it sol(1) Suc.prems(1) r]
  show ?case
  proof (cases ch)
    case False
    have "or_default types' s \<subseteq> or_default types' t" if "(s, t) \<in> upcasts relations" for s t
      using pass(3) [of t s] False that by blast
    moreover have "or_default types t \<subseteq> or_default types' t \<and> or_default types' t \<subseteq> sol t" for t
      using pass(1,2) by blast
    ultimately show ?thesis using False r by fastforce
  next
    case True
    obtain t where t: "t \<in> Range (upcasts relations)" "or_default types t \<subset> or_default types' t" using pass(4) True by blast
    have more: "card (U - or_default types' t) \<le> card (U - or_default types t)" for t
      using pass(2) fin by (simp add: Diff_mono card_mono)
    have "or_default types' t \<subseteq> U" using pass(1) sol(3) by blast
    then have "U - or_default types' t \<subset> U - or_default types t" using t(2) by blast
    then have "card (U - or_default types' t) < card (U - or_default types t)" using fin by (simp add: psubset_card_mono)
    then have "upcasts_left relations U types' < upcasts_left relations U types"
      unfolding upcasts_left_def using t(1) more
      by (intro sum_strict_mono_ex1) (use upcasts_finite [OF it] in \<open>auto simp: finite_Range\<close>)
    then have "upcasts_left relations U types' < n" using Suc.prems(2) by simp
    from Suc.IH [OF pass(1) this] show ?thesis using r True pass(2) by (fastforce simp: subset_iff)
  qed
qed simp

end
