(* ===== verification/Rta_Invariant.thy ===== *)
theory Rta_Invariant
  imports Rta_Visitor Rta_Upcasts
begin

section \<open>What the rapid type analysis has found when it ends\<close>

text \<open>
  A run only adds functions and calls, and each of the solving steps adds the calls it stands
  for. The rules are stated for the outcome of each operation, as for the translation of bodies.
\<close>

subsection \<open>Growth\<close>

definition rta_ok :: "('c, 'cg) rta_env \<Rightarrow> ('cg \<Rightarrow> bool) \<Rightarrow> ('c, 'cg) rta \<Rightarrow> bool" where
  "rta_ok env g_ok r \<longleftrightarrow> table_ok (acx_functions (ra_acx r)) \<and> cg_ok (re_gops env) g_ok (ra_call_graph r)"

definition rta_callees :: "('c, 'cg) rta_env \<Rightarrow> ('c, 'cg) rta \<Rightarrow> rta_callsite \<Rightarrow> func_id set" where
  "rta_callees env r callsite = callees_of (re_gops env) (ra_call_graph r) callsite"

definition rta_grows :: "('c, 'cg) rta_env \<Rightarrow> ('c, 'cg) rta \<Rightarrow> ('c, 'cg) rta \<Rightarrow> bool" where
  "rta_grows env r r' \<longleftrightarrow>
     acx_grows (ra_acx r) (ra_acx r') \<and>
     prefix (reach_funcs (ra_call_graph r)) (reach_funcs (ra_call_graph r')) \<and>
     (\<forall>callsite. rta_callees env r callsite \<subseteq> rta_callees env r' callsite) \<and>
     ra_rf_iter r' = ra_rf_iter r \<and> visited_functions r \<subseteq> visited_functions r'"

lemma rta_grows_refl: "rta_grows env r r"
  by (simp add: rta_grows_def)

lemma rta_grows_trans: "rta_grows env r s \<Longrightarrow> rta_grows env s t \<Longrightarrow> rta_grows env r t"
  unfolding rta_grows_def
  by (intro conjI allI; elim conjE) (simp_all add: acx_grows_trans prefix_order.trans, (blast intro: acx_grows_trans prefix_order.trans)+)

text \<open>A step of the solving phase records nothing but calls through function pointers.\<close>

definition rta_solves :: "('c, 'cg) rta_env \<Rightarrow> ('c, 'cg) rta \<Rightarrow> ('c, 'cg) rta \<Rightarrow> bool" where
  "rta_solves env r r' \<longleftrightarrow> rta_grows env r r' \<and>
     dyn_callsites r' = dyn_callsites r \<and> dyn_fntrait_callsites r' = dyn_fntrait_callsites r \<and>
     dynamic_to_possible_concrete_types r' = dynamic_to_possible_concrete_types r \<and>
     fnptr_sig_to_possible_targets r' = fnptr_sig_to_possible_targets r \<and>
     trait_upcasting_relations r' = trait_upcasting_relations r \<and>
     (\<forall>t. or_default (ra_fnptr_callsites r) t \<subseteq> or_default (ra_fnptr_callsites r') t) \<and>
     visited_functions r' = visited_functions r"

lemma rta_solves_refl: "rta_solves env r r"
  by (simp add: rta_solves_def rta_grows_refl)

lemma rta_solves_trans:
  assumes "rta_solves env r s" "rta_solves env s t"
  shows "rta_solves env r t"
proof -
  have "rta_grows env r t" using assms rta_grows_trans unfolding rta_solves_def by blast
  moreover have "or_default (ra_fnptr_callsites r) x \<subseteq> or_default (ra_fnptr_callsites t) x" for x
    using assms unfolding rta_solves_def by blast
  ultimately show ?thesis using assms by (simp add: rta_solves_def)
qed

text \<open>The call graph has the call of an instance.\<close>

definition instance_ref :: "('c, 'cg) rta_env \<Rightarrow> def_id \<Rightarrow> 'c generic_args \<Rightarrow> ('c ty, 'c) function_reference" where
  "instance_ref env d gen_args =
     new_function_reference d
       (customize_generic_args (tcx_eval_usize (re_tcx env)) (be_from_usize (pe_build (re_pe env))) gen_args)"

definition calls_instance :: "('c, 'cg) rta_env \<Rightarrow> ('c, 'cg) rta \<Rightarrow> rta_callsite \<Rightarrow> def_id \<Rightarrow> 'c generic_args \<Rightarrow> bool" where
  "calls_instance env r callsite d gen_args \<longleftrightarrow>
     (\<exists>i \<in> rta_callees env r callsite.
        get_function_reference (acx_functions (ra_acx r)) i = Some (instance_ref env d gen_args))"

lemma calls_instance_mono:
  "rta_grows env r r' \<Longrightarrow> calls_instance env r callsite d gen_args \<Longrightarrow> calls_instance env r' callsite d gen_args"
  unfolding calls_instance_def rta_grows_def using acx_grows_reference by blast

text \<open>The visitor is in a state that a run from \<open>bs\<close> may reach.\<close>

definition rta_runs :: "('c, 'cg) rta_env \<Rightarrow> ('cg \<Rightarrow> bool) \<Rightarrow> ('c, 'cg) rta \<Rightarrow> ('c, 'cg) rta \<Rightarrow> bool" where
  "rta_runs env g_ok bs r \<longleftrightarrow> rta_ok env g_ok r \<and> rta_grows env bs r"

subsection \<open>What the three solving steps stand for\<close>

definition dyn_call_resolved :: "('c, 'cg) rta_env \<Rightarrow> ('c, 'cg) rta \<Rightarrow> 'c dyn_call \<Rightarrow> 'c ty \<Rightarrow> bool" where
  "dyn_call_resolved env r = (\<lambda>(callsite, d, gen_args) ty.
     (\<forall>replaced d' substs. replace_self ty gen_args = Some replaced \<and>
        try_to_devirtualize (re_tcx env) d replaced = Some (Some (d', substs)) \<longrightarrow>
        calls_instance env r callsite d' substs))"

fun callable :: "'c ty \<Rightarrow> (def_id \<times> 'c generic_args) option" where
  "callable (FnDef d substs) = Some (d, substs)"
| "callable (Closure d substs) = Some (d, substs)"
| "callable (Coroutine d substs) = Some (d, substs)"
| "callable _ = None"

definition fntrait_call_resolved :: "('c, 'cg) rta_env \<Rightarrow> ('c, 'cg) rta \<Rightarrow> 'c dyn_call \<Rightarrow> 'c ty \<Rightarrow> bool" where
  "fntrait_call_resolved env r = (\<lambda>(callsite, d, gen_args) ty.
     (case callable ty of
        Some (f, substs) \<Rightarrow>
          (\<forall>f' substs'. resolve_fn_def (re_tcx env) f substs = Some (f', substs') \<longrightarrow> calls_instance env r callsite f' substs')
      | None \<Rightarrow>
          (if is_fn_ptr ty then callsite \<in> or_default (ra_fnptr_callsites r) (tcx_erase_regions (re_tcx env) ty)
           else \<forall>replaced d' substs. replace_self ty gen_args = Some replaced \<and>
             tcx_resolve (re_tcx env) RevealAll d replaced = Some (d', substs) \<and> tcx_is_mir_available (re_tcx env) d' \<longrightarrow>
             calls_instance env r callsite d' substs)))"

definition fnptr_call_resolved :: "('c, 'cg) rta_env \<Rightarrow> ('c, 'cg) rta \<Rightarrow> rta_callsite \<Rightarrow> 'c ty \<Rightarrow> bool" where
  "fnptr_call_resolved env r callsite ty \<longleftrightarrow>
     (\<exists>d substs. callable ty = Some (d, substs) \<and> calls_instance env r callsite d substs)"

lemma resolved_mono:
  assumes "rta_solves env r r'"
  shows "dyn_call_resolved env r c t \<Longrightarrow> dyn_call_resolved env r' c t"
    and "fntrait_call_resolved env r c t \<Longrightarrow> fntrait_call_resolved env r' c t"
    and "fnptr_call_resolved env r s t \<Longrightarrow> fnptr_call_resolved env r' s t"
proof -
  have "rta_grows env r r'" using assms by (simp add: rta_solves_def)
  note mono = calls_instance_mono [OF this]
  show "dyn_call_resolved env r c t \<Longrightarrow> dyn_call_resolved env r' c t"
    unfolding dyn_call_resolved_def using mono by (cases c) (simp only: prod.case, blast)
  have "x \<in> or_default (ra_fnptr_callsites r) k \<Longrightarrow> x \<in> or_default (ra_fnptr_callsites r') k" for x k
    using assms by (auto simp: rta_solves_def)
  then show "fntrait_call_resolved env r c t \<Longrightarrow> fntrait_call_resolved env r' c t"
    unfolding fntrait_call_resolved_def using mono
    by (cases c; cases "callable t") (simp_all only: prod.case option.case split: if_splits, blast+)
  show "fnptr_call_resolved env r s t \<Longrightarrow> fnptr_call_resolved env r' s t"
    unfolding fnptr_call_resolved_def using mono by blast
qed

subsection \<open>The operations\<close>

locale rta_run = call_graph_api "re_gops env" g_ok
  for env :: "('c, 'cg) rta_env" and g_ok :: "'cg \<Rightarrow> bool"
begin

lemma push_new_prefix: "prefix xs (push_new x xs)"
  by (simp add: push_new_def)

lemma call_edge_spec:
  assumes "rta_ok env g_ok r"
  shows "\<exists>cg. rta_add_call_edge env s i r = Some (r\<lparr>ra_call_graph := cg\<rparr>) \<and> rta_ok env g_ok (r\<lparr>ra_call_graph := cg\<rparr>) \<and>
    rta_solves env r (r\<lparr>ra_call_graph := cg\<rparr>) \<and> i \<in> callees_of (re_gops env) cg s"
proof -
  have ok: "cg_ok (re_gops env) g_ok (ra_call_graph r)" using assms by (simp add: rta_ok_def)
  obtain cg new where cg: "cg_add_edge (re_gops env) (ra_call_graph r) s (bcs_func s) i = Some (cg, new)"
    "cg_ok (re_gops env) g_ok cg" "new \<longleftrightarrow> i \<notin> callees_of (re_gops env) (ra_call_graph r) s"
    "cg_calls (re_gops env) cg = (if new then insert (s, bcs_func s, i) (cg_calls (re_gops env) (ra_call_graph r)) else cg_calls (re_gops env) (ra_call_graph r))"
    "reach_funcs cg = push_new i (push_new (bcs_func s) (reach_funcs (ra_call_graph r)))"
    using add_edge_spec [OF ok, of s "bcs_func s" i] by (elim exE conjE) (rule that)
  have "cg_calls (re_gops env) (ra_call_graph r) \<subseteq> cg_calls (re_gops env) cg" unfolding cg(4) by (simp add: subset_insertI)
  then have mono: "callees_of (re_gops env) (ra_call_graph r) s' \<subseteq> callees_of (re_gops env) cg s'" for s'
    unfolding callees_of_def by blast
  have "i \<in> callees_of (re_gops env) cg s"
  proof (cases new)
    case True
    then have "(s, bcs_func s, i) \<in> cg_calls (re_gops env) cg" unfolding cg(4) by simp
    then show ?thesis unfolding callees_of_def by blast
  qed (use cg(3) mono in blast)
  moreover have "prefix (reach_funcs (ra_call_graph r)) (reach_funcs cg)"
    unfolding cg(5) by (rule prefix_order.trans [OF push_new_prefix push_new_prefix])
  then have "rta_grows env r (r\<lparr>ra_call_graph := cg\<rparr>)"
    unfolding rta_grows_def rta_callees_def by (intro conjI allI) (simp_all add: mono)
  then have "rta_solves env r (r\<lparr>ra_call_graph := cg\<rparr>)" unfolding rta_solves_def by simp
  moreover have "rta_ok env g_ok (r\<lparr>ra_call_graph := cg\<rparr>)" using assms cg(2) by (simp add: rta_ok_def)
  moreover have "rta_add_call_edge env s i r = Some (r\<lparr>ra_call_graph := cg\<rparr>)"
    by (simp only: rta_add_call_edge_def cg(1) option.map prod.case)
  ultimately show ?thesis by blast
qed

lemma func_id_spec:
  assumes "rta_ok env g_ok r" "rta_func_id env d gen_args r = Some (r', i)"
  shows "rta_ok env g_ok r'" "rta_solves env r r'"
    "get_function_reference (acx_functions (ra_acx r')) i = Some (instance_ref env d gen_args)"
proof -
  obtain acx where acx: "acx_get_func_id (re_tcx env) (be_text (pe_build (re_pe env))) (be_from_usize (pe_build (re_pe env)))
      (ra_acx r) d gen_args = Some (acx, i)" "r' = r\<lparr>ra_acx := acx\<rparr>"
    using assms(2) by (auto simp: rta_func_id_def Let_def)
  have grows: "acx_grows (ra_acx r) acx" using func_id_grows [OF acx(1)] .
  then show "rta_ok env g_ok r'" "rta_solves env r r'"
    using assms(1) by (simp_all add: acx(2) rta_ok_def rta_solves_def rta_grows_def rta_callees_def acx_grows_def)
  show "get_function_reference (acx_functions (ra_acx r')) i = Some (instance_ref env d gen_args)"
    using acx assms(1) add_reference_grows
    by (fastforce simp: acx_get_func_id_def get_func_id_def instance_ref_def rta_ok_def)
qed

lemma post_rta_call:
  assumes "rta_ok env g_ok r" "Option.bind (rta_func_id env d gen_args r) (\<lambda>(r, i). rta_add_call_edge env s i r) = Some r''"
  shows "rta_ok env g_ok r'' \<and> rta_solves env r r'' \<and> calls_instance env r'' s d gen_args"
proof -
  obtain r' i where r: "rta_func_id env d gen_args r = Some (r', i)" "rta_add_call_edge env s i r' = Some r''"
    using assms(2) by (auto split: Option.bind_splits)
  note id = func_id_spec [OF assms(1) r(1)]
  obtain cg where cg: "r'' = r'\<lparr>ra_call_graph := cg\<rparr>" "rta_ok env g_ok r''" "rta_solves env r' r''" "i \<in> callees_of (re_gops env) cg s"
    using call_edge_spec [OF id(1), of s i] r(2) by auto
  have "calls_instance env r'' s d gen_args"
    using id(3) cg(4) by (auto simp: calls_instance_def rta_callees_def cg(1))
  then show ?thesis using cg id(2) rta_solves_trans by blast
qed

subsection \<open>Solving\<close>

abbreviation solve_to :: "(('c, 'cg) rta \<Rightarrow> bool) \<Rightarrow> ('c, 'cg) rta \<Rightarrow> ('c, 'cg) rta \<Rightarrow> bool" where
  "solve_to Q r \<equiv> \<lambda>r'. rta_ok env g_ok r' \<and> rta_solves env r r' \<and> Q r'"

lemmas solve_each =
  post_fold_each [where I = "rta_ok env g_ok" and le = "rta_solves env", OF _ _ rta_solves_refl rta_solves_trans]

lemma solve_id: "rta_ok env g_ok r \<Longrightarrow> Q r \<Longrightarrow> solve_to Q r r"
  by (simp add: rta_solves_refl)

lemma post_solve_dyn_call:
  assumes "rta_ok env g_ok r"
  shows "post (solve_dyn_call env c t r) (solve_to (\<lambda>r'. dyn_call_resolved env r' c t) r)"
proof (rule postI)
  fix r' assume r': "solve_dyn_call env c t r = Some r'"
  obtain s d as where c: "c = (s, d, as)" by (rule prod_cases3)
  obtain as' res where e: "replace_self t as = Some as'" "try_to_devirtualize (re_tcx env) d as' = Some res"
    using r' by (auto simp: solve_dyn_call_def c split: Option.bind_splits)
  show "solve_to (\<lambda>r'. dyn_call_resolved env r' c t) r r'"
  proof (cases res)
    case None
    then show ?thesis using r' solve_id [OF assms] by (simp add: solve_dyn_call_def c e dyn_call_resolved_def)
  next
    case (Some callee)
    obtain d' as'' where callee: "callee = (d', as'')" by fastforce
    have "Option.bind (rta_func_id env d' as'' r) (\<lambda>(r, i). rta_add_call_edge env s i r) = Some r'"
      using r' by (simp add: solve_dyn_call_def c e Some callee)
    from post_rta_call [OF assms this] show ?thesis by (auto simp: dyn_call_resolved_def c e Some callee)
  qed
qed

lemma post_solve_dyn_callsites:
  assumes "rta_ok env g_ok r"
  shows "post (solve_dyn_callsites env r) (solve_to (\<lambda>r'.
    \<forall>ty \<in> set (type_order env (Mapping.keys (dynamic_to_possible_concrete_types r))). \<forall>calls. Mapping.lookup (dyn_callsites r) ty = Some calls \<longrightarrow>
      (\<forall>c \<in> set (dyn_call_order env calls). \<forall>t \<in> set (type_order env (or_default (dynamic_to_possible_concrete_types r) ty)).
        dyn_call_resolved env r' c t)) r)"
  unfolding solve_dyn_callsites_def Let_def
proof (rule solve_each)
  fix ty a assume a: "rta_ok env g_ok a"
  show "post ((case Mapping.lookup (dyn_callsites r) ty of
       Some calls \<Rightarrow> fold_opt (\<lambda>call. fold_opt (solve_dyn_call env call) (type_order env (or_default (dynamic_to_possible_concrete_types r) ty)))
           (dyn_call_order env calls)
     | None \<Rightarrow> Some) a)
   (\<lambda>s'. rta_ok env g_ok s' \<and> rta_solves env a s' \<and> (\<forall>calls. Mapping.lookup (dyn_callsites r) ty = Some calls \<longrightarrow>
      (\<forall>c \<in> set (dyn_call_order env calls). \<forall>t \<in> set (type_order env (or_default (dynamic_to_possible_concrete_types r) ty)).
        dyn_call_resolved env s' c t)))"
  proof (cases "Mapping.lookup (dyn_callsites r) ty")
    case (Some calls)
    have "post (fold_opt (\<lambda>call. fold_opt (solve_dyn_call env call) (type_order env (or_default (dynamic_to_possible_concrete_types r) ty)))
        (dyn_call_order env calls) a)
      (\<lambda>s'. rta_ok env g_ok s' \<and> rta_solves env a s' \<and> (\<forall>c \<in> set (dyn_call_order env calls).
        \<forall>t \<in> set (type_order env (or_default (dynamic_to_possible_concrete_types r) ty)). dyn_call_resolved env s' c t))"
      by (intro solve_each post_solve_dyn_call a) (use resolved_mono in blast)+
    then show ?thesis by (simp add: Some)
  qed (use a rta_solves_refl in simp)
qed (use assms resolved_mono in blast)+

lemma fnptr_callsite_spec:
  assumes "rta_ok env g_ok r"
  shows "solve_to (\<lambda>r'. s \<in> or_default (ra_fnptr_callsites r') (tcx_erase_regions (re_tcx env) t)) r (rta_add_fnptr_callsite env s t r)"
proof -
  have "cg_ok (re_gops env) g_ok (set_callsite_type cg s ty) = cg_ok (re_gops env) g_ok cg"
    "callees_of (re_gops env) (set_callsite_type cg s ty) x = callees_of (re_gops env) cg x" for cg ty x
    by (simp_all add: set_callsite_type_def cg_ok_def callees_of_def cg_calls_def)
  moreover have "reach_funcs (set_callsite_type (ra_call_graph r) s FnPtr) = reach_funcs (ra_call_graph r)"
    by (simp add: set_callsite_type_def)
  ultimately show ?thesis
    using assms
    by (auto simp: rta_add_fnptr_callsite_def rta_set_callsite_type_def rta_ok_def rta_solves_def rta_grows_def rta_callees_def)
qed

lemma solve_dyn_fntrait_calls_cases:
  "solve_dyn_fntrait_calls env calls t r =
     (case callable t of
        Some (d, substs) \<Rightarrow> fold_opt (fntrait_edge env d substs) (dyn_call_order env calls) r
      | None \<Rightarrow>
          (if is_fn_ptr t
           then Some (fold (\<lambda>(callsite, _, _). rta_add_fnptr_callsite env callsite t) (dyn_call_order env calls) r)
           else fold_opt (fntrait_impl_edge env t) (dyn_call_order env calls) r))"
  by (cases t) (simp_all add: solve_dyn_fntrait_calls_def)

lemma post_fntrait_edge:
  assumes "rta_ok env g_ok r" "callable t = Some (d, substs)"
  shows "post (fntrait_edge env d substs c r) (solve_to (\<lambda>r'. fntrait_call_resolved env r' c t) r)"
proof (rule postI)
  fix r' assume r': "fntrait_edge env d substs c r = Some r'"
  obtain s x as where c: "c = (s, x, as)" by (rule prod_cases3)
  obtain f fargs where f: "resolve_fn_def (re_tcx env) d substs = Some (f, fargs)"
    using r' by (auto simp: fntrait_edge_def c split: Option.bind_splits)
  have "Option.bind (rta_func_id env f fargs r) (\<lambda>(r, i). rta_add_call_edge env s i r) = Some r'"
    using r' by (simp add: fntrait_edge_def c f)
  from post_rta_call [OF assms(1) this] show "solve_to (\<lambda>r'. fntrait_call_resolved env r' c t) r r'"
    by (auto simp: fntrait_call_resolved_def c assms(2) f)
qed

lemma post_fntrait_impl_edge:
  assumes "rta_ok env g_ok r" "callable t = None" "\<not> is_fn_ptr t"
  shows "post (fntrait_impl_edge env t c r) (solve_to (\<lambda>r'. fntrait_call_resolved env r' c t) r)"
proof (rule postI)
  fix r' assume r': "fntrait_impl_edge env t c r = Some r'"
  obtain s d as where c: "c = (s, d, as)" by (rule prod_cases3)
  obtain as' where e: "replace_self t as = Some as'" using r' by (auto simp: fntrait_impl_edge_def c split: Option.bind_splits)
  show "solve_to (\<lambda>r'. fntrait_call_resolved env r' c t) r r'"
  proof (cases "\<exists>d' as''. tcx_resolve (re_tcx env) RevealAll d as' = Some (d', as'') \<and> tcx_is_mir_available (re_tcx env) d'")
    case True
    then obtain d' as'' where
      x: "tcx_resolve (re_tcx env) RevealAll d as' = Some (d', as'')" "tcx_is_mir_available (re_tcx env) d'" by blast
    have "Option.bind (rta_func_id env d' as'' r) (\<lambda>(r, i). rta_add_call_edge env s i r) = Some r'"
      using r' by (simp add: fntrait_impl_edge_def c e x)
    from post_rta_call [OF assms(1) this] show ?thesis
      by (auto simp: fntrait_call_resolved_def c assms(2,3) e x)
  next
    case False
    then have "r' = r"
      using r' by (auto simp: fntrait_impl_edge_def c e split: option.splits if_splits)
    then show ?thesis
      using False assms rta_solves_refl by (auto simp: fntrait_call_resolved_def c e)
  qed
qed

lemma post_solve_dyn_fntrait_calls:
  assumes "rta_ok env g_ok r"
  shows "post (solve_dyn_fntrait_calls env calls t r)
    (solve_to (\<lambda>r'. \<forall>c \<in> set (dyn_call_order env calls). fntrait_call_resolved env r' c t) r)"
proof (cases "callable t")
  case (Some callee)
  obtain d substs where callee: "callee = (d, substs)" by fastforce
  show ?thesis
    unfolding solve_dyn_fntrait_calls_cases Some callee option.case prod.case
    by (rule solve_each [OF assms]) (use post_fntrait_edge Some callee resolved_mono in blast)+
next
  case None
  show ?thesis
  proof (cases "is_fn_ptr t")
    case True
    have "fntrait_call_resolved env r' (s, d, as) t \<longleftrightarrow>
        s \<in> or_default (ra_fnptr_callsites r') (tcx_erase_regions (re_tcx env) t)" for r' s d as
      by (simp add: fntrait_call_resolved_def None True)
    then have step: "solve_to (\<lambda>r'. fntrait_call_resolved env r' c t) r ((case c of (s, _, _) \<Rightarrow> rta_add_fnptr_callsite env s t) r)"
      if "rta_ok env g_ok r" for c r
      using fnptr_callsite_spec [OF that] by (cases c) simp
    have "solve_to (\<lambda>r'. \<forall>c \<in> set (dyn_call_order env calls). fntrait_call_resolved env r' c t) r
        (fold (\<lambda>(callsite, _, _). rta_add_fnptr_callsite env callsite t) (dyn_call_order env calls) r)"
      by (rule fold_each [where I = "rta_ok env g_ok" and le = "rta_solves env", OF assms _ rta_solves_refl rta_solves_trans])
        (use step resolved_mono in blast)+
    then show ?thesis unfolding solve_dyn_fntrait_calls_cases None option.case by (simp add: True)
  next
    case False
    show ?thesis
      unfolding solve_dyn_fntrait_calls_cases None option.case if_not_P [OF False]
      by (rule solve_each [OF assms]) (use post_fntrait_impl_edge None False resolved_mono in blast)+
  qed
qed

lemma post_solve_dyn_fntrait_callsites:
  assumes "rta_ok env g_ok r"
  shows "post (solve_dyn_fntrait_callsites env r) (solve_to (\<lambda>r'.
    \<forall>ty \<in> set (type_order env (Mapping.keys (dyn_fntrait_callsites r))). \<forall>types. Mapping.lookup (dynamic_to_possible_concrete_types r) ty = Some types \<longrightarrow>
      (\<forall>t \<in> set (type_order env types). \<forall>c \<in> set (dyn_call_order env (or_default (dyn_fntrait_callsites r) ty)).
        fntrait_call_resolved env r' c t)) r)"
  unfolding solve_dyn_fntrait_callsites_def Let_def
proof (rule solve_each)
  fix ty a assume a: "rta_ok env g_ok a"
  show "post ((case Mapping.lookup (dynamic_to_possible_concrete_types r) ty of
       Some concrete_types \<Rightarrow> fold_opt (solve_dyn_fntrait_calls env (or_default (dyn_fntrait_callsites r) ty)) (type_order env concrete_types)
     | None \<Rightarrow> Some) a)
   (\<lambda>s'. rta_ok env g_ok s' \<and> rta_solves env a s' \<and> (\<forall>types. Mapping.lookup (dynamic_to_possible_concrete_types r) ty = Some types \<longrightarrow>
      (\<forall>t \<in> set (type_order env types). \<forall>c \<in> set (dyn_call_order env (or_default (dyn_fntrait_callsites r) ty)).
        fntrait_call_resolved env s' c t)))"
  proof (cases "Mapping.lookup (dynamic_to_possible_concrete_types r) ty")
    case (Some types)
    have "post (fold_opt (solve_dyn_fntrait_calls env (or_default (dyn_fntrait_callsites r) ty)) (type_order env types) a)
      (\<lambda>s'. rta_ok env g_ok s' \<and> rta_solves env a s' \<and> (\<forall>t \<in> set (type_order env types).
        \<forall>c \<in> set (dyn_call_order env (or_default (dyn_fntrait_callsites r) ty)). fntrait_call_resolved env s' c t))"
      by (rule solve_each [OF a post_solve_dyn_fntrait_calls]) (use resolved_mono in blast)+
    then show ?thesis by (simp add: Some)
  qed (use a rta_solves_refl in simp)
qed (use assms resolved_mono in blast)+

lemma post_fnptr_edge:
  assumes "rta_ok env g_ok r"
  shows "post (fnptr_edge env s t r) (solve_to (\<lambda>r'. fnptr_call_resolved env r' s t) r)"
proof (rule postI)
  fix r' assume r': "fnptr_edge env s t r = Some r'"
  then obtain d substs where t: "callable t = Some (d, substs)" by (cases t) (auto simp: fnptr_edge_def)
  then have "Option.bind (rta_func_id env d substs r) (\<lambda>(r, i). rta_add_call_edge env s i r) = Some r'"
    using r' by (cases t) (auto simp: fnptr_edge_def)
  from post_rta_call [OF assms this] show "solve_to (\<lambda>r'. fnptr_call_resolved env r' s t) r r'"
    by (simp add: fnptr_call_resolved_def t)
qed

lemma post_solve_fnptr_calls:
  assumes "rta_ok env g_ok r"
  shows "post (solve_fnptr_calls env targets callsites sig sig' r) (solve_to (\<lambda>r'.
    matched_fn_sig (re_tcx env) (re_fuel env) sig sig' = Some True \<longrightarrow>
      (\<forall>s \<in> set (callsite_order env callsites). \<forall>t \<in> set (type_order env (or_default targets sig')). fnptr_call_resolved env r' s t)) r)"
proof (cases "matched_fn_sig (re_tcx env) (re_fuel env) sig sig'")
  case (Some matched)
  have "post (fold_opt (\<lambda>callsite. fold_opt (fnptr_edge env callsite) (type_order env (or_default targets sig'))) (callsite_order env callsites) r)
     (solve_to (\<lambda>r'. \<forall>s \<in> set (callsite_order env callsites). \<forall>t \<in> set (type_order env (or_default targets sig')). fnptr_call_resolved env r' s t) r)"
    by (intro solve_each post_fnptr_edge assms) (use resolved_mono in blast)+
  then show ?thesis using Some assms rta_solves_refl by (cases matched) (simp_all add: solve_fnptr_calls_def)
qed (simp add: solve_fnptr_calls_def)

lemma post_solve_fnptr_callsites:
  assumes "rta_ok env g_ok r"
  shows "post (solve_fnptr_callsites env r) (solve_to (\<lambda>r'.
    \<forall>ty \<in> set (type_order env (Mapping.keys (ra_fnptr_callsites r))). \<forall>sig. ty = FnPtrTy sig \<longrightarrow>
      (\<forall>sig' \<in> set (fn_sig_order env (Mapping.keys (fnptr_sig_to_possible_targets r))).
        matched_fn_sig (re_tcx env) (re_fuel env) sig sig' = Some True \<longrightarrow>
        (\<forall>s \<in> set (callsite_order env (or_default (ra_fnptr_callsites r) ty)).
          \<forall>t \<in> set (type_order env (or_default (fnptr_sig_to_possible_targets r) sig')). fnptr_call_resolved env r' s t))) r)"
  unfolding solve_fnptr_callsites_def Let_def
proof (rule solve_each)
  fix ty a assume a: "rta_ok env g_ok a"
  let ?step = "\<lambda>sig. fold_opt (solve_fnptr_calls env (fnptr_sig_to_possible_targets r) (or_default (ra_fnptr_callsites r) ty) sig)
    (fn_sig_order env (Mapping.keys (fnptr_sig_to_possible_targets r)))"
  let ?done = "\<lambda>sig r'. \<forall>sig' \<in> set (fn_sig_order env (Mapping.keys (fnptr_sig_to_possible_targets r))).
        matched_fn_sig (re_tcx env) (re_fuel env) sig sig' = Some True \<longrightarrow>
        (\<forall>s \<in> set (callsite_order env (or_default (ra_fnptr_callsites r) ty)).
          \<forall>t \<in> set (type_order env (or_default (fnptr_sig_to_possible_targets r) sig')). fnptr_call_resolved env r' s t)"
  show "post ((case ty of FnPtrTy sig \<Rightarrow> ?step sig | _ \<Rightarrow> Some) a)
     (\<lambda>s'. rta_ok env g_ok s' \<and> rta_solves env a s' \<and> (\<forall>sig. ty = FnPtrTy sig \<longrightarrow> ?done sig s'))"
  proof (cases "\<exists>sig. ty = FnPtrTy sig")
    case True
    then obtain sig where ty: "ty = FnPtrTy sig" by blast
    have "post (?step sig a) (\<lambda>s'. rta_ok env g_ok s' \<and> rta_solves env a s' \<and> ?done sig s')"
      by (rule solve_each [OF a post_solve_fnptr_calls]) (use resolved_mono(3) in blast)+
    then show ?thesis by (simp add: ty)
  next
    case False
    then show ?thesis using a rta_solves_refl by (cases ty) auto
  qed
next
  fix ty a a'
  assume a: "rta_solves env a a'"
  let ?Q = "\<lambda>a. \<forall>sig. ty = FnPtrTy sig \<longrightarrow>
      (\<forall>sig' \<in> set (fn_sig_order env (Mapping.keys (fnptr_sig_to_possible_targets r))).
        matched_fn_sig (re_tcx env) (re_fuel env) sig sig' = Some True \<longrightarrow>
        (\<forall>s \<in> set (callsite_order env (or_default (ra_fnptr_callsites r) ty)).
          \<forall>t \<in> set (type_order env (or_default (fnptr_sig_to_possible_targets r) sig')). fnptr_call_resolved env a s t))"
  show "?Q a \<Longrightarrow> ?Q a'" using resolved_mono(3) [OF a] by simp
qed (rule assms)

subsection \<open>Bodies\<close>

abbreviation runs :: "('c, 'cg) rta \<Rightarrow> ('c, 'cg) rta \<Rightarrow> bool" where
  "runs \<equiv> rta_runs env g_ok"

lemma runs_ok: "runs bs r \<Longrightarrow> rta_ok env g_ok r"
  by (simp add: rta_runs_def)

lemma runs_solves: "rta_solves env r r' \<Longrightarrow> rta_ok env g_ok r' \<Longrightarrow> runs bs r \<Longrightarrow> runs bs r'"
  using rta_grows_trans unfolding rta_solves_def rta_runs_def by blast

text \<open>What is recorded beside functions and calls does not matter here.\<close>

lemma runs_records [simp]:
  "runs bs (r\<lparr>static_callsites := x\<rparr>) = runs bs r" "runs bs (r\<lparr>dyn_callsites := x1\<rparr>) = runs bs r"
  "runs bs (r\<lparr>dyn_fntrait_callsites := x1\<rparr>) = runs bs r" "runs bs (r\<lparr>ra_fnptr_callsites := x2\<rparr>) = runs bs r"
  "runs bs (r\<lparr>dynamic_to_possible_concrete_types := x3\<rparr>) = runs bs r"
  "runs bs (r\<lparr>fnptr_sig_to_possible_targets := x4\<rparr>) = runs bs r"
  "runs bs (r\<lparr>trait_upcasting_relations := x3\<rparr>) = runs bs r" "runs bs (r\<lparr>num_stmts := n\<rparr>) = runs bs r"
  "runs bs (r\<lparr>specially_handled_functions := fs\<rparr>) = runs bs r"
  by (simp_all add: rta_runs_def rta_ok_def rta_grows_def rta_callees_def)

lemma runs_callsite_type [simp]: "runs bs (rta_set_callsite_type s ty r) = runs bs r"
proof -
  have "cg_ok (re_gops env) g_ok (set_callsite_type cg s ty) = cg_ok (re_gops env) g_ok cg"
    "callees_of (re_gops env) (set_callsite_type cg s ty) x = callees_of (re_gops env) cg x"
    "reach_funcs (set_callsite_type cg s ty) = reach_funcs cg" for cg x
    by (simp_all add: set_callsite_type_def cg_ok_def callees_of_def cg_calls_def)
  then show ?thesis by (simp add: rta_runs_def rta_ok_def rta_grows_def rta_callees_def rta_set_callsite_type_def)
qed

lemma runs_acx: "runs bs r \<Longrightarrow> acx_grows (ra_acx r) acx \<Longrightarrow> runs bs (r\<lparr>ra_acx := acx\<rparr>)"
  using acx_grows_trans [of "ra_acx bs" "ra_acx r" acx]
  by (auto simp: rta_runs_def rta_ok_def rta_grows_def rta_callees_def acx_grows_def)

lemma runs_visited: "runs bs r \<Longrightarrow> runs bs (mark_visited f r)"
  by (auto simp: rta_runs_def rta_ok_def rta_grows_def rta_callees_def mark_visited_def)

lemma runs_simple [simp]:
  "runs bs (rta_add_static_callsite s r) = runs bs r"
  "runs bs (rta_add_fnptr_callsite env s t r) = runs bs r"
  "runs bs (add_possible_concrete_type env t t' r) = runs bs r"
  "runs bs (add_trait_upcasting_relation env t t' r) = runs bs r"
  by (simp_all only: rta_add_static_callsite_def rta_add_fnptr_callsite_def add_possible_concrete_type_def
      add_trait_upcasting_relation_def runs_records runs_callsite_type Let_def split: if_split) simp

lemma runs_cast [simp]: "runs bs (record_cast env t t' r) = runs bs r"
  by (simp only: record_cast_def runs_simple split: if_split) simp

named_theorems rta_post \<open>rules for the operations of the visitor\<close>

lemma post_rta_func_id:
  "runs bs r \<Longrightarrow> (\<And>r' i. runs bs r' \<Longrightarrow> Q (r', i)) \<Longrightarrow> post (rta_func_id env d as r) Q"
  by (rule postI) (metis func_id_spec(1,2) runs_ok runs_solves surj_pair)

lemma post_rta_call_edge:
  "runs bs r \<Longrightarrow> (\<And>r'. runs bs r' \<Longrightarrow> Q r') \<Longrightarrow> post (rta_add_call_edge env s i r) Q"
  using call_edge_spec [of r s i] runs_ok runs_solves by (fastforce simp: post_def)

lemma post_rta_static_call [rta_post]:
  assumes "runs bs r" "\<And>r' i. runs bs r' \<Longrightarrow> Q (r', i)"
  shows "post (rta_static_call env s d as r) Q"
  unfolding rta_static_call_def post_simps split_beta fst_conv snd_conv
  by (rule post_rta_func_id [OF assms(1)], simp only: fst_conv snd_conv, rule post_rta_call_edge [where bs = bs])
    (use assms(2) in \<open>simp_all only: runs_simple\<close>)

end

end
