(* ===== verification/Builder_Properties.thy ===== *)
theory Builder_Properties
  imports Builder_Invariant Solver_Sample
begin

section \<open>What the translation of a body yields\<close>

text \<open>
  The result of the translation is well formed, assignments of pointers become the constraints of
  a points-to analysis, and evaluated bodies show what is lost. The sample bodies have the locals
  \<open>_1: *mut *mut u8\<close> (the parameter), \<open>_2, _3: *mut u8\<close> and \<open>_4: u8\<close>.
\<close>

subsection \<open>Sample bodies\<close>

definition sample_build_env :: "(nat + nat) build_env" where
  "sample_build_env =
     \<lparr>be_tcx = sample_tcx, be_fuel = 9,
      be_text = \<lparr>def_id_debug = (\<lambda>d. def_text (fst d) (snd d) ''core'' ''ab12'' ''f''), ty_debug = (\<lambda>t. []), const_scalar = (\<lambda>c. None)\<rparr>,
      be_from_usize = Inl, be_re_static = 0, be_is_static = (\<lambda>d. False), be_is_const = (\<lambda>d. False),
      be_is_closure = (\<lambda>d. False), be_global_alloc = (\<lambda>i. None), be_def_path_str = (\<lambda>d. []), be_fn_once_trait = None\<rparr>"

abbreviation sample_ptr :: "(nat + nat) ty" where
  "sample_ptr \<equiv> RawPtr (UintTy 8) True"

definition sample_body :: "(nat + nat) statement list \<Rightarrow> (nat + nat) body" where
  "sample_body statements =
     \<lparr>local_decls = [TupleTy [], RawPtr sample_ptr True, sample_ptr, sample_ptr, UintTy 8], arg_count = 1,
      basic_blocks = [(statements, None)]\<rparr>"

definition place :: "nat \<Rightarrow> (nat + nat) place" where
  "place n = \<lparr>pl_local = n, pl_projection = []\<rparr>"

definition deref_place :: "nat \<Rightarrow> (nat + nat) place" where
  "deref_place n = \<lparr>pl_local = n, pl_projection = [DerefElem]\<rparr>"

text \<open>The context with the function 0 only.\<close>

definition sample_build_acx :: "(nat + nat) analysis_context" where
  "sample_build_acx =
     (case acx_get_func_id sample_tcx (be_text sample_build_env) Inl sample_solver_acx (0, 7) [] of
        Some (acx, _) \<Rightarrow> acx | None \<Rightarrow> sample_solver_acx)"

definition sample_edges :: "(nat + nat) statement list \<Rightarrow> internal_edge list option" where
  "sample_edges statements =
     map_option (\<lambda>(acx, fpag). internal_edges fpag) (build_fpag sample_build_env sample_build_acx 0 (sample_body statements))"

lemma sample_copies:
  "sample_edges
     [Assign (place 2) (AddressOf (place 4)),
      Assign (deref_place 1) (Use (CopyOp (place 2))),
      Assign (place 3) (Use (CopyOp (deref_place 1))),
      Assign (place 3) (Use (MoveOp (place 2)))] =
   Some [(LocalVariable 0 4, LocalVariable 0 2, AddrPAGEdge),
         (LocalVariable 0 2, Parameter 0 1, StorePAGEdge []),
         (Parameter 0 1, LocalVariable 0 3, LoadPAGEdge []),
         (LocalVariable 0 2, LocalVariable 0 3, DirectPAGEdge)]"
  by code_simp

subsection \<open>Assignments of pointers\<close>

text \<open>The constraints for an assignment of a pointer; both sides in memory take an auxiliary local.\<close>

fun is_offset_path :: "path \<Rightarrow> bool" where
  "is_offset_path (OffsetPath _ _) = True"
| "is_offset_path _ = False"

definition copy_constraints :: "path \<Rightarrow> path \<Rightarrow> path \<Rightarrow> internal_edge list" where
  "copy_constraints aux src dst =
     (case (deref_split src, deref_split dst) of
        (None, None) \<Rightarrow> [(src, dst, DirectPAGEdge)]
      | (Some (p, proj), None) \<Rightarrow> [(p, dst, LoadPAGEdge proj)]
      | (None, Some (q, proj)) \<Rightarrow> [(src, q, StorePAGEdge proj)]
      | (Some (p, proj), Some (q, proj')) \<Rightarrow> [(p, aux, LoadPAGEdge proj), (aux, q, StorePAGEdge proj')])"

lemma deref_path_split:
  assumes "path_wf p" "\<not> is_offset_path p"
  shows "is_deref_path p = Some (deref_split p \<noteq> None)"
proof (cases p)
  case (QualifiedPath base es)
  then obtain e es' where "es = e # es'" using assms(1) by (cases es) auto
  then show ?thesis by (cases e) (auto simp: QualifiedPath)
qed (use assms in auto)

lemma edges_of_step:
  "internal_edges (bd_fpag (fb_add_edge p q k b)) = internal_edges (bd_fpag b) @ [(p, q, k)]"
  "bd_acx (fb_add_edge p q k b) = bd_acx b" "bd_func_id (fb_add_edge p q k b) = bd_func_id b"
  by (simp_all add: fb_add_edge_def bd_update_fpag_def add_internal_edge_def)

lemma between_ptrs_edges:
  assumes "path_wf p" "\<not> is_offset_path p" "path_wf q" "\<not> is_offset_path q" "deref_split p = None \<or> deref_split q = None"
  shows "\<exists>b'. add_edge_between_ptrs p q b = Some b' \<and>
    internal_edges (bd_fpag b') = internal_edges (bd_fpag b) @ copy_constraints aux p q"
  using assms(5)
  by (cases "deref_split p"; cases "deref_split q")
    (auto simp: add_edge_between_ptrs_def deref_path_split assms(1-4) copy_constraints_def fb_add_direct_edge_def
      fb_add_load_edge_def fb_add_store_edge_def edges_of_step)

lemma pointer_edges:
  assumes "is_any_ptr t" "equal_types (be_tcx env) (be_fuel env) t t = Some True"
  shows "add_internal_edges env p t q t = add_edge_between_ptrs p q"
  by (rule ext) (use assms in \<open>simp add: add_internal_edges_def\<close>)

lemma pointer_not_opaque: "is_any_ptr t \<Longrightarrow> \<not> is_impl_trait t"
  by (cases t) auto

subsection \<open>Properties\<close>

text \<open>
  C7: the translation of any function body that returns yields a well-formed graph of that
  function: every edge is between well-formed paths of the function or of no function, every
  projection along a pointer is non-empty, call sites are those of the function with such paths,
  direct callees are in the function table, special callees are marked as special, and the callee
  of every dynamic call site is recorded. It takes nothing from the context: function ids keep
  their meaning, and no mark, type or call site is lost.
\<close>

theorem build_fpag_well_formed:
  assumes "table_ok (acx_functions acx)" "build_fpag env acx f mir = Some (acx', fpag)"
  shows "fp_func_id fpag = f \<and> fpag_ok acx' fpag \<and> acx_grows acx acx' \<and> table_ok (acx_functions acx')"
  by (rule build_fpag_keeps [OF assms(2,1)])

theorem build_fpag_well_formed_witness:
  "\<exists>acx' fpag. build_fpag sample_build_env sample_build_acx 0
       (sample_body [Assign (deref_place 1) (Use (CopyOp (place 2)))]) = Some (acx', fpag) \<and>
     internal_edges fpag = [(LocalVariable 0 2, Parameter 0 1, StorePAGEdge [])] \<and> fpag_ok acx' fpag"
proof -
  let ?run = "build_fpag sample_build_env sample_build_acx 0 (sample_body [Assign (deref_place 1) (Use (CopyOp (place 2)))])"
  have "map_option (\<lambda>(acx, fpag). internal_edges fpag) ?run = Some [(LocalVariable 0 2, Parameter 0 1, StorePAGEdge [])]"
    by code_simp
  then obtain acx' fpag where r: "?run = Some (acx', fpag)"
    "internal_edges fpag = [(LocalVariable 0 2, Parameter 0 1, StorePAGEdge [])]" by auto
  have "map_option (\<lambda>(t, i). func_refs t) (get_or_add_function_reference (be_text sample_build_env) function_table_new
      (new_function_reference (0, 7) [])) = Some [new_function_reference (0, 7) []]" by code_simp
  moreover have "acx_functions sample_solver_acx = function_table_new"
    by (simp add: sample_solver_acx_def acx_new_def find_entry_point_def entry_by_name_def)
  ultimately have "table_ok (acx_functions sample_build_acx)"
    using names_ok_new(2) add_reference_grows
    by (fastforce simp: sample_build_acx_def acx_get_func_id_def get_func_id_def customize_generic_args_def
        split: option.split)
  from build_fpag_well_formed [OF this r(1)] r show ?thesis by blast
qed

text \<open>
  C6: an assignment of a pointer becomes exactly the constraints of an inclusion-based points-to
  analysis: a direct edge between paths that are not in memory, a load from, respectively a store to,
  the base pointer with the remaining projection when one side is a dereference, and a load and a
  store over a new auxiliary local when both are.
\<close>

theorem pointer_copy_edges:
  assumes "bd_type b dst = Some t" "path_cache b pl = Some src" "bd_type b src = Some t"
    "is_any_ptr t" "equal_types (be_tcx env) (be_fuel env) t t = Some True"
    "path_wf src" "\<not> is_offset_path src" "path_wf dst" "\<not> is_offset_path dst"
    "aux_local_indexer (bd_acx b) (bd_func_id b) = Some n"
  shows "\<exists>b'. visit_copy_or_move env dst pl b = Some b' \<and>
    internal_edges (bd_fpag b') = internal_edges (bd_fpag b) @ copy_constraints (Auxiliary (bd_func_id b) n) src dst"
proof -
  let ?aux = "Auxiliary (bd_func_id b) n"
  have deref: "is_deref_path dst = Some (deref_split dst \<noteq> None)" "is_deref_path src = Some (deref_split src \<noteq> None)"
    using assms(6-9) deref_path_split by blast+
  have copy: "visit_copy_or_move env dst pl b =
      (if deref_split dst \<noteq> None \<and> deref_split src \<noteq> None then do {
         (b, aux) \<leftarrow> fb_create_aux_local env t b;
         b \<leftarrow> add_edge_between_ptrs src aux b;
         add_edge_between_ptrs aux dst b }
       else add_edge_between_ptrs src dst b)"
    using assms(1-3) pointer_not_opaque [OF assms(4)]
    by (simp add: visit_copy_or_move_def get_path_and_type_for_place_def get_path_for_place_def deref
        pointer_edges [OF assms(4,5)])
  show ?thesis
  proof (cases "deref_split dst \<noteq> None \<and> deref_split src \<noteq> None")
    case False
    then have "deref_split src = None \<or> deref_split dst = None" by blast
    from between_ptrs_edges [OF assms(6-9) this] show ?thesis by (simp only: copy False if_False)
  next
    case True
    obtain b1 where b1: "fb_create_aux_local env t b = Some (b1, ?aux)" "bd_fpag b1 = bd_fpag b"
      using assms(10) by (auto simp: fb_create_aux_local_def create_aux_local_def new_aux_def Let_def)
    obtain b2 where b2: "add_edge_between_ptrs src ?aux b1 = Some b2"
      "internal_edges (bd_fpag b2) = internal_edges (bd_fpag b) @ copy_constraints ?aux src ?aux"
      using between_ptrs_edges [OF assms(6,7), of ?aux b1 ?aux] b1(2) by auto
    obtain b3 where b3: "add_edge_between_ptrs ?aux dst b2 = Some b3"
      "internal_edges (bd_fpag b3) = internal_edges (bd_fpag b2) @ copy_constraints ?aux ?aux dst"
      using between_ptrs_edges [OF _ _ assms(8,9), of ?aux b2 ?aux] by auto
    show ?thesis
      using True b1 b2 b3 by (auto simp: copy copy_constraints_def)
  qed
qed

text \<open>The store \<open>*_1 = _2\<close>, in the state after a body that uses \<open>*_1\<close> and \<open>_2\<close>.\<close>

theorem pointer_copy_edges_witness:
  "\<exists>b b'. visit_copy_or_move sample_build_env (QualifiedPath (Parameter 0 1) [Deref]) (place 2) b = Some b' \<and>
     internal_edges (bd_fpag b') = internal_edges (bd_fpag b) @ [(LocalVariable 0 2, Parameter 0 1, StorePAGEdge [])]"
proof -
  let ?body = "sample_body [Assign (deref_place 1) (Use (CopyOp (place 2)))]"
  let ?dst = "QualifiedPath (Parameter 0 1) [Deref]"
  let ?start = "do { b \<leftarrow> builder_new sample_build_acx 0 ?body (func_pag_new 0); build sample_build_env b }"
  let ?facts = "\<lambda>b. (bd_type b ?dst, path_cache b (place 2), bd_type b (LocalVariable 0 2),
    aux_local_indexer (bd_acx b) (bd_func_id b))"
  have "map_option ?facts ?start = Some (Some sample_ptr, Some (LocalVariable 0 2), Some sample_ptr, Some 5)"
    by code_simp
  then obtain b where b: "?facts b = (Some sample_ptr, Some (LocalVariable 0 2), Some sample_ptr, Some 5)"
    unfolding map_option_eq_Some by metis
  have "equal_types (be_tcx sample_build_env) (be_fuel sample_build_env) sample_ptr sample_ptr = Some True"
    by code_simp
  with b pointer_copy_edges [of b ?dst sample_ptr "place 2" "LocalVariable 0 2" sample_build_env 5]
  have "\<exists>b'. visit_copy_or_move sample_build_env ?dst (place 2) b = Some b' \<and>
    internal_edges (bd_fpag b') = internal_edges (bd_fpag b) @
      copy_constraints (Auxiliary (bd_func_id b) 5) (LocalVariable 0 2) ?dst"
    by simp
  then show ?thesis by (auto simp: copy_constraints_def)
qed


end
