(* ===== verification/Rta_Complete.thy ===== *)
theory Rta_Complete
  imports Rta_Invariant Builder_Properties
begin

section \<open>The call graph of the rapid type analysis is complete for what was recorded\<close>

text \<open>
  The visitor keeps the invariant of \<open>Rta_Invariant\<close>; the analysis ends with every reachable
  function visited and every recorded call resolved.
\<close>

definition rta_read :: "('c, 'cg) rta \<Rightarrow> bool" where
  "rta_read r \<longleftrightarrow> ra_rf_iter r \<le> length (reach_funcs (ra_call_graph r)) \<and>
     set (take (ra_rf_iter r) (reach_funcs (ra_call_graph r))) \<subseteq> visited_functions r"

text \<open>The iterations over the maps and sets of a state visit exactly their elements.\<close>

definition visits_values :: "('b set \<Rightarrow> 'b list) \<Rightarrow> ('a, 'b) set_mapping \<Rightarrow> bool" where
  "visits_values order m \<longleftrightarrow> (\<forall>k \<in> Mapping.keys m. set (order (or_default m k)) = or_default m k)"

definition rta_iterated :: "('c, 'cg) rta_env \<Rightarrow> ('c, 'cg) rta \<Rightarrow> bool" where
  "rta_iterated env r \<longleftrightarrow>
     relations_iterated env (trait_upcasting_relations r) \<and>
     set (type_order env (Mapping.keys (dynamic_to_possible_concrete_types r))) = Mapping.keys (dynamic_to_possible_concrete_types r) \<and>
     visits_values (type_order env) (dynamic_to_possible_concrete_types r) \<and>
     visits_values (dyn_call_order env) (dyn_callsites r) \<and>
     set (type_order env (Mapping.keys (dyn_fntrait_callsites r))) = Mapping.keys (dyn_fntrait_callsites r) \<and>
     visits_values (dyn_call_order env) (dyn_fntrait_callsites r) \<and>
     set (type_order env (Mapping.keys (ra_fnptr_callsites r))) = Mapping.keys (ra_fnptr_callsites r) \<and>
     visits_values (callsite_order env) (ra_fnptr_callsites r) \<and>
     set (fn_sig_order env (Mapping.keys (fnptr_sig_to_possible_targets r))) = Mapping.keys (fnptr_sig_to_possible_targets r) \<and>
     visits_values (type_order env) (fnptr_sig_to_possible_targets r)"

lemma or_default_mem:
  "x \<in> or_default m k \<Longrightarrow> k \<in> Mapping.keys m \<and> Mapping.lookup m k = Some (or_default m k)"
  by (auto simp: Mapping.lookup_default_def keys_dom_lookup split: option.splits)

text \<open>Every recorded call has the callees that the recorded types and functions give it.\<close>

definition rta_covers :: "('c, 'cg) rta_env \<Rightarrow> ('c, 'cg) rta \<Rightarrow> bool" where
  "rta_covers env r \<longleftrightarrow>
     (\<forall>(s, t) \<in> upcasts (trait_upcasting_relations r).
        or_default (dynamic_to_possible_concrete_types r) s \<subseteq> or_default (dynamic_to_possible_concrete_types r) t) \<and>
     (\<forall>ty. \<forall>c \<in> or_default (dyn_callsites r) ty. \<forall>t \<in> or_default (dynamic_to_possible_concrete_types r) ty.
        dyn_call_resolved env r c t) \<and>
     (\<forall>ty. \<forall>c \<in> or_default (dyn_fntrait_callsites r) ty. \<forall>t \<in> or_default (dynamic_to_possible_concrete_types r) ty.
        fntrait_call_resolved env r c t) \<and>
     (\<forall>sig sig'. matched_fn_sig (re_tcx env) (re_fuel env) sig sig' = Some True \<longrightarrow>
        (\<forall>s \<in> or_default (ra_fnptr_callsites r) (FnPtrTy sig). \<forall>t \<in> or_default (fnptr_sig_to_possible_targets r) sig'.
          fnptr_call_resolved env r s t))"

context rta_run
begin

subsection \<open>The visitor\<close>

abbreviation vruns :: "('c, 'cg) rta \<Rightarrow> ('c, 'cg) body_visitor \<Rightarrow> bool" where
  "vruns bs v \<equiv> runs bs (bv_rta v)"

lemma post_in_rta: "post (f (bv_rta v)) (runs bs) \<Longrightarrow> post (in_rta f v) (vruns bs)"
  by (simp add: in_rta_def)

lemma post_add_callsites:
  "runs bs r \<Longrightarrow> post (rta_add_dyn_callsite env s d as r) (runs bs)"
  "runs bs r \<Longrightarrow> post (rta_add_dyn_fntrait_callsite env s d as r) (runs bs)"
  "runs bs r \<Longrightarrow> post (add_possible_fnptr_target env t t' r) (runs bs)"
  unfolding rta_add_dyn_callsite_def rta_add_dyn_fntrait_callsite_def add_possible_fnptr_target_def Let_def post_simps
  by (rule post_any, simp only: post_simps runs_callsite_type runs_records split: if_split, simp)
    (rule post_any, simp only: post_simps runs_callsite_type runs_records,
     simp only: post_simps runs_records split: ty.split, simp)

lemma post_bv_static_call:
  assumes "vruns bs v"
  shows "post (bv_static_call env l d as v) (vruns bs)"
  unfolding bv_static_call_def
  by (rule post_in_rta, simp only: post_simps, rule post_rta_static_call [OF assms]) simp

lemma post_rta_unevaluated: "vruns bs v \<Longrightarrow> post (rta_visit_unevaluated_const env d as p v) (vruns bs)"
  unfolding rta_visit_unevaluated_const_def
  by (cases p) (auto simp: Let_def intro!: post_any)

lemma vruns_const_value: "vruns bs v \<Longrightarrow> vruns bs (rta_visit_const_value env c v)"
  unfolding rta_visit_const_value_def by (auto split: const_value.split option.split global_alloc.split)

lemmas post_rta_lookups =
  post_any [of _ "resolve_fn_def tcx d as"] post_any [of _ "bv_specialize env v t"]
  post_any [of _ "bv_specialize_args env v as"] post_any [of _ "rta_place_type env v p"]
  post_any [of _ "next_type as"] post_any [of _ "try_to_devirtualize tcx d as"]
  post_any [of _ "is_dynamic_call tcx d as"] post_any [of _ "be_fn_once_trait be"]
  post_any [of _ "operand_place op"]
  for tcx d as v t p be op

lemma post_const_type: "vruns bs v \<Longrightarrow> post (rta_const_type env c v) (\<lambda>(v', t). vruns bs v')"
proof -
  assume v: "vruns bs v"
  have "post m (\<lambda>v. post (bv_specialize env v (const_ty c)) (\<lambda>t. vruns bs v))" if "post m (vruns bs)" for m
    using that by (simp add: post_def)
  from this [OF post_rta_unevaluated [OF v]] show ?thesis
    using v vruns_const_value [OF v] by (cases c) (auto simp: rta_const_type_def intro!: post_rta_lookups)
qed

lemma post_operand_type: "vruns bs v \<Longrightarrow> post (rta_operand_type env operand v) (\<lambda>(v', t). vruns bs v')"
proof -
  assume v: "vruns bs v"
  have callee: "post (case t of FnDef d as \<Rightarrow> Option.bind (resolve_fn_def (re_tcx env) d as) (\<lambda>(d, as). Some (v', FnDef d as)) | _ \<Rightarrow> Some (v', t))
      (\<lambda>(v', t). vruns bs v')" if "vruns bs v'" for t v'
    using that by (cases t) (auto intro!: post_rta_lookups)
  have step: "post (Option.bind m (\<lambda>(v', t). case t of FnDef d as \<Rightarrow> Option.bind (resolve_fn_def (re_tcx env) d as) (\<lambda>(d, as). Some (v', FnDef d as))
      | _ \<Rightarrow> Some (v', t))) (\<lambda>(v', t). vruns bs v')" if "post m (\<lambda>(v', t). vruns bs v')" for m
    by (simp only: post_simps, rule post_weaken [OF that]) (use callee in \<open>simp only: split_def\<close>)
  have "post (case operand of CopyOp pl \<Rightarrow> map_option (Pair v) (rta_place_type env v pl)
      | MoveOp pl \<Rightarrow> map_option (Pair v) (rta_place_type env v pl) | ConstantOp c \<Rightarrow> rta_const_type env c v) (\<lambda>(v', t). vruns bs v')"
    using v post_const_type [OF v] by (cases operand) (auto intro!: post_rta_lookups)
  then show ?thesis unfolding rta_operand_type_def by (rule step)
qed

lemma post_visit_cast: "runs bs r \<Longrightarrow> post (rta_visit_cast env kind t t' r) (runs bs)"
proof -
  assume r: "runs bs r"
  have args: "runs bs (fold (record_args_cast env) xs r)" for xs
    by (rule fold_invariant [where Q = "\<lambda>x. True"])
      (use r in \<open>auto simp: record_args_cast_def split: prod.split generic_arg_kind.split\<close>)
  show ?thesis
    using r args post_add_callsites(3) [OF r]
    by (cases t; cases t') (simp_all add: rta_visit_cast_def)
qed

lemma post_visit_statement: "vruns bs v \<Longrightarrow> post (rta_visit_statement env st v) (vruns bs)"
proof -
  assume v: "vruns bs v"
  have step: "post (rta_operand_type env x v) (\<lambda>p. post (in_rta (rta_visit_cast env k t (snd p)) (fst p)) (vruns bs))" for x k t
    by (rule post_weaken [OF post_operand_type [OF v]]) (use post_in_rta [OF post_visit_cast] in \<open>simp only: split_def\<close>)
  have cast: "post (Option.bind (bv_specialize env v ty) (\<lambda>t. Option.bind (rta_operand_type env x v)
      (\<lambda>(v, source_ty). in_rta (rta_visit_cast env k t source_ty) v))) (vruns bs)" for ty x k
    unfolding post_simps split_def by (rule post_any) (rule step)
  show ?thesis
  proof (cases st)
    case (Assign p x)
    then show ?thesis using v cast by (cases x) (simp_all only: rta_visit_statement_def statement.case rvalue.case post_simps)
  qed (use v in \<open>simp_all add: rta_visit_statement_def\<close>)
qed

subsection \<open>Calls\<close>

lemma post_inline_call: "vruns bs v \<Longrightarrow> post (rta_inline_call env d as l v) (vruns bs)"
proof -
  assume v: "vruns bs v"
  have "post (case t of
            FnDef d substs \<Rightarrow> Option.bind (resolve_fn_def (re_tcx env) d substs) (\<lambda>(d, substs). bv_static_call env l d substs v)
          | Closure d substs \<Rightarrow> bv_static_call env l d substs v
          | Coroutine d substs \<Rightarrow> bv_static_call env l d substs v
          | FnPtrTy _ \<Rightarrow> in_rta (\<lambda>r. Some (rta_add_fnptr_callsite env (bv_callsite v l) t r)) v
          | DynamicTy _ _ \<Rightarrow> in_rta (rta_add_dyn_fntrait_callsite env (bv_callsite v l) d as) v
          | _ \<Rightarrow> Some v) (vruns bs)" for t
    using v by (cases t) (auto intro!: post_rta_lookups post_in_rta post_add_callsites post_bv_static_call)
  then show ?thesis unfolding rta_inline_call_def Let_def post_simps by (rule post_any)
qed

lemma vruns_ask: "vruns bs v \<Longrightarrow> bv_ask f v = (v', x) \<Longrightarrow> vruns bs v'"
  by (auto simp: bv_ask_def split: prod.splits intro!: runs_acx)

lemma post_resolve_fntrait_call: "vruns bs v \<Longrightarrow> post (rta_resolve_fntrait_call env d as l v) (vruns bs)"
  by (auto simp: rta_resolve_fntrait_call_def split: option.split prod.split bool.split
      intro!: post_inline_call post_bv_static_call dest: vruns_ask)

lemma vruns_acx: "vruns bs v \<Longrightarrow> acx_grows (ra_acx (bv_rta v)) acx \<Longrightarrow> vruns bs (v\<lparr>bv_rta := (bv_rta v)\<lparr>ra_acx := acx\<rparr>\<rparr>)"
  by (simp add: runs_acx)

lemma post_rta_special_call: "vruns bs v \<Longrightarrow> post (rta_special_call env d as l v) (vruns bs)"
proof -
  assume v: "vruns bs v"
  obtain acx name where name: "acx_known_name_for (re_tcx env) (ra_acx (bv_rta v)) d = (acx, name)" by fastforce
  let ?v = "v\<lparr>bv_rta := (bv_rta v)\<lparr>ra_acx := acx\<rparr>\<rparr>"
  let ?spawn = "if name = StdThreadBuilderSpawnUnchecked
    then Option.bind (be_fn_once_trait (pe_build (re_pe env))) (\<lambda>t. rta_inline_call env t as (fst l, snd l + 1) ?v)
    else Some ?v"
  have v': "vruns bs ?v" using vruns_acx [OF v known_name_grows [OF name]] .
  then have spawn: "post ?spawn (vruns bs)" using post_inline_call [OF v'] by (auto intro!: post_rta_lookups)
  have call: "post (Option.bind (rta_static_call env (bv_callsite v l) d as (bv_rta v)) (\<lambda>(r, i).
      Some (v\<lparr>bv_rta := r\<lparr>specially_handled_functions := insert i (specially_handled_functions r)\<rparr>\<rparr>))) (vruns bs)"
    if "vruns bs v" for v d as
    unfolding post_simps by (rule post_rta_static_call [OF that]) simp
  show ?thesis
    unfolding rta_special_call_def name prod.case Let_def post_simps
    by (rule post_weaken [OF spawn], rule post_any) (use call in \<open>simp add: split_def\<close>)
qed

lemma post_rta_resolve_call: "vruns bs v \<Longrightarrow> post (rta_resolve_call env d as l v) (vruns bs)"
proof -
  assume v: "vruns bs v"
  have other: "post (if \<not> is_trait_method (re_tcx env) d then bv_static_call env l d as v
      else Option.bind (try_to_devirtualize (re_tcx env) d as) (\<lambda>resolved. case resolved of
        Some (d, substs) \<Rightarrow> bv_static_call env l d substs v
      | None \<Rightarrow> Option.bind (is_dynamic_call (re_tcx env) d as) (\<lambda>dynamic.
          if dynamic then in_rta (rta_add_dyn_callsite env (bv_callsite v l) d as) v else Some v))) (vruns bs)"
    if "vruns bs v" for v as
    using that by (auto split: option.split intro!: post_rta_lookups post_bv_static_call post_in_rta post_add_callsites)
  have fntrait: "post (case bv_ask f v of (v, True) \<Rightarrow> rta_resolve_fntrait_call env d as l v | (v, False) \<Rightarrow>
      (if \<not> is_trait_method (re_tcx env) d then bv_static_call env l d as v
      else Option.bind (try_to_devirtualize (re_tcx env) d as) (\<lambda>resolved. case resolved of
        Some (d, substs) \<Rightarrow> bv_static_call env l d substs v
      | None \<Rightarrow> Option.bind (is_dynamic_call (re_tcx env) d as) (\<lambda>dynamic.
          if dynamic then in_rta (rta_add_dyn_callsite env (bv_callsite v l) d as) v else Some v)))) (vruns bs)"
    if v: "vruns bs v" for f v as
  proof (cases "bv_ask f v")
    case (Pair v' x)
    note v' = vruns_ask [OF v Pair]
    show ?thesis
      unfolding Pair prod.case by (cases x) (simp_all only: bool.case post_resolve_fntrait_call [OF v'] other [OF v'])
  qed
  obtain acx special where special: "is_specially_handled_function (re_tcx env) (ra_acx (bv_rta v)) d = (acx, special)" by fastforce
  have "acx_grows (ra_acx (bv_rta v)) acx"
    using special known_name_grows by (fastforce simp: is_specially_handled_function_def split: prod.splits)
  note v' = vruns_acx [OF v this]
  show ?thesis
    unfolding rta_resolve_call_def special prod.case Let_def post_simps
    by (rule post_any) (simp only: post_rta_special_call [OF v'] fntrait [OF v'] split: if_split, simp)
qed

lemma post_visit_call: "vruns bs v \<Longrightarrow> post (rta_visit_call env func l v) (vruns bs)"
proof -
  assume v: "vruns bs v"
  have "post (case t of FnDef d as \<Rightarrow> rta_resolve_call env d as l v
      | FnPtrTy _ \<Rightarrow> in_rta (\<lambda>r. Some (rta_add_fnptr_callsite env (bv_callsite v l) t r)) v
      | _ \<Rightarrow> None) (vruns bs)" for t
    using v by (cases t) (auto intro!: post_rta_resolve_call post_in_rta)
  then show ?thesis
    using v by (cases func)
      (auto simp: rta_visit_call_def split: ty.split intro!: post_rta_lookups post_rta_resolve_call)
qed

lemma post_visit_block: "vruns bs v \<Longrightarrow> post (rta_visit_basic_block env blk v) (vruns bs)"
proof -
  assume v: "vruns bs v"
  obtain bb statements terminator where blk: "blk = (bb, statements, terminator)" by (rule prod_cases3)
  have statements: "post (fold_opt (rta_visit_statement env) statements v) (vruns bs)"
    by (rule post_fold [where P = "vruns bs"]) (use v post_visit_statement in auto)
  have "post (case terminator of Some kind \<Rightarrow> rta_visit_terminator env (bb, length statements) kind v | None \<Rightarrow> Some v) (vruns bs)"
    if "vruns bs v" for v
    using that by (auto simp: rta_visit_terminator_def split: option.split terminator.split intro!: post_visit_call)
  then show ?thesis
    unfolding rta_visit_basic_block_def blk prod.case post_simps
    by (intro post_weaken [OF statements]) (auto intro: post_weaken)
qed

lemma post_visit_function:
  assumes "runs bs r"
  shows "post (rta_visit_function env f mir r) (\<lambda>r'. runs bs r' \<and> f \<in> visited_functions r')"
proof -
  have body: "post (rta_visit_body env v) (vruns bs)" if "vruns bs v" for v
    unfolding rta_visit_body_def by (rule post_fold [where P = "vruns bs"]) (use that post_visit_block in auto)
  have visited: "runs bs ((bv_rta v)\<lparr>visited_functions := insert f (visited_functions (bv_rta v))\<rparr>)" if "vruns bs v" for v
    using runs_visited [OF that, of f] by (simp add: mark_visited_def)
  have "post (body_visitor_new r f mir) (vruns bs)" unfolding body_visitor_new_def post_simps by (rule post_any) (simp add: assms)
  then show ?thesis
    unfolding rta_visit_function_def post_simps
    by (elim post_weaken) (rule post_weaken [OF body], assumption, simp add: visited)
qed

lemma post_rta_promote_constants: "runs bs r \<Longrightarrow> post (rta_promote_constants env d as r) (runs bs)"
proof -
  have "post (rta_promote_constant env d as x r) (runs bs)" if r: "runs bs r" for x r
  proof -
    obtain ordinal mir where x: "x = (ordinal, mir)" by fastforce
    have "runs bs (r\<lparr>ra_acx := acx\<rparr>)"
      if "acx_get_promoted_id (be_text (pe_build (re_pe env))) (ra_acx r) d as ordinal = Some (acx, i)" for acx i
      using that r by (intro runs_acx [OF r]) (auto simp: acx_get_promoted_id_def get_promoted_id_def acx_grows_def dest: add_reference_grows)
    then show ?thesis
      unfolding rta_promote_constant_def x prod.case post_simps Let_def split_def
      by (intro postI [of "acx_get_promoted_id _ _ _ _ _"]) (auto intro: post_weaken [OF post_visit_function])
  qed
  then show "runs bs r \<Longrightarrow> post (rta_promote_constants env d as r) (runs bs)"
    unfolding rta_promote_constants_def by (intro post_fold [where P = "runs bs"]) auto
qed

lemma post_process_function:
  assumes "runs bs r"
  shows "post (process_reachable_function env f r) (\<lambda>r'. runs bs r' \<and> f \<in> visited_functions r')"
proof -
  have "post (Option.bind (rta_promote_constants env d as r) (rta_visit_function env f mir)) (\<lambda>r'. runs bs r' \<and> f \<in> visited_functions r')" for d as mir
    unfolding post_simps by (rule post_weaken [OF post_rta_promote_constants [OF assms]]) (rule post_visit_function)
  then show ?thesis
    using assms runs_visited [OF assms] by (auto simp: process_reachable_function_def Let_def mark_visited_def intro!: post_any)
qed

subsection \<open>The loops\<close>

lemma grows_read:
  assumes "rta_read r" "runs r r'"
  shows "rta_read r'"
proof -
  obtain fs where fs: "reach_funcs (ra_call_graph r') = reach_funcs (ra_call_graph r) @ fs"
    using assms(2) by (auto simp: rta_runs_def rta_grows_def prefix_def)
  then show ?thesis using assms by (auto simp: rta_read_def rta_runs_def rta_grows_def)
qed

lemma process_loop:
  assumes "process_reachable_functions env m h r = Some (r', h')" "rta_ok env g_ok r" "rta_read r"
  shows "rta_ok env g_ok r' \<and> rta_read r' \<and> ra_rf_iter r' = length (reach_funcs (ra_call_graph r')) \<and> (\<not> h' \<longrightarrow> r' = r \<and> \<not> h) \<and>
    acx_grows (ra_acx r) (ra_acx r')"
  using assms
proof (induction m arbitrary: h r)
  case 0
  then show ?case by (auto simp: rta_read_def split: if_splits)
next
  case (Suc m)
  show ?case
  proof (cases "ra_rf_iter r < length (reach_funcs (ra_call_graph r))")
    case True
    let ?f = "reach_funcs (ra_call_graph r) ! ra_rf_iter r" and ?r = "r\<lparr>ra_rf_iter := Suc (ra_rf_iter r)\<rparr>"
    obtain s where s: "process_reachable_function env ?f ?r = Some s" "process_reachable_functions env m True s = Some (r', h')"
      using Suc.prems(1) True by (auto split: Option.bind_splits)
    have "runs ?r ?r" using Suc.prems(2) by (simp add: rta_runs_def rta_ok_def rta_grows_refl)
    from postD [OF post_process_function [OF this] s(1)] have run: "runs ?r s" "?f \<in> visited_functions s" by auto
    obtain fs where fs: "reach_funcs (ra_call_graph s) = reach_funcs (ra_call_graph r) @ fs"
      using run(1) by (auto simp: rta_runs_def rta_grows_def prefix_def)
    have "set (take (Suc (ra_rf_iter r)) (reach_funcs (ra_call_graph r))) \<subseteq> visited_functions s"
      using Suc.prems(3) run True by (auto simp: take_Suc_conv_app_nth rta_read_def rta_runs_def rta_grows_def)
    then have "rta_read s" using run(1) True by (simp add: rta_read_def rta_runs_def rta_grows_def fs)
    moreover have "acx_grows (ra_acx r) (ra_acx s)" using run(1) by (simp add: rta_runs_def rta_grows_def)
    ultimately show ?thesis using Suc.IH [OF s(2) runs_ok [OF run(1)]] acx_grows_trans by blast
  next
    case False
    then show ?thesis using Suc.prems by (auto simp: rta_read_def)
  qed
qed

text \<open>The solving phase, for the orders of iteration that its last maps have.\<close>

lemma upcast_loop_closed:
  assumes "relations_iterated env relations" "upcast_loop env relations n types = Some types'" "(s, t) \<in> upcasts relations"
  shows "or_default types' s \<subseteq> or_default types' t"
  using assms(2)
proof (induction n arbitrary: types)
  case (Suc n)
  obtain types1 ch where r: "upcast_pass env relations types = (types1, ch)" by fastforce
  show ?case
  proof (cases ch)
    case False
    have "or_default types1 s \<subseteq> or_default types1 t"
      using upcast_pass_spec(3) [OF assms(1) _ _ r, of "\<lambda>x. UNIV" t s] False assms(3) by blast
    then show ?thesis using Suc.prems r False by simp
  qed (use Suc r in simp)
qed simp

lemma fnptr_callsites_kept:
  "solve_fnptr_callsites env r = Some r' \<Longrightarrow> ra_fnptr_callsites r' = ra_fnptr_callsites r"
proof -
  let ?P = "\<lambda>r'. ra_fnptr_callsites r' = ra_fnptr_callsites r"
  have add: "post (Option.bind (rta_func_id env d as s) (\<lambda>(s, i). rta_add_call_edge env c i s)) ?P" if "?P s" for d as c s
    using that by (auto simp: rta_func_id_def rta_add_call_edge_def Let_def post_def split: Option.bind_splits)
  have "post (fnptr_edge env c t s) ?P" if "?P s" for c t s
    using that add by (cases t) (simp_all add: fnptr_edge_def)
  then have "post (fold_opt (\<lambda>c. fold_opt (fnptr_edge env c) ts) cs s) ?P" if "?P s" for ts cs s
    by (intro post_fold [where P = ?P]) (use that in auto)
  then have "post (solve_fnptr_calls env targets cs sig sig' s) ?P" if "?P s" for targets cs sig sig' s
    using that by (auto simp: solve_fnptr_calls_def intro!: post_any)
  then have "post (case t of FnPtrTy sig \<Rightarrow> fold_opt (solve_fnptr_calls env targets (or_default cs t) sig) sigs s | _ \<Rightarrow> Some s) ?P"
    if "?P s" for t targets cs sigs s
    using that by (cases t) (auto intro!: post_fold [where P = ?P])
  then have "post (solve_fnptr_callsites env r) ?P"
    unfolding solve_fnptr_callsites_def Let_def
    by (intro post_fold [where P = ?P]) (auto simp: ty.case_distrib [of "\<lambda>f. f _"] cong: ty.case_cong)
  then show "solve_fnptr_callsites env r = Some r' \<Longrightarrow> ra_fnptr_callsites r' = ra_fnptr_callsites r" by (rule postD)
qed

lemma solve_phase:
  assumes ok: "rta_ok env g_ok r" and r1: "solve_trait_upcasting env n r = Some r1"
    and r2: "solve_dyn_callsites env r1 = Some r2" and r3: "solve_dyn_fntrait_callsites env r2 = Some r3"
    and r4: "solve_fnptr_callsites env r3 = Some r4"
  shows "rta_ok env g_ok r4" "rta_grows env r r4" "rta_iterated env r4 \<Longrightarrow> rta_covers env r4"
proof -
  obtain types where types: "upcast_loop env (trait_upcasting_relations r) n (dynamic_to_possible_concrete_types r) = Some types"
    "r1 = r\<lparr>dynamic_to_possible_concrete_types := types\<rparr>"
    using r1 by (auto simp: solve_trait_upcasting_def)
  have ok1: "rta_ok env g_ok r1" and grows1: "rta_grows env r r1"
    using ok by (simp_all add: types(2) rta_ok_def rta_grows_def rta_callees_def)
  note s2 = postD [OF post_solve_dyn_callsites [OF ok1] r2]
  then have ok2: "rta_ok env g_ok r2" by blast
  note s3 = postD [OF post_solve_dyn_fntrait_callsites [OF ok2] r3]
  then have ok3: "rta_ok env g_ok r3" by blast
  note s4 = postD [OF post_solve_fnptr_callsites [OF ok3] r4]
  then show "rta_ok env g_ok r4" by blast
  have s34: "rta_solves env r3 r4" using s4 by blast
  have s24: "rta_solves env r2 r4" using s3 s34 rta_solves_trans by blast
  have s14: "rta_solves env r1 r4" using s2 s24 rta_solves_trans by blast
  then show "rta_grows env r r4" using grows1 rta_grows_trans unfolding rta_solves_def by blast
  show "rta_covers env r4" if it: "rta_iterated env r4"
  proof -
    have same: "dynamic_to_possible_concrete_types r4 = types" "trait_upcasting_relations r4 = trait_upcasting_relations r"
      "dyn_callsites r1 = dyn_callsites r4" "dyn_fntrait_callsites r2 = dyn_fntrait_callsites r4"
      "fnptr_sig_to_possible_targets r3 = fnptr_sig_to_possible_targets r4" "dynamic_to_possible_concrete_types r2 = types"
      "dynamic_to_possible_concrete_types r1 = types"
      using s14 s24 s34 s2 unfolding rta_solves_def types(2) by simp_all
    have same3: "ra_fnptr_callsites r3 = ra_fnptr_callsites r4" using fnptr_callsites_kept [OF r4] by simp
    note its = it [unfolded rta_iterated_def visits_values_def same(1,2)]
    have upcast: "or_default types s \<subseteq> or_default types t" if "(s, t) \<in> upcasts (trait_upcasting_relations r)" for s t
      using upcast_loop_closed [OF _ types(1) that] its by blast
    have dyn: "dyn_call_resolved env r4 c t" if "c \<in> or_default (dyn_callsites r4) ty" "t \<in> or_default types ty" for ty c t
    proof -
      note keys = or_default_mem [OF that(1)] or_default_mem [OF that(2)]
      then have "c \<in> set (dyn_call_order env (or_default (dyn_callsites r4) ty))" "t \<in> set (type_order env (or_default types ty))"
        "ty \<in> set (type_order env (Mapping.keys types))"
        using that its by auto
      then have "dyn_call_resolved env r2 c t" using s2 keys(1) unfolding same by blast
      then show ?thesis by (rule resolved_mono(1) [OF s24])
    qed
    have fntrait: "fntrait_call_resolved env r4 c t" if "c \<in> or_default (dyn_fntrait_callsites r4) ty" "t \<in> or_default types ty" for ty c t
    proof -
      note keys = or_default_mem [OF that(1)] or_default_mem [OF that(2)]
      then have "c \<in> set (dyn_call_order env (or_default (dyn_fntrait_callsites r4) ty))" "t \<in> set (type_order env (or_default types ty))"
        "ty \<in> set (type_order env (Mapping.keys (dyn_fntrait_callsites r4)))"
        using that its by auto
      then have "fntrait_call_resolved env r3 c t" using s3 keys(2) unfolding same by blast
      then show ?thesis by (rule resolved_mono(2) [OF s34])
    qed
    have fnptr: "fnptr_call_resolved env r4 s t"
      if "matched_fn_sig (re_tcx env) (re_fuel env) sig sig' = Some True" "s \<in> or_default (ra_fnptr_callsites r4) (FnPtrTy sig)"
        "t \<in> or_default (fnptr_sig_to_possible_targets r4) sig'" for sig sig' s t
    proof -
      note keys = or_default_mem [OF that(2)] or_default_mem [OF that(3)]
      then have "s \<in> set (callsite_order env (or_default (ra_fnptr_callsites r4) (FnPtrTy sig)))"
        "t \<in> set (type_order env (or_default (fnptr_sig_to_possible_targets r4) sig'))"
        "FnPtrTy sig \<in> set (type_order env (Mapping.keys (ra_fnptr_callsites r4)))"
        "sig' \<in> set (fn_sig_order env (Mapping.keys (fnptr_sig_to_possible_targets r4)))"
        using that its by auto
      then show ?thesis using s4 that(1) unfolding same same3 by blast
    qed
    show ?thesis
      unfolding rta_covers_def same(1,2) using upcast dyn fntrait fnptr by blast
  qed
qed

lemma iterate_end:
  assumes "iteratively_process_reachable_functions env m n k r = Some r'" "rta_ok env g_ok r" "rta_read r"
    "rta_iterated env r \<Longrightarrow> rta_covers env r"
  shows "rta_ok env g_ok r' \<and> set (reach_funcs (ra_call_graph r')) \<subseteq> visited_functions r' \<and>
    (rta_iterated env r' \<longrightarrow> rta_covers env r') \<and> acx_grows (ra_acx r) (ra_acx r')"
  using assms
proof (induction k arbitrary: r)
  case (Suc k)
  obtain s h where s: "process_reachable_functions env m False r = Some (s, h)"
    "(if h then do {
            r \<leftarrow> solve_trait_upcasting env n s;
            r \<leftarrow> solve_dyn_callsites env r;
            r \<leftarrow> solve_dyn_fntrait_callsites env r;
            r \<leftarrow> solve_fnptr_callsites env r;
            iteratively_process_reachable_functions env m n k r }
          else Some s) = Some r'"
    using Suc.prems(1) by (auto split: Option.bind_splits)
  note loop = process_loop [OF s(1) Suc.prems(2,3)]
  show ?case
  proof (cases h)
    case False
    then have "r' = s" "s = r" using s(2) loop by auto
    moreover have "set (reach_funcs (ra_call_graph s)) \<subseteq> visited_functions s" using loop by (auto simp: rta_read_def)
    ultimately show ?thesis using Suc.prems by simp
  next
    case True
    obtain r1 r2 r3 r4 where steps: "solve_trait_upcasting env n s = Some r1" "solve_dyn_callsites env r1 = Some r2"
      "solve_dyn_fntrait_callsites env r2 = Some r3" "solve_fnptr_callsites env r3 = Some r4"
      "iteratively_process_reachable_functions env m n k r4 = Some r'"
      using s(2) True by (auto split: Option.bind_splits)
    have ok: "rta_ok env g_ok s" using loop by blast
    note solved = solve_phase [OF ok steps(1-4)]
    have "rta_read r4" using grows_read [of s r4] loop solved(1,2) by (simp add: rta_runs_def)
    moreover have "acx_grows (ra_acx s) (ra_acx r4)" using solved(2) by (simp add: rta_grows_def)
    with loop have "acx_grows (ra_acx r) (ra_acx r4)" using acx_grows_trans by blast
    ultimately show ?thesis using Suc.IH [OF steps(5) solved(1) _ solved(3)] acx_grows_trans by blast
  qed
qed simp

lemma covers_new: "rta_covers env (rta_new env acx\<lparr>ra_acx := x, ra_call_graph := cg\<rparr>)"
  by (simp add: rta_covers_def rta_new_def upcasts_def Mapping.lookup_default_empty)

lemma analyze_end:
  assumes "table_ok (acx_functions acx)" "rta_analyze env m n k (rta_new env acx) = Some r"
  shows "rta_ok env g_ok r \<and> set (reach_funcs (ra_call_graph r)) \<subseteq> visited_functions r \<and>
    (rta_iterated env r \<longrightarrow> rta_covers env r) \<and> acx_grows acx (ra_acx r)"
proof -
  let ?new = "rta_new env acx"
  obtain t f where t: "get_or_add_function_reference (be_text (pe_build (re_pe env))) (acx_functions acx)
      (new_function_reference (acx_entry_point acx) []) = Some (t, f)"
    "iteratively_process_reachable_functions env m n k
       (?new\<lparr>ra_acx := acx\<lparr>acx_functions := t\<rparr>, ra_call_graph := cg_add_node (re_gops env) (cg_new (re_gops env)) f\<rparr>) = Some r"
    using assms(2) by (auto simp: rta_analyze_def rta_new_def split: Option.bind_splits)
  have node: "cg_add_node (re_gops env) cg f = fst (cg_get_or_insert_node (re_gops env) cg f)" for cg
    by (simp add: cg_add_node_def cg_get_or_insert_node_def add_reach_func_def split: option.split prod.split)
  have "cg_ok (re_gops env) g_ok (cg_add_node (re_gops env) (cg_new (re_gops env)) f)"
    unfolding node by (metis cg_ok_new get_or_insert_spec(1) prod.collapse)
  then have "rta_ok env g_ok (?new\<lparr>ra_acx := acx\<lparr>acx_functions := t\<rparr>, ra_call_graph := cg_add_node (re_gops env) (cg_new (re_gops env)) f\<rparr>)"
    using add_reference_grows [OF t(1)] assms(1) by (simp add: rta_ok_def)
  moreover have "acx_grows acx (acx\<lparr>acx_functions := t\<rparr>)"
    using add_reference_grows [OF t(1)] assms(1) by (simp add: acx_grows_def)
  ultimately show ?thesis
    using iterate_end [OF t(2)] covers_new acx_grows_trans by (fastforce simp: rta_read_def rta_new_def)
qed

lemma call_graph_grows:
  assumes "table_ok (acx_functions acx)" "rta_call_graph env m n k acx = Some (acx', cg)"
  shows "acx_grows acx acx'"
  using assms(2) analyze_end [OF assms(1)] by (auto simp: rta_call_graph_def)

end

interpretation list_rta: rta_run "env\<lparr>re_gops := list_graph_ops\<rparr>" list_graph_ok for env
  by (simp add: rta_run_def call_graph_api_def list_graph.graph_api_axioms)

subsection \<open>A sample program\<close>

text \<open>
  \<open>main\<close> casts a \<open>&u8\<close> to a trait object and calls the method \<open>(0, 20)\<close> on it, which \<open>u8\<close>
  implements by \<open>(0, 30)\<close>.
\<close>

definition sample_dyn :: "nat \<Rightarrow> (nat + nat) ty" where
  "sample_dyn n = DynamicTy [TraitPred (0, n) []] 0"

definition sample_rta_tcx :: "(nat + nat) tcx" where
  "sample_rta_tcx = sample_tcx\<lparr>tcx_trait_of_item := (\<lambda>d. if d = (0, 20) then Some (0, 5) else None),
     tcx_resolve := (\<lambda>e d as. if d = (0, 20) \<and> as = [TypeKind (UintTy 8)] then Some ((0, 30), []) else None)\<rparr>"

definition sample_main :: "(nat + nat) body" where
  "sample_main =
     \<lparr>local_decls = [TupleTy [], RefTy 0 (UintTy 8) True, RefTy 0 (sample_dyn 5) True], arg_count = 0,
      basic_blocks =
        [([Assign (place 2) (CastAs (PointerCoercion Unsize) (CopyOp (place 1)) (RefTy 0 (sample_dyn 5) True))],
          Some (CallTerminator (ConstantOp (ValConst ZeroSized (FnDef (0, 20) [TypeKind (sample_dyn 5)]))) [CopyOp (place 2)] (place 0)))]\<rparr>"

definition sample_rta_env :: "(nat + nat, (func_id cg_node, rta_callsite cg_edge) list_graph) rta_env" where
  "sample_rta_env =
     \<lparr>re_pe = \<lparr>pe_build = sample_build_env\<lparr>be_tcx := sample_rta_tcx\<rparr>,
        optimized_mir = (\<lambda>d. if d = (0, 7) then sample_main else sample_main\<lparr>basic_blocks := []\<rparr>),
        instance_mir = (\<lambda>d. sample_main\<lparr>basic_blocks := []\<rparr>), promoted_mir = (\<lambda>d. []), statics_order = (\<lambda>S. [])\<rparr>,
      re_gops = list_graph_ops,
      type_order = (\<lambda>S. filter (\<lambda>t. t \<in> S) [sample_dyn 5, sample_dyn 6, UintTy 8]),
      dyn_call_order = (\<lambda>S. filter (\<lambda>c. c \<in> S) [(base_call_site_new 0 (0, 1), (0, 20), [TypeKind (sample_dyn 5)])]),
      fn_sig_order = (\<lambda>S. []), callsite_order = (\<lambda>S. [])\<rparr>"

lemma sample_gops: "re_gops sample_rta_env = list_graph_ops"
  by (simp add: sample_rta_env_def)

lemma sample_table: "table_ok (acx_functions sample_solver_acx)"
proof -
  have "acx_functions sample_solver_acx = function_table_new"
    by (simp add: sample_solver_acx_def acx_new_def find_entry_point_def entry_by_name_def)
  then show ?thesis using names_ok_new(2) by simp
qed

subsection \<open>Properties\<close>

text \<open>
  C5: when the rapid type analysis returns, every function of its call graph has been visited, the
  types are closed under the upcasts found, and every call it recorded is resolved: a dynamic call
  has an edge to the implementation of its method by each type that is cast to the trait object, a
  call of a \<open>Fn\<close> trait object to each callable that is cast to it, and a call through a function
  pointer to each function of a matching signature that is cast to a pointer. The order of the
  iterations over hash maps and sets does not matter, provided they visit their elements.
\<close>

theorem rta_resolves_calls:
  assumes "graph_api (re_gops env) g_ok" "table_ok (acx_functions acx)"
    "rta_analyze env m n k (rta_new env acx) = Some r" "rta_iterated env r"
  shows "set (reach_funcs (ra_call_graph r)) \<subseteq> visited_functions r \<and> rta_covers env r"
proof -
  have "rta_run env g_ok" using assms(1) by (intro rta_run.intro call_graph_api.intro)
  from rta_run.analyze_end [OF this assms(2,3)] assms(4) show ?thesis by blast
qed

theorem rta_resolves_calls_witness:
  "\<exists>r. rta_analyze sample_rta_env 5 5 5 (rta_new sample_rta_env sample_solver_acx) = Some r \<and>
     set (reach_funcs (ra_call_graph r)) = {0, 1} \<and> rta_covers sample_rta_env r"
proof -
  let ?run = "rta_analyze sample_rta_env 5 5 5 (rta_new sample_rta_env sample_solver_acx)"
  have "map_option (\<lambda>r. (reach_funcs (ra_call_graph r), rta_iterated sample_rta_env r)) ?run = Some ([0, 1], True)"
    by code_simp
  then obtain r where r: "?run = Some r" "reach_funcs (ra_call_graph r) = [0, 1]" "rta_iterated sample_rta_env r" by auto
  have "graph_api (re_gops sample_rta_env) list_graph_ok" unfolding sample_gops by (rule list_graph.graph_api_axioms)
  from rta_resolves_calls [OF this sample_table r(1,3)] r show ?thesis by auto
qed

text \<open>
  C9: \<open>solve_trait_upcasting\<close> ends: with more rounds than there are pairs of an upcast target and
  a concrete type it returns. Its result gives every trait object exactly the concrete types of
  the trait objects that are cast to it in any number of steps, and changes nothing else.
\<close>

theorem upcasts_solved:
  assumes "relations_iterated env (trait_upcasting_relations r)" "finite U"
    "\<And>t. or_default (dynamic_to_possible_concrete_types r) t \<subseteq> U"
    "card (Range (upcasts (trait_upcasting_relations r))) * card U < n"
  shows "\<exists>types'. solve_trait_upcasting env n r = Some (r\<lparr>dynamic_to_possible_concrete_types := types'\<rparr>) \<and>
    (\<forall>t. or_default types' t = upcast_types (trait_upcasting_relations r) (dynamic_to_possible_concrete_types r) t)"
proof -
  let ?rel = "trait_upcasting_relations r" and ?types = "dynamic_to_possible_concrete_types r"
  let ?sol = "upcast_types ?rel ?types"
  have "upcasts_left ?rel U ?types \<le> (\<Sum>t \<in> Range (upcasts ?rel). card U)"
    unfolding upcasts_left_def by (rule sum_mono) (simp add: assms(2) card_mono)
  then have fuel: "upcasts_left ?rel U ?types < n" using assms(4) by simp
  have bound: "?sol t \<subseteq> U" for t using assms(3) by (auto simp: upcast_types_def)
  obtain types' where types': "upcast_loop env ?rel n ?types = Some types'"
    "\<And>t. or_default ?types t \<subseteq> or_default types' t" "\<And>t. or_default types' t \<subseteq> ?sol t"
    "\<And>s t. (s, t) \<in> upcasts ?rel \<Longrightarrow> or_default types' s \<subseteq> or_default types' t"
    using upcast_loop_ends [OF assms(1) upcast_types_solution(2,1) bound assms(2) fuel] by blast
  have "or_default types' t = ?sol t" for t
    using types'(3) upcast_types_least [OF types'(4,2)] by (intro subset_antisym) auto
  then show ?thesis using types'(1) unfolding solve_trait_upcasting_def by (intro exI [of _ types']) simp
qed

text \<open>\<open>u8\<close> is cast to a trait object, which is cast to another one.\<close>

theorem upcasts_solved_witness:
  "\<exists>types'. solve_trait_upcasting sample_rta_env 2
       (add_trait_upcasting_relation sample_rta_env (sample_dyn 5) (sample_dyn 6)
         (add_possible_concrete_type sample_rta_env (sample_dyn 5) (UintTy 8) (rta_new sample_rta_env sample_solver_acx))) =
     Some (add_trait_upcasting_relation sample_rta_env (sample_dyn 5) (sample_dyn 6)
       (rta_new sample_rta_env sample_solver_acx)\<lparr>dynamic_to_possible_concrete_types := types'\<rparr>) \<and>
     UintTy 8 \<in> or_default types' (sample_dyn 6)"
proof -
  let ?new = "rta_new sample_rta_env sample_solver_acx"
  let ?r = "add_trait_upcasting_relation sample_rta_env (sample_dyn 5) (sample_dyn 6)
    (add_possible_concrete_type sample_rta_env (sample_dyn 5) (UintTy 8) ?new)"
  let ?rel = "default_insert Mapping.empty (sample_dyn 5) (sample_dyn 6)"
  let ?types = "default_insert Mapping.empty (sample_dyn 5) (UintTy 8)"
  have key: "dyn_key sample_rta_env (sample_dyn n) = sample_dyn n" for n
    by (simp add: dyn_key_def sample_rta_env_def sample_build_env_def sample_rta_tcx_def sample_tcx_def sample_dyn_def strip_auto_traits_def)
  have erase: "tcx_erase_regions (re_tcx sample_rta_env) t = t" for t
    by (simp add: sample_rta_env_def sample_build_env_def sample_rta_tcx_def sample_tcx_def)
  have r: "?r = ?new\<lparr>dynamic_to_possible_concrete_types := ?types, trait_upcasting_relations := ?rel\<rparr>"
    by (simp add: add_trait_upcasting_relation_def add_possible_concrete_type_def key erase rta_new_def, simp add: sample_dyn_def Let_def)
  have rel: "upcasts ?rel = {(sample_dyn 5, sample_dyn 6)}" by (auto simp: upcasts_def split: if_splits)
  have "relations_iterated sample_rta_env ?rel"
    by (auto simp: relations_iterated_def default_insert_def sample_rta_env_def)
  then have "\<exists>types'. solve_trait_upcasting sample_rta_env 2 ?r = Some (?r\<lparr>dynamic_to_possible_concrete_types := types'\<rparr>) \<and>
      (\<forall>t. or_default types' t = upcast_types ?rel ?types t)"
    using upcasts_solved [of sample_rta_env ?r "{UintTy 8}" 2] by (simp add: r rel)
  moreover have "UintTy 8 \<in> upcast_types ?rel ?types (sample_dyn 6)"
    by (auto simp: upcast_types_def rel)
  moreover have "?r\<lparr>dynamic_to_possible_concrete_types := types'\<rparr> =
      add_trait_upcasting_relation sample_rta_env (sample_dyn 5) (sample_dyn 6) ?new\<lparr>dynamic_to_possible_concrete_types := types'\<rparr>" for types'
    unfolding r by (simp add: add_trait_upcasting_relation_def key rta_new_def, simp add: sample_dyn_def Let_def)
  ultimately show ?thesis by auto
qed

end
