(* ===== verification/Andersen_Properties.thy ===== *)
theory Andersen_Properties
  imports Andersen_Invariant Rta_Complete
begin

section \<open>What the context-insensitive analysis returns\<close>

text \<open>
  The end state of the driver, run with the model of the rapid type analysis as its pre-analysis,
  and a sample program that the driver analyses from end to end.
\<close>

subsection \<open>A sample program\<close>

declare row_loop.simps [code]

text \<open>
  \<open>main\<close> takes the address of its local \<open>_3: u8\<close>, casts it to a trait object, and calls the method
  \<open>(0, 20)\<close> on it, which \<open>u8\<close> implements by \<open>(0, 30)\<close>.
\<close>

definition dispatch_main :: "(nat + nat) body" where
  "dispatch_main =
     \<lparr>local_decls = [TupleTy [], RefTy 0 (UintTy 8) True, RefTy 0 (sample_dyn 5) True, UintTy 8], arg_count = 0,
      basic_blocks =
        [([Assign (place 1) (RefOf (place 3)),
           Assign (place 2) (CastAs (PointerCoercion Unsize) (CopyOp (place 1)) (RefTy 0 (sample_dyn 5) True))],
          Some (CallTerminator (ConstantOp (ValConst ZeroSized (FnDef (0, 20) [TypeKind (sample_dyn 5)]))) [CopyOp (place 2)] (place 0)))]\<rparr>"

definition dispatch_mir :: "def_id \<Rightarrow> (nat + nat) body" where
  "dispatch_mir d =
     (if d = (0, 7) then dispatch_main
      else \<lparr>local_decls = [TupleTy [], RefTy 0 (UintTy 8) True], arg_count = 1, basic_blocks = []\<rparr>)"

definition dispatch_program :: "(nat + nat) program_env" where
  "dispatch_program =
     (re_pe sample_rta_env)\<lparr>optimized_mir := dispatch_mir,
       pe_build := sample_build_env\<lparr>be_tcx := sample_rta_tcx\<lparr>tcx_local_decls := (\<lambda>d. local_decls (dispatch_mir d))\<rparr>\<rparr>\<rparr>"

definition dispatch_andersen ::
    "(nat + nat, (path pag_node, pag_edge) list_graph, (func_id cg_node, func_id base_call_site cg_edge) list_graph,
      (func_id cg_node, func_id base_call_site cg_edge) list_graph) andersen_env" where
  "dispatch_andersen =
     \<lparr>ae_pe = dispatch_program, ae_gops = list_graph_ops, ae_cgops = list_graph_ops, ae_fgops = list_graph_ops,
      ae_cast_constraint = True, ae_stack_filtering = True,
      ae_call_order = (\<lambda>S. filter (\<lambda>c. c \<in> S) [\<lparr>call_func = 0, call_location = (0, 2), call_args = [LocalVariable 0 2], call_destination = ReturnValue 0\<rparr>]),
      ae_instance_order = (\<lambda>S. []), ae_func_order = sorted_list_of_set\<rparr>"

definition dispatch_limits :: limits where
  "dispatch_limits = \<lparr>lim_depth = 3, lim_funcs = 5, lim_casts = 5, lim_rounds = 20\<rparr>"

definition dispatch_rta :: "(nat + nat, (func_id cg_node, rta_callsite cg_edge) list_graph) rta_env" where
  "dispatch_rta = sample_rta_env\<lparr>re_pe := dispatch_program,
     dyn_call_order := (\<lambda>S. filter (\<lambda>c. c \<in> S) [(base_call_site_new 0 (0, 2), (0, 20), [TypeKind (sample_dyn 5)])])\<rparr>"

definition dispatch_acx :: "(nat + nat) analysis_context" where
  "dispatch_acx = sample_solver_acx\<lparr>path_ty_cache := Map.empty\<rparr>"

text \<open>
  \<open>main\<close> reads the static \<open>(0, 50)\<close>, a pointer, whose initializer calls \<open>(0, 40)\<close>; that returns the
  address of its local.
\<close>

definition static_program :: "(nat + nat) program_env" where
  "static_program =
     \<lparr>pe_build = sample_build_env\<lparr>be_tcx := sample_tcx\<lparr>tcx_type_of := (\<lambda>d. if d = (0, 50) then sample_ptr else UintTy 8)\<rparr>,
        be_is_static := (\<lambda>d. d = (0, 50)), be_global_alloc := (\<lambda>i. if i = 9 then Some (StaticAlloc (0, 50)) else None)\<rparr>,
      optimized_mir = (\<lambda>d.
        if d = (0, 7) then
          \<lparr>local_decls = [TupleTy [], RawPtr sample_ptr True, sample_ptr], arg_count = 0,
           basic_blocks = [([Assign (place 1) (Use (ConstantOp (ValConst (ScalarPtr 9) (RawPtr sample_ptr True)))),
             Assign (place 2) (Use (CopyOp (deref_place 1)))], None)]\<rparr>
        else
          \<lparr>local_decls = [sample_ptr, UintTy 8], arg_count = 0,
           basic_blocks = [([Assign (place 0) (AddressOf (place 1))], None)]\<rparr>),
      instance_mir = (\<lambda>d.
        \<lparr>local_decls = [sample_ptr], arg_count = 0,
         basic_blocks = [([], Some (CallTerminator (ConstantOp (ValConst ZeroSized (FnDef (0, 40) []))) [] (place 0)))]\<rparr>),
      promoted_mir = (\<lambda>d. []), statics_order = (\<lambda>S. filter (\<lambda>p. p \<in> S) [StaticVariable (0, 50)])\<rparr>"

definition static_andersen ::
    "(nat + nat, (path pag_node, pag_edge) list_graph, (func_id cg_node, func_id base_call_site cg_edge) list_graph,
      (func_id cg_node, func_id base_call_site cg_edge) list_graph) andersen_env" where
  "static_andersen = dispatch_andersen\<lparr>ae_pe := static_program, ae_stack_filtering := False\<rparr>"

text \<open>The points-to set of the node of a path, at the end.\<close>

definition end_pts ::
    "('c, (path pag_node, pag_edge) list_graph, 'cg, 'fg) andersen \<Rightarrow> path \<Rightarrow> path option list option" where
  "end_pts s p =
     Option.bind (pag_values (an_pag s) p)
       (\<lambda>i. map_option (\<lambda>d. map (node_path list_graph_ops (an_pag s)) (pts_iter node_pts_ops d)) (get_propa_pts (an_pt_data s) i))"

definition dispatch_run ::
    "(nat + nat, (path pag_node, pag_edge) list_graph, (func_id cg_node, func_id base_call_site cg_edge) list_graph,
      (func_id cg_node, func_id base_call_site cg_edge) list_graph) andersen option" where
  "dispatch_run =
     analyze dispatch_andersen dispatch_limits 5 (rta_call_graph dispatch_rta 5 5 5) [0, 1] (andersen_new dispatch_andersen dispatch_acx)"

lemma dispatch_gops:
  "ae_gops dispatch_andersen = list_graph_ops" "ae_cgops dispatch_andersen = list_graph_ops" "re_gops dispatch_rta = list_graph_ops"
  "ae_func_order dispatch_andersen = sorted_list_of_set"
  by (simp_all add: dispatch_andersen_def dispatch_rta_def sample_rta_env_def)

lemma dispatch_table: "table_ok (acx_functions dispatch_acx)"
  using sample_table by (simp add: dispatch_acx_def)

subsection \<open>Properties\<close>

text \<open>
  C1: when the context-insensitive analysis returns, it has dealt with every function of its call
  graph: the function has no body to analyse or is a special function, or its internal edges are
  in the pointer graph together with those of its promoted constants and of the statics it uses,
  its direct calls are in the call graph, and each of its calls through a trait object, a \<open>Fn\<close>
  object or a function pointer waits for the node of that pointer. The calls in initializers are
  the exception. No fact waits to be propagated, and every function's graph is well formed. This
  includes the pre-analysis when the stack filter is on, and holds for every order of iteration
  over hash sets.
\<close>

theorem andersen_end_state:
  assumes "graph_api (ae_gops ae) g_ok" "graph_api (ae_cgops ae) c_ok" "graph_api (re_gops re) r_ok"
    "\<forall>S. finite S \<longrightarrow> set (ae_func_order ae S) = S" "table_ok (acx_functions acx)"
    "analyze ae lim k (rta_call_graph re m n i) ord (andersen_new ae acx) = Some s"
  shows "(\<forall>f \<in> set (reach_funcs (an_call_graph s)). handled ae s f) \<and> processed_ok ae {} s \<and>
    (\<forall>n. diff_of words_of (an_pt_data s) n = {}) \<and> bodies_ok (an_acx s) (an_pag s)"
proof -
  have api: "andersen_api ae g_ok c_ok"
    using assms(1,2,4) by (intro andersen_api.intro pag_api.intro call_graph_api.intro andersen_api_axioms.intro) auto
  have "rta_run re r_ok" using assms(3) by (intro rta_run.intro call_graph_api.intro)
  note grows = rta_run.call_graph_grows [OF this assms(5)]
  from postD [OF andersen_api.post_analyze [OF api assms(5)] assms(6)] grows
  have "andersen_api.an_done ae g_ok c_ok s" by blast
  then show ?thesis
    by (simp add: andersen_api.an_done_def [OF api] andersen_api.an_read_def [OF api] andersen_api.an_ok_def [OF api])
qed

text \<open>In the sample program, both functions are processed and the parameter of the method points to \<open>_3\<close>.\<close>

theorem andersen_end_state_witness:
  "\<exists>s. dispatch_run = Some s \<and> reach_funcs (an_call_graph s) = [0, 1] \<and> handled dispatch_andersen s 1 \<and>
     end_pts s (Parameter 1 1) = Some [Some (LocalVariable 0 3)]"
proof -
  have "map_option (\<lambda>s. (reach_funcs (an_call_graph s), end_pts s (Parameter 1 1))) dispatch_run =
    Some ([0, 1], Some [Some (LocalVariable 0 3)])" by code_simp
  then obtain s where s: "dispatch_run = Some s" "reach_funcs (an_call_graph s) = [0, 1]"
    "end_pts s (Parameter 1 1) = Some [Some (LocalVariable 0 3)]" by auto
  have graphs: "graph_api (ae_gops dispatch_andersen) list_graph_ok" "graph_api (ae_cgops dispatch_andersen) list_graph_ok"
    "graph_api (re_gops dispatch_rta) list_graph_ok"
    unfolding dispatch_gops by (rule list_graph.graph_api_axioms)+
  have order: "\<forall>S. finite S \<longrightarrow> set (ae_func_order dispatch_andersen S) = S" by (simp add: dispatch_gops)
  from andersen_end_state [OF graphs order dispatch_table s(1) [unfolded dispatch_run_def]] s show ?thesis by auto
qed


end
