(* ===== verification/Context_Sensitive.thy ===== *)
theory Context_Sensitive
  imports Body_Graphs Propagator
begin

section \<open>The context-sensitive analysis (\<open>src/pta/context_sensitive.rs\<close>)\<close>

text \<open>
  The driver of the analysis with contexts, for any context strategy \<open>'st\<close>. Functions, paths and
  call sites carry the context id of the call; constants, statics and functions as values carry
  the empty context. The queues, the fuel and the pre-analysis are as in the driver without
  contexts. \<open>ce_is_reachable_from\<close> is the reachability of the stack filter for the state of the
  strategy, \<open>ce_with_stack_filter\<close> what the strategy does to a new filter.
\<close>

type_synonym cs_base_call_site = "cs_func_id base_call_site"

record ('c, 'g, 'cg, 'fg, 'st, 'e) cspta_env =
  ce_pe :: "'c program_env"
  ce_gops :: "('g, cs_path) pg_ops"
  ce_cgops :: "('cg, cs_func_id, cs_base_call_site) cg_ops"
  ce_fgops :: "'fg fcg_ops"
  ce_strategy :: "('st, 'e) context_strategy"
  ce_is_reachable_from :: "'st \<Rightarrow> ('fg, cs_func_id) stack_filter \<Rightarrow> cs_func_id \<Rightarrow> cs_func_id \<Rightarrow> bool option"
  ce_with_stack_filter :: "('fg, cs_func_id) stack_filter \<Rightarrow> ('fg, cs_func_id) stack_filter"
  ce_cast_constraint :: bool
  ce_stack_filtering :: bool
  ce_call_order :: "cs_call_site set \<Rightarrow> cs_call_site list"
  ce_instance_order :: "(cs_call_site \<times> func_id) set \<Rightarrow> (cs_call_site \<times> func_id) list"
  ce_func_order :: "func_id set \<Rightarrow> func_id list"

record ('c, 'g, 'cg, 'fg, 'st) cspta =
  cs_acx :: "'c analysis_context"
  cs_pt_data :: node_pts
  cs_pag :: "('g, cs_path) pag"
  cs_call_graph :: "('cg, cs_func_id, cs_base_call_site) call_graph"
  cs_processed_funcs :: "cs_func_id set"
  cs_rf_iter :: nat
  cs_addr_edge_iter :: nat
  cs_inter_proc_edges_queue :: "nat list"
  cs_assoc_calls :: "(nat, cs_func_id, cs_path) assoc_call_group"
  ctx_strategy :: 'st
  cs_stack_filter :: "('fg, cs_func_id) stack_filter option"

definition cspta_new ::
    "('c, 'g, 'cg, 'fg, 'st, 'e) cspta_env \<Rightarrow> 'c analysis_context \<Rightarrow> 'st \<Rightarrow> ('c, 'g, 'cg, 'fg, 'st) cspta" where
  "cspta_new ce acx st =
     \<lparr>cs_acx = acx, cs_pt_data = diff_new, cs_pag = pag_new (ce_gops ce), cs_call_graph = cg_new (ce_cgops ce),
      cs_processed_funcs = {}, cs_rf_iter = 0, cs_addr_edge_iter = 0, cs_inter_proc_edges_queue = [],
      cs_assoc_calls = assoc_calls_new, ctx_strategy = st, cs_stack_filter = None\<rparr>"

definition cs_solver_env ::
    "('c, 'g, 'cg, 'fg, 'st, 'e) cspta_env \<Rightarrow> 'st \<Rightarrow> ('c, 'g, 'fg, cs_path, cs_func_id) solver_env" where
  "cs_solver_env ce st =
     (let be = pe_build (ce_pe ce) in
      \<lparr>se_tcx = be_tcx be, se_fuel = be_fuel be, se_gops = ce_gops ce, se_pops = cs_path_ops,
       se_tops = cs_type_ops (be_tcx be) (be_fuel be), se_text = be_text be, se_from_usize = be_from_usize be,
       se_re_static = be_re_static be, se_into = into_func_id, se_is_reachable_from = ce_is_reachable_from ce st,
       se_is_const = be_is_const be, cast_constraint = ce_cast_constraint ce, stack_filtering = ce_stack_filtering ce,
       call_order = ce_call_order ce, instance_order = ce_instance_order ce\<rparr>)"

subsection \<open>Contexts of paths, functions and call sites\<close>

definition cs_empty_context_id ::
    "('c, 'g, 'cg, 'fg, 'st, 'e) cspta_env \<Rightarrow> ('c, 'g, 'cg, 'fg, 'st) cspta \<Rightarrow> ('c, 'g, 'cg, 'fg, 'st) cspta \<times> context_id" where
  "cs_empty_context_id ce s =
     (case get_empty_context_id (ce_strategy ce) (ctx_strategy s) of (st, i) \<Rightarrow> (s\<lparr>ctx_strategy := st\<rparr>, i))"

fun context_insensitive_path :: "path \<Rightarrow> bool" where
  "context_insensitive_path Constant = True"
| "context_insensitive_path (StaticVariable _) = True"
| "context_insensitive_path (PromotedConstant _ _) = True"
| "context_insensitive_path (Function _) = True"
| "context_insensitive_path PromotedStrRefArray = True"
| "context_insensitive_path PromotedArgumentV1Array = True"
| "context_insensitive_path (TypePath _) = True"
| "context_insensitive_path _ = False"

definition mk_cs_path ::
    "('c, 'g, 'cg, 'fg, 'st, 'e) cspta_env \<Rightarrow> path \<Rightarrow> context_id \<Rightarrow> ('c, 'g, 'cg, 'fg, 'st) cspta \<Rightarrow>
     ('c, 'g, 'cg, 'fg, 'st) cspta \<times> cs_path" where
  "mk_cs_path ce p ctx s =
     (if context_insensitive_path p
      then (case cs_empty_context_id ce s of (s, empty_cid) \<Rightarrow> (s, new_cs_path empty_cid p))
      else (s, new_cs_path ctx p))"

definition mk_cs_func :: "func_id \<Rightarrow> context_id \<Rightarrow> cs_func_id" where
  "mk_cs_func func_id ctx = \<lparr>cid = ctx, cs_func_id = func_id\<rparr>"

definition mk_cs_args ::
    "('c, 'g, 'cg, 'fg, 'st, 'e) cspta_env \<Rightarrow> context_id \<Rightarrow> path list \<Rightarrow> ('c, 'g, 'cg, 'fg, 'st) cspta \<Rightarrow>
     ('c, 'g, 'cg, 'fg, 'st) cspta \<times> cs_path list" where
  "mk_cs_args ce ctx args s =
     fold (\<lambda>arg (s, ps). case mk_cs_path ce arg ctx s of (s, p) \<Rightarrow> (s, ps @ [p])) args (s, [])"

definition mk_cs_callsite ::
    "('c, 'g, 'cg, 'fg, 'st, 'e) cspta_env \<Rightarrow> plain_call_site \<Rightarrow> context_id \<Rightarrow> ('c, 'g, 'cg, 'fg, 'st) cspta \<Rightarrow>
     ('c, 'g, 'cg, 'fg, 'st) cspta \<times> cs_call_site" where
  "mk_cs_callsite ce callsite ctx s =
     (case mk_cs_args ce ctx (call_args callsite) s of (s, args) \<Rightarrow>
        (case mk_cs_path ce (call_destination callsite) ctx s of (s, destination) \<Rightarrow>
           (s, call_site_new (mk_cs_func (call_func callsite) ctx) (call_location callsite) args destination)))"

subsection \<open>Adding the graph of a function\<close>

definition cs_add_fpag_edge ::
    "('c, 'g, 'cg, 'fg, 'st, 'e) cspta_env \<Rightarrow> context_id \<Rightarrow> internal_edge \<Rightarrow> ('c, 'g, 'cg, 'fg, 'st) cspta \<Rightarrow>
     ('c, 'g, 'cg, 'fg, 'st) cspta option" where
  "cs_add_fpag_edge ce ctx = (\<lambda>(src, dst, kind) s.
     case mk_cs_path ce src ctx s of (s, cs_src) \<Rightarrow>
       (case mk_cs_path ce dst ctx s of (s, cs_dst) \<Rightarrow>
          do { (pag, r) \<leftarrow> add_edge (ce_gops ce) (cs_pag s) cs_src cs_dst kind;
               let s = s\<lparr>cs_pag := pag\<rparr>;
               Some (case r of
                       Some edge_id \<Rightarrow>
                         (if is_promoted_constant (cs_path cs_src) \<or> is_static_variable (cs_path cs_src)
                          then s\<lparr>cs_inter_proc_edges_queue := cs_inter_proc_edges_queue s @ [edge_id]\<rparr> else s)
                     | None \<Rightarrow> s) }))"

definition cs_funcs_of :: "('c, 'g, 'cg, 'fg, 'st, 'e) cspta_env \<Rightarrow> (func_id \<rightharpoonup> func_id set) \<Rightarrow> func_id \<Rightarrow> func_id list" where
  "cs_funcs_of ce m func_id = (case m func_id of Some funcs \<Rightarrow> ce_func_order ce funcs | None \<Rightarrow> [])"

fun cs_add_fpag_edges ::
    "('c, 'g, 'cg, 'fg, 'st, 'e) cspta_env \<Rightarrow> nat \<Rightarrow> cs_func_id \<Rightarrow> ('c, 'g, 'cg, 'fg, 'st) cspta \<Rightarrow>
     ('c, 'g, 'cg, 'fg, 'st) cspta option" where
  "cs_add_fpag_edges ce 0 func s = None"
| "cs_add_fpag_edges ce (Suc n) func s =
     (if func \<in> cs_processed_funcs s then Some s
      else do {
        let without_context = (\<lambda>func_id s.
          case cs_empty_context_id ce s of (s, empty_cid) \<Rightarrow> cs_add_fpag_edges ce n (mk_cs_func func_id empty_cid) s);
        fpag \<leftarrow> func_pags (cs_pag s) (cs_func_id func);
        s \<leftarrow> fold_opt (cs_add_fpag_edge ce (cid func)) (internal_edges_iter fpag) s;
        s \<leftarrow> fold_opt without_context (cs_funcs_of ce (promoted_funcs_map (cs_pag s)) (cs_func_id func)) s;
        s \<leftarrow> fold_opt without_context (cs_funcs_of ce (involved_static_funcs_map (cs_pag s)) (cs_func_id func)) s;
        Some (s\<lparr>cs_processed_funcs := insert func (cs_processed_funcs s)\<rparr>) })"

subsection \<open>Calls\<close>

definition cs_add_call_edge ::
    "('c, 'g, 'cg, 'fg, 'st, 'e) cspta_env \<Rightarrow> cs_call_site \<Rightarrow> cs_func_id \<Rightarrow> ('c, 'g, 'cg, 'fg, 'st) cspta \<Rightarrow>
     ('c, 'g, 'cg, 'fg, 'st) cspta option" where
  "cs_add_call_edge ce callsite callee s =
     do { (cg, new) \<leftarrow> cg_add_edge (ce_cgops ce) (cs_call_graph s) (cs_base_from callsite) (call_func callsite) callee;
          let s = s\<lparr>cs_call_graph := cg\<rparr>;
          if \<not> new then Some s
          else do {
            let be = pe_build (ce_pe ce);
            (acx, pag, new_edges) \<leftarrow>
              add_inter_procedural_edges (ce_pe ce) (ce_gops ce) cs_path_ops (cs_type_ops (be_tcx be) (be_fuel be)) into_func_id
                callsite callee (cs_acx s) (cs_pag s);
            Some (s\<lparr>cs_acx := acx, cs_pag := pag, cs_inter_proc_edges_queue := cs_inter_proc_edges_queue s @ new_edges,
                   cs_stack_filter := map_option (\<lambda>sf. add_pag_edges_in_func sf new_edges (call_func callsite)) (cs_stack_filter s)\<rparr>) } }"

definition cs_node ::
    "('c, 'g, 'cg, 'fg, 'st, 'e) cspta_env \<Rightarrow> cs_path \<Rightarrow> ('c, 'g, 'cg, 'fg, 'st) cspta \<Rightarrow> ('c, 'g, 'cg, 'fg, 'st) cspta \<times> nat" where
  "cs_node ce p s = (case get_or_insert_node (ce_gops ce) (cs_pag s) p of (pag, i) \<Rightarrow> (s\<lparr>cs_pag := pag\<rparr>, i))"

definition instance_call ::
    "('c, 'g, 'cg, 'fg, 'st, 'e) cspta_env \<Rightarrow> cs_call_site \<Rightarrow> cs_path option \<Rightarrow> func_id \<Rightarrow> ('c, 'g, 'cg, 'fg, 'st) cspta \<Rightarrow>
     ('c, 'g, 'cg, 'fg, 'st) cspta option" where
  "instance_call ce callsite receiver callee s =
     do { (st, r) \<leftarrow> new_instance_call_context (ce_strategy ce) (ctx_strategy s) callsite receiver;
          let s = s\<lparr>ctx_strategy := st\<rparr>;
          case r of
            Some callee_cid \<Rightarrow> cs_add_call_edge ce callsite (cs_func_id_new callee_cid callee) s
          | None \<Rightarrow> Some s }"

definition static_call ::
    "('c, 'g, 'cg, 'fg, 'st, 'e) cspta_env \<Rightarrow> cs_call_site \<Rightarrow> func_id \<Rightarrow> ('c, 'g, 'cg, 'fg, 'st) cspta \<Rightarrow>
     ('c, 'g, 'cg, 'fg, 'st) cspta option" where
  "static_call ce callsite callee s =
     do { (st, callee_cid) \<leftarrow> new_static_call_context (ce_strategy ce) (ctx_strategy s) callsite;
          cs_add_call_edge ce callsite (cs_func_id_new callee_cid callee) (s\<lparr>ctx_strategy := st\<rparr>) }"

definition process_new_call ::
    "('c, 'g, 'cg, 'fg, 'st, 'e) cspta_env \<Rightarrow> cs_call_site \<Rightarrow> func_id \<Rightarrow> ('c, 'g, 'cg, 'fg, 'st) cspta \<Rightarrow>
     ('c, 'g, 'cg, 'fg, 'st) cspta option" where
  "process_new_call ce callsite callee s =
     do { func_ref \<leftarrow> get_function_reference (acx_functions (cs_acx s)) callee;
          let callee_def_id = fr_def_id func_ref;
          let tcx = pe_tcx (ce_pe ce);
          if has_self_parameter tcx callee_def_id then
            (if has_self_ref_parameter tcx callee_def_id then do {
               s \<leftarrow> instance_call ce callsite None callee s;
               self_ref \<leftarrow> nth_opt (call_args callsite) 0;
               let (s, self_ref_id) = cs_node ce self_ref s;
               Some (s\<lparr>cs_assoc_calls := add_static_dispatch_instance_call (cs_assoc_calls s) self_ref_id callsite callee\<rparr>) }
             else do {
               receiver \<leftarrow> nth_opt (call_args callsite) 0;
               instance_call ce callsite (Some receiver) callee s })
          else static_call ce callsite callee s }"

definition cs_set_callsite_type ::
    "plain_call_site \<Rightarrow> call_type \<Rightarrow> ('c, 'g, 'cg, 'fg, 'st) cspta \<Rightarrow> ('c, 'g, 'cg, 'fg, 'st) cspta" where
  "cs_set_callsite_type callsite ty s = s\<lparr>cs_call_graph := set_callsite_type (cs_call_graph s) (base_from id callsite) ty\<rparr>"

definition cs_process_static_call ::
    "('c, 'g, 'cg, 'fg, 'st, 'e) cspta_env \<Rightarrow> cs_func_id \<Rightarrow> plain_call_site \<times> func_id \<Rightarrow> ('c, 'g, 'cg, 'fg, 'st) cspta \<Rightarrow>
     ('c, 'g, 'cg, 'fg, 'st) cspta option" where
  "cs_process_static_call ce func = (\<lambda>(callsite, callee) s.
     case mk_cs_callsite ce callsite (cid func) s of (s, cs_callsite) \<Rightarrow>
       map_option (cs_set_callsite_type callsite StaticDispatch) (process_new_call ce cs_callsite callee s))"

definition special_callsite_context ::
    "('c, 'g, 'cg, 'fg, 'st, 'e) cspta_env \<Rightarrow> cs_call_site \<Rightarrow> ('c, 'g, 'cg, 'fg, 'st) cspta \<Rightarrow>
     (('c, 'g, 'cg, 'fg, 'st) cspta \<times> context_id) option" where
  "special_callsite_context ce callsite s =
     map_option (\<lambda>(st, i). (s\<lparr>ctx_strategy := st\<rparr>, i)) (new_static_call_context (ce_strategy ce) (ctx_strategy s) callsite)"

definition cs_process_special_call ::
    "('c, 'g, 'cg, 'fg, 'st, 'e) cspta_env \<Rightarrow> cs_func_id \<Rightarrow> plain_call_site \<times> func_id \<Rightarrow> ('c, 'g, 'cg, 'fg, 'st) cspta \<Rightarrow>
     ('c, 'g, 'cg, 'fg, 'st) cspta option" where
  "cs_process_special_call ce func = (\<lambda>(callsite, callee) s.
     case mk_cs_callsite ce callsite (cid func) s of (s, cs_callsite) \<Rightarrow>
       do { (s, callee_cid) \<leftarrow> special_callsite_context ce cs_callsite s;
            (cg, new) \<leftarrow> cg_add_edge (ce_cgops ce) (cs_call_graph s) (cs_base_from cs_callsite) func (mk_cs_func callee callee_cid);
            Some (cs_set_callsite_type callsite StaticDispatch (s\<lparr>cs_call_graph := cg\<rparr>)) })"

definition cs_register_call ::
    "('c, 'g, 'cg, 'fg, 'st, 'e) cspta_env \<Rightarrow>
     ((nat, cs_func_id, cs_path) assoc_call_group \<Rightarrow> nat \<Rightarrow> cs_call_site \<Rightarrow> (nat, cs_func_id, cs_path) assoc_call_group) \<Rightarrow>
     call_type \<Rightarrow> context_id \<Rightarrow> path \<times> plain_call_site \<Rightarrow> ('c, 'g, 'cg, 'fg, 'st) cspta \<Rightarrow> ('c, 'g, 'cg, 'fg, 'st) cspta" where
  "cs_register_call ce add ty ctx = (\<lambda>(p, callsite) s.
     case mk_cs_path ce p ctx s of (s, cs_p) \<Rightarrow>
       (case mk_cs_callsite ce callsite ctx s of (s, cs_callsite) \<Rightarrow>
          (case cs_node ce cs_p s of (s, i) \<Rightarrow>
             cs_set_callsite_type callsite ty (s\<lparr>cs_assoc_calls := add (cs_assoc_calls s) i cs_callsite\<rparr>))))"

definition cs_process_calls_in_fpag ::
    "('c, 'g, 'cg, 'fg, 'st, 'e) cspta_env \<Rightarrow> cs_func_id \<Rightarrow> ('c, 'g, 'cg, 'fg, 'st) cspta \<Rightarrow> ('c, 'g, 'cg, 'fg, 'st) cspta option" where
  "cs_process_calls_in_fpag ce func s =
     do { fpag \<leftarrow> get_func_pag (cs_pag s) (cs_func_id func);
          s \<leftarrow> fold_opt (cs_process_static_call ce func) (static_dispatch_callsites fpag) s;
          s \<leftarrow> fold_opt (cs_process_special_call ce func) (special_callsites fpag) s;
          let s = fold (cs_register_call ce add_dynamic_fntrait_call DynamicFnTrait (cid func)) (dynamic_fntrait_callsites fpag) s;
          let s = fold (cs_register_call ce add_dynamic_dispatch_call DynamicDispatch (cid func)) (dynamic_dispatch_callsites fpag) s;
          Some (fold (cs_register_call ce add_fnptr_call FnPtr (cid func)) (fnptr_callsites fpag) s) }"

subsection \<open>Reachable functions\<close>

definition cs_process_reach_func ::
    "('c, 'g, 'cg, 'fg, 'st, 'e) cspta_env \<Rightarrow> nat \<Rightarrow> cs_func_id \<Rightarrow> ('c, 'g, 'cg, 'fg, 'st) cspta \<Rightarrow>
     ('c, 'g, 'cg, 'fg, 'st) cspta option" where
  "cs_process_reach_func ce n func s =
     (if func \<in> cs_processed_funcs s then Some s
      else do {
        func_ref \<leftarrow> get_function_reference (acx_functions (cs_acx s)) (cs_func_id func);
        (acx, pag, built) \<leftarrow> build_func_pag (ce_pe ce) (cs_func_id func) (cs_acx s) (cs_pag s);
        let s = s\<lparr>cs_acx := acx, cs_pag := pag\<rparr>;
        if built then do {
          s \<leftarrow> cs_add_fpag_edges ce n func s;
          cs_process_calls_in_fpag ce func s }
        else Some s })"

fun cs_process_reach_funcs ::
    "('c, 'g, 'cg, 'fg, 'st, 'e) cspta_env \<Rightarrow> nat \<Rightarrow> nat \<Rightarrow> ('c, 'g, 'cg, 'fg, 'st) cspta \<Rightarrow> ('c, 'g, 'cg, 'fg, 'st) cspta option" where
  "cs_process_reach_funcs ce n 0 s = (if cs_rf_iter s < length (reach_funcs (cs_call_graph s)) then None else Some s)"
| "cs_process_reach_funcs ce n (Suc m) s =
     (if cs_rf_iter s < length (reach_funcs (cs_call_graph s)) then do {
        s \<leftarrow> cs_process_reach_func ce n (reach_funcs (cs_call_graph s) ! cs_rf_iter s) (s\<lparr>cs_rf_iter := Suc (cs_rf_iter s)\<rparr>);
        cs_process_reach_funcs ce n m s }
      else Some s)"

definition cs_process_new_calls ::
    "('c, 'g, 'cg, 'fg, 'st, 'e) cspta_env \<Rightarrow> nat \<Rightarrow> nat \<Rightarrow> (cs_call_site \<times> func_id) list \<Rightarrow> ('c, 'g, 'cg, 'fg, 'st) cspta \<Rightarrow>
     ('c, 'g, 'cg, 'fg, 'st) cspta option" where
  "cs_process_new_calls ce n m calls s =
     do { s \<leftarrow> fold_opt (\<lambda>(callsite, callee_id). process_new_call ce callsite callee_id) calls s;
          cs_process_reach_funcs ce n m s }"

definition cs_process_new_call_instances ::
    "('c, 'g, 'cg, 'fg, 'st, 'e) cspta_env \<Rightarrow> nat \<Rightarrow> nat \<Rightarrow> (cs_call_site \<times> cs_path \<times> func_id) list \<Rightarrow>
     ('c, 'g, 'cg, 'fg, 'st) cspta \<Rightarrow> ('c, 'g, 'cg, 'fg, 'st) cspta option" where
  "cs_process_new_call_instances ce n m instances s =
     do { s \<leftarrow> fold_opt (\<lambda>(callsite, receiver, callee_id). instance_call ce callsite (Some receiver) callee_id) instances s;
          cs_process_reach_funcs ce n m s }"

subsection \<open>The analysis\<close>

definition cs_pre_analysis ::
    "('c, 'g, 'cg, 'fg, 'st, 'e) cspta_env \<Rightarrow>
     ('c analysis_context \<Rightarrow> ('c analysis_context \<times> ('fg, func_id, func_id base_call_site) call_graph) option) \<Rightarrow> nat list \<Rightarrow>
     ('c, 'g, 'cg, 'fg, 'st) cspta \<Rightarrow> ('c, 'g, 'cg, 'fg, 'st) cspta option" where
  "cs_pre_analysis ce rta order s =
     (if \<not> ce_stack_filtering ce then Some s
      else do {
        (acx, call_graph) \<leftarrow> rta (cs_acx s);
        sf \<leftarrow> stack_filter_new (ce_fgops ce) order call_graph;
        Some (s\<lparr>cs_acx := acx, cs_stack_filter := Some (ce_with_stack_filter ce sf)\<rparr>) })"

definition cs_initialize ::
    "('c, 'g, 'cg, 'fg, 'st, 'e) cspta_env \<Rightarrow> nat \<Rightarrow> nat \<Rightarrow> ('c, 'g, 'cg, 'fg, 'st) cspta \<Rightarrow> ('c, 'g, 'cg, 'fg, 'st) cspta option" where
  "cs_initialize ce n m s =
     (case cs_empty_context_id ce s of (s, empty_context_id) \<Rightarrow>
        do { let be = pe_build (ce_pe ce);
             (acx, entry_func_id) \<leftarrow>
               acx_get_func_id (be_tcx be) (be_text be) (be_from_usize be) (cs_acx s) (acx_entry_point (cs_acx s)) [];
             let s = s\<lparr>cs_acx := acx,
                       cs_call_graph := cg_add_node (ce_cgops ce) (cs_call_graph s) (cs_func_id_new empty_context_id entry_func_id)\<rparr>;
             cs_process_reach_funcs ce n m s })"

definition cs_solve_round ::
    "('c, 'g, 'cg, 'fg, 'st, 'e) cspta_env \<Rightarrow> nat \<Rightarrow> nat \<Rightarrow> nat \<Rightarrow> ('c, 'g, 'cg, 'fg, 'st) cspta \<Rightarrow>
     (('c, 'g, 'cg, 'fg, 'st) cspta \<times> (cs_call_site \<times> func_id) list \<times> (cs_call_site \<times> cs_path \<times> func_id) list) option" where
  "cs_solve_round ce casts rounds read s =
     do { p \<leftarrow> solve_worklist (cs_solver_env ce (ctx_strategy s)) casts rounds
            (propagator_new (cs_acx s) (cs_pt_data s) (cs_pag s) (cs_addr_edge_iter s)
              (drop read (cs_inter_proc_edges_queue s)) (cs_assoc_calls s) (cs_stack_filter s));
          Some (s\<lparr>cs_acx := sv_acx p, cs_pt_data := sv_pt p, cs_pag := sv_pag p, cs_addr_edge_iter := addr_edge_iter p,
                 cs_assoc_calls := assoc_calls p, cs_stack_filter := sv_stack_filter p\<rparr>,
                new_calls p, new_call_instances p) }"

record cs_limits =
  clim_depth :: nat
  clim_funcs :: nat
  clim_casts :: nat
  clim_rounds :: nat

fun cs_propagate_loop ::
    "('c, 'g, 'cg, 'fg, 'st, 'e) cspta_env \<Rightarrow> cs_limits \<Rightarrow> nat \<Rightarrow> nat \<Rightarrow> ('c, 'g, 'cg, 'fg, 'st) cspta \<Rightarrow>
     ('c, 'g, 'cg, 'fg, 'st) cspta option" where
  "cs_propagate_loop ce lim 0 read s = None"
| "cs_propagate_loop ce lim (Suc k) read s =
     do { (s', calls, instances) \<leftarrow> cs_solve_round ce (clim_casts lim) (clim_rounds lim) read s;
          if calls = [] \<and> instances = [] then Some s'
          else do {
            s'' \<leftarrow> cs_process_new_calls ce (clim_depth lim) (clim_funcs lim) calls s';
            s'' \<leftarrow> cs_process_new_call_instances ce (clim_depth lim) (clim_funcs lim) instances s'';
            cs_propagate_loop ce lim k (length (cs_inter_proc_edges_queue s)) s'' } }"

definition cs_propagate ::
    "('c, 'g, 'cg, 'fg, 'st, 'e) cspta_env \<Rightarrow> cs_limits \<Rightarrow> nat \<Rightarrow> ('c, 'g, 'cg, 'fg, 'st) cspta \<Rightarrow> ('c, 'g, 'cg, 'fg, 'st) cspta option" where
  "cs_propagate ce lim k s = cs_propagate_loop ce lim k 0 s"

definition cs_analyze ::
    "('c, 'g, 'cg, 'fg, 'st, 'e) cspta_env \<Rightarrow> cs_limits \<Rightarrow> nat \<Rightarrow>
     ('c analysis_context \<Rightarrow> ('c analysis_context \<times> ('fg, func_id, func_id base_call_site) call_graph) option) \<Rightarrow> nat list \<Rightarrow>
     ('c, 'g, 'cg, 'fg, 'st) cspta \<Rightarrow> ('c, 'g, 'cg, 'fg, 'st) cspta option" where
  "cs_analyze ce lim k rta order s =
     do { s \<leftarrow> cs_pre_analysis ce rta order s;
          s \<leftarrow> cs_initialize ce (clim_depth lim) (clim_funcs lim) s;
          cs_propagate ce lim k s }"

end
