(* ===== verification/Spec2Isabelle.thy ===== *)
theory Spec2Isabelle
  imports Pt_Data Chunked_Queue Index_Tree Stack_Filter Pag Solver_Exact Andersen_Properties Context_Sensitive
begin

text \<open>
  A verification development for RUPTA, a pointer analysis for Rust (\<open>src/src\<close>).

  \<^bold>\<open>The program.\<close> RUPTA runs inside the compiler. It translates the MIR of each reachable function
  into the pointer constraints of the function (\<open>builder/fpag_builder.rs\<close>, \<open>graph/func_pag.rs\<close>),
  adds these, for every context the function is called in, to one pointer assignment graph
  (\<open>graph/pag.rs\<close>), and propagates points-to facts along its edges
  (\<open>pta/propagator/propagator.rs\<close>). The facts resolve calls through trait objects, function
  pointers and closures; the calls extend the call graph (\<open>graph/call_graph.rs\<close>) and make new
  functions reachable, until nothing changes (\<open>pta/andersen.rs\<close>, \<open>pta/context_sensitive.rs\<close>).
  Memory is described by paths (\<open>mir/path.rs\<close>), whose types decide which facts may flow where
  (\<open>util/type_util.rs\<close>).

  \<^bold>\<open>Theories.\<close> The definitions carry the names of the functions they model, prefixed where a name
  is taken; each theory says in its first paragraphs which file it models.

  \<^item> Data structures: \<open>Bit_Vec\<close> (\<open>util/bit_vec.rs\<close>), \<open>Points_To\<close> and \<open>Pt_Data\<close> (\<open>pts_set/\<close>),
    \<open>Chunked_Queue\<close> (\<open>util/chunked_queue.rs\<close>), \<open>Index_Tree\<close> (\<open>util/index_tree.rs\<close>). The locale
    \<open>points_to_set\<close> is the trait \<open>PointsToSet\<close>; the points-to data is verified against it and
    interpreted with the hybrid set. The set operations are refinements of sets, with two
    \<open>intersect\<close> functions that are not, whose exact behaviour is stated.
  \<^item> Paths, functions and contexts: \<open>Paths\<close>, \<open>Call_Sites\<close>, \<open>Interner\<close>, \<open>Contexts\<close>, \<open>Functions\<close>
    (\<open>mir/\<close>, \<open>pta/strategies/context_strategy.rs\<close>). Interning is one locale; ids are shown one to
    one and contexts bounded, for all four strategies.
  \<^item> Graphs: \<open>Graph_Api\<close> states the laws of the crate \<open>petgraph\<close> that the program uses as a
    locale, with an adjacency list as instance. \<open>Call_Graph\<close>, \<open>Func_Pag\<close>, \<open>Pag\<close> and \<open>Pag_Path\<close>
    (trait \<open>PAGPath\<close>) model \<open>graph/\<close>; building a graph gives exactly the constraints added.
  \<^item> Reachability and stack filtering: \<open>Reachability\<close>, \<open>Stack_Filter\<close>
    (\<open>pta/strategies/stack_filtering.rs\<close>): both variants compute the transitive closure, and the
    filter keeps every object of a frame that may be on the stack.
  \<^item> Types: \<open>Types\<close> (the compiler's types as a datatype, its queries as the record \<open>tcx\<close>),
    \<open>Type_Fields\<close>, \<open>Byte_Offsets\<close>, \<open>Layouts\<close>, \<open>Type_Compare\<close>, \<open>Path_Cast\<close>
    (\<open>util/type_util.rs\<close>), \<open>Analysis_Context\<close> (\<open>mir/analysis_context.rs\<close>), \<open>Substs\<close>
    (\<open>builder/substs_specializer.rs\<close>), \<open>Known_Names\<close> (\<open>mir/known_names.rs\<close>), \<open>Call_Resolution\<close>
    (\<open>builder/call_graph_builder.rs\<close>, \<open>util/mod.rs\<close>), \<open>Path_Types\<close> (the type operations of
    \<open>PAGPath\<close>, with and without contexts).
  \<^item> Partial correctness: \<open>Outcome\<close> (steps that may panic, and \<open>post\<close>: what holds of the result of
    one that does not), \<open>Context_Growth\<close> (the operations on the analysis context only add to it).
  \<^item> Translation of bodies: \<open>Mir_Body\<close> (MIR as datatypes, the compiler's answers as a record),
    \<open>Fpag_Edges\<close>, \<open>Fpag_Calls\<close>, \<open>Fpag_Builder\<close> (\<open>builder/fpag_builder.rs\<close>), \<open>Special_Functions\<close>
    (\<open>builder/special_function_handler.rs\<close>). \<open>Own_Paths\<close>, \<open>Builder_State\<close> and
    \<open>Builder_Invariant\<close> show by one rule per visitor that the graph of any body is well formed;
    \<open>Builder_Properties\<close> that assignments become the constraints of a points-to analysis, and what
    a cast of the mutability loses. \<open>Body_Graphs\<close> models how \<open>graph/pag.rs\<close> keeps the graphs of
    bodies, promoted constants and statics; \<open>Body_Invariant\<close> shows that they stay well formed.
  \<^item> Solver: \<open>Propagator\<close> is the whole of \<open>pta/propagator/propagator.rs\<close>. \<open>Solver_Invariant\<close>
    shows by rules for each handler that a run only adds facts, nodes, edges and calls, that every
    node with unpropagated facts is on the worklist, and so that none is left at the end.
    \<open>Solver_Exact\<close> shows for graphs that take addresses and copy pointers that the solver returns
    and that its result is the least solution. \<open>Solver_Sample\<close> holds runs that are evaluated; one
    shows where the result is not a solution.
  \<^item> Rapid type analysis: \<open>Rta\<close> (the state and the solving steps of \<open>rta/rta.rs\<close>) and
    \<open>Rta_Visitor\<close> (\<open>rta/body_visitor.rs\<close> and the loops). \<open>Rta_Upcasts\<close> shows that the loop over
    upcasts ends with the least closure, \<open>Rta_Invariant\<close> and \<open>Rta_Complete\<close> that every call the
    analysis records is resolved when it returns.
  \<^item> Drivers: \<open>Andersen\<close> (\<open>pta/andersen.rs\<close>) and \<open>Context_Sensitive\<close>
    (\<open>pta/context_sensitive.rs\<close>). \<open>Andersen_Invariant\<close> composes the translation, the solver, the
    call graph and the rapid type analysis: every function that the context-insensitive analysis
    reaches has been dealt with when it returns. \<open>Andersen_Properties\<close> states this, runs the driver
    on sample programs, and shows that calls in the initializers of statics are lost. For the
    context-sensitive driver only the model is given; its contexts and its stack filter are
    verified in the theories above.

  \<^bold>\<open>Correspondence.\<close> Structures are records, enumerations datatypes. A hash map is a map and a hash
  set a set; where the code iterates over a hash set, the order is a parameter. Vectors and queues
  are lists. Node, edge, function and context ids are natural numbers; the elements of points-to
  sets are 64-bit words, with a bound on the ids where they are stored. A panic is \<open>None\<close>, and so
  is undefined behaviour in the unsafe code of the queue. Mutable state is passed explicitly; a
  trait is a record of its methods with a locale for its contract.

  \<^bold>\<open>Fuel.\<close> Recursion that the compiler's answers may prolong without end (specialization of
  aliases, evaluation of paths, comparison of types) takes fuel; \<open>Substs\<close> shows that more fuel
  never changes a result, and the walks over types of finite size are shown to end. Casts of
  pointers to pointers recurse by fuel as well. The loop of the solver takes the number of rounds;
  for graphs of assignments the square of the number of nodes is shown to be enough. The loop over
  upcasts is given enough rounds by the number of pairs of a trait object and a type. The loops
  over reachable functions and the rounds of both drivers take fuel because instances of generic
  functions may become reachable without end: nothing in the program bounds them, so the
  properties of the drivers are about runs that return, and the sample programs show such runs.

  \<^bold>\<open>Not modelled.\<close> Command line and compiler callbacks (\<open>bin/\<close>, \<open>lib.rs\<close>, \<open>util/options.rs\<close>, most of
  \<open>pta/mod.rs\<close>): argument parsing and calls into the compiler. Output (\<open>util/dot.rs\<close>,
  \<open>util/results_dumper.rs\<close>, the textual output of paths, types and sets) and measurements
  (\<open>util/mem_watcher.rs\<close>, \<open>util/pta_statistics.rs\<close>, \<open>util/unsafe_statistics.rs\<close>,
  \<open>util/call_graph_stat.rs\<close>): these print or count the results of the parts above and change
  nothing. Logging and timing are left out everywhere.
\<close>

end
